(* ===== verification/Prelude.thy ===== *)
theory Prelude
  imports Main "HOL-Library.Word"
begin

text \<open>
  Types, arithmetic and library routines that every component of the development shares.

  Unsigned Go integers are words (\<open>uint64\<close> identifiers, \<open>uint32\<close> counters), so sums wrap as in Go.
  Signed Go integers are \<open>int\<close> with the wrap-around written out (\<open>wrap32\<close>, \<open>wrap64\<close>).  A Go string is
  its list of bytes.  The routines of Go's package \<open>strings\<close> that the code calls are defined here, each
  with the lemmas the components use.
\<close>

named_theorems go_strings \<open>behaviour of the string routines\<close>
named_theorems invs \<open>operations that keep an invariant\<close>

section \<open>Integers\<close>

type_synonym u64 = "64 word"
type_synonym u32 = "32 word"

definition wrap32 :: "int \<Rightarrow> int" where
  "wrap32 x = (x + 2147483648) mod 4294967296 - 2147483648"

definition wrap64 :: "int \<Rightarrow> int" where
  "wrap64 x = (x + 9223372036854775808) mod 18446744073709551616 - 9223372036854775808"

definition in_i32 :: "int \<Rightarrow> bool" where
  "in_i32 x \<longleftrightarrow> -2147483648 \<le> x \<and> x \<le> 2147483647"

definition in_i64 :: "int \<Rightarrow> bool" where
  "in_i64 x \<longleftrightarrow> -9223372036854775808 \<le> x \<and> x \<le> 9223372036854775807"

lemma wrap32_id [simp]: "in_i32 x \<Longrightarrow> wrap32 x = x"
  by (simp add: wrap32_def in_i32_def)

lemma in_i32_wrap32 [simp, intro]: "in_i32 (wrap32 x)"
proof -
  have "0 \<le> (x + 2147483648) mod 4294967296" "(x + 2147483648) mod 4294967296 < 4294967296"
    by simp_all
  then show ?thesis unfolding wrap32_def in_i32_def by linarith
qed

text \<open>
  Go's \<open>/\<close> and \<open>%\<close> on signed integers truncate towards zero.  On the non-negative operands of the
  code they agree with \<open>div\<close> and \<open>mod\<close>.
\<close>

definition go_div :: "int \<Rightarrow> int \<Rightarrow> int" where
  "go_div a b = sgn a * sgn b * (\<bar>a\<bar> div \<bar>b\<bar>)"

definition go_rem :: "int \<Rightarrow> int \<Rightarrow> int" where
  "go_rem a b = a - b * go_div a b"

lemma go_div_pos [simp]: "0 \<le> a \<Longrightarrow> 0 < b \<Longrightarrow> go_div a b = a div b"
  by (cases "a = 0") (simp_all add: go_div_def)

lemma go_rem_pos [simp]: "0 \<le> a \<Longrightarrow> 0 < b \<Longrightarrow> go_rem a b = a mod b"
  by (simp add: go_rem_def minus_mult_div_eq_mod)

section \<open>Errors and lists\<close>

fun bind_res :: "'e + 'a \<Rightarrow> ('a \<Rightarrow> 'e + 'b) \<Rightarrow> 'e + 'b" where
  "bind_res (Inl e) f = Inl e"
| "bind_res (Inr x) f = f x"

lemma bind_res_Inr_iff: "bind_res r f = Inr y \<longleftrightarrow> (\<exists>x. r = Inr x \<and> f x = Inr y)"
  by (cases r) auto

text \<open>A call that may also panic: \<open>Panic\<close> carries the value given to \<open>panic\<close>, \<open>Err\<close> a returned error.\<close>

datatype ('e, 'a) outcome = Panic string | Err 'e | Ok 'a

fun bind_out :: "('e, 'a) outcome \<Rightarrow> ('a \<Rightarrow> ('e, 'b) outcome) \<Rightarrow> ('e, 'b) outcome" where
  "bind_out (Panic m) f = Panic m"
| "bind_out (Err e) f = Err e"
| "bind_out (Ok x) f = f x"

lemma bind_out_Ok_iff: "bind_out r f = Ok y \<longleftrightarrow> (\<exists>x. r = Ok x \<and> f x = Ok y)"
  by (cases r) auto

text \<open>Replace the first element that satisfies a test, as a loop with an early return does.\<close>

fun update_first :: "('a \<Rightarrow> bool) \<Rightarrow> ('a \<Rightarrow> 'a) \<Rightarrow> 'a list \<Rightarrow> 'a list" where
  "update_first P f [] = []"
| "update_first P f (x # xs) = (if P x then f x # xs else x # update_first P f xs)"

lemma length_update_first [simp]: "length (update_first P f xs) = length xs"
  by (induction xs) auto

lemma map_update_first: "(\<And>x. g (f x) = g x) \<Longrightarrow> map g (update_first P f xs) = map g xs"
  by (induction xs) auto

lemma update_first_id: "\<forall>x\<in>set xs. \<not> P x \<Longrightarrow> update_first P f xs = xs"
  by (induction xs) auto

text \<open>
  The contract of a keyed store that several components keep as a list with linear search: storing
  a value at a key that the store accepts changes the lookup at that key only.  The facts derived
  here once serve the grades of a submission, the slip days of an enrollment and the streams of a
  service.
\<close>

locale keyed_store =
  fixes lookup :: "'s \<Rightarrow> 'k \<Rightarrow> 'v"
    and put :: "'s \<Rightarrow> 'k \<Rightarrow> 'v \<Rightarrow> 's"
    and accepts :: "'s \<Rightarrow> 'k \<Rightarrow> bool"
  assumes lookup_same: "accepts s k \<Longrightarrow> lookup (put s k v) k = v"
    and lookup_other: "k \<noteq> k' \<Longrightarrow> lookup (put s k v) k' = lookup s k'"
    and accepts_put: "accepts (put s k v) k' \<longleftrightarrow> accepts s k'"
begin

lemma lookup_put: "accepts s k \<Longrightarrow> lookup (put s k v) = (lookup s)(k := v)"
  by (rule ext) (simp add: lookup_same lookup_other)

lemma put_overwrites: "accepts s k \<Longrightarrow> lookup (put (put s k v) k w) = lookup (put s k w)"
  by (simp add: lookup_put accepts_put)

lemma puts_commute:
  "accepts s k \<Longrightarrow> accepts s j \<Longrightarrow> k \<noteq> j \<Longrightarrow>
    lookup (put (put s k v) j w) = lookup (put (put s j w) k v)"
  by (simp add: lookup_put accepts_put fun_upd_twist)

lemma lookup_puts:
  "\<forall>k\<in>set ks. accepts s k \<Longrightarrow>
    lookup (fold (\<lambda>k s. put s k v) ks s) j = (if j \<in> set ks then v else lookup s j)"
  by (induction ks arbitrary: s) (auto simp: accepts_put lookup_put)

end

text \<open>
  A map that remembers the order in which its keys were first added: a list of names beside a map.
  Adding a value under a new name appends the name, adding one under a known name keeps the names.
\<close>

definition om_inv :: "'k list \<Rightarrow> ('k \<rightharpoonup> 'v) \<Rightarrow> bool" where
  "om_inv ns m \<longleftrightarrow> distinct ns \<and> set ns = dom m"

locale ordered_map =
  fixes names :: "'s \<Rightarrow> 'k list"
    and entries :: "'s \<Rightarrow> ('k \<rightharpoonup> 'v)"
    and key :: "'v \<Rightarrow> 'k"
    and add :: "'s \<Rightarrow> 'v \<Rightarrow> 's"
    and accepts :: "'s \<Rightarrow> 'v \<Rightarrow> bool"
  assumes names_add: "accepts s v \<Longrightarrow>
      names (add s v) = (if key v \<in> dom (entries s) then names s else names s @ [key v])"
    and dom_add: "accepts s v \<Longrightarrow> dom (entries (add s v)) = insert (key v) (dom (entries s))"
begin

lemma add_inv: "accepts s v \<Longrightarrow> om_inv (names s) (entries s) \<Longrightarrow> om_inv (names (add s v)) (entries (add s v))"
  by (auto simp: om_inv_def names_add dom_add)

lemma names_grow: "accepts s v \<Longrightarrow> \<exists>ys. names (add s v) = names s @ ys"
  by (simp add: names_add)

lemma adds_inv:
  assumes "\<And>s v. accepts s v" and "om_inv (names s) (entries s)"
  shows "om_inv (names (fold (\<lambda>v s. add s v) vs s)) (entries (fold (\<lambda>v s. add s v) vs s))"
  using assms(2)
proof (induction vs arbitrary: s)
  case (Cons v vs)
  from Cons.IH [OF add_inv [OF assms(1) Cons.prems]] show ?case by simp
qed simp

lemma adds_dom:
  assumes "\<And>s v. accepts s v"
  shows "dom (entries (fold (\<lambda>v s. add s v) vs s)) = dom (entries s) \<union> key ` set vs"
  by (induction vs arbitrary: s) (auto simp: dom_add [OF assms])

lemma adds_names_known:
  assumes "\<And>s v. accepts s v" and "key ` set vs \<subseteq> dom (entries s)"
  shows "names (fold (\<lambda>v s. add s v) vs s) = names s"
  using assms(2)
proof (induction vs arbitrary: s)
  case (Cons v vs)
  then have "names (add s v) = names s" "key ` set vs \<subseteq> dom (entries (add s v))"
    by (auto simp: names_add [OF assms(1)] dom_add [OF assms(1)])
  with Cons.IH [of "add s v"] show ?case by simp
qed simp

lemma adds_names_fresh:
  assumes "\<And>s v. accepts s v" and "distinct (map key vs)" and "key ` set vs \<inter> dom (entries s) = {}"
  shows "names (fold (\<lambda>v s. add s v) vs s) = names s @ map key vs"
  using assms(2,3)
proof (induction vs arbitrary: s)
  case (Cons v vs)
  then have "key ` set vs \<inter> dom (entries (add s v)) = {}" by (auto simp: dom_add [OF assms(1)])
  with Cons.IH [of "add s v"] Cons.prems show ?case by (auto simp: names_add [OF assms(1)])
qed simp

end

text \<open>Where the keys of a list are distinct, filtering by the key of a member leaves that member.\<close>

lemma filter_distinct_key:
  assumes "x \<in> set xs" and "distinct (map k xs)"
  shows "filter (\<lambda>y. k y = k x) xs = [x]"
proof -
  obtain ys zs where xs: "xs = ys @ x # zs" using split_list [OF assms(1)] by blast
  then have "filter (\<lambda>y. k y = k x) ys = []" "filter (\<lambda>y. k y = k x) zs = []"
    using assms(2) by (simp_all add: filter_empty_conv) (metis image_eqI)+
  with xs show ?thesis by simp
qed

section \<open>Strings\<close>

definition has_prefix :: "string \<Rightarrow> string \<Rightarrow> bool" where
  "has_prefix s p \<longleftrightarrow> take (length p) s = p"

definition has_suffix :: "string \<Rightarrow> string \<Rightarrow> bool" where
  "has_suffix s p \<longleftrightarrow> length p \<le> length s \<and> drop (length s - length p) s = p"

lemma has_prefix_append [simp]: "has_prefix (p @ s) p"
  by (simp add: has_prefix_def)

lemma has_suffix_append [simp]: "has_suffix (s @ p) p"
  by (simp add: has_suffix_def)

lemma has_prefixE:
  assumes "has_prefix s p"
  obtains t where "s = p @ t"
  using assms append_take_drop_id [of "length p" s] unfolding has_prefix_def by metis

lemma has_suffixE:
  assumes "has_suffix s p"
  obtains t where "s = t @ p"
  using assms append_take_drop_id [of "length s - length p" s] unfolding has_suffix_def by metis

text \<open>\<open>strings.Index\<close>, \<open>strings.Contains\<close> and \<open>strings.Cut\<close>.\<close>

fun index_of :: "string \<Rightarrow> string \<Rightarrow> nat option" where
  "index_of [] p = (if p = [] then Some 0 else None)"
| "index_of (c # s) p =
     (if has_prefix (c # s) p then Some 0 else map_option Suc (index_of s p))"

definition contains_str :: "string \<Rightarrow> string \<Rightarrow> bool" where
  "contains_str s p \<longleftrightarrow> index_of s p \<noteq> None"

definition cut :: "string \<Rightarrow> string \<Rightarrow> (string \<times> string) option" where
  "cut s p = map_option (\<lambda>i. (take i s, drop (i + length p) s)) (index_of s p)"

lemma index_of_Some: "index_of s p = Some i \<Longrightarrow> s = take i s @ p @ drop (i + length p) s"
proof (induction s arbitrary: i)
  case Nil
  then show ?case by (auto split: if_splits)
next
  case (Cons c s)
  show ?case
  proof (cases "has_prefix (c # s) p")
    case True
    with Cons.prems have "i = 0" by simp
    moreover from True obtain t where "c # s = p @ t" by (rule has_prefixE)
    ultimately show ?thesis by simp
  next
    case False
    with Cons.prems obtain j where "index_of s p = Some j" "i = Suc j" by auto
    with Cons.IH [of j] show ?thesis by simp
  qed
qed

lemma contains_str_append [simp]: "contains_str (a @ p @ b) p"
proof (induction a)
  case Nil
  have "has_prefix (p @ b) p" by simp
  then show ?case by (cases "p @ b") (auto simp: contains_str_def has_prefix_def)
next
  case (Cons c a)
  then show ?case by (auto simp: contains_str_def)
qed

lemma contains_str_iff: "contains_str s p \<longleftrightarrow> (\<exists>a b. s = a @ p @ b)"
  using index_of_Some [of s p] by (fastforce simp: contains_str_def intro: contains_str_append)

lemma cut_Some: "cut s p = Some (a, b) \<Longrightarrow> s = a @ p @ b"
  using index_of_Some [of s p] by (auto simp: cut_def)

text \<open>\<open>strings.Split\<close> and \<open>strings.Join\<close> with a one-byte separator, \<open>strings.LastIndex\<close> of one byte.\<close>

fun split_on :: "char \<Rightarrow> string \<Rightarrow> string list" where
  "split_on d [] = [[]]"
| "split_on d (c # s) =
     (if c = d then [] # split_on d s
      else (case split_on d s of [] \<Rightarrow> [[c]] | w # ws \<Rightarrow> (c # w) # ws))"

fun join_on :: "string \<Rightarrow> string list \<Rightarrow> string" where
  "join_on d [] = []"
| "join_on d [w] = w"
| "join_on d (w # v # ws) = w @ d @ join_on d (v # ws)"

fun last_index :: "char \<Rightarrow> string \<Rightarrow> nat option" where
  "last_index d [] = None"
| "last_index d (c # s) =
     (case last_index d s of Some i \<Rightarrow> Some (Suc i) | None \<Rightarrow> if c = d then Some 0 else None)"

lemma split_on_nonempty [simp]: "split_on d s \<noteq> []"
  by (induction s) (auto split: list.splits)

lemma join_on_Cons: "ws \<noteq> [] \<Longrightarrow> join_on d (w # ws) = w @ d @ join_on d ws"
  by (cases ws) auto

lemma join_on_consc: "join_on d ((c # w) # ws) = c # join_on d (w # ws)"
  by (cases ws) auto

lemma join_split [simp, go_strings]: "join_on [d] (split_on d s) = s"
proof (induction s)
  case Nil
  show ?case by simp
next
  case (Cons c s)
  show ?case
  proof (cases "c = d")
    case True
    with Cons.IH show ?thesis by (simp add: join_on_Cons)
  next
    case False
    obtain w ws where "split_on d s = w # ws"
      by (meson neq_Nil_conv split_on_nonempty)
    with False Cons.IH show ?thesis by (simp add: join_on_consc)
  qed
qed

lemma split_on_no_sep: "w \<in> set (split_on d s) \<Longrightarrow> d \<notin> set w"
proof (induction s arbitrary: w)
  case Nil
  then show ?case by simp
next
  case (Cons c s)
  then show ?case by (cases "c = d") (auto split: list.splits)
qed

lemma split_on_word: "d \<notin> set w \<Longrightarrow> split_on d w = [w]"
  by (induction w) auto

lemma split_on_append [go_strings]:
  "d \<notin> set w \<Longrightarrow> split_on d (w @ d # s) = w # split_on d s"
  by (induction w) auto

lemma last_index_None: "last_index d s = None \<longleftrightarrow> d \<notin> set s"
  by (induction s) (auto split: option.splits)

lemma last_index_append [go_strings]: "d \<notin> set w \<Longrightarrow> last_index d (s @ d # w) = Some (length s)"
  by (induction s) (auto simp: last_index_None [THEN iffD2])

text \<open>
  \<open>strings.TrimSpace\<close>: the UTF-8 encodings of Unicode's white space are removed at both ends.  A
  white-space encoding is never a proper part of the encoding of another character, so looking for
  it as a prefix or a suffix of the bytes is what decoding the first or the last character does.
\<close>

definition space_codes :: "string list" where
  "space_codes = map (map char_of)
     ([[9], [10], [11], [12], [13], [32], [0xC2, 0x85], [0xC2, 0xA0], [0xE1, 0x9A, 0x80],
       [0xE2, 0x80, 0xA8], [0xE2, 0x80, 0xA9], [0xE2, 0x80, 0xAF], [0xE2, 0x81, 0x9F],
       [0xE3, 0x80, 0x80]] @ map (\<lambda>b. [0xE2, 0x80, b]) [0x80..<0x8B :: nat])"

lemma space_codes_eval [code]:
  "space_codes =
     [[CHR 0x09], [CHR 0x0A], [CHR 0x0B], [CHR 0x0C], [CHR 0x0D], [CHR 0x20], [CHR 0xC2, CHR 0x85],
      [CHR 0xC2, CHR 0xA0], [CHR 0xE1, CHR 0x9A, CHR 0x80], [CHR 0xE2, CHR 0x80, CHR 0xA8],
      [CHR 0xE2, CHR 0x80, CHR 0xA9], [CHR 0xE2, CHR 0x80, CHR 0xAF], [CHR 0xE2, CHR 0x81, CHR 0x9F],
      [CHR 0xE3, CHR 0x80, CHR 0x80],
      [CHR 0xE2, CHR 0x80, CHR 0x80], [CHR 0xE2, CHR 0x80, CHR 0x81], [CHR 0xE2, CHR 0x80, CHR 0x82],
      [CHR 0xE2, CHR 0x80, CHR 0x83], [CHR 0xE2, CHR 0x80, CHR 0x84], [CHR 0xE2, CHR 0x80, CHR 0x85],
      [CHR 0xE2, CHR 0x80, CHR 0x86], [CHR 0xE2, CHR 0x80, CHR 0x87], [CHR 0xE2, CHR 0x80, CHR 0x88],
      [CHR 0xE2, CHR 0x80, CHR 0x89], [CHR 0xE2, CHR 0x80, CHR 0x8A]]"
  by (simp add: space_codes_def upt_rec char_of_def bit_Suc_0_iff)

definition strip_one :: "string list \<Rightarrow> string \<Rightarrow> string" where
  "strip_one codes s = (case find (has_prefix s) codes of None \<Rightarrow> s | Some p \<Rightarrow> drop (length p) s)"

fun trim_left :: "string list \<Rightarrow> nat \<Rightarrow> string \<Rightarrow> string" where
  "trim_left codes 0 s = s"
| "trim_left codes (Suc n) s =
     (if strip_one codes s = s then s else trim_left codes n (strip_one codes s))"

definition trim_space :: "string \<Rightarrow> string" where
  "trim_space s =
     (let l = trim_left space_codes (length s) s
      in rev (trim_left (map rev space_codes) (length l) (rev l)))"

lemma strip_one_suffix: "\<exists>p. s = p @ strip_one codes s"
proof (cases "find (has_prefix s) codes")
  case None
  then show ?thesis by (simp add: strip_one_def)
next
  case (Some p)
  then have "has_prefix s p" by (auto simp: find_Some_iff)
  then obtain t where "s = p @ t" by (rule has_prefixE)
  with Some show ?thesis by (auto simp: strip_one_def)
qed

lemma trim_left_suffix: "\<exists>p. s = p @ trim_left codes n s"
proof (induction n arbitrary: s)
  case 0
  show ?case by simp
next
  case (Suc n)
  obtain p where p: "s = p @ strip_one codes s" using strip_one_suffix by blast
  obtain q where "strip_one codes s = q @ trim_left codes n (strip_one codes s)"
    using Suc.IH by blast
  then have "s = (p @ q) @ trim_left codes n (strip_one codes s)"
    using p by (metis append.assoc)
  then have "\<exists>r. s = r @ trim_left codes n (strip_one codes s)" ..
  then show ?case by simp
qed

lemma set_trim_space: "set (trim_space s) \<subseteq> set s"
proof -
  obtain p where p: "s = p @ trim_left space_codes (length s) s" using trim_left_suffix by blast
  let ?l = "trim_left space_codes (length s) s"
  obtain q where "rev ?l = q @ trim_left (map rev space_codes) (length ?l) (rev ?l)"
    using trim_left_suffix by blast
  then have "set (trim_left (map rev space_codes) (length ?l) (rev ?l)) \<subseteq> set ?l"
    by (metis Un_upper2 set_append set_rev)
  moreover have "set ?l \<subseteq> set s" using p by (metis Un_upper2 set_append)
  ultimately show ?thesis by (simp add: trim_space_def Let_def)
qed

text \<open>As many rounds as there are bytes are enough: the loop stops at a string with nothing to strip.\<close>

lemma trim_left_stops:
  assumes "length s \<le> n" and "[] \<notin> set codes"
  shows "strip_one codes (trim_left codes n s) = trim_left codes n s"
  using assms(1)
proof (induction n arbitrary: s)
  case 0
  then have "s = []" by simp
  moreover have "\<not> has_prefix [] p" if "p \<in> set codes" for p
    using that assms(2) by (auto simp: has_prefix_def)
  ultimately show ?case by (simp add: strip_one_def find_None_iff split: option.splits)
next
  case (Suc n)
  show ?case
  proof (cases "strip_one codes s = s")
    case False
    obtain p where p: "s = p @ strip_one codes s" using strip_one_suffix by blast
    with False have "p \<noteq> []" by auto
    then have "length (strip_one codes s) < length s"
      using p by (metis length_append less_add_same_cancel2 length_greater_0_conv)
    with Suc.prems have "length (strip_one codes s) \<le> n" by simp
    with False Suc.IH show ?thesis by simp
  qed simp
qed

text \<open>\<open>strings.Fields\<close>: the runs of bytes between white space.\<close>

fun span_word :: "string \<Rightarrow> string \<times> string" where
  "span_word [] = ([], [])"
| "span_word (c # s) =
     (if list_ex (has_prefix (c # s)) space_codes then ([], c # s)
      else (let (w, r) = span_word s in (c # w, r)))"

fun fields_loop :: "nat \<Rightarrow> string \<Rightarrow> string list" where
  "fields_loop 0 s = []"
| "fields_loop (Suc n) s =
     (let t = trim_left space_codes (length s) s
      in if t = [] then [] else (let (w, r) = span_word t in w # fields_loop n r))"

definition str_fields :: "string \<Rightarrow> string list" where
  "str_fields s = fields_loop (length s) s"

text \<open>\<open>filepath.Base\<close> on a system whose separator is a slash.\<close>

definition path_base :: "string \<Rightarrow> string" where
  "path_base p =
     (if p = [] then ''.''
      else let q = rev (dropWhile (\<lambda>c. c = CHR ''/'') (rev p))
           in if q = [] then ''/'' else last (split_on (CHR ''/'') q))"

text \<open>
  \<open>strings.ToLower\<close> on the letters of ASCII (course codes, image and language names), and
  \<open>strings.CutPrefix\<close>.
\<close>

definition lower_char :: "char \<Rightarrow> char" where
  "lower_char c = (let n = of_char c :: nat in if 65 \<le> n \<and> n \<le> 90 then char_of (n + 32) else c)"

definition to_lower :: "string \<Rightarrow> string" where
  "to_lower s = map lower_char s"

definition cut_prefix :: "string \<Rightarrow> string \<Rightarrow> string option" where
  "cut_prefix s p = (if has_prefix s p then Some (drop (length p) s) else None)"

text \<open>\<open>strings.Split\<close> with a separator of several bytes; as many pieces as there are bytes, and one, suffice.\<close>

fun split_str_loop :: "nat \<Rightarrow> string \<Rightarrow> string \<Rightarrow> string list" where
  "split_str_loop 0 sep s = [s]"
| "split_str_loop (Suc n) sep s =
     (case cut s sep of None \<Rightarrow> [s] | Some (a, b) \<Rightarrow> a # split_str_loop n sep b)"

definition split_str :: "string \<Rightarrow> string \<Rightarrow> string list" where
  "split_str sep s = split_str_loop (length s) sep s"

text \<open>
  \<open>filepath.Clean\<close> and \<open>filepath.Join\<close>: empty and dot components are dropped, and a double dot removes
  the component before it, or stays at the front of a relative path.
\<close>

definition clean_step :: "bool \<Rightarrow> string \<Rightarrow> string list \<Rightarrow> string list" where
  "clean_step rooted c acc =
     (if c = [] \<or> c = ''.'' then acc
      else if c = ''..'' then
        (case acc of
           [] \<Rightarrow> if rooted then [] else [c]
         | t # ts \<Rightarrow> if t = ''..'' then c # acc else ts)
      else c # acc)"

definition path_clean :: "string \<Rightarrow> string" where
  "path_clean p =
     (let rooted = has_prefix p ''/'';
          cs = rev (fold (clean_step rooted) (split_on (CHR ''/'') p) []);
          q = (if rooted then ''/'' else []) @ join_on ''/'' cs
      in if q = [] then ''.'' else q)"

definition path_join :: "string list \<Rightarrow> string" where
  "path_join ps =
     (let qs = filter (\<lambda>p. p \<noteq> []) ps in if qs = [] then [] else path_clean (join_on ''/'' qs))"

section \<open>Decimal numerals\<close>

definition digit_char :: "nat \<Rightarrow> char" where
  "digit_char d = char_of (48 + d)"

fun show_nat :: "nat \<Rightarrow> string" where
  "show_nat n = (if n < 10 then [digit_char n] else show_nat (n div 10) @ [digit_char (n mod 10)])"

declare show_nat.simps [simp del]

definition show_int :: "int \<Rightarrow> string" where
  "show_int i = (if i < 0 then CHR ''-'' # show_nat (nat (- i)) else show_nat (nat i))"

definition show_word :: "'a::len word \<Rightarrow> string" where
  "show_word w = show_nat (unat w)"

lemma show_nat_nonempty [simp]: "show_nat n \<noteq> []"
  by (subst show_nat.simps) simp

end
