(* ===== verification/Model.thy ===== *)
theory Model
  imports Prelude
begin

text \<open>
  The protobuf messages of \<open>qf/types.proto\<close>, \<open>qf/requests.proto\<close> and \<open>kit/score/score.proto\<close> that the
  Go code works on, one record per message.  A field keeps its Go name behind a short prefix of its
  message.  The getters of the generated code return the zero value of a field when the message is
  nil; a nested message is an \<open>option\<close> here, and the getters that meet \<open>None\<close> return that zero value.
  The associations between users, groups, enrollments and courses form the message trees of theory
  \<open>Messages\<close>; the records here hold the other fields.

  A timestamp is the number of nanoseconds since the Unix epoch; \<open>as_time\<close> is \<open>Timestamp.AsTime\<close>,
  which reads a nil timestamp as the epoch.  \<open>time_sub\<close> is \<open>Time.Sub\<close>, which saturates at the bounds of
  an \<open>int64\<close> duration.
\<close>

section \<open>Time\<close>

type_synonym time = int
type_synonym duration = int

definition as_time :: "time option \<Rightarrow> time" where
  "as_time t = (case t of None \<Rightarrow> 0 | Some ns \<Rightarrow> ns)"

definition time_sub :: "time \<Rightarrow> time \<Rightarrow> duration" where
  "time_sub t u = max (-9223372036854775808) (min 9223372036854775807 (t - u))"

definition hours :: duration where
  "hours = 3600000000000"

lemma time_sub_pos_iff [simp]: "0 < time_sub t u \<longleftrightarrow> u < t"
  by (auto simp: time_sub_def)

lemma time_sub_mono: "t \<le> t' \<Longrightarrow> time_sub t u \<le> time_sub t' u"
  by (auto simp: time_sub_def)

lemma in_i64_time_sub: "in_i64 (time_sub t u)"
  by (auto simp: time_sub_def in_i64_def)

section \<open>Enumerations\<close>

text \<open>
  An enum of proto3 is open: any \<open>int32\<close> can arrive on the wire.  The enrollment status is compared
  by order when a request is validated, so it is its code, ordered as the signed code is.  The other
  enums are only compared for equality with their declared values.
\<close>

datatype user_status = UserStatus (status_code: "32 word")

definition Enrollment_NONE :: user_status where "Enrollment_NONE = UserStatus 0"
definition Enrollment_PENDING :: user_status where "Enrollment_PENDING = UserStatus 1"
definition Enrollment_STUDENT :: user_status where "Enrollment_STUDENT = UserStatus 2"
definition Enrollment_TEACHER :: user_status where "Enrollment_TEACHER = UserStatus 3"

lemmas user_status_defs =
  Enrollment_NONE_def Enrollment_PENDING_def Enrollment_STUDENT_def Enrollment_TEACHER_def

lemma status_code_inj: "sint (status_code a) = sint (status_code b) \<Longrightarrow> a = b"
  by (rule user_status.expand, rule signed_word_eqI)

instantiation user_status :: linorder
begin

definition less_eq_user_status :: "user_status \<Rightarrow> user_status \<Rightarrow> bool" where
  "less_eq_user_status a b \<longleftrightarrow> sint (status_code a) \<le> sint (status_code b)"

definition less_user_status :: "user_status \<Rightarrow> user_status \<Rightarrow> bool" where
  "less_user_status a b \<longleftrightarrow> sint (status_code a) < sint (status_code b)"

instance
  by standard
    (auto simp: less_eq_user_status_def less_user_status_def dest: status_code_inj)

end

lemma user_status_distinct [simp]:
  "Enrollment_NONE \<noteq> Enrollment_PENDING" "Enrollment_NONE \<noteq> Enrollment_STUDENT"
  "Enrollment_NONE \<noteq> Enrollment_TEACHER" "Enrollment_PENDING \<noteq> Enrollment_NONE"
  "Enrollment_PENDING \<noteq> Enrollment_STUDENT" "Enrollment_PENDING \<noteq> Enrollment_TEACHER"
  "Enrollment_STUDENT \<noteq> Enrollment_NONE" "Enrollment_STUDENT \<noteq> Enrollment_PENDING"
  "Enrollment_STUDENT \<noteq> Enrollment_TEACHER" "Enrollment_TEACHER \<noteq> Enrollment_NONE"
  "Enrollment_TEACHER \<noteq> Enrollment_PENDING" "Enrollment_TEACHER \<noteq> Enrollment_STUDENT"
  by (simp_all add: user_status_defs)

datatype display_state = UNSET | HIDDEN | VISIBLE | FAVORITE
datatype group_status = Group_PENDING | Group_APPROVED
datatype repo_type = R_NONE | R_INFO | R_ASSIGNMENTS | R_TESTS | R_USER | R_GROUP
datatype submission_status = S_NONE | S_APPROVED | S_REJECTED | S_REVISION
datatype criterion_grade = CG_NONE | CG_FAILED | CG_PASSED
datatype pr_stage = PR_NONE | PR_DRAFT | PR_REVIEW | PR_APPROVED

section \<open>Users, groups, courses and enrollments\<close>

record user =
  u_ID :: u64
  u_IsAdmin :: bool
  u_Name :: string
  u_StudentID :: string
  u_Email :: string
  u_AvatarURL :: string
  u_Login :: string
  u_UpdateToken :: bool
  u_ScmRemoteID :: u64
  u_RefreshToken :: string

record used_slip_days =
  sd_ID :: u64
  sd_enrollmentID :: u64
  sd_assignmentID :: u64
  sd_usedDays :: u32

record enrollment =
  e_ID :: u64
  e_courseID :: u64
  e_userID :: u64
  e_groupID :: u64
  e_status :: user_status
  e_state :: display_state
  e_slipDaysRemaining :: u32
  e_lastActivityDate :: "time option"
  e_totalApproved :: u64
  e_usedSlipDays :: "used_slip_days list"

record course =
  c_ID :: u64
  c_courseCreatorID :: u64
  c_name :: string
  c_code :: string
  c_year :: u32
  c_tag :: string
  c_ScmOrganizationID :: u64
  c_ScmOrganizationName :: string
  c_slipDays :: u32
  c_DockerfileDigest :: string
  c_enrolled :: user_status

record group_head =
  g_ID :: u64
  g_name :: string
  g_courseID :: u64
  g_status :: group_status

record group = group_head +
  g_users :: "user list"
  g_enrollments :: "enrollment list"

section \<open>Repositories, tasks, issues and pull requests\<close>

record issue =
  i_ID :: u64
  i_repositoryID :: u64
  i_taskID :: u64
  i_ScmIssueNumber :: u64

record repository =
  r_ID :: u64
  r_ScmOrganizationID :: u64
  r_ScmRepositoryID :: u64
  r_userID :: u64
  r_groupID :: u64
  r_HTMLURL :: string
  r_repoType :: repo_type
  r_issues :: "issue list"

record task =
  t_ID :: u64
  t_assignmentID :: u64
  t_assignmentOrder :: u32
  t_title :: string
  t_body :: string
  t_name :: string

record pull_request =
  pr_ID :: u64
  pr_ScmRepositoryID :: u64
  pr_taskID :: u64
  pr_issueID :: u64
  pr_userID :: u64
  pr_ScmCommentID :: u64
  pr_sourceBranch :: string
  pr_number :: u64
  pr_stage :: pr_stage

section \<open>Scores, reviews, assignments and submissions\<close>

text \<open>The \<open>int32\<close> fields of a score and of a test description are integers in the range \<open>in_i32\<close>.\<close>

record score =
  sc_ID :: u64
  sc_SubmissionID :: u64
  sc_Secret :: string
  sc_TestName :: string
  sc_TaskName :: string
  sc_Score :: int
  sc_MaxScore :: int
  sc_Weight :: int
  sc_TestDetails :: string

record build_info =
  bi_ID :: u64
  bi_SubmissionID :: u64
  bi_BuildLog :: string
  bi_ExecTime :: int
  bi_BuildDate :: "time option"
  bi_SubmissionDate :: "time option"

record test_info =
  ti_ID :: u64
  ti_AssignmentID :: u64
  ti_TestName :: string
  ti_MaxScore :: int
  ti_Weight :: int
  ti_Details :: string

record criterion =
  cr_ID :: u64
  cr_BenchmarkID :: u64
  cr_CourseID :: u64
  cr_points :: u64
  cr_description :: string
  cr_grade :: criterion_grade
  cr_comment :: string

record benchmark =
  bm_ID :: u64
  bm_CourseID :: u64
  bm_AssignmentID :: u64
  bm_ReviewID :: u64
  bm_heading :: string
  bm_comment :: string
  bm_criteria :: "criterion list"

record review =
  rv_ID :: u64
  rv_SubmissionID :: u64
  rv_ReviewerID :: u64
  rv_feedback :: string
  rv_score :: u32
  rv_benchmarks :: "benchmark list"
  rv_edited :: "time option"

record assignment =
  a_ID :: u64
  a_CourseID :: u64
  a_name :: string
  a_deadline :: "time option"
  a_autoApprove :: bool
  a_order :: u32
  a_isGroupLab :: bool
  a_scoreLimit :: u32
  a_reviewers :: u32
  a_containerTimeout :: u32
  a_tasks :: "task list"
  a_gradingBenchmarks :: "benchmark list"
  a_ExpectedTests :: "test_info list"

record grade =
  gr_SubmissionID :: u64
  gr_UserID :: u64
  gr_Status :: submission_status

record submission =
  s_ID :: u64
  s_AssignmentID :: u64
  s_userID :: u64
  s_groupID :: u64
  s_score :: u32
  s_commitHash :: string
  s_Grades :: "grade list"
  s_approvedDate :: "time option"
  s_reviews :: "review list"
  s_BuildInfo :: "build_info option"
  s_Scores :: "score list"

text \<open>The zero values of the messages: what \<open>&qf.Submission{}\<close> and the like denote.\<close>

definition zero_user :: user where
  "zero_user = \<lparr>u_ID = 0, u_IsAdmin = False, u_Name = [], u_StudentID = [], u_Email = [],
     u_AvatarURL = [], u_Login = [], u_UpdateToken = False, u_ScmRemoteID = 0, u_RefreshToken = []\<rparr>"

definition zero_enrollment :: enrollment where
  "zero_enrollment = \<lparr>e_ID = 0, e_courseID = 0, e_userID = 0, e_groupID = 0,
     e_status = Enrollment_NONE, e_state = UNSET, e_slipDaysRemaining = 0,
     e_lastActivityDate = None, e_totalApproved = 0, e_usedSlipDays = []\<rparr>"

definition zero_course :: course where
  "zero_course = \<lparr>c_ID = 0, c_courseCreatorID = 0, c_name = [], c_code = [], c_year = 0, c_tag = [],
     c_ScmOrganizationID = 0, c_ScmOrganizationName = [], c_slipDays = 0, c_DockerfileDigest = [],
     c_enrolled = Enrollment_NONE\<rparr>"

definition zero_group :: group where
  "zero_group = \<lparr>g_ID = 0, g_name = [], g_courseID = 0, g_status = Group_PENDING, g_users = [],
     g_enrollments = []\<rparr>"

definition zero_repository :: repository where
  "zero_repository = \<lparr>r_ID = 0, r_ScmOrganizationID = 0, r_ScmRepositoryID = 0, r_userID = 0,
     r_groupID = 0, r_HTMLURL = [], r_repoType = R_NONE, r_issues = []\<rparr>"

definition zero_pull_request :: pull_request where
  "zero_pull_request = \<lparr>pr_ID = 0, pr_ScmRepositoryID = 0, pr_taskID = 0, pr_issueID = 0,
     pr_userID = 0, pr_ScmCommentID = 0, pr_sourceBranch = [], pr_number = 0, pr_stage = PR_NONE\<rparr>"

definition zero_score :: score where
  "zero_score = \<lparr>sc_ID = 0, sc_SubmissionID = 0, sc_Secret = [], sc_TestName = [], sc_TaskName = [],
     sc_Score = 0, sc_MaxScore = 0, sc_Weight = 0, sc_TestDetails = []\<rparr>"

definition zero_build_info :: build_info where
  "zero_build_info = \<lparr>bi_ID = 0, bi_SubmissionID = 0, bi_BuildLog = [], bi_ExecTime = 0,
     bi_BuildDate = None, bi_SubmissionDate = None\<rparr>"

definition zero_assignment :: assignment where
  "zero_assignment = \<lparr>a_ID = 0, a_CourseID = 0, a_name = [], a_deadline = None,
     a_autoApprove = False, a_order = 0, a_isGroupLab = False, a_scoreLimit = 0, a_reviewers = 0,
     a_containerTimeout = 0, a_tasks = [], a_gradingBenchmarks = [], a_ExpectedTests = []\<rparr>"

definition zero_submission :: submission where
  "zero_submission = \<lparr>s_ID = 0, s_AssignmentID = 0, s_userID = 0, s_groupID = 0, s_score = 0,
     s_commitHash = [], s_Grades = [], s_approvedDate = None, s_reviews = [], s_BuildInfo = None,
     s_Scores = []\<rparr>"

lemmas zero_defs =
  zero_user_def zero_enrollment_def zero_course_def zero_group_def zero_repository_def
  zero_pull_request_def zero_score_def zero_build_info_def zero_assignment_def zero_submission_def

end
