(* ===== verification/Go_Float.thy ===== *)
theory Go_Float
  imports Prelude Complex_Main
begin

text \<open>
  Go's \<open>float64\<close> as far as the score computations use it: finite values are the rationals that IEEE 754
  double precision represents, every operation rounds its exact result to the nearest of them (ties to
  the even significand), and a division by zero gives an infinity or a NaN.  The exponent is not
  bounded: overflow and subnormal numbers need magnitudes above \<open>2 ^ 1023\<close> or below \<open>2 ^ -1022\<close>, which
  quotients and products of four 32-bit integers do not reach.  The sign of a zero is not kept; no
  operation of the code can tell the zeros apart, since the only divisors are conversions of integers
  and their sums.
\<close>

section \<open>Rounding to 53 bits\<close>

fun bits :: "nat \<Rightarrow> nat" where
  "bits n = (if n = 0 then 0 else Suc (bits (n div 2)))"

declare bits.simps [simp del]

lemma bits_upper: "n < 2 ^ bits n"
proof (induction n rule: bits.induct)
  case (1 n)
  show ?case
  proof (cases "n = 0")
    case False
    with 1 have "n div 2 < 2 ^ bits (n div 2)" by simp
    then have "n < 2 * 2 ^ bits (n div 2)" by linarith
    with False show ?thesis by (subst bits.simps) simp
  qed (simp add: bits.simps)
qed

lemma bits_lower: "n \<noteq> 0 \<Longrightarrow> 2 ^ bits n \<le> 2 * n"
proof (induction n rule: bits.induct)
  case (1 n)
  show ?case
  proof (cases "n div 2 = 0")
    case True
    with 1 have "n = 1" by linarith
    then show ?thesis by (simp add: bits.simps)
  next
    case False
    with 1 have "2 ^ bits (n div 2) \<le> 2 * (n div 2)" by simp
    moreover have "bits n = Suc (bits (n div 2))" using 1 by (subst bits.simps) simp
    ultimately show ?thesis using \<open>n \<noteq> 0\<close> by simp
  qed
qed

lemma bits_rat:
  assumes "0 < n"
  shows "(of_int n :: rat) < 2 ^ bits (nat n)" "2 ^ bits (nat n) \<le> 2 * (of_int n :: rat)"
proof -
  obtain k where k: "n = int k" "k \<noteq> 0" using assms by (metis less_irrefl of_nat_0 zero_less_imp_eq_int)
  have "of_nat k < (of_nat (2 ^ bits k) :: rat)" using bits_upper [of k] by (simp only: of_nat_less_iff)
  then show "(of_int n :: rat) < 2 ^ bits (nat n)" by (simp add: k)
  have "(of_nat (2 ^ bits k) :: rat) \<le> of_nat (2 * k)"
    using bits_lower [OF k(2)] by (simp only: of_nat_le_iff)
  then show "2 ^ bits (nat n) \<le> 2 * (of_int n :: rat)" by (simp add: k)
qed

text \<open>The binary exponent of a positive rational: \<open>2 powi ilog2 x \<le> x < 2 powi (ilog2 x + 1)\<close>.\<close>

definition ilog2 :: "rat \<Rightarrow> int" where
  "ilog2 x =
     (let (n, d) = quotient_of x; k = int (bits (nat n)) - int (bits (nat d))
      in if (2::rat) powi k \<le> x then k else k - 1)"

lemma powi_pos [simp]: "(0::rat) < 2 powi k"
  by (simp add: zero_less_power_int)

lemma ilog2_bounds:
  assumes "0 < x"
  shows "2 powi ilog2 x \<le> x" and "x < 2 powi (ilog2 x + 1)"
proof -
  obtain n d where nd: "quotient_of x = (n, d)" by fastforce
  then have d: "0 < d" and x: "x = of_int n / of_int d"
    using quotient_of_denom_pos quotient_of_div by blast+
  have n: "0 < n" using assms d by (simp add: x zero_less_divide_iff)
  define a b where "a = bits (nat n)" and "b = bits (nat d)"
  have N: "(of_int n :: rat) < 2 ^ a" "2 ^ a \<le> 2 * (of_int n :: rat)"
    using bits_rat [OF n] by (simp_all add: a_def)
  have D: "(of_int d :: rat) < 2 ^ b" "2 ^ b \<le> 2 * (of_int d :: rat)"
    using bits_rat [OF d] by (simp_all add: b_def)
  define k where "k = int a - int b"
  have pk: "(2::rat) powi k = 2 ^ a / 2 ^ b" by (simp add: k_def power_int_diff)
  have "x < 2 * (2 powi k)"
  proof -
    have "x < 2 ^ a / of_int d" using N(1) d by (simp add: x divide_strict_right_mono)
    also have "\<dots> \<le> 2 ^ a / (2 ^ b / 2)" using D(2) d by (intro divide_left_mono) simp_all
    finally show ?thesis by (simp add: pk mult.commute)
  qed
  moreover have "2 powi k \<le> 2 * x"
  proof -
    have "2 ^ a / 2 ^ b \<le> 2 * of_int n / (2 ^ b :: rat)" using N(2) by (simp add: divide_right_mono)
    also have "\<dots> \<le> 2 * of_int n / of_int d" using D(1) d n by (intro divide_left_mono) simp_all
    finally show ?thesis by (simp add: pk x)
  qed
  moreover have "ilog2 x = (if 2 powi k \<le> x then k else k - 1)"
    by (simp add: ilog2_def nd k_def a_def b_def)
  ultimately show "2 powi ilog2 x \<le> x" and "x < 2 powi (ilog2 x + 1)"
    by (auto simp: power_int_add power_int_diff)
qed

definition round_even :: "rat \<Rightarrow> int" where
  "round_even x =
     (let f = \<lfloor>x\<rfloor>; r = x - of_int f
      in if r < 1 / 2 then f else if 1 / 2 < r then f + 1 else if even f then f else f + 1)"

lemma round_even_error: "\<bar>of_int (round_even x) - x\<bar> \<le> 1 / 2"
proof -
  define f where "f = \<lfloor>x\<rfloor>"
  have f: "of_int f \<le> x" "x < of_int f + 1" unfolding f_def by (rule of_int_floor_le) linarith
  show ?thesis
    unfolding round_even_def Let_def f_def [symmetric] using f by (simp add: abs_le_iff)
qed

lemma round_even_int [simp]: "round_even (of_int n) = n"
  by (simp add: round_even_def)

definition rnd :: "rat \<Rightarrow> rat" where
  "rnd x = (if x = 0 then 0 else
     let ulp = 2 powi (ilog2 \<bar>x\<bar> - 52) in of_int (round_even (x / ulp)) * ulp)"

definition ueps :: rat where
  "ueps = 1 / 2 ^ 53"

lemma ueps_pos [simp]: "0 < ueps" "0 \<le> ueps"
  by (simp_all add: ueps_def)

lemma rnd_error: "\<bar>rnd x - x\<bar> \<le> \<bar>x\<bar> * ueps"
proof (cases "x = 0")
  case False
  define ulp :: rat where "ulp = 2 powi (ilog2 \<bar>x\<bar> - 52)"
  have ulp: "0 < ulp" by (simp add: ulp_def)
  have "rnd x - x = (of_int (round_even (x / ulp)) - x / ulp) * ulp"
    using False ulp by (simp add: rnd_def ulp_def Let_def algebra_simps)
  then have "\<bar>rnd x - x\<bar> \<le> 1 / 2 * ulp"
    using round_even_error [of "x / ulp"] ulp by (simp add: abs_mult mult_right_mono)
  also have "\<dots> = 2 powi ilog2 \<bar>x\<bar> * ueps"
    by (simp add: ulp_def ueps_def power_int_diff)
  also have "\<dots> \<le> \<bar>x\<bar> * ueps"
    using ilog2_bounds(1) [of "\<bar>x\<bar>"] False by (intro mult_right_mono) simp_all
  finally show ?thesis .
qed (simp add: rnd_def)

text \<open>An integer below \<open>2 ^ 53\<close> is represented exactly.\<close>

lemma rnd_int:
  assumes "\<bar>n\<bar> < 2 ^ 53"
  shows "rnd (of_int n) = of_int n"
proof (cases "n = 0")
  case False
  define e where "e = ilog2 \<bar>of_int n\<bar>"
  have "2 powi e \<le> \<bar>of_int n :: rat\<bar>" using ilog2_bounds(1) [of "\<bar>of_int n\<bar>"] False by (simp add: e_def)
  also have "\<dots> < 2 powi 53" using assms by (simp flip: of_int_abs of_int_less_iff)
  finally have "2 powi e < (2::rat) powi 53" .
  then have e: "e < 53" using power_int_increasing [of 53 e "2::rat"] by (meson not_le one_le_numeral)
  define k where "k = nat (52 - e)"
  have "e - 52 = - int k" using e by (simp add: k_def)
  then have pk: "(2::rat) powi (e - 52) = 1 / 2 ^ k" by (simp only: power_int_minus) (simp add: divide_inverse)
  have "of_int n / 2 powi (e - 52) = (of_int (n * 2 ^ k) :: rat)" by (simp add: pk)
  then have "rnd (of_int n) = of_int (n * 2 ^ k) * 2 powi (e - 52)"
    using False by (simp only: rnd_def Let_def e_def [symmetric] round_even_int) simp
  then show ?thesis by (simp add: pk)
qed (simp add: rnd_def)

section \<open>Float values\<close>

datatype f64 = NaN | Inf bool | Fin rat

fun fadd :: "f64 \<Rightarrow> f64 \<Rightarrow> f64" where
  "fadd (Fin a) (Fin b) = Fin (rnd (a + b))"
| "fadd (Inf s) (Inf t) = (if s = t then Inf s else NaN)"
| "fadd (Inf s) (Fin _) = Inf s"
| "fadd (Fin _) (Inf s) = Inf s"
| "fadd _ _ = NaN"

fun fmul :: "f64 \<Rightarrow> f64 \<Rightarrow> f64" where
  "fmul (Fin a) (Fin b) = Fin (rnd (a * b))"
| "fmul (Inf s) (Inf t) = Inf (s \<noteq> t)"
| "fmul (Inf s) (Fin b) = (if b = 0 then NaN else Inf (s \<noteq> (b < 0)))"
| "fmul (Fin a) (Inf s) = (if a = 0 then NaN else Inf (s \<noteq> (a < 0)))"
| "fmul _ _ = NaN"

fun fdiv :: "f64 \<Rightarrow> f64 \<Rightarrow> f64" where
  "fdiv (Fin a) (Fin b) =
     (if b \<noteq> 0 then Fin (rnd (a / b)) else if a = 0 then NaN else Inf (a < 0))"
| "fdiv (Inf s) (Fin b) = Inf (s \<noteq> (b < 0))"
| "fdiv (Fin _) (Inf _) = Fin 0"
| "fdiv _ _ = NaN"

fun fless :: "f64 \<Rightarrow> f64 \<Rightarrow> bool" where
  "fless (Fin a) (Fin b) = (a < b)"
| "fless (Inf s) (Inf t) = (s \<and> \<not> t)"
| "fless (Inf s) (Fin _) = s"
| "fless (Fin _) (Inf s) = (\<not> s)"
| "fless _ _ = False"

text \<open>\<open>float64(n)\<close> for an integer of at most 32 bits, and \<open>math.Round\<close> (half away from zero).\<close>

definition f64_of_int :: "int \<Rightarrow> f64" where
  "f64_of_int n = Fin (of_int n)"

definition round_away :: "rat \<Rightarrow> int" where
  "round_away x = (if 0 \<le> x then \<lfloor>x + 1 / 2\<rfloor> else - \<lfloor>1 / 2 - x\<rfloor>)"

fun math_round :: "f64 \<Rightarrow> f64" where
  "math_round (Fin x) = Fin (of_int (round_away x))"
| "math_round x = x"

text \<open>
  The conversions \<open>uint32(f)\<close> and \<open>int32(f)\<close> drop the fraction; for a value out of range the Go
  specification leaves the result to the implementation, which is \<open>None\<close> here.
\<close>

definition trunc :: "rat \<Rightarrow> int" where
  "trunc x = (if 0 \<le> x then \<lfloor>x\<rfloor> else - \<lfloor>- x\<rfloor>)"

fun f64_to_u32 :: "f64 \<Rightarrow> u32 option" where
  "f64_to_u32 (Fin x) = (if 0 \<le> trunc x \<and> trunc x < 2 ^ 32 then Some (word_of_int (trunc x)) else None)"
| "f64_to_u32 _ = None"

fun f64_to_i32 :: "f64 \<Rightarrow> int option" where
  "f64_to_i32 (Fin x) = (if in_i32 (trunc x) then Some (trunc x) else None)"
| "f64_to_i32 _ = None"

lemma trunc_int [simp]: "trunc (of_int n) = n"
  by (simp add: trunc_def flip: of_int_minus)

section \<open>Accumulated rounding errors\<close>

text \<open>\<open>near k x y\<close>: the computed \<open>x\<close> differs from the exact, non-negative \<open>y\<close> by at most \<open>k\<close> roundings.\<close>

definition near :: "nat \<Rightarrow> rat \<Rightarrow> rat \<Rightarrow> bool" where
  "near k x y \<longleftrightarrow> 0 \<le> y \<and> \<bar>x - y\<bar> \<le> y * ((1 + ueps) ^ k - 1)"

lemma one_le_pow: "1 \<le> (1 + ueps) ^ k"
  by (simp add: one_le_power)

lemma near_refl: "0 \<le> y \<Longrightarrow> near 0 y y"
  by (simp add: near_def)

lemma near_mono:
  assumes "near j x y" "j \<le> k"
  shows "near k x y"
proof -
  have "(1 + ueps) ^ j \<le> (1 + ueps) ^ k" using assms(2) by (intro power_increasing) simp_all
  then have "y * ((1 + ueps) ^ j - 1) \<le> y * ((1 + ueps) ^ k - 1)"
    using assms(1) by (intro mult_left_mono) (simp_all add: near_def)
  with assms(1) show ?thesis by (simp add: near_def)
qed

lemma near_rnd:
  assumes "near k x y"
  shows "near (Suc k) (rnd x) y"
proof -
  let ?K = "(1 + ueps) ^ k"
  have y: "0 \<le> y" and e: "\<bar>x - y\<bar> \<le> y * (?K - 1)" using assms by (simp_all add: near_def)
  have "\<bar>x\<bar> \<le> y + y * (?K - 1)" using y e by linarith
  then have "\<bar>x\<bar> \<le> y * ?K" by (simp add: algebra_simps)
  then have "\<bar>x\<bar> * ueps \<le> y * ?K * ueps" by (intro mult_right_mono) simp_all
  then have "\<bar>rnd x - y\<bar> \<le> y * ?K * ueps + y * (?K - 1)"
    using rnd_error [of x] e by linarith
  also have "\<dots> = y * ((1 + ueps) ^ Suc k - 1)" by (simp add: algebra_simps)
  finally show ?thesis using y by (simp add: near_def)
qed

lemma near_mult:
  assumes "near j x a" "near k y b"
  shows "near (j + k) (x * y) (a * b)"
proof -
  let ?J = "(1 + ueps) ^ j - 1" and ?K = "(1 + ueps) ^ k - 1"
  have a: "0 \<le> a" "\<bar>x - a\<bar> \<le> a * ?J" and b: "0 \<le> b" "\<bar>y - b\<bar> \<le> b * ?K"
    using assms by (simp_all add: near_def)
  have JK: "0 \<le> ?J" "0 \<le> ?K" using one_le_pow by simp_all
  have "x * y - a * b = (x - a) * (y - b) + a * (y - b) + b * (x - a)" by (simp add: algebra_simps)
  then have "\<bar>x * y - a * b\<bar> \<le> \<bar>x - a\<bar> * \<bar>y - b\<bar> + a * \<bar>y - b\<bar> + b * \<bar>x - a\<bar>"
    using a(1) b(1) abs_triangle_ineq [of "(x - a) * (y - b) + a * (y - b)" "b * (x - a)"]
      abs_triangle_ineq [of "(x - a) * (y - b)" "a * (y - b)"]
    by (simp add: abs_mult)
  also have "\<dots> \<le> (a * ?J) * (b * ?K) + a * (b * ?K) + b * (a * ?J)"
    using a b JK by (intro add_mono mult_mono mult_left_mono) simp_all
  also have "\<dots> = a * b * ((1 + ueps) ^ (j + k) - 1)" by (simp add: algebra_simps power_add)
  finally show ?thesis using a(1) b(1) by (simp add: near_def)
qed

lemma near_add:
  assumes "near k x a" "near k y b"
  shows "near k (x + y) (a + b)"
proof -
  have "\<bar>x + y - (a + b)\<bar> \<le> \<bar>x - a\<bar> + \<bar>y - b\<bar>" by linarith
  with assms show ?thesis by (simp add: near_def algebra_simps)
qed

lemma pow_ueps_le:
  assumes "of_nat k * ueps \<le> 1 / 2"
  shows "(1 + ueps) ^ k \<le> 1 + 2 * of_nat k * ueps"
  using assms
proof (induction k)
  case (Suc k)
  have k: "of_nat k * ueps \<le> 1 / 2" using Suc.prems by (simp add: algebra_simps) (use ueps_pos in linarith)
  then have "(1 + ueps) ^ Suc k \<le> (1 + ueps) * (1 + 2 * of_nat k * ueps)"
    using Suc.IH by (simp add: mult_left_mono)
  also have "\<dots> = 1 + 2 * of_nat k * ueps + ueps + 2 * (of_nat k * ueps) * ueps"
    by (simp add: algebra_simps)
  also have "\<dots> \<le> 1 + 2 * of_nat k * ueps + ueps + 1 * ueps"
    using k by (intro add_left_mono mult_right_mono) simp_all
  also have "\<dots> = 1 + 2 * of_nat (Suc k) * ueps" by (simp add: algebra_simps)
  finally show ?case .
qed simp

lemma near_error:
  assumes "near k x y" "k < 2 ^ 32" "y \<le> 100"
  shows "\<bar>x - y\<bar> \<le> 1 / 1000"
proof -
  have "of_nat k \<le> (2 ^ 32 :: rat)" using assms(2) by (metis less_imp_le of_nat_le_iff of_nat_numeral of_nat_power)
  then have k: "of_nat k * ueps \<le> 1 / 2 ^ 21" by (simp add: ueps_def field_simps)
  then have p: "(1 + ueps) ^ k - 1 \<le> 2 * (of_nat k * ueps)"
    using pow_ueps_le [of k] by (simp add: algebra_simps)
  have "\<bar>x - y\<bar> \<le> y * ((1 + ueps) ^ k - 1)" using assms(1) by (simp add: near_def)
  also have "\<dots> \<le> 100 * (2 / 2 ^ 21)"
    using assms(1,3) p k one_le_pow [of k] by (intro mult_mono) (simp_all add: near_def)
  also have "\<dots> \<le> 1 / 1000" by simp
  finally show ?thesis .
qed

end
