(* ===== verification/Score_Kit.thy ===== *)
theory Score_Kit
  imports Model Go_Float "HOL-Library.Char_ord" "HOL-Library.List_Lexorder"
begin

text \<open>
  The score kit that test code uses and whose output the server parses: \<open>kit/score/score.go\<close>,
  \<open>kit/score/parse.go\<close>, \<open>kit/score/registry.go\<close>, \<open>kit/score/gradingscheme.go\<close> and the call-frame check of
  \<open>kit/internal/test\<close>.  The runtime's call stack is a parameter: the list of frames from the innermost
  one, as \<open>unwindCallFrames\<close> collects them.  The JSON decoder is a parameter too.  A panic is a value of
  \<open>outcome\<close>, since the check of a score can panic on the server (property \<open>invalid_score_panics\<close>).
\<close>

section \<open>The calling test function\<close>

record frame =
  fr_File :: string
  fr_Function :: string
  fr_Line :: nat

definition zero_frame :: frame where
  "zero_frame = \<lparr>fr_File = [], fr_Function = [], fr_Line = 0\<rparr>"

definition testPkg :: string where
  "testPkg = ''github.com/quickfeed/quickfeed/kit/internal/test.''"

definition scorePkg :: string where
  "scorePkg = ''github.com/quickfeed/quickfeed/kit/score.''"

definition strip_pkg :: "string \<Rightarrow> string" where
  "strip_pkg name =
     (let start = (case last_index (CHR ''/'') name of None \<Rightarrow> 0 | Some i \<Rightarrow> i + 1);
          dot = (case index_of (drop start name) ''.'' of None \<Rightarrow> 0 | Some i \<Rightarrow> i + 1)
      in drop (start + dot) name)"

definition last_elem :: "string \<Rightarrow> string" where
  "last_elem name = drop (case last_index (CHR ''.'') name of None \<Rightarrow> 0 | Some i \<Rightarrow> i + 1) name"

definition first_elem :: "string \<Rightarrow> string" where
  "first_elem name = (case index_of name ''.'' of None \<Rightarrow> name | Some i \<Rightarrow> take i name)"

definition unauthorized_frame :: "frame \<Rightarrow> string" where
  "unauthorized_frame f = path_base (fr_File f) @ '':'' @ show_nat (fr_Line f) @ '': '' @
     strip_pkg (fr_Function f) @ '': unauthorized lookup''"

fun call_frame :: "frame list \<Rightarrow> ('e, frame) outcome" where
  "call_frame [] = Ok zero_frame"
| "call_frame (f # fs) =
     (if has_suffix (fr_File f) ''_test.go'' then Ok f
      else if has_prefix (fr_Function f) (testPkg @ ''TestCallFrame'') then Ok f
      else if has_prefix (fr_Function f) testPkg \<or> has_prefix (fr_Function f) scorePkg
      then call_frame fs
      else Panic (unauthorized_frame f))"

definition is_caller :: "frame list \<Rightarrow> string \<Rightarrow> ('e, bool) outcome" where
  "is_caller frames testName =
     bind_out (call_frame frames)
       (\<lambda>f. Ok (has_prefix testName (first_elem (strip_pkg (fr_Function f)))))"

definition caller_name :: "frame list \<Rightarrow> ('e, string) outcome" where
  "caller_name frames = bind_out (call_frame frames) (\<lambda>f. Ok (last_elem (fr_Function f)))"

definition err_msg :: "frame list \<Rightarrow> string \<Rightarrow> string \<Rightarrow> ('e, string) outcome" where
  "err_msg frames testFn msg =
     bind_out (call_frame frames)
       (\<lambda>f. Ok (path_base (fr_File f) @ '':'' @ show_nat (fr_Line f) @ '': '' @ msg @ '': '' @ testFn))"

text \<open>\<open>return test.ErrMsg(...)\<close> and \<open>panic(test.ErrMsg(...))\<close>.\<close>

definition fail_msg :: "frame list \<Rightarrow> string \<Rightarrow> string \<Rightarrow> (string, 'a) outcome" where
  "fail_msg frames testFn msg = bind_out (err_msg frames testFn msg) Err"

definition panic_msg :: "frame list \<Rightarrow> string \<Rightarrow> string \<Rightarrow> (string, 'a) outcome" where
  "panic_msg frames testFn msg = bind_out (err_msg frames testFn msg) Panic"

section \<open>Methods of a score\<close>

definition fail_score :: "score \<Rightarrow> score" where
  "fail_score s = s\<lparr>sc_Score := 0\<rparr>"

definition inc :: "score \<Rightarrow> score" where
  "inc s = (if sc_Score s < sc_MaxScore s then s\<lparr>sc_Score := wrap32 (sc_Score s + 1)\<rparr> else s)"

definition inc_by :: "int \<Rightarrow> score \<Rightarrow> score" where
  "inc_by n s =
     (let m = wrap32 n
      in if wrap32 (sc_Score s + m) < sc_MaxScore s then s\<lparr>sc_Score := wrap32 (sc_Score s + m)\<rparr>
         else s\<lparr>sc_Score := sc_MaxScore s\<rparr>)"

definition dec :: "score \<Rightarrow> score" where
  "dec s = (if 0 < sc_Score s then s\<lparr>sc_Score := wrap32 (sc_Score s - 1)\<rparr> else s)"

definition dec_by :: "int \<Rightarrow> score \<Rightarrow> score" where
  "dec_by n s =
     (let m = wrap32 n
      in if 0 < wrap32 (sc_Score s - m) then s\<lparr>sc_Score := wrap32 (sc_Score s - m)\<rparr>
         else s\<lparr>sc_Score := 0\<rparr>)"

text \<open>\<open>None\<close> where the conversion to \<open>int32\<close> is left to the implementation.\<close>

definition normalize :: "int \<Rightarrow> score \<Rightarrow> score option" where
  "normalize maxScore s =
     (let f = fdiv (Fin (rnd (of_int maxScore))) (f64_of_int (sc_MaxScore s));
          normScore = fmul (f64_of_int (sc_Score s)) f
      in map_option (\<lambda>n. s\<lparr>sc_Score := n, sc_MaxScore := wrap32 maxScore\<rparr>)
           (f64_to_i32 (math_round normScore)))"

definition score_equal :: "score \<Rightarrow> score option \<Rightarrow> bool" where
  "score_equal s other =
     (case other of None \<Rightarrow> False
      | Some t \<Rightarrow> sc_TestName s = sc_TestName t \<and> sc_Score s = sc_Score t \<and>
                  sc_MaxScore s = sc_MaxScore t \<and> sc_Weight s = sc_Weight t)"

section \<open>Parsing a score line\<close>

definition ErrScoreNotFound :: string where "ErrScoreNotFound = ''score not found in string''"
definition ErrScoreInterval :: string where "ErrScoreInterval = ''score must be in the interval [0, MaxScore]''"
definition ErrMaxScore :: string where "ErrMaxScore = ''max score must be greater than 0''"
definition ErrWeight :: string where "ErrWeight = ''weight must be greater than 0''"
definition ErrEmptyTestName :: string where "ErrEmptyTestName = ''test name must be specified''"
definition ErrSecret :: string where "ErrSecret = ''secret field must match expected secret''"
definition ErrSuppressedSecret :: string where
  "ErrSuppressedSecret = ''error suppressed to avoid revealing secret''"

definition is_valid :: "frame list \<Rightarrow> string \<Rightarrow> score \<Rightarrow> (string, score) outcome" where
  "is_valid frames secret sc =
     (let tName = sc_TestName sc
      in if tName = [] then fail_msg frames [] ErrEmptyTestName
         else if sc_MaxScore sc \<le> 0 then fail_msg frames tName ErrMaxScore
         else if sc_Weight sc \<le> 0 then fail_msg frames tName ErrWeight
         else if sc_Score sc < 0 \<or> sc_MaxScore sc < sc_Score sc then fail_msg frames tName ErrScoreInterval
         else if sc_Secret sc \<noteq> secret then fail_msg frames tName ErrSecret
         else Ok (sc\<lparr>sc_Secret := []\<rparr>))"

definition parse ::
    "(string \<Rightarrow> string + score) \<Rightarrow> frame list \<Rightarrow> string \<Rightarrow> string \<Rightarrow> (string, score) outcome" where
  "parse unmarshal frames s secret =
     (if contains_str s secret
      then (case unmarshal s of
              Inr sc \<Rightarrow> is_valid frames secret sc
            | Inl e \<Rightarrow> if contains_str e secret then Err ErrSuppressedSecret else Err e)
      else Err ErrScoreNotFound)"

definition score_prefixes :: "string list" where
  "score_prefixes = [CHR ''{'' # CHR 0x22 # ''Secret'' @ [CHR 0x22, CHR '':''],
                     CHR ''{'' # CHR 0x22 # ''TestName'' @ [CHR 0x22, CHR '':''],
                     CHR ''{'' # CHR 0x22 # ''Score'' @ [CHR 0x22, CHR '':''],
                     CHR ''{'' # CHR 0x22 # ''MaxScore'' @ [CHR 0x22, CHR '':''],
                     CHR ''{'' # CHR 0x22 # ''Weight'' @ [CHR 0x22, CHR '':'']]"

definition is_score_line :: "string \<Rightarrow> bool" where
  "is_score_line s = (let trimmed = trim_space s in list_ex (has_prefix trimmed) score_prefixes)"

lemma no_brace_no_score:
  assumes "CHR ''{'' \<notin> set s"
  shows "\<not> is_score_line s"
proof -
  have "CHR ''{'' \<notin> set (trim_space s)" using assms set_trim_space [of s] by blast
  then have "\<not> has_prefix (trim_space s) (CHR ''{'' # p)" for p
    by (auto elim!: has_prefixE)
  then show ?thesis by (simp add: is_score_line_def score_prefixes_def)
qed

section \<open>The registry of tests\<close>

record registry =
  rg_testNames :: "string list"
  rg_scores :: "string \<rightharpoonup> score"

definition new_registry :: registry where
  "new_registry = \<lparr>rg_testNames = [], rg_scores = Map.empty\<rparr>"

definition record_score :: "registry \<Rightarrow> score \<Rightarrow> registry" where
  "record_score r sc =
     r\<lparr>rg_testNames := rg_testNames r @ [sc_TestName sc], rg_scores := (rg_scores r)(sc_TestName sc \<mapsto> sc)\<rparr>"

definition internal_add ::
    "frame list \<Rightarrow> string \<Rightarrow> registry \<Rightarrow> string \<Rightarrow> string \<Rightarrow> int \<Rightarrow> int \<Rightarrow> (string, registry) outcome" where
  "internal_add frames sessionSecret r testName taskName mx weight =
     (if rg_scores r testName \<noteq> None then panic_msg frames testName ''duplicate score test''
      else if mx < 1 then panic_msg frames testName ErrMaxScore
      else if weight < 1 then panic_msg frames testName ErrWeight
      else Ok (record_score r (zero_score\<lparr>sc_Secret := sessionSecret, sc_TestName := testName,
             sc_TaskName := taskName, sc_MaxScore := wrap32 mx, sc_Weight := wrap32 weight\<rparr>)))"

text \<open>
  The four methods that add a test differ in the names they pass on; \<open>testFn\<close> is the name that
  reflection gives for the test function (\<open>test.Name\<close>).
\<close>

definition reg_add where
  "reg_add frames secret r testFn mx weight = internal_add frames secret r testFn [] mx weight"

definition reg_add_with_task where
  "reg_add_with_task frames secret r testFn taskName mx weight =
     internal_add frames secret r testFn taskName mx weight"

definition reg_add_sub where
  "reg_add_sub frames secret r testFn subTestName mx weight =
     internal_add frames secret r (testFn @ ''/'' @ subTestName) [] mx weight"

definition reg_add_sub_with_task where
  "reg_add_sub_with_task frames secret r testFn subTestName taskName mx weight =
     internal_add frames secret r (testFn @ ''/'' @ subTestName) taskName mx weight"

definition reg_get :: "frame list \<Rightarrow> registry \<Rightarrow> string \<Rightarrow> (string, score) outcome" where
  "reg_get frames r testName =
     bind_out (is_caller frames testName)
       (\<lambda>ok. if \<not> ok then panic_msg frames testName ''unauthorized lookup''
             else case rg_scores r testName of
               Some sc \<Rightarrow> Ok sc
             | None \<Rightarrow> panic_msg frames testName ''unknown score test'')"

text \<open>
  The lookups return a pointer to the registered score: the score, and the registry with the score
  that the method stores through the pointer.
\<close>

definition reg_max_by_name :: "frame list \<Rightarrow> registry \<Rightarrow> string \<Rightarrow> (string, score \<times> registry) outcome" where
  "reg_max_by_name frames r testName =
     bind_out (reg_get frames r testName)
       (\<lambda>sc. let sc' = sc\<lparr>sc_Score := sc_MaxScore sc\<rparr>
             in Ok (sc', r\<lparr>rg_scores := (rg_scores r)(testName \<mapsto> sc')\<rparr>))"

definition reg_min_by_name :: "frame list \<Rightarrow> registry \<Rightarrow> string \<Rightarrow> (string, score \<times> registry) outcome" where
  "reg_min_by_name frames r testName = bind_out (reg_get frames r testName) (\<lambda>sc. Ok (sc, r))"

definition reg_max :: "frame list \<Rightarrow> registry \<Rightarrow> (string, score \<times> registry) outcome" where
  "reg_max frames r =
     bind_out (caller_name frames)
       (\<lambda>testName. bind_out (reg_get frames r testName)
         (\<lambda>sc. let sc' = sc\<lparr>sc_Score := sc_MaxScore sc\<rparr>
               in Ok (sc', r\<lparr>rg_scores := (rg_scores r)(testName \<mapsto> sc')\<rparr>)))"

definition reg_min :: "frame list \<Rightarrow> registry \<Rightarrow> (string, score \<times> registry) outcome" where
  "reg_min frames r =
     bind_out (caller_name frames)
       (\<lambda>testName. bind_out (reg_get frames r testName) (\<lambda>sc. Ok (sc, r)))"

text \<open>
  \<open>Validate\<close> visits the map in an order that Go leaves open (\<open>order\<close>); each valid score has its secret
  redacted on the way.
\<close>

fun validate_loop ::
    "frame list \<Rightarrow> string \<Rightarrow> string list \<Rightarrow> registry \<Rightarrow> (string, unit) outcome \<times> registry" where
  "validate_loop frames secret [] r = (Ok (), r)"
| "validate_loop frames secret (n # ns) r =
     (case rg_scores r n of
        None \<Rightarrow> validate_loop frames secret ns r
      | Some sc \<Rightarrow>
          (case is_valid frames secret sc of
             Ok sc' \<Rightarrow> validate_loop frames secret ns (r\<lparr>rg_scores := (rg_scores r)(n \<mapsto> sc')\<rparr>)
           | Err e \<Rightarrow> (Err e, r)
           | Panic p \<Rightarrow> (Panic p, r)))"

definition reg_validate ::
    "frame list \<Rightarrow> string \<Rightarrow> string list \<Rightarrow> registry \<Rightarrow> (string, unit) outcome \<times> registry" where
  "reg_validate frames sessionSecret order r =
     (case call_frame frames of
        Panic p \<Rightarrow> (Panic p, r)
      | Err e \<Rightarrow> (Err e, r)
      | Ok _ \<Rightarrow> validate_loop frames sessionSecret order r)"

text \<open>
  \<open>PrintTestInfo\<close>: the lines printed and the registry, whose names are sorted in place on request.
\<close>

definition print_test_info ::
    "bool \<Rightarrow> (score \<Rightarrow> string) \<Rightarrow> frame list \<Rightarrow> bool list \<Rightarrow> registry \<Rightarrow>
       (string, string list \<times> registry) outcome" where
  "print_test_info raceEnabled json frames sorted_arg r =
     (if raceEnabled then Ok ([], r)
      else bind_out (call_frame frames)
        (\<lambda>_. let r' = (if sorted_arg = [True] then r\<lparr>rg_testNames := sort (rg_testNames r)\<rparr> else r)
             in Ok (List.map_filter (\<lambda>n. map_option json (rg_scores r' n)) (rg_testNames r'), r')))"

section \<open>Grading scheme\<close>

record grading_scheme =
  gs_GradePoints :: "u32 list"
  gs_GradeNames :: "string list"

text \<open>Indexing beyond the names panics.\<close>

definition name_at :: "string list \<Rightarrow> nat \<Rightarrow> (string, string) outcome" where
  "name_at ns i = (if i < length ns then Ok (ns ! i) else Panic ''index out of range'')"

fun grade_loop :: "u32 list \<Rightarrow> string list \<Rightarrow> nat \<Rightarrow> u32 \<Rightarrow> (string, string) outcome option" where
  "grade_loop [] ns i points = None"
| "grade_loop (p # ps) ns i points =
     (if p \<le> points then Some (name_at ns i) else grade_loop ps ns (Suc i) points)"

definition grade_of :: "grading_scheme \<Rightarrow> u32 \<Rightarrow> (string, string) outcome" where
  "grade_of g points =
     (if 100 < points then Ok ''bad points''
      else case grade_loop (gs_GradePoints g) (gs_GradeNames g) 0 points of
        Some r \<Rightarrow> r
      | None \<Rightarrow> if gs_GradeNames g = [] then Panic ''index out of range'' else Ok (last (gs_GradeNames g)))"

section \<open>Lemmas\<close>

lemma is_valid_Ok_iff:
  "is_valid frames secret sc = Ok sc' \<longleftrightarrow>
     sc_TestName sc \<noteq> [] \<and> 0 < sc_MaxScore sc \<and> 0 < sc_Weight sc \<and>
     0 \<le> sc_Score sc \<and> sc_Score sc \<le> sc_MaxScore sc \<and> sc_Secret sc = secret \<and>
     sc' = sc\<lparr>sc_Secret := []\<rparr>"
proof -
  have no: "fail_msg frames t msg \<noteq> Ok x" for t msg and x :: score
    by (cases "call_frame frames :: (string, frame) outcome") (simp_all add: fail_msg_def err_msg_def)
  show ?thesis by (auto simp: is_valid_def Let_def no)
qed

lemma panic_msg_not_Ok [simp]: "panic_msg frames t msg \<noteq> Ok x"
  by (cases "call_frame frames :: (string, frame) outcome") (simp_all add: panic_msg_def err_msg_def)

lemma internal_add_Ok_iff:
  "internal_add frames secret r name task mx w = Ok r' \<longleftrightarrow>
     rg_scores r name = None \<and> 1 \<le> mx \<and> 1 \<le> w \<and>
     r' = record_score r (zero_score\<lparr>sc_Secret := secret, sc_TestName := name,
             sc_TaskName := task, sc_MaxScore := wrap32 mx, sc_Weight := wrap32 w\<rparr>)"
  by (auto simp: internal_add_def)

interpretation reg: ordered_map rg_testNames rg_scores sc_TestName record_score
  "\<lambda>r sc. rg_scores r (sc_TestName sc) = None"
  by unfold_locales (auto simp: record_score_def)

text \<open>
  The moves that test code makes on a score it got from the registry: the methods of the score, with
  arguments that do not overflow 32 bits, and the store of \<open>Max\<close>.
\<close>

inductive score_step :: "score \<Rightarrow> score \<Rightarrow> bool" where
  step_fail: "score_step s (fail_score s)"
| step_inc: "score_step s (inc s)"
| step_inc_by: "0 \<le> n \<Longrightarrow> sc_MaxScore s + n \<le> 2147483647 \<Longrightarrow> score_step s (inc_by n s)"
| step_dec: "score_step s (dec s)"
| step_dec_by: "0 \<le> n \<Longrightarrow> n \<le> 2147483647 \<Longrightarrow> score_step s (dec_by n s)"
| step_max: "score_step s (s\<lparr>sc_Score := sc_MaxScore s\<rparr>)"

inductive_cases score_stepE [elim]: "score_step s t"

definition score_ok :: "score \<Rightarrow> bool" where
  "score_ok s \<longleftrightarrow> 0 \<le> sc_Score s \<and> sc_Score s \<le> sc_MaxScore s \<and> sc_MaxScore s \<le> 2147483647"

abbreviation same_test :: "score \<Rightarrow> score \<Rightarrow> bool" where
  "same_test s t \<equiv> sc_TestName t = sc_TestName s \<and> sc_MaxScore t = sc_MaxScore s \<and>
     sc_Weight t = sc_Weight s \<and> sc_Secret t = sc_Secret s"

lemma score_step_ok:
  assumes "score_step s t" "score_ok s"
  shows "score_ok t \<and> same_test s t"
  using assms
proof cases
  case (step_inc_by n)
  with assms(2) have "in_i32 n" "in_i32 (sc_Score s + n)" by (auto simp: score_ok_def in_i32_def)
  with step_inc_by assms(2) show ?thesis by (simp add: inc_by_def score_ok_def)
next
  case (step_dec_by n)
  with assms(2) have "in_i32 n" "in_i32 (sc_Score s - n)" by (auto simp: score_ok_def in_i32_def)
  with step_dec_by assms(2) show ?thesis by (simp add: dec_by_def score_ok_def)
qed (auto simp: score_ok_def fail_score_def inc_def dec_def in_i32_def)

lemma score_steps_ok: "score_step\<^sup>*\<^sup>* s t \<Longrightarrow> score_ok s \<Longrightarrow> score_ok t \<and> same_test s t"
  by (induction rule: rtranclp_induct) (auto dest: score_step_ok)

section \<open>Properties\<close>

text \<open>whatever test code does with the score of a test it registered, through the methods of the score
  and without overflowing 32 bits, the score stays within 0 and the registered maximum and passes the
  server's check with the session secret, which redacts the secret.
\<close>

lemma registered_score_valid:
  assumes "internal_add frames secret r name task mx w = Ok r'"
    and "name \<noteq> []" and "mx \<le> 2147483647" and "w \<le> 2147483647"
    and "rg_scores r' name = Some s" and "score_step\<^sup>*\<^sup>* s t"
  shows "is_valid stack secret t = Ok (t\<lparr>sc_Secret := []\<rparr>) \<and> 0 \<le> sc_Score t \<and> sc_Score t \<le> mx"
proof -
  have s: "s = zero_score\<lparr>sc_Secret := secret, sc_TestName := name, sc_TaskName := task,
      sc_MaxScore := mx, sc_Weight := w\<rparr>" "1 \<le> mx" "1 \<le> w"
    using assms(1,3,4,5) by (auto simp: internal_add_Ok_iff record_score_def in_i32_def)
  then have "score_ok s" using assms(3) by (simp add: score_ok_def zero_score_def)
  with score_steps_ok [OF assms(6)] have "score_ok t" "same_test s t" by auto
  with s assms(2) show ?thesis by (auto simp: is_valid_Ok_iff score_ok_def)
qed

definition test_frame :: frame where
  "test_frame = \<lparr>fr_File = ''/lab1/fib_test.go'', fr_Function = ''lab1.TestFib'', fr_Line = 7\<rparr>"

lemma registered_score_valid_witness:
  "\<exists>r' s. internal_add [test_frame] ''key'' new_registry ''TestFib'' [] 10 2 = Ok r' \<and>
     rg_scores r' ''TestFib'' = Some s \<and>
     is_valid [test_frame] ''key'' (dec (inc_by 12 s)) = Ok ((dec (inc_by 12 s))\<lparr>sc_Secret := []\<rparr>)"
proof -
  obtain r' where r': "internal_add [test_frame] ''key'' new_registry ''TestFib'' [] 10 2 = Ok r'"
    by (simp add: internal_add_def new_registry_def)
  then obtain s where s: "rg_scores r' ''TestFib'' = Some s" "sc_MaxScore s = 10"
    by (auto simp: internal_add_Ok_iff record_score_def in_i32_def)
  have "score_step s (inc_by 12 s)" using s by (intro step_inc_by) simp_all
  moreover have "score_step (inc_by 12 s) (dec (inc_by 12 s))" by (rule step_dec)
  ultimately have "score_step\<^sup>*\<^sup>* s (dec (inc_by 12 s))" by simp
  with registered_score_valid [OF r' _ _ _ s(1) this] r' s show ?thesis by auto
qed

text \<open>a score line is accepted only if the line contains the secret and decodes to a score of a named
  test with positive maximum and weight, a score between 0 and the maximum and the secret itself; the
  accepted score is the decoded one without the secret.
\<close>

lemma parse_sound:
  "parse unmarshal frames line secret = Ok sc \<longleftrightarrow>
     contains_str line secret \<and>
     (\<exists>raw. unmarshal line = Inr raw \<and> sc = raw\<lparr>sc_Secret := []\<rparr> \<and> sc_Secret raw = secret \<and>
        sc_TestName raw \<noteq> [] \<and> 0 < sc_MaxScore raw \<and> 0 < sc_Weight raw \<and>
        0 \<le> sc_Score raw \<and> sc_Score raw \<le> sc_MaxScore raw)"
  by (auto simp: parse_def is_valid_Ok_iff split: sum.splits)

text \<open>adding a test to the registry succeeds exactly for a name that is not registered and a positive
  maximum and weight; it appends the name to the registration order, keeps every other score, and
  keeps names and scores in step.
\<close>

lemma registry_add:
  assumes "om_inv (rg_testNames r) (rg_scores r)"
  shows "((\<exists>r'. internal_add frames secret r name task mx w = Ok r') \<longleftrightarrow>
            name \<notin> set (rg_testNames r) \<and> 1 \<le> mx \<and> 1 \<le> w) \<and>
         (\<forall>r'. internal_add frames secret r name task mx w = Ok r' \<longrightarrow>
            om_inv (rg_testNames r') (rg_scores r') \<and> rg_testNames r' = rg_testNames r @ [name] \<and>
            (\<forall>n. n \<noteq> name \<longrightarrow> rg_scores r' n = rg_scores r n))"
proof (intro conjI allI impI)
  show "(\<exists>r'. internal_add frames secret r name task mx w = Ok r') \<longleftrightarrow>
          name \<notin> set (rg_testNames r) \<and> 1 \<le> mx \<and> 1 \<le> w"
    using assms by (auto simp: internal_add_Ok_iff om_inv_def)
  fix r' assume "internal_add frames secret r name task mx w = Ok r'"
  then obtain sc where r': "r' = record_score r sc" "sc_TestName sc = name" "rg_scores r name = None"
    by (auto simp: internal_add_Ok_iff)
  with reg.add_inv [of r sc] assms show "om_inv (rg_testNames r') (rg_scores r')" by simp
  from r' show "rg_testNames r' = rg_testNames r @ [name]" by (simp add: record_score_def)
  show "rg_scores r' n = rg_scores r n" if "n \<noteq> name" for n
    using r' that by (simp add: record_score_def)
qed

lemma registry_add_witness:
  "\<exists>r'. internal_add [test_frame] ''key'' new_registry ''TestFib'' [] 10 2 = Ok r'"
  using registry_add [of new_registry "[test_frame]" "''key''" "''TestFib''" "[]" 10 2]
  by (simp add: new_registry_def om_inv_def)

text \<open>
  Outside a test an invalid score is not reported as an error: building the error message panics,
  because the first frame outside the kit is not a test function.
\<close>

definition kit_frame :: "frame \<Rightarrow> bool" where
  "kit_frame f \<longleftrightarrow> (has_prefix (fr_Function f) testPkg \<or> has_prefix (fr_Function f) scorePkg) \<and>
     \<not> has_suffix (fr_File f) ''_test.go'' \<and> \<not> has_prefix (fr_Function f) (testPkg @ ''TestCallFrame'')"

definition foreign_frame :: "frame \<Rightarrow> bool" where
  "foreign_frame f \<longleftrightarrow> \<not> has_prefix (fr_Function f) testPkg \<and> \<not> has_prefix (fr_Function f) scorePkg \<and>
     \<not> has_suffix (fr_File f) ''_test.go'' \<and> \<not> has_prefix (fr_Function f) (testPkg @ ''TestCallFrame'')"

lemma call_frame_foreign:
  "list_all kit_frame kit \<Longrightarrow> foreign_frame f \<Longrightarrow> call_frame (kit @ f # fs) = Panic (unauthorized_frame f)"
  by (induction kit) (auto simp: kit_frame_def foreign_frame_def)

lemma fail_msg_foreign:
  "list_all kit_frame kit \<Longrightarrow> foreign_frame f \<Longrightarrow>
    fail_msg (kit @ f # fs) t msg = Panic (unauthorized_frame f)"
  by (simp add: fail_msg_def err_msg_def call_frame_foreign)

lemma invalid_score_panics:
  assumes "list_all kit_frame kit" and "foreign_frame f"
    and "sc_TestName sc = [] \<or> sc_MaxScore sc \<le> 0 \<or> sc_Weight sc \<le> 0 \<or> sc_Score sc < 0 \<or>
         sc_MaxScore sc < sc_Score sc \<or> sc_Secret sc \<noteq> secret"
  shows "is_valid (kit @ f # fs) secret sc = Panic (unauthorized_frame f)"
  using assms(3) by (simp add: is_valid_def Let_def fail_msg_foreign [OF assms(1,2)]) linarith

text \<open>
  Beyond the properties: \<open>Validate\<close> redacts the secrets that it compares, so a registry with a test and
  a session secret passes it at most once.
\<close>

lemma validate_loop_redacts:
  "validate_loop frames secret ns r = (Ok (), r') \<Longrightarrow> distinct ns \<Longrightarrow> n \<in> set ns \<Longrightarrow>
     rg_scores r n \<noteq> None \<Longrightarrow> \<exists>sc. rg_scores r' n = Some sc \<and> sc_Secret sc = []"
proof (induction ns arbitrary: r)
  case (Cons k ns)
  have keep: "validate_loop frames secret ms q = (Ok (), q') \<Longrightarrow> j \<notin> set ms \<Longrightarrow> rg_scores q' j = rg_scores q j"
    for ms q q' j
    by (induction ms arbitrary: q) (auto split: option.splits outcome.splits)
  show ?case
  proof (cases "n = k")
    case True
    with Cons.prems obtain sc sc' where "rg_scores r k = Some sc" "is_valid frames secret sc = Ok sc'"
      "validate_loop frames secret ns (r\<lparr>rg_scores := (rg_scores r)(k \<mapsto> sc')\<rparr>) = (Ok (), r')"
      by (auto split: outcome.splits)
    with keep [of ns "r\<lparr>rg_scores := (rg_scores r)(k \<mapsto> sc')\<rparr>" r' k] Cons.prems True
    show ?thesis by (auto simp: is_valid_Ok_iff)
  next
    case False
    with Cons.prems Cons.IH show ?thesis by (auto split: option.splits outcome.splits)
  qed
qed simp

lemma grade_loop_takeWhile:
  "length ps + i \<le> length ns \<Longrightarrow> grade_loop ps ns i points =
     (if list_ex (\<lambda>p. p \<le> points) ps
      then Some (Ok (ns ! (i + length (takeWhile (\<lambda>p. \<not> p \<le> points) ps)))) else None)"
  by (induction ps arbitrary: i) (auto simp: name_at_def)

text \<open>
  a grading scheme with a name for every cut-off names a score of at most 100 by the first cut-off
  that the score reaches, and by the last name where it reaches none; it never indexes out of range.
\<close>

lemma grade_of_cutoff:
  assumes "points \<le> 100" and "gs_GradeNames g \<noteq> []" and "length (gs_GradePoints g) \<le> length (gs_GradeNames g)"
  shows "grade_of g points =
     Ok (if list_ex (\<lambda>p. p \<le> points) (gs_GradePoints g)
         then gs_GradeNames g ! length (takeWhile (\<lambda>p. \<not> p \<le> points) (gs_GradePoints g))
         else last (gs_GradeNames g))"
  using assms by (auto simp: grade_of_def grade_loop_takeWhile not_less)

lemma grade_of_cutoff_witness:
  "grade_of \<lparr>gs_GradePoints = [90, 80, 60], gs_GradeNames = [''A'', ''B'', ''C'', ''F'']\<rparr> 85 = Ok ''B''"
  using grade_of_cutoff [of 85 "\<lparr>gs_GradePoints = [90, 80, 60], gs_GradeNames = [''A'', ''B'', ''C'', ''F'']\<rparr>"]
  by simp

end
