(* ===== verification/Score_Report.thy ===== *)
theory Score_Report
  imports Score_Kit
begin

text \<open>
  How a test reports its score: the methods of \<open>Score\<close> in \<open>kit/score/score.go\<close> that run on the
  \<open>testing.T\<close> of the test and are called deferred, so that they may recover a panic of the test.
  The state is the score, what the process has printed and what the test has been marked with; the
  recovered value (already formatted with \<open>%v\<close>), the stack trace and the JSON encoder are arguments.
\<close>

record test_state =
  ts_score :: score
  ts_out :: string
  ts_log :: "string list"
  ts_failed :: bool
  ts_stopped :: bool

definition nl :: string where
  "nl = [CHR 0x0A]"

definition println :: "string \<Rightarrow> test_state \<Rightarrow> test_state" where
  "println s st = st\<lparr>ts_out := ts_out st @ s @ nl\<rparr>"

definition internal_fail :: "test_state \<Rightarrow> test_state" where
  "internal_fail st = st\<lparr>ts_score := (ts_score st)\<lparr>sc_Score := 0\<rparr>, ts_failed := True\<rparr>"

definition json_of :: "(score \<Rightarrow> string + string) \<Rightarrow> score \<Rightarrow> string" where
  "json_of marshal s = (case marshal s of Inl e \<Rightarrow> ''json.Marshal error: '' @ e @ nl | Inr b \<Rightarrow> b)"

definition print_panic_message :: "string \<Rightarrow> string \<Rightarrow> string \<Rightarrow> string \<Rightarrow> test_state \<Rightarrow> test_state" where
  "print_panic_message testName msg recoverVal stack =
     println (''******************'' @ nl @ testName @ '' panicked: '' @ recoverVal @
       (if msg \<noteq> [] then nl @ nl @ ''Message:'' @ nl @ msg else []) @
       nl @ nl @ ''Stack trace from panic:'' @ nl @ stack @ ''******************'' @ nl)"

text \<open>
  What both handlers do with a recovered panic.  The message is the first of the optional arguments,
  read by index: without one, the handler itself panics.
\<close>

definition recover_with ::
    "string option \<Rightarrow> string \<Rightarrow> string list \<Rightarrow> string \<Rightarrow> test_state \<Rightarrow> (string, unit) outcome \<times> test_state" where
  "recover_with recovered name msg stack st =
     (case recovered of
        None \<Rightarrow> (Ok (), st)
      | Some r \<Rightarrow>
          (let st = internal_fail st
           in case msg of
                [] \<Rightarrow> (Panic ''index out of range [0] with length 0'', st)
              | m # _ \<Rightarrow> (Ok (), print_panic_message name m r stack st)))"

definition print_score ::
    "(score \<Rightarrow> string + string) \<Rightarrow> string option \<Rightarrow> string list \<Rightarrow> string \<Rightarrow> test_state
       \<Rightarrow> (string, unit) outcome \<times> test_state" where
  "print_score marshal recovered msg stack st =
     (case recover_with recovered (sc_TestName (ts_score st)) msg stack st of
        (Ok _, st) \<Rightarrow> (Ok (), println (json_of marshal (ts_score st)) (println [] st))
      | r \<Rightarrow> r)"

definition panic_handler ::
    "string \<Rightarrow> string option \<Rightarrow> string list \<Rightarrow> string \<Rightarrow> test_state \<Rightarrow> (string, unit) outcome \<times> test_state" where
  "panic_handler tName recovered msg stack st = recover_with recovered tName msg stack st"

text \<open>
  The details of a failure: \<open>caller\<close> is the file and line that \<open>runtime.Caller\<close> gives, \<open>text\<close> the
  message as formatted for the details and \<open>logged\<close> as the test logs it.
\<close>

definition add_details :: "(string \<times> nat) option \<Rightarrow> string \<Rightarrow> test_state \<Rightarrow> test_state" where
  "add_details caller msg st =
     st\<lparr>ts_score := (ts_score st)\<lparr>sc_TestDetails := sc_TestDetails (ts_score st) @
       (case caller of
          Some (file, line) \<Rightarrow> file @ '':'' @ show_nat line @ '': '' @ msg @ nl
        | None \<Rightarrow> msg @ nl)\<rparr>\<rparr>"

definition score_error :: "(string \<times> nat) option \<Rightarrow> string \<Rightarrow> string \<Rightarrow> test_state \<Rightarrow> test_state" where
  "score_error caller msg logged st =
     (let st = add_details caller msg st in st\<lparr>ts_log := ts_log st @ [logged], ts_failed := True\<rparr>)"

definition score_fatal :: "(string \<times> nat) option \<Rightarrow> string \<Rightarrow> string \<Rightarrow> test_state \<Rightarrow> test_state" where
  "score_fatal caller msg logged st = (score_error caller msg logged st)\<lparr>ts_stopped := True\<rparr>"

section \<open>Properties\<close>

text \<open>
  the deferred \<open>Print\<close> ends the output with the JSON of the score on a line of its own, unless
  it recovers a panic and was given no message: then it panics in turn and prints nothing.  After a
  recovered panic the test is failed with a score of zero in both cases.
\<close>

lemma print_score_reports:
  "let (res, st') = print_score marshal recovered msg stack st;
             failed = (recovered \<noteq> None);
             sc = (if failed then (ts_score st)\<lparr>sc_Score := 0\<rparr> else ts_score st)
         in ts_score st' = sc \<and> ts_failed st' = (ts_failed st \<or> failed) \<and>
            (if failed \<and> msg = [] then (\<exists>p. res = Panic p) \<and> ts_out st' = ts_out st
             else res = Ok () \<and> has_suffix (ts_out st') (nl @ json_of marshal sc @ nl))"
proof (cases recovered)
  case None
  then show ?thesis
    by (simp add: print_score_def recover_with_def println_def)
next
  case (Some r)
  show ?thesis
  proof (cases msg)
    case Nil
    with Some show ?thesis by (simp add: print_score_def recover_with_def internal_fail_def)
  next
    case (Cons m ms)
    obtain x where x: "print_panic_message (sc_TestName (ts_score st)) m r stack = println x"
      unfolding print_panic_message_def by blast
    have "has_suffix ((ts_out st @ x @ nl) @ nl @ j @ nl) (nl @ j @ nl)" for j
      using has_suffix_append [of "ts_out st @ x @ nl" "nl @ j @ nl"] by simp
    with Some Cons show ?thesis
      by (simp add: print_score_def recover_with_def internal_fail_def x println_def)
  qed
qed

end
