(* ===== verification/Entities.thy ===== *)
theory Entities
  imports Model
begin

text \<open>
  The methods of users, groups, tasks, pull requests and courses: \<open>qf/user.go\<close>, \<open>qf/group.go\<close>,
  \<open>qf/task.go\<close>, \<open>qf/pull_request.go\<close> and \<open>qf/course.go\<close>.  A method that changes its receiver returns it
  updated.  The cache of Dockerfiles is a state of the process, passed explicitly; the mutexes of the
  courses are the state of a step relation over threads.
\<close>

section \<open>Groups\<close>

definition user_names :: "group \<Rightarrow> string list" where
  "user_names g = map u_Login (g_users g)"

definition group_contains :: "group \<Rightarrow> user \<Rightarrow> bool" where
  "group_contains g usr \<longleftrightarrow> list_ex (\<lambda>u. u_ID usr = u_ID u) (g_users g)"

definition contains_all :: "group \<Rightarrow> group \<Rightarrow> bool" where
  "contains_all g other \<longleftrightarrow>
     \<not> length (g_users g) \<noteq> length (g_users other) \<and> list_all (group_contains g) (g_users other)"

definition get_users_except :: "group \<Rightarrow> u64 \<Rightarrow> user list" where
  "get_users_except g userID = filter (\<lambda>usr. \<not> u_ID usr = userID) (g_users g)"

definition group_user_ids :: "group \<Rightarrow> u64 list" where
  "group_user_ids g = map u_ID (g_users g)"

section \<open>Users\<close>

definition is_owner :: "user \<Rightarrow> u64 \<Rightarrow> bool" where
  "is_owner usr userID \<longleftrightarrow> u_ID usr = userID"

definition user_ids :: "user \<Rightarrow> u64 list" where
  "user_ids usr = [u_ID usr]"

text \<open>The error of \<open>ValidateProfile\<close>; \<open>parseAddress\<close> is the error of \<open>mail.ParseAddress\<close>, if any.\<close>

definition validate_profile :: "(string \<Rightarrow> string option) \<Rightarrow> user \<Rightarrow> string option" where
  "validate_profile parseAddress usr =
     (if u_Name usr = [] then Some ''name is required''
      else if length (str_fields (u_Name usr)) < 2
      then Some ''name must contain at least first and last name''
      else if u_Email usr = [] then Some ''email is required''
      else case parseAddress (u_Email usr) of
             Some e \<Rightarrow> Some (''invalid email address: '' @ e)
           | None \<Rightarrow> if u_StudentID usr = [] then Some ''student ID is required'' else None)"

definition update_refresh_token :: "string \<Rightarrow> user \<Rightarrow> user" where
  "update_refresh_token newToken usr =
     (if newToken \<noteq> [] \<and> newToken \<noteq> u_RefreshToken usr then usr\<lparr>u_RefreshToken := newToken\<rparr> else usr)"

section \<open>Tasks\<close>

definition deleteMsg :: string where
  "deleteMsg = CHR 0x0A #
     ''**The task associated with this issue has been deleted by the teaching staff.**'' @ [CHR 0x0A]"

definition deleted_prefix :: string where
  "deleted_prefix = ''DELETED''"

definition has_changed :: "task \<Rightarrow> task \<Rightarrow> bool" where
  "has_changed t newTask \<longleftrightarrow> t_title t \<noteq> t_title newTask \<or> t_body t \<noteq> t_body newTask"

definition mark_deleted :: "task \<Rightarrow> task" where
  "mark_deleted t = t\<lparr>t_title := deleted_prefix @ '' '' @ t_title t, t_body := deleteMsg @ t_body t\<rparr>"

definition is_deleted :: "task \<Rightarrow> bool" where
  "is_deleted t \<longleftrightarrow> has_prefix (t_title t) deleted_prefix"

section \<open>Pull requests\<close>

definition set_approved :: "pull_request \<Rightarrow> pull_request" where
  "set_approved p = p\<lparr>pr_stage := PR_APPROVED\<rparr>"

definition set_review :: "pull_request \<Rightarrow> pull_request" where
  "set_review p = p\<lparr>pr_stage := PR_REVIEW\<rparr>"

definition set_draft :: "pull_request \<Rightarrow> pull_request" where
  "set_draft p = p\<lparr>pr_stage := PR_DRAFT\<rparr>"

definition pr_is_approved :: "pull_request \<Rightarrow> bool" where
  "pr_is_approved p \<longleftrightarrow> pr_stage p = PR_APPROVED"

definition has_reviewers :: "pull_request \<Rightarrow> bool" where
  "has_reviewers p \<longleftrightarrow> pr_stage p = PR_APPROVED \<or> pr_stage p = PR_REVIEW"

definition has_feedback_comment :: "pull_request \<Rightarrow> bool" where
  "has_feedback_comment p \<longleftrightarrow> 0 < pr_ScmCommentID p"

definition pr_valid :: "pull_request \<Rightarrow> bool" where
  "pr_valid p \<longleftrightarrow> 0 < pr_ScmRepositoryID p \<and> 0 < pr_taskID p \<and> 0 < pr_issueID p \<and>
     pr_sourceBranch p \<noteq> [] \<and> 0 < pr_number p \<and> 0 < pr_userID p"

section \<open>Courses\<close>

text \<open>The Dockerfile cache of the process, and the SHA-256 digest in hexadecimal (\<open>digest\<close>).\<close>

type_synonym dockerfile_cache = "u64 \<Rightarrow> string"

definition update_dockerfile ::
    "(string \<Rightarrow> string) \<Rightarrow> dockerfile_cache \<Rightarrow> course \<Rightarrow> string \<Rightarrow> bool \<times> dockerfile_cache \<times> course" where
  "update_dockerfile digest cache course dockerfile =
     (if dockerfile = [] then (False, cache, course)
      else let cache = cache(c_ID course := dockerfile);
               dockerDigest = digest dockerfile;
               updated = (c_DockerfileDigest course \<noteq> dockerDigest)
           in (updated, cache, if updated then course\<lparr>c_DockerfileDigest := dockerDigest\<rparr> else course))"

definition get_dockerfile :: "dockerfile_cache \<Rightarrow> course \<Rightarrow> string" where
  "get_dockerfile cache course = cache (c_ID course)"

definition docker_image :: "course \<Rightarrow> string" where
  "docker_image course = to_lower (c_code course)"

definition job_name :: "string \<Rightarrow> course \<Rightarrow> string" where
  "job_name rand course = c_code course @ ''-'' @ rand"

definition course_clone_dir :: "string \<Rightarrow> course \<Rightarrow> string" where
  "course_clone_dir repositoryPath course = path_join [repositoryPath, c_ScmOrganizationName course]"

section \<open>The lock of a course\<close>

text \<open>
  \<open>Lock\<close> finds or makes the mutex of the course in one step (it holds \<open>mapMutex\<close>), then waits for that
  mutex; the function it returns unlocks it.  A thread is where it is in that protocol.
\<close>

datatype thread_pc = Idle | Waiting u64 nat | Holding u64 nat

record lock_state =
  ls_mutexes :: "u64 \<rightharpoonup> nat"
  ls_next :: nat
  ls_held :: "nat set"
  ls_pc :: "nat \<Rightarrow> thread_pc"

definition no_locks :: lock_state where
  "no_locks = \<lparr>ls_mutexes = Map.empty, ls_next = 0, ls_held = {}, ls_pc = \<lambda>_. Idle\<rparr>"

definition course_mutex :: "u64 \<Rightarrow> lock_state \<Rightarrow> nat \<times> lock_state" where
  "course_mutex courseID s =
     (case ls_mutexes s courseID of
        Some mu \<Rightarrow> (mu, s)
      | None \<Rightarrow> (ls_next s, s\<lparr>ls_mutexes := (ls_mutexes s)(courseID \<mapsto> ls_next s), ls_next := ls_next s + 1\<rparr>))"

inductive lock_step :: "lock_state \<Rightarrow> lock_state \<Rightarrow> bool" where
  lock_lookup: "ls_pc s t = Idle \<Longrightarrow> course_mutex c s = (mu, s') \<Longrightarrow>
     lock_step s (s'\<lparr>ls_pc := (ls_pc s')(t := Waiting c mu)\<rparr>)"
| lock_acquire: "ls_pc s t = Waiting c mu \<Longrightarrow> mu \<notin> ls_held s \<Longrightarrow>
     lock_step s (s\<lparr>ls_held := insert mu (ls_held s), ls_pc := (ls_pc s)(t := Holding c mu)\<rparr>)"
| lock_unlock: "ls_pc s t = Holding c mu \<Longrightarrow>
     lock_step s (s\<lparr>ls_held := ls_held s - {mu}, ls_pc := (ls_pc s)(t := Idle)\<rparr>)"

inductive_cases lock_stepE: "lock_step s s'"

section \<open>Lemmas\<close>

text \<open>
  What the lock protocol keeps: a thread past the lookup has the mutex of its course, different courses
  have different mutexes, and a mutex is held exactly if one thread, and no other, is in the section.
\<close>

definition lock_inv :: "lock_state \<Rightarrow> bool" where
  "lock_inv s \<longleftrightarrow>
     (\<forall>t c mu. ls_pc s t = Waiting c mu \<longrightarrow> ls_mutexes s c = Some mu) \<and>
     (\<forall>t c mu. ls_pc s t = Holding c mu \<longrightarrow> ls_mutexes s c = Some mu \<and> mu \<in> ls_held s) \<and>
     (\<forall>c mu. ls_mutexes s c = Some mu \<longrightarrow> mu < ls_next s) \<and>
     (\<forall>c d mu. ls_mutexes s c = Some mu \<longrightarrow> ls_mutexes s d = Some mu \<longrightarrow> c = d) \<and>
     (\<forall>t t' c d mu. ls_pc s t = Holding c mu \<longrightarrow> ls_pc s t' = Holding d mu \<longrightarrow> t = t') \<and>
     (\<forall>mu\<in>ls_held s. \<exists>t c. ls_pc s t = Holding c mu)"

lemma lock_invI:
  assumes "\<And>t c mu. ls_pc s t = Waiting c mu \<Longrightarrow> ls_mutexes s c = Some mu"
    and "\<And>t c mu. ls_pc s t = Holding c mu \<Longrightarrow> ls_mutexes s c = Some mu \<and> mu \<in> ls_held s"
    and "\<And>c mu. ls_mutexes s c = Some mu \<Longrightarrow> mu < ls_next s"
    and "\<And>c d mu. ls_mutexes s c = Some mu \<Longrightarrow> ls_mutexes s d = Some mu \<Longrightarrow> c = d"
    and "\<And>t t' c d mu. ls_pc s t = Holding c mu \<Longrightarrow> ls_pc s t' = Holding d mu \<Longrightarrow> t = t'"
    and "\<And>mu. mu \<in> ls_held s \<Longrightarrow> \<exists>t c. ls_pc s t = Holding c mu"
  shows "lock_inv s"
  unfolding lock_inv_def using assms by (intro conjI allI impI ballI) blast+

lemma lock_invD:
  assumes "lock_inv s"
  shows "ls_pc s t = Waiting c mu \<Longrightarrow> ls_mutexes s c = Some mu"
    and "ls_pc s t = Holding c mu \<Longrightarrow> ls_mutexes s c = Some mu"
    and "ls_pc s t = Holding c mu \<Longrightarrow> mu \<in> ls_held s"
    and "ls_mutexes s c = Some mu \<Longrightarrow> mu < ls_next s"
    and "ls_mutexes s c = Some mu \<Longrightarrow> ls_mutexes s d = Some mu \<Longrightarrow> c = d"
    and "ls_pc s t = Holding c mu \<Longrightarrow> ls_pc s t' = Holding d mu \<Longrightarrow> t = t'"
    and "mu \<in> ls_held s \<Longrightarrow> \<exists>t c. ls_pc s t = Holding c mu"
  using assms unfolding lock_inv_def by blast+

lemma lock_inv_init: "lock_inv no_locks"
  by (rule lock_invI) (simp_all add: no_locks_def)

lemma lock_inv_mutex:
  assumes "lock_inv s" and "course_mutex c s = (mu, s')"
  shows "lock_inv s' \<and> ls_mutexes s' c = Some mu \<and> ls_pc s' = ls_pc s"
proof (cases "ls_mutexes s c")
  case None
  have fresh: "ls_mutexes s d \<noteq> Some (ls_next s)" for d
    using lock_invD(4) [OF assms(1)] by blast
  from None assms(2) have s': "s' = s\<lparr>ls_mutexes := (ls_mutexes s)(c \<mapsto> ls_next s), ls_next := ls_next s + 1\<rparr>"
    "mu = ls_next s" by (auto simp: course_mutex_def)
  have "lock_inv s'"
    unfolding s' using None fresh lock_invD [OF assms(1)]
    by (intro lock_invI) (auto split: if_splits intro: less_SucI)
  with s' show ?thesis by simp
qed (use assms in \<open>simp add: course_mutex_def\<close>)

lemma lock_inv_lookup:
  assumes "lock_inv s" and "ls_pc s t = Idle" and "ls_mutexes s c = Some mu"
  shows "lock_inv (s\<lparr>ls_pc := (ls_pc s)(t := Waiting c mu)\<rparr>)"
proof (rule lock_invI, goal_cases)
  case (6 m)
  then obtain t' d where "ls_pc s t' = Holding d m" using lock_invD(7) [OF assms(1), of m] by auto
  with assms(2) show ?case by (auto intro!: exI [of _ t'])
qed (use lock_invD [OF assms(1)] assms(3) in \<open>auto split: if_splits\<close>)

lemma lock_inv_acquire:
  assumes "lock_inv s" and "ls_pc s t = Waiting c mu" and "mu \<notin> ls_held s"
  shows "lock_inv (s\<lparr>ls_held := insert mu (ls_held s), ls_pc := (ls_pc s)(t := Holding c mu)\<rparr>)"
proof (rule lock_invI, goal_cases)
  case (6 m)
  show ?case
  proof (cases "m = mu")
    case False
    with 6 obtain t' d where "ls_pc s t' = Holding d m" using lock_invD(7) [OF assms(1), of m] by auto
    with assms(2) show ?thesis by (auto intro!: exI [of _ t'])
  qed (auto intro: exI [of _ t])
next
  case (5 t1 t2 c1 c2 m)
  have "ls_pc s t' \<noteq> Holding d mu" for t' d using assms(3) lock_invD(3) [OF assms(1)] by blast
  with 5 show ?case using lock_invD(6) [OF assms(1), of t1 c1 m t2 c2] by (auto split: if_splits)
qed (use lock_invD [OF assms(1)] assms(2) in \<open>auto split: if_splits\<close>)

lemma lock_inv_unlock:
  assumes "lock_inv s" and "ls_pc s t = Holding c mu"
  shows "lock_inv (s\<lparr>ls_held := ls_held s - {mu}, ls_pc := (ls_pc s)(t := Idle)\<rparr>)"
proof (rule lock_invI, goal_cases)
  case (2 t' d m)
  then show ?case using lock_invD(2,3) [OF assms(1), of t' d m] lock_invD(6) [OF assms(1) assms(2), of t' d]
    by (auto split: if_splits)
next
  case (6 m)
  then obtain t' d where "ls_pc s t' = Holding d m" "m \<noteq> mu" using lock_invD(7) [OF assms(1), of m] by auto
  with assms(2) show ?case by (auto intro!: exI [of _ t'])
qed (use lock_invD [OF assms(1)] in \<open>auto split: if_splits\<close>)

lemma lock_inv_step: "lock_step s s' \<Longrightarrow> lock_inv s \<Longrightarrow> lock_inv s'"
proof (induction rule: lock_step.induct)
  case (lock_lookup s t c mu s')
  from lock_inv_mutex [OF lock_lookup(3,2)] lock_lookup(1) show ?case
    by (intro lock_inv_lookup) auto
qed (simp_all add: lock_inv_acquire lock_inv_unlock)

lemma lock_inv_reachable: "lock_step\<^sup>*\<^sup>* no_locks s \<Longrightarrow> lock_inv s"
  by (induction rule: rtranclp_induct) (auto intro: lock_inv_init lock_inv_step)

section \<open>Properties\<close>

text \<open>of the threads that lock courses, no two are between the lock and the unlock of one course, and
  a thread that waits for a course is kept waiting only by a thread that holds that same course.
\<close>

lemma course_lock_exclusive:
  assumes "lock_step\<^sup>*\<^sup>* no_locks s"
  shows "(\<forall>t t' c mu mu'. ls_pc s t = Holding c mu \<longrightarrow> ls_pc s t' = Holding c mu' \<longrightarrow> t = t') \<and>
     (\<forall>t c mu. ls_pc s t = Waiting c mu \<longrightarrow> (\<forall>t'. ls_pc s t' \<noteq> Holding c mu) \<longrightarrow>
        lock_step s (s\<lparr>ls_held := insert mu (ls_held s), ls_pc := (ls_pc s)(t := Holding c mu)\<rparr>))"
proof (intro conjI allI impI)
  note inv = lock_invD [OF lock_inv_reachable [OF assms]]
  show "t = t'" if "ls_pc s t = Holding c mu" "ls_pc s t' = Holding c mu'" for t t' c mu mu'
  proof -
    have "mu = mu'" using inv(2) that by (metis option.inject)
    with that inv(6) show ?thesis by blast
  qed
  show "lock_step s (s\<lparr>ls_held := insert mu (ls_held s), ls_pc := (ls_pc s)(t := Holding c mu)\<rparr>)"
    if "ls_pc s t = Waiting c mu" "\<forall>t'. ls_pc s t' \<noteq> Holding c mu" for t c mu
  proof -
    have "ls_pc s t' \<noteq> Holding d mu" for t' d
      using inv(1,2,5) that by metis
    then have "mu \<notin> ls_held s" using inv(7) by blast
    with that(1) show ?thesis by (rule lock_acquire)
  qed
qed

lemma course_lock_exclusive_witness:
  "\<exists>s. lock_step\<^sup>*\<^sup>* no_locks s \<and> ls_pc s 0 = Holding 7 0 \<and> (\<forall>t mu. ls_pc s t = Holding 7 mu \<longrightarrow> t = 0)"
proof -
  define s1 where "s1 = \<lparr>ls_mutexes = [7 \<mapsto> 0], ls_next = 1, ls_held = {}, ls_pc = (\<lambda>_. Idle)(0 := Waiting 7 0)\<rparr>"
  define s2 where "s2 = s1\<lparr>ls_held := {0}, ls_pc := (\<lambda>_. Idle)(0 := Holding 7 0)\<rparr>"
  have "lock_step no_locks s1"
    using lock_lookup [of no_locks 0 7 0 "\<lparr>ls_mutexes = [7 \<mapsto> 0], ls_next = 1, ls_held = {}, ls_pc = \<lambda>_. Idle\<rparr>"]
    by (simp add: no_locks_def course_mutex_def s1_def)
  moreover have "lock_step s1 s2"
    using lock_acquire [of s1 0 7 0] by (simp add: s1_def s2_def)
  ultimately have r: "lock_step\<^sup>*\<^sup>* no_locks s2" by simp
  have "ls_pc s2 0 = Holding 7 0" by (simp add: s2_def)
  with course_lock_exclusive [OF r] r show ?thesis by blast
qed

text \<open>
  where no user is listed twice, \<open>ContainsAll\<close> compares the groups as sets of users.
\<close>

lemma contains_all_iff:
  assumes "distinct (group_user_ids g)" and "distinct (group_user_ids h)"
  shows "contains_all g h \<longleftrightarrow> set (group_user_ids g) = set (group_user_ids h)"
proof -
  have sub: "list_all (group_contains g) (g_users h) \<longleftrightarrow> set (group_user_ids h) \<subseteq> set (group_user_ids g)"
    by (auto simp: list_all_iff group_contains_def list_ex_iff group_user_ids_def)
  have len: "length (g_users k) = card (set (group_user_ids k))" if "distinct (group_user_ids k)" for k
    using distinct_card [OF that] by (simp add: group_user_ids_def)
  show ?thesis
    unfolding contains_all_def sub len [OF assms(1)] len [OF assms(2)]
    by (metis card_subset_eq finite_set order_refl)
qed

lemma contains_all_iff_witness:
  "contains_all (zero_group\<lparr>g_users := [zero_user\<lparr>u_ID := 1\<rparr>, zero_user\<lparr>u_ID := 2\<rparr>]\<rparr>)
     (zero_group\<lparr>g_users := [zero_user\<lparr>u_ID := 2\<rparr>, zero_user\<lparr>u_ID := 1\<rparr>]\<rparr>)"
  by (subst contains_all_iff) (auto simp: group_user_ids_def)

text \<open>
  after an update with a Dockerfile the cache gives that file for the course, the digest of the course
  is the digest of the file, no other course is touched, and the same file is not an update again; the
  update is reported exactly if the digest changed.
\<close>

lemma update_dockerfile_cached:
  "let (updated, cache', course') = update_dockerfile digest cache course (f # file)
   in get_dockerfile cache' course' = f # file \<and> c_DockerfileDigest course' = digest (f # file) \<and>
      updated = (c_DockerfileDigest course \<noteq> digest (f # file)) \<and>
      update_dockerfile digest cache' course' (f # file) = (False, cache', course') \<and>
      cache' = cache(c_ID course := f # file)"
  by (simp add: update_dockerfile_def get_dockerfile_def Let_def)

end
