(* ===== verification/Submissions.thy ===== *)
theory Submissions
  imports Model
begin

text \<open>
  Submissions, their grades and reviews: \<open>qf/submission.go\<close>, \<open>qf/assignment.go\<close>, \<open>qf/review.go\<close> and
  \<open>qf/course_submissions.go\<close>.  A method that mutates its receiver returns the new value.
\<close>

section \<open>Grades of a submission\<close>

definition is_approved :: "submission \<Rightarrow> u64 \<Rightarrow> bool" where
  "is_approved s userID = list_ex (\<lambda>g. gr_UserID g = userID \<and> gr_Status g = S_APPROVED) (s_Grades s)"

definition is_all_approved :: "submission \<Rightarrow> bool" where
  "is_all_approved s = list_all (\<lambda>g. gr_Status g = S_APPROVED) (s_Grades s)"

definition get_statuses :: "submission \<Rightarrow> submission_status list" where
  "get_statuses s = map gr_Status (s_Grades s)"

definition get_status_by_user :: "submission \<Rightarrow> u64 \<Rightarrow> submission_status" where
  "get_status_by_user s userID =
     (case find (\<lambda>g. gr_UserID g = userID) (s_Grades s) of Some g \<Rightarrow> gr_Status g | None \<Rightarrow> S_NONE)"

definition set_grade_by_user :: "submission \<Rightarrow> u64 \<Rightarrow> submission_status \<Rightarrow> submission" where
  "set_grade_by_user s userID st =
     s\<lparr>s_Grades := update_first (\<lambda>g. gr_UserID g = userID) (\<lambda>g. g\<lparr>gr_Status := st\<rparr>) (s_Grades s)\<rparr>"

definition set_grade_all :: "submission \<Rightarrow> submission_status \<Rightarrow> submission" where
  "set_grade_all s st = s\<lparr>s_Grades := map (\<lambda>g. g\<lparr>gr_Status := st\<rparr>) (s_Grades s)\<rparr>"

definition set_grade :: "submission \<Rightarrow> grade \<Rightarrow> submission" where
  "set_grade s g =
     (if gr_UserID g = 0 then set_grade_all s (gr_Status g)
      else set_grade_by_user s (gr_UserID g) (gr_Status g))"

definition set_grades_if_approved :: "submission \<Rightarrow> assignment \<Rightarrow> u32 \<Rightarrow> submission" where
  "set_grades_if_approved s a score =
     (if a_autoApprove a \<and> a_scoreLimit a \<le> score then set_grade_all s S_APPROVED else s)"

text \<open>The getters \<open>GetBuildInfo\<close> and \<open>GetSubmissionDate\<close> of a nil message give a nil timestamp.\<close>

definition submission_date :: "submission \<Rightarrow> time" where
  "submission_date s =
     as_time (case s_BuildInfo s of None \<Rightarrow> None | Some b \<Rightarrow> bi_SubmissionDate b)"

definition newest_submission_date :: "submission \<Rightarrow> time \<Rightarrow> time" where
  "newest_submission_date s d = (if d < submission_date s then submission_date s else d)"

definition by_user :: "submission \<Rightarrow> u64 \<Rightarrow> bool" where
  "by_user s userID \<longleftrightarrow> s_groupID s = 0 \<and> 0 < s_userID s \<and> s_userID s = userID"

definition by_group :: "submission \<Rightarrow> u64 \<Rightarrow> bool" where
  "by_group s groupID \<longleftrightarrow> s_userID s = 0 \<and> 0 < s_groupID s \<and> s_groupID s = groupID"

definition clean_one :: "u64 \<Rightarrow> submission \<Rightarrow> submission" where
  "clean_one userID s =
     (let g = \<lparr>gr_SubmissionID = s_ID s, gr_UserID = userID,
                gr_Status = get_status_by_user s userID\<rparr>;
          s1 = s\<lparr>s_Grades := [g]\<rparr>
      in if s_reviews s1 = [] then s1
         else if gr_Status g = S_NONE then s1\<lparr>s_score := 0, s_Grades := [], s_reviews := []\<rparr>
         else s1)"

definition clean_submissions :: "u64 \<Rightarrow> submission list \<Rightarrow> submission list" where
  "clean_submissions userID ss = map (clean_one userID) ss"

definition course_submissions_for :: "(u64 \<rightharpoonup> submission list) \<Rightarrow> u64 \<Rightarrow> submission list" where
  "course_submissions_for m i = (case m i of None \<Rightarrow> [] | Some ss \<Rightarrow> ss)"

section \<open>Assignments\<close>

definition since_deadline :: "assignment \<Rightarrow> time \<Rightarrow> duration" where
  "since_deadline a now = time_sub now (as_time (a_deadline a))"

text \<open>The timeout that \<open>WithTimeout\<close> puts on its context.\<close>

definition with_timeout :: "assignment \<Rightarrow> duration \<Rightarrow> duration" where
  "with_timeout a timeout =
     (if 0 < a_containerTimeout a then wrap64 (uint (a_containerTimeout a) * 60000000000) else timeout)"

definition graded_manually :: "assignment \<Rightarrow> bool" where
  "graded_manually a \<longleftrightarrow> 0 < a_reviewers a"

definition zero_score_tests :: "assignment \<Rightarrow> score list" where
  "zero_score_tests a =
     map (\<lambda>t. zero_score\<lparr>sc_TestName := ti_TestName t, sc_MaxScore := ti_MaxScore t,
                          sc_Weight := ti_Weight t\<rparr>) (a_ExpectedTests a)"

section \<open>Reviews\<close>

text \<open>
  \<open>ComputeScore\<close>: the loop over all criteria of all benchmarks counts the criteria, the passed ones,
  and sums the points of the passed ones in an \<open>int\<close> (64 bits, so the sum is taken modulo \<open>2 ^ 64\<close>).
\<close>

record score_sum =
  scorePoints :: u64
  totalCriteria :: nat
  passedCriteria :: nat

definition count_criterion :: "criterion \<Rightarrow> score_sum \<Rightarrow> score_sum" where
  "count_criterion c acc =
     (let acc = acc\<lparr>totalCriteria := totalCriteria acc + 1\<rparr>
      in if cr_grade c = CG_PASSED
         then acc\<lparr>passedCriteria := passedCriteria acc + 1,
                   scorePoints := scorePoints acc + cr_points c\<rparr>
         else acc)"

definition compute_score :: "review \<Rightarrow> review" where
  "compute_score r =
     (let acc = fold (\<lambda>bm. fold count_criterion (bm_criteria bm)) (rv_benchmarks r)
                  \<lparr>scorePoints = 0, totalCriteria = 0, passedCriteria = 0\<rparr>
      in if totalCriteria acc = 0 then r
         else if scorePoints acc = 0
         then r\<lparr>rv_score := of_nat (100 * passedCriteria acc div totalCriteria acc)\<rparr>
         else r\<lparr>rv_score := ucast (scorePoints acc)\<rparr>)"

section \<open>Facts about grades\<close>

lemmas grade_defs =
  is_approved_def is_all_approved_def get_statuses_def get_status_by_user_def
  set_grade_by_user_def set_grade_all_def set_grade_def set_grades_if_approved_def

abbreviation grade_users :: "submission \<Rightarrow> u64 list" where
  "grade_users s \<equiv> map gr_UserID (s_Grades s)"

lemma grade_users_set [simp]:
  "grade_users (set_grade_by_user s u st) = grade_users s"
  "grade_users (set_grade_all s st) = grade_users s"
  by (simp_all add: set_grade_by_user_def set_grade_all_def map_update_first)

lemma find_update_first_same:
  "\<lbrakk>\<exists>g\<in>set gs. k g = u; \<And>g. k (f g) = k g\<rbrakk>
    \<Longrightarrow> find (\<lambda>g. k g = u) (update_first (\<lambda>g. k g = u) f gs) = map_option f (find (\<lambda>g. k g = u) gs)"
  by (induction gs) auto

lemma find_update_first_other:
  "\<lbrakk>u \<noteq> v; \<And>g. k (f g) = k g\<rbrakk>
    \<Longrightarrow> find (\<lambda>g. k g = v) (update_first (\<lambda>g. k g = u) f gs) = find (\<lambda>g. k g = v) gs"
  by (induction gs) auto

lemma find_key_Some: "u \<in> k ` set gs \<Longrightarrow> \<exists>g. find (\<lambda>g. k g = u) gs = Some g \<and> k g = u"
  by (induction gs) auto

text \<open>The grades of a submission are a keyed store that accepts the users it has a grade for.\<close>

interpretation grades: keyed_store get_status_by_user set_grade_by_user "\<lambda>s u. u \<in> set (grade_users s)"
proof unfold_locales
  fix s u st
  assume "u \<in> set (grade_users s)"
  then obtain g where "find (\<lambda>g. gr_UserID g = u) (s_Grades s) = Some g"
    using find_key_Some [of u gr_UserID "s_Grades s"] by auto
  moreover from \<open>u \<in> set (grade_users s)\<close> have "\<exists>g\<in>set (s_Grades s). gr_UserID g = u" by auto
  ultimately show "get_status_by_user (set_grade_by_user s u st) u = st"
    by (simp add: get_status_by_user_def set_grade_by_user_def find_update_first_same)
next
  fix u v :: u64 and s st
  assume "u \<noteq> v"
  then show "get_status_by_user (set_grade_by_user s u st) v = get_status_by_user s v"
    by (simp add: get_status_by_user_def set_grade_by_user_def find_update_first_other)
qed simp

lemma is_approved_iff:
  assumes "distinct (grade_users s)"
  shows "is_approved s u \<longleftrightarrow> get_status_by_user s u = S_APPROVED"
proof -
  have "list_ex (\<lambda>g. gr_UserID g = u \<and> gr_Status g = S_APPROVED) gs \<longleftrightarrow>
      (case find (\<lambda>g. gr_UserID g = u) gs of Some g \<Rightarrow> gr_Status g | None \<Rightarrow> S_NONE) = S_APPROVED"
    if "distinct (map gr_UserID gs)" for gs
    using that by (induction gs) (auto simp: list_ex_iff find_None_iff image_iff)
  with assms show ?thesis by (simp add: is_approved_def get_status_by_user_def)
qed

lemma set_grade_all_approves:
  "is_all_approved (set_grade_all s S_APPROVED)"
  "u \<in> set (grade_users s) \<Longrightarrow> is_approved (set_grade_all s S_APPROVED) u"
  by (auto simp: grade_defs list_all_iff list_ex_iff)

lemma get_status_set_grade_all:
  "get_status_by_user (set_grade_all s st) u = (if u \<in> set (grade_users s) then st else S_NONE)"
proof -
  have "(case find (\<lambda>g. gr_UserID g = u) (map (\<lambda>g. g\<lparr>gr_Status := st\<rparr>) gs) of
           Some g \<Rightarrow> gr_Status g | None \<Rightarrow> S_NONE) = (if u \<in> gr_UserID ` set gs then st else S_NONE)"
    for gs :: "grade list"
    by (induction gs) auto
  then show ?thesis by (simp add: get_status_by_user_def set_grade_all_def)
qed

lemma get_status_no_grade: "u \<notin> set (grade_users s) \<Longrightarrow> get_status_by_user s u = S_NONE"
  by (auto simp: get_status_by_user_def find_None_iff split: option.splits dest!: find_Some_iff [THEN iffD1])

section \<open>Facts about reviews\<close>

definition review_criteria :: "review \<Rightarrow> criterion list" where
  "review_criteria r = concat (map bm_criteria (rv_benchmarks r))"

definition passed :: "criterion list \<Rightarrow> criterion list" where
  "passed cs = filter (\<lambda>c. cr_grade c = CG_PASSED) cs"

lemma fold_concat: "fold (\<lambda>b. fold f (g b)) bs acc = fold f (concat (map g bs)) acc"
  by (induction bs arbitrary: acc) auto

lemma fold_count_criterion:
  "fold count_criterion cs acc =
     acc\<lparr>totalCriteria := totalCriteria acc + length cs,
         passedCriteria := passedCriteria acc + length (passed cs),
         scorePoints := scorePoints acc + sum_list (map cr_points (passed cs))\<rparr>"
  by (induction cs arbitrary: acc) (simp_all add: count_criterion_def passed_def Let_def)

lemma compute_score_eq:
  "rv_score (compute_score r) =
     (let cs = review_criteria r; pts = sum_list (map cr_points (passed cs))
      in if cs = [] then rv_score r
         else if pts = 0 then of_nat (100 * length (passed cs) div length cs)
         else ucast pts)"
  by (simp add: compute_score_def fold_concat fold_count_criterion review_criteria_def Let_def)

lemma percent_le: "length (passed cs) \<le> length cs"
  by (simp add: passed_def)

text \<open>The sum of the points as a natural number, when it fits the 64 bits of the loop's counter.\<close>

lemma unat_sum_list:
  fixes ws :: "u64 list"
  assumes "sum_list (map unat ws) < 2 ^ 64"
  shows "unat (sum_list ws) = sum_list (map unat ws)"
  using assms
proof (induction ws)
  case (Cons w ws)
  then have "unat (sum_list ws) = sum_list (map unat ws)" by simp
  with Cons.prems show ?case by (simp add: unat_add_lem [THEN iffD1])
qed simp

definition points_sum :: "criterion list \<Rightarrow> nat" where
  "points_sum cs = sum_list (map (unat \<circ> cr_points) (passed cs))"

definition no_points :: "criterion list \<Rightarrow> bool" where
  "no_points cs \<longleftrightarrow> (\<forall>c\<in>set cs. cr_points c = 0)"

definition all_points :: "criterion list \<Rightarrow> bool" where
  "all_points cs \<longleftrightarrow> (\<forall>c\<in>set cs. cr_points c \<noteq> 0)"

lemma sum_list_points:
  "points_sum cs < 2 ^ 64 \<Longrightarrow> unat (sum_list (map cr_points (passed cs))) = points_sum cs"
  using unat_sum_list [of "map cr_points (passed cs)"] by (simp add: points_sum_def comp_def)

lemma points_sum_zero:
  assumes "all_points cs" and "points_sum cs = 0"
  shows "passed cs = []"
proof (rule ccontr)
  assume "passed cs \<noteq> []"
  then obtain c where c: "c \<in> set (passed cs)" by (cases "passed cs") auto
  with assms(1) have "0 < unat (cr_points c)"
    by (auto simp: all_points_def passed_def unat_gt_0)
  moreover from c assms(2) have "unat (cr_points c) = 0"
    by (simp add: points_sum_def)
  ultimately show False by simp
qed

lemma no_points_sum: "no_points cs \<Longrightarrow> sum_list (map cr_points (passed cs)) = 0"
  by (induction cs) (auto simp: no_points_def passed_def)

lemma unat_compute_score_percent:
  assumes "no_points (review_criteria r)" and "review_criteria r \<noteq> []"
  shows "unat (rv_score (compute_score r)) =
           100 * length (passed (review_criteria r)) div length (review_criteria r)"
proof -
  let ?cs = "review_criteria r"
  have "sum_list (map cr_points (passed ?cs)) = 0"
    using assms(1) by (rule no_points_sum)
  then have eq: "rv_score (compute_score r) = of_nat (100 * length (passed ?cs) div length ?cs)"
    using assms(2) by (simp add: compute_score_eq Let_def)
  have "100 * length (passed ?cs) div length ?cs \<le> 100 * length ?cs div length ?cs"
    by (intro div_le_mono mult_le_mono2 percent_le)
  also have "\<dots> = 100" using assms(2) by simp
  finally show ?thesis unfolding eq by (simp add: unsigned_of_nat take_bit_nat_eq_self)
qed

lemma unat_compute_score_points:
  assumes "all_points (review_criteria r)" and "review_criteria r \<noteq> []"
    and "points_sum (review_criteria r) < 2 ^ 32"
  shows "unat (rv_score (compute_score r)) = points_sum (review_criteria r)"
proof -
  let ?cs = "review_criteria r" and ?pts = "sum_list (map cr_points (passed (review_criteria r)))"
  have pts: "unat ?pts = points_sum ?cs" using assms(3) by (simp add: sum_list_points)
  show ?thesis
  proof (cases "?pts = 0")
    case True
    then have "points_sum ?cs = 0" using pts by simp
    with points_sum_zero [OF assms(1)] have "passed ?cs = []" by blast
    with True assms(2) show ?thesis by (simp add: compute_score_eq points_sum_def)
  next
    case False
    then have "rv_score (compute_score r) = ucast ?pts"
      using assms(2) by (simp add: compute_score_eq Let_def)
    moreover have "unat (ucast ?pts :: u32) = unat ?pts"
      using assms(3) pts by (simp add: unsigned_ucast_eq take_bit_nat_eq_self)
    ultimately show ?thesis using pts by simp
  qed
qed

text \<open>\<open>more_passed cs cs'\<close>: the same criteria, where \<open>cs'\<close> passes at least those that \<open>cs\<close> passes.\<close>

definition more_passed :: "criterion list \<Rightarrow> criterion list \<Rightarrow> bool" where
  "more_passed cs cs' \<longleftrightarrow>
     list_all2 (\<lambda>c c'. cr_points c' = cr_points c \<and> (cr_grade c = CG_PASSED \<longrightarrow> cr_grade c' = CG_PASSED)) cs cs'"

lemma more_passed_mono:
  assumes "more_passed cs cs'"
  shows "length cs' = length cs" "length (passed cs) \<le> length (passed cs')"
    "points_sum cs \<le> points_sum cs'" "no_points cs' = no_points cs" "all_points cs' = all_points cs"
  using assms unfolding more_passed_def
  by (induction rule: list_all2_induct)
    (auto simp: passed_def points_sum_def no_points_def all_points_def)

section \<open>Properties\<close>

text \<open>
  \<open>SetGrade\<close> with user ID 0 gives the grade's status to every user that has a grade in the
  submission, with another user ID to that user only, and never changes which users have grades;
  a user without a grade keeps the status NONE.
\<close>

lemma set_grade_status:
  "get_status_by_user (set_grade s g) u =
     (if u \<in> set (grade_users s) \<and> (gr_UserID g = 0 \<or> gr_UserID g = u) then gr_Status g
      else get_status_by_user s u)
   \<and> map gr_UserID (s_Grades (set_grade s g)) = map gr_UserID (s_Grades s)"
  using grades.lookup_same [of "gr_UserID g" s "gr_Status g"]
    grades.lookup_other [of "gr_UserID g" u s "gr_Status g"]
  by (auto simp: set_grade_def get_status_set_grade_all get_status_no_grade)

text \<open>the submissions that a student gets are cleaned: each shows no grade but the student's own,
  and one that is reviewed manually and has no grade yet shows no score, no grade and no review;
  every other submission keeps its score and reviews and shows the student's grade.
\<close>

lemma clean_hides_ungraded:
  "list_all2 (\<lambda>s s'.
      s_ID s' = s_ID s \<and> (\<forall>g\<in>set (s_Grades s'). gr_UserID g = u)
      \<and> (if s_reviews s \<noteq> [] \<and> get_status_by_user s u = S_NONE
          then s_score s' = 0 \<and> s_Grades s' = [] \<and> s_reviews s' = []
          else s_score s' = s_score s \<and> s_reviews s' = s_reviews s \<and>
               get_statuses s' = [get_status_by_user s u]))
     ss (clean_submissions u ss)"
  by (simp add: clean_submissions_def list.rel_map clean_one_def Let_def get_statuses_def
      list.rel_refl)

definition reviewed_submission :: submission where
  "reviewed_submission = zero_submission\<lparr>s_ID := 1, s_score := 90,
     s_Grades := [\<lparr>gr_SubmissionID = 1, gr_UserID = 4, gr_Status = S_APPROVED\<rparr>],
     s_reviews := [\<lparr>rv_ID = 1, rv_SubmissionID = 1, rv_ReviewerID = 1, rv_feedback = [],
       rv_score = 90, rv_benchmarks = [], rv_edited = None\<rparr>]\<rparr>"

lemma clean_hides_ungraded_witness:
  "s_score (hd (clean_submissions 3 [reviewed_submission])) = 0"
proof -
  obtain s' where "clean_submissions 3 [reviewed_submission] = [s']"
    by (simp add: clean_submissions_def)
  then show ?thesis
    using clean_hides_ungraded [of 3 "[reviewed_submission]"]
    by (simp add: reviewed_submission_def zero_submission_def get_status_by_user_def)
qed

text \<open>the score that \<open>ComputeScore\<close> gives a review never falls when another criterion is passed, as
  long as either no criterion has points (the score is then the percentage of passed criteria, at
  most 100) or every criterion has points and their sum fits 32 bits.
\<close>

lemma compute_score_mono:
  assumes "more_passed (review_criteria r) (review_criteria r')"
    and "review_criteria r \<noteq> []"
    and "no_points (review_criteria r) \<or>
         all_points (review_criteria r) \<and> points_sum (review_criteria r') < 2 ^ 32"
  shows "rv_score (compute_score r) \<le> rv_score (compute_score r')"
proof -
  note m = more_passed_mono [OF assms(1)]
  have ne: "review_criteria r' \<noteq> []" using m(1) assms(2) by auto
  have "unat (rv_score (compute_score r)) \<le> unat (rv_score (compute_score r'))"
  proof (cases "no_points (review_criteria r)")
    case True
    then show ?thesis
      using unat_compute_score_percent [of r] unat_compute_score_percent [of r'] m assms(2) ne
      by (simp add: div_le_mono)
  next
    case False
    with assms(3) m show ?thesis
      using unat_compute_score_points [of r] unat_compute_score_points [of r'] assms(2) ne by simp
  qed
  then show ?thesis by (simp add: word_le_nat_alt)
qed

definition example_criterion :: "u64 \<Rightarrow> criterion_grade \<Rightarrow> criterion" where
  "example_criterion pts g = \<lparr>cr_ID = 0, cr_BenchmarkID = 0, cr_CourseID = 0, cr_points = pts,
     cr_description = [], cr_grade = g, cr_comment = []\<rparr>"

definition example_review :: "criterion list \<Rightarrow> review" where
  "example_review cs = \<lparr>rv_ID = 1, rv_SubmissionID = 1, rv_ReviewerID = 1, rv_feedback = [],
     rv_score = 0,
     rv_benchmarks = [\<lparr>bm_ID = 1, bm_CourseID = 1, bm_AssignmentID = 1, bm_ReviewID = 1,
       bm_heading = [], bm_comment = [], bm_criteria = cs\<rparr>], rv_edited = None\<rparr>"

lemmas example_defs = example_criterion_def example_review_def

lemma compute_score_mono_witness:
  "rv_score (compute_score (example_review [example_criterion 5 CG_PASSED, example_criterion 3 CG_FAILED]))
     \<le> rv_score (compute_score (example_review [example_criterion 5 CG_PASSED, example_criterion 3 CG_PASSED]))"
  by (rule compute_score_mono)
    (simp_all add: example_defs review_criteria_def more_passed_def all_points_def points_sum_def passed_def)

text \<open>
  The restriction is needed: with a criterion of 0 points next to one of 5 points, passing the
  second one lowers the score from 50 to 5.
\<close>

lemma compute_score_mixed:
  "rv_score (compute_score (example_review [example_criterion 0 CG_PASSED, example_criterion 5 CG_FAILED])) = 50"
  "rv_score (compute_score (example_review [example_criterion 0 CG_PASSED, example_criterion 5 CG_PASSED])) = 5"
  by (simp_all add: example_defs compute_score_eq review_criteria_def passed_def
      flip: numeral_2_eq_2)

end
