(* ===== verification/Slip_Days.thy ===== *)
theory Slip_Days
  imports Submissions
begin

text \<open>
  Slip days and enrollments: \<open>qf/enrollment.go\<close>.  An enrollment keeps one entry of used slip days per
  assignment; the entries are a keyed store over assignment IDs, so a later submission of the same
  assignment replaces the entry of an earlier one.
\<close>

section \<open>Operations\<close>

definition days :: duration where
  "days = 24 * hours"

definition gracePeriod :: duration where
  "gracePeriod = 2 * hours"

datatype slip_error =
    CourseMismatch u64 u64
  | AssignmentMismatch u64 u64

definition internal_update_slip_days :: "enrollment \<Rightarrow> u64 \<Rightarrow> u32 \<Rightarrow> enrollment" where
  "internal_update_slip_days m assignmentID slipDays =
     (if list_ex (\<lambda>d. sd_assignmentID d = assignmentID) (e_usedSlipDays m)
      then m\<lparr>e_usedSlipDays := update_first (\<lambda>d. sd_assignmentID d = assignmentID)
               (\<lambda>d. d\<lparr>sd_usedDays := slipDays\<rparr>) (e_usedSlipDays m)\<rparr>
      else m\<lparr>e_usedSlipDays := e_usedSlipDays m @
               [\<lparr>sd_ID = 0, sd_enrollmentID = e_ID m, sd_assignmentID = assignmentID,
                 sd_usedDays = slipDays\<rparr>]\<rparr>)"

text \<open>The days charged for a positive time since the deadline; \<open>uint32(...)\<close> keeps the low 32 bits.\<close>

definition used_days_since :: "duration \<Rightarrow> u32" where
  "used_days_since sinceDeadline =
     (let slpDays = word_of_int (go_div sinceDeadline days);
          slpHours = go_rem sinceDeadline days
      in if gracePeriod < slpHours then slpDays + 1 else slpDays)"

definition update_slip_days ::
    "enrollment \<Rightarrow> assignment \<Rightarrow> submission \<Rightarrow> slip_error + enrollment" where
  "update_slip_days m a s =
     (if e_courseID m \<noteq> a_CourseID a then Inl (CourseMismatch (e_courseID m) (a_CourseID a))
      else if a_ID a \<noteq> s_AssignmentID s then Inl (AssignmentMismatch (a_ID a) (s_AssignmentID s))
      else
        let sinceDeadline = since_deadline a (submission_date s)
        in if s_score s < a_scoreLimit a \<and> \<not> is_approved s (e_userID m) \<and> 0 < sinceDeadline
           then Inr (internal_update_slip_days m (a_ID a) (used_days_since sinceDeadline))
           else Inr m)"

definition total_slip_days :: "enrollment \<Rightarrow> u32" where
  "total_slip_days m = fold (\<lambda>d tot. tot + sd_usedDays d) (e_usedSlipDays m) 0"

definition remaining_slip_days :: "enrollment \<Rightarrow> course \<Rightarrow> int" where
  "remaining_slip_days m c =
     (if e_courseID m \<noteq> c_ID c then 0 else sint (c_slipDays c - total_slip_days m))"

definition set_slip_days :: "enrollment \<Rightarrow> course \<Rightarrow> enrollment" where
  "set_slip_days m c =
     (let remaining = remaining_slip_days m c
      in if remaining < 0 then m\<lparr>e_slipDaysRemaining := 0\<rparr>
         else m\<lparr>e_slipDaysRemaining := word_of_int remaining\<rparr>)"

definition is_none :: "enrollment \<Rightarrow> bool" where "is_none m \<longleftrightarrow> e_status m = Enrollment_NONE"
definition is_pending :: "enrollment \<Rightarrow> bool" where "is_pending m \<longleftrightarrow> e_status m = Enrollment_PENDING"
definition is_student :: "enrollment \<Rightarrow> bool" where "is_student m \<longleftrightarrow> e_status m = Enrollment_STUDENT"
definition is_teacher :: "enrollment \<Rightarrow> bool" where "is_teacher m \<longleftrightarrow> e_status m = Enrollment_TEACHER"

definition enrollments_course_id :: "enrollment list \<Rightarrow> u64" where
  "enrollments_course_id es = (case es of [] \<Rightarrow> 0 | e # _ \<Rightarrow> e_courseID e)"

definition has_course_id :: "enrollment list \<Rightarrow> bool" where
  "has_course_id es =
     (case es of [] \<Rightarrow> False | e # _ \<Rightarrow> list_all (\<lambda>x. e_courseID x = e_courseID e) es)"

definition enrollments_user_ids :: "enrollment list \<Rightarrow> u64 list" where
  "enrollments_user_ids es = map e_userID es"

text \<open>The loop of \<open>UpdateTotalApproved\<close>: the assignments seen as approved, and their number.\<close>

fun count_approved :: "u64 \<Rightarrow> submission list \<Rightarrow> u64 list \<Rightarrow> u64 \<Rightarrow> u64" where
  "count_approved userID [] seen tot = tot"
| "count_approved userID (s # ss) seen tot =
     (if s_AssignmentID s \<in> set seen then count_approved userID ss seen tot
      else if is_approved s userID
      then count_approved userID ss (s_AssignmentID s # seen) (tot + 1)
      else count_approved userID ss seen tot)"

definition update_total_approved :: "enrollment \<Rightarrow> submission list \<Rightarrow> enrollment" where
  "update_total_approved m ss = m\<lparr>e_totalApproved := count_approved (e_userID m) ss [] 0\<rparr>"

section \<open>The entries as a keyed store\<close>

definition used_days :: "enrollment \<Rightarrow> u64 \<Rightarrow> u32" where
  "used_days m aid =
     (case find (\<lambda>d. sd_assignmentID d = aid) (e_usedSlipDays m) of
        Some d \<Rightarrow> sd_usedDays d | None \<Rightarrow> 0)"

lemma find_append:
  "find P (xs @ ys) = (case find P xs of Some x \<Rightarrow> Some x | None \<Rightarrow> find P ys)"
  by (induction xs) auto

interpretation slip: keyed_store used_days internal_update_slip_days "\<lambda>_ _. True"
proof unfold_locales
  fix m :: enrollment and aid d
  show "used_days (internal_update_slip_days m aid d) aid = d"
  proof (cases "list_ex (\<lambda>x. sd_assignmentID x = aid) (e_usedSlipDays m)")
    case True
    then have "aid \<in> sd_assignmentID ` set (e_usedSlipDays m)" by (auto simp: list_ex_iff)
    then obtain x where "find (\<lambda>x. sd_assignmentID x = aid) (e_usedSlipDays m) = Some x"
      using find_key_Some [of aid sd_assignmentID "e_usedSlipDays m"] by auto
    moreover from True have "\<exists>x\<in>set (e_usedSlipDays m). sd_assignmentID x = aid"
      by (simp add: list_ex_iff)
    ultimately show ?thesis
      by (simp add: used_days_def internal_update_slip_days_def True
          find_update_first_same [where k = sd_assignmentID])
  next
    case False
    then have "find (\<lambda>x. sd_assignmentID x = aid) (e_usedSlipDays m) = None"
      by (auto simp: find_None_iff list_ex_iff)
    with False show ?thesis
      by (simp add: used_days_def internal_update_slip_days_def find_append)
  qed
next
  fix m :: enrollment and aid aid' :: u64 and d
  assume "aid \<noteq> aid'"
  then show "used_days (internal_update_slip_days m aid d) aid' = used_days m aid'"
    by (simp add: used_days_def internal_update_slip_days_def find_append
        find_update_first_other [where k = sd_assignmentID] split: option.split)
qed simp

definition slip_inv :: "enrollment \<Rightarrow> bool" where
  "slip_inv m \<longleftrightarrow> distinct (map sd_assignmentID (e_usedSlipDays m))"

lemma slip_inv_update [invs]: "slip_inv m \<Longrightarrow> slip_inv (internal_update_slip_days m aid d)"
  by (auto simp: slip_inv_def internal_update_slip_days_def map_update_first list_ex_iff)

lemma internal_update_fields [simp]:
  "e_ID (internal_update_slip_days m aid d) = e_ID m"
  "e_courseID (internal_update_slip_days m aid d) = e_courseID m"
  "e_userID (internal_update_slip_days m aid d) = e_userID m"
  "e_status (internal_update_slip_days m aid d) = e_status m"
  "e_totalApproved (internal_update_slip_days m aid d) = e_totalApproved m"
  by (simp_all add: internal_update_slip_days_def)

lemma update_slip_days_fields:
  "update_slip_days m a s = Inr m' \<Longrightarrow>
     e_ID m' = e_ID m \<and> e_courseID m' = e_courseID m \<and> e_userID m' = e_userID m \<and>
     e_status m' = e_status m \<and> e_totalApproved m' = e_totalApproved m \<and>
     (slip_inv m \<longrightarrow> slip_inv m')"
  by (auto simp: update_slip_days_def Let_def slip_inv_update split: if_splits)

section \<open>Arithmetic of days\<close>

lemma uint_of_small: "0 \<le> q \<Longrightarrow> q < 4294967296 \<Longrightarrow> uint (word_of_int q :: u32) = q"
  by (simp add: uint_word_of_int)

lemma used_days_since_int:
  assumes "0 < d" and "in_i64 d"
  shows "uint (used_days_since d) = d div days + (if gracePeriod < d mod days then 1 else 0)"
proof -
  let ?q = "d div days"
  have day: "days = 86400000000000" by (simp add: days_def hours_def)
  have q: "0 \<le> ?q" using assms(1) by (simp add: day pos_imp_zdiv_nonneg_iff)
  have "?q \<le> 9223372036854775807 div days"
    using assms(2) by (intro zdiv_mono1) (simp_all add: in_i64_def day)
  then have q': "?q + 1 < 4294967296" by (simp add: day)
  have succ: "word_of_int ?q + 1 = (word_of_int (?q + 1) :: u32)" by simp
  have uq: "uint (word_of_int ?q :: u32) = ?q" "uint (word_of_int (?q + 1) :: u32) = ?q + 1"
    by (rule uint_of_small; use q q' in linarith)+
  have "used_days_since d = (if gracePeriod < d mod days then word_of_int (?q + 1) else word_of_int ?q)"
    using assms(1) by (simp add: used_days_since_def Let_def day)
  then show ?thesis using uq by (simp split: if_splits)
qed

lemma total_slip_days_nat:
  assumes "sum_list (map (\<lambda>d. unat (sd_usedDays d)) (e_usedSlipDays m)) < 2 ^ 32"
  shows "unat (total_slip_days m) = sum_list (map (\<lambda>d. unat (sd_usedDays d)) (e_usedSlipDays m))"
proof -
  have "unat (fold (\<lambda>d tot. tot + sd_usedDays d) ds t) =
      unat t + sum_list (map (\<lambda>d. unat (sd_usedDays d)) ds)"
    if "unat t + sum_list (map (\<lambda>d. unat (sd_usedDays d)) ds) < 2 ^ 32" for ds and t :: u32
    using that
  proof (induction ds arbitrary: t)
    case (Cons d ds)
    then have "unat (t + sd_usedDays d) = unat t + unat (sd_usedDays d)"
      by (simp add: unat_add_lem [THEN iffD1])
    with Cons.IH [of "t + sd_usedDays d"] Cons.prems show ?case by simp
  qed simp
  from this [of 0] assms show ?thesis by (simp add: total_slip_days_def)
qed

lemma count_approved_eq:
  "count_approved u ss seen tot =
     tot + of_nat (card (s_AssignmentID ` {s \<in> set ss. is_approved s u} - set seen))"
proof (induction ss arbitrary: seen tot)
  case (Cons s ss)
  let ?A = "s_AssignmentID ` {s \<in> set ss. is_approved s u}"
  show ?case
  proof (cases "is_approved s u \<and> s_AssignmentID s \<notin> set seen")
    case True
    then have "s_AssignmentID ` {x \<in> set (s # ss). is_approved x u} - set seen =
        insert (s_AssignmentID s) (?A - set (s_AssignmentID s # seen))"
      by auto
    moreover have "finite ?A" by simp
    ultimately have "card (s_AssignmentID ` {x \<in> set (s # ss). is_approved x u} - set seen) =
        Suc (card (?A - set (s_AssignmentID s # seen)))"
      by (simp add: card_insert_if)
    with True Cons.IH show ?thesis by simp
  next
    case False
    then have "s_AssignmentID ` {x \<in> set (s # ss). is_approved x u} - set seen = ?A - set seen"
      by auto
    with False Cons.IH show ?thesis by auto
  qed
qed simp

section \<open>Properties\<close>

definition late :: "enrollment \<Rightarrow> assignment \<Rightarrow> submission \<Rightarrow> bool" where
  "late m a s \<longleftrightarrow> s_score s < a_scoreLimit a \<and> \<not> is_approved s (e_userID m) \<and>
     as_time (a_deadline a) < submission_date s"

lemma update_slip_days_ok:
  assumes "e_courseID m = a_CourseID a" and "a_ID a = s_AssignmentID s"
  shows "update_slip_days m a s =
     Inr (if late m a s
          then internal_update_slip_days m (a_ID a) (used_days_since (since_deadline a (submission_date s)))
          else m)"
  using assms by (simp add: update_slip_days_def late_def since_deadline_def Let_def)

lemma used_days_step:
  assumes "e_courseID m = a_CourseID a" and "a_ID a = s_AssignmentID s"
    and "update_slip_days m a s = Inr m'"
  shows "used_days m' =
     (if late m a s
      then (used_days m)(a_ID a := used_days_since (since_deadline a (submission_date s)))
      else used_days m)"
  using assms(3) unfolding update_slip_days_ok [OF assms(1,2)] by (auto simp: slip.lookup_put)

text \<open>the slip days charged for a submission that is \<open>d\<close> after the deadline are the least number of
  whole days such that \<open>d\<close> is within that many days plus the grace period of two hours.
\<close>

lemma used_days_least:
  assumes "0 < d" and "in_i64 d"
  shows "d \<le> uint (used_days_since d) * days + gracePeriod
         \<and> (\<forall>n. 0 \<le> n \<longrightarrow> d \<le> n * days + gracePeriod \<longrightarrow> uint (used_days_since d) \<le> n)"
proof -
  have day: "days = 86400000000000" "gracePeriod = 7200000000000"
    by (simp_all add: days_def gracePeriod_def hours_def)
  define q r where "q = d div days" and "r = d mod days"
  have split: "d = q * days + r" and r: "0 \<le> r" "r < days"
    by (simp_all add: q_def r_def day)
  have u: "uint (used_days_since d) = q + (if gracePeriod < r then 1 else 0)"
    unfolding q_def r_def by (rule used_days_since_int [OF assms])
  have "uint (used_days_since d) \<le> n" if n: "0 \<le> n" "d \<le> n * days + gracePeriod" for n
  proof (cases "q \<le> n")
    case True
    have "n = q \<Longrightarrow> \<not> gracePeriod < r" using n(2) split by auto
    with True have "gracePeriod < r \<Longrightarrow> q < n" by force
    with True u show ?thesis by auto
  next
    case False
    then have "(n + 1) * days \<le> q * days" by (intro mult_right_mono) (simp_all add: day)
    with n(2) split r show ?thesis by (simp add: day)
  qed
  moreover have "d \<le> uint (used_days_since d) * days + gracePeriod"
    using u split r by (auto simp: day)
  ultimately show ?thesis by blast
qed

lemma used_days_least_witness:
  "(90000000000000::int) \<le> uint (used_days_since 90000000000000) * days + gracePeriod"
  using used_days_least [of 90000000000000] by (simp add: in_i64_def)

definition other_entries :: "u64 \<Rightarrow> enrollment \<Rightarrow> used_slip_days list" where
  "other_entries aid m = filter (\<lambda>d. sd_assignmentID d \<noteq> aid) (e_usedSlipDays m)"

lemma filter_update_first: "(\<And>x. P x \<Longrightarrow> \<not> Q x \<and> \<not> Q (f x)) \<Longrightarrow> filter Q (update_first P f xs) = filter Q xs"
  by (induction xs) auto

lemma internal_update_frame:
  "other_entries aid (internal_update_slip_days m aid d) = other_entries aid m"
  "(internal_update_slip_days m aid d)\<lparr>e_usedSlipDays := es\<rparr> = m\<lparr>e_usedSlipDays := es\<rparr>"
  by (simp_all add: other_entries_def internal_update_slip_days_def filter_update_first)

text \<open>
  C28: \<open>UpdateSlipDays\<close> refuses an assignment of another course and a submission for another assignment.  Otherwise it
  charges the submission exactly if its score is below the limit of the assignment, it is not approved for the user, and
  it was submitted after the deadline: the days used for this assignment are then the least number of whole days such that
  the submission is within them and the grace period of two hours, the entries of the other assignments and every other
  field of the enrollment stay as they were, and there is still one entry for each assignment.  Any other submission
  leaves the enrollment as it is.
\<close>

theorem update_slip_days_charges:
  assumes "slip_inv m"
  shows "if e_courseID m \<noteq> a_CourseID a then update_slip_days m a s = Inl (CourseMismatch (e_courseID m) (a_CourseID a))
    else if a_ID a \<noteq> s_AssignmentID s then update_slip_days m a s = Inl (AssignmentMismatch (a_ID a) (s_AssignmentID s))
    else if s_score s < a_scoreLimit a \<and> \<not> is_approved s (e_userID m) \<and> as_time (a_deadline a) < submission_date s
    then \<exists>m'. update_slip_days m a s = Inr m' \<and> slip_inv m' \<and> other_entries (a_ID a) m' = other_entries (a_ID a) m \<and>
      m'\<lparr>e_usedSlipDays := e_usedSlipDays m\<rparr> = m \<and>
      (let d = time_sub (submission_date s) (as_time (a_deadline a)); n = uint (used_days m' (a_ID a))
       in d \<le> n * days + gracePeriod \<and> (\<forall>k. 0 \<le> k \<longrightarrow> d \<le> k * days + gracePeriod \<longrightarrow> n \<le> k))
    else update_slip_days m a s = Inr m"
proof (cases "e_courseID m = a_CourseID a \<and> a_ID a = s_AssignmentID s \<and> late m a s")
  case True
  let ?d = "time_sub (submission_date s) (as_time (a_deadline a))"
  let ?m = "internal_update_slip_days m (a_ID a) (used_days_since ?d)"
  have "update_slip_days m a s = Inr ?m" using True update_slip_days_ok [of m a s] by (simp add: since_deadline_def)
  moreover have "?m\<lparr>e_usedSlipDays := e_usedSlipDays m\<rparr> = m" by (simp add: internal_update_frame)
  moreover have "0 < ?d" "in_i64 ?d" using True by (simp_all add: late_def in_i64_time_sub)
  ultimately show ?thesis using True used_days_least [of ?d] slip_inv_update [OF assms]
    by (auto simp: late_def internal_update_frame slip.lookup_put Let_def)
next
  case False
  then show ?thesis using update_slip_days_ok [of m a s] by (auto simp: late_def update_slip_days_def)
qed

definition example_assignment :: assignment where
  "example_assignment = zero_assignment\<lparr>a_ID := 7, a_CourseID := 1, a_deadline := Some 0, a_scoreLimit := 80\<rparr>"

definition example_submission :: "time \<Rightarrow> submission" where
  "example_submission t = zero_submission\<lparr>s_ID := 5, s_AssignmentID := 7, s_userID := 3, s_score := 40,
     s_BuildInfo := Some (zero_build_info\<lparr>bi_SubmissionDate := Some t\<rparr>)\<rparr>"

definition example_enrollment :: enrollment where
  "example_enrollment = zero_enrollment\<lparr>e_ID := 2, e_courseID := 1, e_userID := 3\<rparr>"

lemma update_slip_days_charges_witness:
  "\<exists>m'. update_slip_days example_enrollment example_assignment (example_submission 180000000000000) = Inr m' \<and>
     used_days m' 7 = 2 \<and> m'\<lparr>e_usedSlipDays := []\<rparr> = example_enrollment"
proof -
  let ?d = "time_sub (submission_date (example_submission 180000000000000)) (as_time (a_deadline example_assignment))"
  have inv: "slip_inv example_enrollment" by (simp add: example_enrollment_def zero_defs slip_inv_def)
  have facts: "e_courseID example_enrollment = a_CourseID example_assignment"
    "a_ID example_assignment = 7" "s_AssignmentID (example_submission 180000000000000) = 7"
    "late example_enrollment example_assignment (example_submission 180000000000000)" "?d = 180000000000000"
    by (simp_all add: late_def example_enrollment_def example_assignment_def example_submission_def zero_defs
        submission_date_def as_time_def is_approved_def time_sub_def)
  from update_slip_days_charges [OF inv, of example_assignment "example_submission 180000000000000"] facts
  obtain m' where m': "update_slip_days example_enrollment example_assignment (example_submission 180000000000000) = Inr m'"
    "m'\<lparr>e_usedSlipDays := e_usedSlipDays example_enrollment\<rparr> = example_enrollment"
    "180000000000000 \<le> uint (used_days m' 7) * days + gracePeriod"
    "\<forall>k. 0 \<le> k \<longrightarrow> 180000000000000 \<le> k * days + gracePeriod \<longrightarrow> uint (used_days m' 7) \<le> k"
    by (auto simp: late_def Let_def)
  have "uint (used_days m' 7) \<le> 2" using m'(4) [rule_format, of 2] by (simp add: days_def gracePeriod_def hours_def)
  moreover have "1 < uint (used_days m' 7)" using m'(3) by (simp add: days_def gracePeriod_def hours_def)
  ultimately have "uint (used_days m' 7) = 2" by simp
  then have "used_days m' 7 = word_of_int 2" by (metis word_of_int_uint)
  then have "used_days m' 7 = 2" by simp
  with m'(1,2) show ?thesis by (intro exI [of _ m']) (simp add: example_enrollment_def zero_defs)
qed

text \<open>a later late submission of the same assignment replaces the days charged for an earlier one:
  updating for both leaves the same days used for every assignment as updating for the later one.
\<close>

lemma slip_days_replaced:
  assumes "e_courseID m = a_CourseID a" "a_ID a = s_AssignmentID s1" "a_ID a = s_AssignmentID s2"
    and "late m a s2"
    and "update_slip_days m a s1 = Inr m1" "update_slip_days m1 a s2 = Inr m12"
    and "update_slip_days m a s2 = Inr m2"
  shows "used_days m12 = used_days m2"
proof -
  note f = update_slip_days_fields [OF assms(5)]
  have "used_days m12 = (used_days m1)(a_ID a := used_days_since (since_deadline a (submission_date s2)))"
    using used_days_step [of m1 a s2 m12] assms f by (simp add: late_def)
  moreover have "used_days m2 = (used_days m)(a_ID a := used_days_since (since_deadline a (submission_date s2)))"
    using used_days_step [of m a s2 m2] assms by simp
  moreover have "\<forall>k. k \<noteq> a_ID a \<longrightarrow> used_days m1 k = used_days m k"
    using used_days_step [OF assms(1,2,5)] by simp
  ultimately show ?thesis by auto
qed

lemma slip_days_replaced_witness:
  "used_days (projr (update_slip_days (projr (update_slip_days example_enrollment example_assignment
       (example_submission 90000000000000))) example_assignment (example_submission 200000000000000)))
   = used_days (projr (update_slip_days example_enrollment example_assignment (example_submission 200000000000000)))"
  by (rule slip_days_replaced [of example_enrollment example_assignment "example_submission 90000000000000"
        "example_submission 200000000000000"])
    (auto simp: example_enrollment_def example_assignment_def example_submission_def zero_defs
       late_def submission_date_def as_time_def is_approved_def update_slip_days_def Let_def)

lemma sint_diff:
  fixes x y :: u32
  assumes "unat x < 2147483648" "unat y < 2147483648"
  shows "sint (x - y) = int (unat x) - int (unat y)"
proof -
  have "x - y = word_of_int (uint x - uint y)" by simp
  then have "sint (x - y) = sint (word_of_int (uint x - uint y) :: u32)" by (rule arg_cong)
  also have "\<dots> = signed_take_bit 31 (uint x - uint y)" by (simp only: signed_of_int) simp
  also have "\<dots> = signed_take_bit 31 (int (unat x) - int (unat y))" by (simp only: uint_nat)
  also have "\<dots> = int (unat x) - int (unat y)"
  proof (rule signed_take_bit_int_eq_self)
    have "- 2147483648 \<le> int (unat x) - int (unat y)" using assms by linarith
    then show "- (2 ^ 31) \<le> int (unat x) - int (unat y)" by (simp only: power_numeral) simp
    have "int (unat x) - int (unat y) < 2147483648" using assms by linarith
    then show "int (unat x) - int (unat y) < 2 ^ 31" by (simp only: power_numeral) simp
  qed
  finally show ?thesis .
qed

text \<open>\<open>SetSlipDays\<close> stores the days of the course that the entries do not use up, and 0 when they use
  more, as long as the days of the course and the sum of the entries fit 31 bits.
\<close>

lemma set_slip_days_remaining:
  assumes "e_courseID m = c_ID c"
    and "unat (c_slipDays c) < 2 ^ 31"
    and "sum_list (map (\<lambda>d. unat (sd_usedDays d)) (e_usedSlipDays m)) < 2 ^ 31"
  shows "unat (e_slipDaysRemaining (set_slip_days m c)) =
           unat (c_slipDays c) - sum_list (map (\<lambda>d. unat (sd_usedDays d)) (e_usedSlipDays m))"
proof -
  let ?n = "sum_list (map (\<lambda>d. unat (sd_usedDays d)) (e_usedSlipDays m))"
  let ?t = "total_slip_days m"
  have t: "unat ?t = ?n" using assms(3) by (simp add: total_slip_days_nat)
  have "sint (c_slipDays c - ?t) = int (unat (c_slipDays c)) - int (unat ?t)"
    using assms(2,3) t by (intro sint_diff) simp_all
  then have r: "remaining_slip_days m c = int (unat (c_slipDays c)) - int ?n"
    using assms(1) by (simp only: remaining_slip_days_def t) simp
  have neg: "remaining_slip_days m c < 0 \<longleftrightarrow> unat (c_slipDays c) < ?n" using r by linarith
  show ?thesis
  proof (cases "unat (c_slipDays c) < ?n")
    case True
    with neg show ?thesis by (simp add: set_slip_days_def Let_def)
  next
    case False
    then have "remaining_slip_days m c = int (unat (c_slipDays c) - ?n)" using r by linarith
    then have "e_slipDaysRemaining (set_slip_days m c) = of_nat (unat (c_slipDays c) - ?n)"
      by (simp add: set_slip_days_def Let_def)
    then show ?thesis using assms(2) by (simp add: unsigned_of_nat take_bit_nat_eq_self)
  qed
qed

lemma set_slip_days_remaining_witness:
  "unat (e_slipDaysRemaining (set_slip_days (example_enrollment\<lparr>e_usedSlipDays :=
      [\<lparr>sd_ID = 1, sd_enrollmentID = 2, sd_assignmentID = 7, sd_usedDays = 2\<rparr>]\<rparr>)
      (zero_course\<lparr>c_ID := 1, c_slipDays := 5\<rparr>))) = 3"
  using set_slip_days_remaining [of "example_enrollment\<lparr>e_usedSlipDays :=
      [\<lparr>sd_ID = 1, sd_enrollmentID = 2, sd_assignmentID = 7, sd_usedDays = 2\<rparr>]\<rparr>"
      "zero_course\<lparr>c_ID := 1, c_slipDays := 5\<rparr>"]
  by (simp add: example_enrollment_def zero_defs)

text \<open>
  the total of approved assignments is the number of distinct assignments for which one of the
  submissions is approved for the enrolled user, whatever the order and the repetitions.
\<close>

lemma total_approved_counts:
  "e_totalApproved (update_total_approved m ss) =
     of_nat (card {aid. \<exists>s\<in>set ss. s_AssignmentID s = aid \<and> is_approved s (e_userID m)})"
proof -
  have "{aid. \<exists>s\<in>set ss. s_AssignmentID s = aid \<and> is_approved s (e_userID m)} =
      s_AssignmentID ` {s \<in> set ss. is_approved s (e_userID m)}"
    by auto
  then show ?thesis by (simp add: update_total_approved_def count_approved_eq)
qed

text \<open>
  Beyond 31 bits the difference is read as a positive number: a course without slip days and an
  entry of \<open>2 ^ 32 - 1\<close> used days leave one day.
\<close>

lemma set_slip_days_wraps:
  "e_slipDaysRemaining (set_slip_days (example_enrollment\<lparr>e_usedSlipDays :=
      [\<lparr>sd_ID = 1, sd_enrollmentID = 2, sd_assignmentID = 7, sd_usedDays = 4294967295\<rparr>]\<rparr>)
      (zero_course\<lparr>c_ID := 1\<rparr>)) = 1"
  by (simp add: example_enrollment_def zero_defs set_slip_days_def remaining_slip_days_def
      total_slip_days_def Let_def)

end
