(* ===== verification/Messages.thy ===== *)
theory Messages
  imports Entities Slip_Days
begin

text \<open>
  The messages of the interface between server and client: the trees that users, groups, courses and
  enrollments form, the removal of remote identities before they are sent (\<open>qf/remove_remote_id.go\<close>),
  the slip days of a whole course (\<open>qf/course.go\<close>), and the validation of requests
  (\<open>qf/validation.go\<close>).  A nested message is a subtree; no message occurs at two places, as in what the
  database returns and the wire carries.
\<close>

section \<open>Message trees\<close>

datatype user_msg = UserMsg (um_user: user) (um_enrollments: "enr_msg list")
and enr_msg = EnrMsg (em_enrollment: enrollment) (em_user: "user_msg option")
    (em_course: "course_msg option") (em_group: "group_msg option")
and course_msg = CourseMsg (cm_course: course) (cm_enrollments: "enr_msg list") (cm_groups: "group_msg list")
and group_msg = GroupMsg (gm_group: group_head) (gm_users: "user_msg list") (gm_enrollments: "enr_msg list")

definition remove_remote_id_user :: "user_msg \<Rightarrow> user_msg" where
  "remove_remote_id_user m =
     UserMsg ((um_user m)\<lparr>u_RefreshToken := [], u_ScmRemoteID := 0\<rparr>) (um_enrollments m)"

fun remove_remote_id_group :: "group_msg \<Rightarrow> group_msg"
  and remove_remote_id_enr :: "enr_msg \<Rightarrow> enr_msg"
  and remove_remote_id_course :: "course_msg \<Rightarrow> course_msg" where
  "remove_remote_id_group (GroupMsg g us es) =
     GroupMsg g (map remove_remote_id_user us) (map remove_remote_id_enr es)"
| "remove_remote_id_enr (EnrMsg e usr c g) =
     EnrMsg e (map_option remove_remote_id_user usr) (map_option remove_remote_id_course c)
       (map_option remove_remote_id_group g)"
| "remove_remote_id_course (CourseMsg c es gs) =
     CourseMsg (c\<lparr>c_DockerfileDigest := []\<rparr>) (map remove_remote_id_enr es) (map remove_remote_id_group gs)"

text \<open>The messages \<open>Users\<close>, \<open>Groups\<close>, \<open>Enrollments\<close> and \<open>Courses\<close> are lists.\<close>

definition remove_remote_id_users :: "user_msg list \<Rightarrow> user_msg list" where
  "remove_remote_id_users = map remove_remote_id_user"

definition remove_remote_id_groups :: "group_msg list \<Rightarrow> group_msg list" where
  "remove_remote_id_groups = map remove_remote_id_group"

definition remove_remote_id_enrs :: "enr_msg list \<Rightarrow> enr_msg list" where
  "remove_remote_id_enrs = map remove_remote_id_enr"

definition remove_remote_id_courses :: "course_msg list \<Rightarrow> course_msg list" where
  "remove_remote_id_courses = map remove_remote_id_course"

definition teacher_enrollments :: "course_msg \<Rightarrow> enr_msg list" where
  "teacher_enrollments c = filter (\<lambda>m. is_teacher (em_enrollment m)) (cm_enrollments c)"

definition enr_set_slip_days :: "course \<Rightarrow> enr_msg \<Rightarrow> enr_msg" where
  "enr_set_slip_days c m =
     EnrMsg (set_slip_days (em_enrollment m) c) (em_user m) (em_course m) (em_group m)"

definition populate_slip_days :: "course_msg \<Rightarrow> course_msg" where
  "populate_slip_days m =
     CourseMsg (cm_course m) (map (enr_set_slip_days (cm_course m)) (cm_enrollments m))
       (map (\<lambda>g. GroupMsg (gm_group g) (gm_users g)
                   (map (enr_set_slip_days (cm_course m)) (gm_enrollments g))) (cm_groups m))"

section \<open>Requests\<close>

record course_request = crq_CourseID :: u64

record repository_request =
  rrq_UserID :: u64
  rrq_GroupID :: u64
  rrq_CourseID :: u64

record group_request =
  grq_CourseID :: u64
  grq_UserID :: u64
  grq_GroupID :: u64

datatype submission_type = ALL | USER | GROUP

text \<open>A \<open>oneof\<close> that is not set is \<open>None\<close>.\<close>

datatype submission_fetch =
  FetchUserID u64 | FetchGroupID u64 | FetchSubmissionID u64 | FetchType submission_type

record submission_request =
  srq_CourseID :: u64
  srq_AssignmentID :: u64
  srq_FetchMode :: "submission_fetch option"

datatype enrollment_fetch = FetchByCourseID u64 | FetchByUserID u64

record enrollment_request =
  erq_FetchMode :: "enrollment_fetch option"
  erq_statuses :: "user_status list"

record rebuild_request =
  brq_CourseID :: u64
  brq_AssignmentID :: u64
  brq_SubmissionID :: u64

record organization =
  org_ScmOrganizationID :: u64
  org_ScmOrganizationName :: string

record review_request =
  vrq_CourseID :: u64
  vrq_Review :: "review option"

record assignment_feedback =
  af_ID :: u64
  af_CourseID :: u64
  af_AssignmentID :: u64
  af_LikedContent :: string
  af_ImprovementSuggestions :: string
  af_TimeSpent :: u32
  af_CreatedAt :: "time option"

definition group_is_valid :: "group_msg \<Rightarrow> bool" where
  "group_is_valid m \<longleftrightarrow> 0 < g_courseID (gm_group m) \<and> g_name (gm_group m) \<noteq> [] \<and> 0 < length (gm_users m)"

definition course_is_valid :: "course \<Rightarrow> bool" where
  "course_is_valid c \<longleftrightarrow> c_name c \<noteq> [] \<and> c_code c \<noteq> [] \<and> c_ScmOrganizationID c \<noteq> 0 \<and> c_year c \<noteq> 0 \<and> c_tag c \<noteq> []"

definition user_is_valid :: "user \<Rightarrow> bool" where "user_is_valid usr \<longleftrightarrow> 0 < u_ID usr"

definition enrollment_is_valid :: "enrollment \<Rightarrow> bool" where
  "enrollment_is_valid e \<longleftrightarrow>
     (let status = e_status e
      in 0 < e_courseID e \<and> 0 < e_userID e \<and> Enrollment_NONE \<le> status \<and> status \<le> Enrollment_TEACHER)"

definition course_request_is_valid :: "course_request \<Rightarrow> bool" where
  "course_request_is_valid r \<longleftrightarrow> 0 < crq_CourseID r"

definition repository_request_is_valid :: "repository_request \<Rightarrow> bool" where
  "repository_request_is_valid r \<longleftrightarrow>
     (let uid = rrq_UserID r; gid = rrq_GroupID r in 0 < rrq_CourseID r \<and> ((0 < uid) \<noteq> (0 < gid)))"

text \<open>The getters of a \<open>oneof\<close> give zero where another member is set; here the member that is set is read.\<close>

definition submission_request_is_valid :: "submission_request \<Rightarrow> bool" where
  "submission_request_is_valid r \<longleftrightarrow>
     (if srq_CourseID r = 0 then False
      else case srq_FetchMode r of
             None \<Rightarrow> False
           | Some (FetchSubmissionID i) \<Rightarrow> 0 < i
           | Some (FetchUserID i) \<Rightarrow> 0 < i
           | Some (FetchGroupID i) \<Rightarrow> 0 < i
           | Some (FetchType _) \<Rightarrow> True)"

definition grade_is_valid :: "grade \<Rightarrow> bool" where "grade_is_valid g \<longleftrightarrow> 0 < gr_SubmissionID g"

definition group_request_is_valid :: "group_request \<Rightarrow> bool" where
  "group_request_is_valid r \<longleftrightarrow>
     (let uid = grq_UserID r; gid = grq_GroupID r in 0 < grq_CourseID r \<and> ((0 < uid) \<noteq> (0 < gid)))"

definition enrollment_request_is_valid :: "enrollment_request \<Rightarrow> bool" where
  "enrollment_request_is_valid r \<longleftrightarrow>
     (case erq_FetchMode r of
        Some (FetchByCourseID i) \<Rightarrow> 0 < i | Some (FetchByUserID i) \<Rightarrow> 0 < i | None \<Rightarrow> False)"

definition rebuild_request_is_valid :: "rebuild_request \<Rightarrow> bool" where
  "rebuild_request_is_valid r \<longleftrightarrow> 0 < brq_AssignmentID r \<and> 0 < brq_CourseID r"

definition organization_is_valid :: "organization \<Rightarrow> bool" where
  "organization_is_valid org \<longleftrightarrow> org_ScmOrganizationName org \<noteq> []"

definition review_is_valid :: "review \<Rightarrow> bool" where
  "review_is_valid r \<longleftrightarrow> 0 < rv_ReviewerID r \<and> 0 < rv_SubmissionID r"

definition review_request_is_valid :: "review_request \<Rightarrow> bool" where
  "review_request_is_valid r \<longleftrightarrow>
     0 < vrq_CourseID r \<and> (case vrq_Review r of None \<Rightarrow> False | Some v \<Rightarrow> review_is_valid v)"

definition benchmark_is_valid :: "benchmark \<Rightarrow> bool" where
  "benchmark_is_valid b \<longleftrightarrow> 0 < bm_AssignmentID b \<and> bm_heading b \<noteq> []"

definition criterion_is_valid :: "criterion \<Rightarrow> bool" where
  "criterion_is_valid c \<longleftrightarrow> 0 < cr_BenchmarkID c \<and> cr_description c \<noteq> []"

definition feedback_is_valid :: "assignment_feedback \<Rightarrow> bool" where
  "feedback_is_valid f \<longleftrightarrow> 0 < af_CourseID f \<and> 0 < af_AssignmentID f \<and> af_LikedContent f \<noteq> [] \<and>
     af_ImprovementSuggestions f \<noteq> [] \<and> 0 < af_TimeSpent f"

definition enrollments_is_valid :: "enrollment list \<Rightarrow> bool" where
  "enrollments_is_valid es \<longleftrightarrow>
     (if es = [] then False
      else if \<not> list_all enrollment_is_valid es then False
      else has_course_id es)"

section \<open>What a message reveals\<close>

text \<open>
  The users and the courses in a message that the removal visits: all of them but those below the
  enrollments of a user.
\<close>

fun users_group :: "group_msg \<Rightarrow> user list"
  and users_enr :: "enr_msg \<Rightarrow> user list"
  and users_course :: "course_msg \<Rightarrow> user list" where
  "users_group (GroupMsg g us es) = map um_user us @ concat (map users_enr es)"
| "users_enr (EnrMsg e usr c g) =
     (case usr of None \<Rightarrow> [] | Some m \<Rightarrow> [um_user m]) @ (case c of None \<Rightarrow> [] | Some m \<Rightarrow> users_course m) @
     (case g of None \<Rightarrow> [] | Some m \<Rightarrow> users_group m)"
| "users_course (CourseMsg c es gs) = concat (map users_enr es) @ concat (map users_group gs)"

fun courses_group :: "group_msg \<Rightarrow> course list"
  and courses_enr :: "enr_msg \<Rightarrow> course list"
  and courses_course :: "course_msg \<Rightarrow> course list" where
  "courses_group (GroupMsg g us es) = concat (map courses_enr es)"
| "courses_enr (EnrMsg e usr c g) =
     (case c of None \<Rightarrow> [] | Some m \<Rightarrow> courses_course m) @ (case g of None \<Rightarrow> [] | Some m \<Rightarrow> courses_group m)"
| "courses_course (CourseMsg c es gs) = c # concat (map courses_enr es) @ concat (map courses_group gs)"

definition scrub_user :: "user \<Rightarrow> user" where
  "scrub_user usr = usr\<lparr>u_RefreshToken := [], u_ScmRemoteID := 0\<rparr>"

definition scrub_course :: "course \<Rightarrow> course" where
  "scrub_course c = c\<lparr>c_DockerfileDigest := []\<rparr>"

lemma scrub_user_id: "scrub_user usr = usr \<longleftrightarrow> u_RefreshToken usr = [] \<and> u_ScmRemoteID usr = 0"
  by (cases usr) (auto simp: scrub_user_def)

lemma scrub_idem [simp]: "scrub_user (scrub_user usr) = scrub_user usr" "scrub_course (scrub_course c) = scrub_course c"
  by (simp_all add: scrub_user_def scrub_course_def)

text \<open>
  The contract of the removal for a type of message: the result reveals nothing, and a message that
  reveals nothing is left as it is.
\<close>

locale cleaner =
  fixes clean :: "'m \<Rightarrow> 'm"
    and hidden :: "'m \<Rightarrow> bool"
  assumes clean_hides: "hidden (clean m)"
    and clean_hidden: "hidden m \<Longrightarrow> clean m = m"
begin

lemma clean_idem: "clean (clean m) = clean m"
  by (rule clean_hidden [OF clean_hides])

lemma hidden_iff: "hidden m \<longleftrightarrow> clean m = m"
  using clean_hides [of m] clean_hidden [of m] by auto

lemma clean_all_hides: "list_all hidden (map clean ms)"
  by (simp add: list_all_iff clean_hides)

lemma clean_all_hidden: "list_all hidden ms \<Longrightarrow> map clean ms = ms"
  by (induction ms) (simp_all add: clean_hidden)

end

lemma remove_remote_id_users_in:
  "users_group (remove_remote_id_group g) = map scrub_user (users_group g)"
  "users_enr (remove_remote_id_enr e) = map scrub_user (users_enr e)"
  "users_course (remove_remote_id_course c) = map scrub_user (users_course c)"
  by (induction g and e and c rule: users_group_users_enr_users_course.induct)
    (auto simp: remove_remote_id_user_def scrub_user_def comp_def map_concat cong: map_cong split: option.splits)

lemma remove_remote_id_courses_in:
  "courses_group (remove_remote_id_group g) = map scrub_course (courses_group g)"
  "courses_enr (remove_remote_id_enr e) = map scrub_course (courses_enr e)"
  "courses_course (remove_remote_id_course c) = map scrub_course (courses_course c)"
  by (induction g and e and c rule: courses_group_courses_enr_courses_course.induct)
    (auto simp: scrub_course_def comp_def map_concat cong: map_cong split: option.splits)

lemma remove_remote_id_user_fixed: "scrub_user (um_user m) = um_user m \<Longrightarrow> remove_remote_id_user m = m"
  by (cases m) (simp add: remove_remote_id_user_def scrub_user_def)

lemma remove_remote_id_fixed:
  "map scrub_user (users_group g) = users_group g \<Longrightarrow> map scrub_course (courses_group g) = courses_group g
     \<Longrightarrow> remove_remote_id_group g = g"
  "map scrub_user (users_enr e) = users_enr e \<Longrightarrow> map scrub_course (courses_enr e) = courses_enr e
     \<Longrightarrow> remove_remote_id_enr e = e"
  "map scrub_user (users_course c) = users_course c \<Longrightarrow> map scrub_course (courses_course c) = courses_course c
     \<Longrightarrow> remove_remote_id_course c = c"
  by (induction g and e and c rule: users_group_users_enr_users_course.induct)
    (auto simp: remove_remote_id_user_fixed scrub_course_def [symmetric] map_eq_conv [of _ _ "\<lambda>x. x", simplified]
      intro!: map_idI option.map_ident_strong)

definition reveals_nothing :: "user list \<Rightarrow> course list \<Rightarrow> bool" where
  "reveals_nothing us cs \<longleftrightarrow> map scrub_user us = us \<and> map scrub_course cs = cs"

interpretation group_msg: cleaner remove_remote_id_group "\<lambda>m. reveals_nothing (users_group m) (courses_group m)"
  by unfold_locales
    (simp_all add: reveals_nothing_def remove_remote_id_users_in remove_remote_id_courses_in comp_def
      remove_remote_id_fixed)

interpretation enr_msg: cleaner remove_remote_id_enr "\<lambda>m. reveals_nothing (users_enr m) (courses_enr m)"
  by unfold_locales
    (simp_all add: reveals_nothing_def remove_remote_id_users_in remove_remote_id_courses_in comp_def
      remove_remote_id_fixed)

interpretation course_msg: cleaner remove_remote_id_course "\<lambda>m. reveals_nothing (users_course m) (courses_course m)"
  by unfold_locales
    (simp_all add: reveals_nothing_def remove_remote_id_users_in remove_remote_id_courses_in comp_def
      remove_remote_id_fixed)

interpretation user_msg: cleaner remove_remote_id_user "\<lambda>m. scrub_user (um_user m) = um_user m"
  by unfold_locales
    (simp_all add: remove_remote_id_user_fixed, simp add: remove_remote_id_user_def flip: scrub_user_def)

section \<open>A message as the sequence of its parts\<close>

text \<open>
  Each part with all that is in it, and with how many parts follow below it, so that the sequence
  determines the message.  What a user's own enrollments hold belongs to the part of the user.
\<close>

datatype part =
    UserPart user "enr_msg list"
  | EnrollmentPart enrollment bool bool bool
  | CoursePart course nat nat
  | GroupPart group_head nat nat

fun part_user :: "user_msg \<Rightarrow> part" where
  "part_user (UserMsg u es) = UserPart u es"

fun parts_group :: "group_msg \<Rightarrow> part list"
  and parts_enr :: "enr_msg \<Rightarrow> part list"
  and parts_course :: "course_msg \<Rightarrow> part list" where
  "parts_group (GroupMsg g us es) =
     GroupPart g (length us) (length es) # map part_user us @ concat (map parts_enr es)"
| "parts_enr (EnrMsg e usr c g) =
     EnrollmentPart e (usr \<noteq> None) (c \<noteq> None) (g \<noteq> None) #
       (case usr of None \<Rightarrow> [] | Some m \<Rightarrow> [part_user m]) @ (case c of None \<Rightarrow> [] | Some m \<Rightarrow> parts_course m) @
       (case g of None \<Rightarrow> [] | Some m \<Rightarrow> parts_group m)"
| "parts_course (CourseMsg c es gs) =
     CoursePart c (length es) (length gs) # concat (map parts_enr es) @ concat (map parts_group gs)"

text \<open>What is hidden of a part; enrollments and groups are sent as they are.\<close>

fun scrub_part :: "part \<Rightarrow> part" where
  "scrub_part (UserPart u es) = UserPart (scrub_user u) es"
| "scrub_part (EnrollmentPart e a b c) = EnrollmentPart e a b c"
| "scrub_part (CoursePart c n k) = CoursePart (scrub_course c) n k"
| "scrub_part (GroupPart g n k) = GroupPart g n k"

lemma part_user_clean: "part_user (remove_remote_id_user m) = scrub_part (part_user m)"
  by (cases m) (simp add: remove_remote_id_user_def scrub_user_def)

lemma remove_remote_id_parts:
  "parts_group (remove_remote_id_group g) = map scrub_part (parts_group g)"
  "parts_enr (remove_remote_id_enr e) = map scrub_part (parts_enr e)"
  "parts_course (remove_remote_id_course c) = map scrub_part (parts_course c)"
  by (induction g and e and c rule: parts_group_parts_enr_parts_course.induct)
    (auto simp: part_user_clean scrub_course_def comp_def map_concat cong: map_cong split: option.splits)

lemma part_user_inj: "part_user m = part_user m' \<longleftrightarrow> m = m'"
  by (cases m; cases m') auto

lemma part_users_split:
  "length us = length us' \<Longrightarrow> map part_user us @ r = map part_user us' @ r' \<longleftrightarrow> us = us' \<and> r = r'"
  by (induction us us' rule: list_induct2) (auto simp: part_user_inj)

lemma concat_parts_split:
  assumes "\<And>m m' r r'. m \<in> set ms \<Longrightarrow> f m @ r = f m' @ r' \<Longrightarrow> m = m' \<and> r = r'"
    and "length ms = length ms'" and "concat (map f ms) @ r = concat (map f ms') @ r'"
  shows "ms = ms' \<and> r = r'"
  using assms
proof (induction ms arbitrary: ms')
  case (Cons m ms)
  then obtain m' ms'' where ms': "ms' = m' # ms''" by (cases ms') auto
  with Cons.prems(3) have "f m @ (concat (map f ms) @ r) = f m' @ (concat (map f ms'') @ r')" by simp
  from Cons.prems(1) [OF _ this] have "m = m'" "concat (map f ms) @ r = concat (map f ms'') @ r'" by simp_all
  moreover from this(2) have "ms = ms'' \<and> r = r'" using Cons.prems(2) ms'
    by (intro Cons.IH) (auto dest: Cons.prems(1) [rotated])
  ultimately show ?case using ms' by simp
qed simp

lemma option_parts_split:
  assumes "\<And>m m' r r'. x = Some m \<Longrightarrow> f m @ r = f m' @ r' \<Longrightarrow> m = m' \<and> r = r'" and "(x = None) = (y = None)"
    and "(case x of None \<Rightarrow> [] | Some m \<Rightarrow> f m) @ r = (case y of None \<Rightarrow> [] | Some m \<Rightarrow> f m) @ r'"
  shows "x = y \<and> r = r'"
proof (cases x)
  case (Some m)
  with assms(2) obtain m' where "y = Some m'" by auto
  with Some assms(3) assms(1) [OF Some, of r m' r'] show ?thesis by simp
qed (use assms(2,3) in simp)

lemma parts_split:
  "parts_group g @ r = parts_group g' @ r' \<Longrightarrow> g = g' \<and> r = r'"
  "parts_enr e @ r = parts_enr e' @ r' \<Longrightarrow> e = e' \<and> r = r'"
  "parts_course c @ r = parts_course c' @ r' \<Longrightarrow> c = c' \<and> r = r'"
proof (induction g and e and c arbitrary: r r' g' and r r' e' and r r' c' rule: parts_group_parts_enr_parts_course.induct)
  case (1 g us es)
  obtain h us' es' where g': "g' = GroupMsg h us' es'" by (cases g')
  with 1 have "g = h" "length us = length us'" "length es = length es'"
    "map part_user us @ (concat (map parts_enr es) @ r) = map part_user us' @ (concat (map parts_enr es') @ r')" by simp_all
  moreover from part_users_split [OF this(2)] this(4)
  have "us = us'" "concat (map parts_enr es) @ r = concat (map parts_enr es') @ r'" by blast+
  moreover from concat_parts_split [OF "1.IH" calculation(3) this(2)] have "es = es' \<and> r = r'" .
  ultimately show ?case using g' by simp
next
  case (2 e usr c g)
  obtain h usr' c' g' where e': "e' = EnrMsg h usr' c' g'" by (cases e')
  let ?u = "\<lambda>u. case u of None \<Rightarrow> [] | Some m \<Rightarrow> [part_user m]"
  let ?c = "\<lambda>c. case c of None \<Rightarrow> [] | Some m \<Rightarrow> parts_course m"
  let ?g = "\<lambda>g. case g of None \<Rightarrow> [] | Some m \<Rightarrow> parts_group m"
  have h: "e = h" "(usr = None) = (usr' = None)" "(c = None) = (c' = None)" "(g = None) = (g' = None)"
    and eq: "?u usr @ ?c c @ ?g g @ r = ?u usr' @ ?c c' @ ?g g' @ r'"
    using "2.prems" e' by (simp_all del: not_None_eq)
  have u: "usr = usr' \<and> ?c c @ ?g g @ r = ?c c' @ ?g g' @ r'"
    by (rule option_parts_split [OF _ h(2) eq]) (simp add: part_user_inj)
  have c: "c = c' \<and> ?g g @ r = ?g g' @ r'"
    by (rule option_parts_split [OF "2.IH"(1) h(3) conjunct2 [OF u]])
  have "g = g' \<and> r = r'" by (rule option_parts_split [OF "2.IH"(2) h(4) conjunct2 [OF c]])
  with u c show ?case using h(1) e' by simp
next
  case (3 c es gs)
  obtain h es' gs' where c': "c' = CourseMsg h es' gs'" by (cases c')
  with 3 have "c = h" "length es = length es'" "length gs = length gs'"
    "concat (map parts_enr es) @ (concat (map parts_group gs) @ r) = concat (map parts_enr es') @ (concat (map parts_group gs') @ r')" by simp_all
  moreover from concat_parts_split [OF "3.IH"(1) this(2,4)]
  have "es = es'" "concat (map parts_group gs) @ r = concat (map parts_group gs') @ r'" by simp_all
  moreover from concat_parts_split [OF "3.IH"(2) calculation(3) this(2)] have "gs = gs' \<and> r = r'" .
  ultimately show ?case using c' by simp
qed

lemma parts_inj: "parts_enr e = parts_enr e' \<Longrightarrow> e = e'"
  using parts_split(2) [of e "[]" e' "[]"] by simp

section \<open>Properties\<close>

text \<open>
  C35: the removal of remote identities, as it is applied to enrollments before they are sent, clears the
  refresh token and the remote identity of every user and the digest of every course in them and changes
  nothing else: in the sequence of the parts of a message, which determines it, each part is at its place,
  with the enrollments and the groups as they were.  So nothing of what is visited is revealed, and the
  removal is idempotent; what a user's own enrollments hold is not visited and is sent as it is.
\<close>

theorem remove_remote_id_enrollments:
  "map parts_enr (remove_remote_id_enrs es) = map (\<lambda>e. map scrub_part (parts_enr e)) es \<and>
   (\<forall>e e'. parts_enr e = parts_enr e' \<longleftrightarrow> e = e') \<and>
   concat (map users_enr (remove_remote_id_enrs es)) = map scrub_user (concat (map users_enr es)) \<and>
   concat (map courses_enr (remove_remote_id_enrs es)) = map scrub_course (concat (map courses_enr es)) \<and>
   list_all (\<lambda>m. reveals_nothing (users_enr m) (courses_enr m)) (remove_remote_id_enrs es) \<and>
   remove_remote_id_enrs (remove_remote_id_enrs es) = remove_remote_id_enrs es \<and>
   um_enrollments (remove_remote_id_user m) = um_enrollments m"
  using enr_msg.clean_all_hides [of es] enr_msg.clean_all_hidden [OF enr_msg.clean_all_hides, of es] parts_inj
  by (auto simp: remove_remote_id_enrs_def remove_remote_id_users_in remove_remote_id_courses_in map_concat
      comp_def remove_remote_id_user_def remove_remote_id_parts)

text \<open>
  a list of enrollments passes the validation of a request exactly if it is not empty, all of its
  enrollments name a user and one course, the same for all and not zero, and have a declared status.
\<close>

lemma enrollments_is_valid_iff:
  "enrollments_is_valid es \<longleftrightarrow>
     (\<exists>c. c \<noteq> 0 \<and> es \<noteq> [] \<and>
       list_all (\<lambda>e. e_courseID e = c \<and> e_userID e \<noteq> 0 \<and>
         e_status e \<in> {Enrollment_NONE, Enrollment_PENDING, Enrollment_STUDENT, Enrollment_TEACHER}) es)"
proof -
  have status: "Enrollment_NONE \<le> st \<and> st \<le> Enrollment_TEACHER \<longleftrightarrow>
      st \<in> {Enrollment_NONE, Enrollment_PENDING, Enrollment_STUDENT, Enrollment_TEACHER}" for st
  proof
    assume "Enrollment_NONE \<le> st \<and> st \<le> Enrollment_TEACHER"
    then have r: "0 \<le> sint (status_code st)" "sint (status_code st) \<le> 3"
      by (simp_all add: less_eq_user_status_def user_status_defs)
    then have "sint (status_code st) \<in> {0, 1, 2, 3}" by auto
    then have "status_code st \<in> {0, 1, 2, 3}"
      by (auto simp: signed_word_eqI)
    then show "st \<in> {Enrollment_NONE, Enrollment_PENDING, Enrollment_STUDENT, Enrollment_TEACHER}"
      by (cases st) (auto simp: user_status_defs)
  qed (auto simp: less_eq_user_status_def user_status_defs)
  show ?thesis
    by (cases es)
      (auto simp: enrollments_is_valid_def has_course_id_def enrollment_is_valid_def Let_def status
        list_all_iff word_neq_0_conv)
qed

end
