(* ===== verification/Auth.thy ===== *)
theory Auth
  imports Messages
begin

text \<open>
  Authentication: the claims that a signed cookie carries and the manager that issues, checks and
  renews them (\<open>web/auth/jwt.go\<close>, \<open>web/auth/jwt_update.go\<close>).  The JWT library and the tables of the
  database are arguments: \<open>jwt\<close> and \<open>user_db\<close> hold the operations the code calls, and what it relies on
  is stated as the predicates \<open>jwt_ok\<close> and \<open>user_db_ok\<close>.  The manager's list of users whose token needs an
  update is a state, as is the database.
\<close>

section \<open>Claims\<close>

record claims =
  cl_UserID :: u64
  cl_Admin :: bool
  cl_Courses :: "u64 \<rightharpoonup> user_status"
  cl_Groups :: "u64 list"
  cl_ExpiresAt :: "time option"
  cl_IssuedAt :: "time option"
  cl_Issuer :: string

text \<open>The lookup in a Go map: an absent key gives the zero value.\<close>

definition course_role :: "claims \<Rightarrow> u64 \<Rightarrow> user_status" where
  "course_role c courseID = (case cl_Courses c courseID of None \<Rightarrow> Enrollment_NONE | Some s \<Rightarrow> s)"

definition is_course_student :: "claims \<Rightarrow> u64 \<Rightarrow> bool" where
  "is_course_student c courseID \<longleftrightarrow> course_role c courseID = Enrollment_STUDENT"

definition is_course_teacher :: "claims \<Rightarrow> u64 \<Rightarrow> bool" where
  "is_course_teacher c courseID \<longleftrightarrow> course_role c courseID = Enrollment_TEACHER"

definition CookieName :: string where
  "CookieName = ''auth''"

definition tokenExpirationTime :: duration where
  "tokenExpirationTime = 15 * 60 * 1000000000"

definition cookieExpirationTime :: duration where
  "cookieExpirationTime = 24 * hours * 14"

text \<open>\<open>strings.SplitSeq(cookieString, ";")\<close> and \<open>strings.Cut(cookie, CookieName+"=")\<close>.\<close>

fun find_cookie :: "string list \<Rightarrow> string option" where
  "find_cookie [] = None"
| "find_cookie (c # cs) =
     (case cut c (CookieName @ ''='') of Some (_, v) \<Rightarrow> Some (trim_space v) | None \<Rightarrow> find_cookie cs)"

definition extract_token :: "string \<Rightarrow> string + string" where
  "extract_token cookieString =
     (case find_cookie (split_on (CHR '';'') cookieString) of
        Some v \<Rightarrow> Inr v
      | None \<Rightarrow> Inl ''failed to extract authentication cookie from request header'')"

section \<open>Operations of other packages\<close>

text \<open>
  What \<open>ParseWithClaims\<close> returns: the claims of a token that is accepted (with its \<open>Valid\<close> flag), an
  error that is \<open>ErrTokenExpired\<close> with the claims as decoded, or another error.
\<close>

datatype parsed = Parsed claims bool | Expired claims string | Rejected string

record jwt =
  jwt_Sign :: "string \<Rightarrow> claims \<Rightarrow> string + string"
  jwt_Parse :: "string \<Rightarrow> time \<Rightarrow> string \<Rightarrow> parsed"
  jwt_Verify :: "string \<Rightarrow> string \<Rightarrow> string option"
  jwt_NumericDate :: "time \<Rightarrow> time"

text \<open>
  The documented behaviour of the library for tokens signed with the secret: parsing gives the claims
  that were signed, unless the expiry has passed, which is reported as such; the signature verifies.
\<close>

definition jwt_ok :: "jwt \<Rightarrow> bool" where
  "jwt_ok j \<longleftrightarrow> (\<forall>secret c token. jwt_Sign j secret c = Inr token \<longrightarrow>
     jwt_Verify j secret token = None \<and>
     (\<forall>now e. cl_ExpiresAt c = Some e \<longrightarrow>
        (if now < e then jwt_Parse j secret now token = Parsed c True
         else \<exists>msg. jwt_Parse j secret now token = Expired c msg)))"

record 'd user_db =
  db_GetUser :: "'d \<Rightarrow> u64 \<Rightarrow> string + user"
  db_GetUsers :: "'d \<Rightarrow> string + user list"
  db_GetUserWithEnrollments :: "'d \<Rightarrow> u64 \<Rightarrow> string + user \<times> enrollment list"
  db_UpdateUser :: "'d \<Rightarrow> user \<Rightarrow> string option \<times> 'd"

text \<open>
  The users of the database: a lookup gives the row with that ID, an update that succeeds replaces the
  row and no other, one that fails changes nothing, and a listing gives all rows.
\<close>

definition user_db_ok :: "'d user_db \<Rightarrow> bool" where
  "user_db_ok db \<longleftrightarrow>
     (\<forall>d i usr. db_GetUser db d i = Inr usr \<longrightarrow> u_ID usr = i) \<and>
     (\<forall>d usr d'. db_UpdateUser db d usr = (None, d') \<longrightarrow>
        db_GetUser db d' = (db_GetUser db d)(u_ID usr := Inr usr)) \<and>
     (\<forall>d usr e d'. db_UpdateUser db d usr = (Some e, d') \<longrightarrow> d' = d) \<and>
     (\<forall>d us. db_GetUsers db d = Inr us \<longrightarrow> set us = {usr. db_GetUser db d (u_ID usr) = Inr usr})"

section \<open>The token manager\<close>

record 'd manager =
  tm_tokensToUpdate :: "u64 list"
  tm_db :: 'd

record cookie =
  ck_Name :: string
  ck_Value :: string
  ck_Domain :: string
  ck_Path :: string
  ck_HttpOnly :: bool
  ck_Secure :: bool
  ck_SameSiteStrict :: bool
  ck_Expires :: time

fun user_courses :: "enrollment list \<Rightarrow> (u64 \<rightharpoonup> user_status) \<Rightarrow> u64 \<rightharpoonup> user_status" where
  "user_courses [] m = m"
| "user_courses (e # es) m = user_courses es (m(e_courseID e \<mapsto> e_status e))"

definition user_groups :: "enrollment list \<Rightarrow> u64 list" where
  "user_groups es = map e_groupID (filter (\<lambda>e. e_groupID e \<noteq> 0) es)"

definition new_claims ::
    "jwt \<Rightarrow> 'd user_db \<Rightarrow> time \<Rightarrow> 'd \<Rightarrow> u64 \<Rightarrow> string + claims" where
  "new_claims j db now d userID =
     bind_res (db_GetUserWithEnrollments db d userID)
       (\<lambda>(usr, enrollments). Inr
          \<lparr>cl_UserID = userID, cl_Admin = u_IsAdmin usr, cl_Courses = user_courses enrollments Map.empty,
           cl_Groups = user_groups enrollments,
           cl_ExpiresAt = Some (jwt_NumericDate j (now + tokenExpirationTime)),
           cl_IssuedAt = Some (jwt_NumericDate j now), cl_Issuer = ''QuickFeed''\<rparr>)"

definition new_auth_cookie ::
    "jwt \<Rightarrow> 'd user_db \<Rightarrow> string \<Rightarrow> string \<Rightarrow> time \<Rightarrow> 'd \<Rightarrow> u64 \<Rightarrow> string + cookie" where
  "new_auth_cookie j db secret domain now d userID =
     bind_res (new_claims j db now d userID)
       (\<lambda>c. case jwt_Sign j secret c of
              Inl e \<Rightarrow> Inl (''failed to sign token: '' @ e)
            | Inr signedToken \<Rightarrow> Inr
                \<lparr>ck_Name = CookieName, ck_Value = signedToken, ck_Domain = domain, ck_Path = ''/'',
                 ck_HttpOnly = True, ck_Secure = True, ck_SameSiteStrict = True,
                 ck_Expires = now + cookieExpirationTime\<rparr>)"

definition get_claims :: "jwt \<Rightarrow> string \<Rightarrow> time \<Rightarrow> string \<Rightarrow> string + claims" where
  "get_claims j secret now cookie =
     bind_res (extract_token cookie)
       (\<lambda>tokenString.
          case jwt_Parse j secret now tokenString of
            Expired c e \<Rightarrow>
              (case jwt_Verify j secret tokenString of None \<Rightarrow> Inr c | Some e' \<Rightarrow> Inl e')
          | Rejected e \<Rightarrow> Inl e
          | Parsed c valid \<Rightarrow>
              if valid then Inr c else Inl ''failed to parse token: validation error'')"

definition tm_exists :: "'d manager \<Rightarrow> u64 \<Rightarrow> bool" where
  "tm_exists tm i \<longleftrightarrow> list_ex (\<lambda>t. i = t) (tm_tokensToUpdate tm)"

definition tm_update :: "'d user_db \<Rightarrow> u64 \<Rightarrow> bool \<Rightarrow> 'd manager \<Rightarrow> string option \<times> 'd manager" where
  "tm_update db userID updateToken tm =
     (case db_GetUser db (tm_db tm) userID of
        Inl e \<Rightarrow> (Some e, tm)
      | Inr usr \<Rightarrow>
          (let (err, d) = db_UpdateUser db (tm_db tm) (usr\<lparr>u_UpdateToken := updateToken\<rparr>)
           in (err, tm\<lparr>tm_db := d\<rparr>)))"

definition tm_add :: "'d user_db \<Rightarrow> u64 \<Rightarrow> 'd manager \<Rightarrow> string option \<times> 'd manager" where
  "tm_add db userID tm =
     (if tm_exists tm userID then (None, tm)
      else case tm_update db userID True tm of
             (Some e, tm) \<Rightarrow> (Some e, tm)
           | (None, tm) \<Rightarrow> (None, tm\<lparr>tm_tokensToUpdate := tm_tokensToUpdate tm @ [userID]\<rparr>))"

definition tm_remove :: "'d user_db \<Rightarrow> u64 \<Rightarrow> 'd manager \<Rightarrow> string option \<times> 'd manager" where
  "tm_remove db userID tm =
     (if \<not> tm_exists tm userID then (None, tm)
      else case tm_update db userID False tm of
             (Some e, tm) \<Rightarrow> (Some e, tm)
           | (None, tm) \<Rightarrow>
               (None, tm\<lparr>tm_tokensToUpdate := filter (\<lambda>i. i \<noteq> userID) (tm_tokensToUpdate tm)\<rparr>))"

definition update_token_list :: "'d user_db \<Rightarrow> 'd manager \<Rightarrow> string option \<times> 'd manager" where
  "update_token_list db tm =
     (case db_GetUsers db (tm_db tm) of
        Inl e \<Rightarrow> (Some (''failed to update JWT tokens from database: '' @ e), tm)
      | Inr us \<Rightarrow> (None, tm\<lparr>tm_tokensToUpdate := map u_ID (filter u_UpdateToken us)\<rparr>))"

definition new_token_manager :: "'d user_db \<Rightarrow> 'd \<Rightarrow> string + 'd manager" where
  "new_token_manager db d =
     (case update_token_list db \<lparr>tm_tokensToUpdate = [], tm_db = d\<rparr> of
        (Some e, _) \<Rightarrow> Inl e | (None, tm) \<Rightarrow> Inr tm)"

text \<open>A token without an expiry is a nil pointer here; the token manager never signs one.\<close>

definition update_required :: "time \<Rightarrow> claims \<Rightarrow> 'd manager \<Rightarrow> (string, bool) outcome" where
  "update_required now c tm =
     (if cl_UserID c \<in> set (tm_tokensToUpdate tm) then Ok True
      else case cl_ExpiresAt c of
             None \<Rightarrow> Panic ''nil pointer dereference'' | Some e \<Rightarrow> Ok (e < now))"

definition update_cookie ::
    "jwt \<Rightarrow> 'd user_db \<Rightarrow> string \<Rightarrow> string \<Rightarrow> time \<Rightarrow> claims \<Rightarrow> 'd manager
       \<Rightarrow> (string, cookie option) outcome \<times> 'd manager" where
  "update_cookie j db secret domain now c tm =
     (case update_required now c tm of
        Panic p \<Rightarrow> (Panic p, tm)
      | Err e \<Rightarrow> (Err e, tm)
      | Ok False \<Rightarrow> (Ok None, tm)
      | Ok True \<Rightarrow>
          (case new_auth_cookie j db secret domain now (tm_db tm) (cl_UserID c) of
             Inl e \<Rightarrow> (Err (''failed to update cookie for user '' @ show_word (cl_UserID c) @ '': '' @ e), tm)
           | Inr ck \<Rightarrow>
               (case tm_remove db (cl_UserID c) tm of
                  (Some e, tm) \<Rightarrow> (Err e, tm)
                | (None, tm) \<Rightarrow> (Ok (Some ck), tm))))"

section \<open>Lemmas\<close>

lemma user_courses_map_of:
  "user_courses es m = m ++ map_of (rev (map (\<lambda>e. (e_courseID e, e_status e)) es))"
  by (induction es arbitrary: m) (simp_all add: map_add_def fun_eq_iff split: option.splits)

lemma user_courses_distinct:
  assumes "distinct (map e_courseID es)"
  shows "user_courses es Map.empty k = Some st \<longleftrightarrow> (\<exists>e\<in>set es. e_courseID e = k \<and> e_status e = st)"
proof -
  have "distinct (map fst (rev (map (\<lambda>e. (e_courseID e, e_status e)) es)))"
    using assms by (simp add: comp_def flip: rev_map)
  then show ?thesis by (auto simp: user_courses_map_of map_of_eq_Some_iff)
qed

text \<open>The list of the manager and the flags in the database name the same users.\<close>

definition in_step :: "'d user_db \<Rightarrow> 'd manager \<Rightarrow> bool" where
  "in_step db tm \<longleftrightarrow> (\<forall>i. i \<in> set (tm_tokensToUpdate tm) \<longleftrightarrow>
     (\<exists>usr. db_GetUser db (tm_db tm) i = Inr usr \<and> u_UpdateToken usr))"

lemma user_db_okD:
  assumes "user_db_ok db"
  shows "db_GetUser db d i = Inr usr \<Longrightarrow> u_ID usr = i"
    and "db_UpdateUser db d usr = (None, d') \<Longrightarrow> db_GetUser db d' = (db_GetUser db d)(u_ID usr := Inr usr)"
    and "db_UpdateUser db d usr = (Some e, d') \<Longrightarrow> d' = d"
    and "db_GetUsers db d = Inr us \<Longrightarrow> usr \<in> set us \<longleftrightarrow> db_GetUser db d (u_ID usr) = Inr usr"
  using assms unfolding user_db_ok_def by blast+

lemma tm_update_Some: "user_db_ok db \<Longrightarrow> tm_update db i b tm = (Some e, tm') \<Longrightarrow> tm' = tm"
  by (auto simp: tm_update_def dest: user_db_okD(3) split: sum.splits prod.splits)

lemma tm_update_None:
  assumes "user_db_ok db" and "tm_update db i b tm = (None, tm')"
  shows "tm_tokensToUpdate tm' = tm_tokensToUpdate tm \<and>
     (\<exists>usr. u_UpdateToken usr = b \<and> db_GetUser db (tm_db tm') = (db_GetUser db (tm_db tm))(i := Inr usr))"
proof -
  from assms(2) obtain usr d where usr: "db_GetUser db (tm_db tm) i = Inr usr"
    "db_UpdateUser db (tm_db tm) (usr\<lparr>u_UpdateToken := b\<rparr>) = (None, d)" "tm' = tm\<lparr>tm_db := d\<rparr>"
    by (auto simp: tm_update_def split: sum.splits prod.splits)
  have "db_GetUser db d = (db_GetUser db (tm_db tm))(i := Inr (usr\<lparr>u_UpdateToken := b\<rparr>))"
    using user_db_okD(2) [OF assms(1) usr(2)] user_db_okD(1) [OF assms(1) usr(1)] by simp
  with usr(3) show ?thesis by (intro conjI exI [of _ "usr\<lparr>u_UpdateToken := b\<rparr>"]) simp_all
qed

lemma in_step_add:
  assumes "user_db_ok db" and "in_step db tm"
  shows "in_step db (snd (tm_add db i tm))"
proof (cases "tm_exists tm i")
  case False
  obtain r tm' where u: "tm_update db i True tm = (r, tm')" by fastforce
  show ?thesis
  proof (cases r)
    case None
    with u tm_update_None [OF assms(1), of i True tm tm'] assms(2) False show ?thesis
      by (fastforce simp: tm_add_def in_step_def)
  next
    case (Some e)
    with u tm_update_Some [OF assms(1), of i True tm e tm'] assms(2) False show ?thesis
      by (simp add: tm_add_def)
  qed
qed (use assms(2) in \<open>simp add: tm_add_def\<close>)

lemma in_step_remove:
  assumes "user_db_ok db" and "in_step db tm"
  shows "in_step db (snd (tm_remove db i tm))"
proof (cases "tm_exists tm i")
  case True
  obtain r tm' where u: "tm_update db i False tm = (r, tm')" by fastforce
  show ?thesis
  proof (cases r)
    case None
    with u tm_update_None [OF assms(1), of i False tm tm'] assms(2) True show ?thesis
      by (fastforce simp: tm_remove_def in_step_def)
  next
    case (Some e)
    with u tm_update_Some [OF assms(1), of i False tm e tm'] assms(2) True show ?thesis
      by (simp add: tm_remove_def)
  qed
qed (use assms(2) in \<open>simp add: tm_remove_def\<close>)

lemma in_step_new:
  assumes "user_db_ok db" and "new_token_manager db d = Inr tm"
  shows "in_step db tm \<and> tm_db tm = d"
proof -
  from assms(2) obtain us where us: "db_GetUsers db d = Inr us" "tm_db tm = d"
    "tm_tokensToUpdate tm = map u_ID (filter u_UpdateToken us)"
    by (auto simp: new_token_manager_def update_token_list_def split: sum.splits)
  have "i \<in> set (tm_tokensToUpdate tm) \<longleftrightarrow> (\<exists>usr. db_GetUser db d i = Inr usr \<and> u_UpdateToken usr)" for i
  proof -
    have "i \<in> set (tm_tokensToUpdate tm) \<longleftrightarrow> (\<exists>usr\<in>set us. u_UpdateToken usr \<and> u_ID usr = i)"
      by (auto simp: us(3))
    also have "\<dots> \<longleftrightarrow> (\<exists>usr. db_GetUser db d i = Inr usr \<and> u_UpdateToken usr)"
      using user_db_okD(4) [OF assms(1) us(1)] user_db_okD(1) [OF assms(1), of d i] by blast
    finally show ?thesis .
  qed
  with us(2) show ?thesis by (simp add: in_step_def)
qed

text \<open>The moves of a running manager.\<close>

inductive tm_step :: "'d user_db \<Rightarrow> 'd manager \<Rightarrow> 'd manager \<Rightarrow> bool" for db where
  "tm_step db tm (snd (tm_add db i tm))"
| "tm_step db tm (snd (tm_remove db i tm))"
| "tm_step db tm (snd (update_cookie j db secret domain now c tm))"

lemma update_cookie_manager:
  "snd (update_cookie j db secret domain now c tm) \<in> {tm, snd (tm_remove db (cl_UserID c) tm)}"
  by (auto simp: update_cookie_def split: outcome.splits bool.splits sum.splits prod.splits option.splits)

lemma in_step_reachable: "(tm_step db)\<^sup>*\<^sup>* tm tm' \<Longrightarrow> user_db_ok db \<Longrightarrow> in_step db tm \<Longrightarrow> in_step db tm'"
proof (induction rule: rtranclp_induct)
  case (step tm1 tm2)
  from step.hyps(2) show ?case
  proof (cases rule: tm_step.cases)
    case (3 j secret domain now c)
    then show ?thesis
      using update_cookie_manager [of j db secret domain now c tm1] step in_step_remove by fastforce
  qed (use step in \<open>simp_all add: in_step_add in_step_remove\<close>)
qed simp

text \<open>A table of users as a list of rows and a library that signs the claims of a table, for the witnesses.\<close>

definition row_db :: "user list user_db" where
  "row_db = \<lparr>db_GetUser = (\<lambda>d i. case find (\<lambda>r. u_ID r = i) d of Some r \<Rightarrow> Inr r | None \<Rightarrow> Inl ''record not found''),
     db_GetUsers = (\<lambda>d. if distinct (map u_ID d) then Inr d else Inl ''duplicate key''),
     db_GetUserWithEnrollments = (\<lambda>d i. case find (\<lambda>r. u_ID r = i) d of Some r \<Rightarrow> Inr (r, []) | None \<Rightarrow> Inl ''record not found''),
     db_UpdateUser = (\<lambda>d r. (None, r # filter (\<lambda>q. u_ID q \<noteq> u_ID r) d))\<rparr>"

lemma find_filter_other: "i \<noteq> k \<Longrightarrow> find (\<lambda>r. f r = i) (filter (\<lambda>q. f q \<noteq> k) d) = find (\<lambda>r. f r = i) d"
  by (induction d) auto

lemma find_own: "distinct (map f d) \<Longrightarrow> x \<in> set d \<Longrightarrow> find (\<lambda>r. f r = f x) d = Some x"
  by (induction d) (auto simp: image_iff)

lemma find_in: "find P d = Some x \<Longrightarrow> x \<in> set d"
  by (induction d) (auto split: if_splits)

lemma find_key: "find (\<lambda>r. f r = i) d = Some r \<Longrightarrow> f r = i"
  by (induction d) (auto split: if_splits)

lemma user_rows_ok: "user_db_ok row_db"
  unfolding user_db_ok_def
  by (auto simp: row_db_def fun_eq_iff find_filter_other find_own dest: find_key find_in
      split: option.splits if_splits)

definition token_jwt :: "(claims \<times> string) list \<Rightarrow> jwt" where
  "token_jwt tbl = \<lparr>jwt_Sign = (\<lambda>_ c. case map_of tbl c of Some tok \<Rightarrow> Inr tok | None \<Rightarrow> Inl ''unknown claims''),
     jwt_Parse = (\<lambda>_ now t. case map_of (map (\<lambda>(c, tok). (tok, c)) tbl) t of
        None \<Rightarrow> Rejected ''malformed''
      | Some c \<Rightarrow> (case cl_ExpiresAt c of None \<Rightarrow> Rejected ''no expiry''
          | Some e \<Rightarrow> if now < e then Parsed c True else Expired c ''token is expired'')),
     jwt_Verify = (\<lambda>_ t. if t \<in> snd ` set tbl then None else Some ''bad signature''),
     jwt_NumericDate = (\<lambda>t. t)\<rparr>"

lemma token_jwt_ok:
  assumes "distinct (map snd tbl)"
  shows "jwt_ok (token_jwt tbl)"
proof -
  have *: "map_of (map (\<lambda>(c, tok). (tok, c)) tbl) tok = Some c" "tok \<in> snd ` set tbl"
    if "map_of tbl c = Some tok" for c tok
  proof -
    have m: "(c, tok) \<in> set tbl" using that by (rule map_of_SomeD)
    then show "tok \<in> snd ` set tbl" by force
    have "distinct (map fst (map (\<lambda>(c, tok). (tok, c)) tbl))"
      using assms by (simp add: comp_def case_prod_beta)
    moreover have "(tok, c) \<in> set (map (\<lambda>(c, tok). (tok, c)) tbl)" using m by force
    ultimately show "map_of (map (\<lambda>(c, tok). (tok, c)) tbl) tok = Some c" by (rule map_of_is_SomeI)
  qed
  then show ?thesis
    by (auto simp: jwt_ok_def token_jwt_def split: option.splits)
qed

section \<open>Properties\<close>

text \<open>
  C22: however the manager adds and removes users and renews cookies, its list names exactly the users
  that are flagged in the database, so that a restarted manager has the same users to update.
\<close>

theorem token_list_survives_restart:
  assumes "user_db_ok db" and "new_token_manager db d = Inr tm0" and "(tm_step db)\<^sup>*\<^sup>* tm0 tm"
  shows "(\<forall>i. i \<in> set (tm_tokensToUpdate tm) \<longleftrightarrow>
            (\<exists>usr. db_GetUser db (tm_db tm) i = Inr usr \<and> u_UpdateToken usr)) \<and>
         (\<forall>tm'. new_token_manager db (tm_db tm) = Inr tm' \<longrightarrow>
            set (tm_tokensToUpdate tm') = set (tm_tokensToUpdate tm))"
proof (intro conjI allI impI)
  have s: "in_step db tm"
    using in_step_reachable [OF assms(3,1)] in_step_new [OF assms(1,2)] by simp
  then show "i \<in> set (tm_tokensToUpdate tm) \<longleftrightarrow>
      (\<exists>usr. db_GetUser db (tm_db tm) i = Inr usr \<and> u_UpdateToken usr)" for i
    by (simp add: in_step_def)
  fix tm' assume "new_token_manager db (tm_db tm) = Inr tm'"
  from in_step_new [OF assms(1) this] s show "set (tm_tokensToUpdate tm') = set (tm_tokensToUpdate tm)"
    by (auto simp: in_step_def)
qed

lemma token_list_survives_restart_witness:
  "7 \<in> set (tm_tokensToUpdate (snd (tm_add row_db 7 \<lparr>tm_tokensToUpdate = [], tm_db = [zero_user\<lparr>u_ID := 7\<rparr>]\<rparr>))) \<and>
   (\<exists>usr. db_GetUser row_db (tm_db (snd (tm_add row_db 7
      \<lparr>tm_tokensToUpdate = [], tm_db = [zero_user\<lparr>u_ID := 7\<rparr>]\<rparr>))) 7 = Inr usr \<and> u_UpdateToken usr)"
proof -
  define tm0 where "tm0 = \<lparr>tm_tokensToUpdate = [], tm_db = [zero_user\<lparr>u_ID := 7\<rparr>]\<rparr>"
  have new: "new_token_manager row_db [zero_user\<lparr>u_ID := 7\<rparr>] = Inr tm0"
    by (simp add: new_token_manager_def update_token_list_def row_db_def zero_user_def tm0_def)
  have mem: "7 \<in> set (tm_tokensToUpdate (snd (tm_add row_db 7 tm0)))"
    by (simp add: tm_add_def tm_exists_def tm_update_def row_db_def tm0_def)
  have "(tm_step row_db)\<^sup>*\<^sup>* tm0 (snd (tm_add row_db 7 tm0))" by (rule r_into_rtranclp) (rule tm_step.intros(1))
  from token_list_survives_restart [OF user_rows_ok new this] mem show ?thesis unfolding tm0_def by blast
qed

text \<open>new claims state what the database holds: the role in a course is the status of the user's
  enrollment in it (none without one), the groups are those of the enrollments, and the administrator
  flag is the user's.
\<close>

lemma new_claims_roles:
  assumes "db_GetUserWithEnrollments db d userID = Inr (usr, es)" and "distinct (map e_courseID es)"
    and "new_claims j db now d userID = Inr c"
  shows "(is_course_teacher c k \<longleftrightarrow> (\<exists>e\<in>set es. e_courseID e = k \<and> e_status e = Enrollment_TEACHER)) \<and>
     (is_course_student c k \<longleftrightarrow> (\<exists>e\<in>set es. e_courseID e = k \<and> e_status e = Enrollment_STUDENT)) \<and>
     (g \<in> set (cl_Groups c) \<longleftrightarrow> g \<noteq> 0 \<and> g \<in> e_groupID ` set es) \<and>
     cl_Admin c = u_IsAdmin usr \<and> cl_UserID c = userID"
proof -
  have role: "course_role c k = st \<longleftrightarrow> (\<exists>e\<in>set es. e_courseID e = k \<and> e_status e = st)"
    if "st \<noteq> Enrollment_NONE" for st
  proof -
    have "cl_Courses c = user_courses es Map.empty" using assms(1,3) by (auto simp: new_claims_def)
    then have "course_role c k = st \<longleftrightarrow> user_courses es Map.empty k = Some st"
      using that by (auto simp: course_role_def split: option.splits)
    with user_courses_distinct [OF assms(2)] show ?thesis by simp
  qed
  show ?thesis
    using role [of Enrollment_TEACHER] role [of Enrollment_STUDENT] assms(1,3)
    by (auto simp: is_course_teacher_def is_course_student_def new_claims_def user_groups_def)
qed

lemma new_claims_roles_witness:
  "\<exists>c. new_claims (token_jwt []) (row_db\<lparr>db_GetUserWithEnrollments := \<lambda>_ _. Inr (zero_user,
       [zero_enrollment\<lparr>e_courseID := 3, e_status := Enrollment_TEACHER\<rparr>])\<rparr>) 0 [] 7 = Inr c \<and> is_course_teacher c 3"
  using new_claims_roles [of "row_db\<lparr>db_GetUserWithEnrollments := \<lambda>_ _. Inr (zero_user,
       [zero_enrollment\<lparr>e_courseID := 3, e_status := Enrollment_TEACHER\<rparr>])\<rparr>" "[]" 7 zero_user
       "[zero_enrollment\<lparr>e_courseID := 3, e_status := Enrollment_TEACHER\<rparr>]" "token_jwt []" 0 _ 3]
  by (auto simp: new_claims_def)

end
