(* ===== verification/Repo.thy ===== *)
theory Repo
  imports Model
begin

text \<open>
  Names, URLs and types of the repositories of a course: \<open>qf/repo.go\<close>.  The names are the contract
  between the parts of the system that create repositories, recognise them in a push event and clone
  them for a test run.  A slice with a negative bound is a panic.
\<close>

definition InfoRepo :: string where "InfoRepo = ''info''"
definition AssignmentsRepo :: string where "AssignmentsRepo = ''assignments''"
definition TestsRepo :: string where "TestsRepo = ''tests''"
definition StudentRepoSuffix :: string where "StudentRepoSuffix = ''-labs''"

definition student_repo_name :: "string \<Rightarrow> string" where
  "student_repo_name userName = userName @ StudentRepoSuffix"

record repo_url =
  ru_ProviderURL :: string
  ru_Organization :: string

definition repo_url_of :: "repo_url \<Rightarrow> string \<Rightarrow> string" where
  "repo_url_of r name = ''https://'' @ ru_ProviderURL r @ ''/'' @ ru_Organization r @ ''/'' @ name"

definition info_repo_url where "info_repo_url r = repo_url_of r InfoRepo"
definition assignments_repo_url where "assignments_repo_url r = repo_url_of r AssignmentsRepo"
definition student_repo_url where "student_repo_url r userName = repo_url_of r (student_repo_name userName)"
definition group_repo_url where "group_repo_url r groupName = repo_url_of r groupName"
definition tests_repo_url where "tests_repo_url r = repo_url_of r TestsRepo"

definition is_course_repo :: "repo_type \<Rightarrow> bool" where
  "is_course_repo t \<longleftrightarrow> t = R_INFO \<or> t = R_TESTS \<or> t = R_ASSIGNMENTS"

definition type_is_user_repo :: "repo_type \<Rightarrow> bool" where "type_is_user_repo t \<longleftrightarrow> t = R_USER"
definition type_is_group_repo :: "repo_type \<Rightarrow> bool" where "type_is_group_repo t \<longleftrightarrow> t = R_GROUP"

definition type_is_student_repo :: "repo_type \<Rightarrow> bool" where
  "type_is_student_repo t \<longleftrightarrow> t = R_USER \<or> t = R_GROUP"

definition is_tests_repo :: "repository \<Rightarrow> bool" where "is_tests_repo r \<longleftrightarrow> r_repoType r = R_TESTS"

definition is_assignments_repo :: "repository \<Rightarrow> bool" where
  "is_assignments_repo r \<longleftrightarrow> r_repoType r = R_ASSIGNMENTS"

definition is_student_repo :: "repository \<Rightarrow> bool" where
  "is_student_repo r \<longleftrightarrow> r_repoType r = R_USER \<or> r_repoType r = R_GROUP"

definition is_group_repo :: "repository \<Rightarrow> bool" where "is_group_repo r \<longleftrightarrow> r_repoType r = R_GROUP"
definition is_user_repo :: "repository \<Rightarrow> bool" where "is_user_repo r \<longleftrightarrow> r_repoType r = R_USER"

text \<open>\<open>strings.LastIndex(s, "/") + 1\<close>.\<close>

definition after_slash :: "string \<Rightarrow> nat" where
  "after_slash s = (case last_index (CHR ''/'') s of None \<Rightarrow> 0 | Some i \<Rightarrow> i + 1)"

definition get_test_url :: "repository \<Rightarrow> string" where
  "get_test_url t = (let repoURL = r_HTMLURL t in take (after_slash repoURL) repoURL @ TestsRepo)"

definition repo_name :: "repository \<Rightarrow> string" where
  "repo_name t = (let repoURL = r_HTMLURL t in drop (after_slash repoURL) repoURL)"

definition repo_user_name :: "repository \<Rightarrow> ('e, string) outcome" where
  "repo_user_name t =
     (let repoName = repo_name t
      in if length repoName < length StudentRepoSuffix then Panic ''slice bounds out of range''
         else Ok (take (length repoName - length StudentRepoSuffix) repoName))"

definition repo_type_of :: "string \<Rightarrow> repo_type" where
  "repo_type_of path =
     (if path = InfoRepo then R_INFO
      else if path = AssignmentsRepo then R_ASSIGNMENTS
      else if path = TestsRepo then R_TESTS
      else if has_suffix path StudentRepoSuffix then R_USER else R_GROUP)"

section \<open>Lemmas\<close>

lemmas repo_name_defs = InfoRepo_def AssignmentsRepo_def TestsRepo_def StudentRepoSuffix_def

lemma after_slash_url:
  assumes "CHR ''/'' \<notin> set name"
  shows "after_slash (repo_url_of r name) = length (repo_url_of r [])"
proof -
  have "last_index (CHR ''/'') ((''https://'' @ ru_ProviderURL r @ ''/'' @ ru_Organization r) @ CHR ''/'' # name) =
      Some (length (''https://'' @ ru_ProviderURL r @ ''/'' @ ru_Organization r))"
    by (rule last_index_append [OF assms])
  then show ?thesis by (simp add: after_slash_def repo_url_of_def)
qed

lemma url_split: "repo_url_of r name = repo_url_of r [] @ name"
  by (simp add: repo_url_of_def)

lemma name_of_url:
  assumes "CHR ''/'' \<notin> set name" and "r_HTMLURL t = repo_url_of r name"
  shows "repo_name t = name" and "get_test_url t = tests_repo_url r"
  using after_slash_url [OF assms(1), of r] assms(2) url_split [of r name] url_split [of r TestsRepo]
  by (simp_all add: repo_name_def get_test_url_def tests_repo_url_def)

lemma course_name_no_suffix:
  "\<not> has_suffix InfoRepo StudentRepoSuffix" "\<not> has_suffix AssignmentsRepo StudentRepoSuffix"
  "\<not> has_suffix TestsRepo StudentRepoSuffix"
  by (simp_all add: repo_name_defs has_suffix_def)

lemma repo_type_of_user [simp]: "repo_type_of path = R_USER \<longleftrightarrow> has_suffix path StudentRepoSuffix"
  using course_name_no_suffix by (auto simp: repo_type_of_def)

text \<open>the names of a student's repository are inverse to each other: the repository at the URL made for
  a user is recognised as a user repository from its name alone, gives the user's name back, and leads
  to the tests repository of the same course.
\<close>

lemma student_repo_roundtrip:
  assumes "CHR ''/'' \<notin> set userName" and "r_HTMLURL t = student_repo_url r userName"
  shows "repo_name t = student_repo_name userName \<and> repo_type_of (repo_name t) = R_USER \<and>
     repo_user_name t = (Ok userName :: (string, string) outcome) \<and> get_test_url t = tests_repo_url r"
proof -
  have no: "CHR ''/'' \<notin> set (student_repo_name userName)"
    using assms(1) by (simp add: student_repo_name_def StudentRepoSuffix_def)
  have name: "repo_name t = student_repo_name userName" "get_test_url t = tests_repo_url r"
    using name_of_url [OF no, of t r] assms(2) by (simp_all add: student_repo_url_def)
  then show ?thesis by (simp add: repo_user_name_def student_repo_name_def)
qed

lemma student_repo_roundtrip_witness:
  "repo_user_name (zero_repository\<lparr>r_HTMLURL := student_repo_url
     \<lparr>ru_ProviderURL = ''github.com'', ru_Organization = ''dat520''\<rparr> ''ann''\<rparr>) = (Ok ''ann'' :: (string, string) outcome)"
  using student_repo_roundtrip [of "''ann''" "zero_repository\<lparr>r_HTMLURL := student_repo_url
     \<lparr>ru_ProviderURL = ''github.com'', ru_Organization = ''dat520''\<rparr> ''ann''\<rparr>"]
  by simp

text \<open>
  a group's repository is recognised as a group repository, and not as a course or a student
  repository, exactly when the group's name is none of the three reserved names and does not end with
  the suffix of the student repositories.
\<close>

lemma group_repo_recognised:
  assumes "CHR ''/'' \<notin> set groupName" and "r_HTMLURL t = group_repo_url r groupName"
  shows "repo_type_of (repo_name t) = R_GROUP \<longleftrightarrow>
     groupName \<notin> {InfoRepo, AssignmentsRepo, TestsRepo} \<and> \<not> has_suffix groupName StudentRepoSuffix"
  using name_of_url [OF assms(1), of t r] assms(2) by (auto simp: group_repo_url_def repo_type_of_def)

lemma group_repo_recognised_witness:
  "repo_type_of (repo_name (zero_repository\<lparr>r_HTMLURL := group_repo_url
     \<lparr>ru_ProviderURL = ''github.com'', ru_Organization = ''dat520''\<rparr> ''team-labs''\<rparr>)) \<noteq> R_GROUP"
  using group_repo_recognised [of "''team-labs''" "zero_repository\<lparr>r_HTMLURL := group_repo_url
     \<lparr>ru_ProviderURL = ''github.com'', ru_Organization = ''dat520''\<rparr> ''team-labs''\<rparr>"
     "\<lparr>ru_ProviderURL = ''github.com'', ru_Organization = ''dat520''\<rparr>"]
  by (simp add: StudentRepoSuffix_def has_suffix_def)

end
