(* ===== verification/Access.thy ===== *)
theory Access
  imports Auth Repo
begin

text \<open>
  The interceptors between a request and its handler: validation, authentication by token and by
  cookie, access control by role, and the bookkeeping of tokens to renew
  (\<open>web/interceptor/*.go\<close>, chained in \<open>web/webserver.go\<close>).  A request message is a value of one type
  with a constructor per message of the service; the Go interfaces that the checkers test a message
  for are functions that say which messages have the method.  The handler that the chain ends in, the
  database, the JWT library and the lookup of a GitHub user are arguments.
\<close>

section \<open>Requests and what they provide\<close>

datatype request =
  RVoid
  | RUser user
  | RGroup group_msg
  | RGroupRequest group_request
  | RCourseRequest course_request
  | RCourse course
  | REnrollment enrollment
  | REnrollments "enrollment list"
  | REnrollmentRequest enrollment_request
  | RSubmissionRequest submission_request
  | RGrade grade
  | RRebuildRequest rebuild_request
  | RReviewRequest review_request
  | RFeedback assignment_feedback
  | RRepositoryRequest repository_request

fun erq_courseID :: "enrollment_fetch option \<Rightarrow> u64" where
  "erq_courseID (Some (FetchByCourseID i)) = i" | "erq_courseID _ = 0"

fun erq_userID :: "enrollment_fetch option \<Rightarrow> u64" where
  "erq_userID (Some (FetchByUserID i)) = i" | "erq_userID _ = 0"

fun srq_userID :: "submission_fetch option \<Rightarrow> u64" where
  "srq_userID (Some (FetchUserID i)) = i" | "srq_userID _ = 0"

fun srq_groupID :: "submission_fetch option \<Rightarrow> u64" where
  "srq_groupID (Some (FetchGroupID i)) = i" | "srq_groupID _ = 0"

fun srq_submissionID :: "submission_fetch option \<Rightarrow> u64" where
  "srq_submissionID (Some (FetchSubmissionID i)) = i" | "srq_submissionID _ = 0"

text \<open>The messages with the method \<open>GetCourseID\<close>, \<open>GetUserID\<close>, \<open>GetGroupID\<close> or \<open>GetSubmissionID\<close>.\<close>

fun courseID_of :: "request \<Rightarrow> u64 option" where
  "courseID_of (RGroup g) = Some (g_courseID (gm_group g))"
| "courseID_of (RGroupRequest r) = Some (grq_CourseID r)"
| "courseID_of (RCourseRequest r) = Some (crq_CourseID r)"
| "courseID_of (RCourse c) = Some (c_ID c)"
| "courseID_of (REnrollment e) = Some (e_courseID e)"
| "courseID_of (REnrollments es) = Some (enrollments_course_id es)"
| "courseID_of (REnrollmentRequest r) = Some (erq_courseID (erq_FetchMode r))"
| "courseID_of (RSubmissionRequest r) = Some (srq_CourseID r)"
| "courseID_of (RRebuildRequest r) = Some (brq_CourseID r)"
| "courseID_of (RReviewRequest r) = Some (vrq_CourseID r)"
| "courseID_of (RFeedback f) = Some (af_CourseID f)"
| "courseID_of (RRepositoryRequest r) = Some (rrq_CourseID r)"
| "courseID_of _ = None"

fun userID_of :: "request \<Rightarrow> u64 option" where
  "userID_of (RUser usr) = Some (u_ID usr)"
| "userID_of (RGroupRequest r) = Some (grq_UserID r)"
| "userID_of (REnrollment e) = Some (e_userID e)"
| "userID_of (REnrollmentRequest r) = Some (erq_userID (erq_FetchMode r))"
| "userID_of (RSubmissionRequest r) = Some (srq_userID (srq_FetchMode r))"
| "userID_of (RGrade g) = Some (gr_UserID g)"
| "userID_of (RRepositoryRequest r) = Some (rrq_UserID r)"
| "userID_of _ = None"

fun groupID_of :: "request \<Rightarrow> u64 option" where
  "groupID_of (RGroup g) = Some (g_ID (gm_group g))"
| "groupID_of (RGroupRequest r) = Some (grq_GroupID r)"
| "groupID_of (REnrollment e) = Some (e_groupID e)"
| "groupID_of (RSubmissionRequest r) = Some (srq_groupID (srq_FetchMode r))"
| "groupID_of (RRepositoryRequest r) = Some (rrq_GroupID r)"
| "groupID_of _ = None"

fun submissionID_of :: "request \<Rightarrow> u64 option" where
  "submissionID_of (RSubmissionRequest r) = Some (srq_submissionID (srq_FetchMode r))"
| "submissionID_of (RGrade g) = Some (gr_SubmissionID g)"
| "submissionID_of (RRebuildRequest r) = Some (brq_SubmissionID r)"
| "submissionID_of _ = None"

definition or_zero :: "u64 option \<Rightarrow> u64" where
  "or_zero i = (case i of None \<Rightarrow> 0 | Some k \<Rightarrow> k)"

definition get_courseID :: "request \<Rightarrow> u64" where
  "get_courseID req = or_zero (courseID_of req)"

definition get_userID :: "request \<Rightarrow> u64" where
  "get_userID req = or_zero (userID_of req)"

definition get_groupID :: "request \<Rightarrow> u64" where
  "get_groupID req = or_zero (groupID_of req)"

definition get_submissionID :: "request \<Rightarrow> u64" where
  "get_submissionID req = or_zero (submissionID_of req)"

definition has_groupID :: "request \<Rightarrow> bool" where
  "has_groupID req \<longleftrightarrow> 0 < get_groupID req"

text \<open>The messages with \<open>UserIDs\<close>; for a group request and a course it is a dummy.\<close>

fun userIDs_of :: "request \<Rightarrow> u64 list option" where
  "userIDs_of (RUser usr) = Some (user_ids usr)"
| "userIDs_of (RGroup g) = Some (map (\<lambda>m. u_ID (um_user m)) (gm_users g))"
| "userIDs_of (REnrollments es) = Some (enrollments_user_ids es)"
| "userIDs_of (RGroupRequest _) = Some []"
| "userIDs_of (RCourse _) = Some []"
| "userIDs_of _ = None"

fun request_is_valid :: "request \<Rightarrow> bool" where
  "request_is_valid RVoid = True"
| "request_is_valid (RUser usr) = user_is_valid usr"
| "request_is_valid (RGroup g) = group_is_valid g"
| "request_is_valid (RGroupRequest r) = group_request_is_valid r"
| "request_is_valid (RCourseRequest r) = course_request_is_valid r"
| "request_is_valid (RCourse c) = course_is_valid c"
| "request_is_valid (REnrollment e) = enrollment_is_valid e"
| "request_is_valid (REnrollments es) = enrollments_is_valid es"
| "request_is_valid (REnrollmentRequest r) = enrollment_request_is_valid r"
| "request_is_valid (RSubmissionRequest r) = submission_request_is_valid r"
| "request_is_valid (RGrade g) = grade_is_valid g"
| "request_is_valid (RRebuildRequest r) = rebuild_request_is_valid r"
| "request_is_valid (RReviewRequest r) = review_request_is_valid r"
| "request_is_valid (RFeedback f) = feedback_is_valid f"
| "request_is_valid (RRepositoryRequest r) = repository_request_is_valid r"

section \<open>Claims and requests\<close>

definition same_user :: "claims \<Rightarrow> request \<Rightarrow> bool" where
  "same_user c req \<longleftrightarrow> (case userID_of req of Some i \<Rightarrow> i = cl_UserID c | None \<Rightarrow> False)"

definition is_group_member :: "claims \<Rightarrow> request \<Rightarrow> bool" where
  "is_group_member c req \<longleftrightarrow>
     (case req of RGroup g \<Rightarrow> list_ex (\<lambda>m. cl_UserID c = u_ID (um_user m)) (gm_users g) | _ \<Rightarrow> False)"

definition is_in_group :: "claims \<Rightarrow> request \<Rightarrow> bool" where
  "is_in_group c req \<longleftrightarrow> (case groupID_of req of Some g \<Rightarrow> g \<in> set (cl_Groups c) | None \<Rightarrow> False)"

definition unauthorized_admin_change :: "claims \<Rightarrow> request \<Rightarrow> bool" where
  "unauthorized_admin_change c req \<longleftrightarrow>
     (case req of RUser usr \<Rightarrow> u_IsAdmin usr \<and> \<not> cl_Admin c | _ \<Rightarrow> False)"

section \<open>Access checkers\<close>

record acc_db =
  ad_GetSubmission :: "u64 \<Rightarrow> string + submission"
  ad_GetAssignment :: "u64 \<Rightarrow> string + assignment"
  ad_GetGroup :: "u64 \<Rightarrow> string + group_msg"
  ad_GetEnrollment :: "u64 \<Rightarrow> u64 \<Rightarrow> string + enrollment"

type_synonym checker = "acc_db \<Rightarrow> request \<Rightarrow> claims \<Rightarrow> string"

definition accessGranted :: string where
  "accessGranted = []"

definition check_none :: checker where
  "check_none db req c = accessGranted"

definition check_user :: checker where
  "check_user db req c = (if same_user c req then accessGranted else ''user ID mismatch'')"

definition check_teacher :: checker where
  "check_teacher db req c = (if is_course_teacher c (get_courseID req) then accessGranted else ''not teacher'')"

definition check_admin :: checker where
  "check_admin db req c = (if cl_Admin c then accessGranted else ''not admin'')"

definition check_user_or_student_or_teacher_or_admin :: checker where
  "check_user_or_student_or_teacher_or_admin db req c =
     (if same_user c req then accessGranted
      else if is_course_student c (get_courseID req) then accessGranted
      else if is_course_teacher c (get_courseID req) then accessGranted
      else if cl_Admin c then accessGranted
      else ''not enrolled or not admin'')"

definition check_student_or_teacher :: checker where
  "check_student_or_teacher db req c =
     (if is_course_student c (get_courseID req) then accessGranted
      else if is_course_teacher c (get_courseID req) then accessGranted
      else ''not student or teacher'')"

definition check_group_or_teacher :: checker where
  "check_group_or_teacher db req c =
     (if is_group_member c req then accessGranted
      else if is_in_group c req then accessGranted
      else if is_course_teacher c (get_courseID req) then accessGranted
      else ''not group member or teacher'')"

definition check_update_user :: checker where
  "check_update_user db req c =
     (if same_user c req
      then if unauthorized_admin_change c req
           then ''non-admin user '' @ show_word (cl_UserID c) @ '' attempted to grant admin privileges''
           else accessGranted
      else if cl_Admin c then accessGranted
      else ''user ID mismatch or not admin'')"

definition check_get_submissions :: checker where
  "check_get_submissions db req c =
     (if \<not> has_groupID req \<and> \<not> same_user c req
      then ''ID mismatch in claims ('' @ show_word (cl_UserID c) @ '') and request ('' @ show_word (get_userID req) @ '')''
      else if \<not> has_groupID req \<and> is_course_student c (get_courseID req) then accessGranted
      else if is_in_group c req then accessGranted
      else if is_course_teacher c (get_courseID req) then accessGranted
      else ''not student, group member, or teacher'')"

definition is_valid_submission :: "acc_db \<Rightarrow> request \<Rightarrow> bool" where
  "is_valid_submission db req \<longleftrightarrow>
     (case ad_GetSubmission db (get_submissionID req) of
        Inl _ \<Rightarrow> False
      | Inr sbm \<Rightarrow>
          (case ad_GetAssignment db (s_AssignmentID sbm) of
             Inl _ \<Rightarrow> False
           | Inr assignment \<Rightarrow>
               (let courseID = get_courseID req
                in if courseID \<noteq> 0 \<and> a_CourseID assignment \<noteq> courseID then False
                   else let courseID = (if courseID = 0 then a_CourseID assignment else courseID)
                        in if 0 < s_groupID sbm
                           then (case ad_GetGroup db (s_groupID sbm) of
                                   Inl _ \<Rightarrow> False
                                 | Inr grp \<Rightarrow> \<not> g_courseID (gm_group grp) \<noteq> courseID)
                           else (case ad_GetEnrollment db courseID (s_userID sbm) of
                                   Inl _ \<Rightarrow> False
                                 | Inr enrol \<Rightarrow> \<not> (is_none enrol \<or> is_pending enrol)))))"

definition get_courseID_from_db :: "acc_db \<Rightarrow> request \<Rightarrow> u64" where
  "get_courseID_from_db db req =
     (case ad_GetSubmission db (get_submissionID req) of
        Inl _ \<Rightarrow> 0
      | Inr sbm \<Rightarrow> (case ad_GetAssignment db (s_AssignmentID sbm) of Inl _ \<Rightarrow> 0 | Inr a \<Rightarrow> a_CourseID a))"

definition check_update_submission :: checker where
  "check_update_submission db req c =
     (if \<not> is_valid_submission db req then ''invalid submission''
      else let courseID = (if get_courseID req \<noteq> 0 then get_courseID req else get_courseID_from_db db req)
           in if is_course_teacher c courseID then accessGranted else ''not teacher'')"

definition method_checkers :: "string \<rightharpoonup> checker" where
  "method_checkers = map_of
     [(''GetUser'', check_none), (''GetCourse'', check_none), (''GetCourses'', check_none),
      (''SubmissionStream'', check_none),
      (''CreateEnrollment'', check_user), (''UpdateCourseVisibility'', check_user),
      (''UpdateUser'', check_update_user),
      (''GetEnrollments'', check_user_or_student_or_teacher_or_admin),
      (''GetSubmissions'', check_get_submissions), (''GetSubmission'', check_teacher),
      (''CreateGroup'', check_group_or_teacher), (''GetGroup'', check_group_or_teacher),
      (''GetAssignments'', check_student_or_teacher), (''GetRepositories'', check_student_or_teacher),
      (''UpdateGroup'', check_teacher), (''DeleteGroup'', check_teacher),
      (''GetGroupsByCourse'', check_teacher), (''UpdateCourse'', check_teacher),
      (''UpdateEnrollments'', check_teacher), (''UpdateAssignments'', check_teacher),
      (''UpdateSubmission'', check_update_submission), (''RebuildSubmissions'', check_teacher),
      (''CreateReview'', check_teacher), (''UpdateReview'', check_teacher),
      (''CreateAssignmentFeedback'', check_student_or_teacher),
      (''GetAssignmentFeedback'', check_teacher), (''IsEmptyRepo'', check_teacher),
      (''GetSubmissionsByCourse'', check_teacher), (''GetUsers'', check_admin)]"

section \<open>Interceptors\<close>

datatype rpc_code = InvalidArgument | Unauthenticated | PermissionDenied | Unimplemented | OtherCode nat

type_synonym rpc_error = "rpc_code \<times> string"

record rpc_request =
  rq_Procedure :: string
  rq_Cookie :: string
  rq_Authorization :: string
  rq_Msg :: request

text \<open>A header that is not set is the empty string, as \<open>Header.Get\<close> gives it.\<close>

record 'r response =
  rp_Body :: 'r
  rp_SetCookie :: string

record ('d, 's) server =
  sv_tm :: "'d manager"
  sv_tokenMap :: "string \<rightharpoonup> string"
  sv_rest :: 's

type_synonym ('d, 's, 'r) handler =
  "rpc_request \<Rightarrow> claims option \<Rightarrow> ('d, 's) server \<Rightarrow> (rpc_error, 'r response) outcome \<times> ('d, 's) server"

text \<open>
  What the chain is given: the library and the database operations, the secret and the domain of the
  server, the clock of the request, the text of a cookie, and the remote identity behind a token.
\<close>

record 'd server_env =
  en_jwt :: jwt
  en_users :: "'d user_db"
  en_access :: "'d \<Rightarrow> acc_db"
  en_secret :: string
  en_domain :: string
  en_now :: time
  en_cookieString :: "cookie \<Rightarrow> string"
  en_FetchExternalUser :: "string \<Rightarrow> string + u64"
  en_GetUserByRemoteIdentity :: "'d \<Rightarrow> u64 \<Rightarrow> string + user"
  en_TypeName :: "request \<Rightarrow> string"

definition method_of :: "string \<Rightarrow> string" where
  "method_of procedure = drop (after_slash procedure) procedure"

definition validation_unary :: "('r \<Rightarrow> 'r) \<Rightarrow> ('d, 's, 'r) handler \<Rightarrow> ('d, 's, 'r) handler" where
  "validation_unary clean next rq c s =
     (if \<not> request_is_valid (rq_Msg rq) then (Err (InvalidArgument, ''invalid payload''), s)
      else case next rq c s of
             (Ok resp, s) \<Rightarrow> (Ok (resp\<lparr>rp_Body := clean (rp_Body resp)\<rparr>), s)
           | r \<Rightarrow> r)"

definition valid_token_prefixes :: "string \<Rightarrow> bool" where
  "valid_token_prefixes token \<longleftrightarrow> list_ex (has_prefix token) [''ghp_'', ''github_pat_'', ''gho_'']"

definition lookup_token ::
    "'d server_env \<Rightarrow> string \<Rightarrow> ('d, 's) server \<Rightarrow> (rpc_error + string) \<times> ('d, 's) server" where
  "lookup_token env token s =
     (case sv_tokenMap s token of
        Some cookie \<Rightarrow> (Inr cookie, s)
      | None \<Rightarrow>
          if \<not> valid_token_prefixes token then (Inl (InvalidArgument, ''invalid token''), s)
          else (case en_FetchExternalUser env token of
                  Inl e \<Rightarrow> (Inl (Unauthenticated, e), s)
                | Inr remoteID \<Rightarrow>
                    (case en_GetUserByRemoteIdentity env (tm_db (sv_tm s)) remoteID of
                       Inl e \<Rightarrow> (Inl (Unauthenticated, e), s)
                     | Inr usr \<Rightarrow>
                         (case new_auth_cookie (en_jwt env) (en_users env) (en_secret env) (en_domain env)
                                 (en_now env) (tm_db (sv_tm s)) (u_ID usr) of
                            Inl e \<Rightarrow> (Inl (Unauthenticated, e), s)
                          | Inr ck \<Rightarrow>
                              (let cookieString = en_cookieString env ck
                               in (Inr cookieString,
                                   s\<lparr>sv_tokenMap := (sv_tokenMap s)(token \<mapsto> cookieString)\<rparr>))))))"

definition token_auth_unary :: "'d server_env \<Rightarrow> ('d, 's, 'r) handler \<Rightarrow> ('d, 's, 'r) handler" where
  "token_auth_unary env next rq c s =
     (let token = rq_Authorization rq
      in if token = [] then next rq c s
         else case lookup_token env token s of
                (Inl e, s) \<Rightarrow> (Err e, s)
              | (Inr cookie, s) \<Rightarrow>
                  (case next (rq\<lparr>rq_Cookie := cookie\<rparr>) c s of
                     (Ok resp, s) \<Rightarrow>
                       (Ok resp, if rp_SetCookie resp \<noteq> [] \<and> rp_SetCookie resp \<noteq> cookie
                                 then s\<lparr>sv_tokenMap := (sv_tokenMap s)(token \<mapsto> rp_SetCookie resp)\<rparr> else s)
                   | r \<Rightarrow> r))"

definition process_header ::
    "'d server_env \<Rightarrow> string \<Rightarrow> 'd manager \<Rightarrow> (rpc_error, claims \<times> cookie option) outcome \<times> 'd manager" where
  "process_header env cookie tm =
     (case get_claims (en_jwt env) (en_secret env) (en_now env) cookie of
        Inl e \<Rightarrow> (Err (Unauthenticated, ''failed to extract JWT claims from session cookie: '' @ e), tm)
      | Inr c \<Rightarrow>
          (case update_cookie (en_jwt env) (en_users env) (en_secret env) (en_domain env) (en_now env) c tm of
             (Panic p, tm) \<Rightarrow> (Panic p, tm)
           | (Err e, tm) \<Rightarrow> (Err (Unauthenticated, ''failed to update session cookie: '' @ e), tm)
           | (Ok updated, tm) \<Rightarrow> (Ok (c, updated), tm)))"

definition user_auth_unary :: "'d server_env \<Rightarrow> ('d, 's, 'r) handler \<Rightarrow> ('d, 's, 'r) handler" where
  "user_auth_unary env next rq c s =
     (case process_header env (rq_Cookie rq) (sv_tm s) of
        (Panic p, tm) \<Rightarrow> (Panic p, s\<lparr>sv_tm := tm\<rparr>)
      | (Err e, tm) \<Rightarrow> (Err e, s\<lparr>sv_tm := tm\<rparr>)
      | (Ok (cl, updated), tm) \<Rightarrow>
          (case next rq (Some cl) (s\<lparr>sv_tm := tm\<rparr>) of
             (Ok resp, s) \<Rightarrow>
               (Ok (case updated of None \<Rightarrow> resp | Some ck \<Rightarrow> resp\<lparr>rp_SetCookie := en_cookieString env ck\<rparr>), s)
           | r \<Rightarrow> r))"

definition access_denied :: "string \<Rightarrow> string \<Rightarrow> rpc_error" where
  "access_denied method reason = (PermissionDenied, ''access denied for '' @ method @ '': '' @ reason)"

definition access_unary :: "'d server_env \<Rightarrow> ('d, 's, 'r) handler \<Rightarrow> ('d, 's, 'r) handler" where
  "access_unary env next rq c s =
     (let method = method_of (rq_Procedure rq)
      in case c of
           None \<Rightarrow> (Err (access_denied method ''failed to get claims from request context''), s)
         | Some cl \<Rightarrow>
             (case method_checkers method of
                None \<Rightarrow> (Err (access_denied method ''unknown method''), s)
              | Some check \<Rightarrow>
                  (let reason = check (en_access env (tm_db (sv_tm s))) (rq_Msg rq) cl
                   in if reason \<noteq> [] then (Err (access_denied method reason), s) else next rq c s)))"

text \<open>The users whose token needs a renewal, added one by one until an error.\<close>

fun token_updater :: "'d user_db \<Rightarrow> u64 list \<Rightarrow> 'd manager \<Rightarrow> string option \<times> 'd manager" where
  "token_updater db [] tm = (None, tm)"
| "token_updater db (i # is) tm =
     (case tm_add db i tm of (Some e, tm) \<Rightarrow> (Some e, tm) | (None, tm) \<Rightarrow> token_updater db is tm)"

definition token_update ::
    "'d server_env \<Rightarrow> string \<Rightarrow> request \<Rightarrow> 'd manager \<Rightarrow> (string option \<times> 'd manager) option" where
  "token_update env method msg tm =
     (if method \<in> {''UpdateUser'', ''UpdateGroup'', ''UpdateEnrollments''}
      then map_option (\<lambda>is. token_updater (en_users env) is tm) (userIDs_of msg)
      else if groupID_of msg = None
      then map_option (\<lambda>_. (Some ''permission_denied: cannot update token for DeleteGroup: request does not contain a group'', tm))
             (userIDs_of msg)
      else map_option (\<lambda>_. case ad_GetGroup (en_access env (tm_db tm)) (get_groupID msg) of
                             Inl e \<Rightarrow> (Some e, tm)
                           | Inr g \<Rightarrow> token_updater (en_users env) (map (\<lambda>m. u_ID (um_user m)) (gm_users g)) tm)
             (userIDs_of msg))"

definition token_update_method :: "string \<Rightarrow> bool" where
  "token_update_method method \<longleftrightarrow>
     method \<in> {''UpdateUser'', ''UpdateGroup'', ''UpdateEnrollments'', ''DeleteGroup''}"

definition token_unary :: "'d server_env \<Rightarrow> ('d, 's, 'r) handler \<Rightarrow> ('d, 's, 'r) handler" where
  "token_unary env next rq c s =
     (let method = method_of (rq_Procedure rq)
      in if token_update_method method
         then (case token_update env method (rq_Msg rq) (sv_tm s) of
                 None \<Rightarrow> (Err (Unimplemented, ''cannot update token for '' @ method @ '': message type '' @
                     en_TypeName env (rq_Msg rq) @ '' does not implement '' @
                     [CHR 0x27] @ ''userIDs'' @ [CHR 0x27] @ '' interface''), s)
               | Some (Some e, tm) \<Rightarrow>
                   (Err (PermissionDenied, ''cannot update token for '' @ method @ '': '' @ e), s\<lparr>sv_tm := tm\<rparr>)
               | Some (None, tm) \<Rightarrow> next rq c (s\<lparr>sv_tm := tm\<rparr>))
         else next rq c s)"

text \<open>The chain of \<open>NewQuickFeedHandler\<close>, without the metrics.\<close>

definition chain :: "'d server_env \<Rightarrow> ('r \<Rightarrow> 'r) \<Rightarrow> ('d, 's, 'r) handler \<Rightarrow> ('d, 's, 'r) handler" where
  "chain env clean next =
     validation_unary clean (token_auth_unary env (user_auth_unary env (access_unary env (token_unary env next))))"

section \<open>Which call of the next handler an interceptor makes\<close>

text \<open>
  An interceptor calls the next handler at most once, on the request, claims and server state that
  \<open>calls\<close> gives, and depends on it only through that call.
\<close>

locale interceptor =
  fixes wrap :: "('d, 's, 'r) handler \<Rightarrow> ('d, 's, 'r) handler"
    and calls :: "rpc_request \<Rightarrow> claims option \<Rightarrow> ('d, 's) server
      \<Rightarrow> (rpc_request \<times> claims option \<times> ('d, 's) server) option"
  assumes blocked: "calls rq c s = None \<Longrightarrow> wrap n rq c s = wrap n' rq c s"
    and one_call: "calls rq c s = Some (rq', c', s') \<Longrightarrow> n rq' c' s' = n' rq' c' s' \<Longrightarrow> wrap n rq c s = wrap n' rq c s"
begin

lemma reached:
  assumes "wrap n rq c s \<noteq> wrap n' rq c s"
  obtains rq' c' s' where "calls rq c s = Some (rq', c', s')" "n rq' c' s' \<noteq> n' rq' c' s'"
proof (cases "calls rq c s")
  case None
  with assms blocked show ?thesis by blast
next
  case (Some call)
  moreover obtain rq' c' s' where "call = (rq', c', s')" by (cases call)
  ultimately show ?thesis using assms one_call that by blast
qed

end

text \<open>Two interceptors in a row are an interceptor again.\<close>

locale interceptor_pair =
  outer: interceptor wrap1 calls1 + inner: interceptor wrap2 calls2
  for wrap1 wrap2 :: "('d, 's, 'r) handler \<Rightarrow> ('d, 's, 'r) handler"
    and calls1 calls2 :: "rpc_request \<Rightarrow> claims option \<Rightarrow> ('d, 's) server
      \<Rightarrow> (rpc_request \<times> claims option \<times> ('d, 's) server) option"
begin

definition both :: "rpc_request \<Rightarrow> claims option \<Rightarrow> ('d, 's) server
    \<Rightarrow> (rpc_request \<times> claims option \<times> ('d, 's) server) option" where
  "both rq c s = (case calls1 rq c s of None \<Rightarrow> None | Some (rq', c', s') \<Rightarrow> calls2 rq' c' s')"

lemma pair_interceptor: "interceptor (\<lambda>n. wrap1 (wrap2 n)) both"
proof
  show "wrap1 (wrap2 n) rq c s = wrap1 (wrap2 n') rq c s" if "both rq c s = None" for rq c s n n'
  proof (rule ccontr)
    assume "wrap1 (wrap2 n) rq c s \<noteq> wrap1 (wrap2 n') rq c s"
    then obtain rq1 c1 s1 where "calls1 rq c s = Some (rq1, c1, s1)" "wrap2 n rq1 c1 s1 \<noteq> wrap2 n' rq1 c1 s1"
      by (rule outer.reached)
    with that inner.blocked show False unfolding both_def by fastforce
  qed
  show "wrap1 (wrap2 n) rq c s = wrap1 (wrap2 n') rq c s"
    if "both rq c s = Some (rq', c', s')" "n rq' c' s' = n' rq' c' s'" for rq c s rq' c' s' n n'
  proof (rule ccontr)
    assume "wrap1 (wrap2 n) rq c s \<noteq> wrap1 (wrap2 n') rq c s"
    then obtain rq1 c1 s1 where "calls1 rq c s = Some (rq1, c1, s1)" "wrap2 n rq1 c1 s1 \<noteq> wrap2 n' rq1 c1 s1"
      by (rule outer.reached)
    moreover from this(1) that(1) have "calls2 rq1 c1 s1 = Some (rq', c', s')" by (simp add: both_def)
    ultimately show False using inner.one_call that(2) by blast
  qed
qed

end

definition validation_calls where
  "validation_calls rq c s = (if request_is_valid (rq_Msg rq) then Some (rq, c, s) else None)"

definition token_auth_calls where
  "token_auth_calls env rq c s =
     (if rq_Authorization rq = [] then Some (rq, c, s)
      else case lookup_token env (rq_Authorization rq) s of
             (Inl e, s) \<Rightarrow> None | (Inr cookie, s) \<Rightarrow> Some (rq\<lparr>rq_Cookie := cookie\<rparr>, c, s))"

definition user_auth_calls where
  "user_auth_calls env rq c s =
     (case process_header env (rq_Cookie rq) (sv_tm s) of
        (Ok (cl, updated), tm) \<Rightarrow> Some (rq, Some cl, s\<lparr>sv_tm := tm\<rparr>) | _ \<Rightarrow> None)"

definition access_calls where
  "access_calls env rq c s =
     (case c of None \<Rightarrow> None
      | Some cl \<Rightarrow> (case method_checkers (method_of (rq_Procedure rq)) of None \<Rightarrow> None
          | Some check \<Rightarrow> if check (en_access env (tm_db (sv_tm s))) (rq_Msg rq) cl = []
                          then Some (rq, c, s) else None))"

definition token_calls where
  "token_calls env rq c s =
     (if token_update_method (method_of (rq_Procedure rq))
      then (case token_update env (method_of (rq_Procedure rq)) (rq_Msg rq) (sv_tm s) of
              Some (None, tm) \<Rightarrow> Some (rq, c, s\<lparr>sv_tm := tm\<rparr>) | _ \<Rightarrow> None)
      else Some (rq, c, s))"

interpretation validation_i: interceptor "validation_unary clean" validation_calls
  by unfold_locales (auto simp: validation_unary_def validation_calls_def split: if_splits)

interpretation token_auth_i: interceptor "token_auth_unary env" "token_auth_calls env"
  by unfold_locales
    (auto simp: token_auth_unary_def token_auth_calls_def Let_def split: if_splits prod.splits sum.splits)

interpretation user_auth_i: interceptor "user_auth_unary env" "user_auth_calls env"
  by unfold_locales
    (auto simp: user_auth_unary_def user_auth_calls_def split: prod.splits outcome.splits)

interpretation access_i: interceptor "access_unary env" "access_calls env"
  by unfold_locales
    (auto simp: access_unary_def access_calls_def Let_def split: option.splits if_splits)

interpretation token_i: interceptor "token_unary env" "token_calls env"
  by unfold_locales
    (auto simp: token_unary_def token_calls_def Let_def split: option.splits if_splits prod.splits)

interpretation access_token: interceptor_pair "access_unary env" "token_unary env" "access_calls env" "token_calls env"
  by unfold_locales

interpretation access_token_i: interceptor "\<lambda>n. access_unary env (token_unary env n)" "access_token.both env"
  by (rule access_token.pair_interceptor)

interpretation user_access: interceptor_pair "user_auth_unary env" "\<lambda>n. access_unary env (token_unary env n)"
  "user_auth_calls env" "access_token.both env"
  by unfold_locales

interpretation user_access_i: interceptor "\<lambda>n. user_auth_unary env (access_unary env (token_unary env n))"
  "user_access.both env"
  by (rule user_access.pair_interceptor)

interpretation token_user: interceptor_pair "token_auth_unary env"
  "\<lambda>n. user_auth_unary env (access_unary env (token_unary env n))"
  "token_auth_calls env" "user_access.both env"
  by unfold_locales

interpretation token_user_i: interceptor "\<lambda>n. token_auth_unary env (user_auth_unary env (access_unary env (token_unary env n)))"
  "token_user.both env"
  by (rule token_user.pair_interceptor)

section \<open>What a checker grants\<close>

text \<open>The contract of a checker: it returns the empty reason exactly where its rule allows the request.\<close>

locale access_checker =
  fixes check :: checker
    and allowed :: "acc_db \<Rightarrow> request \<Rightarrow> claims \<Rightarrow> bool"
  assumes grants: "check db req c = accessGranted \<longleftrightarrow> allowed db req c"
begin

lemma denied:
  assumes "method_checkers (method_of (rq_Procedure rq)) = Some check"
    and "\<not> allowed (en_access env (tm_db (sv_tm s))) (rq_Msg rq) cl"
  shows "\<exists>reason. access_unary env n rq (Some cl) s =
     (Err (PermissionDenied, ''access denied for '' @ method_of (rq_Procedure rq) @ '': '' @ reason), s)"
  using assms grants [of "en_access env (tm_db (sv_tm s))" "rq_Msg rq" cl]
  by (auto simp: access_unary_def Let_def access_denied_def accessGranted_def)

lemma granted:
  assumes "method_checkers (method_of (rq_Procedure rq)) = Some check"
    and "allowed (en_access env (tm_db (sv_tm s))) (rq_Msg rq) cl"
  shows "access_unary env n rq (Some cl) s = n rq (Some cl) s"
  using assms grants [of "en_access env (tm_db (sv_tm s))" "rq_Msg rq" cl]
  by (auto simp: access_unary_def Let_def accessGranted_def)

end

interpretation none_c: access_checker check_none "\<lambda>_ _ _. True"
  by unfold_locales (simp add: check_none_def)

interpretation user_c: access_checker check_user "\<lambda>_ req c. same_user c req"
  by unfold_locales (simp add: check_user_def accessGranted_def)

interpretation teacher_c: access_checker check_teacher "\<lambda>_ req c. is_course_teacher c (get_courseID req)"
  by unfold_locales (simp add: check_teacher_def accessGranted_def)

interpretation admin_c: access_checker check_admin "\<lambda>_ _ c. cl_Admin c"
  by unfold_locales (simp add: check_admin_def accessGranted_def)

interpretation enrolled_c: access_checker check_student_or_teacher
  "\<lambda>_ req c. is_course_student c (get_courseID req) \<or> is_course_teacher c (get_courseID req)"
  by unfold_locales (simp add: check_student_or_teacher_def accessGranted_def)

interpretation any_role_c: access_checker check_user_or_student_or_teacher_or_admin
  "\<lambda>_ req c. same_user c req \<or> is_course_student c (get_courseID req) \<or>
     is_course_teacher c (get_courseID req) \<or> cl_Admin c"
  by unfold_locales (simp add: check_user_or_student_or_teacher_or_admin_def accessGranted_def)

interpretation group_c: access_checker check_group_or_teacher
  "\<lambda>_ req c. is_group_member c req \<or> is_in_group c req \<or> is_course_teacher c (get_courseID req)"
  by unfold_locales (simp add: check_group_or_teacher_def accessGranted_def)

interpretation update_user_c: access_checker check_update_user
  "\<lambda>_ req c. same_user c req \<and> \<not> unauthorized_admin_change c req \<or> \<not> same_user c req \<and> cl_Admin c"
  by unfold_locales (simp add: check_update_user_def accessGranted_def)

interpretation submissions_c: access_checker check_get_submissions
  "\<lambda>_ req c. if has_groupID req then is_in_group c req \<or> is_course_teacher c (get_courseID req)
     else same_user c req \<and> (is_course_student c (get_courseID req) \<or> is_in_group c req \<or>
            is_course_teacher c (get_courseID req))"
  by unfold_locales (auto simp: check_get_submissions_def accessGranted_def)

definition graded_course :: "acc_db \<Rightarrow> request \<Rightarrow> u64" where
  "graded_course db req = (if get_courseID req \<noteq> 0 then get_courseID req else get_courseID_from_db db req)"

interpretation grade_c: access_checker check_update_submission
  "\<lambda>db req c. is_valid_submission db req \<and> is_course_teacher c (graded_course db req)"
  by unfold_locales (auto simp: check_update_submission_def graded_course_def accessGranted_def Let_def)

lemmas checker_grants = none_c.grants user_c.grants teacher_c.grants admin_c.grants enrolled_c.grants
  any_role_c.grants group_c.grants update_user_c.grants submissions_c.grants grade_c.grants

section \<open>Properties\<close>

text \<open>
  C1: the chain of interceptors lets a request reach its handler only if the message is valid, the cookie
  (the one sent, or the one looked up for the token sent) gives claims, the method is known, and the
  checker of the method grants the request for these claims: where two handlers make a difference, all
  of this holds.
\<close>

theorem handler_reached:
  assumes "chain env clean n rq c s \<noteq> chain env clean n' rq c s"
  shows "request_is_valid (rq_Msg rq) \<and>
     (\<exists>cookie s1 cl up tm check.
        (if rq_Authorization rq = [] then cookie = rq_Cookie rq \<and> s1 = s
         else lookup_token env (rq_Authorization rq) s = (Inr cookie, s1)) \<and>
        get_claims (en_jwt env) (en_secret env) (en_now env) cookie = Inr cl \<and>
        process_header env cookie (sv_tm s1) = (Ok (cl, up), tm) \<and>
        method_checkers (method_of (rq_Procedure rq)) = Some check \<and>
        check (en_access env (tm_db tm)) (rq_Msg rq) cl = accessGranted)"
proof -
  from assms have "validation_unary clean (token_auth_unary env (user_auth_unary env (access_unary env (token_unary env n)))) rq c s \<noteq>
      validation_unary clean (token_auth_unary env (user_auth_unary env (access_unary env (token_unary env n')))) rq c s"
    by (simp add: chain_def)
  then obtain "request_is_valid (rq_Msg rq)" and
    "token_auth_unary env (user_auth_unary env (access_unary env (token_unary env n))) rq c s \<noteq>
      token_auth_unary env (user_auth_unary env (access_unary env (token_unary env n'))) rq c s"
    by (rule validation_i.reached) (auto simp: validation_calls_def split: if_splits)
  moreover from this(2) obtain rq' c' s' where "token_user.both env rq c s = Some (rq', c', s')"
    by (rule token_user_i.reached)
  then obtain rq1 c1 s1 rq2 c2 s2 where t: "token_auth_calls env rq c s = Some (rq1, c1, s1)"
    "user_auth_calls env rq1 c1 s1 = Some (rq2, c2, s2)" "access_token.both env rq2 c2 s2 = Some (rq', c', s')"
    by (auto simp: token_user.both_def user_access.both_def split: option.splits)
  from t(3) have "access_calls env rq2 c2 s2 \<noteq> None"
    unfolding access_token.both_def by (auto split: option.splits)
  moreover note t
  moreover from t(2) obtain cl up tm where p: "process_header env (rq_Cookie rq1) (sv_tm s1) = (Ok (cl, up), tm)"
    "rq2 = rq1" "c2 = Some cl" "s2 = s1\<lparr>sv_tm := tm\<rparr>"
    by (auto simp: user_auth_calls_def split: prod.splits outcome.splits)
  moreover have "get_claims (en_jwt env) (en_secret env) (en_now env) (rq_Cookie rq1) = Inr cl"
    using p(1) by (auto simp: process_header_def split: sum.splits outcome.splits prod.splits)
  ultimately show ?thesis
    by (intro conjI exI [of _ "rq_Cookie rq1"] exI [of _ s1] exI [of _ cl] exI [of _ up] exI [of _ tm])
      (auto simp: token_auth_calls_def access_calls_def accessGranted_def split: if_splits sum.splits prod.splits option.splits)
qed

text \<open>A server for the witnesses: the tokens of a table of signed claims; its clock is at 50.\<close>

definition sample_claims :: "time \<Rightarrow> (u64 \<rightharpoonup> user_status) \<Rightarrow> claims" where
  "sample_claims e courses = \<lparr>cl_UserID = 7, cl_Admin = False, cl_Courses = courses, cl_Groups = [],
     cl_ExpiresAt = Some e, cl_IssuedAt = None, cl_Issuer = ''QuickFeed''\<rparr>"

definition sample_env :: "(claims \<times> string) list \<Rightarrow> user list server_env" where
  "sample_env tbl = \<lparr>en_jwt = token_jwt tbl, en_users = row_db,
     en_access = (\<lambda>_. \<lparr>ad_GetSubmission = \<lambda>_. Inl ''none'', ad_GetAssignment = \<lambda>_. Inl ''none'',
        ad_GetGroup = \<lambda>_. Inl ''none'', ad_GetEnrollment = \<lambda>_ _. Inl ''none''\<rparr>),
     en_secret = ''key'', en_domain = ''localhost'', en_now = 50, en_cookieString = ck_Value,
     en_FetchExternalUser = \<lambda>_. Inl ''offline'', en_GetUserByRemoteIdentity = \<lambda>_ _. Inl ''none'',
     en_TypeName = \<lambda>_. ''request''\<rparr>"

definition sample_server :: "(user list, unit) server" where
  "sample_server = \<lparr>sv_tm = \<lparr>tm_tokensToUpdate = [], tm_db = [zero_user\<lparr>u_ID := 7\<rparr>]\<rparr>,
     sv_tokenMap = Map.empty, sv_rest = ()\<rparr>"

lemma sample_cookie: "extract_token ''auth=tok'' = Inr ''tok''"
  by code_simp

lemma sample_method: "method_of ''/qf.QuickFeedService/GetCourses'' = ''GetCourses''"
  by code_simp

lemma handler_reached_witness:
  "let rq = \<lparr>rq_Procedure = ''/qf.QuickFeedService/GetCourses'', rq_Cookie = ''auth=tok'', rq_Authorization = [], rq_Msg = RVoid\<rparr>;
       env = sample_env [(sample_claims 100 Map.empty, ''tok'')]
   in chain env id (\<lambda>_ _ s. (Ok \<lparr>rp_Body = 0, rp_SetCookie = []\<rparr>, s)) rq None sample_server \<noteq>
      chain env id (\<lambda>_ _ s. (Ok \<lparr>rp_Body = Suc 0, rp_SetCookie = []\<rparr>, s)) rq None sample_server \<and>
      (\<exists>cl. get_claims (en_jwt env) (en_secret env) (en_now env) ''auth=tok'' = Inr cl)"
proof -
  define rq where "rq = \<lparr>rq_Procedure = ''/qf.QuickFeedService/GetCourses'', rq_Cookie = ''auth=tok'',
    rq_Authorization = [], rq_Msg = RVoid\<rparr>"
  define env where "env = sample_env [(sample_claims 100 Map.empty, ''tok'')]"
  have ph: "process_header env ''auth=tok'' (sv_tm sample_server) =
      (Ok (sample_claims 100 Map.empty, None), sv_tm sample_server)"
    by (simp add: process_header_def env_def sample_env_def get_claims_def sample_cookie token_jwt_def
        sample_claims_def update_cookie_def update_required_def sample_server_def)
  have "chain env id n rq None sample_server =
     (case n rq (Some (sample_claims 100 Map.empty)) sample_server of
        (Ok resp, s) \<Rightarrow> (Ok resp, s) | r \<Rightarrow> r)" for n :: "(user list, unit, nat) handler"
    using ph
    by (simp add: chain_def validation_unary_def token_auth_unary_def user_auth_unary_def access_unary_def
        token_unary_def rq_def sample_method method_checkers_def check_none_def accessGranted_def
        token_update_method_def split: prod.split outcome.split)
  then have ne: "chain env id (\<lambda>_ _ s. (Ok \<lparr>rp_Body = 0, rp_SetCookie = []\<rparr>, s)) rq None sample_server \<noteq>
      chain env id (\<lambda>_ _ s. (Ok \<lparr>rp_Body = Suc 0, rp_SetCookie = []\<rparr>, s)) rq None sample_server"
    by simp
  from handler_reached [OF ne] ne show ?thesis by (auto simp: rq_def env_def)
qed

definition teacher_methods :: "string list" where
  "teacher_methods = [''GetSubmission'', ''UpdateGroup'', ''DeleteGroup'', ''GetGroupsByCourse'', ''UpdateCourse'',
     ''UpdateEnrollments'', ''UpdateAssignments'', ''RebuildSubmissions'', ''CreateReview'', ''UpdateReview'',
     ''GetAssignmentFeedback'', ''IsEmptyRepo'', ''GetSubmissionsByCourse'']"

lemma teacher_methods_checked: "list_all (\<lambda>m. method_checkers m = Some check_teacher) teacher_methods"
  by (simp add: teacher_methods_def method_checkers_def)

text \<open>the methods that read or change a course for its staff are closed to everybody else: without the
  teacher role in the course that the request names, the call is denied and the handler does not run.
\<close>

lemma teacher_methods_closed:
  assumes "method_of (rq_Procedure rq) \<in> set teacher_methods"
  shows "if is_course_teacher cl (get_courseID (rq_Msg rq))
     then access_unary env n rq (Some cl) s = n rq (Some cl) s
     else \<exists>reason. access_unary env n rq (Some cl) s =
       (Err (PermissionDenied, ''access denied for '' @ method_of (rq_Procedure rq) @ '': '' @ reason), s)"
proof -
  have m: "method_checkers (method_of (rq_Procedure rq)) = Some check_teacher"
    using teacher_methods_checked assms by (simp add: list_all_iff)
  show ?thesis
    using teacher_c.denied [OF m, where cl = cl and env = env and s = s and n = n] teacher_c.granted [OF m, where cl = cl and env = env and s = s and n = n] by (simp only: split: if_split) blast
qed

lemma teacher_methods_closed_witness:
  "\<exists>reason. access_unary (sample_env [(sample_claims 100 Map.empty, ''tok'')]) (\<lambda>_ _ s. (Panic ''called'', s))
     \<lparr>rq_Procedure = ''DeleteGroup'', rq_Cookie = [], rq_Authorization = [],
       rq_Msg = RGroupRequest \<lparr>grq_CourseID = 1, grq_UserID = 0, grq_GroupID = 2\<rparr>\<rparr>
     (Some (sample_claims 100 Map.empty)) sample_server =
     (Err (PermissionDenied, ''access denied for '' @ ''DeleteGroup'' @ '': '' @ reason), sample_server)"
proof -
  have m: "method_of ''DeleteGroup'' = ''DeleteGroup''" by code_simp
  show ?thesis
    using teacher_methods_closed [of "\<lparr>rq_Procedure = ''DeleteGroup'', rq_Cookie = [], rq_Authorization = [],
       rq_Msg = RGroupRequest \<lparr>grq_CourseID = 1, grq_UserID = 0, grq_GroupID = 2\<rparr>\<rparr>" "sample_claims 100 Map.empty"
       "sample_env [(sample_claims 100 Map.empty, ''tok'')]" "\<lambda>_ _ s. (Panic ''called'', s)" sample_server]
    by (simp add: m teacher_methods_def is_course_teacher_def course_role_def sample_claims_def)
qed

text \<open>a submission is graded only by a teacher of the course that its assignment belongs to, and, where
  the request names a course, only if that is the course.
\<close>

lemma grading_needs_teacher:
  assumes "check_update_submission db req c = accessGranted"
  shows "\<exists>sbm a. ad_GetSubmission db (get_submissionID req) = Inr sbm \<and>
     ad_GetAssignment db (s_AssignmentID sbm) = Inr a \<and> is_course_teacher c (a_CourseID a) \<and>
     get_courseID req \<in> {0, a_CourseID a}"
  using assms unfolding grade_c.grants
  by (auto simp: is_valid_submission_def graded_course_def get_courseID_from_db_def Let_def
      split: sum.splits if_splits)

lemma grading_needs_teacher_witness:
  "\<exists>a. ad_GetAssignment (\<lparr>ad_GetSubmission = \<lambda>_. Inr (zero_submission\<lparr>s_groupID := 2\<rparr>),
         ad_GetAssignment = \<lambda>_. Inr (zero_assignment\<lparr>a_CourseID := 3\<rparr>),
         ad_GetGroup = \<lambda>_. Inr (GroupMsg \<lparr>g_ID = 2, g_name = [], g_courseID = 3, g_status = Group_PENDING\<rparr> [] []),
         ad_GetEnrollment = \<lambda>_ _. Inl ''none''\<rparr>) 0 = Inr a \<and>
     is_course_teacher (sample_claims 100 [3 \<mapsto> Enrollment_TEACHER]) (a_CourseID a)"
  using grading_needs_teacher [of "\<lparr>ad_GetSubmission = \<lambda>_. Inr (zero_submission\<lparr>s_groupID := 2\<rparr>),
         ad_GetAssignment = \<lambda>_. Inr (zero_assignment\<lparr>a_CourseID := 3\<rparr>),
         ad_GetGroup = \<lambda>_. Inr (GroupMsg \<lparr>g_ID = 2, g_name = [], g_courseID = 3, g_status = Group_PENDING\<rparr> [] []),
         ad_GetEnrollment = \<lambda>_ _. Inl ''none''\<rparr>" "RGrade \<lparr>gr_SubmissionID = 1, gr_UserID = 0, gr_Status = S_APPROVED\<rparr>"
      "sample_claims 100 [3 \<mapsto> Enrollment_TEACHER]"]
  by (simp add: grade_c.grants is_valid_submission_def graded_course_def get_courseID_from_db_def
      get_courseID_def or_zero_def is_course_teacher_def course_role_def sample_claims_def
      zero_submission_def zero_assignment_def)

text \<open>a cookie whose token has expired is accepted with the claims it was signed with: the request that
  carries it gets a cookie with new claims for the next one, but is itself checked against the old
  claims, whatever the database says by then.  So a token keeps the roles it was issued with for as long
  as it is sent, however long after its expiry.
\<close>

lemma expired_token_keeps_roles:
  assumes "jwt_ok (en_jwt env)" and "jwt_Sign (en_jwt env) (en_secret env) c = Inr token"
    and "cl_ExpiresAt c = Some e" and "e < en_now env"
    and "extract_token cookie = Inr token" and "cl_UserID c \<notin> set (tm_tokensToUpdate tm)"
    and "new_auth_cookie (en_jwt env) (en_users env) (en_secret env) (en_domain env) (en_now env)
           (tm_db tm) (cl_UserID c) = Inr ck"
  shows "process_header env cookie tm = (Ok (c, Some ck), tm) \<and>
     (is_course_teacher c (get_courseID req) \<longrightarrow> check_teacher db req c = accessGranted) \<and>
     (cl_Admin c \<longrightarrow> check_admin db req c = accessGranted)"
proof -
  have verified: "jwt_Verify (en_jwt env) (en_secret env) token = None"
    using assms(1,2) unfolding jwt_ok_def by blast
  moreover obtain msg where "jwt_Parse (en_jwt env) (en_secret env) (en_now env) token = Expired c msg"
    using assms(1-4) unfolding jwt_ok_def by (metis less_asym)
  ultimately have "get_claims (en_jwt env) (en_secret env) (en_now env) cookie = Inr c"
    using assms(5) by (simp add: get_claims_def)
  moreover have "tm_remove (en_users env) (cl_UserID c) tm = (None, tm)"
    using assms(6) by (auto simp: tm_remove_def tm_exists_def list_ex_iff)
  moreover have "update_required (en_now env) c tm = Ok True"
    using assms(3,4,6) by (simp add: update_required_def)
  ultimately have "process_header env cookie tm = (Ok (c, Some ck), tm)"
    using assms(7) by (simp add: process_header_def update_cookie_def)
  then show ?thesis by (simp add: teacher_c.grants admin_c.grants)
qed

text \<open>A former teacher of course 3: the database has no enrollment left, the token is from before.\<close>

definition renewed_claims :: claims where
  "renewed_claims = (sample_claims (50 + tokenExpirationTime) Map.empty)\<lparr>cl_IssuedAt := Some 50\<rparr>"

lemma expired_token_keeps_roles_witness:
  "let c = sample_claims 10 [3 \<mapsto> Enrollment_TEACHER];
       env = sample_env [(c, ''tok''), (renewed_claims, ''new'')];
       req = RCourseRequest \<lparr>crq_CourseID = 3\<rparr>
   in \<exists>ck. process_header env ''auth=tok'' (sv_tm sample_server) = (Ok (c, Some ck), sv_tm sample_server) \<and>
      ck_Value ck = ''new'' \<and> check_teacher (en_access env []) req c = accessGranted \<and>
      check_teacher (en_access env []) req renewed_claims \<noteq> accessGranted"
proof -
  define c where "c = sample_claims 10 [3 \<mapsto> Enrollment_TEACHER]"
  define env where "env = sample_env [(c, ''tok''), (renewed_claims, ''new'')]"
  have ok: "jwt_ok (en_jwt env)" by (simp add: env_def sample_env_def token_jwt_ok)
  have ne: "renewed_claims \<noteq> c"
    by (simp add: renewed_claims_def c_def sample_claims_def)
  have sign: "jwt_Sign (en_jwt env) (en_secret env) c = Inr ''tok''"
    by (simp add: env_def sample_env_def token_jwt_def)
  have claims: "new_claims (en_jwt env) (en_users env) (en_now env) (tm_db (sv_tm sample_server)) 7 = Inr renewed_claims"
    by (simp add: new_claims_def env_def sample_env_def row_db_def sample_server_def renewed_claims_def
        sample_claims_def token_jwt_def user_groups_def zero_user_def)
  obtain ck where ck: "new_auth_cookie (en_jwt env) (en_users env) (en_secret env) (en_domain env) (en_now env)
      (tm_db (sv_tm sample_server)) 7 = Inr ck" "ck_Value ck = ''new''"
    using claims ne by (simp add: new_auth_cookie_def env_def sample_env_def token_jwt_def)
  have "cl_UserID c = 7" "cl_ExpiresAt c = Some 10" "(10::time) < en_now env"
    by (simp_all add: c_def sample_claims_def env_def sample_env_def)
  with expired_token_keeps_roles [OF ok sign this(2,3) sample_cookie, of "sv_tm sample_server" ck
      "RCourseRequest \<lparr>crq_CourseID = 3\<rparr>" "en_access env []"] ck
  have "process_header env ''auth=tok'' (sv_tm sample_server) = (Ok (c, Some ck), sv_tm sample_server)"
    "check_teacher (en_access env []) (RCourseRequest \<lparr>crq_CourseID = 3\<rparr>) c = accessGranted"
    by (auto simp: sample_server_def c_def sample_claims_def is_course_teacher_def course_role_def
        get_courseID_def or_zero_def)
  moreover have "check_teacher (en_access env []) (RCourseRequest \<lparr>crq_CourseID = 3\<rparr>) renewed_claims \<noteq> accessGranted"
    by (simp add: teacher_c.grants is_course_teacher_def course_role_def renewed_claims_def sample_claims_def)
  ultimately show ?thesis using ck(2) unfolding c_def [symmetric] env_def [symmetric] Let_def by blast
qed

end
