(* ===== verification/Results.thy ===== *)
theory Results
  imports Score_Kit
begin

text \<open>
  Extraction of the results from the output of a test run, and the grade: \<open>kit/score/results.go\<close> and
  \<open>kit/score/results_markdown.go\<close>.  The scores of a run are a map that remembers the order of the test
  names (\<open>ordered_map\<close>); the grade is computed in floating point as the code does.
\<close>

section \<open>Recording scores\<close>

record results =
  rs_BuildInfo :: "build_info option"
  rs_Scores :: "score list"
  rs_testNames :: "string list"
  rs_scoreMap :: "string \<rightharpoonup> score"

definition empty_results :: results where
  "empty_results = \<lparr>rs_BuildInfo = None, rs_Scores = [], rs_testNames = [], rs_scoreMap = Map.empty\<rparr>"

definition add_score :: "results \<Rightarrow> score \<Rightarrow> results" where
  "add_score r sc =
     (let testName = sc_TestName sc
      in case rs_scoreMap r testName of
           Some current \<Rightarrow>
             (let sc' = (if sc_Score current \<noteq> 0
                         then sc\<lparr>sc_Score := -1, sc_TestDetails := ''(duplicate)''\<rparr> else sc)
              in r\<lparr>rs_scoreMap := (rs_scoreMap r)(testName \<mapsto> sc')\<rparr>)
         | None \<Rightarrow> r\<lparr>rs_testNames := rs_testNames r @ [testName],
                      rs_scoreMap := (rs_scoreMap r)(testName \<mapsto> sc)\<rparr>)"

text \<open>A name without a score would give a nil pointer, which the getters read as the zero score.\<close>

definition to_score_slice :: "results \<Rightarrow> score list" where
  "to_score_slice r =
     map (\<lambda>n. case rs_scoreMap r n of Some sc \<Rightarrow> sc | None \<Rightarrow> zero_score) (rs_testNames r)"

definition new_results :: "score list \<Rightarrow> results" where
  "new_results scores =
     (let r = fold (\<lambda>sc r. add_score r sc) scores empty_results in r\<lparr>rs_Scores := to_score_slice r\<rparr>)"

fun results_validate ::
    "frame list \<Rightarrow> string \<Rightarrow> score list \<Rightarrow> (string, score list) outcome" where
  "results_validate frames secret [] = Ok []"
| "results_validate frames secret (sc # scs) =
     bind_out (is_valid frames secret sc)
       (\<lambda>sc'. bind_out (results_validate frames secret scs) (\<lambda>scs'. Ok (sc' # scs')))"

section \<open>The grade\<close>

definition weighted_score :: "f64 \<Rightarrow> f64 \<Rightarrow> f64 \<Rightarrow> f64 \<Rightarrow> f64" where
  "weighted_score score maxScore weight totalWeight =
     fmul (fdiv score maxScore) (fdiv weight totalWeight)"

definition score_weighted :: "score \<Rightarrow> f64 \<Rightarrow> f64" where
  "score_weighted s totalWeight =
     weighted_score (f64_of_int (sc_Score s)) (f64_of_int (sc_MaxScore s)) (f64_of_int (sc_Weight s)) totalWeight"

definition task_scores :: "results \<Rightarrow> string \<Rightarrow> score list" where
  "task_scores r taskName =
     filter (\<lambda>ts. \<not> (taskName \<noteq> [] \<and> taskName \<noteq> sc_TaskName ts)) (rs_Scores r)"

definition sum_step :: "f64 \<Rightarrow> f64 \<times> f64 \<times> f64 \<Rightarrow> f64 \<Rightarrow> f64" where
  "sum_step totalWeight = (\<lambda>(score, maxScore, weight) acc.
     (let score = (if fless maxScore score then maxScore else score)
      in fadd acc (weighted_score score maxScore weight totalWeight)))"

definition internal_sum :: "results \<Rightarrow> string \<Rightarrow> f64 \<times> f64" where
  "internal_sum r taskName =
     (let ts = task_scores r taskName;
          totalWeight = fold (\<lambda>s acc. fadd acc (f64_of_int (sc_Weight s))) ts (Fin 0);
          rows = map (\<lambda>s. (f64_of_int (max (sc_Score s) 0), f64_of_int (sc_MaxScore s),
                             f64_of_int (sc_Weight s))) ts
      in (fold (sum_step totalWeight) rows (Fin 0), totalWeight))"

text \<open>\<open>None\<close> where the conversion to \<open>uint32\<close> is left to the implementation (NaN or out of range).\<close>

definition task_sum :: "results \<Rightarrow> string \<Rightarrow> u32 option" where
  "task_sum r taskName = f64_to_u32 (math_round (fmul (fst (internal_sum r taskName)) (Fin 100)))"

definition results_sum :: "results \<Rightarrow> u32 option" where
  "results_sum r = task_sum r []"

section \<open>Extraction\<close>

definition newline :: char where
  "newline = CHR 0x0A"

definition parse_errors_msg :: "string list \<Rightarrow> string" where
  "parse_errors_msg pe =
     (if pe = [] then []
      else join_on [newline] ((''failed to parse score; '' @ show_nat (length pe) @ '' occurrences'') # pe))"

record extraction =
  ex_log :: "string list"
  ex_errs :: "string list"
  ex_results :: results

text \<open>One line of the output.  An error of \<open>parse\<close> is kept and the loop goes on; a panic ends the run.\<close>

definition extract_line ::
    "(string \<Rightarrow> string + score) \<Rightarrow> frame list \<Rightarrow> string \<Rightarrow> score list \<Rightarrow> string \<Rightarrow> extraction
       \<Rightarrow> (string, extraction) outcome" where
  "extract_line unmarshal frames secret zeroScoreTests line st =
     (if is_score_line line
      then (case parse unmarshal frames line secret of
              Panic p \<Rightarrow> Panic p
            | Err e \<Rightarrow> Ok (st\<lparr>ex_errs := ex_errs st @
                  [''failed on line '' @ [CHR 0x27] @ line @ [CHR 0x27] @ '': '' @ e]\<rparr>)
            | Ok sc \<Rightarrow>
                if list_ex (\<lambda>x. sc_TestName x = sc_TestName sc) zeroScoreTests
                then Ok (st\<lparr>ex_results := add_score (ex_results st) sc\<rparr>)
                else Ok st)
      else if line \<noteq> [] then Ok (st\<lparr>ex_log := ex_log st @ [line]\<rparr>)
      else Ok st)"

fun extract_loop ::
    "(string \<Rightarrow> string + score) \<Rightarrow> frame list \<Rightarrow> string \<Rightarrow> score list \<Rightarrow> string list \<Rightarrow> extraction
       \<Rightarrow> (string, extraction) outcome" where
  "extract_loop unmarshal frames secret zs [] st = Ok st"
| "extract_loop unmarshal frames secret zs (l # ls) st =
     bind_out (extract_line unmarshal frames secret zs l st)
       (extract_loop unmarshal frames secret zs ls)"

text \<open>
  \<open>ExtractResults\<close>: the results and the errors (the empty list for a nil error).  The expected tests
  are recorded first, in their order; \<open>t1\<close> and \<open>t2\<close> are the two readings of the clock.
\<close>

definition extract_results ::
    "(string \<Rightarrow> string + score) \<Rightarrow> frame list \<Rightarrow> time \<Rightarrow> time \<Rightarrow> string \<Rightarrow> string \<Rightarrow> duration
       \<Rightarrow> score list \<Rightarrow> (string, results \<times> string list) outcome" where
  "extract_results unmarshal frames t1 t2 out secret execTime zeroScoreTests =
     bind_out (extract_loop unmarshal frames secret zeroScoreTests (split_on newline out)
         \<lparr>ex_log = [], ex_errs = [],
          ex_results = fold (\<lambda>sc r. add_score r sc) zeroScoreTests (new_results [])\<rparr>)
       (\<lambda>st. Ok (empty_results\<lparr>
            rs_BuildInfo := Some (zero_build_info\<lparr>bi_BuildDate := Some t1, bi_SubmissionDate := Some t2,
               bi_BuildLog := join_on [newline] (ex_log st), bi_ExecTime := go_div execTime 1000000\<rparr>),
            rs_Scores := to_score_slice (ex_results st)\<rparr>, ex_errs st))"

definition results_build_info :: "results option \<Rightarrow> build_info" where
  "results_build_info r =
     (case r of None \<Rightarrow> zero_build_info
      | Some r \<Rightarrow> case rs_BuildInfo r of None \<Rightarrow> zero_build_info | Some b \<Rightarrow> b)"

section \<open>Feedback comment\<close>

text \<open>The verb \<open>%.1f\<close>: the exact value rounded to one decimal, ties to even.\<close>

fun show_f1 :: "f64 \<Rightarrow> string" where
  "show_f1 NaN = ''NaN''"
| "show_f1 (Inf neg) = (if neg then ''-Inf'' else ''+Inf'')"
| "show_f1 (Fin x) =
     (let n = nat (round_even (10 * \<bar>x\<bar>))
      in (if x < 0 then ''-'' else []) @ show_nat (n div 10) @ ''.'' @ show_nat (n mod 10))"

definition markdown_row :: "f64 \<Rightarrow> score \<Rightarrow> string" where
  "markdown_row totalWeight sc =
     ''| '' @ sc_TestName sc @ '' | '' @ show_int (sc_Score sc) @ ''/'' @ show_int (sc_MaxScore sc) @ '' | '' @
     show_int (sc_Weight sc) @ '' | '' @ show_f1 (fmul (score_weighted sc totalWeight) (Fin 100)) @ ''% |'' @ [newline]"

definition markdown_comment :: "results \<Rightarrow> string \<Rightarrow> u32 \<Rightarrow> string" where
  "markdown_comment r taskLocalName scoreLimit =
     (let (tot, totalWeight) = internal_sum r taskLocalName
      in ''## Test results from latest push'' @ [newline, newline] @
         ''| Test Name | Score | Weight | % of Total |'' @ [newline] @
         ''| :-------- | ----: | -----: | ---------: |'' @ [newline] @
         concat (map (markdown_row totalWeight) (filter (\<lambda>sc. sc_TaskName sc = taskLocalName) (rs_Scores r))) @
         ''| **Total** | | | **'' @ show_f1 (fmul tot (Fin 100)) @ ''%** |'' @ [newline, newline] @
         ''Reviewers are assigned once the total score reaches '' @ show_word scoreLimit @ ''%.'' @ [newline])"

section \<open>Lemmas on recording\<close>

interpretation res: ordered_map rs_testNames rs_scoreMap sc_TestName add_score "\<lambda>_ _. True"
  by unfold_locales (auto simp: add_score_def Let_def split: option.splits)

text \<open>What a test's scores, in the order they are added, leave recorded.\<close>

definition recorded :: "int list \<Rightarrow> int option" where
  "recorded xs =
     (if xs = [] then None
      else case dropWhile (\<lambda>x. x = 0) xs of [] \<Rightarrow> Some 0 | [x] \<Rightarrow> Some x | _ \<Rightarrow> Some (-1))"

lemma dropWhile_snoc:
  "dropWhile P (xs @ [x]) =
     (if dropWhile P xs = [] then dropWhile P [x] else dropWhile P xs @ [x])"
  by (induction xs) auto

lemma recorded_snoc:
  "recorded (xs @ [x]) =
     (case recorded xs of None \<Rightarrow> Some x | Some c \<Rightarrow> Some (if c \<noteq> 0 then -1 else x))"
proof -
  define d where "d = dropWhile (\<lambda>x. x = 0) xs"
  have hd: "y \<noteq> 0" if "d = y # ys" for y ys
    using hd_dropWhile [of "\<lambda>x. x = 0" xs] that unfolding d_def by (metis list.discI list.sel(1))
  have nil: "xs = [] \<Longrightarrow> d = []" by (simp add: d_def)
  show ?thesis
    unfolding recorded_def dropWhile_snoc d_def [symmetric]
    using hd nil by (cases d) (auto split: list.splits)
qed

lemma add_score_recorded:
  "map_option sc_Score (rs_scoreMap (add_score r sc) n) =
     (if sc_TestName sc = n
      then (case map_option sc_Score (rs_scoreMap r n) of
              None \<Rightarrow> Some (sc_Score sc) | Some c \<Rightarrow> Some (if c \<noteq> 0 then -1 else sc_Score sc))
      else map_option sc_Score (rs_scoreMap r n))"
  by (auto simp: add_score_def Let_def split: option.splits)

lemma fold_add_score_recorded:
  "map_option sc_Score (rs_scoreMap (fold (\<lambda>sc r. add_score r sc) scs empty_results) n) =
     recorded (map sc_Score (filter (\<lambda>sc. sc_TestName sc = n) scs))"
proof (induction scs rule: rev_induct)
  case Nil
  show ?case by (simp add: empty_results_def recorded_def)
next
  case (snoc sc scs)
  then show ?case by (simp add: add_score_recorded recorded_snoc)
qed

text \<open>The slice has one score per recorded name, in order, each under its own name.\<close>

definition named :: "results \<Rightarrow> bool" where
  "named r \<longleftrightarrow> (\<forall>n sc. rs_scoreMap r n = Some sc \<longrightarrow> sc_TestName sc = n)"

lemma named_add_score [invs]: "named r \<Longrightarrow> named (add_score r sc)"
  by (auto simp: named_def add_score_def Let_def split: option.splits if_splits)

lemma named_adds [invs]: "named r \<Longrightarrow> named (fold (\<lambda>sc r. add_score r sc) scs r)"
  by (induction scs arbitrary: r) (auto simp: named_add_score)

lemma slice_names:
  assumes "named r" and "om_inv (rs_testNames r) (rs_scoreMap r)"
  shows "map sc_TestName (to_score_slice r) = rs_testNames r"
  using assms unfolding to_score_slice_def
  by (auto simp: named_def om_inv_def intro!: map_idI split: option.splits)

lemma empty_results_inv: "named empty_results" "om_inv (rs_testNames empty_results) (rs_scoreMap empty_results)"
  by (simp_all add: empty_results_def named_def om_inv_def)

section \<open>Lemmas on the grade\<close>

definition valid_tests :: "score list \<Rightarrow> bool" where
  "valid_tests ts \<longleftrightarrow> (\<forall>t\<in>set ts. 0 < sc_MaxScore t \<and> 0 < sc_Weight t) \<and>
     sum_list (map sc_Weight ts) < 2 ^ 53 \<and> length ts < 2 ^ 31"

text \<open>The exact grade in the range 0 to 1, without any rounding.\<close>

definition fraction :: "score \<Rightarrow> rat" where
  "fraction t = of_int (min (max (sc_Score t) 0) (sc_MaxScore t)) / of_int (sc_MaxScore t)"

definition exact_grade :: "score list \<Rightarrow> rat" where
  "exact_grade ts =
     sum_list (map (\<lambda>t. fraction t * (of_int (sc_Weight t) / of_int (sum_list (map sc_Weight ts)))) ts)"

lemma fraction_bounds: "0 < sc_MaxScore t \<Longrightarrow> 0 \<le> fraction t \<and> fraction t \<le> 1"
  by (auto simp: fraction_def divide_le_eq_1)

lemma weight_sum_nonneg: "\<forall>t\<in>set ts. 0 < sc_Weight t \<Longrightarrow> 0 \<le> sum_list (map sc_Weight ts)"
  by (induction ts) auto

lemma total_weight_exact:
  assumes "\<forall>t\<in>set ts. 0 < sc_Weight t" "0 \<le> w" "w + sum_list (map sc_Weight ts) < 2 ^ 53"
  shows "fold (\<lambda>s acc. fadd acc (f64_of_int (sc_Weight s))) ts (Fin (of_int w)) =
     Fin (of_int (w + sum_list (map sc_Weight ts)))"
  using assms
proof (induction ts arbitrary: w)
  case (Cons t ts)
  have "0 \<le> sum_list (map sc_Weight ts)" using Cons.prems(1) by (intro weight_sum_nonneg) simp
  with Cons.prems have "\<bar>w + sc_Weight t\<bar> < 2 ^ 53" by auto
  then have "rnd (of_int (w + sc_Weight t)) = of_int (w + sc_Weight t)" by (rule rnd_int)
  with Cons.IH [of "w + sc_Weight t"] Cons.prems show ?case
    by (simp add: f64_of_int_def add.assoc)
qed simp

lemma weighted_score_near:
  assumes "0 < sc_MaxScore t" "0 < sc_Weight t" "0 < W"
  shows "\<exists>x. weighted_score (Fin (of_int (min (max (sc_Score t) 0) (sc_MaxScore t))))
              (f64_of_int (sc_MaxScore t)) (f64_of_int (sc_Weight t)) (Fin (of_int W)) = Fin x \<and>
             near 3 x (fraction t * (of_int (sc_Weight t) / of_int W))"
proof -
  let ?a = "rnd (fraction t)" and ?b = "rnd (of_int (sc_Weight t) / of_int W)"
  have "near (Suc 0) ?a (fraction t)"
    by (rule near_rnd, rule near_refl) (use fraction_bounds [OF assms(1)] in simp)
  moreover have "near (Suc 0) ?b (of_int (sc_Weight t) / of_int W)"
    by (rule near_rnd, rule near_refl) (use assms in simp)
  ultimately have "near (Suc (Suc 0 + Suc 0)) (rnd (?a * ?b)) (fraction t * (of_int (sc_Weight t) / of_int W))"
    by (rule near_rnd [OF near_mult])
  moreover have "weighted_score (Fin (of_int (min (max (sc_Score t) 0) (sc_MaxScore t))))
              (f64_of_int (sc_MaxScore t)) (f64_of_int (sc_Weight t)) (Fin (of_int W)) = Fin (rnd (?a * ?b))"
    using assms by (simp add: weighted_score_def f64_of_int_def fraction_def)
  ultimately show ?thesis by (simp add: numeral_3_eq_3)
qed

lemma sum_step_row:
  "sum_step W (f64_of_int (max (sc_Score t) 0), f64_of_int (sc_MaxScore t), f64_of_int (sc_Weight t)) acc =
     fadd acc (weighted_score (Fin (of_int (min (max (sc_Score t) 0) (sc_MaxScore t))))
       (f64_of_int (sc_MaxScore t)) (f64_of_int (sc_Weight t)) W)"
proof -
  define x where "x = max (sc_Score t) 0"
  have "(if fless (f64_of_int (sc_MaxScore t)) (f64_of_int x) then f64_of_int (sc_MaxScore t) else f64_of_int x)
      = Fin (of_int (min x (sc_MaxScore t)))"
    by (simp add: f64_of_int_def min_def)
  then show ?thesis by (simp only: sum_step_def x_def [symmetric] case_prod_conv Let_def)
qed

lemma sum_near:
  assumes "\<forall>t\<in>set ts. 0 < sc_MaxScore t \<and> 0 < sc_Weight t" "0 < W" "near (3 + k) acc y"
  shows "\<exists>x. fold (\<lambda>t. sum_step (Fin (of_int W)) (f64_of_int (max (sc_Score t) 0),
                f64_of_int (sc_MaxScore t), f64_of_int (sc_Weight t))) ts (Fin acc) = Fin x \<and>
     near (3 + k + length ts) x
       (y + sum_list (map (\<lambda>t. fraction t * (of_int (sc_Weight t) / of_int W)) ts))"
  using assms(1,3)
proof (induction ts arbitrary: k acc y)
  case (Cons t ts)
  let ?f = "fraction t * (of_int (sc_Weight t) / of_int W)"
  obtain x where x: "weighted_score (Fin (of_int (min (max (sc_Score t) 0) (sc_MaxScore t))))
        (f64_of_int (sc_MaxScore t)) (f64_of_int (sc_Weight t)) (Fin (of_int W)) = Fin x"
      "near 3 x ?f"
    using weighted_score_near [of t W] Cons.prems(1) assms(2) by auto
  have "near (3 + k) x ?f" by (rule near_mono [OF x(2)]) simp
  with Cons.prems(2) have "near (Suc (3 + k)) (rnd (acc + x)) (y + ?f)"
    by (intro near_rnd near_add)
  then have "near (3 + Suc k) (rnd (acc + x)) (y + ?f)" by simp
  from Cons.IH [OF _ this] Cons.prems(1) show ?case
    by (simp add: sum_step_row x(1) add.assoc)
qed auto

lemma exact_grade_bounds:
  assumes "valid_tests ts" "ts \<noteq> []"
  shows "0 \<le> exact_grade ts \<and> exact_grade ts \<le> 1"
proof -
  define W where "W = sum_list (map sc_Weight ts)"
  have pos: "\<forall>t\<in>set ts. 0 < sc_MaxScore t \<and> 0 < sc_Weight t" using assms(1) by (simp add: valid_tests_def)
  have W: "0 < W" using pos assms(2) weight_sum_nonneg [of "tl ts"] unfolding W_def
    by (cases ts) fastforce+
  have "0 \<le> sum_list (map (\<lambda>t. fraction t * (of_int (sc_Weight t) / of_int W)) xs) \<and>
      sum_list (map (\<lambda>t. fraction t * (of_int (sc_Weight t) / of_int W)) xs)
        \<le> of_int (sum_list (map sc_Weight xs)) / of_int W"
    if "set xs \<subseteq> set ts" for xs
    using that
  proof (induction xs)
    case (Cons t xs)
    then have t: "0 \<le> fraction t" "fraction t \<le> 1" "0 < sc_Weight t"
      using pos fraction_bounds [of t] by auto
    then have "fraction t * (of_int (sc_Weight t) / of_int W) \<le> of_int (sc_Weight t) / of_int W"
      using W by (intro mult_left_le_one_le) simp_all
    with Cons t W show ?case by (simp add: add_divide_distrib)
  qed simp
  from this [of ts] W show ?thesis by (simp add: exact_grade_def W_def)
qed

lemma round_away_error: "\<bar>of_int (round_away x) - x\<bar> \<le> 1 / 2"
proof -
  have *: "\<bar>of_int \<lfloor>y + 1 / 2\<rfloor> - y\<bar> \<le> 1 / 2" for y :: rat
    using of_int_floor_le [of "y + 1 / 2"] floor_correct [of "y + 1 / 2"] by (simp only: abs_le_iff) linarith
  show ?thesis
    using * [of x] * [of "- x"]
    by (cases "0 \<le> x") (simp_all add: round_away_def algebra_simps abs_minus_commute)
qed

text \<open>The computed grade: a number close to 100 times the exact grade.\<close>

lemma task_sum_near:
  assumes "valid_tests (task_scores r name)" "task_scores r name \<noteq> []"
  shows "\<exists>x. fmul (fst (internal_sum r name)) (Fin 100) = Fin x \<and>
     \<bar>x - 100 * exact_grade (task_scores r name)\<bar> \<le> 1 / 1000"
proof -
  let ?ts = "task_scores r name"
  define W where "W = sum_list (map sc_Weight ?ts)"
  have pos: "\<forall>t\<in>set ?ts. 0 < sc_MaxScore t \<and> 0 < sc_Weight t" "W < 2 ^ 53" "length ?ts < 2 ^ 31"
    using assms(1) by (simp_all add: valid_tests_def W_def)
  have W: "0 < W" using pos(1) assms(2) weight_sum_nonneg [of "tl ?ts"] unfolding W_def
    by (cases ?ts) fastforce+
  have tw: "fold (\<lambda>s acc. fadd acc (f64_of_int (sc_Weight s))) ?ts (Fin 0) = Fin (of_int W)"
    using total_weight_exact [of ?ts 0] pos by (simp add: W_def)
  have "near (3 + 0) (0::rat) 0" by (rule near_mono [OF near_refl]) simp_all
  from sum_near [OF pos(1) W this]
  obtain x where x: "fst (internal_sum r name) = Fin x" "near (3 + length ?ts) x (exact_grade ?ts)"
    by (auto simp: internal_sum_def Let_def tw fold_map comp_def exact_grade_def W_def)
  have "near (Suc ((3 + length ?ts) + 0)) (rnd (x * 100)) (exact_grade ?ts * 100)"
    by (intro near_rnd near_mult x near_refl) simp
  then have "\<bar>rnd (x * 100) - exact_grade ?ts * 100\<bar> \<le> 1 / 1000"
    using pos(3) exact_grade_bounds [OF assms] by (intro near_error) auto
  with x(1) show ?thesis by (simp add: mult.commute)
qed

section \<open>Lemmas on the extraction\<close>

text \<open>What the loop makes of the lines of the output: the scores it accepts and the errors it keeps.\<close>

definition accepted :: "(string \<Rightarrow> string + score) \<Rightarrow> frame list \<Rightarrow> string \<Rightarrow> string list \<Rightarrow> score list" where
  "accepted unmarshal frames secret ls =
     concat (map (\<lambda>l. case parse unmarshal frames l secret of Ok sc \<Rightarrow> [sc] | _ \<Rightarrow> [])
       (filter is_score_line ls))"

definition rejected :: "(string \<Rightarrow> string + score) \<Rightarrow> frame list \<Rightarrow> string \<Rightarrow> string list \<Rightarrow> nat" where
  "rejected unmarshal frames secret ls =
     length (filter (\<lambda>l. is_score_line l \<and> (\<exists>e. parse unmarshal frames l secret = Err e)) ls)"

definition expects :: "score list \<Rightarrow> score \<Rightarrow> bool" where
  "expects zs sc \<longleftrightarrow> list_ex (\<lambda>x. sc_TestName x = sc_TestName sc) zs"

lemma extract_loop_Ok:
  assumes "extract_loop unmarshal frames secret zs ls st = Ok st'"
  shows "ex_log st' = ex_log st @ filter (\<lambda>l. \<not> is_score_line l \<and> l \<noteq> []) ls \<and>
     length (ex_errs st') = length (ex_errs st) + rejected unmarshal frames secret ls \<and>
     ex_results st' = fold (\<lambda>sc r. add_score r sc)
       (filter (expects zs) (accepted unmarshal frames secret ls)) (ex_results st)"
  using assms
proof (induction ls arbitrary: st)
  case (Cons l ls)
  then obtain st1 where st1: "extract_line unmarshal frames secret zs l st = Ok st1"
    "extract_loop unmarshal frames secret zs ls st1 = Ok st'"
    by (auto simp: bind_out_Ok_iff)
  note IH = Cons.IH [OF st1(2)]
  show ?case
  proof (cases "is_score_line l")
    case True
    with st1(1) IH show ?thesis
      by (auto simp: extract_line_def accepted_def rejected_def expects_def
          split: outcome.splits if_splits)
  next
    case False
    with st1(1) IH show ?thesis
      by (auto simp: extract_line_def accepted_def rejected_def split: if_splits)
  qed
qed (simp add: accepted_def rejected_def)

lemma extract_results_Ok:
  assumes "extract_results unmarshal frames t1 t2 out secret execTime zs = Ok (r, errs)"
  obtains st where
    "extract_loop unmarshal frames secret zs (split_on newline out)
       \<lparr>ex_log = [], ex_errs = [], ex_results = fold (\<lambda>sc r. add_score r sc) zs empty_results\<rparr> = Ok st"
    "rs_Scores r = to_score_slice (ex_results st)" "errs = ex_errs st"
    "rs_BuildInfo r = Some \<lparr>bi_ID = 0, bi_SubmissionID = 0, bi_BuildLog = join_on [newline] (ex_log st),
       bi_ExecTime = go_div execTime 1000000, bi_BuildDate = Some t1, bi_SubmissionDate = Some t2\<rparr>"
proof -
  have "new_results [] = empty_results"
    by (simp add: new_results_def empty_results_def to_score_slice_def)
  with assms that show ?thesis
    by (auto simp: extract_results_def zero_build_info_def bind_out_Ok_iff)
qed

section \<open>Properties\<close>

definition server_frame :: frame where
  "server_frame = \<lparr>fr_File = ''/quickfeed/ci/run_tests.go'',
     fr_Function = ''github.com/quickfeed/quickfeed/ci.(*RunData).RunTests'', fr_Line = 100\<rparr>"

definition extract_frame :: frame where
  "extract_frame = \<lparr>fr_File = ''/quickfeed/kit/score/results.go'',
     fr_Function = ''github.com/quickfeed/quickfeed/kit/score.ExtractResults'', fr_Line = 160\<rparr>"

lemmas frame_simps = kit_frame_def foreign_frame_def server_frame_def extract_frame_def
  has_prefix_def has_suffix_def testPkg_def scorePkg_def

text \<open>The JSON decoder of the witnesses: two lines of one test, the secret given twice.\<close>

definition sample_line :: string where
  "sample_line = CHR ''{'' # CHR 0x22 # ''Secret'' @ [CHR 0x22, CHR '':''] @ ''key''"

definition sample_decode :: "string \<Rightarrow> string + score" where
  "sample_decode l =
     (if l = sample_line
      then Inr (zero_score\<lparr>sc_Secret := ''key'', sc_TestName := ''TestA'', sc_Score := 7, sc_MaxScore := 10, sc_Weight := 1\<rparr>)
      else Inl ''bad'')"

definition sample_output :: string where
  "sample_output = ''go test'' @ newline # sample_line @ newline # ''PASS'' @ newline # sample_line"

definition sample_expected :: "score list" where
  "sample_expected =
     [zero_score\<lparr>sc_TestName := ''TestB'', sc_MaxScore := 5, sc_Weight := 1\<rparr>,
      zero_score\<lparr>sc_TestName := ''TestA'', sc_MaxScore := 10, sc_Weight := 1\<rparr>]"

text \<open>The registered tests with the accepted scores of expected tests added: the names are those of the tests, and the entry
  of each holds the recorded score.\<close>

definition all_added :: "score list \<Rightarrow> score list \<Rightarrow> results" where
  "all_added zs acc = fold (\<lambda>sc r. add_score r sc) (zs @ filter (expects zs) acc) empty_results"

lemma all_added_names:
  assumes "distinct (map sc_TestName zs)"
  shows "rs_testNames (all_added zs acc) = map sc_TestName zs"
proof -
  let ?add = "\<lambda>sc r. add_score r sc"
  have z: "rs_testNames (fold ?add zs empty_results) = map sc_TestName zs"
    using res.adds_names_fresh [OF TrueI assms, of empty_results] by (simp add: empty_results_def)
  have "sc_TestName ` set (filter (expects zs) acc) \<subseteq> sc_TestName ` set zs"
    by (auto simp: expects_def list_ex_iff) (metis image_eqI)
  then have "rs_testNames (fold ?add (filter (expects zs) acc) (fold ?add zs empty_results)) = map sc_TestName zs"
    using z by (subst res.adds_names_known) (simp_all add: res.adds_dom le_supI2)
  then show ?thesis by (simp add: all_added_def)
qed

lemma all_added_recorded:
  assumes "z \<in> set zs" and "distinct (map sc_TestName zs)"
  shows "map_option sc_Score (rs_scoreMap (all_added zs acc) (sc_TestName z)) =
    recorded (sc_Score z # map sc_Score (filter (\<lambda>sc. sc_TestName sc = sc_TestName z) acc))"
proof -
  have "filter (\<lambda>sc. sc_TestName sc = sc_TestName z) zs = [z]" using assms by (rule filter_distinct_key)
  moreover have "filter (\<lambda>sc. sc_TestName sc = sc_TestName z \<and> expects zs sc) acc =
      filter (\<lambda>sc. sc_TestName sc = sc_TestName z) acc"
    using assms(1) by (intro filter_cong) (auto simp: expects_def list_ex_iff)
  ultimately show ?thesis unfolding all_added_def fold_add_score_recorded by (simp add: conj_commute)
qed

lemma all_added_entry:
  assumes "z \<in> set zs" and "distinct (map sc_TestName zs)"
  shows "\<exists>sc. rs_scoreMap (all_added zs acc) (sc_TestName z) = Some sc \<and> sc_TestName sc = sc_TestName z \<and>
    sc_Score sc = the (recorded (sc_Score z # map sc_Score (filter (\<lambda>sc. sc_TestName sc = sc_TestName z) acc)))"
proof -
  have inv: "named (all_added zs acc)" "om_inv (rs_testNames (all_added zs acc)) (rs_scoreMap (all_added zs acc))"
    by (simp_all add: all_added_def named_adds res.adds_inv empty_results_inv)
  with assms have "rs_scoreMap (all_added zs acc) (sc_TestName z) \<noteq> None" by (auto simp: om_inv_def all_added_names)
  then obtain sc where sc: "rs_scoreMap (all_added zs acc) (sc_TestName z) = Some sc" by blast
  with inv(1) have "sc_TestName sc = sc_TestName z" by (simp add: named_def)
  with sc show ?thesis by (simp flip: all_added_recorded [OF assms])
qed

text \<open>
  C9: the results of a run have exactly one score for each expected test, in the order in which the
  tests are expected, whatever the output holds: a test keeps the score of the first line that reports
  a nonzero score, a second line after it makes the score -1, and a test without a line keeps the
  score that was expected (zero).  Scores of tests that are not expected are dropped.
\<close>

theorem extract_scores:
  assumes "extract_results unmarshal frames t1 t2 out secret execTime zs = Ok (r, errs)"
    and "distinct (map sc_TestName zs)"
  shows "map (\<lambda>sc. (sc_TestName sc, sc_Score sc)) (rs_Scores r) =
     map (\<lambda>z. (sc_TestName z, the (recorded (sc_Score z # map sc_Score
       (filter (\<lambda>sc. sc_TestName sc = sc_TestName z)
          (accepted unmarshal frames secret (split_on newline out))))))) zs"
proof -
  let ?acc = "accepted unmarshal frames secret (split_on newline out)"
  from extract_results_Ok [OF assms(1)] obtain st where
    st: "extract_loop unmarshal frames secret zs (split_on newline out)
       \<lparr>ex_log = [], ex_errs = [], ex_results = fold (\<lambda>sc r. add_score r sc) zs empty_results\<rparr> = Ok st"
    "rs_Scores r = to_score_slice (ex_results st)" by blast
  then have ex: "ex_results st = all_added zs ?acc" using extract_loop_Ok [OF st(1)] by (simp add: all_added_def)
  have entry: "(sc_TestName (case rs_scoreMap (all_added zs ?acc) (sc_TestName z) of None \<Rightarrow> zero_score | Some sc \<Rightarrow> sc),
      sc_Score (case rs_scoreMap (all_added zs ?acc) (sc_TestName z) of None \<Rightarrow> zero_score | Some sc \<Rightarrow> sc)) =
    (sc_TestName z, the (recorded (sc_Score z # map sc_Score (filter (\<lambda>sc. sc_TestName sc = sc_TestName z) ?acc))))"
    if "z \<in> set zs" for z
    using all_added_entry [OF that assms(2), of ?acc] by auto
  show ?thesis
    unfolding st(2) ex to_score_slice_def all_added_names [OF assms(2)] map_map comp_def using entry by (intro map_cong refl)
qed

text \<open>
  the build log holds the other lines of the output, in their order and without the empty ones;
  no line that reports a score, and so no secret that such a line carries, reaches it.
\<close>

lemma extract_log:
  assumes "extract_results unmarshal frames t1 t2 out secret execTime zs = Ok (r, errs)"
  shows "bi_BuildLog (results_build_info (Some r)) =
           join_on [newline] (filter (\<lambda>l. \<not> is_score_line l \<and> l \<noteq> []) (split_on newline out)) \<and>
         length errs = rejected unmarshal frames secret (split_on newline out)"
proof -
  from extract_results_Ok [OF assms] obtain st where
    "extract_loop unmarshal frames secret zs (split_on newline out)
       \<lparr>ex_log = [], ex_errs = [], ex_results = fold (\<lambda>sc r. add_score r sc) zs empty_results\<rparr> = Ok st"
    "errs = ex_errs st" "map_option bi_BuildLog (rs_BuildInfo r) = Some (join_on [newline] (ex_log st))"
    by (metis (no_types, lifting) build_info.select_convs(3) option.simps(9))
  with extract_loop_Ok [OF this(1)] show ?thesis by (auto simp: results_build_info_def)
qed

lemma sample_lines:
  "split_on newline sample_output = [''go test'', sample_line, ''PASS'', sample_line]"
  "is_score_line sample_line" "\<not> is_score_line ''go test''" "\<not> is_score_line ''PASS''"
  "contains_str sample_line ''key''"
  by code_simp+

lemma sample_run:
  "\<exists>r. extract_results sample_decode [] t1 t2 sample_output ''key'' 0 sample_expected = Ok (r, [])"
  by (simp add: sample_lines extract_results_def extract_line_def parse_def is_valid_def
      sample_decode_def sample_expected_def zero_score_def)

lemma extract_scores_witness:
  "\<exists>r. extract_results sample_decode [] 0 0 sample_output ''key'' 0 sample_expected = Ok (r, []) \<and>
     map (\<lambda>sc. (sc_TestName sc, sc_Score sc)) (rs_Scores r) = [(''TestB'', 0), (''TestA'', -1)]"
proof -
  obtain r where r: "extract_results sample_decode [] 0 0 sample_output ''key'' 0 sample_expected = Ok (r, [])"
    using sample_run by blast
  have "distinct (map sc_TestName sample_expected)" by (simp add: sample_expected_def)
  from extract_scores [OF r this] r show ?thesis
    by (simp add: sample_lines accepted_def recorded_def parse_def is_valid_def sample_decode_def
        sample_expected_def zero_score_def)
qed

lemma extract_log_witness:
  "\<exists>r. extract_results sample_decode [] 0 0 sample_output ''key'' 0 sample_expected = Ok (r, []) \<and>
     bi_BuildLog (results_build_info (Some r)) = ''go test'' @ newline # ''PASS''"
proof -
  obtain r where r: "extract_results sample_decode [] 0 0 sample_output ''key'' 0 sample_expected = Ok (r, [])"
    using sample_run by blast
  from extract_log [OF r] r show ?thesis by (simp add: sample_lines)
qed

text \<open>
  C29: for tests with positive maxima and weights (whose weights do not sum beyond the range where a
  float64 counts exactly), the grade is defined, lies between 0 and 100, and differs from 100 times the
  weighted mean of the fractions of the tests by at most the rounding to an integer and 1/1000.
\<close>

theorem task_sum_grade:
  assumes "valid_tests (task_scores r name)" and "task_scores r name \<noteq> []"
  shows "\<exists>g. task_sum r name = Some g \<and> unat g \<le> 100 \<and>
     \<bar>of_nat (unat g) - 100 * exact_grade (task_scores r name)\<bar> \<le> 1 / 2 + 1 / 1000"
proof -
  let ?e = "100 * exact_grade (task_scores r name)"
  obtain x where x: "fmul (fst (internal_sum r name)) (Fin 100) = Fin x" "\<bar>x - ?e\<bar> \<le> 1 / 1000"
    using task_sum_near [OF assms] by blast
  define n where "n = round_away x"
  have e: "0 \<le> ?e" "?e \<le> 100" using exact_grade_bounds [OF assms] by auto
  have n: "\<bar>of_int n - x\<bar> \<le> 1 / 2" unfolding n_def by (rule round_away_error)
  have "-1 < (of_int n :: rat)" "(of_int n :: rat) < 101" using n x(2) e by (simp_all only: abs_le_iff) linarith+
  then have range: "0 \<le> n" "n \<le> 100" by linarith+
  then have "task_sum r name = Some (of_int n)"
    by (simp add: task_sum_def x(1) n_def [symmetric])
  moreover have g: "unat (of_int n :: u32) = nat n"
    using range by (simp add: unsigned_of_int take_bit_int_eq_self)
  moreover have "of_nat (unat (of_int n :: u32)) = (of_int n :: rat)"
    unfolding g using range by simp
  moreover have "\<bar>of_int n - ?e\<bar> \<le> 1 / 2 + 1 / 1000" using n x(2) by (simp only: abs_le_iff) linarith
  ultimately show ?thesis using range by (intro exI [of _ "of_int n"]) simp_all
qed

lemma task_sum_grade_witness:
  "valid_tests (task_scores (empty_results\<lparr>rs_Scores := sample_expected\<rparr>) []) \<and>
   (\<exists>g. task_sum (empty_results\<lparr>rs_Scores := sample_expected\<rparr>) [] = Some g \<and> unat g \<le> 100)"
  using task_sum_grade [of "empty_results\<lparr>rs_Scores := sample_expected\<rparr>" "[]"]
  by (auto simp: task_scores_def sample_expected_def valid_tests_def zero_score_def)

lemma fold_sum_step_NaN: "fold (\<lambda>t. sum_step W (g t)) ts NaN = NaN"
  by (induction ts) (auto simp: sum_step_def split: prod.splits)

lemma sum_step_zero_max:
  "sum_step W (f64_of_int (max a 0), f64_of_int 0, w) acc = NaN"
proof -
  have "fless (f64_of_int 0) (f64_of_int (max a 0)) \<or> max a 0 = 0" by (auto simp: f64_of_int_def)
  then have "weighted_score (if fless (f64_of_int 0) (f64_of_int (max a 0)) then f64_of_int 0
      else f64_of_int (max a 0)) (f64_of_int 0) w W = NaN"
    by (cases "fdiv w W") (auto simp: weighted_score_def f64_of_int_def)
  then show ?thesis by (cases acc) (simp_all add: sum_step_def)
qed

text \<open>the grade of a run is undefined, whatever the other tests report, as soon as one of its tests
  has a maximum of zero: the division gives NaN and the conversion of NaN to an integer is left to the
  implementation.
\<close>

lemma task_sum_zero_max:
  assumes "t \<in> set (task_scores r name)" and "sc_MaxScore t = 0"
  shows "task_sum r name = None"
proof -
  obtain xs ys where ts: "task_scores r name = xs @ t # ys" using split_list [OF assms(1)] by blast
  have "fst (internal_sum r name) = NaN"
    by (simp add: internal_sum_def Let_def fold_map comp_def ts assms(2) sum_step_zero_max fold_sum_step_NaN)
  then show ?thesis by (simp add: task_sum_def)
qed

lemma task_sum_zero_max_witness:
  "task_sum (empty_results\<lparr>rs_Scores := zero_score # sample_expected\<rparr>) [] = None"
  by (rule task_sum_zero_max [of zero_score]) (simp_all add: task_scores_def zero_score_def)

lemma is_valid_foreign:
  assumes "list_all kit_frame kit" and "foreign_frame f"
  shows "is_valid (kit @ f # fs) secret sc \<noteq> Err e"
    and "is_valid (kit @ f # fs) secret sc = Panic p \<Longrightarrow> p = unauthorized_frame f"
  by (auto simp: is_valid_def Let_def fail_msg_foreign [OF assms] split: if_splits)

lemma extract_line_foreign:
  assumes "list_all kit_frame kit" and "foreign_frame f"
  shows "(\<exists>st'. extract_line unmarshal (kit @ f # fs) secret zs l st = Ok st') \<or>
     extract_line unmarshal (kit @ f # fs) secret zs l st = Panic (unauthorized_frame f)"
  by (auto simp: extract_line_def parse_def is_valid_foreign [OF assms]
      dest: is_valid_foreign(2) [OF assms] split: sum.split outcome.split)

lemma extract_loop_foreign:
  assumes "list_all kit_frame kit" and "foreign_frame f"
    and "l \<in> set ls" and "\<And>st. extract_line unmarshal (kit @ f # fs) secret zs l st = Panic (unauthorized_frame f)"
  shows "extract_loop unmarshal (kit @ f # fs) secret zs ls st = Panic (unauthorized_frame f)"
  using assms(3)
proof (induction ls arbitrary: st)
  case (Cons k ls)
  then show ?case
    using extract_line_foreign [OF assms(1,2), of unmarshal fs secret zs k st] assms(4) by auto
qed simp

text \<open>called outside a test, as the server does, the extraction does not report an invalid score line as
  an error: a line with the secret that decodes to a score without a name, with a maximum or weight of
  zero or less, out of its interval, or with another secret ends the whole extraction in a panic, since
  the first frame outside the kit is not a test.
\<close>

lemma extract_panics_on_invalid_score:
  assumes "list_all kit_frame kit" and "foreign_frame f"
    and "l \<in> set (split_on newline out)" and "is_score_line l" and "contains_str l secret"
    and "unmarshal l = Inr sc"
    and "sc_TestName sc = [] \<or> sc_MaxScore sc \<le> 0 \<or> sc_Weight sc \<le> 0 \<or> sc_Score sc < 0 \<or>
         sc_MaxScore sc < sc_Score sc \<or> sc_Secret sc \<noteq> secret"
  shows "extract_results unmarshal (kit @ f # fs) t1 t2 out secret execTime zs = Panic (unauthorized_frame f)"
proof -
  have "is_valid (kit @ f # fs) secret sc = Panic (unauthorized_frame f)"
    by (rule invalid_score_panics [OF assms(1,2,7)])
  then have "extract_line unmarshal (kit @ f # fs) secret zs l st = Panic (unauthorized_frame f)" for st
    using assms(4-6) by (simp add: extract_line_def parse_def)
  from extract_loop_foreign [OF assms(1-3) this] show ?thesis by (simp add: extract_results_def)
qed

lemma extract_panics_on_invalid_score_witness:
  "extract_results (\<lambda>_. Inr (zero_score\<lparr>sc_Secret := ''key'', sc_TestName := ''TestA'', sc_Score := 11,
       sc_MaxScore := 10, sc_Weight := 1\<rparr>)) [extract_frame, server_frame] 0 0 sample_output ''key'' 0
     sample_expected = Panic (unauthorized_frame server_frame)"
  using extract_panics_on_invalid_score [of "[extract_frame]" server_frame sample_line sample_output "''key''"
      "\<lambda>_. Inr (zero_score\<lparr>sc_Secret := ''key'', sc_TestName := ''TestA'', sc_Score := 11,
       sc_MaxScore := 10, sc_Weight := 1\<rparr>)" _ "[]" 0 0 0 sample_expected]
  by (simp add: sample_lines frame_simps zero_score_def)

end
