(* ===== verification/Run_Script.thy ===== *)
theory Run_Script
  imports Results Entities Repo Submissions
begin

text \<open>
  The job of a test run: \<open>ci/parse_script.go\<close>, \<open>ci/languages.go\<close>, \<open>ci/clone_repositories.go\<close>,
  \<open>ci/truncate.go\<close> and \<open>ci/run_tests.go\<close>.  The file system, the clone operation of the SCM client and the
  runner are arguments that say what each of the calls returns.  The text of a slice out of range is a
  panic.
\<close>

section \<open>The run script\<close>

definition parse_run_script :: "string \<Rightarrow> string + (string \<times> string \<times> string list)" where
  "parse_run_script scriptContent =
     (let ls = split_on newline scriptContent
      in if length ls < 3 then Inl ''empty run script''
         else let parts = split_str ''#image/'' (hd ls)
              in if length parts < 2 then Inl ''no docker image specified in run script''
                 else let step = (\<lambda>line (language, commands).
                        case cut_prefix line ''#language/'' of
                          Some lang \<Rightarrow> (to_lower (trim_space lang), commands)
                        | None \<Rightarrow> (language, commands @ [line]));
                      (language, commands) = fold step (tl ls) ([], [])
                   in Inr (to_lower (parts ! 1), language, commands))"

text \<open>
  What the operating system says of the files: the outcome of \<open>os.Stat\<close>, of \<open>os.ReadFile\<close> (an error or
  the bytes) and the visits of \<open>filepath.WalkDir\<close> in their order.
\<close>

datatype stat = NotExist | StatErr string | IsFile | IsDir
datatype visit = VisitErr string | VisitDir | VisitFile

record files =
  fs_stat :: "string \<Rightarrow> stat"
  fs_read :: "string \<Rightarrow> string + string"
  fs_walk :: "string \<Rightarrow> (string \<times> visit) list"

definition dir_exists :: "files \<Rightarrow> string \<Rightarrow> bool" where
  "dir_exists fs p \<longleftrightarrow> fs_stat fs p = IsDir"

text \<open>The data of a run.  \<open>None\<close> for \<open>EnvVarsFn\<close> is nil.\<close>

record run_data =
  rd_Course :: course
  rd_Assignment :: assignment
  rd_Repo :: repository
  rd_EnvVarsFn :: "(string \<Rightarrow> string \<Rightarrow> string list) option"
  rd_BranchName :: string
  rd_CommitID :: string
  rd_JobOwner :: string
  rd_Rebuild :: bool

definition run_string :: "run_data \<Rightarrow> string" where
  "run_string r =
     (let commitID = (if 7 < length (rd_CommitID r) then take 6 (rd_CommitID r) else rd_CommitID r)
      in to_lower (c_code (rd_Course r)) @ ''-'' @ a_name (rd_Assignment r) @ ''-'' @ rd_JobOwner r @
         ''-'' @ commitID)"

definition load_run_script :: "files \<Rightarrow> string \<Rightarrow> run_data \<Rightarrow> string + string" where
  "load_run_script fs repositoryPath r =
     (let courseTestsDir = path_join [course_clone_dir repositoryPath (rd_Course r), TestsRepo];
          own = path_join [courseTestsDir, a_name (rd_Assignment r), ''run.sh''];
          shared = path_join [courseTestsDir, ''scripts'', ''run.sh'']
      in if fs_stat fs own = NotExist
         then (if fs_stat fs shared = NotExist
               then Inl (''run script not found for '' @ c_code (rd_Course r) @ '': file does not exist'')
               else fs_read fs shared)
         else fs_read fs own)"

section \<open>The job\<close>

definition secretEnvName :: string where "secretEnvName = ''QUICKFEED_SESSION_SECRET''"
definition QuickFeedPath :: string where "QuickFeedPath = ''/quickfeed''"
definition GoModCache :: string where "GoModCache = ''/quickfeed-go-mod-cache''"
definition GoCache :: string where "GoCache = ''/quickfeed-go-cache''"
definition GolangciLintCache :: string where "GolangciLintCache = ''/quickfeed-golangci-lint-cache''"
definition NuGetCache :: string where "NuGetCache = ''/quickfeed-nuget-cache''"

text \<open>
  A language: the caches that are mounted, by the path inside the container, and the variables.  The
  host directory of each cache has the name of its target below the home directory.
\<close>

record language_config =
  lc_cacheDirs :: "string list"
  lc_envVars :: "string list"

definition languages :: "string \<rightharpoonup> language_config" where
  "languages =
     [''go'' \<mapsto> \<lparr>lc_cacheDirs = [GoModCache, GoCache, GolangciLintCache],
               lc_envVars = [''GOMODCACHE='' @ GoModCache, ''GOCACHE='' @ GoCache,
                             ''GOLANGCI_LINT_CACHE='' @ GolangciLintCache]\<rparr>,
      ''dotnet'' \<mapsto> \<lparr>lc_cacheDirs = [NuGetCache], lc_envVars = [''NUGET_PACKAGES='' @ NuGetCache]\<rparr>]"

text \<open>Go visits a map in an unspecified order: \<open>order\<close> is the order it takes here.\<close>

definition env_vars ::
    "(string list \<Rightarrow> string list) \<Rightarrow> string \<Rightarrow> string \<Rightarrow> string \<Rightarrow> string \<Rightarrow> string list" where
  "env_vars order sessionSecret home repoName currentAssignment =
     order
      [''HOME='' @ home,
       ''TESTS='' @ path_join [home, TestsRepo],
       ''ASSIGNMENTS='' @ path_join [home, AssignmentsRepo],
       ''SUBMITTED='' @ path_join [home, repoName],
       ''CURRENT='' @ currentAssignment,
       secretEnvName @ ''='' @ sessionSecret]"

record job =
  jb_Name :: string
  jb_Image :: string
  jb_Language :: string
  jb_BuildContext :: "(string \<times> string) list"
  jb_BindDir :: string
  jb_ReadOnlyMounts :: "(string \<times> string) list"
  jb_Env :: "string list"
  jb_Commands :: "string list"

definition default_env_vars ::
    "(string list \<Rightarrow> string list) \<Rightarrow> run_data \<Rightarrow> string \<Rightarrow> string \<Rightarrow> string list" where
  "default_env_vars order r language secret =
     env_vars order secret QuickFeedPath (repo_name (rd_Repo r)) (a_name (rd_Assignment r)) @
     (case languages language of Some cfg \<Rightarrow> lc_envVars cfg | None \<Rightarrow> [])"

text \<open>
  The function of the variables that a run makes is stored in the run data, and a second call of the
  same value uses it again, with the language of the first.
\<close>

definition parse_test_runner_script ::
    "(string list \<Rightarrow> string list) \<Rightarrow> files \<Rightarrow> string \<Rightarrow> run_data \<Rightarrow> string \<Rightarrow> string
       \<Rightarrow> string + (job \<times> run_data)" where
  "parse_test_runner_script order fs repositoryPath r secret destDir =
     bind_res (load_run_script fs repositoryPath r) (\<lambda>scriptContent.
       case parse_run_script scriptContent of
         Inl e \<Rightarrow> Inl (''failed to parse run script for assignment '' @ a_name (rd_Assignment r) @
                      '' in '' @ get_test_url (rd_Repo r) @ '': '' @ e)
       | Inr (img, language, commands) \<Rightarrow>
           (let r' = (if rd_EnvVarsFn r = None
                      then r\<lparr>rd_EnvVarsFn := Some (\<lambda>s _. default_env_vars order r language s)\<rparr> else r);
                testsDir = path_join [course_clone_dir repositoryPath (rd_Course r), TestsRepo];
                assignmentDir = path_join [course_clone_dir repositoryPath (rd_Course r), AssignmentsRepo]
            in Inr (\<lparr>jb_Name = run_string r, jb_Image = img, jb_Language = language,
                      jb_BuildContext = [], jb_BindDir = destDir,
                      jb_ReadOnlyMounts =
                        [(testsDir, path_join [QuickFeedPath, TestsRepo]),
                         (assignmentDir, path_join [QuickFeedPath, AssignmentsRepo])],
                      jb_Env = the (rd_EnvVarsFn r') secret destDir,
                      jb_Commands = commands\<rparr>, r')))"

section \<open>The repositories\<close>

record clone_options =
  co_Organization :: string
  co_Repository :: string
  co_DestDir :: string
  co_Branch :: string

text \<open>
  \<open>sc.Clone\<close> changes the files: it returns an error, or the directory of the clone and the files after it.
\<close>

type_synonym cloner = "clone_options \<Rightarrow> files \<Rightarrow> string + (string \<times> files)"

definition clone_if_missing :: "cloner \<Rightarrow> string \<Rightarrow> course \<Rightarrow> bool \<Rightarrow> string \<Rightarrow> files \<Rightarrow> string + files" where
  "clone_if_missing clone dir course there repo fs =
     (if there then Inr fs
      else case clone \<lparr>co_Organization = c_ScmOrganizationName course, co_Repository = repo,
                      co_DestDir = dir, co_Branch = []\<rparr> fs of
             Inl e \<Rightarrow> Inl (''failed to clone '' @ repo @ '' repository: '' @ e)
           | Inr (_, fs') \<Rightarrow> Inr fs')"

definition clone_missing_repositories ::
    "cloner \<Rightarrow> string \<Rightarrow> course \<Rightarrow> files \<Rightarrow> string + files" where
  "clone_missing_repositories clone repositoryPath course fs =
     (let dir = course_clone_dir repositoryPath course;
          testsExists = dir_exists fs (path_join [dir, TestsRepo]);
          assignmentsExists = dir_exists fs (path_join [dir, AssignmentsRepo])
      in if testsExists \<and> assignmentsExists then Inr fs
         else bind_res (clone_if_missing clone dir course testsExists TestsRepo fs)
                (clone_if_missing clone dir course assignmentsExists AssignmentsRepo))"

definition has_assignment :: "files \<Rightarrow> string \<Rightarrow> string \<Rightarrow> string option" where
  "has_assignment fs cloneDir currentAssignment =
     (if dir_exists fs (path_join [cloneDir, currentAssignment]) then None
      else Some (''directory '' @ cloneDir @ '' does not contain '' @ currentAssignment))"

definition run_clone :: "cloner \<Rightarrow> string \<Rightarrow> run_data \<Rightarrow> string \<Rightarrow> files \<Rightarrow> string + files" where
  "run_clone clone repositoryPath r dstDir fs =
     (case clone \<lparr>co_Organization = c_ScmOrganizationName (rd_Course r), co_Repository = repo_name (rd_Repo r),
                 co_DestDir = dstDir, co_Branch = rd_BranchName r\<rparr> fs of
        Inl e \<Rightarrow> Inl (''failed to clone '' @ c_ScmOrganizationName (rd_Course r) @ ''/'' @
                     repo_name (rd_Repo r) @ '' repository: '' @ e)
      | Inr (clonedStudentRepo, fs) \<Rightarrow>
          bind_res (clone_missing_repositories clone repositoryPath (rd_Course r) fs) (\<lambda>fs.
            (let dir = course_clone_dir repositoryPath (rd_Course r);
                 missing = List.map_filter (\<lambda>d. has_assignment fs d (a_name (rd_Assignment r)))
                   [clonedStudentRepo, path_join [dir, TestsRepo], path_join [dir, AssignmentsRepo]]
             in case missing of [] \<Rightarrow> Inr fs | e # _ \<Rightarrow> Inl e)))"

text \<open>\<open>walk\<close>: the files below a directory and their bytes; the walk stops at the first error.\<close>

fun read_visits :: "files \<Rightarrow> (string \<times> visit) list \<Rightarrow> string + (string \<times> string) list" where
  "read_visits fs [] = Inr []"
| "read_visits fs ((p, v) # vs) =
     (case v of
        VisitErr e \<Rightarrow> Inl e
      | VisitDir \<Rightarrow> read_visits fs vs
      | VisitFile \<Rightarrow> bind_res (fs_read fs p) (\<lambda>b. bind_res (read_visits fs vs) (\<lambda>rest. Inr ((p, b) # rest))))"

definition walk_files :: "files \<Rightarrow> string \<Rightarrow> string + (string \<times> string) list" where
  "walk_files fs dir =
     (if fs_stat fs dir = NotExist then Inl ''file does not exist'' else read_visits fs (fs_walk fs dir))"

text \<open>
  \<open>scanStudentRepo\<close> visits a map of the files, in an unspecified order; which of the offending files
  the message names is left open, so the result is whether there is an error, and the files named.
\<close>

definition scan_student_repo :: "files \<Rightarrow> string \<Rightarrow> string list option" where
  "scan_student_repo fs submittedDir =
     (case walk_files fs submittedDir of
        Inl e \<Rightarrow> Some []
      | Inr fcs \<Rightarrow>
          (case filter (\<lambda>(p, content). contains_str content secretEnvName) fcs of
             [] \<Rightarrow> None | bad \<Rightarrow> Some (map (path_base \<circ> fst) bad)))"

section \<open>Running the tests\<close>

text \<open>
  \<open>RunTests\<close>.  \<open>mkdir\<close> is the outcome of \<open>os.MkdirTemp\<close>, \<open>secret\<close> that of \<open>rand.String\<close>; the runner says
  what it returns for a job: the output and, if there is one, the error, with whether the error is
  \<open>ErrConflict\<close>.  The results carry the errors of the extraction, which are logged.
\<close>

datatype run_error = RunErrConflict | RunErr string

type_synonym runner = "job \<Rightarrow> string \<times> run_error option"

definition run_tests ::
    "(string list \<Rightarrow> string list) \<Rightarrow> cloner \<Rightarrow> runner \<Rightarrow> (string \<Rightarrow> string + score) \<Rightarrow> frame list
       \<Rightarrow> string \<Rightarrow> string + string \<Rightarrow> string \<Rightarrow> time \<Rightarrow> time \<Rightarrow> duration \<Rightarrow> run_data \<Rightarrow> files
       \<Rightarrow> (run_error, results \<times> string list) outcome" where
  "run_tests order clone run unmarshal frames repositoryPath mkdir secret t1 t2 execTime r fs =
     (case mkdir of
        Inl e \<Rightarrow> Err (RunErr e)
      | Inr dstDir \<Rightarrow>
     (case run_clone clone repositoryPath r dstDir fs of
        Inl e \<Rightarrow> Err (RunErr e)
      | Inr fs \<Rightarrow>
     (case scan_student_repo fs (path_join [dstDir, repo_name (rd_Repo r)]) of
        Some bad \<Rightarrow> Err (RunErr ''the student repository cannot be read or names the session secret'')
      | None \<Rightarrow>
     (case parse_test_runner_script order fs repositoryPath r secret dstDir of
        Inl e \<Rightarrow> Err (RunErr (''failed to parse run script for assignment '' @ a_name (rd_Assignment r) @
                      '' in '' @ get_test_url (rd_Repo r) @ '': '' @ e))
      | Inr (job, _) \<Rightarrow>
     (case run job of
        ([], Some RunErrConflict) \<Rightarrow> Err RunErrConflict
      | ([], Some (RunErr e)) \<Rightarrow> Err (RunErr (''test execution failed without output: '' @ e))
      | (out, _) \<Rightarrow>
          (case extract_results unmarshal frames t1 t2 out secret execTime (zero_score_tests (rd_Assignment r)) of
             Panic p \<Rightarrow> Panic p
           | Err e \<Rightarrow> Err (RunErr e)
           | Ok res \<Rightarrow> Ok res))))))"

section \<open>Truncating the output\<close>

definition truncateMsg :: string where
  "truncateMsg = newline # newline # ''... truncated output ...'' @ [newline, newline]"

definition find_score_lines :: "string \<Rightarrow> string" where
  "find_score_lines ls = join_on [newline] (filter is_score_line (split_on newline ls))"

text \<open>\<open>strings.LastIndex(s, "\n") + 1\<close>.\<close>

definition after_newline :: "string \<Rightarrow> nat" where
  "after_newline s = (case last_index newline s of None \<Rightarrow> 0 | Some i \<Rightarrow> i + 1)"

definition truncate_log :: "string \<Rightarrow> nat \<Rightarrow> nat \<Rightarrow> nat \<Rightarrow> ('e, string) outcome" where
  "truncate_log all cutAt lastSize mx =
     (if length all < cutAt \<or> length all < lastSize then Panic ''slice bounds out of range''
      else
        let startMiddle = after_newline (take cutAt all);
            startLast = after_newline (take (length all - lastSize) all)
        in if startLast < startMiddle then Panic ''slice bounds out of range''
           else
             let middle = take (startLast - startMiddle) (drop startMiddle all);
                 scoreLines = (if length middle < mx then find_score_lines middle
                               else ''too much output data to scan (skipping; fix your code)'')
             in Ok (take startMiddle all @ scoreLines @ truncateMsg @ drop startLast all))"

section \<open>Lemmas\<close>

lemma split_on_append_lines:
  "split_on d (a @ b) = butlast (split_on d a) @ split_on d (last (split_on d a) @ b)"
proof (induction a)
  case (Cons c a)
  show ?case
  proof (cases "c = d")
    case True
    with Cons show ?thesis by (simp add: split_on_nonempty)
  next
    case False
    obtain w ws where w: "split_on d a = w # ws" by (meson neq_Nil_conv split_on_nonempty)
    with False Cons show ?thesis
      by (cases ws) (auto simp: split_on_nonempty split: list.splits)
  qed
qed simp

lemma split_on_snoc_sep: "split_on d (a @ [d]) = split_on d a @ [[]]"
  by (induction a) (auto split: list.splits)

lemma split_on_full_lines: "split_on d ((a @ [d]) @ b) = split_on d a @ split_on d b"
  using split_on_append_lines [of d "a @ [d]" b] by (simp add: split_on_snoc_sep)

text \<open>A start of a line: a prefix that ends there is empty or ends with a newline.\<close>

lemma last_index_Some: "last_index d s = Some i \<Longrightarrow> \<exists>a b. s = a @ d # b \<and> length a = i \<and> d \<notin> set b"
proof (induction s arbitrary: i)
  case (Cons c s)
  show ?case
  proof (cases "last_index d s")
    case None
    with Cons.prems show ?thesis by (auto simp: last_index_None split: if_splits)
  next
    case (Some j)
    with Cons.IH [of j] obtain a b where "s = a @ d # b" "length a = j" "d \<notin> set b" by blast
    with Some Cons.prems show ?thesis by (intro exI [of _ "c # a"] exI [of _ b]) auto
  qed
qed simp

lemma after_newline_take:
  "after_newline s \<le> length s \<and>
     (after_newline s = 0 \<or> (\<exists>a. take (after_newline s) s = a @ [newline]))"
proof (cases "last_index newline s")
  case (Some i)
  from last_index_Some [OF this] obtain a b where "s = a @ newline # b" "length a = i" by blast
  with Some show ?thesis by (auto simp: after_newline_def)
qed (simp add: after_newline_def)

lemma after_newline_mono:
  assumes "m \<le> n" and "n \<le> length s"
  shows "after_newline (take m s) \<le> after_newline (take n s)"
proof (cases "last_index newline (take m s)")
  case (Some i)
  from last_index_Some [OF this] obtain a b where ab: "take m s = a @ newline # b" "length a = i" by blast
  have t: "take n s = take m s @ take (n - m) (drop m s)"
    using assms by (metis le_add_diff_inverse take_add)
  have "newline \<in> set (take n s)" using ab t by simp
  then obtain j where j: "last_index newline (take n s) = Some j"
    using last_index_None [of newline "take n s"] by auto
  from last_index_Some [OF this] obtain c d where cd: "take n s = c @ newline # d" "length c = j" "newline \<notin> set d"
    by blast
  have "i \<le> j"
  proof (rule ccontr)
    assume "\<not> i \<le> j"
    then have "d ! (i - j - 1) = newline" "i - j - 1 < length d"
      using ab cd t by (auto simp: nth_append dest: arg_cong [of _ _ "\<lambda>x. x ! i"] arg_cong [of _ _ length])
    with cd(3) show False by (metis nth_mem)
  qed
  with Some j show ?thesis by (simp add: after_newline_def)
qed (simp add: after_newline_def)

lemma split_join_on: "\<forall>w\<in>set ws. d \<notin> set w \<Longrightarrow> ws \<noteq> [] \<Longrightarrow> split_on d (join_on [d] ws) = ws"
proof (induction ws)
  case (Cons w ws)
  then show ?case by (cases ws) (auto simp: split_on_word split_on_append)
qed simp

definition whole_lines :: "string \<Rightarrow> bool" where
  "whole_lines s \<longleftrightarrow> s = [] \<or> last s = newline"

definition score_lines :: "string \<Rightarrow> string list" where
  "score_lines s = filter is_score_line (split_on newline s)"

lemma empty_no_score [simp]: "\<not> is_score_line []"
  by (rule no_brace_no_score) simp

lemma score_lines_full: "whole_lines a \<Longrightarrow> score_lines (a @ b) = score_lines a @ score_lines b"
proof (cases a rule: rev_cases)
  case (snoc c x)
  assume "whole_lines a"
  with snoc have "a = c @ [newline]" by (simp add: whole_lines_def)
  then show ?thesis by (simp add: score_lines_def split_on_full_lines split_on_snoc_sep flip: append_assoc)
qed (simp add: score_lines_def)

lemma score_lines_find: "score_lines (find_score_lines s @ newline # b) = score_lines s @ score_lines b"
proof -
  let ?ws = "filter is_score_line (split_on newline s)"
  have "score_lines (find_score_lines s) = ?ws"
  proof (cases "?ws = []")
    case False
    have "\<forall>w\<in>set ?ws. newline \<notin> set w" by (auto dest: split_on_no_sep)
    from split_join_on [OF this False] show ?thesis
      by (simp add: score_lines_def find_score_lines_def)
  next
    case True
    then show ?thesis by (simp add: score_lines_def find_score_lines_def)
  qed
  moreover have "score_lines (find_score_lines s @ newline # b) = score_lines (find_score_lines s) @ score_lines b"
    unfolding score_lines_def using split_on_full_lines [of newline "find_score_lines s" b] by simp
  ultimately show ?thesis by (simp add: score_lines_def)
qed

lemma score_lines_msg: "score_lines (tl truncateMsg @ b) = score_lines b"
proof -
  have "\<not> is_score_line ''... truncated output ...''" by (rule no_brace_no_score) simp
  then have "score_lines (tl truncateMsg) = []" "whole_lines (tl truncateMsg)"
    by (simp_all add: score_lines_def truncateMsg_def whole_lines_def newline_def)
  then show ?thesis by (simp add: score_lines_full)
qed

lemma truncateMsg_newline: "truncateMsg = newline # tl truncateMsg"
  by (simp add: truncateMsg_def)

lemma whole_take: "whole_lines (take (after_newline s) s)"
  using after_newline_take [of s] by (auto simp: whole_lines_def)

lemma whole_drop: "whole_lines (a @ b) \<Longrightarrow> whole_lines b"
  by (cases "b = []") (auto simp: whole_lines_def)

lemma truncate_log_Ok:
  assumes "cutAt + lastSize \<le> length all"
    and "after_newline (take (length all - lastSize) all) - after_newline (take cutAt all) < mx"
  shows "\<exists>r. truncate_log all cutAt lastSize mx = Ok r \<and> score_lines r = score_lines all"
proof -
  define sm where "sm = after_newline (take cutAt all)"
  define sl where "sl = after_newline (take (length all - lastSize) all)"
  define P where "P = take sm all"
  define M where "M = take (sl - sm) (drop sm all)"
  define L where "L = drop sl all"
  have le: "sm \<le> sl" unfolding sm_def sl_def using assms(1) by (intro after_newline_mono) auto
  have sm: "sm \<le> cutAt" and sl: "sl \<le> length all - lastSize"
    using after_newline_take [of "take cutAt all"] after_newline_take [of "take (length all - lastSize) all"]
    by (simp_all add: sm_def sl_def)
  have P: "whole_lines P"
    using whole_take [of "take cutAt all"] sm unfolding P_def sm_def [symmetric] by (simp add: min_def)
  have "P @ M = take sl all" unfolding P_def M_def using le by (simp add: take_add [symmetric])
  moreover have "whole_lines (take sl all)"
    using whole_take [of "take (length all - lastSize) all"] sl unfolding sl_def [symmetric] by (simp add: min_def)
  ultimately have M: "whole_lines M" using whole_drop by metis
  have all: "all = P @ M @ L"
    using \<open>P @ M = take sl all\<close> unfolding L_def by (metis append.assoc append_take_drop_id)
  have "length M < mx" using assms(2) unfolding M_def sm_def [symmetric] sl_def [symmetric] by simp
  then have "truncate_log all cutAt lastSize mx = Ok (P @ find_score_lines M @ truncateMsg @ L)"
    using assms(1) le
    by (simp add: truncate_log_def sm_def [symmetric] sl_def [symmetric] Let_def P_def M_def L_def)
  moreover have "score_lines (P @ find_score_lines M @ truncateMsg @ L) = score_lines all"
  proof -
    have "score_lines (P @ find_score_lines M @ truncateMsg @ L) =
        score_lines P @ score_lines (find_score_lines M @ newline # (tl truncateMsg @ L))"
      using P by (subst score_lines_full) (simp_all add: truncateMsg_newline [symmetric] flip: append_Cons)
    also have "\<dots> = score_lines P @ score_lines M @ score_lines L"
      by (simp add: score_lines_find score_lines_msg)
    also have "\<dots> = score_lines all" by (simp add: all score_lines_full [OF P] score_lines_full [OF M])
    finally show ?thesis .
  qed
  ultimately show ?thesis by blast
qed

section \<open>Properties\<close>

text \<open>The lines of a run script that are directives, and the language the last of them names.\<close>

definition is_directive :: "string \<Rightarrow> bool" where
  "is_directive line \<longleftrightarrow> has_prefix line ''#language/''"

definition script_language :: "string list \<Rightarrow> string" where
  "script_language ls =
     (case rev (filter is_directive ls) of
        [] \<Rightarrow> [] | d # _ \<Rightarrow> to_lower (trim_space (drop (length ''#language/'') d)))"

lemma script_fold:
  "fold (\<lambda>line (language, commands).
       case cut_prefix line ''#language/'' of
         Some lang \<Rightarrow> (to_lower (trim_space lang), commands)
       | None \<Rightarrow> (language, commands @ [line])) ls ([], []) =
     (script_language ls, filter (\<lambda>l. \<not> is_directive l) ls)"
proof (induction ls rule: rev_induct)
  case (snoc l ls)
  then show ?case
    by (cases "is_directive l") (simp_all add: script_language_def is_directive_def cut_prefix_def)
qed (simp add: script_language_def)

lemma parse_run_script_Inr:
  "parse_run_script s = Inr (img, language, commands) \<longleftrightarrow>
     3 \<le> length (split_on newline s) \<and> 2 \<le> length (split_str ''#image/'' (hd (split_on newline s))) \<and>
     img = to_lower (split_str ''#image/'' (hd (split_on newline s)) ! 1) \<and>
     language = script_language (tl (split_on newline s)) \<and>
     commands = filter (\<lambda>l. \<not> is_directive l) (tl (split_on newline s))"
  by (auto simp: parse_run_script_def Let_def script_fold not_less split: if_splits)

lemma index_of_prefix [simp]: "index_of (p @ s) p = Some 0"
  using has_prefix_append [of p s] by (cases "p @ s") auto

lemma split_str_header:
  assumes "\<not> contains_str img p" and "p \<noteq> []"
  shows "split_str p (p @ img) = [[], img]"
proof -
  obtain n where n: "length (p @ img) = Suc n" using assms(2) by (cases p) auto
  have "split_str_loop n p img = [img]"
    using assms(1) by (cases n) (auto simp: cut_def contains_str_def)
  with n show ?thesis by (simp add: split_str_def cut_def)
qed

text \<open>
  a run script that is written as its three parts is read back: the image and the language in
  lower case, and every other line as a command, in order.
\<close>

lemma parse_run_script_roundtrip:
  assumes "\<not> contains_str img ''#image/''" and "newline \<notin> set img" and "newline \<notin> set lang"
    and "\<forall>c\<in>set commands. newline \<notin> set c \<and> \<not> has_prefix c ''#language/''" and "commands \<noteq> []"
  shows "parse_run_script (join_on [newline] ((''#image/'' @ img) # (''#language/'' @ lang) # commands)) =
     Inr (to_lower img, to_lower (trim_space lang), commands)"
proof -
  let ?ls = "(''#image/'' @ img) # (''#language/'' @ lang) # commands"
  have "split_on newline (join_on [newline] ?ls) = ?ls"
    using assms by (intro split_join_on) (auto simp: newline_def)
  moreover have "split_str ''#image/'' (''#image/'' @ img) = [[], img]"
    by (rule split_str_header) (use assms(1) in simp_all)
  moreover have "is_directive (''#language/'' @ lang)" "filter is_directive commands = []"
      "filter (\<lambda>l. \<not> is_directive l) commands = commands"
    using assms(4) by (auto simp: is_directive_def has_prefix_append filter_empty_conv intro!: filter_True simp del: append_Cons)
  moreover have "3 \<le> length ?ls" using assms(5) by (cases commands) auto
  ultimately show ?thesis
    by (simp add: parse_run_script_Inr script_language_def del: append_Cons)
qed

lemma parse_run_script_roundtrip_witness:
  "parse_run_script (join_on [newline] [''#image/Quickfeed:Go'', ''#language/Go'', ''cd lab1'', ''go test'']) =
     Inr (to_lower ''Quickfeed:Go'', to_lower (trim_space ''Go''), [''cd lab1'', ''go test''])"
  using parse_run_script_roundtrip [of "''Quickfeed:Go''" "''Go''" "[''cd lab1'', ''go test'']"]
  by (simp add: newline_def has_prefix_def contains_str_def)

section \<open>Where the scores of a run come from\<close>

lemma to_score_slice_in:
  assumes "sc \<in> set (to_score_slice r)" and "named r" and "sc_Score sc \<noteq> 0"
  shows "map_option sc_Score (rs_scoreMap r (sc_TestName sc)) = Some (sc_Score sc)"
  using assms by (auto simp: to_score_slice_def named_def zero_score_def split: option.splits)

lemma recorded_pos: "recorded xs = Some x \<Longrightarrow> 0 < x \<Longrightarrow> x \<in> set xs"
proof -
  assume a: "recorded xs = Some x" "0 < x"
  have "set (dropWhile (\<lambda>x. x = 0) xs) \<subseteq> set xs" by (meson set_dropWhileD subsetI)
  with a show ?thesis by (auto simp: recorded_def split: if_splits list.splits)
qed

lemma parse_Ok:
  assumes "parse unmarshal frames l secret = Ok sc"
  shows "contains_str l secret \<and> (\<exists>sc'. unmarshal l = Inr sc' \<and> sc_Secret sc' = secret \<and>
     sc = sc'\<lparr>sc_Secret := []\<rparr> \<and> sc_Score sc' \<le> sc_MaxScore sc')"
  using assms
  by (auto simp: parse_def is_valid_def Let_def fail_msg_def bind_out_Ok_iff
      split: if_splits sum.splits)

lemma extract_results_score:
  assumes "extract_results unmarshal frames t1 t2 out secret execTime zs = Ok (res, errs)"
    and "sc \<in> set (rs_Scores res)" and "0 < sc_Score sc" and "\<forall>z\<in>set zs. sc_Score z = 0"
  shows "\<exists>l\<in>set (split_on newline out). \<exists>sc'. contains_str l secret \<and> unmarshal l = Inr sc' \<and>
     sc_Secret sc' = secret \<and> sc_TestName sc' = sc_TestName sc \<and> sc_Score sc' = sc_Score sc \<and>
     sc_Score sc' \<le> sc_MaxScore sc' \<and> expects zs sc'"
proof -
  let ?acc = "accepted unmarshal frames secret (split_on newline out)"
  from extract_results_Ok [OF assms(1)] obtain st where
    st: "extract_loop unmarshal frames secret zs (split_on newline out)
       \<lparr>ex_log = [], ex_errs = [], ex_results = fold (\<lambda>sc r. add_score r sc) zs empty_results\<rparr> = Ok st"
    "rs_Scores res = to_score_slice (ex_results st)" by blast
  define all where "all = zs @ filter (expects zs) ?acc"
  have ex: "ex_results st = fold (\<lambda>sc r. add_score r sc) all empty_results"
    using extract_loop_Ok [OF st(1)] by (simp add: all_def)
  have "map_option sc_Score (rs_scoreMap (ex_results st) (sc_TestName sc)) = Some (sc_Score sc)"
    using assms(2,3) st(2) by (intro to_score_slice_in) (simp_all add: ex named_adds empty_results_inv)
  then have "recorded (map sc_Score (filter (\<lambda>x. sc_TestName x = sc_TestName sc) all)) = Some (sc_Score sc)"
    unfolding ex fold_add_score_recorded .
  from recorded_pos [OF this assms(3)] obtain a where
    a: "a \<in> set all" "sc_TestName a = sc_TestName sc" "sc_Score a = sc_Score sc" by auto
  with assms(3,4) have a': "a \<in> set ?acc" "expects zs a" by (auto simp: all_def)
  from a'(1) obtain l where l: "l \<in> set (split_on newline out)" "parse unmarshal frames l secret = Ok a"
    by (auto simp: accepted_def split: outcome.splits)
  from parse_Ok [OF l(2)] l(1) a a'(2) show ?thesis by (force simp: expects_def)
qed

lemma zero_score_tests_zero: "\<forall>z\<in>set (zero_score_tests a). sc_Score z = 0"
  by (simp add: zero_score_tests_def zero_score_def)

lemma scan_clean:
  assumes "scan_student_repo fs dir = None"
  obtains fcs where "walk_files fs dir = Inr fcs" "\<forall>(p, content)\<in>set fcs. \<not> contains_str content secretEnvName"
  using assms by (fastforce simp: scan_student_repo_def filter_empty_conv split: sum.splits list.splits)

lemma run_tests_Ok:
  assumes "run_tests order clone run unmarshal frames repositoryPath mkdir secret t1 t2 execTime r fs = Ok res"
  obtains dstDir fs' job r' where "mkdir = Inr dstDir" "run_clone clone repositoryPath r dstDir fs = Inr fs'"
    "scan_student_repo fs' (path_join [dstDir, repo_name (rd_Repo r)]) = None"
    "parse_test_runner_script order fs' repositoryPath r secret dstDir = Inr (job, r')"
    "extract_results unmarshal frames t1 t2 (fst (run job)) secret execTime
       (zero_score_tests (rd_Assignment r)) = Ok res"
  using assms unfolding run_tests_def
  by (auto split: sum.splits option.splits prod.splits list.splits run_error.splits outcome.splits)

text \<open>
  C10: a test counts for a run only if a line of the job's output decodes to a score of that test with
  the session secret of this very run, for a test the assignment expects; and the job was only started
  after every file of the cloned student repository was read and found not to name the variable that
  holds the secret.
\<close>

theorem run_tests_needs_secret:
  assumes "run_tests order clone run unmarshal frames repositoryPath mkdir secret t1 t2 execTime r fs = Ok (res, errs)"
    and "sc \<in> set (rs_Scores res)" and "0 < sc_Score sc"
  shows "\<exists>dstDir fs' job r' fcs. mkdir = Inr dstDir \<and> run_clone clone repositoryPath r dstDir fs = Inr fs' \<and>
     walk_files fs' (path_join [dstDir, repo_name (rd_Repo r)]) = Inr fcs \<and>
     (\<forall>(p, content)\<in>set fcs. \<not> contains_str content secretEnvName) \<and>
     parse_test_runner_script order fs' repositoryPath r secret dstDir = Inr (job, r') \<and>
     (\<exists>l\<in>set (split_on newline (fst (run job))). \<exists>sc'. contains_str l secret \<and> unmarshal l = Inr sc' \<and>
        sc_Secret sc' = secret \<and> sc_TestName sc' = sc_TestName sc \<and> sc_Score sc' = sc_Score sc \<and>
        sc_Score sc' \<le> sc_MaxScore sc' \<and> sc_TestName sc' \<in> ti_TestName ` set (a_ExpectedTests (rd_Assignment r)))"
proof -
  from run_tests_Ok [OF assms(1)] obtain dstDir fs' job r' where
    run: "mkdir = Inr dstDir" "run_clone clone repositoryPath r dstDir fs = Inr fs'"
    "scan_student_repo fs' (path_join [dstDir, repo_name (rd_Repo r)]) = None"
    "parse_test_runner_script order fs' repositoryPath r secret dstDir = Inr (job, r')"
    "extract_results unmarshal frames t1 t2 (fst (run job)) secret execTime
       (zero_score_tests (rd_Assignment r)) = Ok (res, errs)" .
  from scan_clean [OF run(3)] obtain fcs where "walk_files fs' (path_join [dstDir, repo_name (rd_Repo r)]) = Inr fcs"
    "\<forall>(p, content)\<in>set fcs. \<not> contains_str content secretEnvName" .
  moreover have "expects (zero_score_tests (rd_Assignment r)) x \<longleftrightarrow>
      sc_TestName x \<in> ti_TestName ` set (a_ExpectedTests (rd_Assignment r))" for x
    by (force simp: expects_def zero_score_tests_def zero_score_def list_ex_iff image_iff)
  ultimately show ?thesis
    using run extract_results_score [OF run(5) assms(2,3) zero_score_tests_zero] by simp
qed

definition sample_files :: files where
  "sample_files =
     \<lparr>fs_stat = (\<lambda>p. if has_suffix p ''run.sh'' then IsFile else IsDir),
      fs_read = (\<lambda>p. if has_suffix p ''run.sh''
        then Inr (''#image/Go'' @ newline # ''cd lab1'' @ newline # ''go test'') else Inr ''package lab1''),
      fs_walk = (\<lambda>d. [(d, VisitDir), (d @ ''/lab1.go'', VisitFile)])\<rparr>"

definition sample_clone :: cloner where
  "sample_clone opts fs = Inr (path_join [co_DestDir opts, co_Repository opts], fs)"

definition sample_run_data :: run_data where
  "sample_run_data =
     \<lparr>rd_Course = zero_course\<lparr>c_ScmOrganizationName := ''dat''\<rparr>,
      rd_Assignment = zero_assignment\<lparr>a_name := ''lab1'', a_ExpectedTests :=
        [\<lparr>ti_ID = 1, ti_AssignmentID = 1, ti_TestName = ''TestA'', ti_MaxScore = 10, ti_Weight = 1, ti_Details = []\<rparr>]\<rparr>,
      rd_Repo = zero_repository\<lparr>r_HTMLURL := ''https://h/dat/ann-labs'', r_repoType := R_USER\<rparr>,
      rd_EnvVarsFn = None, rd_BranchName = [], rd_CommitID = ''abc'', rd_JobOwner = ''ann'', rd_Rebuild = False\<rparr>"

definition sample_job_output :: string where
  "sample_job_output = ''go test'' @ newline # sample_line"

definition sample_runner :: runner where
  "sample_runner jb = (sample_job_output, None)"

lemma sample_clone_run:
  "run_clone sample_clone ''/repos'' sample_run_data ''/tmp'' sample_files = Inr sample_files"
  by (simp add: run_clone_def sample_clone_def clone_missing_repositories_def clone_if_missing_def
      has_assignment_def dir_exists_def sample_files_def sample_run_data_def zero_defs Let_def
      List.map_filter_def) code_simp

lemma sample_script: "parse_run_script (''#image/Go'' @ newline # ''cd lab1'' @ newline # ''go test'') =
    Inr (''go'', [], [''cd lab1'', ''go test''])"
proof -
  have "split_on newline (''#image/Go'' @ newline # ''cd lab1'' @ newline # ''go test'') =
      [''#image/Go'', ''cd lab1'', ''go test'']"
    by (simp add: newline_def)
  moreover have "split_str ''#image/'' ''#image/Go'' = [[], ''Go'']"
    using split_str_header [of "''Go''" "''#image/''"] by (simp add: contains_str_def has_prefix_def)
  moreover have "to_lower ''Go'' = ''go''" by code_simp
  ultimately show ?thesis
    by (simp add: parse_run_script_Inr script_language_def is_directive_def has_prefix_def)
qed

lemma sample_load: "load_run_script sample_files ''/repos'' sample_run_data =
    Inr (''#image/Go'' @ newline # ''cd lab1'' @ newline # ''go test'')"
proof -
  have "has_suffix (path_join [path_join [course_clone_dir ''/repos'' (rd_Course sample_run_data), TestsRepo],
      a_name (rd_Assignment sample_run_data), ''run.sh'']) ''run.sh''"
    by (simp add: course_clone_dir_def sample_run_data_def zero_defs TestsRepo_def) code_simp
  then show ?thesis by (simp add: load_run_script_def sample_files_def Let_def)
qed

lemma sample_job:
  "\<exists>jb r'. parse_test_runner_script id sample_files ''/repos'' sample_run_data ''key'' ''/tmp'' = Inr (jb, r')"
  unfolding parse_test_runner_script_def sample_load bind_res.simps sample_script by (simp add: Let_def)

lemma sample_scan:
  "scan_student_repo sample_files (path_join [''/tmp'', repo_name (rd_Repo sample_run_data)]) = None"
  by code_simp

lemma sample_job_lines: "split_on newline sample_job_output = [''go test'', sample_line]"
  by code_simp

lemma sample_extract:
  "\<exists>res. extract_results sample_decode [] 0 0 sample_job_output ''key'' 0
      (zero_score_tests (rd_Assignment sample_run_data)) = Ok (res, []) \<and> map sc_Score (rs_Scores res) = [7]"
  by (simp add: extract_results_def sample_job_lines sample_lines extract_line_def parse_def is_valid_def
      sample_decode_def zero_score_tests_def sample_run_data_def zero_score_def add_score_def Let_def
      new_results_def empty_results_def to_score_slice_def)

lemma run_tests_needs_secret_witness:
  "\<exists>res sc. run_tests id sample_clone sample_runner sample_decode [] ''/repos'' (Inr ''/tmp'') ''key'' 0 0 0
      sample_run_data sample_files = Ok (res, []) \<and> sc \<in> set (rs_Scores res) \<and> 0 < sc_Score sc \<and>
    sc_TestName sc \<in> ti_TestName ` set (a_ExpectedTests (rd_Assignment sample_run_data))"
proof -
  from sample_extract obtain res where
    res: "extract_results sample_decode [] 0 0 sample_job_output ''key'' 0
      (zero_score_tests (rd_Assignment sample_run_data)) = Ok (res, [])" "map sc_Score (rs_Scores res) = [7]"
    by (elim exE conjE)
  from sample_job obtain jb r' where
    jb: "parse_test_runner_script id sample_files ''/repos'' sample_run_data ''key'' ''/tmp'' = Inr (jb, r')"
    by (elim exE)
  have run: "run_tests id sample_clone sample_runner sample_decode [] ''/repos'' (Inr ''/tmp'') ''key'' 0 0 0
      sample_run_data sample_files = Ok (res, [])"
    using res(1) by (auto simp: run_tests_def sample_clone_run sample_scan jb sample_runner_def split: list.split)
  obtain sc where sc: "sc \<in> set (rs_Scores res)" "0 < sc_Score sc"
    using res(2) by (cases "rs_Scores res") auto
  have "sc_TestName sc \<in> ti_TestName ` set (a_ExpectedTests (rd_Assignment sample_run_data))"
    using run_tests_needs_secret [OF run sc] by (elim exE conjE bexE) simp
  with run sc show ?thesis by blast
qed

end
