(* ===== verification/Docker.thy ===== *)
theory Docker
  imports Run_Script
begin

text \<open>
  The runner that executes a job in a container: \<open>ci/docker.go\<close> and \<open>ci/module_cache.go\<close>.  The client of
  the Docker daemon is a record of the calls the code makes, each a function of the daemon's state \<open>'d\<close>;
  \<open>docker_ok\<close> states what the daemon documents about the names of containers.
\<close>

section \<open>The calls of the client\<close>

record mount =
  mt_Source :: string
  mt_Target :: string
  mt_ReadOnly :: bool

record container_options =
  ct_Image :: string
  ct_User :: string
  ct_Env :: "string list"
  ct_Cmd :: "string list"
  ct_Mounts :: "mount list option"
  ct_Name :: string

datatype create_result = CreateOk string | CreateConflict string | CreateErr string

text \<open>What the two channels of \<open>ContainerWait\<close> deliver first.\<close>

datatype wait_result = WaitDeadline string | WaitErr string | WaitNil | WaitStatus int

record 'd docker_client =
  dc_image_remove :: "string \<Rightarrow> 'd \<Rightarrow> 'd"
  dc_image_build :: "string \<Rightarrow> (string \<times> string) list \<Rightarrow> 'd \<Rightarrow> (string + string list) \<times> 'd"
  dc_image_pull :: "string \<Rightarrow> 'd \<Rightarrow> string option \<times> 'd"
  dc_create :: "container_options \<Rightarrow> 'd \<Rightarrow> create_result \<times> 'd"
  dc_start :: "string \<Rightarrow> 'd \<Rightarrow> string option \<times> 'd"
  dc_wait :: "string \<Rightarrow> 'd \<Rightarrow> wait_result \<times> 'd"
  dc_stop :: "string \<Rightarrow> 'd \<Rightarrow> string option \<times> 'd"
  dc_remove :: "string \<Rightarrow> 'd \<Rightarrow> string option \<times> 'd"
  dc_logs :: "string \<Rightarrow> 'd \<Rightarrow> (string + string) \<times> 'd"

section \<open>Building the image\<close>

text \<open>
  \<open>printInfo\<close> decodes each line of the response (\<open>decode\<close> gives the error field or a decoding error) and
  stops at the first error.
\<close>

fun print_info :: "(string \<Rightarrow> string + string) \<Rightarrow> string list \<Rightarrow> string option" where
  "print_info decode [] = None"
| "print_info decode (l # ls) =
     (case decode l of
        Inl e \<Rightarrow> Some e
      | Inr err \<Rightarrow> if err \<noteq> [] then Some err else print_info decode ls)"

definition build_image ::
    "'d docker_client \<Rightarrow> (string \<Rightarrow> string + string) \<Rightarrow> job \<Rightarrow> 'd \<Rightarrow> string option \<times> 'd" where
  "build_image cl decode jb d =
     (case dc_image_build cl (jb_Image jb) (sort_key fst (jb_BuildContext jb)) d of
        (Inl e, d) \<Rightarrow> (Some e, d)
      | (Inr ls, d) \<Rightarrow> (print_info decode ls, d))"

section \<open>Creating the container\<close>

text \<open>
  \<open>hostCacheDir\<close>: the home directory (or the error of reading it) and the outcome of creating the
  directory.  The caches of a language are visited in the order of a Go map.
\<close>

definition host_cache_dir ::
    "string + string \<Rightarrow> files \<Rightarrow> (string \<Rightarrow> string option) \<Rightarrow> string \<Rightarrow> string + string" where
  "host_cache_dir home fs mkdir_all name =
     bind_res home (\<lambda>h.
       (let dir = path_join [h, name]
        in if dir_exists fs dir then Inr dir
           else case mkdir_all dir of Some e \<Rightarrow> Inl e | None \<Rightarrow> Inr dir))"

fun cache_mounts :: "(string \<Rightarrow> string + string) \<Rightarrow> string list \<Rightarrow> string + mount list" where
  "cache_mounts path_fn [] = Inr []"
| "cache_mounts path_fn (target # ts) =
     bind_res (path_fn target) (\<lambda>src.
       bind_res (cache_mounts path_fn ts) (\<lambda>ms.
         Inr (\<lparr>mt_Source = src, mt_Target = target, mt_ReadOnly = False\<rparr> # ms)))"

definition job_mounts ::
    "(string list \<Rightarrow> string list) \<Rightarrow> (string \<Rightarrow> string + string) \<Rightarrow> job \<Rightarrow> string + mount list option" where
  "job_mounts order path_fn jb =
     (if jb_BindDir jb = [] then Inr None
      else bind_res (case languages (jb_Language jb) of
                       None \<Rightarrow> Inr []
                     | Some cfg \<Rightarrow> cache_mounts path_fn (order (lc_cacheDirs cfg)))
        (\<lambda>caches. Inr (Some
          (\<lparr>mt_Source = jb_BindDir jb, mt_Target = QuickFeedPath, mt_ReadOnly = False\<rparr> # caches @
           map (\<lambda>(src, target). \<lparr>mt_Source = src, mt_Target = target, mt_ReadOnly = True\<rparr>)
             (sort_key fst (jb_ReadOnlyMounts jb))))))"

definition create_container ::
    "'d docker_client \<Rightarrow> container_options \<Rightarrow> 'd \<Rightarrow> (run_error + string) \<times> 'd" where
  "create_container cl opts d =
     (case dc_create cl opts d of
        (CreateOk i, d) \<Rightarrow> (Inr i, d)
      | (CreateConflict e, d) \<Rightarrow> (Inl RunErrConflict, d)
      | (CreateErr e, d) \<Rightarrow>
          (case dc_image_pull cl (ct_Image opts) d of
             (Some e, d) \<Rightarrow> (Inl (RunErr e), d)
           | (None, d) \<Rightarrow>
               (case dc_create cl opts d of
                  (CreateOk i, d) \<Rightarrow> (Inr i, d)
                | (CreateConflict e, d) \<Rightarrow> (Inl (RunErr e), d)
                | (CreateErr e, d) \<Rightarrow> (Inl (RunErr e), d))))"

definition create_image ::
    "'d docker_client \<Rightarrow> (string \<Rightarrow> string + string) \<Rightarrow> (string list \<Rightarrow> string list)
       \<Rightarrow> (string \<Rightarrow> string + string) \<Rightarrow> string \<Rightarrow> job \<Rightarrow> 'd \<Rightarrow> (run_error + string) \<times> 'd" where
  "create_image cl decode order path_fn user jb d =
     (if jb_Image jb = []
      then (Inl (RunErr (''no image name specified for '' @ jb_Name jb)), d)
      else
        let dockerFileContent = (case map_of (jb_BuildContext jb) ''Dockerfile'' of None \<Rightarrow> [] | Some c \<Rightarrow> c);
            (built, d) = (if dockerFileContent \<noteq> []
                          then build_image cl decode jb (dc_image_remove cl (jb_Image jb) d) else (None, d))
        in case built of
             Some e \<Rightarrow> (Inl (RunErr e), d)
           | None \<Rightarrow>
               (case job_mounts order path_fn jb of
                  Inl e \<Rightarrow> (Inl (RunErr e), d)
                | Inr mounts \<Rightarrow>
                    create_container cl
                      \<lparr>ct_Image = jb_Image jb, ct_User = user, ct_Env = jb_Env jb,
                       ct_Cmd = [''/bin/bash'', ''-c'', join_on [newline] (jb_Commands jb)],
                       ct_Mounts = mounts, ct_Name = jb_Name jb\<rparr> d))"

section \<open>Waiting for the container and reading its output\<close>

definition timeout_msg :: string where
  "timeout_msg = ''Container timeout. Please check for infinite loops or other slowness.''"

definition wait_for_container ::
    "'d docker_client \<Rightarrow> string \<Rightarrow> 'd \<Rightarrow> (string \<times> run_error option) \<times> 'd" where
  "wait_for_container cl i d =
     (case dc_wait cl i d of
        (WaitStatus st, d) \<Rightarrow> (([], None), d)
      | (WaitNil, d) \<Rightarrow> (([], None), d)
      | (WaitErr e, d) \<Rightarrow> (([], Some (RunErr e)), d)
      | (WaitDeadline e, d) \<Rightarrow>
          (case dc_stop cl i d of
             (Some stopErr, d) \<Rightarrow> (([], Some (RunErr stopErr)), d)
           | (None, d) \<Rightarrow>
               (case dc_remove cl i d of
                  (Some rmErr, d) \<Rightarrow> (([], Some (RunErr rmErr)), d)
                | (None, d) \<Rightarrow> ((timeout_msg, Some (RunErr e)), d))))"

definition maxToScan :: nat where "maxToScan = 1000000"
definition maxLogSize :: nat where "maxLogSize = 30000"
definition lastSegmentSize :: nat where "lastSegmentSize = 1000"

text \<open>The end of \<open>Docker.Run\<close>: what is returned of the output of a container.\<close>

definition container_output :: "string \<Rightarrow> ('e, string) outcome" where
  "container_output stdout =
     (if maxLogSize + lastSegmentSize < length stdout
      then truncate_log stdout maxLogSize lastSegmentSize maxToScan else Ok stdout)"


text \<open>
  \<open>Docker.Run\<close>, first with a client that is there; \<open>stdcopy\<close> extracts the standard output of the log stream of a
  container.
\<close>

definition run_with_client ::
    "'d docker_client \<Rightarrow> (string \<Rightarrow> string + string) \<Rightarrow> (string list \<Rightarrow> string list)
       \<Rightarrow> (string \<Rightarrow> string + string) \<Rightarrow> string \<Rightarrow> (string \<Rightarrow> string + string) \<Rightarrow> job \<Rightarrow> 'd
       \<Rightarrow> (unit, string \<times> run_error option) outcome \<times> 'd" where
  "run_with_client cl decode order path_fn user stdcopy jb d =
     (case create_image cl decode order path_fn user jb d of
        (Inl e, d) \<Rightarrow> (Ok ([], Some e), d)
      | (Inr i, d) \<Rightarrow>
     (case dc_start cl i d of
        (Some e, d) \<Rightarrow> (Ok ([], Some (RunErr e)), d)
      | (None, d) \<Rightarrow>
     (case wait_for_container cl i d of
        ((msg, Some e), d) \<Rightarrow> (Ok (msg, Some e), d)
      | ((_, None), d) \<Rightarrow>
     (case dc_logs cl i d of
        (Inl e, d) \<Rightarrow> (Ok ([], Some (RunErr e)), d)
      | (Inr stream, d) \<Rightarrow>
     (case dc_remove cl i d of
        (Some e, d) \<Rightarrow> (Ok ([], Some (RunErr e)), d)
      | (None, d) \<Rightarrow>
     (case stdcopy stream of
        Inl e \<Rightarrow> (Ok ([], Some (RunErr e)), d)
      | Inr stdout \<Rightarrow> (bind_out (container_output stdout) (\<lambda>out. Ok (out, None)), d)))))))"

definition docker_run ::
    "'d docker_client option \<Rightarrow> (string \<Rightarrow> string + string) \<Rightarrow> (string list \<Rightarrow> string list)
       \<Rightarrow> (string \<Rightarrow> string + string) \<Rightarrow> string \<Rightarrow> (string \<Rightarrow> string + string) \<Rightarrow> job \<Rightarrow> 'd
       \<Rightarrow> (unit, string \<times> run_error option) outcome \<times> 'd" where
  "docker_run client decode order path_fn user stdcopy jb d =
     (case client of
        None \<Rightarrow> (Ok ([], Some (RunErr (''cannot run job: '' @ jb_Name jb @ ''; docker client not initialized''))), d)
      | Some cl \<Rightarrow> run_with_client cl decode order path_fn user stdcopy jb d)"

section \<open>What the daemon documents\<close>

text \<open>
  The containers of a state by identifier, with their names.  A name is in use by at most one
  container: creating a second one does not succeed.  Only creating and removing change which
  containers there are, a container that is removed frees its name, and a call that fails changes
  nothing.  Building an image may leave containers of its own, since the code does not ask for their removal, but
  touches none of those there are.
\<close>

definition created :: "('d \<Rightarrow> string \<rightharpoonup> string) \<Rightarrow> string \<Rightarrow> 'd \<Rightarrow> create_result \<times> 'd \<Rightarrow> bool" where
  "created names name d = (\<lambda>(r, d').
     (case r of
        CreateOk i \<Rightarrow> names d i = None \<and> name \<notin> ran (names d) \<and> names d' = (names d)(i \<mapsto> name)
      | CreateConflict e \<Rightarrow> names d' = names d
      | CreateErr e \<Rightarrow> names d' = names d))"

definition keeps :: "('d \<Rightarrow> string \<rightharpoonup> string) \<Rightarrow> ('d \<Rightarrow> 'r \<times> 'd) \<Rightarrow> bool" where
  "keeps names f \<longleftrightarrow> (\<forall>d. names (snd (f d)) = names d)"

definition docker_ok :: "'d docker_client \<Rightarrow> ('d \<Rightarrow> string \<rightharpoonup> string) \<Rightarrow> bool" where
  "docker_ok cl names \<longleftrightarrow>
     (\<forall>img d. names (dc_image_remove cl img d) = names d) \<and>
     (\<forall>img fs d. names d \<subseteq>\<^sub>m names (snd (dc_image_build cl img fs d))) \<and> (\<forall>img. keeps names (dc_image_pull cl img)) \<and>
     (\<forall>i. keeps names (dc_start cl i)) \<and> (\<forall>i. keeps names (dc_wait cl i)) \<and>
     (\<forall>i. keeps names (dc_stop cl i)) \<and> (\<forall>i. keeps names (dc_logs cl i)) \<and>
     (\<forall>i d. case dc_remove cl i d of
        (None, d') \<Rightarrow> names d' = (names d)(i := None) | (Some e, d') \<Rightarrow> names d' = names d) \<and>
     (\<forall>opts d. created names (ct_Name opts) d (dc_create cl opts d))"

lemma keepsD: "keeps names f \<Longrightarrow> f d = (r, d') \<Longrightarrow> names d' = names d"
  by (metis keeps_def snd_conv)

text \<open>The laws by the equation of a call.\<close>

lemma docker_calls:
  fixes names :: "'d \<Rightarrow> string \<rightharpoonup> string"
  assumes "docker_ok cl names"
  shows "names (dc_image_remove cl img d) = names d"
    and "dc_image_build cl img fs d = (x, d') \<Longrightarrow> names d \<subseteq>\<^sub>m names d'"
    and "dc_image_pull cl img d = (r, d') \<Longrightarrow> names d' = names d"
    and "dc_start cl i d = (r, d') \<Longrightarrow> names d' = names d"
    and "dc_wait cl i d = (w, d') \<Longrightarrow> names d' = names d"
    and "dc_stop cl i d = (r, d') \<Longrightarrow> names d' = names d"
    and "dc_logs cl i d = (l, d') \<Longrightarrow> names d' = names d"
    and "dc_remove cl i d = (None, d') \<Longrightarrow> names d' = (names d)(i := None)"
    and "dc_remove cl i d = (Some e, d') \<Longrightarrow> names d' = names d"
    and "dc_create cl opts d = (c, d') \<Longrightarrow> created names (ct_Name opts) d (c, d')"
proof -
  have ok: "\<And>img d. names (dc_image_remove cl img d) = names d" "\<And>img fs d. names d \<subseteq>\<^sub>m names (snd (dc_image_build cl img fs d))"
    "\<And>img. keeps names (dc_image_pull cl img)" "\<And>i. keeps names (dc_start cl i)" "\<And>i. keeps names (dc_wait cl i)"
    "\<And>i. keeps names (dc_stop cl i)" "\<And>i. keeps names (dc_logs cl i)"
    "\<And>i d. case dc_remove cl i d of
        (None, d') \<Rightarrow> names d' = (names d)(i := None) | (Some e, d') \<Rightarrow> names d' = names d"
    "\<And>opts d. created names (ct_Name opts) d (dc_create cl opts d)"
    using assms unfolding docker_ok_def by simp_all
  show "names (dc_image_remove cl img d) = names d" by (rule ok)
  show "dc_image_build cl img fs d = (x, d') \<Longrightarrow> names d \<subseteq>\<^sub>m names d'" using ok(2) [of d img fs] by simp
  show "dc_image_pull cl img d = (r, d') \<Longrightarrow> names d' = names d" by (rule keepsD [OF ok(3)])
  show "dc_start cl i d = (r, d') \<Longrightarrow> names d' = names d" by (rule keepsD [OF ok(4)])
  show "dc_wait cl i d = (w, d') \<Longrightarrow> names d' = names d" by (rule keepsD [OF ok(5)])
  show "dc_stop cl i d = (r, d') \<Longrightarrow> names d' = names d" by (rule keepsD [OF ok(6)])
  show "dc_logs cl i d = (l, d') \<Longrightarrow> names d' = names d" by (rule keepsD [OF ok(7)])
  show "dc_remove cl i d = (None, d') \<Longrightarrow> names d' = (names d)(i := None)" using ok(8) [where i = i and d = d] by simp
  show "dc_remove cl i d = (Some e, d') \<Longrightarrow> names d' = names d" using ok(8) [where i = i and d = d] by simp
  show "dc_create cl opts d = (c, d') \<Longrightarrow> created names (ct_Name opts) d (c, d')" using ok(9) [where opts = opts and d = d] by simp
qed

lemma build_image_names:
  assumes "docker_ok cl names" and "build_image cl decode jb d = (r, d')"
  shows "names d \<subseteq>\<^sub>m names d'"
  using assms(2) docker_calls(2) [OF assms(1)] by (auto simp: build_image_def split: prod.splits sum.splits)

text \<open>\<open>createImage\<close> makes one container, with the name of the job, or none, beside those of a build.\<close>

definition builds_image :: "job \<Rightarrow> bool" where
  "builds_image jb \<longleftrightarrow> (case map_of (jb_BuildContext jb) ''Dockerfile'' of None \<Rightarrow> False | Some c \<Rightarrow> c \<noteq> [])"

definition made :: "('d \<Rightarrow> string \<rightharpoonup> string) \<Rightarrow> string \<Rightarrow> (string \<rightharpoonup> string) \<Rightarrow> (run_error + string) \<times> 'd \<Rightarrow> bool" where
  "made names name B = (\<lambda>(r, d').
     (case r of
        Inr i \<Rightarrow> B i = None \<and> name \<notin> ran B \<and> names d' = B(i \<mapsto> name)
      | Inl e \<Rightarrow> names d' = B))"

lemma made_simps [simp]:
  "made names name B (Inl e, d') \<longleftrightarrow> names d' = B"
  "made names name B (Inr i, d') \<longleftrightarrow> B i = None \<and> name \<notin> ran B \<and> names d' = B(i \<mapsto> name)"
  by (simp_all add: made_def)

lemma create_container_made:
  assumes "docker_ok cl names"
  shows "made names (ct_Name opts) (names d) (create_container cl opts d)"
proof -
  obtain c d1 where c: "dc_create cl opts d = (c, d1)" by fastforce
  note k = docker_calls(10) [OF assms c]
  obtain p d2 where p: "dc_image_pull cl (ct_Image opts) d1 = (p, d2)" by fastforce
  obtain c' d3 where c': "dc_create cl opts d2 = (c', d3)" by fastforce
  note k' = docker_calls(10) [OF assms c'] and pull = docker_calls(3) [OF assms p]
  show ?thesis
    using k k' pull
    by (cases c; cases p; cases c') (simp_all add: create_container_def c p c' created_def)
qed

lemma create_image_made:
  assumes "docker_ok cl names"
  shows "\<exists>B. names d \<subseteq>\<^sub>m B \<and> (\<not> builds_image jb \<longrightarrow> B = names d) \<and>
    made names (jb_Name jb) B (create_image cl decode order path_fn user jb d)"
proof -
  define b where "b = build_image cl decode jb (dc_image_remove cl (jb_Image jb) d)"
  obtain r d1 where r: "b = (r, d1)" by fastforce
  have grows: "names d \<subseteq>\<^sub>m names d1"
    using build_image_names [OF assms] docker_calls(1) [OF assms] r unfolding b_def by metis
  note made = create_container_made [OF assms, of "\<lparr>ct_Image = _, ct_User = _, ct_Env = _, ct_Cmd = _, ct_Mounts = _, ct_Name = jb_Name jb\<rparr>",
      simplified]
  show ?thesis
  proof (cases "jb_Image jb \<noteq> [] \<and> builds_image jb")
    case True
    then have "made names (jb_Name jb) (names d1) (create_image cl decode order path_fn user jb d)"
      using made [where d = d1]
      by (auto simp: create_image_def Let_def b_def [symmetric] r builds_image_def split: option.splits sum.split)
    with grows True show ?thesis by blast
  next
    case False
    then have "made names (jb_Name jb) (names d) (create_image cl decode order path_fn user jb d)"
      using made [where d = d]
      by (auto simp: create_image_def Let_def builds_image_def split: option.splits sum.split)
    then show ?thesis by (intro exI [of _ "names d"]) simp
  qed
qed

section \<open>Lemmas on a run\<close>

lemma container_output_Ok: "\<exists>r. container_output s = Ok r"
proof -
  have "after_newline (take maxLogSize s) \<le> after_newline (take (length s - lastSegmentSize) s)"
    if "maxLogSize + lastSegmentSize < length s"
    using that by (intro after_newline_mono) auto
  then show ?thesis by (auto simp: container_output_def truncate_log_def Let_def)
qed

lemma wait_names:
  assumes "docker_ok cl names" and "wait_for_container cl i d = ((msg, err), d')"
  shows "names d' = names d \<and> msg = [] \<or> names d' = (names d)(i := None) \<and> err \<noteq> None"
  using assms(2) docker_calls(5,6,8,9) [OF assms(1)]
  by (auto simp: wait_for_container_def split: prod.splits wait_result.splits option.splits)

text \<open>What follows the start of a container \<open>i\<close> keeps the other containers, and ends without \<open>i\<close> or with an error.\<close>

definition ended :: "('d \<Rightarrow> string \<rightharpoonup> string) \<Rightarrow> string \<Rightarrow> 'd \<Rightarrow> (unit, string \<times> run_error option) outcome \<times> 'd \<Rightarrow> bool" where
  "ended names i d = (\<lambda>(r, d').
     (\<exists>out err. r = Ok (out, err) \<and>
        (names d' = (names d)(i := None) \<or> names d' = names d \<and> out = [] \<and> err \<noteq> None)))"

lemma docker_run_ended:
  assumes "docker_ok cl names" and "create_image cl decode order path_fn user jb d = (Inr i, d1)"
  shows "ended names i d1 (run_with_client cl decode order path_fn user stdcopy jb d)"
proof -
  obtain st d2 where st: "dc_start cl i d1 = (st, d2)" by fastforce
  obtain msg err d3 where w: "wait_for_container cl i d2 = ((msg, err), d3)" by (metis surj_pair)
  obtain l d4 where l: "dc_logs cl i d3 = (l, d4)" by fastforce
  obtain rm d5 where rm: "dc_remove cl i d4 = (rm, d5)" by fastforce
  note k = docker_calls(4) [OF assms(1) st] wait_names [OF assms(1) w] docker_calls(7) [OF assms(1) l]
  have r: "names d5 = (case rm of None \<Rightarrow> (names d4)(i := None) | Some e \<Rightarrow> names d4)"
    using docker_calls(8,9) [OF assms(1)] rm by (cases rm) auto
  obtain out where out: "(container_output stdout :: (unit, string) outcome) = Ok (out stdout)" for stdout
    using container_output_Ok by metis
  show ?thesis
    using k r
    by (cases st; cases err; cases l; cases rm)
      (auto simp: run_with_client_def assms(2) st w l rm ended_def out split: sum.split)
qed

section \<open>A daemon\<close>

text \<open>
  An instance of the client: the state is the list of containers, with their names and images; an
  image named \<open>bad\<close> does not start.
\<close>

definition list_names :: "(string \<times> string \<times> string) list \<Rightarrow> string \<rightharpoonup> string" where
  "list_names d = map_of (map (\<lambda>(i, n, img). (i, n)) d)"

definition list_docker :: "(string \<times> string \<times> string) list docker_client" where
  "list_docker =
     \<lparr>dc_image_remove = (\<lambda>img d. d), dc_image_build = (\<lambda>img fs d. (Inr [], d)), dc_image_pull = (\<lambda>img d. (None, d)),
      dc_create = (\<lambda>opts d.
        if ct_Name opts \<in> set (map (\<lambda>(i, n, img). n) d) \<or> ct_Name opts \<in> set (map fst d) then (CreateConflict ''name in use'', d)
        else (CreateOk (ct_Name opts), (ct_Name opts, ct_Name opts, ct_Image opts) # d)),
      dc_start = (\<lambda>i d. (if \<exists>(j, n, img)\<in>set d. j = i \<and> img = ''bad'' then Some ''start failed'' else None, d)),
      dc_wait = (\<lambda>i d. (WaitStatus 0, d)), dc_stop = (\<lambda>i d. (None, d)),
      dc_remove = (\<lambda>i d. (None, filter (\<lambda>c. fst c \<noteq> i) d)), dc_logs = (\<lambda>i d. (Inr ''ok'', d))\<rparr>"

lemma list_names_filter: "list_names (filter (\<lambda>c. fst c \<noteq> i) d) = (list_names d)(i := None)"
  by (induction d) (auto simp: list_names_def fun_eq_iff)

lemma ran_list_names: "x \<in> ran (list_names d) \<Longrightarrow> x \<in> set (map (\<lambda>(i, n, img). n) d)"
  unfolding list_names_def by (auto simp: ran_def dest!: map_of_SomeD) force

lemma list_names_None: "x \<notin> set (map fst d) \<Longrightarrow> list_names d x = None"
  by (induction d) (auto simp: list_names_def)

lemma list_docker_ok: "docker_ok list_docker list_names"
  unfolding docker_ok_def list_docker_def
  by (auto simp: keeps_def created_def list_names_filter list_names_None dest: ran_list_names)
    (simp add: list_names_def)

definition sample_docker_job :: "string \<Rightarrow> job" where
  "sample_docker_job img =
     \<lparr>jb_Name = ''dat-lab1-ann-abc'', jb_Image = img, jb_Language = ''go'', jb_BuildContext = [],
      jb_BindDir = [], jb_ReadOnlyMounts = [], jb_Env = [], jb_Commands = [''go test'']\<rparr>"

lemma sample_create:
  "create_image list_docker (\<lambda>_. Inr []) id (\<lambda>_. Inr []) ''1:1'' (sample_docker_job img) [] =
     (if img = [] then (Inl (RunErr ''no image name specified for dat-lab1-ann-abc''), [])
      else (Inr ''dat-lab1-ann-abc'', [(''dat-lab1-ann-abc'', ''dat-lab1-ann-abc'', img)]))"
  by (simp add: create_image_def sample_docker_job_def list_docker_def job_mounts_def create_container_def)

section \<open>Properties\<close>



text \<open>when a container is created but does not start, it stays; from then on, until somebody else
  removes it, every run of a job with the same name (the same commit of the same assignment, pushed
  or rebuilt) fails without output, and leaves it in place.
\<close>

lemma docker_run_stuck:
  assumes "docker_ok cl names"
    and "create_image cl decode order path_fn user jb d = (Inr i, d1)"
    and "dc_start cl i d1 = (Some e, d2)"
    and "jb_Name jb' = jb_Name jb" and "names d3 = names d2"
  shows "docker_run (Some cl) decode order path_fn user stdcopy jb d = (Ok ([], Some (RunErr e)), d2) \<and>
     (\<exists>err d4. docker_run (Some cl) decode order path_fn user stdcopy jb' d3 = (Ok ([], Some err), d4) \<and>
        names d2 \<subseteq>\<^sub>m names d4)"
proof -
  have run: "docker_run (Some cl) decode order path_fn user stdcopy jb d = (Ok ([], Some (RunErr e)), d2)"
    using assms(2,3) by (simp add: docker_run_def run_with_client_def)
  obtain B0 where "names d1 = B0(i \<mapsto> jb_Name jb)"
    using create_image_made [OF assms(1), of d jb decode order path_fn user] by (auto simp: assms(2))
  with docker_calls(4) [OF assms(1,3)] assms(4,5) have used: "jb_Name jb' \<in> ran (names d3)" by (auto simp: ran_def)
  obtain c d4 where c: "create_image cl decode order path_fn user jb' d3 = (c, d4)" by fastforce
  from create_image_made [OF assms(1), of d3 jb' decode order path_fn user, unfolded c] obtain B where
    B: "names d3 \<subseteq>\<^sub>m B" and m: "made names (jb_Name jb') B (c, d4)" by blast
  from used B have "jb_Name jb' \<in> ran B" by (force simp: ran_def map_le_def)
  with m obtain err where "c = Inl err" by (cases c) auto
  with m c assms(5) B have "docker_run (Some cl) decode order path_fn user stdcopy jb' d3 = (Ok ([], Some err), d4)"
      "names d2 \<subseteq>\<^sub>m names d4"
    by (simp_all add: docker_run_def run_with_client_def)
  with run show ?thesis by blast
qed

lemma docker_run_stuck_witness:
  "\<exists>err d4. docker_run (Some list_docker) (\<lambda>_. Inr []) id (\<lambda>_. Inr []) ''1:1'' Inr (sample_docker_job ''go'')
      [(''dat-lab1-ann-abc'', ''dat-lab1-ann-abc'', ''bad'')] = (Ok ([], Some err), d4)"
proof -
  let ?d = "[(''dat-lab1-ann-abc'', ''dat-lab1-ann-abc'', ''bad'')]"
  have c: "create_image list_docker (\<lambda>_. Inr []) id (\<lambda>_. Inr []) ''1:1'' (sample_docker_job ''bad'') [] =
      (Inr ''dat-lab1-ann-abc'', ?d)"
    by (simp add: sample_create)
  have st: "dc_start list_docker ''dat-lab1-ann-abc'' ?d = (Some ''start failed'', ?d)"
    by (simp add: list_docker_def)
  have n: "jb_Name (sample_docker_job ''go'') = jb_Name (sample_docker_job ''bad'')"
    by (simp add: sample_docker_job_def)
  from docker_run_stuck [OF list_docker_ok c st n refl, of Inr] show ?thesis by blast
qed

text \<open>
  truncating the output of a container loses no score: for an output below the size that is scanned,
  what the runner returns has the same score lines in the same order, and so the extraction accepts
  the same scores from it.
\<close>

lemma container_output_keeps_scores:
  assumes "length stdout < maxToScan"
  shows "\<exists>r. container_output stdout = (Ok r :: (string, string) outcome) \<and>
     filter is_score_line (split_on newline r) = filter is_score_line (split_on newline stdout) \<and>
     accepted unmarshal frames secret (split_on newline r) = accepted unmarshal frames secret (split_on newline stdout)"
proof (cases "maxLogSize + lastSegmentSize < length stdout")
  case True
  have "after_newline (take (length stdout - lastSegmentSize) stdout) \<le> length stdout"
    using after_newline_take [of "take (length stdout - lastSegmentSize) stdout"] by (simp, linarith)
  with assms have "after_newline (take (length stdout - lastSegmentSize) stdout) -
      after_newline (take maxLogSize stdout) < maxToScan" by linarith
  with True obtain r where "truncate_log stdout maxLogSize lastSegmentSize maxToScan = (Ok r :: (string, string) outcome)"
      "score_lines r = score_lines stdout"
    using truncate_log_Ok [of maxLogSize lastSegmentSize stdout maxToScan] by auto
  with True show ?thesis by (simp add: container_output_def score_lines_def accepted_def)
qed (simp add: container_output_def accepted_def)

lemma container_output_keeps_scores_witness:
  "\<exists>r. container_output sample_output = (Ok r :: (string, string) outcome) \<and>
     filter is_score_line (split_on newline r) = [sample_line, sample_line]"
proof -
  have "length sample_output < 1000" by (simp add: sample_output_def sample_line_def)
  then have "length sample_output < maxToScan" by (simp add: maxToScan_def)
  from container_output_keeps_scores [OF this, of undefined "[]" "[]"] show ?thesis
    by (auto simp: sample_lines)
qed


end
