(* ===== verification/Submission_Store.thy ===== *)
theory Submission_Store
  imports Submissions Slip_Days
begin

text \<open>
  Submissions and reviews in the database: \<open>database/gormdb_submission.go\<close>.  The statements that the
  code has GORM execute are a record of functions of the database's state \<open>'d\<close>; a query by example is
  the message itself, whose zero fields match everything.  \<open>sub_db_ok\<close> states what GORM and SQL document
  of these statements, over the rows that a view of the state shows.  A statement that fails leaves
  the state as it was, and an error in a transaction rolls it back to where the transaction began.
\<close>

section \<open>Errors and statements\<close>

datatype db_error =
    RecordNotFound
  | InvalidSubmission
  | InvalidAssignmentID
  | AllReviewsCreated u64 string u32
  | EmptyReviewID
  | EmptyGroup
  | DuplicateGroup
  | UpdateGroupErr
  | CourseExists
  | InsufficientAccess
  | CreateRepo
  | NotEnrolled
  | IncompleteProfile string
  | InvalidCourseRelation
  | Failed string

record 'd sub_db =
  sq_user_count :: "u64 \<Rightarrow> 'd \<Rightarrow> db_error + nat"
  sq_group_count :: "u64 \<Rightarrow> 'd \<Rightarrow> db_error + nat"
  sq_assignment_count :: "u64 \<Rightarrow> 'd \<Rightarrow> db_error + nat"
  sq_last :: "submission \<Rightarrow> 'd \<Rightarrow> db_error + submission"
  sq_find :: "submission \<Rightarrow> 'd \<Rightarrow> db_error + submission list"
  sq_first :: "u64 \<Rightarrow> 'd \<Rightarrow> db_error + submission"
  sq_delete_scores :: "u64 \<Rightarrow> 'd \<Rightarrow> db_error + 'd"
  sq_delete_build_infos :: "u64 \<Rightarrow> 'd \<Rightarrow> db_error + 'd"
  sq_members :: "u64 \<Rightarrow> 'd \<Rightarrow> u64 list"
  sq_assignment :: "assignment \<Rightarrow> 'd \<Rightarrow> db_error + assignment"
  sq_course_assignments :: "u64 \<Rightarrow> 'd \<Rightarrow> db_error + assignment list"
  sq_benchmarks :: "u64 \<Rightarrow> 'd \<Rightarrow> db_error + benchmark list"
  sq_criteria :: "u64 \<Rightarrow> 'd \<Rightarrow> db_error + criterion list"
  sq_save :: "submission \<Rightarrow> 'd \<Rightarrow> db_error + (submission \<times> 'd)"
  sq_update :: "submission \<Rightarrow> 'd \<Rightarrow> db_error + 'd"
  sq_create_review :: "review \<Rightarrow> 'd \<Rightarrow> db_error + (review \<times> 'd)"

section \<open>Submissions\<close>

definition get_submission :: "'d sub_db \<Rightarrow> submission \<Rightarrow> 'd \<Rightarrow> db_error + submission" where
  "get_submission db query d = sq_last db query d"

definition update_submission :: "'d sub_db \<Rightarrow> submission \<Rightarrow> 'd \<Rightarrow> db_error + 'd" where
  "update_submission db query d = sq_update db query d"

text \<open>\<open>check\<close>: exactly one owner, which exists together with the assignment.\<close>

definition check_submission :: "'d sub_db \<Rightarrow> submission \<Rightarrow> 'd \<Rightarrow> db_error + unit" where
  "check_submission db s d =
     (if s_AssignmentID s < 1 then Inl InvalidAssignmentID
      else if 0 < s_userID s \<and> 0 < s_groupID s then Inl InvalidSubmission
      else if \<not> 0 < s_userID s \<and> \<not> 0 < s_groupID s then Inl InvalidSubmission
      else bind_res (if 0 < s_userID s then sq_user_count db (s_userID s) d
                     else sq_group_count db (s_groupID s) d)
        (\<lambda>idCount. bind_res (sq_assignment_count db (s_AssignmentID s) d)
          (\<lambda>n. if n + idCount \<noteq> 2 then Inl RecordNotFound else Inr ())))"

text \<open>\<open>setGrades\<close>; a nil slice of grades is the empty list.\<close>

definition set_grades :: "'d sub_db \<Rightarrow> submission \<Rightarrow> 'd \<Rightarrow> db_error + submission" where
  "set_grades db s d =
     (let userIDs = (if 0 < s_userID s then [s_userID s] else []);
          userIDs = (if 0 < s_groupID s then sq_members db (s_groupID s) d else userIDs);
          s = (if s_Grades s = []
               then s\<lparr>s_Grades := map (\<lambda>u. \<lparr>gr_SubmissionID = 0, gr_UserID = u, gr_Status = S_NONE\<rparr>) userIDs\<rparr>
               else s)
      in bind_res (sq_assignment db (zero_assignment\<lparr>a_ID := s_AssignmentID s\<rparr>) d)
           (\<lambda>a. Inr (set_grades_if_approved s a (s_score s))))"

definition link_results :: "submission \<Rightarrow> submission" where
  "link_results s =
     s\<lparr>s_BuildInfo := map_option (\<lambda>b. b\<lparr>bi_SubmissionID := s_ID s\<rparr>) (s_BuildInfo s),
       s_Scores := map (\<lambda>sc. sc\<lparr>sc_SubmissionID := s_ID s\<rparr>) (s_Scores s)\<rparr>"

definition owner_query :: "submission \<Rightarrow> submission" where
  "owner_query s =
     zero_submission\<lparr>s_AssignmentID := s_AssignmentID s, s_userID := s_userID s, s_groupID := s_groupID s\<rparr>"

definition save_results :: "'d sub_db \<Rightarrow> submission \<Rightarrow> 'd \<Rightarrow> db_error + (submission \<times> 'd)" where
  "save_results db s d =
     (if s_ID s \<noteq> 0
      then bind_res (sq_first db (s_ID s) d) (\<lambda>_.
           bind_res (sq_delete_scores db (s_ID s) d) (\<lambda>d.
           bind_res (sq_delete_build_infos db (s_ID s) d) (\<lambda>d. sq_save db (link_results s) d)))
      else bind_res (set_grades db s d) (\<lambda>s. sq_save db s d))"

definition create_submission :: "'d sub_db \<Rightarrow> submission \<Rightarrow> 'd \<Rightarrow> db_error + (submission \<times> 'd)" where
  "create_submission db s d =
     bind_res (check_submission db s d) (\<lambda>_.
       case sq_last db (owner_query s) d of
         Inl e \<Rightarrow> if e \<noteq> RecordNotFound then Inl e else save_results db s d
       | Inr _ \<Rightarrow> save_results db s d)"

definition get_last_submission :: "'d sub_db \<Rightarrow> u64 \<Rightarrow> submission \<Rightarrow> 'd \<Rightarrow> db_error + submission" where
  "get_last_submission db courseID query d =
     bind_res (get_submission db query d) (\<lambda>s.
     bind_res (sq_assignment db (zero_assignment\<lparr>a_ID := s_AssignmentID s, a_CourseID := courseID\<rparr>) d) (\<lambda>_.
       Inr s))"

fun last_submissions :: "'d sub_db \<Rightarrow> submission \<Rightarrow> assignment list \<Rightarrow> 'd \<Rightarrow> db_error + submission list" where
  "last_submissions db query [] d = Inr []"
| "last_submissions db query (a # as) d =
     (case get_submission db (query\<lparr>s_AssignmentID := a_ID a\<rparr>) d of
        Inl e \<Rightarrow> if e = RecordNotFound then last_submissions db query as d else Inl e
      | Inr s \<Rightarrow> bind_res (last_submissions db query as d) (\<lambda>ss. Inr (s # ss)))"

definition get_last_submissions :: "'d sub_db \<Rightarrow> u64 \<Rightarrow> submission \<Rightarrow> 'd \<Rightarrow> db_error + submission list" where
  "get_last_submissions db courseID query d =
     bind_res (sq_course_assignments db courseID d) (\<lambda>as. last_submissions db query as d)"

definition get_submissions :: "'d sub_db \<Rightarrow> submission \<Rightarrow> 'd \<Rightarrow> db_error + submission list" where
  "get_submissions db query d =
     bind_res (sq_assignment db (zero_assignment\<lparr>a_ID := s_AssignmentID query\<rparr>) d) (\<lambda>_. sq_find db query d)"

section \<open>Reviews\<close>

fun with_criteria :: "'d sub_db \<Rightarrow> benchmark list \<Rightarrow> 'd \<Rightarrow> db_error + benchmark list" where
  "with_criteria db [] d = Inr []"
| "with_criteria db (b # bs) d =
     bind_res (sq_criteria db (bm_ID b) d) (\<lambda>cs.
       bind_res (with_criteria db bs d) (\<lambda>bs'. Inr (b\<lparr>bm_criteria := cs\<rparr> # bs')))"

text \<open>\<open>GetBenchmarks\<close>: the benchmarks of the assignment that belong to no review.\<close>

definition get_benchmarks :: "'d sub_db \<Rightarrow> assignment \<Rightarrow> 'd \<Rightarrow> db_error + benchmark list" where
  "get_benchmarks db query d =
     bind_res (sq_assignment db query d) (\<lambda>a.
       bind_res (sq_benchmarks db (a_ID a) d) (\<lambda>bs. with_criteria db bs d))"

definition reset_benchmark :: "benchmark \<Rightarrow> benchmark" where
  "reset_benchmark bm = bm\<lparr>bm_ID := 0, bm_criteria := map (\<lambda>c. c\<lparr>cr_ID := 0\<rparr>) (bm_criteria bm)\<rparr>"

definition create_review :: "'d sub_db \<Rightarrow> time \<Rightarrow> review \<Rightarrow> 'd \<Rightarrow> db_error + (review \<times> 'd)" where
  "create_review db now query d =
     bind_res (get_submission db (zero_submission\<lparr>s_ID := rv_SubmissionID query\<rparr>) d) (\<lambda>s.
     bind_res (sq_assignment db (zero_assignment\<lparr>a_ID := s_AssignmentID s\<rparr>) d) (\<lambda>a.
       if unat (a_reviewers a) \<le> length (s_reviews s)
       then Inl (AllReviewsCreated (s_ID s) (a_name a) (a_reviewers a))
       else let query = compute_score (query\<lparr>rv_edited := Some now\<rparr>)
            in bind_res (get_benchmarks db (zero_assignment\<lparr>a_ID := s_AssignmentID s\<rparr>) d) (\<lambda>bs.
                 sq_create_review db (query\<lparr>rv_benchmarks := map reset_benchmark bs\<rparr>) d)))"

definition update_review :: "'d sub_db \<Rightarrow> time \<Rightarrow> review \<Rightarrow> 'd \<Rightarrow> db_error + (review \<times> 'd)" where
  "update_review db now query d =
     (if rv_ID query = 0 then Inl EmptyReviewID
      else bind_res (get_submission db (zero_submission\<lparr>s_ID := rv_SubmissionID query\<rparr>) d) (\<lambda>s.
        (let query = compute_score (query\<lparr>rv_edited := Some now\<rparr>);
             s = s\<lparr>s_reviews := update_first (\<lambda>r. rv_ID r = rv_ID query) (\<lambda>_. query) (s_reviews s),
                   s_score := rv_score query\<rparr>
         in bind_res (update_submission db s d) (\<lambda>d. Inr (query, d)))))"

text \<open>
  Reading and deleting a review: the first row that matches the query, the benchmarks of a review with their criteria,
  and the deletion of the rows that match.  The preloaded benchmarks are restricted to the ID in the query.
\<close>

record 'd review_db =
  vq_first :: "review \<Rightarrow> 'd \<Rightarrow> db_error + review"
  vq_benchmarks :: "u64 \<Rightarrow> 'd \<Rightarrow> db_error + benchmark list"
  vq_delete :: "review \<Rightarrow> 'd \<Rightarrow> db_error + 'd"

definition get_review :: "'d review_db \<Rightarrow> review \<Rightarrow> 'd \<Rightarrow> db_error + review" where
  "get_review db query d =
     bind_res (vq_first db query d) (\<lambda>rv.
     bind_res (vq_benchmarks db (rv_ID rv) d) (\<lambda>bs.
       Inr (rv\<lparr>rv_benchmarks := filter (\<lambda>bm. bm_ReviewID bm = rv_ID query) bs\<rparr>)))"

definition delete_review :: "'d review_db \<Rightarrow> review \<Rightarrow> 'd \<Rightarrow> db_error + 'd" where
  "delete_review db query d = vq_delete db query d"

text \<open>A query that names the review by anything but its ID gives it without its benchmarks.\<close>

lemma get_review_without_id:
  assumes "\<And>i bs. vq_benchmarks db i d = Inr bs \<Longrightarrow> \<forall>bm\<in>set bs. bm_ReviewID bm = i"
    and "get_review db query d = Inr rv" and "rv_ID query = 0" and "rv_ID rv \<noteq> 0"
  shows "rv_benchmarks rv = []"
  using assms(2-) by (fastforce simp: get_review_def bind_res_Inr_iff filter_empty_conv dest: assms(1))

section \<open>What the statements do\<close>

text \<open>The rows that the statements of this theory read and write.\<close>

record sub_view =
  sv_users :: "u64 list"
  sv_members :: "(u64 \<times> u64 list) list"
  sv_assignments :: "assignment list"
  sv_submissions :: "submission list"

definition member_list :: "sub_view \<Rightarrow> u64 \<Rightarrow> u64 list" where
  "member_list v g = (case map_of (sv_members v) g of None \<Rightarrow> [] | Some us \<Rightarrow> us)"

definition sub_matches :: "submission \<Rightarrow> submission \<Rightarrow> bool" where
  "sub_matches q s \<longleftrightarrow>
     (s_ID q = 0 \<or> s_ID s = s_ID q) \<and> (s_AssignmentID q = 0 \<or> s_AssignmentID s = s_AssignmentID q) \<and>
     (s_userID q = 0 \<or> s_userID s = s_userID q) \<and> (s_groupID q = 0 \<or> s_groupID s = s_groupID q)"

text \<open>Saving associations updates the rows with the same key and inserts the others.\<close>

definition merge_by :: "('a \<Rightarrow> 'k) \<Rightarrow> 'a list \<Rightarrow> 'a list \<Rightarrow> 'a list" where
  "merge_by k old new =
     map (\<lambda>x. case find (\<lambda>n. k n = k x) new of Some n \<Rightarrow> n | None \<Rightarrow> x) old @
     filter (\<lambda>n. k n \<notin> k ` set old) new"

definition saved_over :: "submission \<Rightarrow> submission \<Rightarrow> submission" where
  "saved_over r s =
     s\<lparr>s_Grades := merge_by gr_UserID (s_Grades r) (s_Grades s),
       s_Scores := merge_by sc_ID (s_Scores r) (s_Scores s),
       s_reviews := merge_by rv_ID (s_reviews r) (s_reviews s)\<rparr>"

definition inserted :: "u64 \<Rightarrow> submission \<Rightarrow> submission" where
  "inserted i s =
     link_results (s\<lparr>s_ID := i, s_Grades := map (\<lambda>g. g\<lparr>gr_SubmissionID := i\<rparr>) (s_Grades s)\<rparr>)"

abbreviation update_rows :: "(submission \<Rightarrow> submission) \<Rightarrow> sub_view \<Rightarrow> sub_view" where
  "update_rows f v \<equiv> v\<lparr>sv_submissions := map f (sv_submissions v)\<rparr>"

definition on_id :: "u64 \<Rightarrow> (submission \<Rightarrow> submission) \<Rightarrow> submission \<Rightarrow> submission" where
  "on_id i f s = (if s_ID s = i then f s else s)"

definition saves :: "submission \<Rightarrow> sub_view \<Rightarrow> submission \<Rightarrow> sub_view \<Rightarrow> bool" where
  "saves s v s' v' \<longleftrightarrow>
     (if s_ID s = 0
      then s_ID s' \<noteq> 0 \<and> s_ID s' \<notin> s_ID ` set (sv_submissions v) \<and> s' = inserted (s_ID s') s \<and>
           v' = v\<lparr>sv_submissions := sv_submissions v @ [s']\<rparr>
      else s' = s \<and> v' = update_rows (on_id (s_ID s) (\<lambda>r. saved_over r s)) v)"

definition sub_db_ok :: "'d sub_db \<Rightarrow> ('d \<Rightarrow> sub_view) \<Rightarrow> bool" where
  "sub_db_ok db view \<longleftrightarrow>
     (\<forall>q s d. sq_last db q d = Inr s \<longrightarrow>
        (let ss = filter (sub_matches q) (sv_submissions (view d)) in ss \<noteq> [] \<and> s = last ss)) \<and>
     (\<forall>q d. sq_last db q d = Inl RecordNotFound \<longrightarrow>
        filter (sub_matches q) (sv_submissions (view d)) = []) \<and>
     (\<forall>i d s. sq_first db i d = Inr s \<longrightarrow> i \<in> s_ID ` set (sv_submissions (view d))) \<and>
     (\<forall>i d d'. sq_delete_scores db i d = Inr d' \<longrightarrow>
        view d' = update_rows (on_id i (\<lambda>r. r\<lparr>s_Scores := []\<rparr>)) (view d)) \<and>
     (\<forall>i d d'. sq_delete_build_infos db i d = Inr d' \<longrightarrow>
        view d' = update_rows (on_id i (\<lambda>r. r\<lparr>s_BuildInfo := None\<rparr>)) (view d)) \<and>
     (\<forall>g d. distinct (member_list (view d) g) \<and> sq_members db g d = member_list (view d) g) \<and>
     (\<forall>q d a. sq_assignment db q d = Inr a \<longrightarrow> a \<in> set (sv_assignments (view d)) \<and>
        (a_ID q \<noteq> 0 \<longrightarrow> a_ID a = a_ID q) \<and> (a_CourseID q \<noteq> 0 \<longrightarrow> a_CourseID a = a_CourseID q)) \<and>
     (\<forall>s d s' d'. sq_save db s d = Inr (s', d') \<longrightarrow> saves s (view d) s' (view d')) \<and>
     (\<forall>s d d'. sq_update db s d = Inr d' \<longrightarrow>
        view d' = update_rows (on_id (s_ID s) (\<lambda>r. saved_over r s)) (view d))"

lemma sub_db_okD:
  assumes "sub_db_ok db view"
  shows "sq_last db q d = Inr s \<Longrightarrow> filter (sub_matches q) (sv_submissions (view d)) \<noteq> [] \<and>
      s = last (filter (sub_matches q) (sv_submissions (view d)))"
    and "sq_last db q d = Inl RecordNotFound \<Longrightarrow> filter (sub_matches q) (sv_submissions (view d)) = []"
    and "sq_first db i d = Inr s \<Longrightarrow> i \<in> s_ID ` set (sv_submissions (view d))"
    and "sq_delete_scores db i d = Inr d' \<Longrightarrow>
        view d' = update_rows (on_id i (\<lambda>r. r\<lparr>s_Scores := []\<rparr>)) (view d)"
    and "sq_delete_build_infos db i d = Inr d' \<Longrightarrow>
        view d' = update_rows (on_id i (\<lambda>r. r\<lparr>s_BuildInfo := None\<rparr>)) (view d)"
    and "distinct (member_list (view d) g) \<and> sq_members db g d = member_list (view d) g"
    and "sq_assignment db q' d = Inr a \<Longrightarrow> a \<in> set (sv_assignments (view d)) \<and>
        (a_ID q' \<noteq> 0 \<longrightarrow> a_ID a = a_ID q') \<and> (a_CourseID q' \<noteq> 0 \<longrightarrow> a_CourseID a = a_CourseID q')"
    and "sq_save db s d = Inr (s', d') \<Longrightarrow> saves s (view d) s' (view d')"
    and "sq_update db s d = Inr d' \<Longrightarrow>
        view d' = update_rows (on_id (s_ID s) (\<lambda>r. saved_over r s)) (view d)"
  using assms by (simp_all add: sub_db_ok_def Let_def)

section \<open>The rows\<close>

text \<open>
  Every submission has an identifier of its own, an assignment, and exactly one owner, a user or a
  group.  Abstractly the table is a ledger: the latest submission of each assignment and owner.
\<close>

definition has_owner :: "submission \<Rightarrow> bool" where
  "has_owner s \<longleftrightarrow> s_AssignmentID s \<noteq> 0 \<and> (s_userID s = 0) \<noteq> (s_groupID s = 0)"

definition rows_ok :: "sub_view \<Rightarrow> bool" where
  "rows_ok v \<longleftrightarrow> distinct (map s_ID (sv_submissions v)) \<and>
     list_all (\<lambda>s. s_ID s \<noteq> 0 \<and> has_owner s \<and> distinct (map gr_UserID (s_Grades s))) (sv_submissions v)"

definition sub_key :: "submission \<Rightarrow> u64 \<times> u64 \<times> u64" where
  "sub_key s = (s_AssignmentID s, s_userID s, s_groupID s)"

definition last_opt :: "'a list \<Rightarrow> 'a option" where
  "last_opt xs = (if xs = [] then None else Some (last xs))"

definition ledger :: "sub_view \<Rightarrow> u64 \<times> u64 \<times> u64 \<Rightarrow> submission option" where
  "ledger v k = last_opt (filter (\<lambda>s. sub_key s = k) (sv_submissions v))"

lemma last_opt_simps [simp]: "last_opt [] = None" "last_opt (xs @ [x]) = Some x"
  by (simp_all add: last_opt_def)

lemma last_opt_map: "last_opt (map f xs) = map_option f (last_opt xs)"
  by (simp add: last_opt_def last_map)

lemma check_submission_owner: "check_submission db s d = Inr x \<Longrightarrow> has_owner s"
  by (auto simp: check_submission_def has_owner_def bind_res_Inr_iff word_gt_0 split: if_splits)
    (simp add: word_less_1)?

lemma owner_query_matches:
  assumes "has_owner s" and "has_owner r"
  shows "sub_matches (owner_query s) r \<longleftrightarrow> sub_key r = sub_key s"
  using assms by (auto simp: sub_matches_def owner_query_def has_owner_def sub_key_def zero_submission_def)

lemma last_is_ledger:
  assumes "sub_db_ok db view" and "rows_ok (view d)" and "has_owner s"
  shows "sq_last db (owner_query s) d = Inr r \<Longrightarrow> ledger (view d) (sub_key s) = Some r"
    and "sq_last db (owner_query s) d = Inl RecordNotFound \<Longrightarrow> ledger (view d) (sub_key s) = None"
proof -
  have "filter (sub_matches (owner_query s)) (sv_submissions (view d)) =
      filter (\<lambda>r. sub_key r = sub_key s) (sv_submissions (view d))"
    using assms(2,3) by (intro filter_cong refl owner_query_matches) (auto simp: rows_ok_def list_all_iff)
  then show "sq_last db (owner_query s) d = Inr r \<Longrightarrow> ledger (view d) (sub_key s) = Some r"
    and "sq_last db (owner_query s) d = Inl RecordNotFound \<Longrightarrow> ledger (view d) (sub_key s) = None"
    using sub_db_okD(1,2) [OF assms(1), of "owner_query s" d] by (auto simp: ledger_def last_opt_def)
qed

text \<open>Updating rows in place by identifier changes the ledger at the row's key only.\<close>

lemma update_rows_ok:
  assumes "rows_ok v" and "\<And>r. s_ID r = i \<Longrightarrow> s_ID (f r) = i" and "\<And>r. s_ID r = i \<Longrightarrow> has_owner (f r)"
    and "\<And>r. r \<in> set (sv_submissions v) \<Longrightarrow> distinct (map gr_UserID (s_Grades (f r)))"
  shows "rows_ok (update_rows (on_id i f) v)"
proof -
  have "s_ID (on_id i f r) = s_ID r" for r using assms(2) by (simp add: on_id_def)
  moreover from this have "s_ID \<circ> on_id i f = s_ID" by auto
  ultimately show ?thesis using assms(1,3,4) by (auto simp: rows_ok_def list_all_iff) (simp_all add: on_id_def)
qed

lemma ledger_Some: "ledger v k = Some r \<Longrightarrow> r \<in> set (sv_submissions v) \<and> sub_key r = k"
  using last_in_set [of "filter (\<lambda>s. sub_key s = k) (sv_submissions v)"]
  by (auto simp: ledger_def last_opt_def split: if_splits)

lemma ledger_update:
  assumes "rows_ok v" and "ledger v k = Some r" and "sub_key (f r) = k"
  shows "ledger (update_rows (on_id (s_ID r) f) v) = (ledger v)(k \<mapsto> f r)"
proof
  let ?ss = "sv_submissions v" and ?g = "on_id (s_ID r) f"
  have r: "r \<in> set ?ss" "sub_key r = k"
    using ledger_Some [OF assms(2)] by auto
  have only: "s = r" if "s \<in> set ?ss" "s_ID s = s_ID r" for s
    using assms(1) that r(1) by (auto simp: rows_ok_def distinct_map inj_on_def)
  have key: "sub_key (?g s) = sub_key s" if "s \<in> set ?ss" for s
    using only [OF that] assms(3) r(2) by (auto simp: on_id_def)
  fix k'
  have "filter (\<lambda>s. sub_key s = k') (map ?g ?ss) = map ?g (filter (\<lambda>s. sub_key s = k') ?ss)"
    unfolding filter_map comp_def by (intro arg_cong [where f = "map ?g"] filter_cong) (auto simp: key)
  then have l: "ledger (update_rows ?g v) k' = map_option ?g (ledger v k')"
    by (simp add: ledger_def last_opt_map)
  show "ledger (update_rows ?g v) k' = ((ledger v)(k \<mapsto> f r)) k'"
  proof (cases "k' = k")
    case True
    with l assms(2) show ?thesis by (simp add: on_id_def)
  next
    case False
    have "?g s = s" if "ledger v k' = Some s" for s
    proof -
      have "s \<in> set ?ss" "sub_key s = k'"
        using ledger_Some [OF that] by auto
      with only [of s] r(2) False show ?thesis by (auto simp: on_id_def)
    qed
    with l False show ?thesis by (cases "ledger v k'") auto
  qed
qed

lemma ledger_append: "ledger (v\<lparr>sv_submissions := sv_submissions v @ [s]\<rparr>) = (ledger v)(sub_key s \<mapsto> s)"
  by (auto simp: ledger_def fun_eq_iff)

section \<open>Saving refines an update of the ledger\<close>

text \<open>What of a message a row holds after it was saved.\<close>

definition holds :: "submission \<Rightarrow> submission \<Rightarrow> bool" where
  "holds e s \<longleftrightarrow> s_ID e = s_ID s \<and> sub_key e = sub_key s \<and> s_score e = s_score s \<and>
     s_commitHash e = s_commitHash s \<and> s_BuildInfo e = s_BuildInfo s \<and> s_Scores e = s_Scores s \<and>
     set (s_Grades s) \<subseteq> set (s_Grades e)"

lemma sub_key_simps [simp]:
  "sub_key (link_results s) = sub_key s" "sub_key (saved_over r s) = sub_key s"
  "sub_key (inserted i s) = sub_key s"
  "s_ID (link_results s) = s_ID s" "s_ID (saved_over r s) = s_ID s" "s_ID (inserted i s) = i"
  by (simp_all add: sub_key_def link_results_def saved_over_def inserted_def)

lemma has_owner_key: "sub_key s = sub_key r \<Longrightarrow> has_owner s = has_owner r"
  by (simp add: sub_key_def has_owner_def)

lemma merge_by_nil [simp]: "merge_by k [] new = new"
  by (simp add: merge_by_def)

lemma set_merge_by: "distinct (map k new) \<Longrightarrow> set new \<subseteq> set (merge_by k old new)"
proof
  fix n assume n: "distinct (map k new)" "n \<in> set new"
  show "n \<in> set (merge_by k old new)"
  proof (cases "k n \<in> k ` set old")
    case True
    then obtain x where x: "x \<in> set old" "k x = k n" by auto
    with n obtain m where "find (\<lambda>n. k n = k x) new = Some m" using find_key_Some [of "k x" k new] by force
    moreover from this n x have "m = n"
      by (auto simp: find_Some_iff distinct_map inj_on_def)
    ultimately show ?thesis using x(1) by (force simp: merge_by_def)
  next
    case False
    with n show ?thesis by (simp add: merge_by_def)
  qed
qed

lemma distinct_merge_by:
  assumes "distinct (map k old)" and "distinct (map k new)"
  shows "distinct (map k (merge_by k old new))"
proof -
  have "map k (map (\<lambda>x. case find (\<lambda>n. k n = k x) new of Some n \<Rightarrow> n | None \<Rightarrow> x) old) = map k old"
    by (auto simp: find_Some_iff split: option.split)
  then have "map k (merge_by k old new) = map k old @ map k (filter (\<lambda>n. k n \<notin> k ` set old) new)"
    by (simp only: merge_by_def map_append)
  moreover have "distinct (map k (filter (\<lambda>n. k n \<notin> k ` set old) new))"
    using assms(2) by (rule distinct_map_filter)
  moreover have "k ` set old \<inter> k ` {x \<in> set new. k x \<notin> k ` set old} = {}"
  proof (rule Int_emptyI)
    fix y assume y: "y \<in> k ` set old" "y \<in> k ` {x \<in> set new. k x \<notin> k ` set old}"
    then obtain x where "k x \<notin> k ` set old" "y = k x" by blast
    with y(1) show False by simp
  qed
  ultimately show ?thesis using assms(1) by (simp del: map_map)
qed

lemma set_grades_distinct:
  assumes "sub_db_ok db view" and "set_grades db s d = Inr g" and "distinct (map gr_UserID (s_Grades s))"
  shows "distinct (map gr_UserID (s_Grades g))"
proof -
  define us where "us = (if 0 < s_groupID s then member_list (view d) (s_groupID s) else if 0 < s_userID s then [s_userID s] else [])"
  define s1 where "s1 = (if s_Grades s = [] then s\<lparr>s_Grades := map (\<lambda>u. \<lparr>gr_SubmissionID = 0, gr_UserID = u, gr_Status = S_NONE\<rparr>) us\<rparr> else s)"
  have "distinct us" using sub_db_okD(6) [OF assms(1)] by (simp add: us_def)
  with assms(3) have "distinct (map gr_UserID (s_Grades s1))" by (simp add: s1_def comp_def)
  moreover from assms(2) obtain a where "g = set_grades_if_approved s1 a (s_score s1)"
    using conjunct2 [OF sub_db_okD(6) [OF assms(1)]]
    by (auto simp: set_grades_def Let_def bind_res_Inr_iff s1_def us_def split: if_splits)
  ultimately show ?thesis by (simp add: set_grades_if_approved_def set_grade_all_def comp_def)
qed

lemma set_grades_same:
  "set_grades db s d = Inr g \<Longrightarrow> sub_key g = sub_key s \<and> s_ID g = s_ID s \<and> s_score g = s_score s \<and>
     s_commitHash g = s_commitHash s \<and> s_BuildInfo g = s_BuildInfo s \<and> s_Scores g = s_Scores s"
  by (auto simp: set_grades_def Let_def bind_res_Inr_iff sub_key_def set_grades_if_approved_def set_grade_all_def)

lemma on_id_comp: "(\<And>r. s_ID (g r) = s_ID r) \<Longrightarrow> on_id i f (on_id i g r) = on_id i (\<lambda>r. f (g r)) r"
  by (simp add: on_id_def)

lemma update_rows_comp:
  "(\<And>r. s_ID (g r) = s_ID r) \<Longrightarrow>
   update_rows (on_id i f) (update_rows (on_id i g) v) = update_rows (on_id i (\<lambda>r. f (g r))) v"
  by (simp add: on_id_comp)

lemma save_results_old:
  assumes "sub_db_ok db view" and "save_results db s d = Inr (s', d')" and "s_ID s \<noteq> 0"
  shows "s' = link_results s \<and> view d' = update_rows (on_id (s_ID s)
      (\<lambda>r. saved_over (r\<lparr>s_Scores := [], s_BuildInfo := None\<rparr>) (link_results s))) (view d)"
proof -
  from assms(2,3) obtain d1 d2 where
    d: "sq_delete_scores db (s_ID s) d = Inr d1" "sq_delete_build_infos db (s_ID s) d1 = Inr d2"
    "sq_save db (link_results s) d2 = Inr (s', d')"
    by (auto simp: save_results_def bind_res_Inr_iff)
  from sub_db_okD(8) [OF assms(1) d(3)] assms(3)
  have "s' = link_results s" "view d' = update_rows (on_id (s_ID s) (\<lambda>r. saved_over r (link_results s))) (view d2)"
    by (simp_all add: saves_def)
  then show ?thesis
    by (simp add: sub_db_okD(4) [OF assms(1) d(1)] sub_db_okD(5) [OF assms(1) d(2)] on_id_comp)
qed

lemma save_results_new:
  assumes "sub_db_ok db view" and "save_results db s d = Inr (s', d')" and "s_ID s = 0"
  obtains g where "set_grades db s d = Inr g" "s' = inserted (s_ID s') g" "s_ID s' \<noteq> 0"
    "s_ID s' \<notin> s_ID ` set (sv_submissions (view d))"
    "view d' = (view d)\<lparr>sv_submissions := sv_submissions (view d) @ [s']\<rparr>"
proof -
  from assms(2,3) obtain g where g: "set_grades db s d = Inr g" "sq_save db g d = Inr (s', d')"
    by (auto simp: save_results_def bind_res_Inr_iff)
  with sub_db_okD(8) [OF assms(1) g(2)] set_grades_same [OF g(1)] assms(3) that show ?thesis
    by (simp add: saves_def)
qed

lemma create_submission_saves:
  assumes "create_submission db s d = Inr (s', d')"
  shows "has_owner s \<and> save_results db s d = Inr (s', d')"
  using assms check_submission_owner [of db s d]
  by (auto simp: create_submission_def bind_res_Inr_iff split: sum.splits if_splits)

lemma save_results_ledger:
  assumes "sub_db_ok db view" and "rows_ok (view d)" and "has_owner s" and "distinct (map gr_UserID (s_Grades s))"
    and "save_results db s d = Inr (s', d')"
    and "s_ID s = (case ledger (view d) (sub_key s) of None \<Rightarrow> 0 | Some r \<Rightarrow> s_ID r)"
  shows "rows_ok (view d') \<and> s_score s' = s_score s \<and> s_commitHash s' = s_commitHash s \<and>
     (\<exists>e. holds e s' \<and> ledger (view d') = (ledger (view d))(sub_key s \<mapsto> e)) \<and>
     length (sv_submissions (view d')) =
       length (sv_submissions (view d)) + (if ledger (view d) (sub_key s) = None then 1 else 0)"
proof (cases "ledger (view d) (sub_key s)")
  case None
  with assms(6) have "s_ID s = 0" by simp
  from save_results_new [OF assms(1,5) this] obtain g where g: "set_grades db s d = Inr g"
    "s' = inserted (s_ID s') g" "s_ID s' \<noteq> 0" "s_ID s' \<notin> s_ID ` set (sv_submissions (view d))"
    "view d' = (view d)\<lparr>sv_submissions := sv_submissions (view d) @ [s']\<rparr>" .
  have key: "sub_key s' = sub_key s"
    by (subst g(2)) (simp add: set_grades_same [OF g(1)])
  moreover have "s_score s' = s_score s" "s_commitHash s' = s_commitHash s"
    by (subst g(2), simp add: inserted_def link_results_def set_grades_same [OF g(1)])+
  moreover have "has_owner s'" using assms(3) has_owner_key [OF key] by simp
  moreover have "distinct (map gr_UserID (s_Grades s'))"
    using set_grades_distinct [OF assms(1) g(1) assms(4)]
    by (subst g(2)) (simp add: inserted_def link_results_def comp_def)
  ultimately show ?thesis
    using assms(2) g(3,4,5) None by (auto simp: rows_ok_def ledger_append holds_def)
next
  case (Some r)
  have r: "r \<in> set (sv_submissions (view d))" "sub_key r = sub_key s" using ledger_Some [OF Some] by auto
  then have "s_ID r \<noteq> 0" using assms(2) by (auto simp: rows_ok_def list_all_iff)
  with assms(6) Some have id: "s_ID s = s_ID r" "s_ID s \<noteq> 0" by simp_all
  let ?f = "\<lambda>r. saved_over (r\<lparr>s_Scores := [], s_BuildInfo := None\<rparr>) (link_results s)"
  note old = save_results_old [OF assms(1,5) id(2)]
  have grades: "distinct (map gr_UserID (s_Grades (?f r)))" if "r \<in> set (sv_submissions (view d))" for r
    using assms(2,4) that distinct_merge_by [of gr_UserID "s_Grades r" "s_Grades s"]
    by (simp add: saved_over_def link_results_def rows_ok_def list_all_iff)
  have "rows_ok (view d')"
    unfolding conjunct2 [OF old] using assms(2,3) id
    by (intro update_rows_ok) (simp_all add: has_owner_key [of "saved_over _ (link_results s)" s] grades)
  moreover have "ledger (view d') = (ledger (view d))(sub_key s \<mapsto> ?f r)"
    unfolding conjunct2 [OF old] id(1) using assms(2) Some by (intro ledger_update) simp_all
  moreover have "holds (?f r) s'"
    using set_merge_by [of gr_UserID "s_Grades s" "s_Grades r"] assms(4) old
    by (simp add: holds_def) (simp add: saved_over_def link_results_def)
  moreover have "s_score s' = s_score s" "s_commitHash s' = s_commitHash s"
    "length (sv_submissions (view d')) = length (sv_submissions (view d))"
    using old by (simp_all add: link_results_def)
  ultimately show ?thesis using Some by auto
qed

section \<open>A store\<close>

text \<open>An instance of the statements on the rows themselves.\<close>

definition find_row :: "('a \<Rightarrow> bool) \<Rightarrow> 'a list \<Rightarrow> db_error + 'a" where
  "find_row P xs = (case find P xs of None \<Rightarrow> Inl RecordNotFound | Some x \<Rightarrow> Inr x)"

definition last_row :: "('a \<Rightarrow> bool) \<Rightarrow> 'a list \<Rightarrow> db_error + 'a" where
  "last_row P xs = (case filter P xs of [] \<Rightarrow> Inl RecordNotFound | ys \<Rightarrow> Inr (last ys))"

text \<open>An identifier above all that are in use; the store is full when there is none.\<close>

definition max_id :: "u64 list \<Rightarrow> u64" where
  "max_id is = fold max is 0"

definition row_db :: "sub_view sub_db" where
  "row_db =
     \<lparr>sq_user_count = (\<lambda>i v. Inr (if i \<in> set (sv_users v) then 1 else 0)),
      sq_group_count = (\<lambda>i v. Inr (if i \<in> set (map fst (sv_members v)) then 1 else 0)),
      sq_assignment_count = (\<lambda>i v. Inr (if i \<in> set (map a_ID (sv_assignments v)) then 1 else 0)),
      sq_last = (\<lambda>q v. last_row (sub_matches q) (sv_submissions v)),
      sq_find = (\<lambda>q v. Inr (filter (sub_matches q) (sv_submissions v))),
      sq_first = (\<lambda>i v. find_row (\<lambda>s. s_ID s = i) (sv_submissions v)),
      sq_delete_scores = (\<lambda>i v. Inr (update_rows (on_id i (\<lambda>r. r\<lparr>s_Scores := []\<rparr>)) v)),
      sq_delete_build_infos = (\<lambda>i v. Inr (update_rows (on_id i (\<lambda>r. r\<lparr>s_BuildInfo := None\<rparr>)) v)),
      sq_members = (\<lambda>g v. remdups (member_list v g)),
      sq_assignment = (\<lambda>q v. find_row (\<lambda>a. (a_ID q \<noteq> 0 \<longrightarrow> a_ID a = a_ID q) \<and>
         (a_CourseID q \<noteq> 0 \<longrightarrow> a_CourseID a = a_CourseID q)) (sv_assignments v)),
      sq_course_assignments = (\<lambda>c v. Inr (filter (\<lambda>a. a_CourseID a = c) (sv_assignments v))),
      sq_benchmarks = (\<lambda>a v. Inr []), sq_criteria = (\<lambda>b v. Inr []),
      sq_save = (\<lambda>s v.
        if s_ID s = 0
        then (let i = max_id (map s_ID (sv_submissions v)) + 1; s' = inserted i s
              in if i = 0 \<or> i \<in> s_ID ` set (sv_submissions v) then Inl (Failed ''full'')
                 else Inr (s', v\<lparr>sv_submissions := sv_submissions v @ [s']\<rparr>))
        else Inr (s, update_rows (on_id (s_ID s) (\<lambda>r. saved_over r s)) v)),
      sq_update = (\<lambda>s v. Inr (update_rows (on_id (s_ID s) (\<lambda>r. saved_over r s)) v)),
      sq_create_review = (\<lambda>r v. Inr (r, v))\<rparr>"

text \<open>A view whose lists of members have no duplicates, as a unique index ensures.\<close>

definition row_view :: "sub_view \<Rightarrow> sub_view" where
  "row_view v = v\<lparr>sv_members := map (\<lambda>(g, us). (g, remdups us)) (sv_members v)\<rparr>"

lemma member_list_row_view: "member_list (row_view v) g = remdups (member_list v g)"
proof -
  have "map_of (map (\<lambda>(g, us). (g, remdups us)) ms) g = map_option remdups (map_of ms g)"
    for ms :: "(u64 \<times> u64 list) list"
    by (induction ms) auto
  then show ?thesis by (simp add: member_list_def row_view_def split: option.split)
qed

lemma row_view_simps [simp]:
  "sv_submissions (row_view v) = sv_submissions v" "sv_assignments (row_view v) = sv_assignments v"
  "row_view (v\<lparr>sv_submissions := ss\<rparr>) = (row_view v)\<lparr>sv_submissions := ss\<rparr>"
  by (simp_all add: row_view_def)

lemma row_db_ok: "sub_db_ok row_db row_view"
  unfolding sub_db_ok_def row_db_def
  by (auto simp: last_row_def find_row_def find_Some_iff member_list_row_view saves_def Let_def
      split: list.splits option.splits if_splits)

end
