(* ===== verification/Record_Results.thy ===== *)
theory Record_Results
  imports Submission_Store Run_Script
begin

text \<open>
  Recording the results of a run: \<open>ci/record_results.go\<close>, with the queries for groups and enrollments it
  uses (\<open>database/gormdb_group.go\<close>, \<open>database/gormdb_enrollment.go\<close>).
\<close>

section \<open>Groups and enrollments of the database\<close>

text \<open>
  \<open>eq_enrollment\<close> and \<open>eq_group\<close> return the rows with the associations that the code preloads; \<open>eq_pluck\<close>
  the users of the enrollments with a group.
\<close>

record 'd enr_db = "'d sub_db" +
  eq_enrollment :: "u64 \<Rightarrow> u64 \<Rightarrow> 'd \<Rightarrow> db_error + (enrollment \<times> course \<times> user)"
  eq_pluck :: "u64 \<Rightarrow> 'd \<Rightarrow> db_error + u64 list"
  eq_group :: "u64 \<Rightarrow> u64 list \<Rightarrow> 'd \<Rightarrow> db_error + group"
  eq_save_slip_days :: "used_slip_days \<Rightarrow> 'd \<Rightarrow> db_error + 'd"

definition get_enrollment_by_course_and_user :: "'d enr_db \<Rightarrow> u64 \<Rightarrow> u64 \<Rightarrow> 'd \<Rightarrow> db_error + enrollment" where
  "get_enrollment_by_course_and_user db courseID userID d =
     bind_res (eq_enrollment db courseID userID d) (\<lambda>(m, c, _). Inr (set_slip_days m c))"

definition get_group :: "'d enr_db \<Rightarrow> u64 \<Rightarrow> 'd \<Rightarrow> db_error + group" where
  "get_group db groupID d =
     bind_res (eq_pluck db groupID d) (\<lambda>userIDs.
       case eq_group db groupID userIDs d of
         Inl e \<Rightarrow> if e = RecordNotFound then Inl e else Inl (Failed ''failed to get group'')
       | Inr g \<Rightarrow> if userIDs = [] then Inl (Failed ''no users found for group'') else Inr g)"

fun db_update_slip_days :: "'d enr_db \<Rightarrow> used_slip_days list \<Rightarrow> 'd \<Rightarrow> (db_error + unit) \<times> 'd" where
  "db_update_slip_days db [] d = (Inr (), d)"
| "db_update_slip_days db (x # xs) d =
     (case eq_save_slip_days db x d of
        Inl e \<Rightarrow> (Inl e, d)
      | Inr d \<Rightarrow> db_update_slip_days db xs d)"

section \<open>The new submission\<close>

text \<open>
  \<open>None\<close> is the panic of a nil pointer: a rebuild whose results have no build information.
  The previous submission is a pointer, nil when there is none; the getters of a nil message give the
  zero values and \<open>SetGradesIfApproved\<close> does nothing on it.
\<close>

definition previous_submission :: "'d enr_db \<Rightarrow> run_data \<Rightarrow> 'd \<Rightarrow> db_error + submission" where
  "previous_submission db r d =
     get_submission (sub_db.truncate db)
       (zero_submission\<lparr>s_AssignmentID := a_ID (rd_Assignment r), s_userID := r_userID (rd_Repo r),
                        s_groupID := r_groupID (rd_Repo r)\<rparr>) d"

definition prev_ID :: "submission option \<Rightarrow> u64" where
  "prev_ID previous = (case previous of None \<Rightarrow> 0 | Some p \<Rightarrow> s_ID p)"

definition prev_Grades :: "submission option \<Rightarrow> grade list" where
  "prev_Grades previous = (case previous of None \<Rightarrow> [] | Some p \<Rightarrow> s_Grades p)"

definition new_manual_review_submission :: "time \<Rightarrow> time \<Rightarrow> run_data \<Rightarrow> submission option \<Rightarrow> submission" where
  "new_manual_review_submission t1 t2 r previous =
     zero_submission\<lparr>s_ID := prev_ID previous, s_AssignmentID := a_ID (rd_Assignment r),
       s_userID := r_userID (rd_Repo r), s_groupID := r_groupID (rd_Repo r), s_commitHash := rd_CommitID r,
       s_score := (case previous of None \<Rightarrow> 0 | Some p \<Rightarrow> s_score p), s_Grades := prev_Grades previous,
       s_BuildInfo := Some (zero_build_info\<lparr>bi_SubmissionDate := Some t1, bi_BuildDate := Some t2,
         bi_BuildLog := [], bi_ExecTime := 1\<rparr>)\<rparr>"

text \<open>
  \<open>results.Sum()\<close> converts a \<open>float64\<close> to \<open>uint32\<close>; \<open>impl\<close> is what the implementation gives where the
  language leaves that conversion to it.
\<close>

definition sum_or :: "u32 \<Rightarrow> results \<Rightarrow> u32" where
  "sum_or impl res = (case results_sum res of None \<Rightarrow> impl | Some v \<Rightarrow> v)"

definition keep_delivery_date :: "run_data \<Rightarrow> submission option \<Rightarrow> results \<Rightarrow> results option" where
  "keep_delivery_date r previous res =
     (case previous of
        None \<Rightarrow> Some res
      | Some p \<Rightarrow>
          (case s_BuildInfo p of
             None \<Rightarrow> Some res
           | Some b \<Rightarrow>
               if \<not> rd_Rebuild r then Some res
               else case rs_BuildInfo res of
                      None \<Rightarrow> None
                    | Some rb \<Rightarrow> Some (res\<lparr>rs_BuildInfo := Some (rb\<lparr>bi_SubmissionDate := bi_SubmissionDate b\<rparr>)\<rparr>)))"

definition new_test_run_submission ::
    "u32 \<Rightarrow> run_data \<Rightarrow> submission option \<Rightarrow> results \<Rightarrow> submission option" where
  "new_test_run_submission impl r previous res =
     map_option (\<lambda>res.
       (let sum = sum_or impl res;
            previous = map_option (\<lambda>p. set_grades_if_approved p (rd_Assignment r) sum) previous
        in zero_submission\<lparr>s_ID := prev_ID previous, s_AssignmentID := a_ID (rd_Assignment r),
             s_userID := r_userID (rd_Repo r), s_groupID := r_groupID (rd_Repo r), s_commitHash := rd_CommitID r,
             s_score := sum, s_Grades := prev_Grades previous, s_BuildInfo := rs_BuildInfo res,
             s_Scores := rs_Scores res\<rparr>)) (keep_delivery_date r previous res)"

definition new_submission ::
    "u32 \<Rightarrow> time \<Rightarrow> time \<Rightarrow> run_data \<Rightarrow> submission option \<Rightarrow> results option \<Rightarrow> submission option" where
  "new_submission impl t1 t2 r previous results =
     (case results of
        Some res \<Rightarrow> new_test_run_submission impl r previous res
      | None \<Rightarrow> Some (new_manual_review_submission t1 t2 r previous))"

section \<open>Recording\<close>

definition slip_error_db :: "slip_error \<Rightarrow> db_error" where
  "slip_error_db e = Failed ''failed to update slip days''"

text \<open>The loop over the enrollments: what was saved before an error stays saved.\<close>

fun charge_slip_days ::
    "'d enr_db \<Rightarrow> assignment \<Rightarrow> submission \<Rightarrow> enrollment list \<Rightarrow> 'd \<Rightarrow> (db_error + unit) \<times> 'd" where
  "charge_slip_days db a s [] d = (Inr (), d)"
| "charge_slip_days db a s (m # ms) d =
     (case update_slip_days m a s of
        Inl e \<Rightarrow> (Inl (slip_error_db e), d)
      | Inr m \<Rightarrow>
          (case db_update_slip_days db (e_usedSlipDays m) d of
             (Inl e, d) \<Rightarrow> (Inl e, d)
           | (Inr _, d) \<Rightarrow> charge_slip_days db a s ms d))"

definition record_slip_days :: "'d enr_db \<Rightarrow> run_data \<Rightarrow> submission \<Rightarrow> 'd \<Rightarrow> (db_error + unit) \<times> 'd" where
  "record_slip_days db r s d =
     (let enrollments =
        (if 0 < s_groupID s then bind_res (get_group db (s_groupID s) d) (\<lambda>g. Inr (g_enrollments g))
         else bind_res (get_enrollment_by_course_and_user db (a_CourseID (rd_Assignment r)) (s_userID s) d)
                (\<lambda>m. Inr [m]))
      in case enrollments of Inl e \<Rightarrow> (Inl e, d) | Inr ms \<Rightarrow> charge_slip_days db (rd_Assignment r) s ms d)"

text \<open>
  \<open>RecordResults\<close>; a panic is recovered and leaves both results nil, which is \<open>Inr None\<close>.  The state is
  returned in every case.
\<close>

definition record_new ::
    "'d enr_db \<Rightarrow> u32 \<Rightarrow> time \<Rightarrow> time \<Rightarrow> run_data \<Rightarrow> results option \<Rightarrow> submission option \<Rightarrow> 'd
       \<Rightarrow> (db_error + submission option) \<times> 'd" where
  "record_new db impl t1 t2 r results previous d =
     (case new_submission impl t1 t2 r previous results of
        None \<Rightarrow> (Inr None, d)
      | Some s \<Rightarrow>
          (case create_submission (sub_db.truncate db) s d of
             Inl e \<Rightarrow> (Inl e, d)
           | Inr (s, d) \<Rightarrow>
               if rd_Rebuild r then (Inr (Some s), d)
               else case record_slip_days db r s d of
                      (Inl e, d) \<Rightarrow> (Inl e, d)
                    | (Inr _, d) \<Rightarrow> (Inr (Some s), d)))"

definition record_results ::
    "'d enr_db \<Rightarrow> u32 \<Rightarrow> time \<Rightarrow> time \<Rightarrow> run_data \<Rightarrow> results option \<Rightarrow> 'd
       \<Rightarrow> (db_error + submission option) \<times> 'd" where
  "record_results db impl t1 t2 r results d =
     (case previous_submission db r d of
        Inr p \<Rightarrow> record_new db impl t1 t2 r results (Some p) d
      | Inl e \<Rightarrow> if e \<noteq> RecordNotFound then (Inl e, d) else record_new db impl t1 t2 r results None d)"

text \<open>\<open>GetOwners\<close>.\<close>

definition get_owners :: "'d enr_db \<Rightarrow> run_data \<Rightarrow> 'd \<Rightarrow> db_error + u64 list" where
  "get_owners db r d =
     (let owners = (if is_user_repo (rd_Repo r) then [r_userID (rd_Repo r)] else []);
          owners = (if is_group_repo (rd_Repo r)
                    then case get_group db (r_groupID (rd_Repo r)) d of
                           Inl e \<Rightarrow> owners | Inr g \<Rightarrow> group_user_ids g
                    else owners)
      in if owners = [] then Inl (Failed (''failed to get owners for '' @ run_string r)) else Inr owners)"

section \<open>Lemmas\<close>

abbreviation sdb :: "'d enr_db \<Rightarrow> 'd sub_db" where
  "sdb db \<equiv> sub_db.truncate db"

definition run_key :: "run_data \<Rightarrow> u64 \<times> u64 \<times> u64" where
  "run_key r = (a_ID (rd_Assignment r), r_userID (rd_Repo r), r_groupID (rd_Repo r))"

text \<open>Saving slip days touches another table.\<close>

definition slip_days_apart :: "'d enr_db \<Rightarrow> ('d \<Rightarrow> sub_view) \<Rightarrow> bool" where
  "slip_days_apart db view \<longleftrightarrow> (\<forall>x d d'. eq_save_slip_days db x d = Inr d' \<longrightarrow> view d' = view d)"

lemma slip_days_view:
  assumes "slip_days_apart db view"
  shows "db_update_slip_days db xs d = (r, d') \<Longrightarrow> view d' = view d"
  using assms by (induction xs arbitrary: d) (auto simp: slip_days_apart_def split: sum.splits)

lemma charge_view:
  assumes "slip_days_apart db view"
  shows "charge_slip_days db a s ms d = (r, d') \<Longrightarrow> view d' = view d"
proof (induction ms arbitrary: d)
  case (Cons m ms)
  then show ?case
    using slip_days_view [OF assms] by (auto split: sum.splits prod.splits)
qed simp

lemma record_slip_days_view:
  "slip_days_apart db view \<Longrightarrow> record_slip_days db r s d = (x, d') \<Longrightarrow> view d' = view d"
  by (auto simp: record_slip_days_def Let_def charge_view split: sum.splits)

lemma record_results_Some:
  assumes "record_results db impl t1 t2 r results d = (Inr (Some s), d')"
  obtains previous s0 d1 where
    "previous_submission db r d = (case previous of None \<Rightarrow> Inl RecordNotFound | Some p \<Rightarrow> Inr p)"
    "new_submission impl t1 t2 r previous results = Some s0"
    "create_submission (sdb db) s0 d = Inr (s, d1)"
    "if rd_Rebuild r then d' = d1 else record_slip_days db r s d1 = (Inr (), d')"
proof -
  obtain previous where
    p: "previous_submission db r d = (case previous of None \<Rightarrow> Inl RecordNotFound | Some p \<Rightarrow> Inr p)"
    and q: "record_new db impl t1 t2 r results previous d = (Inr (Some s), d')"
  proof (cases "previous_submission db r d")
    case (Inr p)
    with assms that [of "Some p"] show ?thesis by (simp add: record_results_def)
  next
    case (Inl e)
    with assms that [of None] show ?thesis by (simp add: record_results_def split: if_splits)
  qed
  from q obtain s0 s1 d1 where s0: "new_submission impl t1 t2 r previous results = Some s0"
    "create_submission (sdb db) s0 d = Inr (s1, d1)"
    by (auto simp: record_new_def split: option.splits sum.splits)
  with q have "s1 = s \<and> (if rd_Rebuild r then d' = d1 else record_slip_days db r s d1 = (Inr (), d'))"
    by (auto simp: record_new_def split: sum.splits prod.splits if_splits)
  with p s0 that show ?thesis by blast
qed

lemma new_submission_key:
  assumes "new_submission impl t1 t2 r previous results = Some s"
  shows "sub_key s = run_key r \<and> s_ID s = prev_ID previous"
    and "s_Grades s = prev_Grades previous \<or> s_Grades s = map (\<lambda>g. g\<lparr>gr_Status := S_APPROVED\<rparr>) (prev_Grades previous)"
  using assms
  by (auto simp: new_submission_def new_test_run_submission_def new_manual_review_submission_def Let_def
      sub_key_def run_key_def prev_ID_def prev_Grades_def set_grades_if_approved_def set_grade_all_def
      split: option.splits if_splits)

lemma previous_is_ledger:
  assumes "sub_db_ok (sdb db) view" and "rows_ok (view d)" and "has_owner s" and "sub_key s = run_key r"
    and "previous_submission db r d = (case previous of None \<Rightarrow> Inl RecordNotFound | Some p \<Rightarrow> Inr p)"
  shows "ledger (view d) (run_key r) = previous"
proof -
  have "previous_submission db r d = sq_last (sdb db) (owner_query s) d"
    using assms(4) by (simp add: previous_submission_def get_submission_def owner_query_def sub_key_def run_key_def)
  with assms(5) last_is_ledger [OF assms(1-3)] assms(4) show ?thesis
    by (cases previous) auto
qed

lemma link_results_simps [simp]:
  "s_score (link_results s) = s_score s" "s_Grades (link_results s) = s_Grades s"
  "submission_date (link_results s) = submission_date s"
  by (simp_all add: link_results_def submission_date_def split: option.split)

text \<open>The ledger before and after, and the message that is saved.\<close>

lemma record_results_ledger:
  assumes "sub_db_ok (sdb db) view" and "slip_days_apart db view" and "rows_ok (view d)"
    and "record_results db impl t1 t2 r results d = (Inr (Some s), d')"
  obtains s0 d1 where
    "new_submission impl t1 t2 r (ledger (view d) (run_key r)) results = Some s0"
    "sub_key s0 = run_key r" "distinct (map gr_UserID (s_Grades s0))" "has_owner s0"
    "s_ID s0 = (case ledger (view d) (sub_key s0) of None \<Rightarrow> 0 | Some p \<Rightarrow> s_ID p)"
    "save_results (sdb db) s0 d = Inr (s, d1)" "view d' = view d1" "rd_Rebuild r \<Longrightarrow> d' = d1"
proof -
  from record_results_Some [OF assms(4)] obtain previous s0 d1 where
    p: "previous_submission db r d = (case previous of None \<Rightarrow> Inl RecordNotFound | Some p \<Rightarrow> Inr p)"
    "new_submission impl t1 t2 r previous results = Some s0"
    "create_submission (sdb db) s0 d = Inr (s, d1)"
    "if rd_Rebuild r then d' = d1 else record_slip_days db r s d1 = (Inr (), d')" .
  note save = create_submission_saves [OF p(3)] and key = new_submission_key [OF p(2)]
  have l: "ledger (view d) (run_key r) = previous"
    using previous_is_ledger [OF assms(1,3) _ _ p(1)] save key by blast
  have "distinct (map gr_UserID (prev_Grades previous))"
  proof (cases previous)
    case (Some q)
    with ledger_Some l have "q \<in> set (sv_submissions (view d))" by metis
    with Some assms(3) show ?thesis by (auto simp: rows_ok_def list_all_iff prev_Grades_def)
  qed (simp add: prev_Grades_def)
  then have "distinct (map gr_UserID (s_Grades s0))" using key(2) by (auto simp: comp_def)
  moreover have "view d' = view d1" "rd_Rebuild r \<Longrightarrow> d' = d1"
    using p(4) record_slip_days_view [OF assms(2)] by (auto split: if_splits)
  ultimately show ?thesis
    using that [of s0 d1] save key(1) l p(2) by (auto simp: prev_ID_def)
qed

lemma new_run_keeps:
  assumes "sub_db_ok (sdb db) view" and "slip_days_apart db view" and "rows_ok (view d)"
    and "record_results db impl t1 t2 r results d = (Inr (Some s), d')"
    and "ledger (view d) (run_key r) = Some p"
  shows "s_ID s = s_ID p \<and> (\<forall>u. is_approved p u \<longrightarrow> is_approved s u) \<and>
     (\<forall>res. results = Some res \<longrightarrow> s_score s = sum_or impl res \<and>
        s_Grades s = (if a_autoApprove (rd_Assignment r) \<and> a_scoreLimit (rd_Assignment r) \<le> s_score s
                      then map (\<lambda>g. g\<lparr>gr_Status := S_APPROVED\<rparr>) (s_Grades p) else s_Grades p)) \<and>
     (results = None \<longrightarrow> s_score s = s_score p \<and> s_Grades s = s_Grades p) \<and>
     (rd_Rebuild r \<longrightarrow> (\<exists>s0. save_results (sdb db) s0 d = Inr (s, d')) \<and>
        (results \<noteq> None \<and> s_BuildInfo p \<noteq> None \<longrightarrow> submission_date s = submission_date p))"
proof -
  from record_results_ledger [OF assms(1-4)] obtain s0 d1 where
    n: "new_submission impl t1 t2 r (Some p) results = Some s0" "sub_key s0 = run_key r"
    "s_ID s0 = (case ledger (view d) (sub_key s0) of None \<Rightarrow> 0 | Some p \<Rightarrow> s_ID p)"
    "save_results (sdb db) s0 d = Inr (s, d1)" "rd_Rebuild r \<Longrightarrow> d' = d1"
    by (metis assms(5))
  then have id: "s_ID s0 = s_ID p" using assms(5) by simp
  have "p \<in> set (sv_submissions (view d))" using ledger_Some [OF assms(5)] by blast
  with assms(3) id have "s_ID s0 \<noteq> 0" by (auto simp: rows_ok_def list_all_iff)
  with save_results_old [OF assms(1) n(4)] have s: "s = link_results s0" by blast
  have g: "s_Grades s0 = s_Grades p \<or> s_Grades s0 = map (\<lambda>g. g\<lparr>gr_Status := S_APPROVED\<rparr>) (s_Grades p)"
    using new_submission_key(2) [OF n(1)] by (simp add: prev_Grades_def)
  then have "is_approved s0 u" if "is_approved p u" for u
    using that by (auto simp: is_approved_def list_ex_iff)
  then have appr: "\<forall>u. is_approved p u \<longrightarrow> is_approved s u" by (simp add: s is_approved_def)
  have man: "results = None \<longrightarrow> s_score s = s_score p \<and> s_Grades s = s_Grades p"
    using n(1) by (auto simp: s new_submission_def new_manual_review_submission_def prev_Grades_def)
  have run: "s_score s = sum_or impl res \<and>
        s_Grades s = (if a_autoApprove (rd_Assignment r) \<and> a_scoreLimit (rd_Assignment r) \<le> s_score s
                      then map (\<lambda>g. g\<lparr>gr_Status := S_APPROVED\<rparr>) (s_Grades p) else s_Grades p) \<and>
        (rd_Rebuild r \<and> s_BuildInfo p \<noteq> None \<longrightarrow> submission_date s = submission_date p)"
    if "results = Some res" for res
  proof -
    from n(1) that obtain res' where res': "keep_delivery_date r (Some p) res = Some res'"
      "s0 = zero_submission\<lparr>s_ID := s_ID p, s_AssignmentID := a_ID (rd_Assignment r),
             s_userID := r_userID (rd_Repo r), s_groupID := r_groupID (rd_Repo r), s_commitHash := rd_CommitID r,
             s_score := sum_or impl res',
             s_Grades := s_Grades (set_grades_if_approved p (rd_Assignment r) (sum_or impl res')),
             s_BuildInfo := rs_BuildInfo res', s_Scores := rs_Scores res'\<rparr>"
      by (auto simp: new_submission_def new_test_run_submission_def Let_def prev_ID_def prev_Grades_def
          set_grades_if_approved_def set_grade_all_def)
    have "rs_Scores res' = rs_Scores res"
      using res'(1) by (auto simp: keep_delivery_date_def split: option.splits if_splits)
    then have eq: "sum_or impl res' = sum_or impl res"
      by (simp add: sum_or_def results_sum_def task_sum_def internal_sum_def task_scores_def)
    have "s_score s = sum_or impl res" by (simp add: s res'(2) eq)
    moreover have "s_Grades s = s_Grades (set_grades_if_approved p (rd_Assignment r) (sum_or impl res))"
      by (simp add: s res'(2) eq)
    moreover have "submission_date s = submission_date p" if "rd_Rebuild r" "s_BuildInfo p \<noteq> None"
    proof -
      from that res'(1) obtain b rb where "s_BuildInfo p = Some b"
        "rs_BuildInfo res' = Some (rb\<lparr>bi_SubmissionDate := bi_SubmissionDate b\<rparr>)"
        by (auto simp: keep_delivery_date_def split: option.splits)
      then show ?thesis by (simp add: s res'(2) submission_date_def link_results_def)
    qed
    ultimately show ?thesis by (simp add: set_grades_if_approved_def set_grade_all_def)
  qed
  have rebuild: "\<exists>s0. save_results (sdb db) s0 d = Inr (s, d')" if "rd_Rebuild r" using n(4,5) that by blast
  have date: "submission_date s = submission_date p" if "rd_Rebuild r" "results \<noteq> None \<and> s_BuildInfo p \<noteq> None"
    using run that by blast
  have "s_ID s = s_ID p" using id by (simp add: s)
  then show ?thesis
    by (intro conjI allI impI appr [rule_format] man [rule_format, THEN conjunct1] man [rule_format, THEN conjunct2]
        run [THEN conjunct1] run [THEN conjunct2, THEN conjunct1] rebuild date) simp_all
qed

section \<open>Properties\<close>

text \<open>
  C4: recording results refines an update of the ledger of submissions: afterwards the latest submission
  of the assignment and its owner is the recorded one (its score, commit, build information, scores
  and grades), the latest submissions of all other assignments and owners are as before, the rows keep
  their invariant, and there is one more row only if there was no submission before.
\<close>

theorem record_results_refines_ledger:
  assumes "sub_db_ok (sdb db) view" and "slip_days_apart db view" and "rows_ok (view d)"
    and "record_results db impl t1 t2 r results d = (Inr (Some s), d')"
  shows "rows_ok (view d') \<and>
     (\<exists>e. holds e s \<and> ledger (view d') = (ledger (view d))(run_key r \<mapsto> e)) \<and>
     length (sv_submissions (view d')) =
       length (sv_submissions (view d)) + (if ledger (view d) (run_key r) = None then 1 else 0)"
proof -
  from record_results_ledger [OF assms] obtain s0 d1 where
    "sub_key s0 = run_key r" "distinct (map gr_UserID (s_Grades s0))" "has_owner s0"
    "s_ID s0 = (case ledger (view d) (sub_key s0) of None \<Rightarrow> 0 | Some p \<Rightarrow> s_ID p)"
    "save_results (sdb db) s0 d = Inr (s, d1)" "view d' = view d1" by blast
  with save_results_ledger [OF assms(1,3), of s0 s d1] show ?thesis by simp
qed

text \<open>what a new run keeps of the submission before it: the identifier, and every approval (a run never
  takes an approval away); with automatic approval a score at the limit approves everybody, and any
  other run leaves the grades as they are.  A rebuild keeps the date of delivery and charges no slip days.
\<close>

lemma record_results_keeps:
  assumes "sub_db_ok (sdb db) view" and "slip_days_apart db view" and "rows_ok (view d)"
    and "record_results db impl t1 t2 r results d = (Inr (Some s), d')"
    and "ledger (view d) (run_key r) = Some p"
  shows "s_ID s = s_ID p \<and> (\<forall>u. is_approved p u \<longrightarrow> is_approved s u) \<and>
     (\<forall>res. results = Some res \<longrightarrow> s_score s = sum_or impl res \<and>
        s_Grades s = (if a_autoApprove (rd_Assignment r) \<and> a_scoreLimit (rd_Assignment r) \<le> s_score s
                      then map (\<lambda>g. g\<lparr>gr_Status := S_APPROVED\<rparr>) (s_Grades p) else s_Grades p)) \<and>
     (results = None \<longrightarrow> s_score s = s_score p \<and> s_Grades s = s_Grades p) \<and>
     (rd_Rebuild r \<longrightarrow> (\<exists>s0. save_results (sdb db) s0 d = Inr (s, d')) \<and>
        (results \<noteq> None \<and> s_BuildInfo p \<noteq> None \<longrightarrow> submission_date s = submission_date p))"
  using assms by (rule new_run_keeps)

section \<open>A recorded run\<close>

definition row_enr_db :: "sub_view enr_db" where
  "row_enr_db = sub_db.extend row_db (enr_db.fields
     (\<lambda>c u v. Inr (zero_enrollment\<lparr>e_ID := 1, e_courseID := c, e_userID := u\<rparr>, zero_course\<lparr>c_ID := c\<rparr>, zero_user\<lparr>u_ID := u\<rparr>))
     (\<lambda>g v. Inr (member_list v g)) (\<lambda>g us v. Inr (zero_group\<lparr>g_ID := g\<rparr>)) (\<lambda>x v. Inr v))"

lemma row_enr_db_ok: "sub_db_ok (sdb row_enr_db) row_view" "slip_days_apart row_enr_db row_view"
  using row_db_ok
  by (simp_all add: row_enr_db_def sub_db.extend_def sub_db.truncate_def enr_db.fields_def row_db_def slip_days_apart_def)

definition sample_previous :: submission where
  "sample_previous = zero_submission\<lparr>s_ID := 3, s_AssignmentID := 1, s_userID := 5, s_score := 70,
     s_Grades := [\<lparr>gr_SubmissionID = 3, gr_UserID = 5, gr_Status = S_APPROVED\<rparr>],
     s_BuildInfo := Some (zero_build_info\<lparr>bi_SubmissionDate := Some 100\<rparr>)\<rparr>"

definition sample_rows :: sub_view where
  "sample_rows = \<lparr>sv_users = [5], sv_members = [], sv_assignments = [zero_assignment\<lparr>a_ID := 1, a_CourseID := 1\<rparr>],
     sv_submissions = [sample_previous]\<rparr>"

definition sample_rebuild :: run_data where
  "sample_rebuild = sample_run_data\<lparr>rd_Assignment := zero_assignment\<lparr>a_ID := 1, a_CourseID := 1\<rparr>,
     rd_Repo := zero_repository\<lparr>r_userID := 5, r_repoType := R_USER\<rparr>, rd_Rebuild := True\<rparr>"

definition sample_rebuild_results :: results where
  "sample_rebuild_results = empty_results\<lparr>rs_BuildInfo := Some zero_build_info\<rparr>"

lemma sample_rows_ok: "rows_ok (row_view sample_rows)"
  by (simp add: rows_ok_def sample_rows_def sample_previous_def zero_submission_def has_owner_def)

lemma sample_ledger: "ledger (row_view sample_rows) (run_key sample_rebuild) = Some sample_previous"
  by (simp add: ledger_def run_key_def sample_rebuild_def sample_rows_def sample_previous_def sub_key_def
      zero_submission_def zero_assignment_def zero_repository_def last_opt_def)

lemma sample_record:
  "\<exists>s d'. record_results row_enr_db 0 0 0 sample_rebuild (Some sample_rebuild_results) sample_rows = (Inr (Some s), d')"
  by (simp add: record_results_def previous_submission_def get_submission_def row_enr_db_def sub_db.extend_def
      sub_db.truncate_def enr_db.fields_def row_db_def last_row_def find_row_def sample_rows_def sample_previous_def
      sample_rebuild_def sample_run_data_def sample_rebuild_results_def empty_results_def record_new_def
      new_submission_def new_test_run_submission_def keep_delivery_date_def create_submission_def
      check_submission_def save_results_def owner_query_def sub_matches_def prev_ID_def prev_Grades_def
      zero_defs Let_def set_grades_if_approved_def set_grade_all_def)

lemma record_results_refines_ledger_witness:
  "\<exists>s d' e. record_results row_enr_db 0 0 0 sample_rebuild (Some sample_rebuild_results) sample_rows = (Inr (Some s), d') \<and>
     rows_ok (row_view d') \<and> holds e s \<and>
     ledger (row_view d') = (ledger (row_view sample_rows))(run_key sample_rebuild \<mapsto> e)"
proof -
  obtain s d' where r: "record_results row_enr_db 0 0 0 sample_rebuild (Some sample_rebuild_results) sample_rows = (Inr (Some s), d')"
    using sample_record by blast
  from record_results_refines_ledger [OF row_enr_db_ok sample_rows_ok r] r show ?thesis by blast
qed

lemma record_results_keeps_witness:
  "\<exists>s d'. record_results row_enr_db 0 0 0 sample_rebuild (Some sample_rebuild_results) sample_rows = (Inr (Some s), d') \<and>
     is_approved s 5 \<and> submission_date s = 100"
proof -
  obtain s d' where r: "record_results row_enr_db 0 0 0 sample_rebuild (Some sample_rebuild_results) sample_rows = (Inr (Some s), d')"
    using sample_record by blast
  note k = record_results_keeps [OF row_enr_db_ok sample_rows_ok r sample_ledger]
  have "is_approved sample_previous 5" "rd_Rebuild sample_rebuild" "s_BuildInfo sample_previous \<noteq> None"
    "submission_date sample_previous = 100"
    by (simp_all add: sample_previous_def is_approved_def sample_rebuild_def submission_date_def as_time_def zero_build_info_def)
  with k r show ?thesis by auto
qed

end
