(* ===== verification/Group_Store.thy ===== *)
theory Group_Store
  imports Record_Results Entities
begin

text \<open>
  Groups in the database: \<open>database/gormdb_group.go\<close>.  The statements on groups and enrollments extend the
  record of statements; \<open>gq_join\<close> sets the group of the enrollments of a course with one of the given
  users and, if there is a list, one of the given statuses, and returns how many rows it changed.
\<close>

section \<open>Statements\<close>

record 'd group_db = "'d enr_db" +
  gq_course_count :: "u64 \<Rightarrow> 'd \<Rightarrow> db_error + nat"
  gq_create :: "group \<Rightarrow> 'd \<Rightarrow> string + (group \<times> 'd)"
  gq_join :: "u64 \<Rightarrow> u64 list \<Rightarrow> user_status list option \<Rightarrow> u64 \<Rightarrow> 'd \<Rightarrow> db_error + (nat \<times> 'd)"
  gq_update :: "group \<Rightarrow> 'd \<Rightarrow> db_error + 'd"
  gq_update_status :: "u64 \<Rightarrow> group_status \<Rightarrow> 'd \<Rightarrow> db_error + 'd"
  gq_replace_users :: "u64 \<Rightarrow> user list \<Rightarrow> 'd \<Rightarrow> db_error + 'd"
  gq_clear_enrollments :: "u64 \<Rightarrow> 'd \<Rightarrow> db_error + 'd"
  gq_submissions :: "u64 \<Rightarrow> 'd \<Rightarrow> db_error + submission list"
  gq_clear_grades :: "u64 \<Rightarrow> 'd \<Rightarrow> db_error + 'd"
  gq_append_grades :: "submission \<Rightarrow> 'd \<Rightarrow> db_error + 'd"
  gq_delete :: "u64 \<Rightarrow> 'd \<Rightarrow> db_error + 'd"
  gq_find :: "u64 \<Rightarrow> group_status list \<Rightarrow> 'd \<Rightarrow> db_error + group list"

abbreviation gdb :: "'d group_db \<Rightarrow> 'd enr_db" where
  "gdb db \<equiv> enr_db.truncate db"

section \<open>Creating a group\<close>

definition course_must_exist :: "'d group_db \<Rightarrow> u64 \<Rightarrow> 'd \<Rightarrow> db_error + unit" where
  "course_must_exist db courseID d =
     (if courseID = 0 then Inl RecordNotFound
      else bind_res (gq_course_count db courseID d) (\<lambda>n. if n \<noteq> 1 then Inl RecordNotFound else Inr ()))"

definition create_group :: "'d group_db \<Rightarrow> group \<Rightarrow> 'd \<Rightarrow> db_error + (group \<times> 'd)" where
  "create_group db g d =
     (if g_users g = [] then Inl EmptyGroup
      else bind_res (course_must_exist db (g_courseID g) d) (\<lambda>_.
        case gq_create db g d of
          Inl e \<Rightarrow> if has_prefix e ''UNIQUE constraint failed'' then Inl DuplicateGroup else Inl (Failed e)
        | Inr (g, d) \<Rightarrow>
            bind_res (gq_join db (g_courseID g) (group_user_ids g)
                (Some [Enrollment_STUDENT, Enrollment_TEACHER]) (g_ID g) d)
              (\<lambda>(n, d). if n \<noteq> length (group_user_ids g) then Inl UpdateGroupErr else Inr (g, d))))"

section \<open>Grades of the submissions of a group\<close>

text \<open>\<open>existingGrades\<close> is a map: the last grade of a user counts.\<close>

definition existing_grades :: "grade list \<Rightarrow> u64 \<rightharpoonup> grade" where
  "existing_grades gs = fold (\<lambda>g m. m(gr_UserID g \<mapsto> g)) gs Map.empty"

definition rebuild_grades :: "u64 list \<Rightarrow> submission \<Rightarrow> submission" where
  "rebuild_grades userIDs s =
     s\<lparr>s_Grades := map (\<lambda>u. case existing_grades (s_Grades s) u of
          Some g \<Rightarrow> g
        | None \<Rightarrow> \<lparr>gr_SubmissionID = s_ID s, gr_UserID = u, gr_Status = S_NONE\<rparr>) userIDs\<rparr>"

fun sync_submissions :: "'d group_db \<Rightarrow> u64 list \<Rightarrow> submission list \<Rightarrow> 'd \<Rightarrow> db_error + 'd" where
  "sync_submissions db userIDs [] d = Inr d"
| "sync_submissions db userIDs (s # ss) d =
     (let s = rebuild_grades userIDs s
      in bind_res (sq_assignment (sdb (gdb db)) (zero_assignment\<lparr>a_ID := s_AssignmentID s\<rparr>) d) (\<lambda>a.
           (let s = set_grades_if_approved s a (s_score s)
            in bind_res (gq_clear_grades db (s_ID s) d) (\<lambda>d.
               bind_res (gq_append_grades db s d) (sync_submissions db userIDs ss)))))"

definition sync_group_grades :: "'d group_db \<Rightarrow> u64 \<Rightarrow> u64 list \<Rightarrow> 'd \<Rightarrow> db_error + 'd" where
  "sync_group_grades db groupID userIDs d =
     (case gq_submissions db groupID d of
        Inl e \<Rightarrow> if e = RecordNotFound then Inr d else Inl e
      | Inr ss \<Rightarrow> sync_submissions db userIDs ss d)"

section \<open>Updating, deleting and reading groups\<close>

definition db_update_group :: "'d group_db \<Rightarrow> group \<Rightarrow> 'd \<Rightarrow> db_error + 'd" where
  "db_update_group db g d =
     bind_res (course_must_exist db (g_courseID g) d) (\<lambda>_.
     bind_res (gq_update db g d) (\<lambda>d.
     bind_res (gq_replace_users db (g_ID g) (g_users g) d) (\<lambda>d.
     bind_res (gq_clear_enrollments db (g_ID g) d) (\<lambda>d.
     bind_res (sync_group_grades db (g_ID g) (group_user_ids g) d) (\<lambda>d.
     bind_res (gq_join db (g_courseID g) (group_user_ids g) None (g_ID g) d) (\<lambda>(n, d).
       if n \<noteq> length (group_user_ids g) then Inl UpdateGroupErr else Inr d))))))"

definition update_group_status :: "'d group_db \<Rightarrow> group \<Rightarrow> 'd \<Rightarrow> db_error + 'd" where
  "update_group_status db g d = gq_update_status db (g_ID g) (g_status g) d"

definition db_delete_group :: "'d group_db \<Rightarrow> u64 \<Rightarrow> 'd \<Rightarrow> db_error + 'd" where
  "db_delete_group db groupID d =
     bind_res (get_group (gdb db) groupID d) (\<lambda>g.
     bind_res (gq_replace_users db (g_ID g) [] d) (\<lambda>d.
     bind_res (gq_clear_enrollments db (g_ID g) d) (\<lambda>d.
       gq_delete db (g_ID g) d)))"

definition get_groups_by_course :: "'d group_db \<Rightarrow> u64 \<Rightarrow> group_status list \<Rightarrow> 'd \<Rightarrow> db_error + group list" where
  "get_groups_by_course db courseID statuses d =
     gq_find db courseID (if statuses = [] then [Group_PENDING, Group_APPROVED] else statuses) d"

section \<open>Lemmas\<close>

lemma existing_grades_other: "u \<notin> gr_UserID ` set gs \<Longrightarrow> fold (\<lambda>g m. m(gr_UserID g \<mapsto> g)) gs m u = m u"
  by (induction gs arbitrary: m) auto

lemma existing_grades_in:
  assumes "distinct (map gr_UserID gs)" and "g \<in> set gs"
  shows "existing_grades gs (gr_UserID g) = Some g"
  unfolding existing_grades_def using assms
proof (induction gs arbitrary: g rule: rev_induct)
  case (snoc x gs)
  then show ?case by (cases "g = x") (auto simp: image_iff)
qed simp

lemma existing_grades_user: "existing_grades gs u = Some g \<Longrightarrow> gr_UserID g = u"
  unfolding existing_grades_def by (induction gs rule: rev_induct) (auto split: if_splits)

lemma existing_grades_None: "u \<notin> gr_UserID ` set gs \<Longrightarrow> existing_grades gs u = None"
  by (simp add: existing_grades_def existing_grades_other)

lemma rebuild_grades_users: "map gr_UserID (s_Grades (rebuild_grades userIDs s)) = userIDs"
  by (auto simp: rebuild_grades_def comp_def dest: existing_grades_user intro!: map_idI split: option.split)

lemma find_map_key:
  assumes "u \<in> set us" and "\<And>v. k (f v) = v"
  shows "find (\<lambda>x. k x = u) (map f us) = Some (f u)"
  using assms by (induction us) auto

lemma rebuild_grades_status:
  assumes "u \<in> set userIDs"
  shows "get_status_by_user (rebuild_grades userIDs s) u =
     (case existing_grades (s_Grades s) u of Some g \<Rightarrow> gr_Status g | None \<Rightarrow> S_NONE)"
proof -
  let ?f = "\<lambda>u. case existing_grades (s_Grades s) u of
          Some g \<Rightarrow> g | None \<Rightarrow> \<lparr>gr_SubmissionID = s_ID s, gr_UserID = u, gr_Status = S_NONE\<rparr>"
  have "gr_UserID (?f v) = v" for v by (auto dest: existing_grades_user split: option.split)
  from find_map_key [of u userIDs gr_UserID ?f, OF assms this] show ?thesis
    by (simp add: get_status_by_user_def rebuild_grades_def split: option.split)
qed

lemma get_status_existing:
  assumes "distinct (map gr_UserID (s_Grades s))"
  shows "(case existing_grades (s_Grades s) u of Some g \<Rightarrow> gr_Status g | None \<Rightarrow> S_NONE) = get_status_by_user s u"
proof (cases "u \<in> gr_UserID ` set (s_Grades s)")
  case True
  then obtain g where g: "find (\<lambda>g. gr_UserID g = u) (s_Grades s) = Some g" "gr_UserID g = u"
    using find_key_Some by metis
  then have "g \<in> set (s_Grades s)" by (metis find_Some_iff nth_mem)
  with g existing_grades_in [OF assms this] show ?thesis by (simp add: get_status_by_user_def)
next
  case False
  then show ?thesis by (simp add: existing_grades_None get_status_no_grade)
qed

section \<open>What the statements on grades do\<close>

text \<open>
  What GORM documents of the statements that \<open>UpdateGroup\<close> makes, over the rows of submissions: a query by a
  struct has the zero group match everything, clearing an association takes its rows away from the
  submission, appending gives it those rows with its key, and what is written of groups, their users and
  enrollments is not in these rows; a join changes at most one enrollment for each user, as a user has one in a course.
\<close>

definition keeps_rows :: "('d \<Rightarrow> sub_view) \<Rightarrow> ('d \<Rightarrow> db_error + 'd) \<Rightarrow> bool" where
  "keeps_rows view q \<longleftrightarrow> (\<forall>d d'. q d = Inr d' \<longrightarrow>
     sv_submissions (view d') = sv_submissions (view d) \<and> sv_assignments (view d') = sv_assignments (view d))"

definition group_grades_ok :: "'d group_db \<Rightarrow> ('d \<Rightarrow> sub_view) \<Rightarrow> bool" where
  "group_grades_ok db view \<longleftrightarrow> sub_db_ok (sdb (gdb db)) view \<and>
     (\<forall>g d ss. gq_submissions db g d = Inr ss \<longrightarrow>
        ss = filter (sub_matches (zero_submission\<lparr>s_groupID := g\<rparr>)) (sv_submissions (view d))) \<and>
     (\<forall>g d. gq_submissions db g d = Inl RecordNotFound \<longrightarrow>
        filter (sub_matches (zero_submission\<lparr>s_groupID := g\<rparr>)) (sv_submissions (view d)) = []) \<and>
     (\<forall>i d d'. gq_clear_grades db i d = Inr d' \<longrightarrow>
        view d' = update_rows (on_id i (\<lambda>r. r\<lparr>s_Grades := []\<rparr>)) (view d)) \<and>
     (\<forall>s d d'. gq_append_grades db s d = Inr d' \<longrightarrow>
        view d' = update_rows (on_id (s_ID s) (\<lambda>r. r\<lparr>s_Grades := s_Grades r @
          map (\<lambda>g. g\<lparr>gr_SubmissionID := s_ID s\<rparr>) (s_Grades s)\<rparr>)) (view d)) \<and>
     (\<forall>g. keeps_rows view (gq_update db g)) \<and> (\<forall>g us. keeps_rows view (gq_replace_users db g us)) \<and>
     (\<forall>g. keeps_rows view (gq_clear_enrollments db g)) \<and>
     (\<forall>c us sts g d n d'. gq_join db c us sts g d = Inr (n, d') \<longrightarrow> n \<le> card (set us) \<and>
        sv_submissions (view d') = sv_submissions (view d) \<and> sv_assignments (view d') = sv_assignments (view d))"

lemma group_grades_okD:
  assumes "group_grades_ok db view"
  shows "sub_db_ok (sdb (gdb db)) view"
    and "gq_submissions db g d = Inr ss \<Longrightarrow>
        ss = filter (sub_matches (zero_submission\<lparr>s_groupID := g\<rparr>)) (sv_submissions (view d))"
    and "gq_submissions db g d = Inl RecordNotFound \<Longrightarrow>
        filter (sub_matches (zero_submission\<lparr>s_groupID := g\<rparr>)) (sv_submissions (view d)) = []"
    and "gq_clear_grades db i d = Inr d' \<Longrightarrow> view d' = update_rows (on_id i (\<lambda>r. r\<lparr>s_Grades := []\<rparr>)) (view d)"
    and "gq_append_grades db s d = Inr d' \<Longrightarrow>
        view d' = update_rows (on_id (s_ID s) (\<lambda>r. r\<lparr>s_Grades := s_Grades r @
          map (\<lambda>g. g\<lparr>gr_SubmissionID := s_ID s\<rparr>) (s_Grades s)\<rparr>)) (view d)"
    and "keeps_rows view (gq_update db g')" and "keeps_rows view (gq_replace_users db g us)"
    and "keeps_rows view (gq_clear_enrollments db g)"
    and "gq_join db c us' sts g d = Inr (n, d') \<Longrightarrow> n \<le> card (set us') \<and>
        sv_submissions (view d') = sv_submissions (view d) \<and> sv_assignments (view d') = sv_assignments (view d)"
  using assms by (simp_all add: group_grades_ok_def)

text \<open>The grade of a member in a submission of the group, once the members are synchronized.\<close>

definition member_grade :: "assignment \<Rightarrow> submission \<Rightarrow> u64 \<Rightarrow> grade" where
  "member_grade a r u = \<lparr>gr_SubmissionID = s_ID r, gr_UserID = u,
     gr_Status = if a_autoApprove a \<and> a_scoreLimit a \<le> s_score r then S_APPROVED else get_status_by_user r u\<rparr>"

lemma synced_row:
  assumes "distinct (map gr_UserID (s_Grades r))"
  shows "map (\<lambda>g. g\<lparr>gr_SubmissionID := s_ID r\<rparr>) (s_Grades (set_grades_if_approved (rebuild_grades us r) a (s_score r))) =
    map (member_grade a r) us"
proof -
  have st: "(case existing_grades (s_Grades r) u of None \<Rightarrow> S_NONE | Some g \<Rightarrow> gr_Status g) = get_status_by_user r u" for u
    using get_status_existing [OF assms, of u] by (simp split: option.splits)
  have "(case existing_grades (s_Grades r) u of
           None \<Rightarrow> \<lparr>gr_SubmissionID = s_ID r, gr_UserID = u, gr_Status = S_NONE\<rparr> | Some g \<Rightarrow> g)\<lparr>gr_SubmissionID := s_ID r\<rparr> =
         \<lparr>gr_SubmissionID = s_ID r, gr_UserID = u, gr_Status = get_status_by_user r u\<rparr>" for u
    using st [of u] by (auto dest: existing_grades_user split: option.splits intro: grade.equality)
  then show ?thesis
    by (auto simp: set_grades_if_approved_def set_grade_all_def rebuild_grades_def member_grade_def dest: existing_grades_user
        split: option.splits)
qed

definition synced :: "u64 list \<Rightarrow> submission set \<Rightarrow> assignment list \<Rightarrow> submission \<Rightarrow> submission \<Rightarrow> bool" where
  "synced us R as r r' \<longleftrightarrow>
     (if r \<in> R then \<exists>a\<in>set as. a_ID a = s_AssignmentID r \<and> r' = r\<lparr>s_Grades := map (member_grade a r) us\<rparr> else r' = r)"

lemma sync_one:
  assumes ok: "group_grades_ok db view" and rows: "rows_ok (view d)" and r: "r \<in> set (sv_submissions (view d))"
    and run: "sync_submissions db us (r # ss) d = Inr d'"
  obtains a d1 where "a \<in> set (sv_assignments (view d))" and "a_ID a = s_AssignmentID r"
    and "view d1 = update_rows (on_id (s_ID r) (\<lambda>x. x\<lparr>s_Grades := map (member_grade a r) us\<rparr>)) (view d)"
    and "sync_submissions db us ss d1 = Inr d'"
proof -
  let ?s = "\<lambda>a. set_grades_if_approved (rebuild_grades us r) a (s_score r)"
  have fields: "s_ID (?s a) = s_ID r" "s_ID (rebuild_grades us r) = s_ID r" "s_score (rebuild_grades us r) = s_score r"
    "s_AssignmentID (rebuild_grades us r) = s_AssignmentID r" for a
    by (simp_all add: set_grades_if_approved_def set_grade_all_def rebuild_grades_def)
  from run obtain a d2 d1 where a: "sq_assignment (sdb (gdb db)) (zero_assignment\<lparr>a_ID := s_AssignmentID r\<rparr>) d = Inr a"
    and d2: "gq_clear_grades db (s_ID r) d = Inr d2" and d1: "gq_append_grades db (?s a) d2 = Inr d1"
    and rest: "sync_submissions db us ss d1 = Inr d'"
    by (auto simp: Let_def bind_res_Inr_iff fields)
  have own: "s_AssignmentID r \<noteq> 0" "distinct (map gr_UserID (s_Grades r))"
    using rows r by (auto simp: rows_ok_def list_all_iff has_owner_def)
  note sub = group_grades_okD(1) [OF ok]
  note v2 = group_grades_okD(4) [OF ok d2]
  have "view d1 = update_rows (on_id (s_ID r) (\<lambda>x. x\<lparr>s_Grades := s_Grades x @
      map (\<lambda>g. g\<lparr>gr_SubmissionID := s_ID r\<rparr>) (s_Grades (?s a))\<rparr>)) (view d2)"
    using group_grades_okD(5) [OF ok d1] by (simp only: fields)
  then have "view d1 = update_rows (on_id (s_ID r) (\<lambda>x. x\<lparr>s_Grades := map (member_grade a r) us\<rparr>)) (view d)"
    unfolding v2 synced_row [OF own(2)] by (simp add: on_id_def)
  with sub_db_okD(7) [OF sub a] own(1) rest show thesis by (intro that [of a d1]) simp_all
qed

lemma rows_ok_map:
  assumes "rows_ok v"
    and "\<And>x. x \<in> set (sv_submissions v) \<Longrightarrow> s_ID (f x) = s_ID x \<and> has_owner (f x) \<and> distinct (map gr_UserID (s_Grades (f x)))"
  shows "rows_ok (update_rows f v)"
proof -
  have "map s_ID (map f (sv_submissions v)) = map s_ID (sv_submissions v)" using assms(2) by simp
  with assms show ?thesis by (auto simp: rows_ok_def list_all_iff simp del: map_map)
qed

lemma sync_submissions_rows:
  assumes ok: "group_grades_ok db view"
  shows "rows_ok (view d) \<Longrightarrow> distinct us \<Longrightarrow> set ss \<subseteq> set (sv_submissions (view d)) \<Longrightarrow> distinct ss \<Longrightarrow>
    sync_submissions db us ss d = Inr d' \<Longrightarrow> sv_assignments (view d') = sv_assignments (view d) \<and>
    list_all2 (synced us (set ss) (sv_assignments (view d))) (sv_submissions (view d)) (sv_submissions (view d'))"
proof (induction ss arbitrary: d)
  case Nil
  then show ?case by (simp add: synced_def list_all2_same)
next
  case (Cons r ss)
  have r: "r \<in> set (sv_submissions (view d))" using Cons.prems(3) by simp
  from sync_one [OF ok Cons.prems(1) r Cons.prems(5)] obtain a d1 where
    a: "a \<in> set (sv_assignments (view d))" "a_ID a = s_AssignmentID r"
    and v: "view d1 = update_rows (on_id (s_ID r) (\<lambda>x. x\<lparr>s_Grades := map (member_grade a r) us\<rparr>)) (view d)"
    and rest: "sync_submissions db us ss d1 = Inr d'" .
  let ?f = "on_id (s_ID r) (\<lambda>x. x\<lparr>s_Grades := map (member_grade a r) us\<rparr>)"
  have only: "x = r" if "x \<in> set (sv_submissions (view d))" "s_ID x = s_ID r" for x
    using Cons.prems(1) r that by (auto simp: rows_ok_def distinct_map inj_on_def)
  have f: "?f x = (if x = r then r\<lparr>s_Grades := map (member_grade a r) us\<rparr> else x)" if "x \<in> set (sv_submissions (view d))" for x
    using only [OF that] by (auto simp: on_id_def)
  have users: "map gr_UserID (map (member_grade a r) us) = us" by (simp add: member_grade_def comp_def)
  have rows: "rows_ok (view d1)" unfolding v
  proof (rule rows_ok_map [OF Cons.prems(1)])
    fix x assume "x \<in> set (sv_submissions (view d))"
    with Cons.prems(1,2) users show "s_ID (?f x) = s_ID x \<and> has_owner (?f x) \<and> distinct (map gr_UserID (s_Grades (?f x)))"
      by (auto simp: on_id_def rows_ok_def list_all_iff has_owner_def simp del: map_map)
  qed
  have ss: "x \<in> set (sv_submissions (view d)) \<and> ?f x = x" if "x \<in> set ss" for x
    using that Cons.prems(3,4) f [of x] by auto
  have "set ss \<subseteq> set (sv_submissions (view d1))" unfolding v using ss by (force simp del: on_id_def)
  from Cons.IH [OF rows Cons.prems(2) this _ rest] Cons.prems(4)
  have IH: "sv_assignments (view d') = sv_assignments (view d1)"
    "list_all2 (synced us (set ss) (sv_assignments (view d1))) (sv_submissions (view d1)) (sv_submissions (view d'))" by simp_all
  have "synced us (set (r # ss)) (sv_assignments (view d)) x y"
    if x: "x \<in> set (sv_submissions (view d))" and y: "synced us (set ss) (sv_assignments (view d1)) (?f x) y" for x y
  proof (cases "x = r")
    case True
    have "?f r \<notin> set ss"
    proof
      assume "?f r \<in> set ss"
      with Cons.prems(3) have "?f r \<in> set (sv_submissions (view d))" by auto
      with only [of "?f r"] have "?f r = r" by (simp add: on_id_def)
      with \<open>?f r \<in> set ss\<close> Cons.prems(4) show False by simp
    qed
    with y True f [OF r] a show ?thesis by (auto simp: synced_def)
  next
    case False
    with y f [OF x] v show ?thesis by (auto simp: synced_def)
  qed
  with IH v show ?case by (auto simp: list_all2_conv_all_nth)
qed

section \<open>Properties\<close>

text \<open>
  C26: when \<open>UpdateGroup\<close> succeeds, every submission of the group has exactly one grade for each of the new members, in
  their order, and none for anybody else: approved if the assignment of the submission approves automatically at its
  score, also for a member whose grade had been rejected, and otherwise with the status the member had before, which is
  none for a new member.  Nothing else of these submissions changes, and no submission of another owner does.
\<close>

theorem synced_grades:
  assumes "group_grades_ok db view" and "rows_ok (view d)" and "g_ID g \<noteq> 0" and "db_update_group db g d = Inr d'"
  shows "list_all2 (\<lambda>r r'. if s_groupID r = g_ID g
      then \<exists>a\<in>set (sv_assignments (view d)). a_ID a = s_AssignmentID r \<and>
        r' = r\<lparr>s_Grades := map (\<lambda>u. \<lparr>gr_SubmissionID = s_ID r, gr_UserID = u,
          gr_Status = if a_autoApprove a \<and> a_scoreLimit a \<le> s_score r then S_APPROVED else get_status_by_user r u\<rparr>)
          (group_user_ids g)\<rparr>
      else r' = r) (sv_submissions (view d)) (sv_submissions (view d'))"
proof -
  note law = group_grades_okD [OF assms(1)]
  let ?us = "group_user_ids g"
  let ?R = "\<lambda>v. filter (sub_matches (zero_submission\<lparr>s_groupID := g_ID g\<rparr>)) (sv_submissions v)"
  from assms(4) obtain d1 d2 d3 d4 n where q: "gq_update db g d = Inr d1" "gq_replace_users db (g_ID g) (g_users g) d1 = Inr d2"
    "gq_clear_enrollments db (g_ID g) d2 = Inr d3" "sync_group_grades db (g_ID g) ?us d3 = Inr d4"
    "gq_join db (g_courseID g) ?us None (g_ID g) d4 = Inr (n, d')" "n = length ?us"
    by (auto simp: db_update_group_def bind_res_Inr_iff split: prod.splits if_splits)
  have before: "sv_submissions (view d3) = sv_submissions (view d)" "sv_assignments (view d3) = sv_assignments (view d)"
    using law(6) [of g] law(7) [of "g_ID g" "g_users g"] law(8) [of "g_ID g"] q(1-3) by (auto simp: keeps_rows_def)
  have after: "sv_submissions (view d') = sv_submissions (view d4)" "length ?us \<le> card (set ?us)" using law(9) [OF q(5)] q(6) by auto
  then have us: "distinct ?us" using card_length [of ?us] by (intro card_distinct) simp
  have matches: "set (?R v) = {r \<in> set (sv_submissions v). s_groupID r = g_ID g}" for v
    using assms(3) by (auto simp: sub_matches_def zero_submission_def)
  have rows: "rows_ok (view d3)" using assms(2) before by (simp add: rows_ok_def)
  have dist: "distinct (?R (view d3))" using rows by (auto simp: rows_ok_def distinct_map)
  have "list_all2 (synced ?us (set (?R (view d3))) (sv_assignments (view d3))) (sv_submissions (view d3)) (sv_submissions (view d4))"
  proof (cases "gq_submissions db (g_ID g) d3")
    case (Inl e)
    then have "e = RecordNotFound" "d4 = d3" using q(4) by (auto simp: sync_group_grades_def split: if_splits)
    with law(3) [of "g_ID g" d3] Inl show ?thesis by (simp add: list_all2_same synced_def del: filter_empty_conv)
  next
    case (Inr ss)
    with q(4) have "sync_submissions db ?us ss d3 = Inr d4" by (simp add: sync_group_grades_def)
    with sync_submissions_rows [OF assms(1) rows us _ _ this] law(2) [OF Inr] dist show ?thesis by auto
  qed
  then show ?thesis unfolding before after matches synced_def member_grade_def [abs_def]
    by (auto simp: list_all2_conv_all_nth)
qed

text \<open>A database of rows, with a group of two members.\<close>

definition grades_db :: "sub_view group_db" where
  "grades_db = enr_db.extend row_enr_db (group_db.fields (\<lambda>c v. Inr 1) (\<lambda>g v. Inl ''read only'')
     (\<lambda>c us sts g v. Inr (length (remdups us), v)) (\<lambda>g v. Inr v) (\<lambda>g st v. Inr v) (\<lambda>g us v. Inr v) (\<lambda>g v. Inr v)
     (\<lambda>g v. Inr (filter (sub_matches (zero_submission\<lparr>s_groupID := g\<rparr>)) (sv_submissions v)))
     (\<lambda>i v. Inr (update_rows (on_id i (\<lambda>r. r\<lparr>s_Grades := []\<rparr>)) v))
     (\<lambda>s v. Inr (update_rows (on_id (s_ID s) (\<lambda>r. r\<lparr>s_Grades := s_Grades r @
        map (\<lambda>g. g\<lparr>gr_SubmissionID := s_ID s\<rparr>) (s_Grades s)\<rparr>)) v))
     (\<lambda>g v. Inr v) (\<lambda>c sts v. Inr []))"

lemmas grades_db_defs = grades_db_def row_enr_db_def enr_db.extend_def sub_db.extend_def enr_db.truncate_def sub_db.truncate_def
  group_db.fields_def enr_db.fields_def

lemma grades_db_ok: "group_grades_ok grades_db row_view"
proof -
  have "sub_db_ok (sdb (gdb grades_db)) row_view"
    using row_enr_db_ok(1) by (simp add: grades_db_defs row_db_def)
  then show ?thesis
    by (simp add: group_grades_ok_def keeps_rows_def) (simp add: grades_db_defs length_remdups_card_conv)
qed

definition sample_team_row :: submission where
  "sample_team_row = zero_submission\<lparr>s_ID := 3, s_AssignmentID := 1, s_groupID := 9, s_score := 70,
     s_Grades := [\<lparr>gr_SubmissionID = 3, gr_UserID = 5, gr_Status = S_REJECTED\<rparr>, \<lparr>gr_SubmissionID = 3, gr_UserID = 7, gr_Status = S_NONE\<rparr>]\<rparr>"

definition sample_team_rows :: sub_view where
  "sample_team_rows = \<lparr>sv_users = [5, 6], sv_members = [],
     sv_assignments = [zero_assignment\<lparr>a_ID := 1, a_CourseID := 1, a_autoApprove := True, a_scoreLimit := 60\<rparr>],
     sv_submissions = [sample_team_row]\<rparr>"

definition sample_team_update :: group where
  "sample_team_update = zero_group\<lparr>g_ID := 9, g_courseID := 1, g_users := [zero_user\<lparr>u_ID := 5\<rparr>, zero_user\<lparr>u_ID := 6\<rparr>]\<rparr>"

lemma synced_grades_witness:
  "\<exists>d'. db_update_group grades_db sample_team_update sample_team_rows = Inr d' \<and>
     sv_submissions (row_view d') = [sample_team_row\<lparr>s_Grades :=
       [\<lparr>gr_SubmissionID = 3, gr_UserID = 5, gr_Status = S_APPROVED\<rparr>, \<lparr>gr_SubmissionID = 3, gr_UserID = 6, gr_Status = S_APPROVED\<rparr>]\<rparr>]"
proof -
  have ids: "group_user_ids sample_team_update = [5, 6]" by (simp add: group_user_ids_def sample_team_update_def)
  obtain d' where run: "db_update_group grades_db sample_team_update sample_team_rows = Inr d'"
    unfolding db_update_group_def ids
    by (simp add: grades_db_defs course_must_exist_def sync_group_grades_def sample_team_update_def sample_team_rows_def
        sample_team_row_def sub_matches_def zero_defs row_db_def find_row_def rebuild_grades_def Let_def)
  have rows: "rows_ok (row_view sample_team_rows)"
    by (simp add: rows_ok_def sample_team_rows_def sample_team_row_def has_owner_def zero_defs)
  have "g_ID sample_team_update = 9" by (simp add: sample_team_update_def)
  moreover have "sv_submissions sample_team_rows = [sample_team_row]" "s_groupID sample_team_row = 9" "s_ID sample_team_row = 3"
    "s_score sample_team_row = 70" "\<forall>a\<in>set (sv_assignments sample_team_rows). a_autoApprove a \<and> a_scoreLimit a \<le> 70"
    by (simp_all add: sample_team_rows_def sample_team_row_def)
  ultimately show ?thesis using synced_grades [OF grades_db_ok rows _ run] run unfolding ids
    by (auto simp: list_all2_Cons1)
qed

end
