(* ===== verification/Course_Store.thy ===== *)
theory Course_Store
  imports Group_Store Messages
begin

text \<open>
  Users, courses, enrollments and repositories in the database: \<open>database/gormdb_user.go\<close>,
  \<open>database/gormdb_course.go\<close>, \<open>database/gormdb_enrollment.go\<close> and \<open>database/gormdb_repository.go\<close>.
\<close>

section \<open>Statements\<close>

text \<open>The associations that \<open>GetCourseByStatus\<close> preloads.\<close>

datatype preload = PreloadNothing | PreloadEnrollments | PreloadActive | PreloadAll

record 'd course_db = "'d group_db" +
  cq_user :: "u64 \<Rightarrow> 'd \<Rightarrow> db_error + user"
  cq_users :: "u64 list \<Rightarrow> 'd \<Rightarrow> db_error + user list"
  cq_user_by_login :: "string \<Rightarrow> user_status list \<Rightarrow> 'd \<Rightarrow> db_error + (user \<times> enrollment list)"
  cq_user_by_remote :: "u64 \<Rightarrow> 'd \<Rightarrow> db_error + user"
  cq_create_user :: "user \<Rightarrow> 'd \<Rightarrow> db_error + (user \<times> 'd)"
  cq_save_user :: "user \<Rightarrow> 'd \<Rightarrow> db_error + 'd"
  cq_course :: "course \<Rightarrow> preload \<Rightarrow> 'd \<Rightarrow> db_error + course_msg"
  cq_courses :: "u64 list \<Rightarrow> 'd \<Rightarrow> db_error + course list"
  cq_count_like :: "u64 \<Rightarrow> string \<Rightarrow> u32 \<Rightarrow> 'd \<Rightarrow> db_error + nat"
  cq_create_course :: "course \<Rightarrow> 'd \<Rightarrow> db_error + (course \<times> 'd)"
  cq_update_course :: "course \<Rightarrow> 'd \<Rightarrow> db_error + 'd"
  cq_create_enrollment :: "enrollment \<Rightarrow> 'd \<Rightarrow> db_error + (enrollment \<times> 'd)"
  cq_delete_enrollment :: "enrollment \<Rightarrow> 'd \<Rightarrow> db_error + 'd"
  cq_update_enrollment :: "u64 \<Rightarrow> u64 \<Rightarrow> enrollment \<Rightarrow> 'd \<Rightarrow> db_error + 'd"
  cq_enrollments :: "enrollment_fetch \<Rightarrow> user_status list \<Rightarrow> 'd \<Rightarrow> db_error + (enrollment \<times> course) list"
  cq_commit :: "'d \<Rightarrow> db_error + 'd"
  cq_group_exists :: "u64 \<Rightarrow> 'd \<Rightarrow> db_error + unit"
  cq_create_repository :: "repository \<Rightarrow> 'd \<Rightarrow> db_error + (repository \<times> 'd)"

abbreviation edb :: "'d course_db \<Rightarrow> 'd enr_db" where
  "edb db \<equiv> gdb (group_db.truncate db)"

section \<open>Users\<close>

definition get_user :: "'d course_db \<Rightarrow> u64 \<Rightarrow> 'd \<Rightarrow> db_error + user" where
  "get_user db userID d = cq_user db userID d"

definition update_user :: "'d course_db \<Rightarrow> user \<Rightarrow> 'd \<Rightarrow> db_error + 'd" where
  "update_user db usr d = bind_res (cq_user db (u_ID usr) d) (\<lambda>_. cq_save_user db usr d)"

text \<open>The first user becomes administrator.\<close>

definition create_user :: "'d course_db \<Rightarrow> user \<Rightarrow> 'd \<Rightarrow> db_error + (user \<times> 'd)" where
  "create_user db usr d =
     bind_res (cq_create_user db usr d) (\<lambda>(usr, d).
       if u_ID usr = 1
       then (let usr = usr\<lparr>u_IsAdmin := True\<rparr> in bind_res (update_user db usr d) (\<lambda>d. Inr (usr, d)))
       else Inr (usr, d))"

definition get_users :: "'d course_db \<Rightarrow> u64 list \<Rightarrow> 'd \<Rightarrow> db_error + user list" where
  "get_users db userIDs d = cq_users db userIDs d"

definition get_user_by_course :: "'d course_db \<Rightarrow> course \<Rightarrow> string \<Rightarrow> 'd \<Rightarrow> db_error + user" where
  "get_user_by_course db query login d =
     bind_res (cq_course db query PreloadNothing d) (\<lambda>c.
     bind_res (cq_user_by_login db login [Enrollment_STUDENT, Enrollment_TEACHER] d) (\<lambda>(usr, es).
       if list_ex (\<lambda>e. e_courseID e = c_ID (cm_course c)) es then Inr usr else Inl NotEnrolled))"

section \<open>Courses\<close>

definition create_course :: "'d course_db \<Rightarrow> u64 \<Rightarrow> course \<Rightarrow> 'd \<Rightarrow> db_error + (course \<times> 'd)" where
  "create_course db courseCreatorID c d =
     bind_res (get_user db courseCreatorID d) (\<lambda>creator.
       if \<not> u_IsAdmin creator then Inl InsufficientAccess
       else bind_res (cq_count_like db (c_ScmOrganizationID c) (c_code c) (c_year c) d) (\<lambda>courses.
         if 0 < courses then Inl CourseExists
         else
           bind_res (cq_create_course db (c\<lparr>c_courseCreatorID := courseCreatorID\<rparr>) d) (\<lambda>(c, d).
           bind_res (cq_create_enrollment db (zero_enrollment\<lparr>e_userID := courseCreatorID, e_courseID := c_ID c,
               e_status := Enrollment_TEACHER, e_state := VISIBLE\<rparr>) d) (\<lambda>(_, d).
           bind_res (cq_commit db d) (\<lambda>d. Inr (c, d))))))"

definition get_course :: "'d course_db \<Rightarrow> u64 \<Rightarrow> 'd \<Rightarrow> db_error + course_msg" where
  "get_course db courseID d = cq_course db (zero_course\<lparr>c_ID := courseID\<rparr>) PreloadNothing d"

definition get_course_by_status :: "'d course_db \<Rightarrow> u64 \<Rightarrow> user_status \<Rightarrow> 'd \<Rightarrow> db_error + course_msg" where
  "get_course_by_status db courseID st d =
     (if st = Enrollment_NONE \<or> st = Enrollment_PENDING
      then cq_course db (zero_course\<lparr>c_ID := courseID\<rparr>) PreloadNothing d
      else if st = Enrollment_STUDENT then cq_course db (zero_course\<lparr>c_ID := courseID\<rparr>) PreloadActive d
      else if st = Enrollment_TEACHER
      then bind_res (cq_course db (zero_course\<lparr>c_ID := courseID\<rparr>) PreloadAll d) (\<lambda>c. Inr (populate_slip_days c))
      else Inl (Failed ''invalid enrollment status''))"

definition get_course_by_organization_id :: "'d course_db \<Rightarrow> u64 \<Rightarrow> 'd \<Rightarrow> db_error + course_msg" where
  "get_course_by_organization_id db did d =
     cq_course db (zero_course\<lparr>c_ScmOrganizationID := did\<rparr>) PreloadNothing d"

definition get_courses :: "'d course_db \<Rightarrow> u64 list \<Rightarrow> 'd \<Rightarrow> db_error + course list" where
  "get_courses db courseIDs d = cq_courses db courseIDs d"

section \<open>Enrollments\<close>

definition create_enrollment ::
    "'d course_db \<Rightarrow> (string \<Rightarrow> string option) \<Rightarrow> enrollment \<Rightarrow> 'd \<Rightarrow> db_error + (enrollment \<times> 'd)" where
  "create_enrollment db parse_address e d =
     bind_res (get_user db (e_userID e) d) (\<lambda>usr.
       case validate_profile parse_address usr of
         Some err \<Rightarrow> Inl (IncompleteProfile err)
       | None \<Rightarrow>
           bind_res (gq_course_count (group_db.truncate db) (e_courseID e) d) (\<lambda>n.
             if n \<noteq> 1 then Inl RecordNotFound
             else cq_create_enrollment db (e\<lparr>e_status := Enrollment_PENDING, e_state := VISIBLE\<rparr>) d))"

definition reject_enrollment :: "'d course_db \<Rightarrow> u64 \<Rightarrow> u64 \<Rightarrow> 'd \<Rightarrow> db_error + 'd" where
  "reject_enrollment db userID courseID d =
     bind_res (get_enrollment_by_course_and_user (edb db) courseID userID d) (\<lambda>e. cq_delete_enrollment db e d)"

definition db_update_enrollment :: "'d course_db \<Rightarrow> enrollment \<Rightarrow> 'd \<Rightarrow> db_error + 'd" where
  "db_update_enrollment db e d =
     (if e_ID e = 0 then Inl (Failed ''enrollment query missing primary key: ID'')
      else cq_update_enrollment db (e_courseID e) (e_userID e) e d)"

definition get_enrollments :: "'d course_db \<Rightarrow> enrollment_fetch \<Rightarrow> user_status list \<Rightarrow> 'd \<Rightarrow> db_error + enrollment list" where
  "get_enrollments db model statuses d =
     (let statuses = (if statuses = [] then [Enrollment_PENDING, Enrollment_STUDENT, Enrollment_TEACHER] else statuses)
      in bind_res (cq_enrollments db model statuses d) (\<lambda>es. Inr (map (\<lambda>(e, c). set_slip_days e c) es)))"

definition get_enrollments_by_course where
  "get_enrollments_by_course db courseID = get_enrollments db (FetchByCourseID courseID)"

definition get_enrollments_by_user where
  "get_enrollments_by_user db userID = get_enrollments db (FetchByUserID userID)"

text \<open>The map from courses to enrollments of \<open>GetCoursesByUser\<close>: the last enrollment of a course counts.\<close>

definition get_courses_by_user :: "'d course_db \<Rightarrow> u64 \<Rightarrow> user_status list \<Rightarrow> 'd \<Rightarrow> db_error + course list" where
  "get_courses_by_user db userID statuses d =
     bind_res (get_enrollments db (FetchByUserID userID) statuses d) (\<lambda>es.
       (let m = fold (\<lambda>e m. m(e_courseID e \<mapsto> e)) es Map.empty;
            ids = map e_courseID es
        in if statuses \<noteq> [] \<and> ids = [] then Inr []
           else bind_res (get_courses db (if statuses = [] then [] else ids) d) (\<lambda>cs.
             Inr (map (\<lambda>c. c\<lparr>c_enrolled := (case m (c_ID c) of None \<Rightarrow> Enrollment_NONE | Some e \<Rightarrow> e_status e)\<rparr>) cs))))"

fun users_of :: "'d course_db \<Rightarrow> enr_msg list \<Rightarrow> 'd \<Rightarrow> db_error + user list" where
  "users_of db [] d = Inr []"
| "users_of db (e # es) d =
     bind_res (get_user db (e_userID (em_enrollment e)) d) (\<lambda>usr.
       bind_res (users_of db es d) (\<lambda>us. Inr (usr # us)))"

definition get_course_teachers :: "'d course_db \<Rightarrow> course \<Rightarrow> 'd \<Rightarrow> db_error + user list" where
  "get_course_teachers db query d =
     bind_res (cq_course db query PreloadEnrollments d) (\<lambda>c.
       bind_res (users_of db (teacher_enrollments c) d) (\<lambda>teachers.
         if teachers = [] then Inl (Failed ''course has no teachers'') else Inr teachers))"

section \<open>Repositories\<close>

definition create_repository :: "'d course_db \<Rightarrow> repository \<Rightarrow> 'd \<Rightarrow> db_error + (repository \<times> 'd)" where
  "create_repository db r d =
     (if r_ScmOrganizationID r = 0 \<or> r_ScmRepositoryID r = 0 then Inl CreateRepo
      else if 0 < r_userID r then bind_res (cq_user db (r_userID r) d) (\<lambda>_. cq_create_repository db r d)
      else if 0 < r_groupID r then bind_res (cq_group_exists db (r_groupID r) d) (\<lambda>_. cq_create_repository db r d)
      else if \<not> is_course_repo (r_repoType r) then Inl CreateRepo
      else cq_create_repository db r d)"

end
