(* ===== verification/Actions.thy ===== *)
theory Actions
  imports Prelude
begin

text \<open>
  Actions over a state that fail with an error or return a value: the shape of every operation that calls
  the database or the SCM.  An action returns the state in both cases; what was done before an error
  stays done.  \<open>preserves\<close> and \<open>lands\<close> are the rules that carry the proofs of the components.
\<close>

type_synonym ('d, 'e, 'a) action = "'d \<Rightarrow> ('e + 'a) \<times> 'd"

definition ret :: "'a \<Rightarrow> ('d, 'e, 'a) action" where
  "ret x d = (Inr x, d)"

definition throw :: "'e \<Rightarrow> ('d, 'e, 'a) action" where
  "throw e d = (Inl e, d)"

definition bnd :: "('d, 'e, 'a) action \<Rightarrow> ('a \<Rightarrow> ('d, 'e, 'b) action) \<Rightarrow> ('d, 'e, 'b) action" where
  "bnd m f d = (case m d of (Inl e, d') \<Rightarrow> (Inl e, d') | (Inr x, d') \<Rightarrow> f x d')"

text \<open>An action whose error is looked at, or logged, while the handler goes on.\<close>

definition attempt :: "('d, 'e, 'a) action \<Rightarrow> ('d, 'f, 'e + 'a) action" where
  "attempt m d = (case m d of (r, d') \<Rightarrow> (Inr r, d'))"

fun for_each :: "('a \<Rightarrow> ('d, 'e, unit) action) \<Rightarrow> 'a list \<Rightarrow> ('d, 'e, unit) action" where
  "for_each f [] = ret ()"
| "for_each f (x # xs) = bnd (f x) (\<lambda>_. for_each f xs)"

text \<open>
  The rules the components use: an action keeps an invariant of the state whatever it returns.
\<close>

definition preserves :: "('d \<Rightarrow> bool) \<Rightarrow> ('d, 'e, 'a) action \<Rightarrow> bool" where
  "preserves I m \<longleftrightarrow> (\<forall>d. I d \<longrightarrow> I (snd (m d)))"

named_theorems keep \<open>actions that keep an invariant\<close>

lemma preservesI: "(\<And>d r d'. I d \<Longrightarrow> m d = (r, d') \<Longrightarrow> I d') \<Longrightarrow> preserves I m"
  by (metis prod.collapse preserves_def)

lemma preservesD: "preserves I m \<Longrightarrow> I d \<Longrightarrow> m d = (r, d') \<Longrightarrow> I d'"
  by (metis preserves_def snd_conv)

lemma preserves_ret [keep]: "preserves I (ret x)"
  by (simp add: preserves_def ret_def)

lemma preserves_throw [keep]: "preserves I (throw e)"
  by (simp add: preserves_def throw_def)

lemma preserves_bnd [keep]: "preserves I m \<Longrightarrow> (\<And>x. preserves I (f x)) \<Longrightarrow> preserves I (bnd m f)"
  by (simp add: preserves_def bnd_def split: prod.split sum.split) (metis snd_conv)

lemma preserves_attempt [keep]: "preserves I m \<Longrightarrow> preserves I (attempt m)"
  by (simp add: preserves_def attempt_def split: prod.split) (metis snd_conv)

lemma preserves_for_each [keep]: "(\<And>x. x \<in> set xs \<Longrightarrow> preserves I (f x)) \<Longrightarrow> preserves I (for_each f xs)"
  by (induction xs) (simp_all add: keep)

lemma preserves_prod [keep]: "(\<And>a b. preserves I (f a b)) \<Longrightarrow> preserves I (case p of (a, b) \<Rightarrow> f a b)"
  by (cases p) simp

lemma preserves_option [keep]:
  "(x = None \<Longrightarrow> preserves I m) \<Longrightarrow> (\<And>y. x = Some y \<Longrightarrow> preserves I (f y)) \<Longrightarrow>
   preserves I (case x of None \<Rightarrow> m | Some y \<Rightarrow> f y)"
  by (cases x) simp_all

lemma preserves_if [keep]: "(b \<Longrightarrow> preserves I m) \<Longrightarrow> (\<not> b \<Longrightarrow> preserves I n) \<Longrightarrow> preserves I (if b then m else n)"
  by simp

text \<open>
  The triples behind the statements on single steps: from \<open>P\<close> an action that succeeds lands in \<open>Q\<close>, and
  one that fails in \<open>E\<close>.
\<close>

definition lands :: "('d \<Rightarrow> bool) \<Rightarrow> ('d, 'e, 'a) action \<Rightarrow> ('d \<Rightarrow> bool) \<Rightarrow> ('d \<Rightarrow> bool) \<Rightarrow> bool" where
  "lands P m Q E \<longleftrightarrow>
     (\<forall>d e d'. P d \<longrightarrow> m d = (Inl e, d') \<longrightarrow> E d') \<and> (\<forall>d x d'. P d \<longrightarrow> m d = (Inr x, d') \<longrightarrow> Q d')"

lemma landsI:
  "(\<And>d e d'. P d \<Longrightarrow> m d = (Inl e, d') \<Longrightarrow> E d') \<Longrightarrow> (\<And>d x d'. P d \<Longrightarrow> m d = (Inr x, d') \<Longrightarrow> Q d') \<Longrightarrow>
   lands P m Q E"
  unfolding lands_def by blast

lemma landsD:
  assumes "lands P m Q E" and "P d"
  shows "m d = (Inl e, d') \<Longrightarrow> E d'" and "m d = (Inr x, d') \<Longrightarrow> Q d'"
  using assms unfolding lands_def by blast+

lemma lands_any: "lands P m Q Q \<Longrightarrow> P d \<Longrightarrow> m d = (r, d') \<Longrightarrow> Q d'"
  by (cases r) (auto dest: landsD)

lemma bnd_cases:
  "bnd m f d = (Inl e, d') \<longleftrightarrow> m d = (Inl e, d') \<or> (\<exists>x d1. m d = (Inr x, d1) \<and> f x d1 = (Inl e, d'))"
  "bnd m f d = (Inr y, d') \<longleftrightarrow> (\<exists>x d1. m d = (Inr x, d1) \<and> f x d1 = (Inr y, d'))"
  by (auto simp: bnd_def split: prod.splits sum.splits)

lemma bnd_assoc: "bnd (bnd m f) g = bnd m (\<lambda>x. bnd (f x) g)"
  by (simp add: bnd_def fun_eq_iff split: prod.split sum.split)

lemma bnd_ret [simp]: "bnd (ret x) f = f x"
  by (simp add: bnd_def ret_def fun_eq_iff)

lemma preserves_lands: "preserves I m \<longleftrightarrow> lands I m I I"
proof
  show "preserves I m \<Longrightarrow> lands I m I I" by (rule landsI) (auto dest: preservesD)
  show "lands I m I I \<Longrightarrow> preserves I m" by (rule preservesI) (rule lands_any)
qed

lemma lands_ret: "(\<And>d. P d \<Longrightarrow> Q d) \<Longrightarrow> lands P (ret x) Q E"
  by (simp add: lands_def ret_def)

lemma lands_throw: "(\<And>d. P d \<Longrightarrow> E d) \<Longrightarrow> lands P (throw e) Q E"
  by (simp add: lands_def throw_def)

lemma lands_bnd:
  assumes "lands P m R E" and "\<And>x. lands R (f x) Q E"
  shows "lands P (bnd m f) Q E"
  by (rule landsI) (auto simp: bnd_cases dest: landsD [OF assms(1)] landsD [OF assms(2)])

text \<open>A first action that keeps the state of affairs can be skipped.\<close>

lemma lands_skip:
  assumes "preserves P m" and "\<And>x. lands P (f x) Q E" and "\<And>d. P d \<Longrightarrow> E d"
  shows "lands P (bnd m f) Q E"
proof (rule lands_bnd)
  show "lands P m P E" using assms(1,3) by (auto simp: lands_def dest: preservesD)
qed (rule assms(2))

text \<open>The same, where the rest needs something of the result.\<close>

lemma lands_skip_result:
  assumes "preserves P m" and "\<And>d x d'. P d \<Longrightarrow> m d = (Inr x, d') \<Longrightarrow> T x" and "\<And>x. T x \<Longrightarrow> lands P (f x) Q E"
    and "\<And>d. P d \<Longrightarrow> E d"
  shows "lands P (bnd m f) Q E"
proof (rule landsI)
  fix d e d' assume d: "P d" "bnd m f d = (Inl e, d')"
  then consider "m d = (Inl e, d')" | x d1 where "m d = (Inr x, d1)" "f x d1 = (Inl e, d')" by (auto simp: bnd_cases)
  then show "E d'"
    using d(1) assms(4) preservesD [OF assms(1)] landsD(1) [OF assms(3)] assms(2) by cases metis+
next
  fix d y d' assume d: "P d" "bnd m f d = (Inr y, d')"
  then obtain x d1 where "m d = (Inr x, d1)" "f x d1 = (Inr y, d')" by (auto simp: bnd_cases)
  then show "Q d'"
    using d(1) preservesD [OF assms(1)] landsD(2) [OF assms(3)] assms(2) by metis
qed

lemma lands_attempt:
  assumes "lands P m Q E" and "\<And>d. E d \<Longrightarrow> Q d"
  shows "lands P (attempt m) Q E'"
proof (rule landsI)
  fix d x d' assume d: "P d" "attempt m d = (Inr x, d')"
  then have "m d = (x, d')" by (simp add: attempt_def split: prod.splits)
  with d(1) assms(2) landsD [OF assms(1)] show "Q d'" by (cases x) auto
qed (simp add: attempt_def split: prod.splits)

lemma lands_pre: "lands P' m Q E \<Longrightarrow> (\<And>d. P d \<Longrightarrow> P' d) \<Longrightarrow> lands P m Q E"
  unfolding lands_def by blast

lemma lands_post: "lands P m Q' E' \<Longrightarrow> (\<And>d. Q' d \<Longrightarrow> Q d) \<Longrightarrow> (\<And>d. E' d \<Longrightarrow> E d) \<Longrightarrow> lands P m Q E"
  unfolding lands_def by blast

end
