(* ===== verification/Service.thy ===== *)
theory Service
  imports Course_Store Auth Actions
begin

text \<open>
  What the handlers of the service share: the calls to the database and to the SCM that change the
  state, their errors, and the helpers of \<open>web/access_control.go\<close>, \<open>web/repositories.go\<close>,
  \<open>web/scm_helpers.go\<close> and \<open>web/users.go\<close>.  The state \<open>'d\<close> is that of the database and of the SCM; the
  methods of the SCM client that the handlers call are functions of it.
\<close>

section \<open>Actions\<close>

datatype svc_error = DbErr db_error | ScmErr string | SvcErr string

type_synonym ('d, 'a) act = "('d, svc_error, 'a) action"

text \<open>A query, and a statement: a statement that fails leaves the state as it was.\<close>

definition query :: "('d \<Rightarrow> db_error + 'a) \<Rightarrow> ('d, 'a) act" where
  "query q d = (case q d of Inl e \<Rightarrow> (Inl (DbErr e), d) | Inr x \<Rightarrow> (Inr x, d))"

definition exec :: "('d \<Rightarrow> db_error + 'd) \<Rightarrow> ('d, unit) act" where
  "exec q d = (case q d of Inl e \<Rightarrow> (Inl (DbErr e), d) | Inr d' \<Rightarrow> (Inr (), d'))"

definition exec_get :: "('d \<Rightarrow> db_error + ('a \<times> 'd)) \<Rightarrow> ('d, 'a) act" where
  "exec_get q d = (case q d of Inl e \<Rightarrow> (Inl (DbErr e), d) | Inr (x, d') \<Rightarrow> (Inr x, d'))"

definition call_scm :: "('d \<Rightarrow> (string + 'a) \<times> 'd) \<Rightarrow> ('d, 'a) act" where
  "call_scm c d = (case c d of (Inl e, d') \<Rightarrow> (Inl (ScmErr e), d') | (Inr x, d') \<Rightarrow> (Inr x, d'))"

lemma preserves_query [keep]: "preserves I (query q)"
  by (simp add: preserves_def query_def split: sum.split)

lemma preserves_exec: "(\<And>d d'. I d \<Longrightarrow> q d = Inr d' \<Longrightarrow> I d') \<Longrightarrow> preserves I (exec q)"
  by (simp add: preserves_def exec_def split: sum.split)

lemma preserves_exec_get: "(\<And>d x d'. I d \<Longrightarrow> q d = Inr (x, d') \<Longrightarrow> I d') \<Longrightarrow> preserves I (exec_get q)"
  by (simp add: preserves_def exec_get_def split: sum.split prod.split)

lemma preserves_call_scm: "(\<And>d r d'. I d \<Longrightarrow> c d = (r, d') \<Longrightarrow> I d') \<Longrightarrow> preserves I (call_scm c)"
  by (simp add: preserves_def call_scm_def split: sum.split prod.split)

lemma lands_query_bnd:
  assumes "\<And>x. lands (\<lambda>d. P d \<and> q d = Inr x) (f x) Q E" and "\<And>d. P d \<Longrightarrow> E d"
  shows "lands P (bnd (query q) f) Q E"
proof (rule landsI)
  fix d e d' assume "P d" "bnd (query q) f d = (Inl e, d')"
  then show "E d'"
    using landsD(1) [OF assms(1)] assms(2) by (auto simp: bnd_cases query_def split: sum.splits)
next
  fix d x d' assume "P d" "bnd (query q) f d = (Inr x, d')"
  then show "Q d'"
    using landsD(2) [OF assms(1)] by (auto simp: bnd_cases query_def split: sum.splits)
qed

lemma lands_exec: "(\<And>d d'. P d \<Longrightarrow> q d = Inr d' \<Longrightarrow> Q d') \<Longrightarrow> (\<And>d. P d \<Longrightarrow> E d) \<Longrightarrow> lands P (exec q) Q E"
  by (rule landsI) (auto simp: exec_def split: sum.splits)

section \<open>The service\<close>

record scm_user = su_login :: string su_avatar :: string
record scm_repo = sr_ID :: u64 sr_HTMLURL :: string

record 'd service = "'d course_db" +
  ws_repositories :: "repository \<Rightarrow> 'd \<Rightarrow> db_error + repository list"
  ws_delete_repository :: "u64 \<Rightarrow> 'd \<Rightarrow> db_error + 'd"
  ws_get_scm :: "string \<Rightarrow> 'd \<Rightarrow> (string + unit) \<times> 'd"
  ws_exchange_token :: "user \<Rightarrow> 'd \<Rightarrow> (string + (string \<times> user)) \<times> 'd"
  sc_user_by_id :: "u64 \<Rightarrow> 'd \<Rightarrow> (string + scm_user) \<times> 'd"
  sc_update_enrollment :: "string \<Rightarrow> string \<Rightarrow> user_status \<Rightarrow> string \<Rightarrow> 'd \<Rightarrow> (string + scm_repo) \<times> 'd"
  sc_reject_enrollment :: "string \<Rightarrow> u64 \<Rightarrow> u64 \<Rightarrow> 'd \<Rightarrow> (string + unit) \<times> 'd"
  sc_demote_teacher :: "string \<Rightarrow> string \<Rightarrow> 'd \<Rightarrow> (string + unit) \<times> 'd"
  sc_create_group :: "string \<Rightarrow> string \<Rightarrow> string list \<Rightarrow> 'd \<Rightarrow> (string + scm_repo) \<times> 'd"
  sc_update_members :: "string \<Rightarrow> string \<Rightarrow> string list \<Rightarrow> 'd \<Rightarrow> (string + unit) \<times> 'd"
  sc_delete_group :: "u64 \<Rightarrow> 'd \<Rightarrow> (string + unit) \<times> 'd"
  sc_is_empty :: "u64 \<Rightarrow> 'd \<Rightarrow> bool"

abbreviation cdb :: "'d service \<Rightarrow> 'd course_db" where
  "cdb s \<equiv> course_db.truncate s"

abbreviation sv_gdb :: "'d service \<Rightarrow> 'd group_db" where
  "sv_gdb s \<equiv> group_db.truncate (cdb s)"

section \<open>Access control\<close>

definition has_course_access :: "'d service \<Rightarrow> u64 \<Rightarrow> u64 \<Rightarrow> (enrollment \<Rightarrow> bool) \<Rightarrow> 'd \<Rightarrow> bool" where
  "has_course_access s userID courseID chk d =
     (case get_enrollment_by_course_and_user (edb (cdb s)) courseID userID d of Inl e \<Rightarrow> False | Inr m \<Rightarrow> chk m)"

definition sv_is_teacher :: "'d service \<Rightarrow> u64 \<Rightarrow> u64 \<Rightarrow> 'd \<Rightarrow> bool" where
  "sv_is_teacher s userID courseID d =
     has_course_access s userID courseID (\<lambda>e. e_status e = Enrollment_TEACHER) d"

text \<open>The error is ignored; the getter of a nil course gives 0.\<close>

definition is_course_creator :: "'d service \<Rightarrow> u64 \<Rightarrow> u64 \<Rightarrow> 'd \<Rightarrow> bool" where
  "is_course_creator s courseID userID d =
     ((case get_course (cdb s) courseID d of Inl e \<Rightarrow> 0 | Inr c \<Rightarrow> c_courseCreatorID (cm_course c)) = userID)"

section \<open>Repositories\<close>

definition get_repo :: "'d service \<Rightarrow> course \<Rightarrow> u64 \<Rightarrow> repo_type \<Rightarrow> 'd \<Rightarrow> db_error + repository" where
  "get_repo s c i t d =
     (let q = zero_repository\<lparr>r_ScmOrganizationID := c_ScmOrganizationID c, r_repoType := t\<rparr>;
          q = (if t = R_USER then q\<lparr>r_userID := i\<rparr> else if t = R_GROUP then q\<lparr>r_groupID := i\<rparr> else q)
      in bind_res (ws_repositories s q d) (\<lambda>rs. case rs of [] \<Rightarrow> Inl RecordNotFound | r # _ \<Rightarrow> Inr r))"

text \<open>The callers treat \<open>RecordNotFound\<close> as a repository that is nil.\<close>

definition find_repo :: "'d service \<Rightarrow> course \<Rightarrow> u64 \<Rightarrow> repo_type \<Rightarrow> ('d, repository option) act" where
  "find_repo s c i t = query (\<lambda>d.
     case get_repo s c i t d of
       Inr r \<Rightarrow> Inr (Some r)
     | Inl e \<Rightarrow> if e = RecordNotFound then Inr None else Inl (Failed ''failed to get repository''))"

definition repo_types :: "enrollment \<Rightarrow> repo_type list" where
  "repo_types e =
     [R_INFO, R_ASSIGNMENTS, R_USER] @ (if is_teacher e then [R_TESTS] else []) @
     (if 0 < e_groupID e then [R_GROUP] else [])"

section \<open>Users\<close>

definition update_user_from_scm :: "'d service \<Rightarrow> user \<Rightarrow> ('d, user) act" where
  "update_user_from_scm s usr =
     bnd (call_scm (sc_user_by_id s (u_ScmRemoteID usr))) (\<lambda>gh.
       (let usr = (if su_login gh \<noteq> [] \<and> su_login gh \<noteq> u_Login usr then usr\<lparr>u_Login := su_login gh\<rparr> else usr);
            usr = (if su_avatar gh \<noteq> [] \<and> su_avatar gh \<noteq> u_AvatarURL usr then usr\<lparr>u_AvatarURL := su_avatar gh\<rparr> else usr)
        in bnd (exec (update_user (cdb s) usr)) (\<lambda>_. ret usr)))"

definition edited_profile :: "user \<Rightarrow> user \<Rightarrow> user \<Rightarrow> user" where
  "edited_profile curUser request usr =
     (let usr = (if u_Name request \<noteq> [] then usr\<lparr>u_Name := u_Name request\<rparr> else usr);
          usr = (if u_StudentID request \<noteq> [] then usr\<lparr>u_StudentID := u_StudentID request\<rparr> else usr);
          usr = (if u_Email request \<noteq> [] then usr\<lparr>u_Email := u_Email request\<rparr> else usr);
          usr = (if u_AvatarURL request \<noteq> [] then usr\<lparr>u_AvatarURL := u_AvatarURL request\<rparr> else usr)
      in if u_IsAdmin curUser \<and> 1 < u_ID request then usr\<lparr>u_IsAdmin := u_IsAdmin request\<rparr> else usr)"

definition edit_user_profile :: "'d service \<Rightarrow> user \<Rightarrow> user \<Rightarrow> ('d, unit) act" where
  "edit_user_profile s curUser request =
     bnd (query (get_user (cdb s) (u_ID request))) (\<lambda>usr.
       exec (update_user (cdb s) (edited_profile curUser request usr)))"

text \<open>The handler \<open>UpdateUser\<close>, called by the user of the claims.\<close>

definition update_user_handler :: "'d service \<Rightarrow> claims \<Rightarrow> user \<Rightarrow> ('d, unit) act" where
  "update_user_handler s cl request =
     bnd (query (get_user (cdb s) (cl_UserID cl))) (\<lambda>usr. edit_user_profile s usr request)"

end
