(* ===== verification/Slice_Sort.thy ===== *)
theory Slice_Sort
  imports Main "HOL-Library.Multiset"
begin

text \<open>
  What \<open>sort.Slice\<close> documents for a \<open>less\<close> that compares a key: a permutation of the slice in which no
  element is less than one before it.  The sort is not stable, so the components take it as an argument.
\<close>

definition slice_ok :: "(('a \<Rightarrow> 'a \<Rightarrow> bool) \<Rightarrow> 'a list \<Rightarrow> 'a list) \<Rightarrow> ('a \<Rightarrow> 'k::linorder) \<Rightarrow> bool" where
  "slice_ok sorter k \<longleftrightarrow>
     (\<forall>xs. mset (sorter (\<lambda>x y. k x < k y) xs) = mset xs \<and> sorted (map k (sorter (\<lambda>x y. k x < k y) xs)))"

text \<open>When the keys differ, the result does not depend on the order before.\<close>

lemma slice_unique:
  assumes "slice_ok sorter k" and "mset xs = mset ys" and "distinct (map k xs)"
  shows "sorter (\<lambda>x y. k x < k y) xs = sorter (\<lambda>x y. k x < k y) ys"
proof -
  let ?s = "sorter (\<lambda>x y. k x < k y)"
  have m: "mset (?s xs) = mset xs" "mset (?s ys) = mset xs" and sorted: "sorted (map k (?s xs))" "sorted (map k (?s ys))"
    using assms(1,2) unfolding slice_ok_def by simp_all
  have "mset (map k (?s xs)) = mset (map k xs)" "mset (map k (?s ys)) = mset (map k xs)" using m by simp_all
  then have d: "distinct (map k (?s xs))" "distinct (map k (?s ys))" using assms(3) mset_eq_imp_distinct_iff by metis+
  have "set (?s xs) = set (?s ys)" using m mset_eq_setD by metis
  moreover from this d have "inj_on k (set (?s xs) \<union> set (?s ys))" by (simp add: distinct_map)
  ultimately show ?thesis using map_sorted_distinct_set_unique sorted d by blast
qed

text \<open>A sort that does so.\<close>

definition insert_sort :: "('a \<Rightarrow> 'a \<Rightarrow> bool) \<Rightarrow> 'a list \<Rightarrow> 'a list" where
  "insert_sort lt xs = foldr (\<lambda>x ys. takeWhile (\<lambda>y. lt y x) ys @ x # dropWhile (\<lambda>y. lt y x) ys) xs []"

lemma insert_sort_key: "insert_sort (\<lambda>x y. k x < (k y :: 'k::linorder)) xs = foldr (insort_key k) xs []"
  unfolding insert_sort_def
proof (induction xs)
  case (Cons x xs)
  have "takeWhile (\<lambda>y. k y < k x) ys @ x # dropWhile (\<lambda>y. k y < k x) ys = insort_key k x ys" for ys
    by (induction ys) (auto simp: not_le)
  with Cons show ?case by simp
qed simp

lemma insert_sort_slice: "slice_ok insert_sort k"
proof -
  have "mset (foldr (insort_key k) xs []) = mset xs" for xs by (induction xs) auto
  moreover have "sorted (map k (foldr (insort_key k) xs []))" for xs by (induction xs) (auto simp: sorted_insort_key)
  ultimately show ?thesis by (simp add: slice_ok_def insert_sort_key)
qed

end
