(* ===== verification/Course_Results.thy ===== *)
theory Course_Results
  imports Submission_Store Messages Slice_Sort
begin

text \<open>
  The submissions of a course, by enrollment or group: \<open>database/gormdb_submissions.go\<close>.  The queries are
  arguments; what the functions compute from the rows they return is defined here.  \<open>sort.Slice\<close> is not
  stable, so the order of elements that compare equal is left to the argument \<open>slice_sort\<close>.
\<close>

section \<open>The order of the assignments\<close>

text \<open>A missing key of a Go map reads as zero.\<close>

type_synonym order_map = "u64 \<Rightarrow> u32"

definition new_order_map :: "assignment list \<Rightarrow> order_map" where
  "new_order_map as = fold (\<lambda>a om. om(a_ID a := a_order a)) as (\<lambda>_. 0)"

definition order_less :: "order_map \<Rightarrow> u64 \<Rightarrow> u64 \<Rightarrow> bool" where
  "order_less om i j \<longleftrightarrow> om i < om j"

type_synonym slice_sort = "(submission \<Rightarrow> submission \<Rightarrow> bool) \<Rightarrow> submission list \<Rightarrow> submission list"

definition choose_submissions :: "slice_sort \<Rightarrow> submission list \<Rightarrow> order_map \<Rightarrow> (submission \<Rightarrow> bool) \<Rightarrow> submission list" where
  "choose_submissions slice_sort submissions order incl =
     slice_sort (\<lambda>x y. order_less order (s_AssignmentID x) (s_AssignmentID y)) (filter incl submissions)"

section \<open>The results by group, by user and for both\<close>

type_synonym results_map = "u64 \<rightharpoonup> submission list"

definition group_step ::
    "slice_sort \<Rightarrow> submission list \<Rightarrow> order_map \<Rightarrow> enrollment \<Rightarrow> results_map \<times> u64 set \<Rightarrow> results_map \<times> u64 set" where
  "group_step slice_sort submissions om e = (\<lambda>(m, skipGroup).
     (if e_groupID e \<in> skipGroup then (m, skipGroup)
      else (m(e_groupID e \<mapsto> choose_submissions slice_sort submissions om (\<lambda>s. by_group s (e_groupID e))),
            insert (e_groupID e) skipGroup)))"

definition make_group_results :: "slice_sort \<Rightarrow> assignment list \<Rightarrow> enrollment list \<Rightarrow> submission list \<Rightarrow> results_map" where
  "make_group_results slice_sort as es submissions =
     fst (fold (group_step slice_sort submissions (new_order_map as)) es (Map.empty, {0}))"

definition make_user_results :: "slice_sort \<Rightarrow> assignment list \<Rightarrow> enrollment list \<Rightarrow> submission list \<Rightarrow> results_map" where
  "make_user_results slice_sort as es submissions =
     fold (\<lambda>e m. m(e_ID e \<mapsto> choose_submissions slice_sort submissions (new_order_map as) (\<lambda>s. by_user s (e_userID e))))
       es Map.empty"

definition make_all_results :: "slice_sort \<Rightarrow> assignment list \<Rightarrow> enrollment list \<Rightarrow> submission list \<Rightarrow> results_map" where
  "make_all_results slice_sort as es submissions =
     fold (\<lambda>e m. m(e_ID e \<mapsto> choose_submissions slice_sort submissions (new_order_map as)
         (\<lambda>s. by_user s (e_userID e) \<or> by_group s (e_groupID e)))) es Map.empty"

text \<open>
  The queries of \<open>GetCourseSubmissions\<close>: the identifiers of the assignments of a course, all of them or
  those with the given kind, the submissions of these assignments, and the course with its
  assignments and enrollments (\<open>GetCourseByStatus\<close> for a teacher).
\<close>

record 'd results_db =
  qr_assignment_ids :: "u64 \<Rightarrow> bool option \<Rightarrow> 'd \<Rightarrow> db_error + u64 list"
  qr_submissions :: "u64 list \<Rightarrow> 'd \<Rightarrow> db_error + submission list"
  qr_course :: "u64 \<Rightarrow> 'd \<Rightarrow> db_error + (assignment list \<times> enrollment list)"

definition get_course_submissions ::
    "slice_sort \<Rightarrow> 'd results_db \<Rightarrow> submission_request \<Rightarrow> 'd \<Rightarrow> db_error + results_map" where
  "get_course_submissions slice_sort db request d =
     (let typ = (case srq_FetchMode request of Some (FetchType t) \<Rightarrow> t | _ \<Rightarrow> submission_type.ALL);
          kind = (case typ of USER \<Rightarrow> Some False | GROUP \<Rightarrow> Some True | submission_type.ALL \<Rightarrow> None)
      in bind_res (qr_assignment_ids db (srq_CourseID request) kind d) (\<lambda>ids.
         bind_res (qr_submissions db ids d) (\<lambda>submissions.
         bind_res (qr_course db (srq_CourseID request) d) (\<lambda>(as, es).
           Inr (case typ of
                  GROUP \<Rightarrow> make_group_results slice_sort as es submissions
                | USER \<Rightarrow> make_user_results slice_sort as es submissions
                | submission_type.ALL \<Rightarrow> make_all_results slice_sort as es submissions)))))"

section \<open>Lemmas\<close>

text \<open>What \<open>sort.Slice\<close> documents: a permutation in which no element is less than one before it.\<close>

definition slice_sort_ok :: "slice_sort \<Rightarrow> bool" where
  "slice_sort_ok slice_sort \<longleftrightarrow>
     (\<forall>k :: submission \<Rightarrow> u32. \<forall>xs. mset (slice_sort (\<lambda>x y. k x < k y) xs) = mset xs \<and>
        sorted (map k (slice_sort (\<lambda>x y. k x < k y) xs)))"

lemma choose_submissions_sorted:
  assumes "slice_sort_ok slice_sort"
  shows "mset (choose_submissions slice_sort ss om P) = mset (filter P ss) \<and>
     sorted (map (\<lambda>s. om (s_AssignmentID s)) (choose_submissions slice_sort ss om P))"
  using assms [unfolded slice_sort_ok_def, rule_format, of "\<lambda>s. om (s_AssignmentID s)" "filter P ss"]
  by (simp add: choose_submissions_def order_less_def)

lemma fold_map_upd_other: "k \<notin> key ` set es \<Longrightarrow> fold (\<lambda>e m. m(key e \<mapsto> f e)) es m k = m k"
  by (induction es arbitrary: m) auto

lemma fold_map_upd_dom: "dom (fold (\<lambda>e m. m(key e \<mapsto> f e)) es m) = dom m \<union> key ` set es"
  by (induction es arbitrary: m) auto

lemma fold_map_upd:
  assumes "distinct (map key es)" and "e \<in> set es"
  shows "fold (\<lambda>e m. m(key e \<mapsto> f e)) es m (key e) = Some (f e)"
  using assms
proof (induction es arbitrary: m)
  case (Cons x es)
  then show ?case
  proof (cases "e = x")
    case True
    with Cons.prems(1) have "key e \<notin> key ` set es" by auto
    from fold_map_upd_other [OF this, of f "m(key e \<mapsto> f e)"] True show ?thesis by (simp only: fold_simps fun_upd_same)
  qed auto
qed simp

lemma group_fold:
  fixes f :: "u64 \<Rightarrow> submission list"
  assumes "dom m = skip - {0}" and "\<forall>g\<in>dom m. m g = Some (f g)" and "0 \<in> skip"
    and "fold (\<lambda>e (m, sk). if e_groupID e \<in> sk then (m, sk)
       else (m(e_groupID e \<mapsto> f (e_groupID e)), insert (e_groupID e) sk)) es (m, skip) = (m', skip')"
  shows "dom m' = (skip \<union> e_groupID ` set es) - {0} \<and> (\<forall>g\<in>dom m'. m' g = Some (f g))"
  using assms
proof (induction es arbitrary: m skip)
  case (Cons e es)
  show ?case
  proof (cases "e_groupID e \<in> skip")
    case True
    with Cons.IH [of m skip] Cons.prems show ?thesis by (auto simp: insert_absorb)
  next
    case False
    then have "e_groupID e \<noteq> 0" using Cons.prems(3) by metis
    define m1 where "m1 = m(e_groupID e \<mapsto> f (e_groupID e))"
    have "dom m1 = insert (e_groupID e) skip - {0}" "\<forall>g\<in>dom m1. m1 g = Some (f g)"
      using Cons.prems(1,2) \<open>e_groupID e \<noteq> 0\<close> by (auto simp: m1_def)
    moreover have "fold (\<lambda>e (m, sk). if e_groupID e \<in> sk then (m, sk)
       else (m(e_groupID e \<mapsto> f (e_groupID e)), insert (e_groupID e) sk)) es (m1, insert (e_groupID e) skip) = (m', skip')"
      using Cons.prems(4) False by (simp only: fold_simps prod.case if_False m1_def)
    ultimately show ?thesis
      using Cons.IH [of m1 "insert (e_groupID e) skip"] Cons.prems(3) by simp
  qed
qed auto

lemma make_group_results_get:
  "dom (make_group_results slice_sort as es ss) = e_groupID ` set es - {0} \<and>
   (\<forall>g\<in>dom (make_group_results slice_sort as es ss). make_group_results slice_sort as es ss g =
      Some (choose_submissions slice_sort ss (new_order_map as) (\<lambda>s. by_group s g)))"
proof -
  let ?f = "\<lambda>g. choose_submissions slice_sort ss (new_order_map as) (\<lambda>s. by_group s g)"
  obtain m sk where r: "fold (group_step slice_sort ss (new_order_map as)) es (Map.empty, {0}) = (m, sk)" by fastforce
  have "group_step slice_sort ss (new_order_map as) = (\<lambda>e (m, sk). if e_groupID e \<in> sk then (m, sk)
       else (m(e_groupID e \<mapsto> ?f (e_groupID e)), insert (e_groupID e) sk))"
    by (simp add: group_step_def fun_eq_iff)
  from group_fold [of Map.empty "{0}" ?f es m sk] r [unfolded this] r show ?thesis
    by (simp add: make_group_results_def)
qed

section \<open>Properties\<close>

text \<open>
  C25: the results of a course: every enrollment (or every group of an enrollment, once) is listed with
  exactly the submissions of its user, of its group, or of both, in the order of the assignments.
\<close>

theorem course_results_complete:
  assumes "slice_sort_ok slice_sort" and "distinct (map e_ID es)" and "e \<in> set es"
  shows "\<exists>us gs bs.
     make_user_results slice_sort as es ss (e_ID e) = Some us \<and> mset us = mset (filter (\<lambda>s. by_user s (e_userID e)) ss) \<and>
     make_all_results slice_sort as es ss (e_ID e) = Some bs \<and>
       mset bs = mset (filter (\<lambda>s. by_user s (e_userID e) \<or> by_group s (e_groupID e)) ss) \<and>
     (e_groupID e = 0 \<and> make_group_results slice_sort as es ss 0 = None \<or>
      make_group_results slice_sort as es ss (e_groupID e) = Some gs \<and>
      mset gs = mset (filter (\<lambda>s. by_group s (e_groupID e)) ss)) \<and>
     (\<forall>r\<in>{us, gs, bs}. sorted (map (\<lambda>s. new_order_map as (s_AssignmentID s)) r))"
proof -
  let ?c = "choose_submissions slice_sort ss (new_order_map as)"
  note s = choose_submissions_sorted [OF assms(1), of ss "new_order_map as"]
  have u: "make_user_results slice_sort as es ss (e_ID e) = Some (?c (\<lambda>s. by_user s (e_userID e)))"
    "make_all_results slice_sort as es ss (e_ID e) = Some (?c (\<lambda>s. by_user s (e_userID e) \<or> by_group s (e_groupID e)))"
    using fold_map_upd [OF assms(2,3)] by (simp_all add: make_user_results_def make_all_results_def)
  have g: "e_groupID e = 0 \<and> make_group_results slice_sort as es ss 0 = None \<or>
      make_group_results slice_sort as es ss (e_groupID e) = Some (?c (\<lambda>s. by_group s (e_groupID e)))"
    using make_group_results_get [of slice_sort as es ss] assms(3) by (cases "e_groupID e = 0") (auto simp: domIff)
  show ?thesis
    by (rule exI [of _ "?c (\<lambda>s. by_user s (e_userID e))"], rule exI [of _ "?c (\<lambda>s. by_group s (e_groupID e))"],
        rule exI [of _ "?c (\<lambda>s. by_user s (e_userID e) \<or> by_group s (e_groupID e))"])
      (use u g s in auto)
qed

text \<open>A sort for the witness.\<close>

lemma insert_sort_ok: "slice_sort_ok insert_sort"
  using insert_sort_slice unfolding slice_ok_def slice_sort_ok_def by blast

lemma course_results_complete_witness:
  "\<exists>us. make_user_results insert_sort [] [zero_enrollment\<lparr>e_ID := 1, e_userID := 5\<rparr>]
       [zero_submission\<lparr>s_ID := 3, s_AssignmentID := 1, s_userID := 5\<rparr>] 1 = Some us \<and>
     mset us = mset [zero_submission\<lparr>s_ID := 3, s_AssignmentID := 1, s_userID := 5\<rparr>]"
  using course_results_complete [OF insert_sort_ok, of "[zero_enrollment\<lparr>e_ID := 1, e_userID := 5\<rparr>]"
      "zero_enrollment\<lparr>e_ID := 1, e_userID := 5\<rparr>" "[]"
      "[zero_submission\<lparr>s_ID := 3, s_AssignmentID := 1, s_userID := 5\<rparr>]"]
  by (auto simp: by_user_def zero_submission_def)

end
