(* ===== verification/Course_Service.thy ===== *)
theory Course_Service
  imports Service Course_Results
begin

text \<open>
  Enrollments: \<open>web/courses.go\<close> and the handlers of \<open>web/quickfeed_service.go\<close> that change courses and
  enrollments.  The roles of a course follow a state machine, none, pending, student and teacher, whose
  steps are the operations below.
\<close>

section \<open>Changing the status of an enrollment\<close>

text \<open>An enrollment with its course and user, both loaded by the query.\<close>

definition load_enrollment :: "'d service \<Rightarrow> u64 \<Rightarrow> u64 \<Rightarrow> 'd \<Rightarrow> db_error + (enrollment \<times> course \<times> user)" where
  "load_enrollment s courseID userID d =
     bind_res (eq_enrollment (edb (cdb s)) courseID userID d) (\<lambda>(m, c, usr). Inr (set_slip_days m c, c, usr))"

definition sv_reject_enrollment :: "'d service \<Rightarrow> course \<Rightarrow> user \<Rightarrow> ('d, unit) act" where
  "sv_reject_enrollment s c usr =
     bnd (attempt (exec (reject_enrollment (cdb s) (u_ID usr) (c_ID c)))) (\<lambda>_.
     bnd (find_repo s c (u_ID usr) R_USER) (\<lambda>repo.
       case repo of
         None \<Rightarrow> ret ()
       | Some r \<Rightarrow>
           bnd (attempt (exec (ws_delete_repository s (r_ScmRepositoryID r)))) (\<lambda>_.
           bnd (attempt (call_scm (sc_reject_enrollment s (u_Login usr) (r_ScmOrganizationID r) (r_ScmRepositoryID r))))
             (\<lambda>_. ret ()))))"

definition user_repo :: "course \<Rightarrow> user \<Rightarrow> scm_repo \<Rightarrow> repository" where
  "user_repo c usr sr =
     zero_repository\<lparr>r_ScmRepositoryID := sr_ID sr, r_ScmOrganizationID := c_ScmOrganizationID c,
       r_userID := u_ID usr, r_HTMLURL := sr_HTMLURL sr, r_repoType := R_USER\<rparr>"

definition enroll_student :: "'d service \<Rightarrow> enrollment \<Rightarrow> course \<Rightarrow> user \<Rightarrow> ('d, unit) act" where
  "enroll_student s q c usr =
     bnd (find_repo s c (u_ID usr) R_USER) (\<lambda>repo.
       (let q = q\<lparr>e_status := Enrollment_STUDENT\<rparr>
        in if repo \<noteq> None then exec (db_update_enrollment (cdb s) q)
           else
             bnd (call_scm (ws_exchange_token s usr)) (\<lambda>(accessToken, usr).
             bnd (attempt (exec (update_user (cdb s) usr))) (\<lambda>_.
             bnd (call_scm (sc_update_enrollment s (c_ScmOrganizationName c) (u_Login usr) Enrollment_STUDENT accessToken))
               (\<lambda>sr.
             bnd (exec_get (create_repository (cdb s) (user_repo c usr sr))) (\<lambda>_.
               exec (db_update_enrollment (cdb s) q)))))))"

definition enroll_teacher :: "'d service \<Rightarrow> enrollment \<Rightarrow> course \<Rightarrow> user \<Rightarrow> ('d, unit) act" where
  "enroll_teacher s q c usr =
     bnd (call_scm (sc_update_enrollment s (c_ScmOrganizationName c) (u_Login usr) Enrollment_TEACHER [])) (\<lambda>_.
       exec (db_update_enrollment (cdb s) (q\<lparr>e_status := Enrollment_TEACHER\<rparr>)))"

definition revoke_teacher_status :: "'d service \<Rightarrow> enrollment \<Rightarrow> course \<Rightarrow> user \<Rightarrow> ('d, unit) act" where
  "revoke_teacher_status s q c usr =
     bnd (attempt (call_scm (sc_demote_teacher s (c_ScmOrganizationName c) (u_Login usr)))) (\<lambda>_.
       exec (db_update_enrollment (cdb s) (q\<lparr>e_status := Enrollment_STUDENT\<rparr>)))"

definition update_enrollment :: "'d service \<Rightarrow> enrollment \<Rightarrow> ('d, unit) act" where
  "update_enrollment s request =
     bnd (query (load_enrollment s (e_courseID request) (e_userID request))) (\<lambda>(e, c, usr).
     bnd (update_user_from_scm s usr) (\<lambda>usr.
       if (is_pending e \<or> is_student e) \<and> is_none request then sv_reject_enrollment s c usr
       else if is_pending e \<and> is_student request then enroll_student s e c usr
       else if is_student e \<and> is_teacher request then enroll_teacher s e c usr
       else if is_teacher e \<and> is_student request then revoke_teacher_status s e c usr
       else throw (SvcErr ''unknown enrollment status change'')))"

section \<open>Handlers\<close>

definition get_scm_for_course :: "'d service \<Rightarrow> u64 \<Rightarrow> ('d, unit) act" where
  "get_scm_for_course s courseID =
     bnd (query (get_course (cdb s) courseID)) (\<lambda>c.
       call_scm (ws_get_scm s (c_ScmOrganizationName (cm_course c))))"

definition update_one :: "'d service \<Rightarrow> enrollment \<Rightarrow> ('d, unit) act" where
  "update_one s e =
     bnd (query (\<lambda>d. Inr (is_course_creator s (e_courseID e) (e_userID e) d))) (\<lambda>creator.
       if creator then throw (SvcErr ''course creator cannot be demoted'') else update_enrollment s e)"

definition update_enrollments_handler :: "'d service \<Rightarrow> claims \<Rightarrow> enrollment list \<Rightarrow> ('d, unit) act" where
  "update_enrollments_handler s cl es =
     bnd (query (get_user (cdb s) (cl_UserID cl))) (\<lambda>_.
     bnd (get_scm_for_course s (enrollments_course_id es)) (\<lambda>_.
       for_each (update_one s) es))"

definition create_enrollment_handler ::
    "'d service \<Rightarrow> (string \<Rightarrow> string option) \<Rightarrow> enrollment \<Rightarrow> ('d, unit) act" where
  "create_enrollment_handler s parse_address e =
     bnd (exec_get (create_enrollment (cdb s) parse_address e)) (\<lambda>_. ret ())"

definition update_course_visibility_handler :: "'d service \<Rightarrow> claims \<Rightarrow> enrollment \<Rightarrow> ('d, unit) act" where
  "update_course_visibility_handler s cl request =
     bnd (query (get_enrollment_by_course_and_user (edb (cdb s)) (e_courseID request) (cl_UserID cl))) (\<lambda>e.
       exec (db_update_enrollment (cdb s) (e\<lparr>e_state := e_state request\<rparr>)))"

text \<open>\<open>UpdateCourse\<close>; \<open>organization\<close> is the answer of the SCM on the organization of the request.\<close>

definition update_course_handler ::
    "'d service \<Rightarrow> ('d \<Rightarrow> (string + string) \<times> 'd) \<Rightarrow> course \<Rightarrow> ('d, unit) act" where
  "update_course_handler s organization request =
     bnd (call_scm (ws_get_scm s (c_ScmOrganizationName request))) (\<lambda>_.
     bnd (query (get_course (cdb s) (c_ID request))) (\<lambda>_.
     bnd (call_scm organization) (\<lambda>name.
       exec (cq_update_course s (request\<lparr>c_ScmOrganizationName := name\<rparr>)))))"

section \<open>Activity\<close>

definition with_activity :: "results_map \<Rightarrow> enrollment \<Rightarrow> enrollment" where
  "with_activity m e = update_total_approved e (course_submissions_for m (e_ID e))"

definition get_enrollments_with_activity ::
    "slice_sort \<Rightarrow> 'd results_db \<Rightarrow> 'd service \<Rightarrow> u64 \<Rightarrow> 'd \<Rightarrow> db_error + enrollment list" where
  "get_enrollments_with_activity slice_sort rdb s courseID d =
     bind_res (get_course_submissions slice_sort rdb
         \<lparr>srq_CourseID = courseID, srq_AssignmentID = 0, srq_FetchMode = Some (FetchType submission_type.ALL)\<rparr> d) (\<lambda>m.
     bind_res (get_course_by_status (cdb s) courseID Enrollment_TEACHER d) (\<lambda>c.
       Inr (map (\<lambda>e. with_activity m (em_enrollment e)) (cm_enrollments c))))"

section \<open>Roles\<close>

text \<open>The roles that a state records: the status of each enrollment, and the creator of each course.\<close>

record roles =
  rl_status :: "u64 \<times> u64 \<rightharpoonup> user_status"
  rl_creator :: "u64 \<rightharpoonup> u64"

text \<open>
  What the statements document: the pair of course and user is a unique index of enrollments, a query
  with both returns that row, and only the statements on enrollments and courses change the roles.
  A query may fail at any time; a course that is read comes with its creator.
\<close>

definition same_roles :: "('d \<Rightarrow> roles) \<Rightarrow> ('d \<Rightarrow> db_error + 'd) \<Rightarrow> bool" where
  "same_roles view q \<longleftrightarrow> (\<forall>d d'. q d = Inr d' \<longrightarrow> view d' = view d)"

definition same_roles_scm :: "('d \<Rightarrow> roles) \<Rightarrow> ('d \<Rightarrow> (string + 'a) \<times> 'd) \<Rightarrow> bool" where
  "same_roles_scm view c \<longleftrightarrow> (\<forall>d. view (snd (c d)) = view d)"

definition role_reads_ok :: "'d service \<Rightarrow> ('d \<Rightarrow> roles) \<Rightarrow> bool" where
  "role_reads_ok s view \<longleftrightarrow>
     (\<forall>c u d m crs usr. c \<noteq> 0 \<longrightarrow> u \<noteq> 0 \<longrightarrow> eq_enrollment (edb (cdb s)) c u d = Inr (m, crs, usr) \<longrightarrow>
        rl_status (view d) (c, u) = Some (e_status m) \<and> e_courseID m = c \<and> e_userID m = u \<and>
        c_ID crs = c \<and> u_ID usr = u) \<and>
     (\<forall>c d cm u. c \<noteq> 0 \<longrightarrow> get_course (cdb s) c d = Inr cm \<longrightarrow> rl_creator (view d) c = Some u \<longrightarrow>
        c_courseCreatorID (cm_course cm) = u)"

definition role_writes_ok :: "'d service \<Rightarrow> ('d \<Rightarrow> roles) \<Rightarrow> bool" where
  "role_writes_ok s view \<longleftrightarrow>
     (\<forall>c u e d d'. c \<noteq> 0 \<longrightarrow> u \<noteq> 0 \<longrightarrow> e_courseID e = c \<longrightarrow> e_userID e = u \<longrightarrow>
        cq_update_enrollment (cdb s) c u e d = Inr d' \<longrightarrow>
        view d' = (view d)\<lparr>rl_status := (rl_status (view d))((c, u) \<mapsto> e_status e)\<rparr>) \<and>
     (\<forall>e d d'. cq_delete_enrollment (cdb s) e d = Inr d' \<longrightarrow>
        view d' = (view d)\<lparr>rl_status := (rl_status (view d))((e_courseID e, e_userID e) := None)\<rparr>) \<and>
     (\<forall>e d e' d'. cq_create_enrollment (cdb s) e d = Inr (e', d') \<longrightarrow>
        rl_status (view d) (e_courseID e, e_userID e) = None \<and>
        view d' = (view d)\<lparr>rl_status := (rl_status (view d))((e_courseID e, e_userID e) \<mapsto> e_status e)\<rparr>) \<and>
     (\<forall>c d d'. cq_update_course s c d = Inr d' \<longrightarrow>
        view d' = (if c_courseCreatorID c = 0 then view d
                   else (view d)\<lparr>rl_creator := (rl_creator (view d))(c_ID c \<mapsto> c_courseCreatorID c)\<rparr>)) \<and>
     (\<forall>c d c' d'. cq_create_course (cdb s) c d = Inr (c', d') \<longrightarrow>
        rl_creator (view d) (c_ID c') = None \<and>
        view d' = (view d)\<lparr>rl_creator := (rl_creator (view d))(c_ID c' \<mapsto> c_courseCreatorID c)\<rparr>) \<and>
     (\<forall>d d'. cq_commit (cdb s) d = Inr d' \<longrightarrow> view d' = view d)"

definition roles_apart :: "'d service \<Rightarrow> ('d \<Rightarrow> roles) \<Rightarrow> bool" where
  "roles_apart s view \<longleftrightarrow>
     (\<forall>usr. same_roles view (cq_save_user (cdb s) usr)) \<and> (\<forall>i. same_roles view (ws_delete_repository s i)) \<and>
     (\<forall>r d r' d'. cq_create_repository (cdb s) r d = Inr (r', d') \<longrightarrow> view d' = view d) \<and>
     (\<forall>o'. same_roles_scm view (ws_get_scm s o')) \<and> (\<forall>usr. same_roles_scm view (ws_exchange_token s usr)) \<and>
     (\<forall>i. same_roles_scm view (sc_user_by_id s i)) \<and>
     (\<forall>o' l st t. same_roles_scm view (sc_update_enrollment s o' l st t)) \<and>
     (\<forall>l o' r. same_roles_scm view (sc_reject_enrollment s l o' r)) \<and>
     (\<forall>o' l. same_roles_scm view (sc_demote_teacher s o' l))"

section \<open>The state machine of an enrollment\<close>

text \<open>The steps that the operations take, and the states between which a handler may leave one key.\<close>

definition role_step :: "user_status option \<Rightarrow> user_status option \<Rightarrow> bool" where
  "role_step a b \<longleftrightarrow>
     (a, b) \<in> {(Some Enrollment_PENDING, None), (Some Enrollment_STUDENT, None),
       (Some Enrollment_PENDING, Some Enrollment_STUDENT), (Some Enrollment_STUDENT, Some Enrollment_TEACHER),
       (Some Enrollment_TEACHER, Some Enrollment_STUDENT)}"

definition one_step :: "u64 \<times> u64 \<Rightarrow> roles \<Rightarrow> roles \<Rightarrow> bool" where
  "one_step k R R' \<longleftrightarrow>
     R' = R \<or> (\<exists>b. role_step (rl_status R k) b \<and> R' = R\<lparr>rl_status := (rl_status R)(k := b)\<rparr>)"

text \<open>The actions that do not touch the roles keep every invariant of the roles.\<close>

lemma scm_keeps: "same_roles_scm view c \<Longrightarrow> preserves (\<lambda>d. J (view d)) (call_scm c)"
  by (rule preserves_call_scm) (metis same_roles_scm_def snd_conv)

lemma roles_keep:
  assumes "roles_apart s view"
  shows "preserves (\<lambda>d. J (view d)) (exec (update_user (cdb s) usr))"
    and "preserves (\<lambda>d. J (view d)) (exec (ws_delete_repository s i))"
    and "preserves (\<lambda>d. J (view d)) (exec_get (create_repository (cdb s) r))"
    and "preserves (\<lambda>d. J (view d)) (call_scm (ws_get_scm s o'))"
    and "preserves (\<lambda>d. J (view d)) (call_scm (ws_exchange_token s usr))"
    and "preserves (\<lambda>d. J (view d)) (call_scm (sc_user_by_id s i))"
    and "preserves (\<lambda>d. J (view d)) (call_scm (sc_update_enrollment s o' l st t))"
    and "preserves (\<lambda>d. J (view d)) (call_scm (sc_reject_enrollment s l i j))"
    and "preserves (\<lambda>d. J (view d)) (call_scm (sc_demote_teacher s o' l))"
proof -
  note a = assms [unfolded roles_apart_def]
  show "preserves (\<lambda>d. J (view d)) (exec (update_user (cdb s) usr))"
    using a by (intro preserves_exec) (auto simp: same_roles_def update_user_def bind_res_Inr_iff)
  show "preserves (\<lambda>d. J (view d)) (exec (ws_delete_repository s i))"
    using a by (intro preserves_exec) (auto simp: same_roles_def)
  show "preserves (\<lambda>d. J (view d)) (exec_get (create_repository (cdb s) r))"
    using a by (intro preserves_exec_get)
      (auto simp: create_repository_def bind_res_Inr_iff split: if_splits)
qed (use assms in \<open>auto simp: roles_apart_def intro!: scm_keeps\<close>)

lemma find_repo_keeps [keep]: "preserves I (find_repo s c i t)"
  by (simp add: find_repo_def keep)

lemma update_user_from_scm_keeps:
  "roles_apart s view \<Longrightarrow> preserves (\<lambda>d. J (view d)) (update_user_from_scm s usr)"
  unfolding update_user_from_scm_def Let_def by (intro keep roles_keep)

lemma load_enrollment_role:
  assumes "role_reads_ok s view" and "load_enrollment s c u d = Inr (e, crs, usr)" and "c \<noteq> 0" and "u \<noteq> 0"
  shows "rl_status (view d) (c, u) = Some (e_status e) \<and> e_courseID e = c \<and> e_userID e = u \<and>
     c_ID crs = c \<and> u_ID usr = u"
proof -
  from assms(2) obtain m where m: "eq_enrollment (edb (cdb s)) c u d = Inr (m, crs, usr)" "e = set_slip_days m crs"
    by (auto simp: load_enrollment_def bind_res_Inr_iff)
  with assms(1,3,4) have "rl_status (view d) (c, u) = Some (e_status m) \<and> e_courseID m = c \<and> e_userID m = u \<and>
      c_ID crs = c \<and> u_ID usr = u"
    unfolding role_reads_ok_def by blast
  then show ?thesis by (simp add: m(2) set_slip_days_def Let_def)
qed

lemma write_status:
  assumes "role_writes_ok s view" and "e_courseID e \<noteq> 0" and "e_userID e \<noteq> 0"
    and "db_update_enrollment (cdb s) e d = Inr d'"
  shows "view d' = (view d)\<lparr>rl_status := (rl_status (view d))((e_courseID e, e_userID e) \<mapsto> e_status e)\<rparr>"
  using assms by (auto simp: role_writes_ok_def db_update_enrollment_def split: if_splits)

text \<open>Writing a new status at the end of a handler is one step.\<close>

lemma write_lands:
  assumes "role_writes_ok s view" and "e_courseID e = c" and "e_userID e = u" and "c \<noteq> 0" and "u \<noteq> 0"
    and "role_step (rl_status R (c, u)) (Some (e_status e))"
  shows "lands (\<lambda>d. view d = R) (exec (db_update_enrollment (cdb s) e))
     (\<lambda>d. one_step (c, u) R (view d)) (\<lambda>d. one_step (c, u) R (view d))"
  using assms write_status [OF assms(1), of e]
  by (intro lands_exec) (auto simp: one_step_def)

lemma one_step_refl [simp]: "one_step k R R"
  by (simp add: one_step_def)

lemma reject_lands:
  assumes "role_reads_ok s view" "role_writes_ok s view" "roles_apart s view"
    and "c_ID c \<noteq> 0" and "u_ID usr \<noteq> 0" and "role_step (rl_status R (c_ID c, u_ID usr)) None"
  shows "lands (\<lambda>d. view d = R) (sv_reject_enrollment s c usr)
     (\<lambda>d. one_step (c_ID c, u_ID usr) R (view d)) (\<lambda>d. one_step (c_ID c, u_ID usr) R (view d))"
  unfolding sv_reject_enrollment_def
proof (rule lands_bnd [where R = "\<lambda>d. one_step (c_ID c, u_ID usr) R (view d)"])
  have del: "one_step (c_ID c, u_ID usr) R (view d')"
    if "view d = R" "reject_enrollment (cdb s) (u_ID usr) (c_ID c) d = Inr d'" for d d'
  proof -
    from that(2) obtain m crs usr' where
      m: "eq_enrollment (edb (cdb s)) (c_ID c) (u_ID usr) d = Inr (m, crs, usr')"
      "cq_delete_enrollment (cdb s) (set_slip_days m crs) d = Inr d'"
      by (auto simp: reject_enrollment_def get_enrollment_by_course_and_user_def bind_res_Inr_iff)
    with assms(1,4,5) have "e_courseID m = c_ID c" "e_userID m = u_ID usr"
      unfolding role_reads_ok_def by blast+
    then have "view d' = R\<lparr>rl_status := (rl_status R)((c_ID c, u_ID usr) := None)\<rparr>"
      using assms(2) m(2) that(1) by (auto simp: role_writes_ok_def set_slip_days_def Let_def)
    with assms(6) show ?thesis by (auto simp: one_step_def)
  qed
  show "lands (\<lambda>d. view d = R) (attempt (exec (reject_enrollment (cdb s) (u_ID usr) (c_ID c))))
     (\<lambda>d. one_step (c_ID c, u_ID usr) R (view d)) (\<lambda>d. one_step (c_ID c, u_ID usr) R (view d))"
    by (rule lands_attempt [OF lands_exec]) (use del in auto)
  show "lands (\<lambda>d. one_step (c_ID c, u_ID usr) R (view d)) (bnd (find_repo s c (u_ID usr) R_USER) (\<lambda>repo.
       case repo of
         None \<Rightarrow> ret ()
       | Some r \<Rightarrow>
           bnd (attempt (exec (ws_delete_repository s (r_ScmRepositoryID r)))) (\<lambda>_.
           bnd (attempt (call_scm (sc_reject_enrollment s (u_Login usr) (r_ScmOrganizationID r) (r_ScmRepositoryID r))))
             (\<lambda>_. ret ())))) (\<lambda>d. one_step (c_ID c, u_ID usr) R (view d)) (\<lambda>d. one_step (c_ID c, u_ID usr) R (view d))"
    for x :: "svc_error + unit"
    unfolding preserves_lands [symmetric]
    by (intro keep) (auto split: option.split intro!: keep roles_keep [OF assms(3)])
qed

lemma enroll_student_lands:
  assumes "role_writes_ok s view" "roles_apart s view"
    and "e_courseID e = c'" "e_userID e = u" "c' \<noteq> 0" "u \<noteq> 0"
    and "role_step (rl_status R (c', u)) (Some Enrollment_STUDENT)"
  shows "lands (\<lambda>d. view d = R) (enroll_student s e c usr)
     (\<lambda>d. one_step (c', u) R (view d)) (\<lambda>d. one_step (c', u) R (view d))"
proof -
  have w: "lands (\<lambda>d. view d = R) (exec (db_update_enrollment (cdb s) (e\<lparr>e_status := Enrollment_STUDENT\<rparr>)))
     (\<lambda>d. one_step (c', u) R (view d)) (\<lambda>d. one_step (c', u) R (view d))"
    by (rule write_lands) (use assms in simp_all)
  show ?thesis
    unfolding enroll_student_def Let_def
    by (auto split: if_split prod.split intro!: w lands_skip keep roles_keep [OF assms(2), of "\<lambda>v. v = R"])
qed

lemma enroll_teacher_lands:
  assumes "role_writes_ok s view" "roles_apart s view"
    and "e_courseID e = c'" "e_userID e = u" "c' \<noteq> 0" "u \<noteq> 0"
    and "role_step (rl_status R (c', u)) (Some Enrollment_TEACHER)"
  shows "lands (\<lambda>d. view d = R) (enroll_teacher s e c usr)
     (\<lambda>d. one_step (c', u) R (view d)) (\<lambda>d. one_step (c', u) R (view d))"
proof -
  have w: "lands (\<lambda>d. view d = R) (exec (db_update_enrollment (cdb s) (e\<lparr>e_status := Enrollment_TEACHER\<rparr>)))
     (\<lambda>d. one_step (c', u) R (view d)) (\<lambda>d. one_step (c', u) R (view d))"
    by (rule write_lands) (use assms in simp_all)
  show ?thesis
    unfolding enroll_teacher_def by (auto intro!: w lands_skip roles_keep [OF assms(2), of "\<lambda>v. v = R"])
qed

lemma revoke_teacher_lands:
  assumes "role_writes_ok s view" "roles_apart s view"
    and "e_courseID e = c'" "e_userID e = u" "c' \<noteq> 0" "u \<noteq> 0"
    and "role_step (rl_status R (c', u)) (Some Enrollment_STUDENT)"
  shows "lands (\<lambda>d. view d = R) (revoke_teacher_status s e c usr)
     (\<lambda>d. one_step (c', u) R (view d)) (\<lambda>d. one_step (c', u) R (view d))"
proof -
  have w: "lands (\<lambda>d. view d = R) (exec (db_update_enrollment (cdb s) (e\<lparr>e_status := Enrollment_STUDENT\<rparr>)))
     (\<lambda>d. one_step (c', u) R (view d)) (\<lambda>d. one_step (c', u) R (view d))"
    by (rule write_lands) (use assms in simp_all)
  show ?thesis
    unfolding revoke_teacher_status_def
    by (auto intro!: w lands_skip keep roles_keep [OF assms(2), of "\<lambda>v. v = R"])
qed

text \<open>\<open>updateEnrollment\<close> leaves the roles as they were, or takes one step at the key of the request.\<close>

lemma update_enrollment_lands:
  assumes "role_reads_ok s view" "role_writes_ok s view" "roles_apart s view"
    and "e_courseID request \<noteq> 0" and "e_userID request \<noteq> 0"
  shows "lands (\<lambda>d. view d = R) (update_enrollment s request)
     (\<lambda>d. one_step (e_courseID request, e_userID request) R (view d))
     (\<lambda>d. one_step (e_courseID request, e_userID request) R (view d))"
  unfolding update_enrollment_def
proof (rule lands_query_bnd)
  let ?k = "(e_courseID request, e_userID request)"
  let ?E = "\<lambda>d. one_step ?k R (view d)"
  fix x :: "enrollment \<times> course \<times> user"
  obtain e c usr where x: "x = (e, c, usr)" by (cases x) auto
  let ?P = "\<lambda>d. view d = R \<and> load_enrollment s (e_courseID request) (e_userID request) d = Inr x"
  let ?act = "case x of (e, c, usr) \<Rightarrow> bnd (update_user_from_scm s usr) (\<lambda>usr.
       if (is_pending e \<or> is_student e) \<and> is_none request then sv_reject_enrollment s c usr
       else if is_pending e \<and> is_student request then enroll_student s e c usr
       else if is_student e \<and> is_teacher request then enroll_teacher s e c usr
       else if is_teacher e \<and> is_student request then revoke_teacher_status s e c usr
       else throw (SvcErr ''unknown enrollment status change''))"
  show "lands ?P ?act ?E ?E"
  proof (cases "\<exists>d. ?P d")
    case True
    then have f: "rl_status R ?k = Some (e_status e)" "e_courseID e = e_courseID request"
      "e_userID e = e_userID request" "c_ID c = e_courseID request" "u_ID usr = e_userID request"
      using load_enrollment_role [OF assms(1) _ assms(4,5)] x by blast+
    have step: "lands (\<lambda>d. view d = R) (
       if (is_pending e \<or> is_student e) \<and> is_none request then sv_reject_enrollment s c usr'
       else if is_pending e \<and> is_student request then enroll_student s e c usr'
       else if is_student e \<and> is_teacher request then enroll_teacher s e c usr'
       else if is_teacher e \<and> is_student request then revoke_teacher_status s e c usr'
       else throw (SvcErr ''unknown enrollment status change'')) ?E ?E" if "u_ID usr' = u_ID usr" for usr'
      using reject_lands [OF assms(1-3), of c usr' R] that f assms(4,5)
      by (auto simp: is_pending_def is_student_def is_teacher_def role_step_def
          intro!: lands_throw enroll_student_lands [OF assms(2,3)] enroll_teacher_lands [OF assms(2,3)]
            revoke_teacher_lands [OF assms(2,3)])
    have "lands (\<lambda>d. view d = R) ?act ?E ?E"
      unfolding x prod.case update_user_from_scm_def Let_def bnd_assoc bnd_ret
      by (intro lands_skip roles_keep [OF assms(3), of "\<lambda>v. v = R"] step) simp_all
    then show ?thesis by (rule lands_pre) simp
  qed (auto simp: lands_def)
qed simp

section \<open>The creator of a course\<close>

text \<open>Every course has its creator among its teachers.\<close>

definition creators_teach :: "roles \<Rightarrow> bool" where
  "creators_teach R \<longleftrightarrow>
     (\<forall>c u. rl_creator R c = Some u \<longrightarrow> rl_status R (c, u) = Some Enrollment_TEACHER)"

lemma creators_teach_step:
  assumes "creators_teach R" and "one_step (c, u) R R'" and "rl_creator R c \<noteq> Some u"
  shows "creators_teach R'"
  using assms unfolding creators_teach_def one_step_def by auto

text \<open>
  \<open>isCourseCreator\<close> drops the error of its query, so that a course that cannot be read has no creator.  The
  course of each enrollment of a request is readable when its turn comes:
\<close>

definition course_readable :: "'d service \<Rightarrow> ('d \<Rightarrow> roles) \<Rightarrow> u64 \<Rightarrow> 'd \<Rightarrow> bool" where
  "course_readable s view c d \<longleftrightarrow> (rl_creator (view d) c \<noteq> None \<longrightarrow> (\<exists>cm. get_course (cdb s) c d = Inr cm))"

fun creators_read :: "'d service \<Rightarrow> ('d \<Rightarrow> roles) \<Rightarrow> enrollment list \<Rightarrow> 'd \<Rightarrow> bool" where
  "creators_read s view [] d \<longleftrightarrow> True"
| "creators_read s view (e # es) d \<longleftrightarrow> course_readable s view (e_courseID e) d \<and>
     (\<forall>d'. update_one s e d = (Inr (), d') \<longrightarrow> creators_read s view es d')"

lemma update_one_keeps:
  assumes "role_reads_ok s view" "role_writes_ok s view" "roles_apart s view"
    and "e_courseID e \<noteq> 0" and "e_userID e \<noteq> 0" and "course_readable s view (e_courseID e) d"
    and d: "creators_teach (view d)" "update_one s e d = (r, d')"
  shows "creators_teach (view d')"
proof (cases "is_course_creator s (e_courseID e) (e_userID e) d")
  case True
  with d show ?thesis by (simp add: update_one_def bnd_def query_def throw_def)
next
  case False
  with d have upd: "update_enrollment s e d = (r, d')" by (simp add: update_one_def bnd_def query_def)
  have "rl_creator (view d) (e_courseID e) \<noteq> Some (e_userID e)"
  proof
    assume creator: "rl_creator (view d) (e_courseID e) = Some (e_userID e)"
    with assms(6) obtain cm where "get_course (cdb s) (e_courseID e) d = Inr cm" by (auto simp: course_readable_def)
    moreover from this creator have "c_courseCreatorID (cm_course cm) = e_userID e"
      using assms(1,4) unfolding role_reads_ok_def by blast
    ultimately show False using False by (simp add: is_course_creator_def)
  qed
  moreover have "one_step (e_courseID e, e_userID e) (view d) (view d')"
    by (rule lands_any [OF update_enrollment_lands [OF assms(1-5)] _ upd]) simp
  ultimately show ?thesis using creators_teach_step d(1) by blast
qed

lemma update_all_keeps:
  assumes "role_reads_ok s view" "role_writes_ok s view" "roles_apart s view"
  shows "(\<And>e. e \<in> set es \<Longrightarrow> e_courseID e \<noteq> 0 \<and> e_userID e \<noteq> 0) \<Longrightarrow> creators_read s view es d \<Longrightarrow>
    creators_teach (view d) \<Longrightarrow> for_each (update_one s) es d = (r, d') \<Longrightarrow> creators_teach (view d')"
proof (induction es arbitrary: d)
  case (Cons e es)
  obtain r1 d1 where one: "update_one s e d = (r1, d1)" by fastforce
  have step: "creators_teach (view d1)"
    by (rule update_one_keeps [OF assms _ _ _ Cons.prems(3) one]) (use Cons.prems(1,2) in auto)
  show ?case
  proof (cases r1)
    case (Inl x)
    with Cons.prems(4) one step show ?thesis by (simp add: bnd_def)
  next
    case (Inr u)
    with Cons.prems one step Cons.IH [of d1] show ?thesis by (simp add: bnd_def)
  qed
qed (simp add: ret_def)

text \<open>The calls that change courses and enrollments, as they reach their handlers: valid, from a known user.\<close>

datatype course_call =
    CallCreateCourse u64 course
  | CallUpdateCourse course string
  | CallCreateEnrollment enrollment
  | CallUpdateEnrollments claims "enrollment list"
  | CallVisibility claims enrollment

fun handle :: "'d service \<Rightarrow> (string \<Rightarrow> string option) \<Rightarrow> course_call \<Rightarrow> ('d, unit) act" where
  "handle s pa (CallCreateCourse u c) = bnd (exec_get (create_course (cdb s) u c)) (\<lambda>_. ret ())"
| "handle s pa (CallUpdateCourse c name) = update_course_handler s (\<lambda>d. (Inr name, d)) c"
| "handle s pa (CallCreateEnrollment e) = create_enrollment_handler s pa e"
| "handle s pa (CallUpdateEnrollments cl es) = update_enrollments_handler s cl es"
| "handle s pa (CallVisibility cl e) = update_course_visibility_handler s cl e"

text \<open>
  What the theorem on creators asks of a call besides its validity: an update of a course names no creator, and no
  query of \<open>isCourseCreator\<close> fails.
\<close>

definition before_updates :: "'d service \<Rightarrow> claims \<Rightarrow> enrollment list \<Rightarrow> ('d, unit) act" where
  "before_updates s cl es =
     bnd (query (get_user (cdb s) (cl_UserID cl))) (\<lambda>_. get_scm_for_course s (enrollments_course_id es))"

fun call_ok :: "'d service \<Rightarrow> ('d \<Rightarrow> roles) \<Rightarrow> 'd \<Rightarrow> course_call \<Rightarrow> bool" where
  "call_ok s view d (CallCreateCourse u c) \<longleftrightarrow> True"
| "call_ok s view d (CallUpdateCourse c name) \<longleftrightarrow> c_courseCreatorID c = 0"
| "call_ok s view d (CallCreateEnrollment e) \<longleftrightarrow> enrollment_is_valid e"
| "call_ok s view d (CallUpdateEnrollments cl es) \<longleftrightarrow> enrollments_is_valid es \<and>
     (\<forall>d'. before_updates s cl es d = (Inr (), d') \<longrightarrow> creators_read s view es d')"
| "call_ok s view d (CallVisibility cl e) \<longleftrightarrow> enrollment_is_valid e \<and> cl_UserID cl \<noteq> 0"

inductive course_run :: "'d service \<Rightarrow> ('d \<Rightarrow> roles) \<Rightarrow> (string \<Rightarrow> string option) \<Rightarrow> 'd \<Rightarrow> 'd \<Rightarrow> bool"
  for s :: "'d service" and view :: "'d \<Rightarrow> roles" and pa :: "string \<Rightarrow> string option" and d0 :: 'd where
  start: "course_run s view pa d0 d0"
| call: "course_run s view pa d0 d \<Longrightarrow> call_ok s view d c \<Longrightarrow> handle s pa c d = (r, d') \<Longrightarrow> course_run s view pa d0 d'"

definition roles_db_ok :: "'d service \<Rightarrow> ('d \<Rightarrow> roles) \<Rightarrow> bool" where
  "roles_db_ok s view \<longleftrightarrow> role_reads_ok s view \<and> role_writes_ok s view \<and> roles_apart s view"

lemma create_course_keeps:
  assumes "role_writes_ok s view"
  shows "preserves (\<lambda>d. creators_teach (view d)) (exec_get (create_course (cdb s) u c))"
proof (rule preserves_exec_get)
  fix d c' d' assume d: "creators_teach (view d)" "create_course (cdb s) u c d = Inr (c', d')"
  from d(2) obtain d1 e d2 where
    c: "cq_create_course (cdb s) (c\<lparr>c_courseCreatorID := u\<rparr>) d = Inr (c', d1)"
    "cq_create_enrollment (cdb s) (zero_enrollment\<lparr>e_userID := u, e_courseID := c_ID c',
       e_status := Enrollment_TEACHER, e_state := VISIBLE\<rparr>) d1 = Inr (e, d2)" "cq_commit (cdb s) d2 = Inr d'"
    by (auto simp: create_course_def bind_res_Inr_iff split: if_splits)
  have "rl_creator (view d) (c_ID c') = None"
    "view d1 = (view d)\<lparr>rl_creator := (rl_creator (view d))(c_ID c' \<mapsto> u)\<rparr>"
    using assms c(1) unfolding role_writes_ok_def by (metis course.select_convs(2) course.surjective course.update_convs(2))+
  moreover have "rl_status (view d1) (c_ID c', u) = None"
    "view d2 = (view d1)\<lparr>rl_status := (rl_status (view d1))((c_ID c', u) \<mapsto> Enrollment_TEACHER)\<rparr>"
    using assms c(2) unfolding role_writes_ok_def by fastforce+
  moreover have "view d' = view d2" using assms c(3) unfolding role_writes_ok_def by blast
  ultimately show "creators_teach (view d')" using d(1) by (auto simp: creators_teach_def)
qed

lemma enrollments_valid_ids: "enrollments_is_valid es \<Longrightarrow> e \<in> set es \<Longrightarrow> e_courseID e \<noteq> 0 \<and> e_userID e \<noteq> 0"
  by (auto simp: enrollments_is_valid_def enrollment_is_valid_def list_all_iff word_gt_0 split: if_splits)

lemma update_course_keeps:
  assumes "role_writes_ok s view" and "c_courseCreatorID c = 0"
  shows "preserves (\<lambda>d. J (view d)) (exec (cq_update_course s c))"
proof (rule preserves_exec)
  fix d d' assume "J (view d)" "cq_update_course s c d = Inr d'"
  moreover have "\<forall>c d d'. cq_update_course s c d = Inr d' \<longrightarrow>
        view d' = (if c_courseCreatorID c = 0 then view d
                   else (view d)\<lparr>rl_creator := (rl_creator (view d))(c_ID c \<mapsto> c_courseCreatorID c)\<rparr>)"
    using assms(1) unfolding role_writes_ok_def by blast
  ultimately show "J (view d')" using assms(2) by simp
qed

lemma exec_Inr: "exec q d = (Inr x, d') \<longleftrightarrow> q d = Inr d'"
  by (auto simp: exec_def split: sum.splits)

lemma call_scm_ok [simp]: "call_scm (\<lambda>d. (Inr x, d)) = ret x"
  by (simp add: call_scm_def ret_def fun_eq_iff)

lemma visibility_keeps:
  assumes ok: "role_reads_ok s view" "role_writes_ok s view" "roles_apart s view"
    and "enrollment_is_valid e" and "cl_UserID cl \<noteq> 0"
  shows "preserves (\<lambda>d. creators_teach (view d)) (update_course_visibility_handler s cl e)"
proof -
  let ?k = "(e_courseID e, cl_UserID cl)"
  have ids: "e_courseID e \<noteq> 0" "cl_UserID cl \<noteq> 0"
    using assms(4,5) by (auto simp: enrollment_is_valid_def word_gt_0)
  show ?thesis
    unfolding update_course_visibility_handler_def preserves_lands
  proof (rule lands_query_bnd)
    fix m
    let ?P = "\<lambda>d. creators_teach (view d) \<and>
      get_enrollment_by_course_and_user (edb (cdb s)) (e_courseID e) (cl_UserID cl) d = Inr m"
    show "lands ?P (exec (db_update_enrollment (cdb s) (m\<lparr>e_state := e_state e\<rparr>)))
       (\<lambda>d. creators_teach (view d)) (\<lambda>d. creators_teach (view d))"
    proof (rule lands_exec)
      fix d d' assume d: "?P d" "db_update_enrollment (cdb s) (m\<lparr>e_state := e_state e\<rparr>) d = Inr d'"
      then obtain crs usr where "load_enrollment s (e_courseID e) (cl_UserID cl) d = Inr (m, crs, usr)"
        by (auto simp: get_enrollment_by_course_and_user_def load_enrollment_def bind_res_Inr_iff)
      from load_enrollment_role [OF ok(1) this ids]
      have m: "rl_status (view d) ?k = Some (e_status m)" "e_courseID m = e_courseID e" "e_userID m = cl_UserID cl"
        by simp_all
      with write_status [OF ok(2) _ _ d(2)] ids
      have "view d' = (view d)\<lparr>rl_status := (rl_status (view d))(?k \<mapsto> e_status m)\<rparr>" by simp
      with m(1) d(1) show "creators_teach (view d')" by (auto simp: creators_teach_def)
    qed simp
  qed simp
qed

lemma create_enrollment_keeps:
  assumes "role_writes_ok s view"
  shows "preserves (\<lambda>d. creators_teach (view d)) (create_enrollment_handler s pa e)"
proof -
  have "creators_teach (view d')"
    if "creators_teach (view d)" "create_enrollment (cdb s) pa e d = Inr (e', d')" for d e' d'
  proof -
    from that(2) have "cq_create_enrollment (cdb s) (e\<lparr>e_status := Enrollment_PENDING, e_state := VISIBLE\<rparr>) d = Inr (e', d')"
      by (auto simp: create_enrollment_def bind_res_Inr_iff split: option.splits if_splits)
    then have "rl_status (view d) (e_courseID e, e_userID e) = None"
      "view d' = (view d)\<lparr>rl_status := (rl_status (view d))((e_courseID e, e_userID e) \<mapsto> Enrollment_PENDING)\<rparr>"
      using assms unfolding role_writes_ok_def by fastforce+
    with that(1) show ?thesis by (auto simp: creators_teach_def)
  qed
  then show ?thesis by (auto simp: create_enrollment_handler_def intro!: keep preserves_exec_get)
qed

lemma update_enrollments_keep:
  assumes "roles_db_ok s view" and "call_ok s view d (CallUpdateEnrollments cl es)" and "creators_teach (view d)"
    and "update_enrollments_handler s cl es d = (r, d')"
  shows "creators_teach (view d')"
proof -
  have ok: "role_reads_ok s view" "role_writes_ok s view" "roles_apart s view"
    using assms(1) by (simp_all add: roles_db_ok_def)
  have "preserves (\<lambda>d. creators_teach (view d)) (before_updates s cl es)"
    unfolding before_updates_def get_scm_for_course_def by (intro keep roles_keep [OF ok(3)])
  note before = preservesD [OF this assms(3)]
  have "update_enrollments_handler s cl es = bnd (before_updates s cl es) (\<lambda>_. for_each (update_one s) es)"
    by (simp add: update_enrollments_handler_def before_updates_def bnd_assoc)
  with assms(4) have run: "bnd (before_updates s cl es) (\<lambda>_. for_each (update_one s) es) d = (r, d')" by simp
  obtain r1 d1 where first: "before_updates s cl es d = (r1, d1)" by fastforce
  show ?thesis
  proof (cases r1)
    case (Inl x)
    with run first before show ?thesis by (auto simp: bnd_def)
  next
    case (Inr u)
    with run first have "for_each (update_one s) es d1 = (r, d')" by (simp add: bnd_def)
    moreover have "creators_read s view es d1" using assms(2) first Inr by simp
    ultimately show ?thesis
      using update_all_keeps [OF ok] enrollments_valid_ids before [OF first] assms(2) by fastforce
  qed
qed

lemma handle_keeps:
  assumes "roles_db_ok s view" and "call_ok s view d c" and "creators_teach (view d)" and "handle s pa c d = (r, d')"
  shows "creators_teach (view d')"
proof -
  have ok: "role_reads_ok s view" "role_writes_ok s view" "roles_apart s view"
    using assms(1) by (simp_all add: roles_db_ok_def)
  have keeps: "preserves (\<lambda>d. creators_teach (view d)) (handle s pa c)" if "\<nexists>cl es. c = CallUpdateEnrollments cl es"
    using that assms(2)
    by (cases c) (auto simp: update_course_handler_def intro!: keep create_course_keeps [OF ok(2)] roles_keep [OF ok(3)]
        update_course_keeps [OF ok(2)] create_enrollment_keeps [OF ok(2)] visibility_keeps [OF ok])
  have "\<nexists>cl es. c = CallUpdateEnrollments cl es \<Longrightarrow> ?thesis"
    using preservesD [of "\<lambda>d. creators_teach (view d)", OF keeps] assms(3,4) by blast
  moreover have ?thesis if "c = CallUpdateEnrollments cl es" for cl es
    using update_enrollments_keep [OF assms(1) _ assms(3)] assms(2,4) that by simp
  ultimately show ?thesis by blast
qed

section \<open>Properties\<close>

text \<open>
  C7: one valid request to change an enrollment either leaves all roles as they are, or takes one step
  of the state machine at the enrollment it names (pending to student or removed, student to teacher or
  removed, teacher to student), whatever fails on the way in the database or at the SCM.
\<close>

theorem update_enrollment_steps:
  assumes "roles_db_ok s view" and "enrollment_is_valid request" and "update_enrollment s request d = (r, d')"
  shows "one_step (e_courseID request, e_userID request) (view d) (view d')"
proof -
  have "role_reads_ok s view" "role_writes_ok s view" "roles_apart s view"
    using assms(1) by (simp_all add: roles_db_ok_def)
  moreover have "e_courseID request \<noteq> 0" "e_userID request \<noteq> 0"
    using assms(2) by (auto simp: enrollment_is_valid_def word_gt_0)
  ultimately show ?thesis by (rule lands_any [OF update_enrollment_lands _ assms(3)]) simp
qed


text \<open>updating a course stores the creator that the request names, whoever it is; the handler is open
  to every teacher of the course, so a teacher can make itself the creator and then remove the other.
\<close>

lemma update_course_takes_creator:
  assumes "roles_db_ok s view" and "c_courseCreatorID c \<noteq> 0"
    and "handle s pa (CallUpdateCourse c name) d = (Inr (), d')"
  shows "rl_creator (view d') (c_ID c) = Some (c_courseCreatorID c)"
proof -
  from assms(3) obtain d1 where "cq_update_course s (c\<lparr>c_ScmOrganizationName := name\<rparr>) d1 = Inr d'"
    by (auto simp: update_course_handler_def bnd_cases exec_Inr)
  with assms(1,2) show ?thesis by (auto simp: roles_db_ok_def role_writes_ok_def)
qed

section \<open>A service over the roles alone\<close>

text \<open>
  A database that holds the roles and nothing else, under an SCM that accepts every call: the laws of
  \<open>roles_db_ok\<close> can hold.
\<close>

definition set_role :: "u64 \<Rightarrow> u64 \<Rightarrow> user_status option \<Rightarrow> roles \<Rightarrow> roles" where
  "set_role c u st R = R\<lparr>rl_status := (rl_status R)((c, u) := st)\<rparr>"

definition null_sub_db :: "'d sub_db" where
  "null_sub_db =
     \<lparr>sq_user_count = (\<lambda>i R. Inr 1), sq_group_count = (\<lambda>i R. Inr 0), sq_assignment_count = (\<lambda>i R. Inr 0),
      sq_last = (\<lambda>q R. Inl RecordNotFound), sq_find = (\<lambda>q R. Inr []), sq_first = (\<lambda>i R. Inl RecordNotFound),
      sq_delete_scores = (\<lambda>i R. Inr R), sq_delete_build_infos = (\<lambda>i R. Inr R), sq_members = (\<lambda>g R. []),
      sq_assignment = (\<lambda>q R. Inl RecordNotFound), sq_course_assignments = (\<lambda>c R. Inr []),
      sq_benchmarks = (\<lambda>a R. Inr []), sq_criteria = (\<lambda>b R. Inr []), sq_save = (\<lambda>x R. Inr (x, R)),
      sq_update = (\<lambda>x R. Inr R), sq_create_review = (\<lambda>x R. Inr (x, R))\<rparr>"

definition role_enr_db :: "roles enr_db" where
  "role_enr_db = sub_db.extend null_sub_db (enr_db.fields
     (\<lambda>c u R. case rl_status R (c, u) of
         None \<Rightarrow> Inl RecordNotFound
       | Some st \<Rightarrow> Inr (zero_enrollment\<lparr>e_ID := 1, e_courseID := c, e_userID := u, e_status := st\<rparr>,
           zero_course\<lparr>c_ID := c, c_ScmOrganizationID := 7\<rparr>, zero_user\<lparr>u_ID := u\<rparr>))
     (\<lambda>g R. Inr []) (\<lambda>g us R. Inl RecordNotFound) (\<lambda>x R. Inr R))"

definition role_group_db :: "roles group_db" where
  "role_group_db = enr_db.extend role_enr_db (group_db.fields
     (\<lambda>c R. Inr 1) (\<lambda>g R. Inl ''no groups'') (\<lambda>c us sts g R. Inr (0, R)) (\<lambda>g R. Inr R) (\<lambda>g st R. Inr R)
     (\<lambda>g us R. Inr R) (\<lambda>g R. Inr R) (\<lambda>g R. Inr []) (\<lambda>i R. Inr R) (\<lambda>x R. Inr R) (\<lambda>g R. Inr R) (\<lambda>c sts R. Inr []))"

definition role_course_db :: "roles course_db" where
  "role_course_db = group_db.extend role_group_db (course_db.fields
     (\<lambda>u R. Inr (zero_user\<lparr>u_ID := u, u_IsAdmin := True\<rparr>)) (\<lambda>us R. Inr []) (\<lambda>l sts R. Inl RecordNotFound)
     (\<lambda>u R. Inl RecordNotFound) (\<lambda>u R. Inr (u, R)) (\<lambda>u R. Inr R)
     (\<lambda>q p R. case rl_creator R (c_ID q) of
         None \<Rightarrow> Inl RecordNotFound
       | Some u \<Rightarrow> Inr (CourseMsg (zero_course\<lparr>c_ID := c_ID q, c_courseCreatorID := u\<rparr>) [] []))
     (\<lambda>cs R. Inr []) (\<lambda>o' c y R. Inr 0)
     (\<lambda>c R. if rl_creator R (c_ID c) = None
            then Inr (c, R\<lparr>rl_creator := (rl_creator R)(c_ID c \<mapsto> c_courseCreatorID c)\<rparr>) else Inl CourseExists)
     (\<lambda>c R. Inr (if c_courseCreatorID c = 0 then R
                 else R\<lparr>rl_creator := (rl_creator R)(c_ID c \<mapsto> c_courseCreatorID c)\<rparr>))
     (\<lambda>e R. if rl_status R (e_courseID e, e_userID e) = None
            then Inr (e, set_role (e_courseID e) (e_userID e) (Some (e_status e)) R)
            else Inl (Failed ''UNIQUE constraint failed''))
     (\<lambda>e R. Inr (set_role (e_courseID e) (e_userID e) None R))
     (\<lambda>c u e R. Inr (set_role c u (Some (e_status e)) R))
     (\<lambda>f sts R. Inr []) (\<lambda>R. Inr R) (\<lambda>g R. Inr ()) (\<lambda>r R. Inr (r, R)))"

definition role_service :: "roles service" where
  "role_service = course_db.extend role_course_db (service.fields
     (\<lambda>r R. Inr []) (\<lambda>i R. Inr R) (\<lambda>o' R. (Inr (), R)) (\<lambda>u R. (Inr (''token'', u), R))
     (\<lambda>i R. (Inr \<lparr>su_login = [], su_avatar = []\<rparr>, R)) (\<lambda>o' l st t R. (Inr \<lparr>sr_ID = 1, sr_HTMLURL = []\<rparr>, R))
     (\<lambda>l o' r R. (Inr (), R)) (\<lambda>o' l R. (Inr (), R)) (\<lambda>o' g us R. (Inr \<lparr>sr_ID = 1, sr_HTMLURL = []\<rparr>, R))
     (\<lambda>o' g us R. (Inr (), R)) (\<lambda>i R. (Inr (), R)) (\<lambda>i R. True))"

lemmas role_service_defs = role_service_def role_course_db_def role_group_db_def role_enr_db_def null_sub_db_def
  course_db.extend_def group_db.extend_def enr_db.extend_def sub_db.extend_def course_db.truncate_def
  group_db.truncate_def enr_db.truncate_def sub_db.truncate_def
  service.fields_def course_db.fields_def group_db.fields_def enr_db.fields_def

lemma role_service_ok: "roles_db_ok role_service id"
proof -
  have "role_reads_ok role_service id"
    by (auto simp: role_reads_ok_def role_service_defs get_course_def split: option.splits)
  moreover have "role_writes_ok role_service id"
    by (auto simp: role_writes_ok_def role_service_defs set_role_def split: if_splits)
  moreover have "roles_apart role_service id"
    by (simp add: roles_apart_def role_service_defs same_roles_def same_roles_scm_def)
  ultimately show ?thesis by (simp add: roles_db_ok_def)
qed

definition sample_roles :: roles where
  "sample_roles = \<lparr>rl_status = [(1, 2) \<mapsto> Enrollment_TEACHER, (1, 5) \<mapsto> Enrollment_PENDING], rl_creator = [1 \<mapsto> 2]\<rparr>"

definition sample_request :: enrollment where
  "sample_request = zero_enrollment\<lparr>e_courseID := 1, e_userID := 5, e_status := Enrollment_STUDENT\<rparr>"

definition teacher_claims :: claims where
  "teacher_claims = \<lparr>cl_UserID = 2, cl_Admin = False, cl_Courses = [1 \<mapsto> Enrollment_TEACHER], cl_Groups = [],
     cl_ExpiresAt = None, cl_IssuedAt = None, cl_Issuer = []\<rparr>"

lemma sample_request_valid: "enrollment_is_valid sample_request" "enrollments_is_valid [sample_request]"
  by (simp_all add: enrollment_is_valid_def enrollments_is_valid_def has_course_id_def sample_request_def
      zero_enrollment_def less_eq_user_status_def Enrollment_STUDENT_def Enrollment_TEACHER_def Enrollment_NONE_def)

lemma sample_update:
  "update_enrollment role_service sample_request sample_roles =
     (Inr (), set_role 1 5 (Some Enrollment_STUDENT) sample_roles)"
  by (simp add: update_enrollment_def enroll_student_def update_user_from_scm_def find_repo_def get_repo_def
      load_enrollment_def create_repository_def update_user_def db_update_enrollment_def bnd_def query_def
      exec_def exec_get_def call_scm_def attempt_def ret_def sample_request_def sample_roles_def
      role_service_defs set_slip_days_def is_pending_def is_student_def is_none_def Let_def
      zero_enrollment_def zero_course_def zero_user_def zero_repository_def user_repo_def
      Enrollment_PENDING_def Enrollment_STUDENT_def Enrollment_TEACHER_def Enrollment_NONE_def)

lemma sample_creators: "creators_teach (id sample_roles)"
  by (simp add: creators_teach_def sample_roles_def)

lemma update_enrollment_steps_witness:
  "one_step (1, 5) sample_roles (set_role 1 5 (Some Enrollment_STUDENT) sample_roles)"
proof -
  from update_enrollment_steps [OF role_service_ok sample_request_valid(1) sample_update] show ?thesis
    by (simp add: sample_request_def)
qed


text \<open>
  The same database, but the queries for a course fail: the check does not recognize the creator, user 2, who is
  demoted.
\<close>

definition unread_service :: "roles service" where
  "unread_service = role_service\<lparr>cq_course := \<lambda>q p R. Inl (Failed ''database is locked'')\<rparr>"

definition demote_creator :: enrollment where
  "demote_creator = zero_enrollment\<lparr>e_courseID := 1, e_userID := 2, e_status := Enrollment_STUDENT\<rparr>"

lemma failed_read_demotes_creator:
  "roles_db_ok unread_service id" "creators_teach sample_roles"
  "fst (update_one unread_service demote_creator sample_roles) = Inr ()"
  "\<not> creators_teach (snd (update_one unread_service demote_creator sample_roles))"
proof -
  show "roles_db_ok unread_service id"
    using role_service_ok
    by (auto simp: roles_db_ok_def role_reads_ok_def role_writes_ok_def roles_apart_def unread_service_def get_course_def
        course_db.truncate_def group_db.truncate_def enr_db.truncate_def)
  show "creators_teach sample_roles" using sample_creators by simp
  show "fst (update_one unread_service demote_creator sample_roles) = Inr ()" by code_simp
  have "rl_status (snd (update_one unread_service demote_creator sample_roles)) (1, 2) = Some Enrollment_STUDENT"
    "rl_creator (snd (update_one unread_service demote_creator sample_roles)) 1 = Some 2" by code_simp+
  moreover have "creators_teach R \<Longrightarrow> rl_creator R 1 = Some 2 \<Longrightarrow> rl_status R (1, 2) = Some Enrollment_TEACHER" for R
    by (simp add: creators_teach_def)
  ultimately show "\<not> creators_teach (snd (update_one unread_service demote_creator sample_roles))"
    by (auto simp: Enrollment_STUDENT_def Enrollment_TEACHER_def)
qed

lemma update_course_takes_creator_witness:
  "rl_creator (snd (handle role_service Some (CallUpdateCourse (zero_course\<lparr>c_ID := 1, c_courseCreatorID := 9\<rparr>) ''org'')
     sample_roles)) 1 = Some 9"
proof -
  let ?c = "zero_course\<lparr>c_ID := 1, c_courseCreatorID := 9\<rparr>"
  obtain d' where d': "handle role_service Some (CallUpdateCourse ?c ''org'') sample_roles = (Inr (), d')"
    by (simp add: update_course_handler_def bnd_def query_def call_scm_def exec_def get_course_def ret_def
        role_service_defs sample_roles_def)
  from update_course_takes_creator [OF role_service_ok _ this] have "rl_creator d' 1 = Some 9" by simp
  with d' show ?thesis by simp
qed

end
