(* ===== verification/Github.thy ===== *)
theory Github
  imports Actions Repo
begin

text \<open>
  The SCM client: \<open>scm/github.go\<close>, with its options, errors and invitations (\<open>scm/scm_options.go\<close>,
  \<open>scm/scm_errors.go\<close>, \<open>scm/helper.go\<close>, \<open>scm/github_invite.go\<close>).  The calls of the GitHub library are the
  fields of \<open>github\<close>, functions of the state of GitHub; a call that fails gives the status of the
  response, 0 when there is none.
\<close>

section \<open>Errors\<close>

text \<open>The sentinel errors, and the others by what they say; \<open>Op\<close> is the operation that \<open>E\<close> adds.\<close>

datatype scm_error =
    ErrAlreadyExists
  | ErrNotOwner
  | MissingFields
  | ApiFailure nat
  | InvalidStatus
  | MergeConflict
  | NotReady
  | RetriesExceeded
  | ContextDone
  | Op string scm_error

fun scm_cause :: "scm_error \<Rightarrow> scm_error" where
  "scm_cause (Op oper e) = scm_cause e"
| "scm_cause e = e"

fun is_scm_error :: "scm_error \<Rightarrow> bool" where
  "is_scm_error (Op oper e) \<longleftrightarrow> True"
| "is_scm_error e \<longleftrightarrow> False"

text \<open>The code that \<open>userSCMError\<close> gives to an error with an SCM error in its chain.\<close>

datatype connect_code = CodeAlreadyExists | CodePermissionDenied | CodeNotFound

definition user_scm_error :: "scm_error \<Rightarrow> connect_code option" where
  "user_scm_error e =
     (if \<not> is_scm_error e then None
      else if scm_cause e = ErrAlreadyExists then Some CodeAlreadyExists
      else if scm_cause e = ErrNotOwner then Some CodePermissionDenied
      else Some CodeNotFound)"

section \<open>The client\<close>

record gh_repository =
  rp_ID :: u64
  rp_Repo :: string
  rp_Owner :: string
  rp_HTMLURL :: string

type_synonym ('s, 'a) api = "('s, nat, 'a) action"
type_synonym ('s, 'a) scm = "('s, scm_error, 'a) action"

text \<open>
  \<open>gh_wait\<close> waits for a number of seconds and tells whether the context was done before;
  \<open>gh_merge_upstream\<close> returns, when it fails, the status and the delay that a rate limit asks for, if it
  is one.
\<close>

record 's github =
  gh_user_by_id :: "u64 \<Rightarrow> ('s, string \<times> string) api"
  gh_org_by_id :: "u64 \<Rightarrow> ('s, u64 \<times> string) api"
  gh_org :: "string \<Rightarrow> ('s, u64 \<times> string) api"
  gh_list_repos :: "string \<Rightarrow> ('s, gh_repository list) api"
  gh_org_role :: "string \<Rightarrow> string \<Rightarrow> ('s, string) api"
  gh_edit_org :: "string \<Rightarrow> ('s, unit) api"
  gh_repo :: "string \<Rightarrow> string \<Rightarrow> ('s, gh_repository) api"
  gh_repo_by_id :: "u64 \<Rightarrow> ('s, gh_repository) api"
  gh_contents :: "string \<Rightarrow> string \<Rightarrow> ('s, string list) api"
  gh_create_repo :: "string \<Rightarrow> string \<Rightarrow> bool \<Rightarrow> bool \<Rightarrow> ('s, gh_repository) api"
  gh_fork :: "string \<Rightarrow> string \<Rightarrow> string \<Rightarrow> ('s, unit) api"
  gh_delete_repo :: "string \<Rightarrow> string \<Rightarrow> ('s, unit) api"
  gh_set_role :: "string \<Rightarrow> string \<Rightarrow> string \<Rightarrow> ('s, unit) api"
  gh_accept :: "string \<Rightarrow> string \<Rightarrow> ('s, unit) api"
  gh_remove_member :: "string \<Rightarrow> string \<Rightarrow> ('s, unit) api"
  gh_add_collaborator :: "string \<Rightarrow> string \<Rightarrow> string \<Rightarrow> string \<Rightarrow> ('s, unit) api"
  gh_remove_collaborator :: "string \<Rightarrow> string \<Rightarrow> string \<Rightarrow> ('s, unit) api"
  gh_collaborators :: "string \<Rightarrow> string \<Rightarrow> ('s, string list) api"
  gh_merge_upstream :: "string \<Rightarrow> string \<Rightarrow> string \<Rightarrow> 's \<Rightarrow> (nat \<times> nat option + unit) \<times> 's"
  gh_wait :: "nat \<Rightarrow> 's \<Rightarrow> bool \<times> 's"

text \<open>A call whose error becomes the cause of the operation's.\<close>

definition call_api :: "('s, 'a) api \<Rightarrow> ('s, 'a) scm" where
  "call_api c s = (case c s of (Inl st, s) \<Rightarrow> (Inl (ApiFailure st), s) | (Inr x, s) \<Rightarrow> (Inr x, s))"

definition in_op :: "string \<Rightarrow> ('s, 'a) scm \<Rightarrow> ('s, 'a) scm" where
  "in_op oper m s = (case m s of (Inl e, s) \<Rightarrow> (Inl (Op oper e), s) | (Inr x, s) \<Rightarrow> (Inr x, s))"

definition guard :: "bool \<Rightarrow> scm_error \<Rightarrow> ('s, unit) scm" where
  "guard b e = (if b then ret () else throw e)"

abbreviation NotFound :: nat where "NotFound \<equiv> 404"
abbreviation Accepted :: nat where "Accepted \<equiv> 202"
abbreviation Conflict :: nat where "Conflict \<equiv> 409"

definition OrgOwner :: string where "OrgOwner = ''admin''"
definition OrgMember :: string where "OrgMember = ''member''"
definition pullAccess :: string where "pullAccess = ''pull''"
definition pushAccess :: string where "pushAccess = ''push''"

text \<open>\<open>RepoPaths\<close>: the repositories of a course, and whether they are private.\<close>

definition RepoPaths :: "(string \<times> bool) list" where
  "RepoPaths = [(InfoRepo, False), (AssignmentsRepo, True), (TestsRepo, True)]"

definition is_dirty :: "gh_repository list \<Rightarrow> bool" where
  "is_dirty repos \<longleftrightarrow> list_ex (\<lambda>r. rp_Repo r \<in> set (map fst RepoPaths)) repos"

section \<open>Options\<close>

record course_options = co_OrganizationID :: u64 co_CourseCreator :: string
record enrollment_options =
  eo_Organization :: string
  eo_User :: string
  eo_Status :: user_status
  eo_AccessToken :: string
record reject_options = ro_OrganizationID :: u64 ro_RepositoryID :: u64 ro_User :: string
record organization_options = oo_ID :: u64 oo_Name :: string oo_Username :: string oo_NewCourse :: bool
record repository_options = po_ID :: u64 po_Repo :: string po_Owner :: string
record create_options = xo_Owner :: string xo_Repo :: string xo_Private :: bool xo_AutoInit :: bool
record group_options = go_Organization :: string go_GroupName :: string go_Users :: "string list"
record sync_options = so_Organization :: string so_Repository :: string so_Branch :: string so_MaxRetries :: int
record invitation_options = io_Login :: string io_Owner :: string io_AccessToken :: string

definition course_options_valid :: "course_options \<Rightarrow> bool" where
  "course_options_valid opt \<longleftrightarrow> 0 < co_OrganizationID opt \<and> co_CourseCreator opt \<noteq> []"

definition enrollment_options_valid :: "enrollment_options \<Rightarrow> bool" where
  "enrollment_options_valid opt \<longleftrightarrow> eo_Organization opt \<noteq> [] \<and> eo_User opt \<noteq> []"

definition reject_options_valid :: "reject_options \<Rightarrow> bool" where
  "reject_options_valid opt \<longleftrightarrow> 0 < ro_OrganizationID opt \<and> 0 < ro_RepositoryID opt \<and> ro_User opt \<noteq> []"

definition organization_options_valid :: "organization_options \<Rightarrow> bool" where
  "organization_options_valid opt \<longleftrightarrow> oo_ID opt \<noteq> 0 \<or> oo_Name opt \<noteq> []"

definition repository_options_valid :: "repository_options \<Rightarrow> bool" where
  "repository_options_valid opt \<longleftrightarrow> 0 < po_ID opt \<or> (po_Repo opt \<noteq> [] \<and> po_Owner opt \<noteq> [])"

definition create_options_valid :: "create_options \<Rightarrow> bool" where
  "create_options_valid opt \<longleftrightarrow> xo_Owner opt \<noteq> [] \<and> xo_Repo opt \<noteq> []"

definition group_options_valid :: "group_options \<Rightarrow> bool" where
  "group_options_valid opt \<longleftrightarrow> go_GroupName opt \<noteq> [] \<and> go_Organization opt \<noteq> []"

definition sync_options_valid :: "sync_options \<Rightarrow> bool" where
  "sync_options_valid opt \<longleftrightarrow>
     so_Organization opt \<noteq> [] \<and> so_Repository opt \<noteq> [] \<and> so_Branch opt \<noteq> [] \<and> 0 < so_MaxRetries opt"

definition invitation_options_valid :: "invitation_options \<Rightarrow> bool" where
  "invitation_options_valid opt \<longleftrightarrow> io_Login opt \<noteq> [] \<and> io_Owner opt \<noteq> [] \<and> io_AccessToken opt \<noteq> []"

section \<open>Users and organizations\<close>

definition get_user_by_id :: "'s github \<Rightarrow> u64 \<Rightarrow> ('s, string \<times> string \<times> u64) scm" where
  "get_user_by_id g i =
     in_op ''GetUserByID'' (bnd (call_api (gh_user_by_id g i)) (\<lambda>(login, avatar). ret (login, avatar, i)))"

definition get_repositories :: "'s github \<Rightarrow> string \<Rightarrow> ('s, gh_repository list) scm" where
  "get_repositories g org =
     in_op ''GetRepositories'' (bnd (guard (org \<noteq> []) MissingFields) (\<lambda>_. call_api (gh_list_repos g org)))"

text \<open>The errors of \<open>GetRepositories\<close> are returned as they are.\<close>

definition check_new_course :: "'s github \<Rightarrow> string \<Rightarrow> ('s, unit) scm" where
  "check_new_course g org =
     bnd (get_repositories g org) (\<lambda>repos. in_op ''GetOrganization'' (guard (\<not> is_dirty repos) ErrAlreadyExists))"

definition check_owner :: "'s github \<Rightarrow> string \<Rightarrow> string \<Rightarrow> ('s, unit) scm" where
  "check_owner g username org =
     in_op ''GetOrganization'' (bnd (call_api (gh_org_role g username org)) (\<lambda>role. guard (role = OrgOwner) ErrNotOwner))"

definition get_organization :: "'s github \<Rightarrow> organization_options \<Rightarrow> ('s, u64 \<times> string) scm" where
  "get_organization g opt =
     bnd (in_op ''GetOrganization'' (guard (organization_options_valid opt) MissingFields)) (\<lambda>_.
     bnd (in_op ''GetOrganization''
           (call_api (if 0 < oo_ID opt then gh_org_by_id g (oo_ID opt) else gh_org g (oo_Name opt)))) (\<lambda>(i, org).
     bnd (if oo_NewCourse opt then check_new_course g org else ret ()) (\<lambda>_.
     bnd (if oo_Username opt \<noteq> [] then check_owner g (oo_Username opt) org else ret ()) (\<lambda>_.
       ret (i, org)))))"

definition org_named :: "string \<Rightarrow> organization_options" where
  "org_named org = \<lparr>oo_ID = 0, oo_Name = org, oo_Username = [], oo_NewCourse = False\<rparr>"

definition update_permission :: "'s github \<Rightarrow> string \<Rightarrow> string \<Rightarrow> string \<Rightarrow> ('s, unit) scm" where
  "update_permission g usr org role = call_api (gh_set_role g usr org role)"

definition accept_org_invitation :: "'s github \<Rightarrow> invitation_options \<Rightarrow> ('s, unit) scm" where
  "accept_org_invitation g opt =
     bnd (guard (invitation_options_valid opt) MissingFields) (\<lambda>_.
       call_api (gh_accept g (io_AccessToken opt) (io_Owner opt)))"

section \<open>Repositories\<close>

definition get_repository :: "'s github \<Rightarrow> repository_options \<Rightarrow> ('s, gh_repository) scm" where
  "get_repository g opt =
     in_op ''getRepository'' (bnd (guard (repository_options_valid opt) MissingFields) (\<lambda>_.
       call_api (if 0 < po_ID opt then gh_repo_by_id g (po_ID opt) else gh_repo g (po_Owner opt) (po_Repo opt))))"

text \<open>A repository is taken for empty when it cannot be read or has no contents.\<close>

definition repository_is_empty :: "'s github \<Rightarrow> repository_options \<Rightarrow> ('s, bool) scm" where
  "repository_is_empty g opt s =
     (case get_repository g opt s of
        (Inl e, s) \<Rightarrow> (Inr True, s)
      | (Inr r, s) \<Rightarrow>
          (case gh_contents g (rp_Owner r) (rp_Repo r) s of
             (Inl st, s) \<Rightarrow> (Inr (st = NotFound), s)
           | (Inr files, s) \<Rightarrow> (Inr (length files = 0), s)))"

definition create_course_repo :: "'s github \<Rightarrow> create_options \<Rightarrow> ('s, gh_repository) scm" where
  "create_course_repo g opt =
     in_op ''createCourseRepo'' (bnd (guard (create_options_valid opt) MissingFields) (\<lambda>_ s.
       case gh_repo g (xo_Owner opt) (xo_Repo opt) s of
         (Inr r, s) \<Rightarrow> (Inr r, s)
       | (Inl st, s) \<Rightarrow>
           if st \<noteq> NotFound then (Inl (ApiFailure st), s)
           else call_api (gh_create_repo g (xo_Owner opt) (xo_Repo opt) (xo_Private opt) (xo_AutoInit opt)) s))"

text \<open>\<open>waitForRepository\<close>: at most ten lookups, with a delay that doubles up to five seconds.\<close>

definition waitForRepoMaxAttempts :: nat where "waitForRepoMaxAttempts = 10"
definition waitForRepoInitialDelay :: nat where "waitForRepoInitialDelay = 1"
definition waitForRepoMaxDelay :: nat where "waitForRepoMaxDelay = 5"

fun wait_loop :: "'s github \<Rightarrow> string \<Rightarrow> string \<Rightarrow> nat \<Rightarrow> nat \<Rightarrow> ('s, gh_repository) scm" where
  "wait_loop g owner repo delay 0 s = (Inl NotReady, s)"
| "wait_loop g owner repo delay (Suc n) s =
     (case gh_repo g owner repo s of
        (Inr r, s) \<Rightarrow> (Inr r, s)
      | (Inl st, s) \<Rightarrow>
          if st \<noteq> Accepted \<and> st \<noteq> NotFound then (Inl (ApiFailure st), s)
          else case gh_wait g delay s of
                 (True, s) \<Rightarrow> (Inl ContextDone, s)
               | (False, s) \<Rightarrow> wait_loop g owner repo (min (delay * 2) waitForRepoMaxDelay) n s)"

definition wait_for_repository :: "'s github \<Rightarrow> string \<Rightarrow> string \<Rightarrow> ('s, gh_repository) scm" where
  "wait_for_repository g owner repo =
     wait_loop g owner repo waitForRepoInitialDelay waitForRepoMaxAttempts"

definition fork_assignments :: "'s github \<Rightarrow> string \<Rightarrow> string \<Rightarrow> ('s, unit) scm" where
  "fork_assignments g owner repo s =
     (case gh_fork g owner AssignmentsRepo repo s of
        (Inl st, s) \<Rightarrow> if st \<noteq> Accepted then (Inl (ApiFailure st), s) else (Inr (), s)
      | (Inr _, s) \<Rightarrow> (Inr (), s))"

definition create_forked_repo :: "'s github \<Rightarrow> create_options \<Rightarrow> ('s, gh_repository) scm" where
  "create_forked_repo g opt =
     in_op ''createForkedRepo'' (bnd (guard (create_options_valid opt) MissingFields) (\<lambda>_ s.
       case gh_repo g (xo_Owner opt) (xo_Repo opt) s of
         (Inr r, s) \<Rightarrow> (Inr r, s)
       | (Inl st, s) \<Rightarrow>
           if st \<noteq> NotFound then (Inl (ApiFailure st), s)
           else bnd (fork_assignments g (xo_Owner opt) (xo_Repo opt)) (\<lambda>_.
                  wait_for_repository g (xo_Owner opt) (xo_Repo opt)) s))"

definition add_user :: "'s github \<Rightarrow> string \<Rightarrow> string \<Rightarrow> string \<Rightarrow> string \<Rightarrow> ('s, unit) scm" where
  "add_user g org repo usr perm = call_api (gh_add_collaborator g org repo usr perm)"

definition create_student_repo :: "'s github \<Rightarrow> string \<Rightarrow> string \<Rightarrow> ('s, gh_repository) scm" where
  "create_student_repo g org usr =
     bnd (create_forked_repo g \<lparr>xo_Owner = org, xo_Repo = student_repo_name usr, xo_Private = True, xo_AutoInit = False\<rparr>)
       (\<lambda>r. bnd (add_user g (rp_Owner r) (rp_Repo r) usr pushAccess) (\<lambda>_. ret r))"

definition delete_repository :: "'s github \<Rightarrow> u64 \<Rightarrow> ('s, unit) scm" where
  "delete_repository g i =
     in_op ''deleteRepository'' (bnd (guard (i \<noteq> 0) MissingFields) (\<lambda>_.
     bnd (call_api (gh_repo_by_id g i)) (\<lambda>r. call_api (gh_delete_repo g (rp_Owner r) (rp_Repo r)))))"

section \<open>Operations of the SCM\<close>

text \<open>\<open>CreateCourse\<close>; the map of paths is visited in some order \<open>paths\<close>.\<close>

fun create_course_repos :: "'s github \<Rightarrow> string \<Rightarrow> (string \<times> bool) list \<Rightarrow> ('s, gh_repository list) scm" where
  "create_course_repos g org [] = ret []"
| "create_course_repos g org ((path, private) # paths) =
     bnd (create_course_repo g \<lparr>xo_Owner = org, xo_Repo = path, xo_Private = private, xo_AutoInit = (path = AssignmentsRepo)\<rparr>)
       (\<lambda>r. bnd (create_course_repos g org paths) (\<lambda>rs. ret (r # rs)))"

definition scm_create_course ::
    "'s github \<Rightarrow> (string \<times> bool) list \<Rightarrow> course_options \<Rightarrow> ('s, gh_repository list) scm" where
  "scm_create_course g paths opt =
     bnd (in_op ''CreateCourse'' (guard (course_options_valid opt) MissingFields)) (\<lambda>_.
     bnd (get_organization g \<lparr>oo_ID = co_OrganizationID opt, oo_Name = [], oo_Username = co_CourseCreator opt,
           oo_NewCourse = True\<rparr>) (\<lambda>(i, org).
     bnd (in_op ''CreateCourse'' (call_api (gh_edit_org g org))) (\<lambda>_.
     bnd (create_course_repos g org paths) (\<lambda>rs.
     bnd (create_student_repo g org (co_CourseCreator opt)) (\<lambda>r. ret (rs @ [r]))))))"

definition enroll_as_student :: "'s github \<Rightarrow> string \<Rightarrow> string \<Rightarrow> string \<Rightarrow> ('s, gh_repository) scm" where
  "enroll_as_student g org usr token =
     bnd (update_permission g usr org OrgMember) (\<lambda>_.
     bnd (accept_org_invitation g \<lparr>io_Login = usr, io_Owner = org, io_AccessToken = token\<rparr>) (\<lambda>_.
     bnd (add_user g org AssignmentsRepo usr pullAccess) (\<lambda>_. create_student_repo g org usr)))"

text \<open>The repository is nil for a teacher.\<close>

definition scm_update_enrollment :: "'s github \<Rightarrow> enrollment_options \<Rightarrow> ('s, gh_repository option) scm" where
  "scm_update_enrollment g opt =
     in_op ''UpdateEnrollment'' (bnd (guard (enrollment_options_valid opt) MissingFields) (\<lambda>_.
     bnd (get_organization g (org_named (eo_Organization opt))) (\<lambda>(i, org).
       if eo_Status opt = Enrollment_STUDENT
       then bnd (enroll_as_student g org (eo_User opt) (eo_AccessToken opt)) (\<lambda>r. ret (Some r))
       else if eo_Status opt = Enrollment_TEACHER
       then bnd (update_permission g (eo_User opt) org OrgOwner) (\<lambda>_. ret None)
       else throw InvalidStatus)))"

definition scm_reject_enrollment :: "'s github \<Rightarrow> reject_options \<Rightarrow> ('s, unit) scm" where
  "scm_reject_enrollment g opt =
     in_op ''RejectEnrollment'' (bnd (guard (reject_options_valid opt) MissingFields) (\<lambda>_.
     bnd (get_organization g \<lparr>oo_ID = ro_OrganizationID opt, oo_Name = [], oo_Username = [], oo_NewCourse = False\<rparr>)
       (\<lambda>(i, org).
     bnd (call_api (gh_remove_member g org (ro_User opt))) (\<lambda>_. delete_repository g (ro_RepositoryID opt)))))"

definition demote_teacher_to_student :: "'s github \<Rightarrow> enrollment_options \<Rightarrow> ('s, unit) scm" where
  "demote_teacher_to_student g opt =
     in_op ''DemoteTeacherToStudent'' (bnd (guard (enrollment_options_valid opt) MissingFields) (\<lambda>_.
       update_permission g (eo_User opt) (eo_Organization opt) OrgMember))"

text \<open>\<open>CreateGroup\<close>: the repository must not exist, that is, it cannot be read.\<close>

definition scm_create_group :: "'s github \<Rightarrow> group_options \<Rightarrow> ('s, gh_repository) scm" where
  "scm_create_group g opt =
     in_op ''CreateGroup'' (bnd (guard (group_options_valid opt) MissingFields) (\<lambda>_.
     bnd (get_organization g (org_named (go_Organization opt))) (\<lambda>_.
     bnd (attempt (get_repository g \<lparr>po_ID = 0, po_Repo = go_GroupName opt, po_Owner = go_Organization opt\<rparr>)) (\<lambda>found.
     bnd (case found of Inl e \<Rightarrow> ret () | Inr r \<Rightarrow> throw ErrAlreadyExists) (\<lambda>_.
     bnd (create_forked_repo g \<lparr>xo_Owner = go_Organization opt, xo_Repo = go_GroupName opt, xo_Private = True,
            xo_AutoInit = False\<rparr>) (\<lambda>r.
     bnd (for_each (\<lambda>u. add_user g (go_Organization opt) (rp_Repo r) u pushAccess) (go_Users opt)) (\<lambda>_.
       ret r)))))))"

definition scm_update_group_members :: "'s github \<Rightarrow> group_options \<Rightarrow> ('s, unit) scm" where
  "scm_update_group_members g opt =
     in_op ''UpdateGroupMembers'' (bnd (guard (group_options_valid opt) MissingFields) (\<lambda>_.
     bnd (call_api (gh_collaborators g (go_Organization opt) (go_GroupName opt))) (\<lambda>oldUsers.
     bnd (for_each (\<lambda>u. add_user g (go_Organization opt) (go_GroupName opt) u pushAccess) (go_Users opt)) (\<lambda>_.
       for_each (\<lambda>u. if u \<in> set (go_Users opt) then ret ()
                     else call_api (gh_remove_collaborator g (go_Organization opt) (go_GroupName opt) u)) oldUsers))))"

definition scm_delete_group :: "'s github \<Rightarrow> u64 \<Rightarrow> ('s, unit) scm" where
  "scm_delete_group g i = in_op ''DeleteGroup'' (delete_repository g i)"

text \<open>
  \<open>SyncFork\<close>: a merge conflict and every error but a rate limit end the loop; the error of a context that
  is done is returned as it is.
\<close>

fun sync_loop :: "'s github \<Rightarrow> sync_options \<Rightarrow> nat \<Rightarrow> ('s, unit) scm" where
  "sync_loop g opt 0 s = (Inl (Op ''SyncFork'' RetriesExceeded), s)"
| "sync_loop g opt (Suc n) s =
     (case gh_merge_upstream g (so_Organization opt) (so_Repository opt) (so_Branch opt) s of
        (Inr _, s) \<Rightarrow> (Inr (), s)
      | (Inl (st, limit), s) \<Rightarrow>
          if st = Conflict then (Inl (Op ''SyncFork'' MergeConflict), s)
          else case limit of
                 None \<Rightarrow> (Inl (Op ''SyncFork'' (ApiFailure st)), s)
               | Some delay \<Rightarrow>
                   (case gh_wait g (max 1 delay) s of
                      (True, s) \<Rightarrow> (Inl ContextDone, s)
                    | (False, s) \<Rightarrow> sync_loop g opt n s))"

definition sync_fork :: "'s github \<Rightarrow> sync_options \<Rightarrow> ('s, unit) scm" where
  "sync_fork g opt =
     bnd (in_op ''SyncFork'' (guard (sync_options_valid opt) MissingFields)) (\<lambda>_.
       sync_loop g opt (nat (so_MaxRetries opt)))"

section \<open>Who has access\<close>

text \<open>The collaborators of the repositories, and the roles in the organizations.\<close>

record gh_view =
  gv_access :: "string \<times> string \<times> string \<rightharpoonup> string"
  gv_role :: "string \<times> string \<rightharpoonup> string"

definition keeps_view :: "('s \<Rightarrow> gh_view) \<Rightarrow> ('s, 'e, 'a) action \<Rightarrow> bool" where
  "keeps_view view c \<longleftrightarrow> (\<forall>s. view (snd (c s)) = view s)"

text \<open>
  What GitHub documents of the calls: a new repository has no collaborators, an error changes nothing, and
  the collaborators are those that were added and not removed since.
\<close>

definition gh_reads_ok :: "'s github \<Rightarrow> ('s \<Rightarrow> gh_view) \<Rightarrow> bool" where
  "gh_reads_ok g view \<longleftrightarrow>
     (\<forall>o'. keeps_view view (gh_org g o')) \<and> (\<forall>i. keeps_view view (gh_org_by_id g i)) \<and>
     (\<forall>o' r. keeps_view view (gh_repo g o' r)) \<and> (\<forall>o' a r. keeps_view view (gh_fork g o' a r)) \<and>
     (\<forall>t o'. keeps_view view (gh_accept g t o')) \<and> (\<forall>n s. view (snd (gh_wait g n s)) = view s) \<and>
     (\<forall>o' r s. view (snd (gh_collaborators g o' r s)) = view s) \<and>
     (\<forall>o' r s us s'. gh_collaborators g o' r s = (Inr us, s') \<longrightarrow>
        set us = {u. gv_access (view s) (o', r, u) \<noteq> None})"

definition gh_writes_ok :: "'s github \<Rightarrow> ('s \<Rightarrow> gh_view) \<Rightarrow> bool" where
  "gh_writes_ok g view \<longleftrightarrow>
     (\<forall>o' r u p s s'. gh_add_collaborator g o' r u p s = (Inr (), s') \<longrightarrow>
        view s' = (view s)\<lparr>gv_access := (gv_access (view s))((o', r, u) \<mapsto> p)\<rparr>) \<and>
     (\<forall>o' r u p s e s'. gh_add_collaborator g o' r u p s = (Inl e, s') \<longrightarrow> view s' = view s) \<and>
     (\<forall>o' r u s s'. gh_remove_collaborator g o' r u s = (Inr (), s') \<longrightarrow>
        view s' = (view s)\<lparr>gv_access := (gv_access (view s))((o', r, u) := None)\<rparr>) \<and>
     (\<forall>o' r u s e s'. gh_remove_collaborator g o' r u s = (Inl e, s') \<longrightarrow> view s' = view s) \<and>
     (\<forall>u o' r s. gv_access (view (snd (gh_set_role g u o' r s))) = gv_access (view s))"

definition gh_ok :: "'s github \<Rightarrow> ('s \<Rightarrow> gh_view) \<Rightarrow> bool" where
  "gh_ok g view \<longleftrightarrow> gh_reads_ok g view \<and> gh_writes_ok g view"

text \<open>Access after a call, from access before it, in the style of \<open>lands\<close>.\<close>

abbreviation access :: "('s \<Rightarrow> gh_view) \<Rightarrow> 's \<Rightarrow> string \<times> string \<times> string \<Rightarrow> string option" where
  "access view s \<equiv> gv_access (view s)"

lemma preserves_in_op [keep]: "preserves I m \<Longrightarrow> preserves I (in_op oper m)"
  by (auto simp: preserves_def in_op_def split: prod.split sum.split)

lemma preserves_guard [keep]: "preserves I (guard b e)"
  by (simp add: guard_def keep)

lemma preserves_call_api: "preserves I c \<Longrightarrow> preserves I (call_api c)"
  by (auto simp: preserves_def call_api_def split: prod.split sum.split)

lemma keeps_view_preserves: "keeps_view view c \<Longrightarrow> preserves (\<lambda>s. J (view s)) c"
  by (simp add: keeps_view_def preserves_def)

lemma in_op_Inr: "in_op oper m s = (Inr x, s') \<longleftrightarrow> m s = (Inr x, s')"
  by (auto simp: in_op_def split: prod.splits sum.splits)

lemma call_api_Inr: "call_api c s = (Inr x, s') \<longleftrightarrow> c s = (Inr x, s')"
  by (auto simp: call_api_def split: prod.splits sum.splits)

lemma guard_Inr: "guard b e s = (Inr u, s') \<longleftrightarrow> b \<and> s' = s"
  by (auto simp: guard_def ret_def throw_def)

lemma ret_Inr: "ret x s = (Inr y, s') \<longleftrightarrow> x = y \<and> s' = s"
  by (auto simp: ret_def)

lemma throw_Inr: "\<not> throw e s = (Inr y, s')"
  by (simp add: throw_def)

lemmas act_Inr = in_op_Inr call_api_Inr guard_Inr ret_Inr throw_Inr bnd_cases(2)

text \<open>The reads change nothing, forking and waiting included.\<close>

lemma gh_reads_keep:
  assumes "gh_ok g view"
  shows "keeps_view view (gh_org g o')" and "keeps_view view (gh_org_by_id g i)"
    and "keeps_view view (gh_repo g o' r)" and "keeps_view view (gh_fork g o' a r)"
    and "keeps_view view (gh_accept g t o')" and "view (snd (gh_wait g n s)) = view s"
    and "keeps_view view (gh_collaborators g o' r)"
  using assms by (simp_all add: gh_ok_def gh_reads_ok_def keeps_view_def)

lemma keeps_viewD: "keeps_view view c \<Longrightarrow> c s = (r, s') \<Longrightarrow> view s' = view s"
  by (metis keeps_view_def snd_conv)

lemma wait_loop_view:
  assumes "gh_ok g view"
  shows "wait_loop g owner repo delay n s = (r, s') \<Longrightarrow> view s' = view s"
proof (induction n arbitrary: delay s)
  case (Suc n)
  have w: "view s2 = view s1" if "gh_wait g delay s1 = (b, s2)" for s1 b s2
    using gh_reads_keep(6) [OF assms, of delay s1] that by simp
  from Suc show ?case
    by (auto simp: w split: prod.splits sum.splits if_splits bool.splits dest!: keeps_viewD [OF gh_reads_keep(3) [OF assms]])
qed simp

lemma fork_view:
  assumes "gh_ok g view" and "fork_assignments g owner repo s = (r, s')"
  shows "view s' = view s"
  using assms(2)
  by (auto simp: fork_assignments_def split: prod.splits sum.splits if_splits
      dest!: keeps_viewD [OF gh_reads_keep(4) [OF assms(1)]])

lemma forked_or_found:
  assumes "gh_ok g view"
  shows "preserves (\<lambda>s. J (view s)) (create_forked_repo g opt)"
proof -
  have "preserves (\<lambda>s. J (view s)) (bnd (fork_assignments g o' r) (\<lambda>_. wait_for_repository g o' r))" for o' r
  proof (rule preserves_bnd)
    show "preserves (\<lambda>s. J (view s)) (fork_assignments g o' r)"
      by (rule preservesI) (metis fork_view [OF assms])
    show "preserves (\<lambda>s. J (view s)) (wait_for_repository g o' r)"
      by (rule preservesI) (metis wait_for_repository_def wait_loop_view [OF assms])
  qed
  then have "preserves (\<lambda>s. J (view s)) (\<lambda>s.
       case gh_repo g (xo_Owner opt) (xo_Repo opt) s of
         (Inr r, s) \<Rightarrow> (Inr r, s)
       | (Inl st, s) \<Rightarrow>
           if st \<noteq> NotFound then (Inl (ApiFailure st), s)
           else bnd (fork_assignments g (xo_Owner opt) (xo_Repo opt)) (\<lambda>_.
                  wait_for_repository g (xo_Owner opt) (xo_Repo opt)) s)"
    by (auto simp: preserves_def split: prod.splits sum.splits dest!: keeps_viewD [OF gh_reads_keep(3) [OF assms]])
  then show ?thesis
    unfolding create_forked_repo_def by (intro keep)
qed

lemma get_org_keeps:
  assumes "gh_ok g view"
  shows "preserves (\<lambda>s. J (view s)) (get_organization g (org_named org))"
proof -
  have "preserves (\<lambda>s. J (view s)) (call_api (gh_org g org))"
    by (intro preserves_call_api keeps_view_preserves gh_reads_keep(2,1) [OF assms])
  then show ?thesis
    unfolding get_organization_def org_named_def by (simp, intro keep)
qed

lemma role_keeps:
  assumes "gh_ok g view"
  shows "preserves (\<lambda>s. J (access view s)) (update_permission g u o' r)"
  using assms unfolding update_permission_def
  by (intro preserves_call_api) (simp add: preserves_def gh_ok_def gh_writes_ok_def)

text \<open>Enrolling a student changes no access but the student's.\<close>

definition others_keep ::
    "string \<Rightarrow> (string \<times> string \<times> string \<Rightarrow> string option) \<Rightarrow> (string \<times> string \<times> string \<Rightarrow> string option) \<Rightarrow> bool" where
  "others_keep u A B \<longleftrightarrow> (\<forall>o' r v. v \<noteq> u \<longrightarrow> B (o', r, v) = A (o', r, v))"

lemma add_user_keeps_others:
  assumes "gh_ok g view"
  shows "preserves (\<lambda>s. others_keep u A (access view s)) (add_user g o' r u p)"
  unfolding add_user_def
proof (rule preserves_call_api, rule preservesI)
  fix s x s' assume s: "others_keep u A (access view s)" "gh_add_collaborator g o' r u p s = (x, s')"
  have "view s' = view s \<or> view s' = (view s)\<lparr>gv_access := (access view s)((o', r, u) \<mapsto> p)\<rparr>"
    using assms s(2) unfolding gh_ok_def gh_writes_ok_def by (cases x) auto
  with s(1) show "others_keep u A (access view s')" by (auto simp: others_keep_def)
qed

lemma enroll_keeps_others:
  assumes "gh_ok g view"
  shows "preserves (\<lambda>s. others_keep (eo_User opt) A (access view s)) (scm_update_enrollment g opt)"
proof -
  let ?u = "eo_User opt"
  note v = forked_or_found [OF assms, where J = "\<lambda>w. others_keep ?u A (gv_access w)"]
    get_org_keeps [OF assms, where J = "\<lambda>w. others_keep ?u A (gv_access w)"]
    role_keeps [OF assms, where J = "others_keep ?u A"]
  have acc: "preserves (\<lambda>s. others_keep ?u A (access view s)) (accept_org_invitation g opt)" for opt
    unfolding accept_org_invitation_def
    by (intro keep preserves_call_api keeps_view_preserves [where J = "\<lambda>w. others_keep ?u A (gv_access w)"]
        gh_reads_keep [OF assms])
  have st: "preserves (\<lambda>s. others_keep ?u A (access view s)) (create_student_repo g org ?u)" for org
    unfolding create_student_repo_def by (intro keep v add_user_keeps_others [OF assms])
  show ?thesis
    unfolding scm_update_enrollment_def enroll_as_student_def
    by (intro keep v acc st add_user_keeps_others [OF assms])
qed

text \<open>What a step that succeeds does to the accesses.\<close>

lemma preserved_view:
  assumes "\<And>J. preserves (\<lambda>s. J (f s)) m" and "m s = (r, s')"
  shows "f s' = f s"
  using preservesD [OF assms(1) [of "\<lambda>w. w = f s"] _ assms(2)] by simp

lemma add_user_access:
  assumes "gh_ok g view"
  shows "add_user g o' r u p s = (Inr (), s') \<Longrightarrow> access view s' = (access view s)((o', r, u) \<mapsto> p)"
    and "add_user g o' r u p s = (Inl e, s') \<Longrightarrow> view s' = view s"
  using assms
  by (auto simp: gh_ok_def gh_writes_ok_def add_user_def call_api_def split: prod.splits sum.splits)

text \<open>
  The repository that \<open>createForkedRepo\<close> returns is the one that GitHub gives for the owner and the name, and
  it was there or is a fork of the assignments.
\<close>

definition looked_up :: "'s github \<Rightarrow> string \<Rightarrow> string \<Rightarrow> gh_repository \<Rightarrow> bool" where
  "looked_up g owner repo r \<longleftrightarrow> (\<exists>s s'. gh_repo g owner repo s = (Inr r, s'))"

definition forked_from :: "'s github \<Rightarrow> string \<Rightarrow> string \<Rightarrow> string \<Rightarrow> bool" where
  "forked_from g owner repo new \<longleftrightarrow> (\<exists>s x s'. gh_fork g owner repo new s = (x, s') \<and> x \<in> {Inr (), Inl Accepted})"

lemma wait_loop_found: "wait_loop g owner repo delay n s = (Inr r, s') \<Longrightarrow> looked_up g owner repo r"
  by (induction n arbitrary: delay s) (auto simp: looked_up_def split: prod.splits sum.splits if_splits bool.splits)

lemma create_forked_repo_found:
  assumes "create_forked_repo g opt s = (Inr r, s')"
  shows "looked_up g (xo_Owner opt) (xo_Repo opt) r \<and>
    ((\<exists>s1. gh_repo g (xo_Owner opt) (xo_Repo opt) s = (Inr r, s1)) \<or> forked_from g (xo_Owner opt) AssignmentsRepo (xo_Repo opt))"
proof (cases "gh_repo g (xo_Owner opt) (xo_Repo opt) s")
  case (Pair x s1)
  show ?thesis
  proof (cases x)
    case (Inr y)
    with Pair assms have "y = r" by (simp add: create_forked_repo_def act_Inr)
    with Pair Inr show ?thesis by (auto simp: looked_up_def)
  next
    case (Inl st)
    with Pair assms obtain s2 where "fork_assignments g (xo_Owner opt) (xo_Repo opt) s1 = (Inr (), s2)"
      "wait_for_repository g (xo_Owner opt) (xo_Repo opt) s2 = (Inr r, s')"
      by (auto simp: create_forked_repo_def act_Inr split: if_splits)
    then show ?thesis
      by (auto simp: wait_for_repository_def fork_assignments_def forked_from_def split: prod.splits sum.splits if_splits
          dest!: wait_loop_found)
  qed
qed

lemma enroll_as_student_access:
  assumes "gh_ok g view" and "enroll_as_student g org u token s = (Inr r, s')"
  shows "\<exists>s0. access view s0 = (access view s)((org, AssignmentsRepo, u) \<mapsto> pullAccess) \<and>
      looked_up g org (student_repo_name u) r \<and>
      ((\<exists>s1. gh_repo g org (student_repo_name u) s0 = (Inr r, s1)) \<or> forked_from g org AssignmentsRepo (student_repo_name u))"
    and "access view s' = (access view s)((org, AssignmentsRepo, u) \<mapsto> pullAccess, (rp_Owner r, rp_Repo r, u) \<mapsto> pushAccess)"
proof -
  from assms(2) obtain s1 s2 s3 s4 where s:
    "update_permission g u org OrgMember s = (Inr (), s1)" "gh_accept g token org s1 = (Inr (), s2)"
    "add_user g org AssignmentsRepo u pullAccess s2 = (Inr (), s3)"
    "create_forked_repo g \<lparr>xo_Owner = org, xo_Repo = student_repo_name u, xo_Private = True, xo_AutoInit = False\<rparr> s3 = (Inr r, s4)"
    "add_user g (rp_Owner r) (rp_Repo r) u pushAccess s4 = (Inr (), s')"
    by (auto simp: enroll_as_student_def accept_org_invitation_def create_student_repo_def act_Inr)
  have "access view s1 = access view s" by (rule preserved_view [OF role_keeps [OF assms(1)] s(1)])
  moreover have "view s2 = view s1" by (rule keeps_viewD [OF gh_reads_keep(5) [OF assms(1)] s(2)])
  moreover have "view s4 = view s3" by (rule preserved_view [OF forked_or_found [OF assms(1)] s(4)])
  moreover have "access view s3 = (access view s2)((org, AssignmentsRepo, u) \<mapsto> pullAccess)"
    by (rule add_user_access(1) [OF assms(1) s(3)])
  moreover have "access view s' = (access view s4)((rp_Owner r, rp_Repo r, u) \<mapsto> pushAccess)"
    by (rule add_user_access(1) [OF assms(1) s(5)])
  ultimately have v: "access view s3 = (access view s)((org, AssignmentsRepo, u) \<mapsto> pullAccess)"
    "access view s' = (access view s3)((rp_Owner r, rp_Repo r, u) \<mapsto> pushAccess)" by simp_all
  then show "access view s' = (access view s)((org, AssignmentsRepo, u) \<mapsto> pullAccess, (rp_Owner r, rp_Repo r, u) \<mapsto> pushAccess)"
    by simp
  show "\<exists>s0. access view s0 = (access view s)((org, AssignmentsRepo, u) \<mapsto> pullAccess) \<and>
      looked_up g org (student_repo_name u) r \<and>
      ((\<exists>s1. gh_repo g org (student_repo_name u) s0 = (Inr r, s1)) \<or> forked_from g org AssignmentsRepo (student_repo_name u))"
    using create_forked_repo_found [OF s(4)] v(1) by (intro exI [of _ s3]) simp
qed

text \<open>The loops over the members of a group.\<close>

lemma add_loop_access:
  assumes "gh_ok g view"
  shows "for_each (\<lambda>u. add_user g o' r u p) us s = (Inr (), s') \<Longrightarrow>
    access view s' = (\<lambda>k. if k \<in> (\<lambda>u. (o', r, u)) ` set us then Some p else access view s k)"
proof (induction us arbitrary: s)
  case (Cons u us)
  then obtain s1 where "add_user g o' r u p s = (Inr (), s1)"
    "for_each (\<lambda>u. add_user g o' r u p) us s1 = (Inr (), s')" by (auto simp: act_Inr)
  with Cons.IH add_user_access(1) [OF assms] show ?case by (auto simp: fun_eq_iff)
qed (simp add: ret_def)

lemma remove_loop_access:
  assumes "gh_ok g view"
  shows "for_each (\<lambda>u. if u \<in> K then ret () else call_api (gh_remove_collaborator g o' r u)) us s = (Inr (), s') \<Longrightarrow>
    access view s' = (\<lambda>k. if k \<in> (\<lambda>u. (o', r, u)) ` (set us - K) then None else access view s k)"
proof (induction us arbitrary: s)
  case (Cons u us)
  then obtain s1 where s1: "(if u \<in> K then ret () else call_api (gh_remove_collaborator g o' r u)) s = (Inr (), s1)"
    "for_each (\<lambda>u. if u \<in> K then ret () else call_api (gh_remove_collaborator g o' r u)) us s1 = (Inr (), s')"
    by (auto simp: act_Inr)
  have "access view s1 = (if u \<in> K then access view s else (access view s)((o', r, u) := None))"
    using assms s1(1) by (auto simp: act_Inr gh_ok_def gh_writes_ok_def split: if_splits)
  with Cons.IH [OF s1(2)] show ?case by (auto simp: fun_eq_iff)
qed (simp add: ret_def)

text \<open>The delays of the loop add up.\<close>

fun wait_total :: "nat \<Rightarrow> nat \<Rightarrow> nat" where
  "wait_total delay 0 = 0"
| "wait_total delay (Suc n) = delay + wait_total (min (delay * 2) waitForRepoMaxDelay) n"

section \<open>Properties\<close>

text \<open>
  C30: enrolling a user as a student changes the access of no other user, whatever fails on the way.  When it succeeds,
  the organization is the one that GitHub gives for the name in the request, and the repository returned is the one that
  GitHub gives for this organization and the name of the student's repository, the login with its suffix; it was there
  already, or was forked from the assignments.  The student has gained pull access to the assignments of the organization
  and push access to that repository, and nothing else.
\<close>

theorem student_access:
  assumes "gh_ok g view" and "eo_Status opt = Enrollment_STUDENT" and "scm_update_enrollment g opt s = (res, s')"
  shows "others_keep (eo_User opt) (access view s) (access view s') \<and>
    (\<forall>x. res = Inr x \<longrightarrow> (\<exists>i org s0 r. gh_org g (eo_Organization opt) s = (Inr (i, org), s0) \<and> x = Some r \<and>
       looked_up g org (student_repo_name (eo_User opt)) r \<and>
       ((\<exists>s1 s2. access view s1 = (access view s)((org, AssignmentsRepo, eo_User opt) \<mapsto> pullAccess) \<and>
           gh_repo g org (student_repo_name (eo_User opt)) s1 = (Inr r, s2)) \<or>
        forked_from g org AssignmentsRepo (student_repo_name (eo_User opt))) \<and>
       access view s' = (access view s)
         ((org, AssignmentsRepo, eo_User opt) \<mapsto> pullAccess, (rp_Owner r, rp_Repo r, eo_User opt) \<mapsto> pushAccess)))"
proof (intro conjI allI impI)
  show "others_keep (eo_User opt) (access view s) (access view s')"
    by (rule preservesD [OF enroll_keeps_others [OF assms(1)] _ assms(3)]) (simp add: others_keep_def)
  fix x assume "res = Inr x"
  with assms(2,3) obtain i org s1 r where s1: "get_organization g (org_named (eo_Organization opt)) s = (Inr (i, org), s1)"
    "enroll_as_student g org (eo_User opt) (eo_AccessToken opt) s1 = (Inr r, s')" "x = Some r"
    by (auto simp: scm_update_enrollment_def act_Inr)
  have "view s1 = view s" by (rule preserved_view [OF get_org_keeps [OF assms(1)] s1(1)])
  moreover have "gh_org g (eo_Organization opt) s = (Inr (i, org), s1)"
    using s1(1) by (auto simp: get_organization_def org_named_def act_Inr)
  ultimately show "\<exists>i org s0 r. gh_org g (eo_Organization opt) s = (Inr (i, org), s0) \<and> x = Some r \<and>
       looked_up g org (student_repo_name (eo_User opt)) r \<and>
       ((\<exists>s1 s2. access view s1 = (access view s)((org, AssignmentsRepo, eo_User opt) \<mapsto> pullAccess) \<and>
           gh_repo g org (student_repo_name (eo_User opt)) s1 = (Inr r, s2)) \<or>
        forked_from g org AssignmentsRepo (student_repo_name (eo_User opt))) \<and>
       access view s' = (access view s)
         ((org, AssignmentsRepo, eo_User opt) \<mapsto> pullAccess, (rp_Owner r, rp_Repo r, eo_User opt) \<mapsto> pushAccess)"
    using enroll_as_student_access [OF assms(1) s1(2)] s1(3) by (intro exI [of _ i] exI [of _ org] exI [of _ s1] exI [of _ r]) auto
qed

text \<open>after updating the members of a group the collaborators of its repository are exactly the users
  listed, with push access, and every other repository is as it was.
\<close>

lemma group_members_exact:
  assumes "gh_ok g view" and "scm_update_group_members g opt s = (Inr (), s')"
  shows "access view s' (o', r, u) =
    (if o' = go_Organization opt \<and> r = go_GroupName opt
     then if u \<in> set (go_Users opt) then Some pushAccess else None
     else access view s (o', r, u))"
proof -
  let ?o = "go_Organization opt" and ?r = "go_GroupName opt" and ?K = "set (go_Users opt)"
  from assms(2) obtain old s1 s2 where s: "gh_collaborators g ?o ?r s = (Inr old, s1)"
    "for_each (\<lambda>u. add_user g ?o ?r u pushAccess) (go_Users opt) s1 = (Inr (), s2)"
    "for_each (\<lambda>u. if u \<in> ?K then ret () else call_api (gh_remove_collaborator g ?o ?r u)) old s2 = (Inr (), s')"
    by (auto simp: scm_update_group_members_def act_Inr)
  have "view s1 = view s" by (rule keeps_viewD [OF gh_reads_keep(7) [OF assms(1)] s(1)])
  moreover have "set old = {u. access view s (?o, ?r, u) \<noteq> None}"
    using assms(1) s(1) unfolding gh_ok_def gh_reads_ok_def by blast
  ultimately show ?thesis
    using add_loop_access [OF assms(1) s(2)] remove_loop_access [OF assms(1) s(3)] by auto
qed

text \<open>
  C31: waiting for a fork ends: it takes at most ten lookups, and at most 42 seconds of waiting.
\<close>

theorem wait_for_repository_ends:
  assumes "\<And>o' r s. clock (snd (gh_repo g o' r s)) = clock s" and "\<And>n s. clock (snd (gh_wait g n s)) \<le> clock s + n"
    and "\<And>o' r s. lookups (snd (gh_repo g o' r s)) = lookups s + 1" and "\<And>n s. lookups (snd (gh_wait g n s)) = lookups s"
  shows "clock (snd (wait_for_repository g owner repo s)) \<le> clock s + 42 \<and>
    lookups (snd (wait_for_repository g owner repo s)) \<le> lookups s + (10 :: nat)"
proof -
  let ?W = "\<lambda>delay n s. snd (wait_loop g owner repo delay n s)"
  have "clock (?W delay n s) \<le> clock s + wait_total delay n \<and> lookups (?W delay n s) \<le> lookups s + n" for delay n s
  proof (induction n arbitrary: delay s)
    case (Suc n)
    obtain r1 s1 where r1: "gh_repo g owner repo s = (r1, s1)" by fastforce
    obtain b s2 where w: "gh_wait g delay s1 = (b, s2)" by fastforce
    have "clock s1 = clock s" "lookups s1 = lookups s + 1" "clock s2 \<le> clock s1 + delay" "lookups s2 = lookups s1"
      using assms(1,3) [of owner repo s] assms(2,4) [of delay s1] r1 w by simp_all
    with Suc.IH [of "min (delay * 2) waitForRepoMaxDelay" s2] show ?case
      by (cases r1; cases b) (auto simp: r1 w)
  qed simp
  moreover have "wait_total waitForRepoInitialDelay waitForRepoMaxAttempts = 42"
    by (simp add: waitForRepoInitialDelay_def waitForRepoMaxAttempts_def waitForRepoMaxDelay_def eval_nat_numeral)
  ultimately show ?thesis
    unfolding wait_for_repository_def by (metis waitForRepoMaxAttempts_def)
qed

section \<open>A small GitHub\<close>

text \<open>Organizations, repositories and collaborators as lists, with a clock and a count of lookups.\<close>

record gh_world =
  gw_access :: "((string \<times> string \<times> string) \<times> string) list"
  gw_repos :: "gh_repository list"
  gw_clock :: nat
  gw_lookups :: nat

definition world_view :: "gh_world \<Rightarrow> gh_view" where
  "world_view w = \<lparr>gv_access = map_of (gw_access w), gv_role = Map.empty\<rparr>"

definition found_or :: "nat \<Rightarrow> 'a option \<Rightarrow> nat + 'a" where
  "found_or st x = (case x of None \<Rightarrow> Inl st | Some y \<Rightarrow> Inr y)"

definition world_github :: "gh_world github" where
  "world_github =
     \<lparr>gh_user_by_id = (\<lambda>i w. (Inr ([], []), w)), gh_org_by_id = (\<lambda>i w. (Inr (i, ''course''), w)),
      gh_org = (\<lambda>o' w. (Inr (1, o'), w)), gh_list_repos = (\<lambda>o' w. (Inr (gw_repos w), w)),
      gh_org_role = (\<lambda>u o' w. (Inr OrgMember, w)), gh_edit_org = (\<lambda>o' w. (Inr (), w)),
      gh_repo = (\<lambda>o' r w. (found_or NotFound (List.find (\<lambda>x. rp_Owner x = o' \<and> rp_Repo x = r) (gw_repos w)),
         w\<lparr>gw_lookups := gw_lookups w + 1\<rparr>)),
      gh_repo_by_id = (\<lambda>i w. (found_or NotFound (List.find (\<lambda>x. rp_ID x = i) (gw_repos w)), w)),
      gh_contents = (\<lambda>o' r w. (Inr [], w)),
      gh_create_repo = (\<lambda>o' r p a w. (Inl 403, w)),
      gh_fork = (\<lambda>o' a r w. (Inr (), w\<lparr>gw_repos := gw_repos w @
         [\<lparr>rp_ID = of_nat (length (gw_repos w)) + 1, rp_Repo = r, rp_Owner = o', rp_HTMLURL = []\<rparr>]\<rparr>)),
      gh_delete_repo = (\<lambda>o' r w. (Inr (), w)), gh_set_role = (\<lambda>u o' r w. (Inr (), w)),
      gh_accept = (\<lambda>t o' w. (Inr (), w)), gh_remove_member = (\<lambda>o' u w. (Inr (), w)),
      gh_add_collaborator = (\<lambda>o' r u p w. (Inr (), w\<lparr>gw_access := ((o', r, u), p) # gw_access w\<rparr>)),
      gh_remove_collaborator = (\<lambda>o' r u w.
         (Inr (), w\<lparr>gw_access := filter (\<lambda>x. fst x \<noteq> (o', r, u)) (gw_access w)\<rparr>)),
      gh_collaborators = (\<lambda>o' r w.
         (Inr (map (\<lambda>x. snd (snd (fst x))) (filter (\<lambda>x. fst (fst x) = o' \<and> fst (snd (fst x)) = r) (gw_access w))), w)),
      gh_merge_upstream = (\<lambda>o' r b w. (Inr (), w)),
      gh_wait = (\<lambda>n w. (False, w\<lparr>gw_clock := gw_clock w + n\<rparr>))\<rparr>"

lemma map_of_filter_key: "map_of (filter (\<lambda>x. fst x \<noteq> k) xs) = (map_of xs)(k := None)"
  by (induction xs) auto

lemma world_ok: "gh_ok world_github world_view"
proof -
  have "(\<lambda>x. snd (snd (fst x))) ` {x \<in> set xs. fst (fst x) = o' \<and> fst (snd (fst x)) = r} = {u. \<exists>p. map_of xs (o', r, u) = Some p}"
    for xs :: "((string \<times> string \<times> string) \<times> string) list" and o' r
  proof (intro set_eqI iffI)
    fix u assume "u \<in> (\<lambda>x. snd (snd (fst x))) ` {x \<in> set xs. fst (fst x) = o' \<and> fst (snd (fst x)) = r}"
    then obtain p where "((o', r, u), p) \<in> set xs" by force
    then show "u \<in> {u. \<exists>p. map_of xs (o', r, u) = Some p}"
      by (metis (mono_tags, lifting) mem_Collect_eq not_None_eq weak_map_of_SomeI)
  next
    fix u assume "u \<in> {u. \<exists>p. map_of xs (o', r, u) = Some p}"
    then obtain p where "((o', r, u), p) \<in> set xs" by (auto dest: map_of_SomeD)
    then show "u \<in> (\<lambda>x. snd (snd (fst x))) ` {x \<in> set xs. fst (fst x) = o' \<and> fst (snd (fst x)) = r}" by force
  qed
  then show ?thesis
    by (auto simp: gh_ok_def gh_reads_ok_def gh_writes_ok_def keeps_view_def world_github_def world_view_def
        map_of_filter_key)
qed

definition sample_world :: gh_world where
  "sample_world = \<lparr>gw_access = [((''course'', ''team'', ''bob''), pushAccess)],
     gw_repos = [\<lparr>rp_ID = 1, rp_Repo = ''team'', rp_Owner = ''course'', rp_HTMLURL = []\<rparr>], gw_clock = 0, gw_lookups = 0\<rparr>"

lemma student_access_witness:
  "\<exists>w. scm_update_enrollment world_github \<lparr>eo_Organization = ''course'', eo_User = ''ann'', eo_Status = Enrollment_STUDENT,
       eo_AccessToken = ''t''\<rparr> sample_world = (Inr (Some \<lparr>rp_ID = 2, rp_Repo = ''ann-labs'', rp_Owner = ''course'', rp_HTMLURL = []\<rparr>), w) \<and>
     access world_view w = [(''course'', ''team'', ''bob'') \<mapsto> pushAccess, (''course'', AssignmentsRepo, ''ann'') \<mapsto> pullAccess,
       (''course'', ''ann-labs'', ''ann'') \<mapsto> pushAccess]"
proof -
  let ?opt = "\<lparr>eo_Organization = ''course'', eo_User = ''ann'', eo_Status = Enrollment_STUDENT, eo_AccessToken = ''t''\<rparr>"
  let ?r = "\<lparr>rp_ID = 2, rp_Repo = ''ann-labs'', rp_Owner = ''course'', rp_HTMLURL = []\<rparr>"
  obtain w where run: "scm_update_enrollment world_github ?opt sample_world = (Inr (Some ?r), w)"
    by (simp add: scm_update_enrollment_def in_op_def bnd_def guard_def enrollment_options_valid_def ret_def
        get_organization_def org_named_def organization_options_valid_def call_api_def world_github_def
        enroll_as_student_def update_permission_def accept_org_invitation_def invitation_options_valid_def
        add_user_def create_student_repo_def create_forked_repo_def create_options_valid_def found_or_def
        sample_world_def fork_assignments_def wait_for_repository_def waitForRepoMaxAttempts_def
        eval_nat_numeral student_repo_name_def StudentRepoSuffix_def)
  have "eo_Status ?opt = Enrollment_STUDENT" by simp
  moreover have "\<exists>s. gh_org world_github ''course'' sample_world = (Inr (i, org), s) \<Longrightarrow> org = ''course''" for i org
    by (auto simp: world_github_def)
  moreover have "access world_view sample_world = [(''course'', ''team'', ''bob'') \<mapsto> pushAccess]"
    by (simp add: world_view_def sample_world_def)
  ultimately show ?thesis using student_access [OF world_ok _ run] run by auto
qed

lemma group_members_exact_witness:
  "\<exists>w. scm_update_group_members world_github \<lparr>go_Organization = ''course'', go_GroupName = ''team'', go_Users = [''ann'']\<rparr>
       sample_world = (Inr (), w) \<and>
     access world_view w (''course'', ''team'', ''ann'') = Some pushAccess \<and>
     access world_view w (''course'', ''team'', ''bob'') = None"
proof -
  let ?opt = "\<lparr>go_Organization = ''course'', go_GroupName = ''team'', go_Users = [''ann'']\<rparr>"
  obtain w where run: "scm_update_group_members world_github ?opt sample_world = (Inr (), w)"
    by (simp add: scm_update_group_members_def in_op_def bnd_def guard_def group_options_valid_def ret_def
        call_api_def world_github_def add_user_def sample_world_def)
  from group_members_exact [OF world_ok this] run show ?thesis by auto
qed

lemma wait_for_repository_ends_witness:
  "gw_clock (snd (wait_for_repository world_github ''course'' ''gone'' sample_world)) \<le> 42 \<and>
   gw_lookups (snd (wait_for_repository world_github ''course'' ''gone'' sample_world)) \<le> 10"
proof -
  have "gw_clock (snd (gh_repo world_github o' r s)) = gw_clock s"
    "gw_clock (snd (gh_wait world_github n s)) \<le> gw_clock s + n"
    "gw_lookups (snd (gh_repo world_github o' r s)) = gw_lookups s + 1"
    "gw_lookups (snd (gh_wait world_github n s)) = gw_lookups s" for o' :: string and r :: string and n :: nat and s :: gh_world
    by (simp_all add: world_github_def)
  from wait_for_repository_ends [where clock = gw_clock and lookups = gw_lookups, OF this, of "''course''" "''gone''" sample_world]
  show ?thesis by (simp add: sample_world_def)
qed

end
