(* ===== verification/Group_Service.thy ===== *)
theory Group_Service
  imports Course_Service Github
begin

text \<open>
  Groups: \<open>web/groups.go\<close>, the helpers of \<open>web/scm_helpers.go\<close> and the handlers on groups of
  \<open>web/quickfeed_service.go\<close>.
\<close>

section \<open>Names of groups\<close>

definition maxGroupNameLength :: nat where "maxGroupNameLength = 20"

text \<open>The class \<open>[a-zA-Z0-9-_]\<close>; every byte of a character outside ASCII is outside it.\<close>

definition authorized_char :: "char \<Rightarrow> bool" where
  "authorized_char c =
     (let n = of_char c :: nat
      in (97 \<le> n \<and> n \<le> 122) \<or> (65 \<le> n \<and> n \<le> 90) \<or> (48 \<le> n \<and> n \<le> 57) \<or> n = 45 \<or> n = 95)"

text \<open>
  \<open>strings.EqualFold\<close> where one of the names is ASCII, as a name that passed the check is: besides the
  letters, the Kelvin sign folds to \<open>k\<close> and the long s to \<open>s\<close>.
\<close>

definition kelvin_tail :: string where "kelvin_tail = [char_of (132 :: nat), char_of (170 :: nat)]"
definition long_s_tail :: string where "long_s_tail = [char_of (191 :: nat)]"

fun fold_case :: "string \<Rightarrow> string" where
  "fold_case [] = []"
| "fold_case (c # cs) =
     (if c = char_of (226 :: nat) \<and> take 2 cs = kelvin_tail then CHR ''k'' # fold_case (drop 2 cs)
      else if c = char_of (197 :: nat) \<and> take 1 cs = long_s_tail then CHR ''s'' # fold_case (drop 1 cs)
      else lower_char c # fold_case cs)"

definition equal_fold :: "string \<Rightarrow> string \<Rightarrow> bool" where
  "equal_fold a b \<longleftrightarrow> fold_case a = fold_case b"

definition check_group_name :: "'d service \<Rightarrow> u64 \<Rightarrow> string \<Rightarrow> ('d, unit) act" where
  "check_group_name s courseID groupName =
     (if groupName = [] then throw (SvcErr ''group name is empty'')
      else if maxGroupNameLength < length groupName then throw (SvcErr ''group name is too long'')
      else if list_ex (\<lambda>c. \<not> authorized_char c) groupName then throw (SvcErr ''group name contains invalid characters'')
      else (\<lambda>d. case get_groups_by_course (sv_gdb s) courseID [] d of
             Inl e \<Rightarrow> (Inl (SvcErr ''group does not exist''), d)
           | Inr gs \<Rightarrow> if list_ex (\<lambda>g. equal_fold (g_name g) groupName) gs
                       then (Inl (SvcErr ''group name already in use''), d) else (Inr (), d)))"

section \<open>Users of a group\<close>

fun check_group_users :: "'d service \<Rightarrow> group \<Rightarrow> user list \<Rightarrow> 'd \<Rightarrow> svc_error + u64 list" where
  "check_group_users s request [] d = Inr []"
| "check_group_users s request (usr # usrs) d =
     (case get_enrollment_by_course_and_user (edb (cdb s)) (g_courseID request) (u_ID usr) d of
        Inl e \<Rightarrow> if e = RecordNotFound then Inl (SvcErr ''user not enrolled in this course'') else Inl (DbErr e)
      | Inr m \<Rightarrow>
          if 0 < e_groupID m \<and> (g_ID request = 0 \<or> e_groupID m \<noteq> g_ID request)
          then Inl (SvcErr ''user already enrolled in another group'')
          else if e_status m < Enrollment_STUDENT then Inl (SvcErr ''user not yet accepted for this course'')
          else bind_res (check_group_users s request usrs d) (\<lambda>ids. Inr (u_ID usr # ids)))"

definition get_group_users :: "'d service \<Rightarrow> group \<Rightarrow> 'd \<Rightarrow> svc_error + user list" where
  "get_group_users s request d =
     (if g_users request = [] then Inl (SvcErr ''no users in group'')
      else bind_res (check_group_users s request (g_users request) d) (\<lambda>ids.
        case get_users (cdb s) ids d of
          Inl e \<Rightarrow> Inl (SvcErr ''failed to get users'')
        | Inr us \<Rightarrow> if length (g_users request) \<noteq> length us \<or> length us \<noteq> length ids
                    then Inl (SvcErr ''invariant violation'') else Inr us))"

definition svc_query :: "('d \<Rightarrow> svc_error + 'a) \<Rightarrow> ('d, 'a) act" where
  "svc_query q d = (q d, d)"

section \<open>Changing groups\<close>

definition get_course_group :: "'d service \<Rightarrow> u64 \<Rightarrow> u64 \<Rightarrow> 'd \<Rightarrow> db_error + (course \<times> group)" where
  "get_course_group s courseID groupID d =
     bind_res (get_group (edb (cdb s)) groupID d) (\<lambda>g.
     bind_res (get_course (cdb s) courseID d) (\<lambda>c. Inr (cm_course c, g)))"

definition get_group_by_user_and_course :: "'d service \<Rightarrow> group_request \<Rightarrow> 'd \<Rightarrow> svc_error + group" where
  "get_group_by_user_and_course s request d =
     (case get_enrollment_by_course_and_user (edb (cdb s)) (grq_CourseID request) (grq_UserID request) d of
        Inl e \<Rightarrow> Inl (DbErr e)
      | Inr m \<Rightarrow>
          (case get_group (edb (cdb s)) (e_groupID m) d of
             Inl e \<Rightarrow> if e = RecordNotFound then Inl (SvcErr ''user is not in group'') else Inl (DbErr e)
           | Inr g \<Rightarrow> Inr g))"

definition new_group :: "'d service \<Rightarrow> group \<Rightarrow> group \<Rightarrow> user list \<Rightarrow> ('d, group) act" where
  "new_group s g request users =
     bnd (if g_name g \<noteq> g_name request \<and> g_status g = Group_PENDING
          then bnd (check_group_name s (g_courseID request) (g_name request)) (\<lambda>_. ret (g_name request))
          else ret (g_name g)) (\<lambda>name. ret (g\<lparr>g_name := name, g_users := users\<rparr>))"

definition group_repo :: "course \<Rightarrow> group \<Rightarrow> scm_repo \<Rightarrow> repository" where
  "group_repo c g sr =
     zero_repository\<lparr>r_ScmRepositoryID := sr_ID sr, r_ScmOrganizationID := c_ScmOrganizationID c,
       r_groupID := g_ID g, r_HTMLURL := sr_HTMLURL sr, r_repoType := R_GROUP\<rparr>"

definition create_repo :: "'d service \<Rightarrow> course \<Rightarrow> group \<Rightarrow> ('d, repository) act" where
  "create_repo s c g =
     bnd (call_scm (sc_create_group s (c_ScmOrganizationName c) (g_name g) (user_names g))) (\<lambda>sr.
       ret (group_repo c g sr))"

definition update_group_members :: "'d service \<Rightarrow> group \<Rightarrow> string \<Rightarrow> ('d, unit) act" where
  "update_group_members s g orgName = call_scm (sc_update_members s orgName (g_name g) (user_names g))"

fun is_empty_repos :: "'d service \<Rightarrow> repository list \<Rightarrow> 'd \<Rightarrow> string + unit" where
  "is_empty_repos s [] d = Inr ()"
| "is_empty_repos s (r # rs) d =
     (if \<not> sc_is_empty s (r_ScmRepositoryID r) d then Inl ''repository is not empty'' else is_empty_repos s rs d)"

text \<open>The users are pointers: what the SCM tells of them is in the group that is saved.\<close>

fun refresh_users :: "'d service \<Rightarrow> user list \<Rightarrow> ('d, user list) act" where
  "refresh_users s [] = ret []"
| "refresh_users s (usr # usrs) =
     bnd (update_user_from_scm s usr) (\<lambda>usr. bnd (refresh_users s usrs) (\<lambda>usrs. ret (usr # usrs)))"

definition internal_update_group :: "'d service \<Rightarrow> group \<Rightarrow> ('d, unit) act" where
  "internal_update_group s request =
     bnd (query (get_course_group s (g_courseID request) (g_ID request))) (\<lambda>(c, g).
     bnd (svc_query (get_group_users s request)) (\<lambda>users.
     bnd (refresh_users s users) (\<lambda>users.
     bnd (new_group s g request users) (\<lambda>newGroup.
     bnd (find_repo s c (g_ID g) R_GROUP) (\<lambda>repo.
     bnd (if repo = None
          then bnd (create_repo s c newGroup) (\<lambda>r. bnd (exec_get (create_repository (cdb s) r)) (\<lambda>_. ret ()))
          else ret ()) (\<lambda>_.
     bnd (if \<not> contains_all g newGroup then update_group_members s newGroup (c_ScmOrganizationName c) else ret ()) (\<lambda>_.
       exec (db_update_group (sv_gdb s) (newGroup\<lparr>g_status := Group_APPROVED\<rparr>)))))))))"

definition internal_delete_group :: "'d service \<Rightarrow> group_request \<Rightarrow> ('d, unit) act" where
  "internal_delete_group s request =
     bnd (query (get_course_group s (grq_CourseID request) (grq_GroupID request))) (\<lambda>(c, g).
     bnd (attempt (exec (db_delete_group (sv_gdb s) (grq_GroupID request)))) (\<lambda>_.
     bnd (find_repo s c (g_ID g) R_GROUP) (\<lambda>repo.
       case repo of
         None \<Rightarrow> ret ()
       | Some r \<Rightarrow>
           bnd (attempt (exec (ws_delete_repository s (r_ScmRepositoryID r)))) (\<lambda>_.
             call_scm (sc_delete_group s (r_ScmRepositoryID r))))))"

section \<open>Handlers\<close>

definition get_group_handler :: "'d service \<Rightarrow> group_request \<Rightarrow> ('d, group) act" where
  "get_group_handler s request =
     (if 0 < grq_GroupID request then query (get_group (edb (cdb s)) (grq_GroupID request))
      else svc_query (get_group_by_user_and_course s request))"

definition create_group_handler :: "'d service \<Rightarrow> group \<Rightarrow> ('d, group) act" where
  "create_group_handler s request =
     bnd (check_group_name s (g_courseID request) (g_name request)) (\<lambda>_.
     bnd (svc_query (get_group_users s request)) (\<lambda>_.
     bnd (exec_get (create_group (sv_gdb s) request)) (\<lambda>g.
       query (get_group (edb (cdb s)) (g_ID g)))))"

definition update_group_handler :: "'d service \<Rightarrow> group \<Rightarrow> ('d, group) act" where
  "update_group_handler s request =
     bnd (get_scm_for_course s (g_courseID request)) (\<lambda>_.
     bnd (internal_update_group s request) (\<lambda>_.
       query (get_group (edb (cdb s)) (g_ID request))))"

definition delete_group_handler :: "'d service \<Rightarrow> group_request \<Rightarrow> ('d, unit) act" where
  "delete_group_handler s request =
     bnd (get_scm_for_course s (grq_CourseID request)) (\<lambda>_. internal_delete_group s request)"

section \<open>Membership\<close>

text \<open>The course and the users of each group, and the group of each enrollment, 0 for none.\<close>

record membership =
  mb_groups :: "u64 \<rightharpoonup> u64 \<times> u64 set"
  mb_group_of :: "u64 \<times> u64 \<rightharpoonup> u64"

text \<open>The users of a group are those whose enrollment in its course has the group, and no others.\<close>

definition members_agree :: "membership \<Rightarrow> bool" where
  "members_agree M \<longleftrightarrow>
     mb_groups M 0 = None \<and>
     (\<forall>g c u. g \<noteq> 0 \<longrightarrow> mb_group_of M (c, u) = Some g \<longleftrightarrow> (\<exists>us. mb_groups M g = Some (c, us) \<and> u \<in> us))"

definition same_members :: "('d \<Rightarrow> membership) \<Rightarrow> ('d \<Rightarrow> db_error + 'd) \<Rightarrow> bool" where
  "same_members view q \<longleftrightarrow> (\<forall>d d'. q d = Inr d' \<longrightarrow> view d' = view d)"

definition same_members_scm :: "('d \<Rightarrow> membership) \<Rightarrow> ('d \<Rightarrow> (string + 'a) \<times> 'd) \<Rightarrow> bool" where
  "same_members_scm view c \<longleftrightarrow> (\<forall>d. view (snd (c d)) = view d)"

text \<open>What the queries return: rows of the tables, by their keys.\<close>

definition member_reads_ok :: "'d service \<Rightarrow> ('d \<Rightarrow> membership) \<Rightarrow> bool" where
  "member_reads_ok s view \<longleftrightarrow>
     (\<forall>g ids d x. eq_group (edb (cdb s)) g ids d = Inr x \<longrightarrow>
        g_ID x = g \<and> (\<exists>us. mb_groups (view d) g = Some (g_courseID x, us))) \<and>
     (\<forall>c u d m crs usr. c \<noteq> 0 \<longrightarrow> u \<noteq> 0 \<longrightarrow> eq_enrollment (edb (cdb s)) c u d = Inr (m, crs, usr) \<longrightarrow>
        mb_group_of (view d) (c, u) = Some (e_groupID m)) \<and>
     (\<forall>ids d us. ids \<noteq> [] \<longrightarrow> cq_users (cdb s) ids d = Inr us \<longrightarrow>
        distinct (map u_ID us) \<and> u_ID ` set us \<subseteq> set ids - {0})"

text \<open>
  What the statements on groups write; a join sets the group of rows it finds, and counts them.  \<open>Create\<close>
  saves the enrollments of the message with the group, so that it leaves the others alone only for a message without
  enrollments.
\<close>

definition member_writes_ok :: "'d service \<Rightarrow> ('d \<Rightarrow> membership) \<Rightarrow> bool" where
  "member_writes_ok s view \<longleftrightarrow>
     (\<forall>g d g' d'. g_enrollments g = [] \<longrightarrow> gq_create (sv_gdb s) g d = Inr (g', d') \<longrightarrow>
        g_ID g' \<noteq> 0 \<and> (g_ID g \<noteq> 0 \<longrightarrow> g_ID g' = g_ID g) \<and> g_courseID g' = g_courseID g \<and>
        group_user_ids g' = group_user_ids g \<and> mb_groups (view d) (g_ID g') = None \<and>
        view d' = (view d)\<lparr>mb_groups := (mb_groups (view d))(g_ID g' \<mapsto> (g_courseID g, set (group_user_ids g)))\<rparr>) \<and>
     (\<forall>c us sts g d n d'. g \<noteq> 0 \<longrightarrow> gq_join (sv_gdb s) c us sts g d = Inr (n, d') \<longrightarrow>
        (\<exists>R \<subseteq> Pair c ` set us. n = card R \<and>
           view d' = (view d)\<lparr>mb_group_of := (\<lambda>k. if k \<in> R then Some g else mb_group_of (view d) k)\<rparr>)) \<and>
     (\<forall>g d d'. gq_update (sv_gdb s) g d = Inr d' \<longrightarrow>
        view d' = (view d)\<lparr>mb_groups := (mb_groups (view d))
          (g_ID g := map_option (\<lambda>(c, us). (g_courseID g, us)) (mb_groups (view d) (g_ID g)))\<rparr>) \<and>
     (\<forall>g us d d'. gq_replace_users (sv_gdb s) g us d = Inr d' \<longrightarrow>
        view d' = (view d)\<lparr>mb_groups := (mb_groups (view d))
          (g := map_option (\<lambda>(c, _). (c, u_ID ` set us)) (mb_groups (view d) g))\<rparr>) \<and>
     (\<forall>g d d'. gq_clear_enrollments (sv_gdb s) g d = Inr d' \<longrightarrow>
        view d' = (view d)\<lparr>mb_group_of := (\<lambda>k. if mb_group_of (view d) k = Some g then Some 0 else mb_group_of (view d) k)\<rparr>) \<and>
     (\<forall>g d d'. gq_delete (sv_gdb s) g d = Inr d' \<longrightarrow>
        view d' = (view d)\<lparr>mb_groups := (mb_groups (view d))(g := None)\<rparr>)"

definition members_apart :: "'d service \<Rightarrow> ('d \<Rightarrow> membership) \<Rightarrow> bool" where
  "members_apart s view \<longleftrightarrow>
     (\<forall>usr. same_members view (cq_save_user (cdb s) usr)) \<and> (\<forall>i. same_members view (ws_delete_repository s i)) \<and>
     (\<forall>i. same_members view (gq_clear_grades (sv_gdb s) i)) \<and> (\<forall>x. same_members view (gq_append_grades (sv_gdb s) x)) \<and>
     (\<forall>r d r' d'. cq_create_repository (cdb s) r d = Inr (r', d') \<longrightarrow> view d' = view d) \<and>
     (\<forall>o'. same_members_scm view (ws_get_scm s o')) \<and> (\<forall>i. same_members_scm view (sc_user_by_id s i)) \<and>
     (\<forall>o' g us. same_members_scm view (sc_create_group s o' g us)) \<and>
     (\<forall>o' g us. same_members_scm view (sc_update_members s o' g us)) \<and>
     (\<forall>i. same_members_scm view (sc_delete_group s i))"

definition members_db_ok :: "'d service \<Rightarrow> ('d \<Rightarrow> membership) \<Rightarrow> bool" where
  "members_db_ok s view \<longleftrightarrow> member_reads_ok s view \<and> member_writes_ok s view \<and> members_apart s view"

text \<open>The users that pass the check are distinct, and each is free or in the group of the request.\<close>

definition free_for :: "membership \<Rightarrow> group \<Rightarrow> u64 set \<Rightarrow> bool" where
  "free_for M g us \<longleftrightarrow>
     (\<forall>u\<in>us. \<exists>h. mb_group_of M (g_courseID g, u) = Some h \<and> (h = 0 \<or> (g_ID g \<noteq> 0 \<and> h = g_ID g)))"

lemma check_group_users_free:
  assumes "member_reads_ok s view" and "g_courseID request \<noteq> 0"
  shows "check_group_users s request usrs d = Inr ids \<Longrightarrow>
    ids = map u_ID usrs \<and> (0 \<notin> set ids \<longrightarrow> free_for (view d) request (set ids))"
proof (induction usrs arbitrary: ids)
  case (Cons usr usrs)
  from Cons.prems obtain m ids' where m:
    "get_enrollment_by_course_and_user (edb (cdb s)) (g_courseID request) (u_ID usr) d = Inr m"
    "\<not> (0 < e_groupID m \<and> (g_ID request = 0 \<or> e_groupID m \<noteq> g_ID request))"
    "check_group_users s request usrs d = Inr ids'" "ids = u_ID usr # ids'"
    by (auto simp: bind_res_Inr_iff split: sum.splits if_splits)
  from m(1) obtain m' crs usr' where "eq_enrollment (edb (cdb s)) (g_courseID request) (u_ID usr) d = Inr (m', crs, usr')"
    "m = set_slip_days m' crs" by (auto simp: get_enrollment_by_course_and_user_def bind_res_Inr_iff)
  with assms have "u_ID usr \<noteq> 0 \<Longrightarrow> mb_group_of (view d) (g_courseID request, u_ID usr) = Some (e_groupID m)"
    unfolding member_reads_ok_def by (simp add: set_slip_days_def Let_def)
  with Cons.IH [OF m(3)] m(2,4) show ?case by (auto simp: free_for_def word_gt_0)
qed (simp add: free_for_def)

lemma get_group_users_free:
  assumes "member_reads_ok s view" and "g_courseID request \<noteq> 0" and "get_group_users s request d = Inr us"
  shows "distinct (map u_ID us) \<and> u_ID ` set us = set (group_user_ids request) \<and>
    distinct (group_user_ids request) \<and> free_for (view d) request (u_ID ` set us)"
proof -
  from assms(3) obtain ids where ids: "g_users request \<noteq> []" "check_group_users s request (g_users request) d = Inr ids"
    "cq_users (cdb s) ids d = Inr us" "length us = length ids"
    unfolding get_group_users_def get_users_def by (cases "check_group_users s request (g_users request) d")
      (force split: if_splits sum.splits)+
  have eq: "ids = map u_ID (g_users request)" using check_group_users_free [OF assms(1,2) ids(2)] by simp
  with ids(1) have "ids \<noteq> []" by simp
  with assms(1) ids(3) have us: "distinct (map u_ID us)" "u_ID ` set us \<subseteq> set ids - {0}"
    unfolding member_reads_ok_def by blast+
  have "card (u_ID ` set us) = length ids"
    using us(1) ids(4) by (metis distinct_card length_map list.set_map)
  moreover have "card (u_ID ` set us) \<le> card (set ids)" using us(2) by (intro card_mono) auto
  ultimately have "card (set ids) = length ids" using card_length [of ids] by simp
  then have "distinct ids" by (rule card_distinct)
  moreover have "u_ID ` set us = set ids"
    using us(2) \<open>card (u_ID ` set us) = length ids\<close> \<open>card (set ids) = length ids\<close>
    by (metis Diff_subset List.finite_set card_subset_eq subset_trans)
  moreover have "0 \<notin> set ids" using us(2) calculation(2) by blast
  ultimately show ?thesis
    using us(1) check_group_users_free [OF assms(1,2) ids(2)] by (simp add: group_user_ids_def eq)
qed

text \<open>Setting the users of one group, and removing a group, as operations on memberships.\<close>

definition clear_group :: "u64 \<Rightarrow> (u64 \<times> u64 \<rightharpoonup> u64) \<Rightarrow> (u64 \<times> u64 \<rightharpoonup> u64)" where
  "clear_group g f k = (if f k = Some g then Some 0 else f k)"

definition with_members :: "membership \<Rightarrow> u64 \<Rightarrow> u64 \<Rightarrow> u64 set \<Rightarrow> membership" where
  "with_members M g c U = \<lparr>mb_groups = (mb_groups M)(g \<mapsto> (c, U)),
     mb_group_of = (\<lambda>k. if k \<in> Pair c ` U then Some g else clear_group g (mb_group_of M) k)\<rparr>"

lemma with_members_agree:
  assumes "members_agree M" and "g \<noteq> 0" and "g_ID x = g" and "g_courseID x = c" and "free_for M x U"
  shows "members_agree (with_members M g c U)"
proof -
  have free: "\<And>u. u \<in> U \<Longrightarrow> mb_group_of M (c, u) = Some 0 \<or> mb_group_of M (c, u) = Some g"
    using assms(3-5) by (force simp: free_for_def)
  show ?thesis
    unfolding members_agree_def
  proof (intro conjI allI impI)
    show "mb_groups (with_members M g c U) 0 = None"
      using assms(1,2) by (simp add: with_members_def members_agree_def)
    fix h c' u :: u64 assume "h \<noteq> 0"
    with assms(1) have "mb_group_of M (c', u) = Some h \<longleftrightarrow> (\<exists>us. mb_groups M h = Some (c', us) \<and> u \<in> us)"
      by (simp add: members_agree_def)
    with free [of u] \<open>h \<noteq> 0\<close>
    show "mb_group_of (with_members M g c U) (c', u) = Some h \<longleftrightarrow>
        (\<exists>us. mb_groups (with_members M g c U) h = Some (c', us) \<and> u \<in> us)"
      by (cases "h = g"; cases "u \<in> U"; cases "c' = c") (auto simp: with_members_def clear_group_def image_iff)
  qed
qed

lemma without_group_agree:
  assumes "members_agree M" and "g \<noteq> 0"
  shows "members_agree \<lparr>mb_groups = (mb_groups M)(g := None), mb_group_of = clear_group g (mb_group_of M)\<rparr>"
  unfolding members_agree_def
proof (intro conjI allI impI)
  show "mb_groups \<lparr>mb_groups = (mb_groups M)(g := None), mb_group_of = clear_group g (mb_group_of M)\<rparr> 0 = None"
    using assms by (simp add: members_agree_def)
  fix h c u :: u64 assume h: "h \<noteq> 0"
  have iff: "mb_group_of M (c, u) = Some i \<longleftrightarrow> (\<exists>us. mb_groups M i = Some (c, us) \<and> u \<in> us)" if "i \<noteq> 0" for i
    using assms(1) that by (simp add: members_agree_def)
  show "mb_group_of \<lparr>mb_groups = (mb_groups M)(g := None), mb_group_of = clear_group g (mb_group_of M)\<rparr> (c, u) = Some h \<longleftrightarrow>
      (\<exists>us. mb_groups \<lparr>mb_groups = (mb_groups M)(g := None), mb_group_of = clear_group g (mb_group_of M)\<rparr> h = Some (c, us) \<and> u \<in> us)"
    using iff [OF h] h by (cases "h = g") (auto simp: clear_group_def)
qed

lemma member_writesD:
  assumes "member_writes_ok s view"
  shows "g_enrollments x = [] \<Longrightarrow> gq_create (sv_gdb s) x d = Inr (x', d') \<Longrightarrow>
        g_ID x' \<noteq> 0 \<and> (g_ID x \<noteq> 0 \<longrightarrow> g_ID x' = g_ID x) \<and> g_courseID x' = g_courseID x \<and>
        group_user_ids x' = group_user_ids x \<and> mb_groups (view d) (g_ID x') = None \<and>
        view d' = (view d)\<lparr>mb_groups := (mb_groups (view d))(g_ID x' \<mapsto> (g_courseID x, set (group_user_ids x)))\<rparr>"
    and "gq_update (sv_gdb s) x d = Inr d' \<Longrightarrow>
        view d' = (view d)\<lparr>mb_groups := (mb_groups (view d))
          (g_ID x := map_option (\<lambda>(c, us). (g_courseID x, us)) (mb_groups (view d) (g_ID x)))\<rparr>"
    and "gq_replace_users (sv_gdb s) g us d = Inr d' \<Longrightarrow>
        view d' = (view d)\<lparr>mb_groups := (mb_groups (view d))
          (g := map_option (\<lambda>(c, _). (c, u_ID ` set us)) (mb_groups (view d) g))\<rparr>"
    and "gq_clear_enrollments (sv_gdb s) g d = Inr d' \<Longrightarrow>
        view d' = (view d)\<lparr>mb_group_of := clear_group g (mb_group_of (view d))\<rparr>"
    and "gq_delete (sv_gdb s) g d = Inr d' \<Longrightarrow> view d' = (view d)\<lparr>mb_groups := (mb_groups (view d))(g := None)\<rparr>"
  using assms unfolding member_writes_ok_def clear_group_def [abs_def] by (elim conjE; simp)+

lemma join_all:
  assumes "member_writes_ok s view" and "g \<noteq> 0" and "distinct us"
    and "gq_join (sv_gdb s) c us sts g d = Inr (length us, d')"
  shows "view d' = (view d)\<lparr>mb_group_of := (\<lambda>k. if k \<in> Pair c ` set us then Some g else mb_group_of (view d) k)\<rparr>"
proof -
  have "\<forall>c us sts g d n d'. g \<noteq> 0 \<longrightarrow> gq_join (sv_gdb s) c us sts g d = Inr (n, d') \<longrightarrow>
        (\<exists>R \<subseteq> Pair c ` set us. n = card R \<and>
           view d' = (view d)\<lparr>mb_group_of := (\<lambda>k. if k \<in> R then Some g else mb_group_of (view d) k)\<rparr>)"
    using assms(1) unfolding member_writes_ok_def by (elim conjE)
  from this [rule_format, OF assms(2,4)] obtain R where R: "R \<subseteq> Pair c ` set us" "length us = card R"
    "view d' = (view d)\<lparr>mb_group_of := (\<lambda>k. if k \<in> R then Some g else mb_group_of (view d) k)\<rparr>" by blast
  have "card (Pair c ` set us) = length us"
    using assms(3) by (simp add: card_image inj_on_def distinct_card)
  with R have "R = Pair c ` set us" by (metis List.finite_set card_subset_eq finite_imageI)
  with R(3) show ?thesis by simp
qed

lemma sync_view:
  assumes "members_apart s view"
  shows "sync_submissions (sv_gdb s) ids ss d = Inr d' \<Longrightarrow> view d' = view d"
proof (induction ss arbitrary: d)
  case (Cons x ss)
  then show ?case using assms
    by (fastforce simp: bind_res_Inr_iff Let_def members_apart_def same_members_def)
qed simp

lemma sync_group_view:
  assumes "members_apart s view" and "sync_group_grades (sv_gdb s) g ids d = Inr d'"
  shows "view d' = view d"
  using assms(2) sync_view [OF assms(1)] by (auto simp: sync_group_grades_def split: sum.splits if_splits)

lemma create_group_agree:
  assumes "members_db_ok s view" and "members_agree (view d)" and "create_group (sv_gdb s) x d = Inr (x', d')"
    and "distinct (group_user_ids x)" and "free_for (view d) x (set (group_user_ids x))" and "g_enrollments x = []"
  shows "members_agree (view d')"
proof -
  have w: "member_writes_ok s view" using assms(1) by (simp add: members_db_ok_def)
  from assms(3) obtain x1 d1 where c: "gq_create (sv_gdb s) x d = Inr (x1, d1)"
    "gq_join (sv_gdb s) (g_courseID x1) (group_user_ids x1) (Some [Enrollment_STUDENT, Enrollment_TEACHER]) (g_ID x1) d1 =
       Inr (length (group_user_ids x1), d')"
    by (auto simp: create_group_def bind_res_Inr_iff split: if_splits sum.splits prod.splits)
  let ?g = "g_ID x1" and ?U = "set (group_user_ids x)"
  have x1: "?g \<noteq> 0" "g_ID x \<noteq> 0 \<Longrightarrow> ?g = g_ID x" "g_courseID x1 = g_courseID x"
    "group_user_ids x1 = group_user_ids x" "mb_groups (view d) ?g = None"
    "view d1 = (view d)\<lparr>mb_groups := (mb_groups (view d))(?g \<mapsto> (g_courseID x, ?U))\<rparr>"
    using member_writesD(1) [OF w assms(6) c(1)] by simp_all
  have none: "mb_group_of (view d) k \<noteq> Some ?g" for k
    using assms(2) x1(1,5) by (cases k) (auto simp: members_agree_def)
  have "free_for (view d) (x\<lparr>g_ID := ?g\<rparr>) ?U"
    using assms(5) x1(2) by (force simp: free_for_def)
  then have "members_agree (with_members (view d) ?g (g_courseID x) ?U)"
    by (intro with_members_agree [OF assms(2) x1(1)]) simp_all
  moreover have "view d' = with_members (view d) ?g (g_courseID x) ?U"
    using join_all [OF w x1(1) _ c(2)] assms(4) x1(3,4,6) none
    by (simp add: with_members_def clear_group_def fun_eq_iff)
  ultimately show ?thesis by simp
qed

lemma update_group_agree:
  assumes "members_db_ok s view" and "members_agree (view d)" and "db_update_group (sv_gdb s) x d = Inr d'"
    and "mb_groups (view d) (g_ID x) = Some (g_courseID x, us)"
    and "distinct (group_user_ids x)" and "free_for (view d) x (set (group_user_ids x))"
  shows "members_agree (view d')"
proof -
  have w: "member_writes_ok s view" and a: "members_apart s view" using assms(1) by (simp_all add: members_db_ok_def)
  let ?g = "g_ID x" and ?c = "g_courseID x" and ?U = "set (group_user_ids x)"
  have g0: "?g \<noteq> 0" using assms(2,4) by (auto simp: members_agree_def)
  from assms(3) obtain d1 d2 d3 d4 where s: "gq_update (sv_gdb s) x d = Inr d1"
    "gq_replace_users (sv_gdb s) ?g (g_users x) d1 = Inr d2" "gq_clear_enrollments (sv_gdb s) ?g d2 = Inr d3"
    "sync_group_grades (sv_gdb s) ?g (group_user_ids x) d3 = Inr d4"
    "gq_join (sv_gdb s) ?c (group_user_ids x) None ?g d4 = Inr (length (group_user_ids x), d')"
    by (auto simp: db_update_group_def bind_res_Inr_iff split: if_splits prod.splits)
  have "view d1 = view d"
    using member_writesD(2) [OF w s(1)] assms(4) by (simp add: map_upd_triv)
  moreover have "view d2 = (view d1)\<lparr>mb_groups := (mb_groups (view d1))(?g \<mapsto> (?c, ?U))\<rparr>"
    using member_writesD(3) [OF w s(2)] assms(4) calculation by (simp add: group_user_ids_def)
  moreover have "view d3 = (view d2)\<lparr>mb_group_of := clear_group ?g (mb_group_of (view d2))\<rparr>"
    by (rule member_writesD(4) [OF w s(3)])
  moreover have "view d4 = view d3" by (rule sync_group_view [OF a s(4)])
  ultimately have "view d' = with_members (view d) ?g ?c ?U"
    using join_all [OF w g0 assms(5) s(5)] by (intro membership.equality) (simp_all add: with_members_def cong: if_cong)
  with with_members_agree [OF assms(2) g0 refl refl assms(6)] show ?thesis by simp
qed

lemma get_group_Inr: "get_group db g d = Inr x \<Longrightarrow> \<exists>ids. eq_group db g ids d = Inr x"
  unfolding get_group_def by (cases "eq_pluck db g d") (force split: sum.splits if_splits)+

lemma delete_group_agree:
  assumes "members_db_ok s view" and "members_agree (view d)" and "db_delete_group (sv_gdb s) g d = Inr d'"
  shows "members_agree (view d')"
proof -
  have w: "member_writes_ok s view" and r: "member_reads_ok s view" using assms(1) by (simp_all add: members_db_ok_def)
  from assms(3) obtain x ids d1 d2 where s: "eq_group (edb (cdb s)) g ids d = Inr x"
    "gq_replace_users (sv_gdb s) (g_ID x) [] d = Inr d1" "gq_clear_enrollments (sv_gdb s) (g_ID x) d1 = Inr d2"
    "gq_delete (sv_gdb s) (g_ID x) d2 = Inr d'"
    using get_group_Inr by (fastforce simp: db_delete_group_def bind_res_Inr_iff)
  from r s(1) obtain us where x: "g_ID x = g" "mb_groups (view d) g = Some (g_courseID x, us)"
    unfolding member_reads_ok_def by blast
  have g0: "g \<noteq> 0" using assms(2) x(2) by (auto simp: members_agree_def)
  have "view d1 = (view d)\<lparr>mb_groups := (mb_groups (view d))(g \<mapsto> (g_courseID x, {}))\<rparr>"
    using member_writesD(3) [OF w s(2)] x by simp
  moreover have "view d2 = (view d1)\<lparr>mb_group_of := clear_group g (mb_group_of (view d1))\<rparr>"
    using member_writesD(4) [OF w s(3)] x(1) by simp
  moreover have "view d' = (view d2)\<lparr>mb_groups := (mb_groups (view d2))(g := None)\<rparr>"
    using member_writesD(5) [OF w s(4)] x(1) by simp
  ultimately have "view d' = \<lparr>mb_groups = (mb_groups (view d))(g := None), mb_group_of = clear_group g (mb_group_of (view d))\<rparr>"
    by simp
  with without_group_agree [OF assms(2) g0] show ?thesis by simp
qed

section \<open>The handlers keep the memberships in agreement\<close>

text \<open>The calls on groups, as they reach their handlers.\<close>

datatype group_call = CallCreateGroup group | CallUpdateGroup group | CallDeleteGroup group_request

fun handle_group :: "'d service \<Rightarrow> group_call \<Rightarrow> ('d, unit) act" where
  "handle_group s (CallCreateGroup g) = bnd (create_group_handler s g) (\<lambda>_. ret ())"
| "handle_group s (CallUpdateGroup g) = bnd (update_group_handler s g) (\<lambda>_. ret ())"
| "handle_group s (CallDeleteGroup r) = delete_group_handler s r"

text \<open>
  The messages name a course (\<open>IsValid\<close>).  Two conditions the handlers do not check: a new group comes without
  enrollments, as the frontend sends it, and an update names the course that the group is in.
\<close>

fun group_call_ok :: "membership \<Rightarrow> group_call \<Rightarrow> bool" where
  "group_call_ok M (CallCreateGroup g) \<longleftrightarrow> 0 < g_courseID g \<and> g_enrollments g = []"
| "group_call_ok M (CallUpdateGroup g) \<longleftrightarrow>
     0 < g_courseID g \<and> (case mb_groups M (g_ID g) of None \<Rightarrow> True | Some (c, us) \<Rightarrow> c = g_courseID g)"
| "group_call_ok M (CallDeleteGroup r) \<longleftrightarrow> True"

inductive group_run :: "'d service \<Rightarrow> ('d \<Rightarrow> membership) \<Rightarrow> 'd \<Rightarrow> 'd \<Rightarrow> bool"
  for s :: "'d service" and view :: "'d \<Rightarrow> membership" and d0 :: 'd where
  start: "group_run s view d0 d0"
| call: "group_run s view d0 d \<Longrightarrow> group_call_ok (view d) c \<Longrightarrow> handle_group s c d = (r, d') \<Longrightarrow> group_run s view d0 d'"

lemma members_scm_keep: "same_members_scm view c \<Longrightarrow> preserves (\<lambda>d. J (view d)) (call_scm c)"
  by (rule preserves_call_scm) (metis same_members_scm_def snd_conv)

lemma members_keep:
  assumes "members_apart s view"
  shows "preserves (\<lambda>d. J (view d)) (exec (update_user (cdb s) usr))"
    and "preserves (\<lambda>d. J (view d)) (exec (ws_delete_repository s i))"
    and "preserves (\<lambda>d. J (view d)) (exec_get (create_repository (cdb s) r))"
    and "preserves (\<lambda>d. J (view d)) (call_scm (ws_get_scm s o'))"
    and "preserves (\<lambda>d. J (view d)) (call_scm (sc_user_by_id s i))"
    and "preserves (\<lambda>d. J (view d)) (call_scm (sc_create_group s o' g us))"
    and "preserves (\<lambda>d. J (view d)) (call_scm (sc_update_members s o' g us))"
    and "preserves (\<lambda>d. J (view d)) (call_scm (sc_delete_group s i))"
proof -
  note a = assms [unfolded members_apart_def]
  show "preserves (\<lambda>d. J (view d)) (exec (update_user (cdb s) usr))"
    using a by (intro preserves_exec) (auto simp: same_members_def update_user_def bind_res_Inr_iff)
  show "preserves (\<lambda>d. J (view d)) (exec (ws_delete_repository s i))"
    using a by (intro preserves_exec) (auto simp: same_members_def)
  show "preserves (\<lambda>d. J (view d)) (exec_get (create_repository (cdb s) r))"
    using a by (intro preserves_exec_get)
      (auto simp: create_repository_def bind_res_Inr_iff split: if_splits)
qed (use assms in \<open>auto simp: members_apart_def intro!: members_scm_keep\<close>)

lemma svc_query_keeps [keep]: "preserves I (svc_query q)"
  by (simp add: svc_query_def preserves_def)

lemma check_group_name_keeps [keep]: "preserves I (check_group_name s c n)"
  unfolding check_group_name_def
  by (intro keep) (auto simp: preserves_def split: sum.split)

lemma new_group_keeps [keep]: "preserves I (new_group s g request users)"
  unfolding new_group_def by (intro keep)

lemma refresh_users_keeps:
  "members_apart s view \<Longrightarrow> preserves (\<lambda>d. J (view d)) (refresh_users s us)"
  by (induction us) (simp_all add: update_user_from_scm_def Let_def, (intro keep members_keep; simp)+)

lemma refresh_users_ids: "refresh_users s us d = (Inr us', d') \<Longrightarrow> map u_ID us' = map u_ID us"
proof (induction us arbitrary: us' d d')
  case (Cons u us)
  then obtain u1 d1 us1 d2 where "update_user_from_scm s u d = (Inr u1, d1)" "refresh_users s us d1 = (Inr us1, d2)"
    "us' = u1 # us1" by (auto simp: bnd_cases ret_def)
  moreover from this(1) have "u_ID u1 = u_ID u"
    by (auto simp: update_user_from_scm_def bnd_cases ret_def Let_def split: if_splits)
  ultimately show ?case using Cons.IH by simp
qed (simp add: ret_def)

lemma new_group_result:
  "new_group s g request users d = (Inr x, d') \<Longrightarrow> g_ID x = g_ID g \<and> g_courseID x = g_courseID g \<and> g_users x = users"
  by (auto simp: new_group_def bnd_cases ret_def split: if_splits)

lemma lands_svc_query_bnd:
  assumes "\<And>x. lands (\<lambda>d. P d \<and> q d = Inr x) (f x) Q E" and "\<And>d. P d \<Longrightarrow> E d"
  shows "lands P (bnd (svc_query q) f) Q E"
proof (rule landsI)
  fix d e d' assume "P d" "bnd (svc_query q) f d = (Inl e, d')"
  then show "E d'" using landsD(1) [OF assms(1)] assms(2) by (auto simp: bnd_cases svc_query_def)
next
  fix d x d' assume "P d" "bnd (svc_query q) f d = (Inr x, d')"
  then show "Q d'" using landsD(2) [OF assms(1)] by (auto simp: bnd_cases svc_query_def)
qed

lemma create_handler_lands:
  assumes "members_db_ok s view" and "members_agree M" and "g_courseID g \<noteq> 0" and "g_enrollments g = []"
  shows "lands (\<lambda>d. view d = M) (create_group_handler s g) (\<lambda>d. members_agree (view d)) (\<lambda>d. members_agree (view d))"
  unfolding create_group_handler_def
proof (rule lands_skip)
  let ?E = "\<lambda>d. members_agree (view d)"
  show "lands (\<lambda>d. view d = M) (bnd (svc_query (get_group_users s g)) (\<lambda>_.
     bnd (exec_get (create_group (sv_gdb s) g)) (\<lambda>g. query (get_group (edb (cdb s)) (g_ID g))))) ?E ?E" for x :: unit
  proof (rule lands_svc_query_bnd, rule lands_bnd)
    fix us
    show "lands (\<lambda>d. view d = M \<and> get_group_users s g d = Inr us) (exec_get (create_group (sv_gdb s) g)) ?E ?E"
    proof (rule landsI)
      fix d x d' assume d: "view d = M \<and> get_group_users s g d = Inr us"
        "exec_get (create_group (sv_gdb s) g) d = (Inr x, d')"
      have r: "member_reads_ok s view" using assms(1) by (simp add: members_db_ok_def)
      from d(2) have "create_group (sv_gdb s) g d = Inr (x, d')"
        by (auto simp: exec_get_def split: sum.splits prod.splits)
      with get_group_users_free [OF r assms(3)] d(1) show "?E d'"
        using create_group_agree [OF assms(1)] assms(2,4) by metis
    qed (use assms(2) in \<open>auto simp: exec_get_def split: sum.splits prod.splits\<close>)
    show "lands ?E (query (get_group (edb (cdb s)) (g_ID x))) ?E ?E" for x
      using preserves_query by (simp add: preserves_lands [symmetric])
  qed (use assms(2) in simp)
qed (use assms(2) in \<open>auto intro: keep\<close>)

lemma course_group_facts:
  assumes "member_reads_ok s view" and "get_course_group s c i d = Inr (crs, g)"
  shows "g_ID g = i \<and> (\<exists>us. mb_groups (view d) i = Some (g_courseID g, us))"
proof -
  from assms(2) obtain ids where "eq_group (edb (cdb s)) i ids d = Inr g"
    using get_group_Inr by (fastforce simp: get_course_group_def bind_res_Inr_iff)
  with assms(1) show ?thesis unfolding member_reads_ok_def by blast
qed

text \<open>The tail of \<open>internalUpdateGroup\<close>, once the group and its users are known.\<close>

lemma update_tail_lands:
  assumes "members_db_ok s view" and "members_agree M" and "mb_groups M (g_ID g) = Some (g_courseID g, old)"
    and "distinct (map u_ID us)" and "free_for M g (u_ID ` set us)"
  shows "lands (\<lambda>d. view d = M) (bnd (refresh_users s us) (\<lambda>users.
     bnd (new_group s g request users) (\<lambda>newGroup.
     bnd (find_repo s c (g_ID g) R_GROUP) (\<lambda>repo.
     bnd (if repo = None
          then bnd (create_repo s c newGroup) (\<lambda>r. bnd (exec_get (create_repository (cdb s) r)) (\<lambda>_. ret ()))
          else ret ()) (\<lambda>_.
     bnd (if \<not> contains_all g newGroup then update_group_members s newGroup (c_ScmOrganizationName c) else ret ()) (\<lambda>_.
       exec (db_update_group (sv_gdb s) (newGroup\<lparr>g_status := Group_APPROVED\<rparr>))))))))
     (\<lambda>d. members_agree (view d)) (\<lambda>d. members_agree (view d))"
proof -
  have a: "members_apart s view" using assms(1) by (simp add: members_db_ok_def)
  note k = members_keep [OF a, of "\<lambda>v. v = M"]
  have ex: "lands (\<lambda>d. view d = M) (exec (db_update_group (sv_gdb s) (x\<lparr>g_status := Group_APPROVED\<rparr>)))
     (\<lambda>d. members_agree (view d)) (\<lambda>d. members_agree (view d))"
    if x: "g_ID x = g_ID g \<and> g_courseID x = g_courseID g \<and> map u_ID (g_users x) = map u_ID us" for x
  proof (rule lands_exec)
    let ?x = "x\<lparr>g_status := Group_APPROVED\<rparr>"
    have ids: "group_user_ids ?x = map u_ID us" using x by (simp add: group_user_ids_def)
    have "free_for M ?x (set (group_user_ids ?x))"
      unfolding ids using assms(5) x by (simp add: free_for_def)
    then show "members_agree (view d')" if "view d = M" "db_update_group (sv_gdb s) ?x d = Inr d'" for d d'
      using update_group_agree [OF assms(1) _ that(2)] that(1) assms(2-4) x ids by simp
  qed (use assms(2) in simp)
  show ?thesis
  proof (rule lands_skip_result [where T = "\<lambda>users. map u_ID users = map u_ID us"])
    show "preserves (\<lambda>d. view d = M) (refresh_users s us)" by (rule refresh_users_keeps [OF a])
    fix users :: "user list" assume users: "map u_ID users = map u_ID us"
    show "lands (\<lambda>d. view d = M) (bnd (new_group s g request users) (\<lambda>newGroup.
       bnd (find_repo s c (g_ID g) R_GROUP) (\<lambda>repo.
       bnd (if repo = None
            then bnd (create_repo s c newGroup) (\<lambda>r. bnd (exec_get (create_repository (cdb s) r)) (\<lambda>_. ret ()))
            else ret ()) (\<lambda>_.
       bnd (if \<not> contains_all g newGroup then update_group_members s newGroup (c_ScmOrganizationName c) else ret ()) (\<lambda>_.
         exec (db_update_group (sv_gdb s) (newGroup\<lparr>g_status := Group_APPROVED\<rparr>)))))))
       (\<lambda>d. members_agree (view d)) (\<lambda>d. members_agree (view d))"
    proof (rule lands_skip_result [where T = "\<lambda>x. g_ID x = g_ID g \<and> g_courseID x = g_courseID g \<and> g_users x = users"])
      fix x :: group assume "g_ID x = g_ID g \<and> g_courseID x = g_courseID g \<and> g_users x = users"
      with users have x: "g_ID x = g_ID g \<and> g_courseID x = g_courseID g \<and> map u_ID (g_users x) = map u_ID us" by simp
      show "lands (\<lambda>d. view d = M) (bnd (find_repo s c (g_ID g) R_GROUP) (\<lambda>repo.
         bnd (if repo = None
              then bnd (create_repo s c x) (\<lambda>r. bnd (exec_get (create_repository (cdb s) r)) (\<lambda>_. ret ()))
              else ret ()) (\<lambda>_.
         bnd (if \<not> contains_all g x then update_group_members s x (c_ScmOrganizationName c) else ret ()) (\<lambda>_.
           exec (db_update_group (sv_gdb s) (x\<lparr>g_status := Group_APPROVED\<rparr>))))))
         (\<lambda>d. members_agree (view d)) (\<lambda>d. members_agree (view d))"
        unfolding create_repo_def update_group_members_def
        by (intro lands_skip keep k ex [OF x]) (use assms(2) in simp_all)
    qed (use assms(2) in \<open>auto intro: keep dest: new_group_result\<close>)
  qed (use assms(2) refresh_users_ids in auto)
qed

lemma update_handler_lands:
  assumes "members_db_ok s view" and "members_agree M" and "group_call_ok M (CallUpdateGroup g)"
  shows "lands (\<lambda>d. view d = M) (internal_update_group s g) (\<lambda>d. members_agree (view d)) (\<lambda>d. members_agree (view d))"
  unfolding internal_update_group_def
proof (rule lands_query_bnd)
  have r: "member_reads_ok s view" using assms(1) by (simp add: members_db_ok_def)
  have c0: "g_courseID g \<noteq> 0" using assms(3) by (auto simp: word_gt_0)
  fix x :: "course \<times> group" obtain c g0 where x: "x = (c, g0)" by fastforce
  let ?P = "\<lambda>d. view d = M \<and> get_course_group s (g_courseID g) (g_ID g) d = Inr x"
  let ?E = "\<lambda>d. members_agree (view d)"
  show "lands ?P (case x of (c, g0) \<Rightarrow> bnd (svc_query (get_group_users s g)) (\<lambda>users.
     bnd (refresh_users s users) (\<lambda>users.
     bnd (new_group s g0 g users) (\<lambda>newGroup.
     bnd (find_repo s c (g_ID g0) R_GROUP) (\<lambda>repo.
     bnd (if repo = None
          then bnd (create_repo s c newGroup) (\<lambda>r. bnd (exec_get (create_repository (cdb s) r)) (\<lambda>_. ret ()))
          else ret ()) (\<lambda>_.
     bnd (if \<not> contains_all g0 newGroup then update_group_members s newGroup (c_ScmOrganizationName c) else ret ()) (\<lambda>_.
       exec (db_update_group (sv_gdb s) (newGroup\<lparr>g_status := Group_APPROVED\<rparr>)))))))) ) ?E ?E"
    unfolding x prod.case
  proof (rule lands_svc_query_bnd)
    fix us
    let ?Q = "\<lambda>d. (view d = M \<and> get_course_group s (g_courseID g) (g_ID g) d = Inr (c, g0)) \<and> get_group_users s g d = Inr us"
    show "lands ?Q (bnd (refresh_users s us) (\<lambda>users.
       bnd (new_group s g0 g users) (\<lambda>newGroup.
       bnd (find_repo s c (g_ID g0) R_GROUP) (\<lambda>repo.
       bnd (if repo = None
            then bnd (create_repo s c newGroup) (\<lambda>r. bnd (exec_get (create_repository (cdb s) r)) (\<lambda>_. ret ()))
            else ret ()) (\<lambda>_.
       bnd (if \<not> contains_all g0 newGroup then update_group_members s newGroup (c_ScmOrganizationName c) else ret ()) (\<lambda>_.
         exec (db_update_group (sv_gdb s) (newGroup\<lparr>g_status := Group_APPROVED\<rparr>)))))))) ?E ?E"
    proof (cases "\<exists>d. ?Q d")
      case True
      then obtain d where d: "?Q d" by blast
      from course_group_facts [OF r, of "g_courseID g" "g_ID g" d c g0] d obtain old
        where g0: "g_ID g0 = g_ID g" "mb_groups M (g_ID g0) = Some (g_courseID g0, old)" by auto
      with assms(3) have cg: "g_courseID g0 = g_courseID g" by simp
      have "free_for M g0 U \<longleftrightarrow> free_for M g U" for U using g0(1) cg by (simp add: free_for_def)
      moreover have "distinct (map u_ID us)" "free_for M g (u_ID ` set us)"
        using get_group_users_free [OF r c0, of d us] d by metis+
      ultimately have "distinct (map u_ID us)" "free_for M g0 (u_ID ` set us)" by blast+
      from update_tail_lands [OF assms(1,2) g0(2) this] show ?thesis by (rule lands_pre) simp
    qed (auto simp: lands_def)
  qed (use assms(2) in simp)
qed (use assms(2) in simp)

lemma delete_keeps:
  assumes "members_db_ok s view"
  shows "preserves (\<lambda>d. members_agree (view d)) (internal_delete_group s r)"
proof -
  have a: "members_apart s view" using assms by (simp add: members_db_ok_def)
  have "preserves (\<lambda>d. members_agree (view d)) (exec (db_delete_group (sv_gdb s) i))" for i
    by (rule preserves_exec) (rule delete_group_agree [OF assms])
  then show ?thesis
    unfolding internal_delete_group_def by (intro keep find_repo_keeps members_keep [OF a])
qed

lemma handle_group_agree:
  assumes "members_db_ok s view" and "members_agree (view d)" and "group_call_ok (view d) c" and "handle_group s c d = (r, d')"
  shows "members_agree (view d')"
proof (cases c)
  case (CallCreateGroup g)
  with assms(3) have "g_courseID g \<noteq> 0" "g_enrollments g = []" by (auto simp: word_gt_0)
  from create_handler_lands [OF assms(1,2) this]
  have "lands (\<lambda>x. view x = view d) (handle_group s c) (\<lambda>d. members_agree (view d)) (\<lambda>d. members_agree (view d))"
    unfolding CallCreateGroup handle_group.simps by (rule lands_bnd) (simp add: lands_ret)
  from lands_any [OF this _ assms(4)] show ?thesis by simp
next
  case (CallUpdateGroup g)
  have a: "members_apart s view" using assms(1) by (simp add: members_db_ok_def)
  have ok: "group_call_ok (view d) (CallUpdateGroup g)" using assms(3) CallUpdateGroup by simp
  have "lands (\<lambda>x. view x = view d) (bnd (internal_update_group s g)
     (\<lambda>x. bnd (query (get_group (edb (cdb s)) (g_ID g))) (\<lambda>x. ret ())))
     (\<lambda>d. members_agree (view d)) (\<lambda>d. members_agree (view d))"
    by (rule lands_bnd [OF update_handler_lands [OF assms(1,2) ok]]) (simp add: preserves_lands [symmetric] keep)
  then have "lands (\<lambda>x. view x = view d) (handle_group s c) (\<lambda>d. members_agree (view d)) (\<lambda>d. members_agree (view d))"
    unfolding CallUpdateGroup handle_group.simps update_group_handler_def bnd_assoc get_scm_for_course_def
    using assms(2)
    by (intro lands_skip [OF preserves_query] lands_skip [OF members_keep(4) [OF a, of "\<lambda>v. v = view d"]]) simp_all
  from lands_any [OF this _ assms(4)] show ?thesis by simp
next
  case (CallDeleteGroup q)
  have a: "members_apart s view" using assms(1) by (simp add: members_db_ok_def)
  have "preserves (\<lambda>d. members_agree (view d)) (handle_group s c)"
    unfolding CallDeleteGroup handle_group.simps delete_group_handler_def get_scm_for_course_def
    by (intro keep delete_keeps [OF assms(1)] members_keep [OF a])
  from preservesD [OF this assms(2,4)] show ?thesis .
qed

section \<open>Properties\<close>


text \<open>the name of the repository of a student is a valid name for a group; when a group has taken it and
  the student is enrolled afterwards, the student is given push access to the repository of the group.
\<close>

lemma student_repo_name_is_group_name:
  assumes "list_all authorized_char login" and "length login \<le> 15"
    and "get_groups_by_course (sv_gdb s) c [] d = Inr gs"
    and "\<forall>x\<in>set gs. \<not> equal_fold (g_name x) (student_repo_name login)"
    and "gh_ok g view" and "gh_repo g org (student_repo_name login) w = (Inr r, w1)"
    and "create_student_repo g org login w = (Inr r', w')"
  shows "check_group_name s c (student_repo_name login) d = (Inr (), d) \<and> r' = r \<and>
    access view w' (rp_Owner r, rp_Repo r, login) = Some pushAccess"
proof (intro conjI)
  have "list_all authorized_char StudentRepoSuffix"
    by (simp add: StudentRepoSuffix_def authorized_char_def Let_def)
  with assms(1) have "\<not> list_ex (\<lambda>c. \<not> authorized_char c) (student_repo_name login)"
    by (auto simp: student_repo_name_def list_all_iff list_ex_iff)
  moreover have "length (student_repo_name login) \<le> maxGroupNameLength" "student_repo_name login \<noteq> []"
    using assms(2) by (simp_all add: student_repo_name_def StudentRepoSuffix_def maxGroupNameLength_def)
  ultimately show "check_group_name s c (student_repo_name login) d = (Inr (), d)"
    using assms(3,4) by (auto simp: check_group_name_def list_ex_iff)
  from assms(7) obtain w2 where "create_forked_repo g \<lparr>xo_Owner = org, xo_Repo = student_repo_name login,
      xo_Private = True, xo_AutoInit = False\<rparr> w = (Inr r', w2)"
    and add: "add_user g (rp_Owner r') (rp_Repo r') login pushAccess w2 = (Inr (), w')"
    by (auto simp: create_student_repo_def act_Inr)
  then show "r' = r" using assms(6) by (auto simp: create_forked_repo_def act_Inr)
  with add_user_access(1) [OF assms(5) add]
  show "access view w' (rp_Owner r, rp_Repo r, login) = Some pushAccess" by simp
qed

section \<open>A service over the memberships alone\<close>

definition member_enr_db :: "membership enr_db" where
  "member_enr_db = sub_db.extend null_sub_db (enr_db.fields
     (\<lambda>c u M. case mb_group_of M (c, u) of
         None \<Rightarrow> Inl RecordNotFound
       | Some g \<Rightarrow> Inr (zero_enrollment\<lparr>e_ID := 1, e_courseID := c, e_userID := u, e_groupID := g,
           e_status := Enrollment_STUDENT\<rparr>, zero_course\<lparr>c_ID := c\<rparr>, zero_user\<lparr>u_ID := u\<rparr>))
     (\<lambda>g M. Inr [1])
     (\<lambda>g us M. case mb_groups M g of
         None \<Rightarrow> Inl RecordNotFound
       | Some (c, _) \<Rightarrow> Inr (zero_group\<lparr>g_ID := g, g_courseID := c\<rparr>))
     (\<lambda>x M. Inr M))"

definition joined_rows :: "u64 \<Rightarrow> u64 list \<Rightarrow> membership \<Rightarrow> (u64 \<times> u64) list" where
  "joined_rows c us M = filter (\<lambda>k. mb_group_of M k \<noteq> None) (map (Pair c) (remdups us))"

definition member_group_db :: "membership group_db" where
  "member_group_db = enr_db.extend member_enr_db (group_db.fields
     (\<lambda>c M. Inr 1)
     (\<lambda>g M. let i = (if g_ID g = 0 then 1 else g_ID g)
            in if mb_groups M i \<noteq> None then Inl ''UNIQUE constraint failed''
               else Inr (g\<lparr>g_ID := i\<rparr>, M\<lparr>mb_groups := (mb_groups M)(i \<mapsto> (g_courseID g, set (group_user_ids g)))\<rparr>))
     (\<lambda>c us sts g M. Inr (length (joined_rows c us M),
        M\<lparr>mb_group_of := (\<lambda>k. if k \<in> set (joined_rows c us M) then Some g else mb_group_of M k)\<rparr>))
     (\<lambda>g M. Inr (M\<lparr>mb_groups := (mb_groups M)
        (g_ID g := map_option (\<lambda>(c, us). (g_courseID g, us)) (mb_groups M (g_ID g)))\<rparr>))
     (\<lambda>g st M. Inr M)
     (\<lambda>g us M. Inr (M\<lparr>mb_groups := (mb_groups M)
        (g := map_option (\<lambda>(c, _). (c, u_ID ` set us)) (mb_groups M g))\<rparr>))
     (\<lambda>g M. Inr (M\<lparr>mb_group_of := (\<lambda>k. if mb_group_of M k = Some g then Some 0 else mb_group_of M k)\<rparr>))
     (\<lambda>g M. Inr []) (\<lambda>i M. Inr M) (\<lambda>x M. Inr M)
     (\<lambda>g M. Inr (M\<lparr>mb_groups := (mb_groups M)(g := None)\<rparr>)) (\<lambda>c sts M. Inr []))"

definition member_course_db :: "membership course_db" where
  "member_course_db = group_db.extend member_group_db (course_db.fields
     (\<lambda>u M. Inr (zero_user\<lparr>u_ID := u\<rparr>)) (\<lambda>us M. Inr (map (\<lambda>u. zero_user\<lparr>u_ID := u\<rparr>) (remdups (filter (\<lambda>u. u \<noteq> 0) us))))
     (\<lambda>l sts M. Inl RecordNotFound) (\<lambda>u M. Inl RecordNotFound) (\<lambda>u M. Inr (u, M)) (\<lambda>u M. Inr M)
     (\<lambda>q p M. Inr (CourseMsg (zero_course\<lparr>c_ID := c_ID q\<rparr>) [] []))
     (\<lambda>cs M. Inr []) (\<lambda>o' c y M. Inr 0) (\<lambda>c M. Inr (c, M)) (\<lambda>c M. Inr M) (\<lambda>e M. Inr (e, M)) (\<lambda>e M. Inr M)
     (\<lambda>c u e M. Inr M) (\<lambda>f sts M. Inr []) (\<lambda>M. Inr M) (\<lambda>g M. Inr ()) (\<lambda>r M. Inr (r, M)))"

definition member_service :: "membership service" where
  "member_service = course_db.extend member_course_db (service.fields
     (\<lambda>r M. Inr [r]) (\<lambda>i M. Inr M) (\<lambda>o' M. (Inr (), M)) (\<lambda>u M. (Inr (''token'', u), M))
     (\<lambda>i M. (Inr \<lparr>su_login = [], su_avatar = []\<rparr>, M)) (\<lambda>o' l st t M. (Inr \<lparr>sr_ID = 1, sr_HTMLURL = []\<rparr>, M))
     (\<lambda>l o' r M. (Inr (), M)) (\<lambda>o' l M. (Inr (), M)) (\<lambda>o' g us M. (Inr \<lparr>sr_ID = 1, sr_HTMLURL = []\<rparr>, M))
     (\<lambda>o' g us M. (Inr (), M)) (\<lambda>i M. (Inr (), M)) (\<lambda>i M. True))"

lemmas member_service_defs = member_service_def member_course_db_def member_group_db_def member_enr_db_def null_sub_db_def
  course_db.extend_def group_db.extend_def enr_db.extend_def sub_db.extend_def course_db.truncate_def
  group_db.truncate_def enr_db.truncate_def sub_db.truncate_def
  service.fields_def course_db.fields_def group_db.fields_def enr_db.fields_def

lemma joined_rows_card: "length (joined_rows c us M) = card (set (joined_rows c us M))"
  unfolding joined_rows_def by (rule distinct_card [symmetric]) (simp add: distinct_map inj_on_def)

lemma zero_user_ID_inj: "zero_user\<lparr>u_ID := x\<rparr> = zero_user\<lparr>u_ID := y\<rparr> \<longleftrightarrow> x = y"
  by (auto simp: zero_user_def)

lemma member_service_ok: "members_db_ok member_service id"
proof -
  have "member_reads_ok member_service id"
    by (auto simp: member_reads_ok_def member_service_defs distinct_map inj_on_def comp_def zero_user_ID_inj
        split: option.splits)
  moreover have "member_writes_ok member_service id"
  proof -
    have sub: "set (joined_rows c us M) \<subseteq> Pair c ` set us" for c us M by (auto simp: joined_rows_def)
    have join: "\<forall>c us sts g d n d'. g \<noteq> 0 \<longrightarrow> gq_join (sv_gdb member_service) c us sts g d = Inr (n, d') \<longrightarrow>
        (\<exists>R\<subseteq>Pair c ` set us. n = card R \<and>
           id d' = (id d)\<lparr>mb_group_of := (\<lambda>k. if k \<in> R then Some g else mb_group_of (id d) k)\<rparr>)"
    proof (intro allI impI)
      fix c us sts g d n d' assume "gq_join (sv_gdb member_service) c us sts g d = Inr (n, d')"
      then have "n = length (joined_rows c us d)"
        "d' = d\<lparr>mb_group_of := (\<lambda>k. if k \<in> set (joined_rows c us d) then Some g else mb_group_of d k)\<rparr>"
        by (simp_all add: member_service_defs)
      then show "\<exists>R\<subseteq>Pair c ` set us. n = card R \<and>
          id d' = (id d)\<lparr>mb_group_of := (\<lambda>k. if k \<in> R then Some g else mb_group_of (id d) k)\<rparr>"
        by (intro exI [of _ "set (joined_rows c us d)"]) (simp add: sub joined_rows_card cong: if_cong)
    qed
    have none: "(\<forall>a b. x \<noteq> Some (a, b)) \<longleftrightarrow> x = None" for x :: "(u64 \<times> u64 set) option" by (cases x) auto
    show ?thesis
      unfolding member_writes_ok_def
      by (intro conjI join) (auto simp: member_service_defs group_user_ids_def Let_def none
          cong: if_cong split: if_splits)
  qed
  moreover have "members_apart member_service id"
    by (simp add: members_apart_def member_service_defs same_members_def same_members_scm_def)
  ultimately show ?thesis by (simp add: members_db_ok_def)
qed

definition sample_members :: membership where
  "sample_members = \<lparr>mb_groups = Map.empty, mb_group_of = [(1, 5) \<mapsto> 0]\<rparr>"

definition sample_team :: group where
  "sample_team = zero_group\<lparr>g_name := ''team'', g_courseID := 1, g_users := [zero_user\<lparr>u_ID := 5\<rparr>]\<rparr>"


text \<open>
  An update that names another course breaks the agreement: the users are checked against their enrollments in the
  course that the message names, and written to the group in its own course, where user 6 is in group 2.
\<close>

definition two_teams :: membership where
  "two_teams = \<lparr>mb_groups = [1 \<mapsto> (1, {5}), 2 \<mapsto> (1, {6})],
     mb_group_of = [(1, 5) \<mapsto> 1, (1, 6) \<mapsto> 2, (2, 5) \<mapsto> 0, (2, 6) \<mapsto> 0]\<rparr>"

definition misnamed_team :: group where
  "misnamed_team = zero_group\<lparr>g_ID := 1, g_courseID := 2, g_users := [zero_user\<lparr>u_ID := 5\<rparr>, zero_user\<lparr>u_ID := 6\<rparr>]\<rparr>"

lemma update_of_other_course: "members_db_ok member_service id"
  "members_agree two_teams" "fst (handle_group member_service (CallUpdateGroup misnamed_team) two_teams) = Inr ()"
  "\<not> members_agree (snd (handle_group member_service (CallUpdateGroup misnamed_team) two_teams))"
proof -
  show "members_db_ok member_service id" by (rule member_service_ok)
  let ?h = "handle_group member_service (CallUpdateGroup misnamed_team) two_teams"
  show "members_agree two_teams" by (auto simp: members_agree_def two_teams_def split: if_splits)
  show "fst ?h = Inr ()" by code_simp
  have "mb_group_of (snd ?h) (1, 6) = Some 1" "mb_groups (snd ?h) 2 = Some (1, {6})" by code_simp+
  moreover have "members_agree M \<Longrightarrow> mb_groups M 2 = Some (1, {6}) \<Longrightarrow> mb_group_of M (1, 6) = Some 2" for M
    unfolding members_agree_def by simp
  ultimately show "\<not> members_agree (snd ?h)" by fastforce
qed

lemma student_repo_name_is_group_name_witness:
  "\<exists>w'. create_student_repo world_github ''course'' ''ann''
       (sample_world\<lparr>gw_repos := [\<lparr>rp_ID = 1, rp_Repo = ''ann-labs'', rp_Owner = ''course'', rp_HTMLURL = []\<rparr>]\<rparr>) =
       (Inr \<lparr>rp_ID = 1, rp_Repo = ''ann-labs'', rp_Owner = ''course'', rp_HTMLURL = []\<rparr>, w') \<and>
     check_group_name member_service 1 ''ann-labs'' sample_members = (Inr (), sample_members) \<and>
     access world_view w' (''course'', ''ann-labs'', ''ann'') = Some pushAccess"
proof -
  let ?r = "\<lparr>rp_ID = 1, rp_Repo = ''ann-labs'', rp_Owner = ''course'', rp_HTMLURL = []\<rparr>"
  let ?w = "sample_world\<lparr>gw_repos := [?r]\<rparr>"
  have name: "student_repo_name ''ann'' = ''ann-labs''" by (simp add: student_repo_name_def StudentRepoSuffix_def)
  obtain w1 where found: "gh_repo world_github ''course'' (student_repo_name ''ann'') ?w = (Inr ?r, w1)"
    by (simp add: world_github_def found_or_def name)
  then obtain w' where run: "create_student_repo world_github ''course'' ''ann'' ?w = (Inr ?r, w')"
    by (simp add: create_student_repo_def create_forked_repo_def in_op_def bnd_def guard_def ret_def name
        create_options_valid_def world_github_def found_or_def add_user_def call_api_def)
  have "list_all authorized_char ''ann''" "length ''ann'' \<le> 15" by (simp_all add: authorized_char_def Let_def)
  moreover have none: "get_groups_by_course (sv_gdb member_service) 1 [] sample_members = Inr []"
    by (simp add: get_groups_by_course_def member_service_defs)
  moreover have "\<forall>x\<in>set []. \<not> equal_fold (g_name x) (student_repo_name ''ann'')" by simp
  ultimately show ?thesis
    using student_repo_name_is_group_name [OF _ _ none _ world_ok found run] run name by auto
qed

end
