(* ===== verification/Streams.thy ===== *)
theory Streams
  imports Model
begin

text \<open>
  The streams to connected clients: \<open>web/stream/service.go\<close> and \<open>web/stream/stream.go\<close>, and the handler
  \<open>SubmissionStream\<close> that uses them.  Any number of threads call the service; each step takes one lock,
  touches the map or the channel of one stream, or hands one message over on an unbuffered channel.
\<close>

section \<open>Threads\<close>

text \<open>
  What remains of a call.  \<open>SendLock\<close>, \<open>SendCheck\<close>, \<open>SendBlocked\<close> and \<open>Unlock\<close> are the points of
  \<open>Stream.Send\<close>, \<open>CloseLock\<close>, \<open>CloseCheck\<close>, \<open>CloseSet\<close> and \<open>Unlock\<close> those of \<open>Stream.Close\<close>.
\<close>

datatype 'm op =
    SendOne u64 'm
  | Broadcast 'm
  | RemoveOne u64
  | RemoveAll
  | Forget u64
  | SetStream u64 nat
  | SendLock nat 'm
  | SendCheck nat 'm
  | SendBlocked nat 'm
  | CloseLock nat
  | CloseCheck nat
  | CloseSet nat
  | Unlock nat

text \<open>
  A thread waits for the mutex of the service, holds it, or runs a stream; a call of the handler goes on
  to run the stream that it added.  \<open>Leave\<close> is the deferred \<open>Close\<close> of \<open>Run\<close>.
\<close>

datatype 'm pc =
    Idle
  | WaitService "'m op list" "nat option"
  | InService "'m op list" "nat option"
  | Select nat
  | Deliver nat 'm
  | Leave "'m op list"

definition send_to :: "'m \<Rightarrow> u64 list \<Rightarrow> 'm op list" where
  "send_to data ids = (if ids = [] then [Broadcast data] else map (\<lambda>i. SendOne i data) ids)"

definition add_stream :: "nat \<Rightarrow> u64 \<Rightarrow> 'm op list" where
  "add_stream x i = [RemoveOne i, SetStream i x]"

definition close_by :: "u64 \<Rightarrow> 'm op list" where
  "close_by i = [RemoveOne i]"

definition close_all :: "'m op list" where
  "close_all = [RemoveAll]"

section \<open>The state\<close>

text \<open>
  \<open>sw_closed\<close> is the flag of each stream and \<open>sw_channel\<close> tells which channels are closed; \<open>sw_used\<close> are
  the streams made so far, \<open>sw_done\<close> those whose context is done.
\<close>

record 'm streams =
  sw_service :: "nat option"
  sw_map :: "u64 \<rightharpoonup> nat"
  sw_lock :: "nat \<Rightarrow> nat option"
  sw_closed :: "nat set"
  sw_channel :: "nat set"
  sw_done :: "nat set"
  sw_used :: "nat set"
  sw_sent :: "(nat \<times> 'm) list"
  sw_panic :: bool
  sw_pc :: "nat \<Rightarrow> 'm pc"

definition no_streams :: "'m streams" where
  "no_streams = \<lparr>sw_service = None, sw_map = Map.empty, sw_lock = (\<lambda>x. None), sw_closed = {}, sw_channel = {},
     sw_done = {}, sw_used = {}, sw_sent = [], sw_panic = False, sw_pc = (\<lambda>t. Idle)\<rparr>"

definition goto :: "nat \<Rightarrow> 'm pc \<Rightarrow> 'm streams \<Rightarrow> 'm streams" where
  "goto t p w = w\<lparr>sw_pc := (sw_pc w)(t := p)\<rparr>"

text \<open>The operations of a thread that holds the service, or of one that leaves.\<close>

fun ops_of :: "'m pc \<Rightarrow> 'm op list" where
  "ops_of (InService ops a) = ops"
| "ops_of (Leave ops) = ops"
| "ops_of _ = []"

fun with_ops :: "'m op list \<Rightarrow> 'm pc \<Rightarrow> 'm pc" where
  "with_ops ops (InService _ a) = InService ops a"
| "with_ops ops (Leave _) = Leave ops"
| "with_ops ops p = p"

section \<open>Steps\<close>

text \<open>
  One operation of one thread.  A send on a closed channel panics, so does closing a channel twice; the
  order in which a map is visited is any order.
\<close>

inductive op_step :: "nat \<Rightarrow> 'm op \<Rightarrow> 'm streams \<Rightarrow> 'm op list \<Rightarrow> 'm streams \<Rightarrow> bool" where
  send_found: "sw_map w i = Some x \<Longrightarrow> op_step t (SendOne i m) w [SendLock x m] w"
| send_none: "sw_map w i = None \<Longrightarrow> op_step t (SendOne i m) w [] w"
| broadcast: "set ids = dom (sw_map w) \<Longrightarrow> distinct ids \<Longrightarrow> op_step t (Broadcast m) w (map (\<lambda>i. SendOne i m) ids) w"
| remove_found: "sw_map w i = Some x \<Longrightarrow> op_step t (RemoveOne i) w [CloseLock x, Forget i] w"
| remove_none: "sw_map w i = None \<Longrightarrow> op_step t (RemoveOne i) w [] w"
| remove_all: "set ids = dom (sw_map w) \<Longrightarrow> distinct ids \<Longrightarrow> op_step t RemoveAll w (map RemoveOne ids) w"
| forget: "op_step t (Forget i) w [] (w\<lparr>sw_map := (sw_map w)(i := None)\<rparr>)"
| set_stream: "op_step t (SetStream i x) w [] (w\<lparr>sw_map := (sw_map w)(i \<mapsto> x)\<rparr>)"
| send_lock: "sw_lock w x = None \<Longrightarrow> op_step t (SendLock x m) w [SendCheck x m] (w\<lparr>sw_lock := (sw_lock w)(x := Some t)\<rparr>)"
| send_closed: "x \<in> sw_closed w \<Longrightarrow> op_step t (SendCheck x m) w [Unlock x] w"
| send_open: "x \<notin> sw_closed w \<Longrightarrow> op_step t (SendCheck x m) w [SendBlocked x m] w"
| send_panic: "x \<in> sw_channel w \<Longrightarrow> op_step t (SendBlocked x m) w [] (w\<lparr>sw_panic := True\<rparr>)"
| close_lock: "sw_lock w x = None \<Longrightarrow> op_step t (CloseLock x) w [CloseCheck x] (w\<lparr>sw_lock := (sw_lock w)(x := Some t)\<rparr>)"
| close_twice: "x \<in> sw_closed w \<Longrightarrow> op_step t (CloseCheck x) w [CloseSet x] w"
| close_open: "x \<notin> sw_closed w \<Longrightarrow>
    op_step t (CloseCheck x) w [CloseSet x]
      (w\<lparr>sw_panic := (sw_panic w \<or> x \<in> sw_channel w), sw_channel := insert x (sw_channel w)\<rparr>)"
| close_set: "op_step t (CloseSet x) w [Unlock x] (w\<lparr>sw_closed := insert x (sw_closed w)\<rparr>)"
| unlock: "op_step t (Unlock x) w [] (w\<lparr>sw_lock := (sw_lock w)(x := None)\<rparr>)"

inductive stream_step :: "'m streams \<Rightarrow> 'm streams \<Rightarrow> bool" where
  work: "ops_of (sw_pc w t) = c # k \<Longrightarrow> op_step t c w cs w' \<Longrightarrow>
    stream_step w (goto t (with_ops (cs @ k) (sw_pc w t)) w')"
| lock_service: "sw_pc w t = WaitService ops a \<Longrightarrow> sw_service w = None \<Longrightarrow>
    stream_step w (goto t (InService ops a) (w\<lparr>sw_service := Some t\<rparr>))"
| unlock_service: "sw_pc w t = InService [] a \<Longrightarrow>
    stream_step w (goto t (case a of None \<Rightarrow> Idle | Some x \<Rightarrow> Select x) (w\<lparr>sw_service := None\<rparr>))"
| hand_over: "ops_of (sw_pc w t) = SendBlocked x m # k \<Longrightarrow> x \<notin> sw_channel w \<Longrightarrow> sw_pc w r = Select x \<Longrightarrow>
    stream_step w (goto r (Deliver x m) (goto t (with_ops (Unlock x # k) (sw_pc w t)) w))"
| deliver: "sw_pc w r = Deliver x m \<Longrightarrow> stream_step w (goto r (Select x) (w\<lparr>sw_sent := sw_sent w @ [(x, m)]\<rparr>))"
| deliver_fails: "sw_pc w r = Deliver x m \<Longrightarrow> stream_step w (goto r (Leave [CloseLock x]) w)"
| channel_closed: "sw_pc w r = Select x \<Longrightarrow> x \<in> sw_channel w \<Longrightarrow> stream_step w (goto r (Leave [CloseLock x]) w)"
| context_done: "sw_pc w r = Select x \<Longrightarrow> x \<in> sw_done w \<Longrightarrow> stream_step w (goto r (Leave [CloseLock x]) w)"
| left: "sw_pc w r = Leave [] \<Longrightarrow> stream_step w (goto r Idle w)"

text \<open>
  What comes from outside: an idle thread starts a call, or the handler with a new stream, and the
  context of a client is done.
\<close>

inductive client_step :: "'m streams \<Rightarrow> 'm streams \<Rightarrow> bool" where
  start_send: "sw_pc w t = Idle \<Longrightarrow> client_step w (goto t (WaitService (send_to m ids) None) w)"
| start_close_by: "sw_pc w t = Idle \<Longrightarrow> client_step w (goto t (WaitService (close_by i) None) w)"
| start_close: "sw_pc w t = Idle \<Longrightarrow> client_step w (goto t (WaitService close_all None) w)"
| connect: "sw_pc w t = Idle \<Longrightarrow> x \<notin> sw_used w \<Longrightarrow>
    client_step w (goto t (WaitService (add_stream x i) (Some x)) (w\<lparr>sw_used := insert x (sw_used w)\<rparr>))"
| disconnect: "client_step w (w\<lparr>sw_done := insert x (sw_done w)\<rparr>)"

definition any_step :: "'m streams \<Rightarrow> 'm streams \<Rightarrow> bool" where
  "any_step w w' \<longleftrightarrow> stream_step w w' \<or> client_step w w'"

abbreviation stream_run :: "'m streams \<Rightarrow> 'm streams \<Rightarrow> bool" where
  "stream_run \<equiv> any_step\<^sup>*\<^sup>*"

inductive_cases op_stepE: "op_step t c w cs w'"
inductive_cases stream_stepE: "stream_step w w'"
inductive_cases client_stepE: "client_step w w'"

section \<open>Locks\<close>

text \<open>The stream whose mutex is held at a point of a call.\<close>

fun inside_op :: "'m op \<Rightarrow> nat option" where
  "inside_op (SendCheck x m) = Some x"
| "inside_op (SendBlocked x m) = Some x"
| "inside_op (CloseCheck x) = Some x"
| "inside_op (CloseSet x) = Some x"
| "inside_op (Unlock x) = Some x"
| "inside_op _ = None"

fun inside :: "'m op list \<Rightarrow> nat option" where
  "inside [] = None"
| "inside (c # _) = inside_op c"

definition outside :: "'m op list \<Rightarrow> bool" where
  "outside ops \<longleftrightarrow> list_all (\<lambda>c. inside_op c = None) ops"

fun waiting_ops :: "'m pc \<Rightarrow> 'm op list" where
  "waiting_ops (WaitService ops a) = ops"
| "waiting_ops p = tl (ops_of p)"

fun in_service :: "'m pc \<Rightarrow> bool" where
  "in_service (InService ops a) \<longleftrightarrow> True"
| "in_service p \<longleftrightarrow> False"

text \<open>
  The invariant: only the operation a thread is at holds the mutex of a stream, the mutexes are held by
  the threads that are at such an operation, and the flag of a stream tells, but for the moment between
  the two writes of \<open>Close\<close>, whether its channel is closed.
\<close>

definition locks_ok :: "'m streams \<Rightarrow> bool" where
  "locks_ok w \<longleftrightarrow>
     (\<forall>t. outside (waiting_ops (sw_pc w t))) \<and>
     (\<forall>x t. sw_lock w x = Some t \<longleftrightarrow> inside (ops_of (sw_pc w t)) = Some x) \<and>
     (\<forall>t. sw_service w = Some t \<longleftrightarrow> in_service (sw_pc w t))"

definition at_close_set :: "'m streams \<Rightarrow> nat \<Rightarrow> nat \<Rightarrow> bool" where
  "at_close_set w t x \<longleftrightarrow> (\<exists>k. ops_of (sw_pc w t) = CloseSet x # k)"

definition channels_ok :: "'m streams \<Rightarrow> bool" where
  "channels_ok w \<longleftrightarrow>
     sw_closed w \<subseteq> sw_channel w \<and> (\<forall>x\<in>sw_channel w - sw_closed w. \<exists>t. at_close_set w t x) \<and>
     (\<forall>t x. at_close_set w t x \<longrightarrow> x \<in> sw_channel w) \<and>
     (\<forall>t x m k. ops_of (sw_pc w t) = SendBlocked x m # k \<longrightarrow> x \<notin> sw_closed w) \<and> \<not> sw_panic w"

lemma ops_of_with_ops [simp]: "ops_of p = c # k \<Longrightarrow> ops_of (with_ops ops p) = ops"
  by (cases p) simp_all

lemma in_service_with_ops [simp]: "in_service (with_ops ops p) = in_service p"
  by (cases p) simp_all

lemma waiting_with_ops: "ops_of p = c # k \<Longrightarrow> waiting_ops (with_ops ops p) = tl ops \<and> waiting_ops p = k"
  by (cases p) simp_all

lemma goto_simps [simp]:
  "sw_pc (goto t p w) = (sw_pc w)(t := p)" "sw_service (goto t p w) = sw_service w" "sw_map (goto t p w) = sw_map w"
  "sw_lock (goto t p w) = sw_lock w" "sw_closed (goto t p w) = sw_closed w" "sw_channel (goto t p w) = sw_channel w"
  "sw_done (goto t p w) = sw_done w" "sw_used (goto t p w) = sw_used w" "sw_panic (goto t p w) = sw_panic w"
  by (simp_all add: goto_def)

lemma outside_simps [simp]: "outside []" "outside (c # ops) \<longleftrightarrow> inside_op c = None \<and> outside ops"
  "outside (xs @ ys) \<longleftrightarrow> outside xs \<and> outside ys"
  by (auto simp: outside_def)

lemma outside_inside: "outside ops \<Longrightarrow> inside ops = None"
  by (cases ops) simp_all

lemma outside_tl: "outside ops \<Longrightarrow> outside (tl ops)"
  by (cases ops) simp_all

lemma outside_map: "(\<And>i. inside_op (f i) = None) \<Longrightarrow> outside (map f xs)"
  by (induction xs) simp_all

lemma outside_calls [simp]:
  "outside (map (\<lambda>i. SendOne i m) ids)" "outside (map RemoveOne ids)" "outside (send_to m ids)"
  "outside (add_stream x i)" "outside (close_by i)" "outside close_all"
  by (simp_all add: outside_map send_to_def add_stream_def close_by_def close_all_def)

text \<open>What an operation does to the mutexes.\<close>

lemma op_step_frame:
  assumes "op_step t c w cs w'"
  shows "sw_pc w' = sw_pc w \<and> sw_service w' = sw_service w \<and> outside (tl cs) \<and> sw_used w' = sw_used w"
  using assms by (cases rule: op_step.cases) (simp_all add: outside_tl)

lemma op_step_locks:
  assumes "op_step t c w cs w'"
  obtains (idle) "inside_op c = None" "inside cs = None" "sw_lock w' = sw_lock w" "outside cs"
  | (lock) x where "inside_op c = None" "sw_lock w x = None" "inside cs = Some x" "sw_lock w' = (sw_lock w)(x := Some t)" "cs \<noteq> []"
  | (hold) x where "inside_op c = Some x" "inside cs = Some x" "sw_lock w' = sw_lock w" "cs \<noteq> []"
  | (free) x where "inside_op c = Some x" "cs = []" "sw_lock w' = (sw_lock w)(x := None)"
  | (panic) x m where "c = SendBlocked x m" "x \<in> sw_channel w"
  using assms
  by (cases rule: op_step.cases) (auto simp: outside_inside)


lemma channels_okD:
  assumes "channels_ok w"
  shows "x \<in> sw_closed w \<Longrightarrow> x \<in> sw_channel w" and "x \<in> sw_channel w \<Longrightarrow> x \<notin> sw_closed w \<Longrightarrow> \<exists>t. at_close_set w t x"
    and "at_close_set w t x \<Longrightarrow> x \<in> sw_channel w"
    and "ops_of (sw_pc w t) = SendBlocked x m # k \<Longrightarrow> x \<notin> sw_closed w" and "\<not> sw_panic w"
  using assms unfolding channels_ok_def by blast+

text \<open>The holder of a mutex sees the flag and the channel agree, unless it is between the two writes.\<close>

lemma holder_sees_open:
  assumes "locks_ok w" and "channels_ok w" and "inside (ops_of (sw_pc w t)) = Some x" and "\<not> at_close_set w t x"
    and "x \<notin> sw_closed w"
  shows "x \<notin> sw_channel w"
proof
  assume "x \<in> sw_channel w"
  with channels_okD(2) [OF assms(2)] assms(5) obtain t' where t': "at_close_set w t' x" by blast
  then have "inside (ops_of (sw_pc w t')) = Some x" by (auto simp: at_close_set_def)
  with assms(1,3) have "t' = t" unfolding locks_ok_def by (metis option.inject)
  with t' assms(4) show False by simp
qed

lemma locks_work:
  assumes "locks_ok w" and "channels_ok w" and "ops_of (sw_pc w t) = c # k" and "op_step t c w cs w'"
  shows "locks_ok (goto t (with_ops (cs @ k) (sw_pc w t)) w')"
proof -
  let ?p = "with_ops (cs @ k) (sw_pc w t)"
  note l = assms(1) [unfolded locks_ok_def]
  have f: "sw_pc w' = sw_pc w" "sw_service w' = sw_service w" "outside (tl cs)"
    using op_step_frame [OF assms(4)] by simp_all
  have k: "outside k" using l waiting_with_ops [OF assms(3)] by metis
  have ops: "ops_of ?p = cs @ k" "waiting_ops ?p = tl (cs @ k)" "in_service ?p = in_service (sw_pc w t)"
    using assms(3) waiting_with_ops [OF assms(3)] by simp_all
  have wait: "outside (waiting_ops ?p)" unfolding ops(2) using f(3) k by (cases cs) (simp_all add: outside_tl)
  have ins: "inside (ops_of (sw_pc w t)) = inside_op c" using assms(3) by simp
  have hd: "inside (cs @ k) = (if cs = [] then None else inside cs)"
    using outside_inside [OF k] by (cases cs) simp_all
  have no_panic: "x \<notin> sw_channel w" if "c = SendBlocked x m" for x m
  proof (rule holder_sees_open [OF assms(1,2)])
    show "inside (ops_of (sw_pc w t)) = Some x" "\<not> at_close_set w t x" using that assms(3) by (simp_all add: at_close_set_def)
    show "x \<notin> sw_closed w" using channels_okD(4) [OF assms(2)] assms(3) that by blast
  qed
  have lock: "sw_lock w' x = Some t' \<longleftrightarrow> inside (ops_of (((sw_pc w)(t := ?p)) t')) = Some x" for x t'
    using assms(4)
  proof (cases rule: op_step_locks)
    case idle
    then show ?thesis using l ins ops(1) hd by (cases "cs = []") auto
  next
    case (lock y)
    moreover have "inside (ops_of (sw_pc w t')) \<noteq> Some y" for t' using l lock(2) by (metis option.distinct(1))
    ultimately show ?thesis using l ins ops(1) hd by auto
  next
    case (hold y)
    then show ?thesis using l ins ops(1) hd by auto
  next
    case (free y)
    then show ?thesis using l ins ops(1) hd by (cases "t' = t"; cases "x = y") (auto, metis option.inject)
  next
    case (panic y m)
    then show ?thesis using no_panic by blast
  qed
  show ?thesis
    unfolding locks_ok_def using wait lock l f ops(3) by auto
qed


lemma channels_work:
  assumes "locks_ok w" and "channels_ok w" and "ops_of (sw_pc w t) = c # k" and "op_step t c w cs w'"
  shows "channels_ok (goto t (with_ops (cs @ k) (sw_pc w t)) w')"
proof -
  let ?w = "goto t (with_ops (cs @ k) (sw_pc w t)) w'"
  note ch = channels_okD [OF assms(2)]
  have k: "outside k" using assms(1) waiting_with_ops [OF assms(3)] unfolding locks_ok_def by metis
  have pc: "ops_of (sw_pc ?w t) = cs @ k" "\<And>t'. t' \<noteq> t \<Longrightarrow> ops_of (sw_pc ?w t') = ops_of (sw_pc w t')"
    using op_step_frame [OF assms(4)] assms(3) by simp_all
  have other: "at_close_set ?w t' x \<longleftrightarrow> at_close_set w t' x" if "t' \<noteq> t" for t' x
    using pc(2) [OF that] by (simp add: at_close_set_def)
  have self: "at_close_set ?w t x \<longleftrightarrow> (\<exists>l. cs @ k = CloseSet x # l)" "at_close_set w t x \<longleftrightarrow> c = CloseSet x" for x
    using pc(1) assms(3) by (auto simp: at_close_set_def)
  have kc: "k \<noteq> CloseSet x # l" "k \<noteq> SendBlocked x m # l" for x m l using k by auto
  have seen: "x \<notin> sw_channel w" if "inside_op c = Some x" "c \<noteq> CloseSet x" "x \<notin> sw_closed w" for x
    using holder_sees_open [OF assms(1,2), of t x] that assms(3) self(2) by simp
  have blocked: "x \<notin> sw_closed w" if "t' \<noteq> t" "ops_of (sw_pc ?w t') = SendBlocked x m # l" for t' x m l
    using pc(2) [OF that(1)] that(2) ch(4) by simp
  have quiet: "channels_ok ?w" if same: "sw_channel w' = sw_channel w" "sw_closed w' = sw_closed w" "sw_panic w' = sw_panic w"
    and c: "\<And>x. c \<noteq> CloseSet x" and cs: "\<And>x l. cs @ k \<noteq> CloseSet x # l"
    and b: "\<And>x m l. cs @ k = SendBlocked x m # l \<Longrightarrow> x \<notin> sw_closed w"
    unfolding channels_ok_def
  proof (intro conjI ballI allI impI)
    show "sw_closed ?w \<subseteq> sw_channel ?w" "\<not> sw_panic ?w" using ch(1,5) same by auto
  next
    fix x assume "x \<in> sw_channel ?w - sw_closed ?w"
    then have "\<exists>t'. at_close_set w t' x" using same by (intro ch(2)) simp_all
    then obtain t' where "at_close_set w t' x" ..
    then show "\<exists>t. at_close_set ?w t x" using c self(2) other by (metis (no_types))
  next
    fix t' x assume "at_close_set ?w t' x"
    then show "x \<in> sw_channel ?w" using ch(3) same other self(1) cs by (cases "t' = t") auto
  next
    fix t' x m l assume "ops_of (sw_pc ?w t') = SendBlocked x m # l"
    moreover have "cs @ k = SendBlocked x m # l" if "t' = t" using calculation pc(1) that by simp
    ultimately show "x \<notin> sw_closed ?w" using blocked [of t' x m l] b [of x m l] same by (cases "t' = t") simp_all
  qed
  have hd: "inside_op c = None \<Longrightarrow> outside cs \<Longrightarrow> channels_ok ?w"
    if "sw_channel w' = sw_channel w" "sw_closed w' = sw_closed w" "sw_panic w' = sw_panic w"
    by (rule quiet [OF that]) (use k kc in \<open>cases cs; auto\<close>)+
  text \<open>The three writes of \<open>Close\<close>.\<close>
  have close: "channels_ok ?w" if y: "sw_closed w' = sw_closed w" "sw_panic w' = sw_panic w"
      "sw_channel w' = insert y (sw_channel w)" "cs = [CloseSet y]" "c = CloseCheck y" for y
    unfolding channels_ok_def
  proof (intro conjI ballI allI impI)
    show "sw_closed ?w \<subseteq> sw_channel ?w" "\<not> sw_panic ?w" using ch(1,5) y by auto
  next
    fix x assume x: "x \<in> sw_channel ?w - sw_closed ?w"
    show "\<exists>t. at_close_set ?w t x"
    proof (cases "x = y")
      case True
      then show ?thesis using y(4) self(1) by auto
    next
      case False
      with x y obtain t' where "at_close_set w t' x" using ch(2) [of x] by auto
      moreover have "t' \<noteq> t" using calculation self(2) y(5) by auto
      ultimately show ?thesis using other by blast
    qed
  next
    fix t' x assume "at_close_set ?w t' x"
    then show "x \<in> sw_channel ?w" using ch(3) y other self(1) by (cases "t' = t") auto
  next
    fix t' x m l assume "ops_of (sw_pc ?w t') = SendBlocked x m # l"
    then show "x \<notin> sw_closed ?w" using blocked [of t' x m l] pc(1) y by (cases "t' = t") auto
  qed
  from assms(4) show ?thesis
  proof (cases rule: op_step.cases)
    case (send_open x m)
    with seen ch(1) show ?thesis by (intro quiet) (auto simp: kc)
  next
    case (send_panic x m)
    have "x \<notin> sw_closed w" using ch(4) assms(3) send_panic by blast
    with seen [of x] send_panic show ?thesis by simp
  next
    case (close_open x)
    with seen [of x] show ?thesis by (intro close) simp_all
  next
    case (close_twice x)
    with ch(1) [of x] show ?thesis by (intro close) auto
  next
    case (close_set x)
    have x: "x \<in> sw_channel w" using ch(3) [of t x] self(2) close_set by simp
    have in_x: "inside (ops_of (sw_pc w t')) \<noteq> Some x" if "t' \<noteq> t" for t'
      using assms(1,3) that close_set unfolding locks_ok_def by (metis inside.simps(2) inside_op.simps(4) option.inject)
    show ?thesis
      unfolding channels_ok_def
    proof (intro conjI ballI allI impI)
      show "sw_closed ?w \<subseteq> sw_channel ?w" "\<not> sw_panic ?w" using ch(1,5) x close_set by auto
    next
      fix y assume y: "y \<in> sw_channel ?w - sw_closed ?w"
      then obtain t' where "at_close_set w t' y" using ch(2) [of y] close_set by auto
      moreover have "t' \<noteq> t" using calculation self(2) y close_set by auto
      ultimately show "\<exists>t. at_close_set ?w t y" using other by blast
    next
      fix t' y assume "at_close_set ?w t' y"
      then show "y \<in> sw_channel ?w" using ch(3) close_set other self(1) kc by (cases "t' = t") auto
    next
      fix t' y m l assume b: "ops_of (sw_pc ?w t') = SendBlocked y m # l"
      have "t' \<noteq> t" using b pc(1) close_set by auto
      with b blocked [of t' y m l] in_x [of t'] pc(2) [of t'] close_set show "y \<notin> sw_closed ?w" by auto
    qed
  qed ((rule hd; force) | (rule quiet; force simp: kc))+
qed

text \<open>The other steps: the mutex of the service, the hand over of a message, and what clients do.\<close>

lemma channels_change:
  assumes "channels_ok w" and "\<And>x k. ops_of (sw_pc w t) \<noteq> CloseSet x # k"
    and "\<And>x k. ops_of p \<noteq> CloseSet x # k" and "\<And>x m k. ops_of p \<noteq> SendBlocked x m # k"
  shows "channels_ok (goto t p w)"
proof -
  have "at_close_set (goto t p w) t' x \<longleftrightarrow> at_close_set w t' x" for t' x
    using assms(2,3) by (cases "t' = t") (simp_all add: at_close_set_def)
  with assms(1,4) show ?thesis unfolding channels_ok_def by simp
qed

lemma pc_change:
  assumes "locks_ok w" and "channels_ok w" and "inside (ops_of (sw_pc w t)) = None" and "inside (ops_of p) = None"
    and "outside (waiting_ops p)" and "in_service p \<longleftrightarrow> in_service (sw_pc w t)"
  shows "locks_ok (goto t p w) \<and> channels_ok (goto t p w)"
proof
  show "locks_ok (goto t p w)" using assms unfolding locks_ok_def by simp
  show "channels_ok (goto t p w)" using assms by (intro channels_change) auto
qed

lemma other_fields:
  "locks_ok (w\<lparr>sw_sent := a\<rparr>) = locks_ok w" "channels_ok (w\<lparr>sw_sent := a\<rparr>) = channels_ok w"
  "locks_ok (w\<lparr>sw_done := b\<rparr>) = locks_ok w" "channels_ok (w\<lparr>sw_done := b\<rparr>) = channels_ok w"
  "locks_ok (w\<lparr>sw_used := b\<rparr>) = locks_ok w" "channels_ok (w\<lparr>sw_used := b\<rparr>) = channels_ok w"
  "channels_ok (w\<lparr>sw_service := c\<rparr>) = channels_ok w"
  by (simp_all add: locks_ok_def channels_ok_def at_close_set_def)

lemma hand_over_ok:
  assumes "locks_ok w" and "channels_ok w" and "ops_of (sw_pc w t) = SendBlocked x m # k" and "sw_pc w r = Select x"
  shows "locks_ok (goto r (Deliver x m) (goto t (with_ops (Unlock x # k) (sw_pc w t)) w)) \<and>
    channels_ok (goto r (Deliver x m) (goto t (with_ops (Unlock x # k) (sw_pc w t)) w))"
proof -
  let ?p = "with_ops (Unlock x # k) (sw_pc w t)" and ?w = "goto t (with_ops (Unlock x # k) (sw_pc w t)) w"
  have rt: "r \<noteq> t" using assms(3,4) by auto
  have p: "ops_of ?p = Unlock x # k" "waiting_ops ?p = waiting_ops (sw_pc w t)" "in_service ?p = in_service (sw_pc w t)"
    using assms(3) waiting_with_ops [OF assms(3)] by simp_all
  have "locks_ok ?w" using assms(1,3) p unfolding locks_ok_def by auto
  moreover have "channels_ok ?w"
  proof -
    have "at_close_set ?w t' y \<longleftrightarrow> at_close_set w t' y" for t' y
      using assms(3) p(1) by (cases "t' = t") (simp_all add: at_close_set_def)
    then show ?thesis using assms(2) p(1) unfolding channels_ok_def by simp
  qed
  ultimately show ?thesis using rt assms(4) by (intro pc_change) simp_all
qed

lemma service_ok:
  assumes "locks_ok w" and "channels_ok w"
  shows "sw_pc w t = WaitService ops a \<Longrightarrow> sw_service w = None \<Longrightarrow> outside ops \<Longrightarrow>
      locks_ok (goto t (InService ops a) (w\<lparr>sw_service := Some t\<rparr>)) \<and>
      channels_ok (goto t (InService ops a) (w\<lparr>sw_service := Some t\<rparr>))"
    and "sw_pc w t = InService [] a \<Longrightarrow> p = Idle \<or> (\<exists>x. p = Select x) \<Longrightarrow>
      locks_ok (goto t p (w\<lparr>sw_service := None\<rparr>)) \<and> channels_ok (goto t p (w\<lparr>sw_service := None\<rparr>))"
proof -
  assume t: "sw_pc w t = WaitService ops a" "sw_service w = None" "outside ops"
  have free: "\<not> in_service (sw_pc w t')" for t' using assms(1) t(2) unfolding locks_ok_def by (metis option.distinct(1))
  have "locks_ok (goto t (InService ops a) (w\<lparr>sw_service := Some t\<rparr>))"
    using assms(1) t(1,3) free unfolding locks_ok_def by (auto simp: outside_inside outside_tl)
  moreover have "channels_ok (goto t (InService ops a) (w\<lparr>sw_service := Some t\<rparr>))"
    using assms(2) t by (intro channels_change) (auto simp: other_fields)
  ultimately show "locks_ok (goto t (InService ops a) (w\<lparr>sw_service := Some t\<rparr>)) \<and>
      channels_ok (goto t (InService ops a) (w\<lparr>sw_service := Some t\<rparr>))" by simp
next
  assume t: "sw_pc w t = InService [] a" and p: "p = Idle \<or> (\<exists>x. p = Select x)"
  have alone: "in_service (sw_pc w t') \<longleftrightarrow> t' = t" for t'
    using assms(1) t unfolding locks_ok_def by (metis in_service.simps(1) option.inject)
  have "locks_ok (goto t p (w\<lparr>sw_service := None\<rparr>))"
    using assms(1) t p alone unfolding locks_ok_def by auto
  moreover have "channels_ok (goto t p (w\<lparr>sw_service := None\<rparr>))"
    using assms(2) t p by (intro channels_change) (auto simp: other_fields)
  ultimately show "locks_ok (goto t p (w\<lparr>sw_service := None\<rparr>)) \<and> channels_ok (goto t p (w\<lparr>sw_service := None\<rparr>))" by simp
qed

lemma steps_ok:
  assumes "locks_ok w" and "channels_ok w" and "any_step w w'"
  shows "locks_ok w' \<and> channels_ok w'"
  using assms(3) unfolding any_step_def
proof
  assume "stream_step w w'"
  then show ?thesis
  proof (cases rule: stream_step.cases)
    case (work t c k cs w1)
    then show ?thesis using locks_work [OF assms(1,2)] channels_work [OF assms(1,2)] by blast
  next
    case (lock_service t ops a)
    then have "outside ops" using assms(1) unfolding locks_ok_def by (metis waiting_ops.simps(1))
    then show ?thesis using lock_service service_ok(1) [OF assms(1,2)] by simp
  next
    case (unlock_service t a)
    then show ?thesis using service_ok(2) [OF assms(1,2)] by (simp split: option.split)
  next
    case (hand_over t x m k r)
    then show ?thesis using hand_over_ok [OF assms(1,2)] by blast
  qed (hypsubst, rule pc_change; simp add: assms other_fields)+
next
  assume "client_step w w'"
  then show ?thesis
  proof (cases rule: client_step.cases)
    case (disconnect x)
    then show ?thesis by (simp add: assms other_fields)
  qed (hypsubst, rule pc_change; simp add: assms other_fields)+
qed


section \<open>Streams in use\<close>

fun op_stream :: "'m op \<Rightarrow> nat option" where
  "op_stream (SetStream i x) = Some x"
| "op_stream (SendLock x m) = Some x"
| "op_stream (CloseLock x) = Some x"
| "op_stream c = inside_op c"

fun all_ops :: "'m pc \<Rightarrow> 'm op list" where
  "all_ops (WaitService ops a) = ops"
| "all_ops p = ops_of p"

text \<open>The stream that a thread runs, or will run after its call.\<close>

fun runs :: "'m pc \<Rightarrow> nat option" where
  "runs (WaitService ops a) = a"
| "runs (InService ops a) = a"
| "runs (Select x) = Some x"
| "runs (Deliver x m) = Some x"
| "runs p = None"

definition used_ok :: "'m streams \<Rightarrow> bool" where
  "used_ok w \<longleftrightarrow>
     finite (dom (sw_map w)) \<and> ran (sw_map w) \<subseteq> sw_used w \<and>
     (\<forall>t x. runs (sw_pc w t) = Some x \<longrightarrow> x \<in> sw_used w) \<and>
     (\<forall>t c x. c \<in> set (all_ops (sw_pc w t)) \<longrightarrow> op_stream c = Some x \<longrightarrow> x \<in> sw_used w)"

lemma runs_with_ops [simp]: "runs (with_ops ops p) = runs p"
  by (cases p) simp_all

lemma all_ops_with_ops [simp]: "ops_of p = c # k \<Longrightarrow> all_ops (with_ops ops p) = ops \<and> all_ops p = c # k"
  by (cases p) simp_all

lemma op_stream_calls [simp]:
  "c \<in> set (send_to m ids) \<Longrightarrow> op_stream c = None" "c \<in> set (close_by i) \<Longrightarrow> op_stream c = None"
  "c \<in> set close_all \<Longrightarrow> op_stream c = None"
  by (auto simp: send_to_def close_by_def close_all_def split: if_splits)

lemma used_goto:
  assumes "used_ok w" and "\<And>x. runs p = Some x \<Longrightarrow> x \<in> sw_used w"
    and "\<And>c x. c \<in> set (all_ops p) \<Longrightarrow> op_stream c = Some x \<Longrightarrow> x \<in> sw_used w"
  shows "used_ok (goto t p w)"
  using assms unfolding used_ok_def by auto

lemma op_step_used:
  assumes "used_ok w" and "op_step t c w cs w'" and "\<And>x. op_stream c = Some x \<Longrightarrow> x \<in> sw_used w"
  shows "used_ok w' \<and> (\<forall>d y. d \<in> set cs \<longrightarrow> op_stream d = Some y \<longrightarrow> y \<in> sw_used w)"
proof -
  have ran: "sw_map w i = Some x \<Longrightarrow> x \<in> sw_used w" for i x
    using assms(1) by (auto simp: used_ok_def ran_def)
  have cut: "ran ((sw_map w)(i := None)) \<subseteq> ran (sw_map w)" for i by (auto simp: ran_def)
  from assms(2) show ?thesis
  proof (cases rule: op_step.cases)
    case (forget i)
    then show ?thesis using assms(1) cut [of i] by (auto simp: used_ok_def)
  next
    case (set_stream i x)
    have "ran ((sw_map w)(i \<mapsto> x)) \<subseteq> insert x (ran (sw_map w))" by (auto simp: ran_def)
    with set_stream show ?thesis using assms(1) assms(3) [of x] by (auto simp: used_ok_def)
  qed (use assms(1) assms(3) ran in \<open>auto simp: used_ok_def\<close>)
qed

lemma used_step:
  assumes "used_ok w" and "any_step w w'"
  shows "used_ok w'"
proof -
  have u: "runs (sw_pc w t) = Some x \<Longrightarrow> x \<in> sw_used w"
    "c \<in> set (all_ops (sw_pc w t)) \<Longrightarrow> op_stream c = Some x \<Longrightarrow> x \<in> sw_used w" for t c x
    using assms(1) unfolding used_ok_def by blast+
  have run: "sw_pc w r = Select x \<Longrightarrow> x \<in> sw_used w" "sw_pc w r = Deliver x m \<Longrightarrow> x \<in> sw_used w" for r x m
    using u(1) [of r x] by simp_all
  have f: "used_ok (w\<lparr>sw_service := a\<rparr>)" "used_ok (w\<lparr>sw_sent := b\<rparr>)" "used_ok (w\<lparr>sw_done := c\<rparr>)"
    "used_ok (w\<lparr>sw_used := insert x (sw_used w)\<rparr>)" for a b c x
    using assms(1) by (auto simp: used_ok_def)
  from assms(2) show ?thesis
    unfolding any_step_def
  proof
    assume "stream_step w w'"
    then show ?thesis
    proof (cases rule: stream_step.cases)
      case (work t c k cs w1)
      have c: "op_stream c = Some x \<Longrightarrow> x \<in> sw_used w" for x using u(2) [of c t x] work by simp
      have w1: "used_ok w1" "sw_used w1 = sw_used w" "sw_pc w1 = sw_pc w"
        using op_step_used [OF assms(1) work(3) c] op_step_frame [OF work(3)] by simp_all
      have ops: "all_ops (with_ops (cs @ k) (sw_pc w t)) = cs @ k" "all_ops (sw_pc w t) = c # k" using work by simp_all
      have "used_ok (goto t (with_ops (cs @ k) (sw_pc w t)) w1)"
        using u(1) [of t] u(2) [of _ t] op_step_used [OF assms(1) work(3) c] w1(2) ops
        by (intro used_goto [OF w1(1)]) auto
      with work show ?thesis by simp
    next
      case (lock_service t ops a)
      then show ?thesis using u(1) [of t] u(2) [of _ t] by (auto intro!: used_goto f)
    next
      case (unlock_service t a)
      then show ?thesis using u(1) [of t] u(2) [of _ t] by (auto intro!: used_goto f split: option.splits)
    next
      case (hand_over t x m k r)
      have "x \<in> sw_used w" using u(1) [of r x] hand_over by simp
      then have "used_ok (goto t (with_ops (Unlock x # k) (sw_pc w t)) w)"
        using u(1) [of t] u(2) [of _ t] hand_over by (intro used_goto [OF assms(1)]) auto
      then show ?thesis using hand_over u(1) [of r] by (auto intro!: used_goto)
    qed (hypsubst, rule used_goto; use run in \<open>auto intro: f assms(1)\<close>)+
  next
    assume "client_step w w'"
    then show ?thesis
      by (cases rule: client_step.cases) (auto intro!: used_goto f assms(1) simp: add_stream_def)
  qed
qed

text \<open>The states that can be reached.\<close>

lemma reached_ok:
  assumes "stream_run no_streams w"
  shows "locks_ok w \<and> channels_ok w \<and> used_ok w"
  using assms
proof (induction rule: rtranclp_induct)
  case base
  then show ?case
    by (simp add: locks_ok_def channels_ok_def used_ok_def no_streams_def at_close_set_def)
next
  case (step w w')
  then show ?case using steps_ok [of w w'] used_step [of w w'] by blast
qed

section \<open>Stuck threads\<close>

text \<open>A sender waits at the channel of a stream that nobody runs, nor will run.\<close>

definition deserted :: "'m streams \<Rightarrow> nat \<Rightarrow> nat \<Rightarrow> 'm pc \<Rightarrow> bool" where
  "deserted w t x p \<longleftrightarrow>
     sw_pc w t = p \<and> (\<exists>m k a. p = InService (SendBlocked x m # k) a) \<and> (\<forall>r. runs (sw_pc w r) \<noteq> Some x)"

lemma deserted_step:
  assumes "locks_ok w" and "channels_ok w" and "used_ok w" and "deserted w t x p" and "any_step w w'"
  shows "deserted w' t x p \<and> (\<forall>r ops b. sw_pc w r = WaitService ops b \<longrightarrow> sw_pc w' r = WaitService ops b)"
proof -
  from assms(4) obtain m k a where t: "sw_pc w t = p" "p = InService (SendBlocked x m # k) a"
    and nobody: "\<And>r. runs (sw_pc w r) \<noteq> Some x" by (auto simp: deserted_def)
  have service: "sw_service w = Some t" using assms(1) t unfolding locks_ok_def by simp
  have x: "x \<notin> sw_channel w"
  proof (rule holder_sees_open [OF assms(1,2)])
    show "inside (ops_of (sw_pc w t)) = Some x" "\<not> at_close_set w t x" using t by (simp_all add: at_close_set_def)
    show "x \<notin> sw_closed w" using channels_okD(4) [OF assms(2), of t x m k] t by simp
  qed
  have "SendBlocked x m \<in> set (all_ops (sw_pc w t))" by (simp add: t)
  moreover have "op_stream (SendBlocked x m) = Some x" by simp
  ultimately have used: "x \<in> sw_used w" using assms(3) unfolding used_ok_def by blast
  have nobody': "sw_pc w r \<noteq> Select x" "sw_pc w r \<noteq> Deliver x m'" for r m' using nobody [of r] by auto
  have keep: "deserted (goto r q v) t x p \<and>
      (\<forall>s ops b. sw_pc w s = WaitService ops b \<longrightarrow> sw_pc (goto r q v) s = WaitService ops b)"
    if "sw_pc v = sw_pc w" "r \<noteq> t" "runs q \<noteq> Some x" "\<And>ops b. sw_pc w r \<noteq> WaitService ops b" for r q v
    using that t nobody by (auto simp: deserted_def)
  from assms(5) show ?thesis
    unfolding any_step_def
  proof
    assume "stream_step w w'"
    then show ?thesis
    proof (cases rule: stream_step.cases)
      case (work s c k' cs w1)
      have "s \<noteq> t"
      proof
        assume "s = t"
        with work t have "op_step t (SendBlocked x m) w cs w1" by simp
        then show False using x by (cases rule: op_step.cases) simp_all
      qed
      moreover have "sw_pc w s \<noteq> WaitService ops b" for ops b using work(2) by auto
      ultimately have "deserted (goto s (with_ops (cs @ k') (sw_pc w s)) w1) t x p \<and> (\<forall>r ops b. sw_pc w r = WaitService ops b \<longrightarrow>
          sw_pc (goto s (with_ops (cs @ k') (sw_pc w s)) w1) r = WaitService ops b)"
        using op_step_frame [OF work(3)] nobody [of s] by (intro keep) simp_all
      with work(1) show ?thesis by simp
    next
      case (lock_service s ops a)
      then show ?thesis using service by simp
    next
      case (unlock_service s b)
      have "in_service (sw_pc w s)" using unlock_service by simp
      then have "sw_service w = Some s" using assms(1) unfolding locks_ok_def by blast
      with service t unlock_service show ?thesis by simp
    next
      case (hand_over s y m' k' r)
      have "y \<noteq> x" using nobody [of r] hand_over by auto
      with t hand_over have "s \<noteq> t" by auto
      moreover have "r \<noteq> t" using t hand_over by auto
      moreover have "sw_pc w s \<noteq> WaitService ops b" for ops b using hand_over(2) by auto
      ultimately show ?thesis
        using hand_over t nobody \<open>y \<noteq> x\<close> by (auto simp: deserted_def)
    qed (hypsubst, rule keep; use t nobody' in \<open>auto\<close>)+
  next
    assume "client_step w w'"
    then show ?thesis
    proof (cases rule: client_step.cases)
      case (disconnect y)
      then show ?thesis using t nobody by (simp add: deserted_def)
    qed (hypsubst, rule keep; use t used in \<open>auto\<close>)+
  qed
qed


lemma run_no_streams: "stream_run no_streams w \<Longrightarrow> any_step w w' \<Longrightarrow> stream_run no_streams w'"
  by (rule rtranclp.rtrancl_into_rtrancl)

text \<open>
  C17: No sequence of calls of the service, of clients that come and go and of failing sends makes the code
  panic by sending on a closed channel or by closing a channel twice; at any time one thread at most holds
  the mutex of the service, and one at most that of a stream.
\<close>

theorem stream_no_panic:
  assumes "stream_run no_streams w"
  shows "\<not> sw_panic w \<and> (in_service (sw_pc w t) \<and> in_service (sw_pc w t') \<longrightarrow> t = t') \<and>
    (inside (ops_of (sw_pc w t)) = Some x \<and> inside (ops_of (sw_pc w t')) = Some x \<longrightarrow> t = t')"
proof -
  have ok: "locks_ok w" "channels_ok w" using reached_ok [OF assms] by simp_all
  show ?thesis
    using ok(1) channels_okD(5) [OF ok(2)] unfolding locks_ok_def by (metis option.inject)
qed

text \<open>
  C18: A thread that sends to a stream which nobody runs any more is stuck for ever, whatever else
  happens: it keeps the mutex of the service, so every call of the service that waits for it waits for
  ever too.
\<close>

theorem stream_deadlock:
  assumes "stream_run no_streams w" and "deserted w t x p" and "stream_run w w'"
  shows "sw_pc w' t = p \<and> sw_service w' = Some t \<and>
    (\<forall>r ops b. sw_pc w r = WaitService ops b \<longrightarrow> sw_pc w' r = WaitService ops b)"
proof -
  have "stream_run no_streams w' \<and> deserted w' t x p \<and>
      (\<forall>r ops b. sw_pc w r = WaitService ops b \<longrightarrow> sw_pc w' r = WaitService ops b)"
    using assms(3)
  proof (induction rule: rtranclp_induct)
    case base
    then show ?case using assms(1,2) by simp
  next
    case (step v v')
    then have v: "stream_run no_streams v" "deserted v t x p" by simp_all
    have "deserted v' t x p \<and> (\<forall>r ops b. sw_pc v r = WaitService ops b \<longrightarrow> sw_pc v' r = WaitService ops b)"
      using deserted_step [OF _ _ _ v(2) step.hyps(2)] reached_ok [OF v(1)] by simp
    then show ?case using step run_no_streams [OF v(1) step.hyps(2)] by simp
  qed
  moreover from this have "sw_service w' = Some t"
    using reached_ok [of w'] unfolding locks_ok_def deserted_def by auto
  ultimately show ?thesis by (simp add: deserted_def)
qed

text \<open>
  Such a thread: client 0 connects as user 5; while a result for that user is sent to it, its context is
  done, and the stream leaves its loop before the sender is at the channel.
\<close>

definition st :: "nat option \<Rightarrow> nat option \<Rightarrow> nat set \<Rightarrow> nat pc \<Rightarrow> nat pc \<Rightarrow> nat pc \<Rightarrow> (u64 \<rightharpoonup> nat) \<Rightarrow> nat streams" where
  "st s l d p0 p1 p2 m = \<lparr>sw_service = s, sw_map = m, sw_lock = (\<lambda>x. None)(0 := l), sw_closed = {}, sw_channel = {},
     sw_done = d, sw_used = {0}, sw_sent = [], sw_panic = False, sw_pc = (\<lambda>t. Idle)(0 := p0, 1 := p1, 2 := p2)\<rparr>"

lemma st_simps [simp]:
  "sw_service (st s l d p0 p1 p2 m) = s" "sw_map (st s l d p0 p1 p2 m) = m" "sw_lock (st s l d p0 p1 p2 m) 0 = l"
  "sw_closed (st s l d p0 p1 p2 m) = {}" "sw_channel (st s l d p0 p1 p2 m) = {}" "sw_done (st s l d p0 p1 p2 m) = d"
  "sw_pc (st s l d p0 p1 p2 m) 0 = p0" "sw_pc (st s l d p0 p1 p2 m) (Suc 0) = p1" "sw_pc (st s l d p0 p1 p2 m) 2 = p2"
  by (simp_all add: st_def)

lemma st_goto [simp]:
  "goto 0 q (st s l d p0 p1 p2 m) = st s l d q p1 p2 m" "goto (Suc 0) q (st s l d p0 p1 p2 m) = st s l d p0 q p2 m"
  "goto 2 q (st s l d p0 p1 p2 m) = st s l d p0 p1 q m"
  "st s l d p0 p1 p2 m\<lparr>sw_service := s'\<rparr> = st s' l d p0 p1 p2 m" "st s l d p0 p1 p2 m\<lparr>sw_map := m'\<rparr> = st s l d p0 p1 p2 m'"
  "st s l d p0 p1 p2 m\<lparr>sw_done := d'\<rparr> = st s l d' p0 p1 p2 m"
  "st s l d p0 p1 p2 m\<lparr>sw_lock := (sw_lock (st s l d p0 p1 p2 m))(0 := l')\<rparr> = st s l' d p0 p1 p2 m"
  by (auto simp: st_def goto_def fun_eq_iff)

lemma st_work: "ops_of (sw_pc (st s l d p0 p1 p2 m) t) = c # k \<Longrightarrow> op_step t c (st s l d p0 p1 p2 m) cs w \<Longrightarrow>
    w' = goto t (with_ops (cs @ k) (sw_pc (st s l d p0 p1 p2 m) t)) w \<Longrightarrow> any_step (st s l d p0 p1 p2 m) w'"
  unfolding any_step_def by (auto intro: stream_step.work)

lemma stuck_client:
  "stream_run no_streams (st (Some 1) (Some 1) {0} (Leave [CloseLock 0]) (InService [SendBlocked 0 7] None) (WaitService [RemoveOne 5] None) [5 \<mapsto> 0])"
  (is "stream_run _ ?w")
proof -
  let ?i = "InService" and ?m = "[5 \<mapsto> 0] :: u64 \<rightharpoonup> nat"
  have "any_step no_streams (st None None {} (WaitService (add_stream 0 5) (Some 0)) Idle Idle Map.empty)"
    using client_step.connect [of "no_streams :: nat streams" 0 0 5]
    by (simp add: any_step_def no_streams_def st_def goto_def fun_upd_idem fun_upd_def if_distrib cong: if_cong)
  moreover have "any_step (st None None {} (WaitService (add_stream 0 5) (Some 0)) Idle Idle Map.empty)
      (st (Some 0) None {} (?i [RemoveOne 5, SetStream 5 0] (Some 0)) Idle Idle Map.empty)"
    using stream_step.lock_service [of "st None None {} (WaitService (add_stream 0 5) (Some 0)) Idle Idle Map.empty" 0]
    by (simp add: any_step_def add_stream_def)
  moreover have "any_step (st (Some 0) None {} (?i [RemoveOne 5, SetStream 5 0] (Some 0)) Idle Idle Map.empty)
      (st (Some 0) None {} (?i [SetStream 5 0] (Some 0)) Idle Idle Map.empty)"
    by (rule st_work [where t = 0], simp, rule op_step.remove_none) simp_all
  moreover have "any_step (st (Some 0) None {} (?i [SetStream 5 0] (Some 0)) Idle Idle Map.empty)
      (st (Some 0) None {} (?i [] (Some 0)) Idle Idle ?m)"
    by (rule st_work [where t = 0], simp, rule op_step.set_stream) simp_all
  moreover have "any_step (st (Some 0) None {} (?i [] (Some 0)) Idle Idle ?m) (st None None {} (Select 0) Idle Idle ?m)"
    using stream_step.unlock_service [of "st (Some 0) None {} (?i [] (Some 0)) Idle Idle ?m" 0] by (simp add: any_step_def)
  moreover have "any_step (st None None {} (Select 0) Idle Idle ?m) (st None None {} (Select 0) (WaitService [SendOne 5 7] None) Idle ?m)"
    using client_step.start_send [of "st None None {} (Select 0) Idle Idle ?m" "Suc 0" 7 "[5]"] by (simp add: any_step_def send_to_def)
  moreover have "any_step (st None None {} (Select 0) (WaitService [SendOne 5 7] None) Idle ?m)
      (st (Some 1) None {} (Select 0) (?i [SendOne 5 7] None) Idle ?m)"
    using stream_step.lock_service [of "st None None {} (Select 0) (WaitService [SendOne 5 7] None) Idle ?m" "Suc 0"]
    by (simp add: any_step_def)
  moreover have "any_step (st (Some 1) None {} (Select 0) (?i [SendOne 5 7] None) Idle ?m)
      (st (Some 1) None {} (Select 0) (?i [SendLock 0 7] None) Idle ?m)"
    by (rule st_work [where t = 1], simp, rule op_step.send_found) simp_all
  moreover have "any_step (st (Some 1) None {} (Select 0) (?i [SendLock 0 7] None) Idle ?m)
      (st (Some 1) (Some 1) {} (Select 0) (?i [SendCheck 0 7] None) Idle ?m)"
    by (rule st_work [where t = 1], simp, rule op_step.send_lock) simp_all
  moreover have "any_step (st (Some 1) (Some 1) {} (Select 0) (?i [SendCheck 0 7] None) Idle ?m)
      (st (Some 1) (Some 1) {} (Select 0) (?i [SendBlocked 0 7] None) Idle ?m)"
    by (rule st_work [where t = 1], simp, rule op_step.send_open) simp_all
  moreover have "any_step (st (Some 1) (Some 1) {} (Select 0) (?i [SendBlocked 0 7] None) Idle ?m)
      (st (Some 1) (Some 1) {0} (Select 0) (?i [SendBlocked 0 7] None) Idle ?m)"
    using client_step.disconnect [of "st (Some 1) (Some 1) {} (Select 0) (?i [SendBlocked 0 7] None) Idle ?m" 0] by (simp add: any_step_def)
  moreover have "any_step (st (Some 1) (Some 1) {0} (Select 0) (?i [SendBlocked 0 7] None) Idle ?m)
      (st (Some 1) (Some 1) {0} (Leave [CloseLock 0]) (?i [SendBlocked 0 7] None) Idle ?m)"
    using stream_step.context_done [of "st (Some 1) (Some 1) {0} (Select 0) (?i [SendBlocked 0 7] None) Idle ?m" 0 0] by (simp add: any_step_def)
  moreover have "any_step (st (Some 1) (Some 1) {0} (Leave [CloseLock 0]) (?i [SendBlocked 0 7] None) Idle ?m) ?w"
    using client_step.start_close_by [of "st (Some 1) (Some 1) {0} (Leave [CloseLock 0]) (?i [SendBlocked 0 7] None) Idle ?m" 2 5]
    by (simp add: any_step_def close_by_def)
  ultimately show ?thesis
    by - ((rule converse_rtranclp_into_rtranclp, assumption)+, rule rtranclp.rtrancl_refl)
qed

lemma deserted_st:
  "deserted (st (Some 1) (Some 1) {0} (Leave [CloseLock 0]) (InService [SendBlocked 0 7] None) (WaitService [RemoveOne 5] None) [5 \<mapsto> 0])
     1 0 (InService [SendBlocked 0 7] None)"
  by (auto simp: deserted_def st_def fun_upd_def)

theorem stream_no_panic_witness:
  "\<exists>w. sw_service w = Some 1 \<and> (\<exists>t. in_service (sw_pc w t)) \<and> \<not> sw_panic (w :: nat streams)"
  using stream_no_panic [OF stuck_client] by (intro exI [of _ "st _ _ _ _ _ _ _"] conjI exI [of _ 1]) auto

theorem stream_deadlock_witness:
  "\<exists>w. stream_run no_streams w \<and> sw_done w = {0} \<and> sw_pc w 1 = InService [SendBlocked 0 (7 :: nat)] None \<and>
     sw_service w = Some 1 \<and> sw_pc w 2 = WaitService [RemoveOne 5] None"
proof -
  let ?w = "st (Some 1) (Some 1) {0} (Leave [CloseLock 0]) (InService [SendBlocked 0 7] None) (WaitService [RemoveOne 5] None) [5 \<mapsto> 0]"
  have "any_step ?w (?w\<lparr>sw_done := insert 0 (sw_done ?w)\<rparr>)" by (simp only: any_step_def client_step.disconnect simp_thms)
  then have "stream_run ?w (?w\<lparr>sw_done := insert 0 (sw_done ?w)\<rparr>)" by (rule r_into_rtranclp)
  from stream_deadlock [OF stuck_client deserted_st this] stuck_client show ?thesis
    by (intro exI [of _ ?w]) simp
qed

lemma op_enabled:
  "inside_op c = Some x \<Longrightarrow> (\<And>y m. c \<noteq> SendBlocked y m) \<Longrightarrow> \<exists>cs v. op_step s c w cs v"
  "finite (dom (sw_map w)) \<Longrightarrow> inside_op c = None \<Longrightarrow>
     (\<And>x m. c = SendLock x m \<or> c = CloseLock x \<Longrightarrow> sw_lock w x = None) \<Longrightarrow> \<exists>cs v. op_step s c w cs v"
proof -
  assume c: "inside_op c = Some x" "\<And>y m. c \<noteq> SendBlocked y m"
  have "\<exists>cs v. op_step s (SendCheck y m) w cs v" "\<exists>cs v. op_step s (CloseCheck y) w cs v" for y m
    by (cases "y \<in> sw_closed w"; blast intro: op_step.send_closed op_step.send_open op_step.close_twice op_step.close_open)+
  then show "\<exists>cs v. op_step s c w cs v"
  proof (cases c)
    case (SendBlocked y m)
    then show ?thesis using c(2) by blast
  qed (use c(1) in \<open>auto intro: op_step.close_set op_step.unlock\<close>)
next
  assume fin: "finite (dom (sw_map w))" and c: "inside_op c = None"
    "\<And>x m. c = SendLock x m \<or> c = CloseLock x \<Longrightarrow> sw_lock w x = None"
  obtain ids where ids: "set ids = dom (sw_map w)" "distinct ids" using finite_distinct_list [OF fin] by (elim exE conjE)
  have "\<exists>cs v. op_step s (SendOne i m) w cs v" for i m
    by (cases "sw_map w i"; intro exI; rule op_step.send_none op_step.send_found; assumption)
  moreover have "\<exists>cs v. op_step s (RemoveOne i) w cs v" for i
    by (cases "sw_map w i"; intro exI; rule op_step.remove_none op_step.remove_found; assumption)
  moreover have "\<exists>cs v. op_step s (Broadcast m) w cs v" for m by (intro exI, rule op_step.broadcast [OF ids])
  moreover have "\<exists>cs v. op_step s RemoveAll w cs v" by (intro exI, rule op_step.remove_all [OF ids])
  moreover have "\<exists>cs v. op_step s (SendLock x m) w cs v" if "sw_lock w x = None" for x m by (intro exI, rule op_step.send_lock [OF that])
  moreover have "\<exists>cs v. op_step s (CloseLock x) w cs v" if "sw_lock w x = None" for x by (intro exI, rule op_step.close_lock [OF that])
  moreover have "\<exists>cs v. op_step s (Forget i) w cs v" for i by (intro exI, rule op_step.forget)
  moreover have "\<exists>cs v. op_step s (SetStream i x) w cs v" for i x by (intro exI, rule op_step.set_stream)
  ultimately show "\<exists>cs v. op_step s c w cs v"
    using c by (cases c) simp_all
qed

text \<open>Short of that, the service never hangs: as long as every sender at a channel has a thread that runs
  its stream, some call can go on unless all threads are idle or wait for data in their loop.
\<close>

lemma stream_progress:
  assumes "stream_run no_streams w"
    and "\<And>s x m k. ops_of (sw_pc w s) = SendBlocked x m # k \<Longrightarrow> \<exists>r. sw_pc w r = Select x \<or> (\<exists>m. sw_pc w r = Deliver x m)"
    and "sw_pc w t \<noteq> Idle" and "\<And>x. sw_pc w t \<noteq> Select x"
  shows "\<exists>w'. stream_step w w'"
proof -
  have ok: "locks_ok w" "channels_ok w" "used_ok w" using reached_ok [OF assms(1)] by simp_all
  have go: "\<exists>w'. stream_step w w'" if "ops_of (sw_pc w s) = c # k" "op_step s c w cs v" for s c k cs v
    using stream_step.work [OF that] by blast
  have holds: "\<exists>w'. stream_step w w'" if inside: "inside (ops_of (sw_pc w s)) = Some x" for s x
  proof -
    obtain c k where s: "ops_of (sw_pc w s) = c # k" "inside_op c = Some x" using inside by (cases "ops_of (sw_pc w s)") auto
    show ?thesis
    proof (cases "\<exists>y m. c = SendBlocked y m")
      case True
      then obtain y m where SendBlocked: "c = SendBlocked y m" by blast
      with s assms(2) [of s y m k] obtain r where r: "sw_pc w r = Select y \<or> (\<exists>m. sw_pc w r = Deliver y m)" by blast
      show ?thesis
      proof (cases "y \<in> sw_channel w")
        case True
        then show ?thesis using go [OF s(1) [unfolded SendBlocked] op_step.send_panic] by blast
      next
        case False
        then show ?thesis using r s(1) SendBlocked stream_step.hand_over stream_step.deliver by metis
      qed
    next
      case False
      then obtain cs v where "op_step s c w cs v" using op_enabled(1) [OF s(2)] by blast
      then show ?thesis by (rule go [OF s(1)])
    qed
  qed
  have op: "\<exists>w'. stream_step w w'" if s: "ops_of (sw_pc w s) = c # k" for s c k
  proof (cases "inside_op c = None \<and> (\<forall>x m. c = SendLock x m \<or> c = CloseLock x \<longrightarrow> sw_lock w x = None)")
    case True
    then obtain cs v where "op_step s c w cs v"
      using op_enabled(2) [of w c s] ok(3) unfolding used_ok_def by blast
    then show ?thesis by (rule go [OF s])
  next
    case False
    then obtain s' x where "inside (ops_of (sw_pc w s')) = Some x"
      using s ok(1) unfolding locks_ok_def by (metis inside.simps(2) not_Some_eq)
    then show ?thesis by (rule holds)
  qed
  have inside_service: "\<exists>w'. stream_step w w'" if "sw_pc w s = InService ops a" for s ops a
    using that op [of s] stream_step.unlock_service [of w s a] by (cases ops) auto
  show ?thesis
  proof (cases "sw_pc w t")
    case (WaitService ops a)
    show ?thesis
    proof (cases "sw_service w")
      case None
      then show ?thesis using WaitService stream_step.lock_service by blast
    next
      case (Some s)
      then have "in_service (sw_pc w s)" using ok(1) unfolding locks_ok_def by blast
      then obtain ops' a' where "sw_pc w s = InService ops' a'" by (cases "sw_pc w s") auto
      then show ?thesis by (rule inside_service)
    qed
  next
    case (Leave ops)
    then show ?thesis using op [of t] stream_step.left [of w t] by (cases ops) auto
  next
    case (InService ops a)
    then show ?thesis by (rule inside_service)
  next
    case (Deliver x m)
    then show ?thesis using stream_step.deliver [of w t x m] by blast
  qed (use assms(3,4) in simp_all)
qed

theorem stream_progress_witness:
  "\<exists>w'. stream_step (goto 0 (WaitService (close_by 5) None) (no_streams :: nat streams)) w'"
proof (rule stream_progress [of _ 0])
  have "any_step (no_streams :: nat streams) (goto 0 (WaitService (close_by 5) None) no_streams)"
    unfolding any_step_def by (rule disjI2, rule client_step.start_close_by) (simp add: no_streams_def)
  then show "stream_run no_streams (goto 0 (WaitService (close_by 5) None) (no_streams :: nat streams))" by (rule r_into_rtranclp)
qed (auto simp: no_streams_def split: if_splits)

end
