(* ===== verification/Assignment_Store.thy ===== *)
theory Assignment_Store
  imports Submission_Store
begin

text \<open>
  Assignments in the database: \<open>database/gormdb_assignment.go\<close>, and the feedback of
  \<open>database/gormdb_feedback.go\<close>.  The statements extend the record of \<open>Submission_Store\<close>; a statement that
  fails leaves the state as it was, and so does a transaction.
\<close>

section \<open>Statements\<close>

text \<open>
  \<open>aq_by_order\<close> is \<open>FirstOrInit\<close> with its error or the row it found; the code looks only at the count of affected
  rows, which is zero for an error as well.  Saving an
  assignment saves its tasks, benchmarks and expected tests with it.
\<close>

record feedback =
  fb_ID :: u64
  fb_CourseID :: u64
  fb_AssignmentID :: u64
  fb_LikedContent :: string
  fb_ImprovementSuggestions :: string
  fb_TimeSpent :: u32
  fb_CreatedAt :: "time option"

record 'd assignment_db = "'d sub_db" +
  aq_course_count :: "u64 \<Rightarrow> 'd \<Rightarrow> db_error + nat"
  aq_first_or_create :: "u64 \<Rightarrow> u32 \<Rightarrow> assignment \<Rightarrow> 'd \<Rightarrow> db_error + (assignment \<times> 'd)"
  aq_by_order :: "u64 \<Rightarrow> u32 \<Rightarrow> 'd \<Rightarrow> db_error + assignment option"
  aq_create :: "assignment \<Rightarrow> 'd \<Rightarrow> db_error + (assignment \<times> 'd)"
  aq_update :: "assignment \<Rightarrow> 'd \<Rightarrow> db_error + (assignment \<times> 'd)"
  aq_tests :: "u64 \<Rightarrow> 'd \<Rightarrow> db_error + test_info list"
  aq_delete_test :: "test_info \<Rightarrow> 'd \<Rightarrow> db_error + 'd"
  aq_benchmark :: "u64 \<Rightarrow> 'd \<Rightarrow> db_error + benchmark"
  aq_create_benchmark :: "benchmark \<Rightarrow> 'd \<Rightarrow> db_error + 'd"
  aq_update_benchmark :: "benchmark \<Rightarrow> 'd \<Rightarrow> db_error + 'd"
  aq_delete_benchmark :: "benchmark \<Rightarrow> 'd \<Rightarrow> db_error + 'd"
  aq_create_criterion :: "criterion \<Rightarrow> 'd \<Rightarrow> db_error + 'd"
  aq_update_criterion :: "criterion \<Rightarrow> 'd \<Rightarrow> db_error + 'd"
  aq_delete_criterion :: "criterion \<Rightarrow> 'd \<Rightarrow> db_error + 'd"
  aq_delete_criteria :: "u64 \<Rightarrow> 'd \<Rightarrow> db_error + 'd"
  aq_create_feedback :: "feedback \<Rightarrow> 'd \<Rightarrow> db_error + 'd"
  aq_create_receipt :: "u64 \<Rightarrow> u64 \<Rightarrow> 'd \<Rightarrow> db_error + 'd"
  aq_feedback :: "u64 \<Rightarrow> 'd \<Rightarrow> db_error + feedback list"

abbreviation asdb :: "'d assignment_db \<Rightarrow> 'd sub_db" where
  "asdb db \<equiv> sub_db.truncate db"

section \<open>Assignments\<close>

definition check_assignment :: "'d assignment_db \<Rightarrow> assignment \<Rightarrow> 'd \<Rightarrow> db_error + unit" where
  "check_assignment db a d =
     (if a_CourseID a < 1 \<or> a_order a < 1 then Inl RecordNotFound
      else bind_res (aq_course_count db (a_CourseID a) d) (\<lambda>n. if n \<noteq> 1 then Inl RecordNotFound else Inr ()))"

definition create_assignment :: "'d assignment_db \<Rightarrow> assignment \<Rightarrow> 'd \<Rightarrow> db_error + (assignment \<times> 'd)" where
  "create_assignment db a d =
     bind_res (check_assignment db a d) (\<lambda>_. aq_first_or_create db (a_CourseID a) (a_order a) (a\<lparr>a_tasks := []\<rparr>) d)"

definition get_assignment :: "'d assignment_db \<Rightarrow> assignment \<Rightarrow> 'd \<Rightarrow> db_error + assignment" where
  "get_assignment db query d = sq_assignment (asdb db) query d"

fun with_benchmarks :: "'d assignment_db \<Rightarrow> assignment list \<Rightarrow> 'd \<Rightarrow> db_error + assignment list" where
  "with_benchmarks db [] d = Inr []"
| "with_benchmarks db (a # as) d =
     bind_res (get_benchmarks (asdb db) (zero_assignment\<lparr>a_ID := a_ID a\<rparr>) d) (\<lambda>bms.
     bind_res (with_benchmarks db as d) (\<lambda>as. Inr (a\<lparr>a_gradingBenchmarks := bms\<rparr> # as)))"

definition get_assignments_by_course :: "'d assignment_db \<Rightarrow> u64 \<Rightarrow> 'd \<Rightarrow> db_error + assignment list" where
  "get_assignments_by_course db courseID d =
     bind_res (sq_course_assignments (asdb db) courseID d) (\<lambda>as. with_benchmarks db as d)"

section \<open>Updating assignments\<close>

fun delete_each :: "('x \<Rightarrow> 'd \<Rightarrow> db_error + 'd) \<Rightarrow> 'x list \<Rightarrow> 'd \<Rightarrow> db_error + 'd" where
  "delete_each del [] d = Inr d"
| "delete_each del (x # xs) d = bind_res (del x d) (delete_each del xs)"

definition update_expected_tests :: "'d assignment_db \<Rightarrow> assignment \<Rightarrow> 'd \<Rightarrow> db_error + 'd" where
  "update_expected_tests db a d =
     (if a_ExpectedTests a = [] then Inr d
      else case aq_tests db (a_ID a) d of
             Inl e \<Rightarrow> if e = RecordNotFound then Inr d else Inl e
           | Inr ts \<Rightarrow> delete_each (aq_delete_test db) ts d)"

text \<open>The comparison of the criteria ignores identifiers and the keys of the rows they belong to.\<close>

definition norm_criterion :: "criterion \<Rightarrow> criterion" where
  "norm_criterion c = c\<lparr>cr_ID := 0, cr_BenchmarkID := 0\<rparr>"

definition norm_benchmark :: "benchmark \<Rightarrow> benchmark" where
  "norm_benchmark b = b\<lparr>bm_ID := 0, bm_AssignmentID := 0, bm_ReviewID := 0, bm_criteria := map norm_criterion (bm_criteria b)\<rparr>"

definition delete_with_criteria :: "'d assignment_db \<Rightarrow> benchmark \<Rightarrow> 'd \<Rightarrow> db_error + 'd" where
  "delete_with_criteria db bm d =
     bind_res (delete_each (aq_delete_criterion db) (bm_criteria bm) d) (\<lambda>d. aq_delete_benchmark db bm d)"

definition update_grading_criteria :: "'d assignment_db \<Rightarrow> assignment \<Rightarrow> 'd \<Rightarrow> db_error + (assignment \<times> 'd)" where
  "update_grading_criteria db a d =
     (if a_gradingBenchmarks a = [] then Inr (a, d)
      else case get_benchmarks (asdb db) (zero_assignment\<lparr>a_ID := a_ID a\<rparr>) d of
             Inl e \<Rightarrow> if e = RecordNotFound then Inr (a, d) else Inl e
           | Inr bms \<Rightarrow>
               if bms = [] then Inr (a, d)
               else if map norm_benchmark (a_gradingBenchmarks a) = map norm_benchmark bms
               then Inr (a\<lparr>a_gradingBenchmarks := []\<rparr>, d)
               else bind_res (delete_each (delete_with_criteria db) bms d) (\<lambda>d. Inr (a, d)))"

text \<open>One transaction; the message keeps its new identifier and criteria when the transaction fails.\<close>

definition update_one_assignment :: "'d assignment_db \<Rightarrow> assignment \<Rightarrow> 'd \<Rightarrow> assignment \<times> (db_error + 'd)" where
  "update_one_assignment db v d =
     (case check_assignment db v d of
        Inl e \<Rightarrow> (v, Inl e)
      | Inr _ \<Rightarrow>
          (case aq_by_order db (a_CourseID v) (a_order v) d of
             Inr (Some a) \<Rightarrow>
               let v = v\<lparr>a_ID := a_ID a\<rparr> in
               (case update_grading_criteria db v d of
                  Inl e \<Rightarrow> (v, Inl e)
                | Inr (v, d) \<Rightarrow>
                    (case bind_res (update_expected_tests db v d) (aq_update db v) of
                       Inl e \<Rightarrow> (v, Inl e)
                     | Inr (v, d) \<Rightarrow> (v, Inr d)))
           | _ \<Rightarrow> (case aq_create db v d of Inl e \<Rightarrow> (v, Inl e) | Inr (v, d) \<Rightarrow> (v, Inr d))))"

text \<open>The errors are joined, and one does not stop the others.\<close>

fun update_assignments :: "'d assignment_db \<Rightarrow> assignment list \<Rightarrow> 'd \<Rightarrow> db_error list \<times> assignment list \<times> 'd" where
  "update_assignments db [] d = ([], [], d)"
| "update_assignments db (v # vs) d =
     (case update_one_assignment db v d of
        (v, Inl e) \<Rightarrow> (case update_assignments db vs d of (errs, vs, d) \<Rightarrow> (e # errs, v # vs, d))
      | (v, Inr d) \<Rightarrow> (case update_assignments db vs d of (errs, vs, d) \<Rightarrow> (errs, v # vs, d)))"

section \<open>Benchmarks, criteria and feedback\<close>

definition create_benchmark :: "'d assignment_db \<Rightarrow> benchmark \<Rightarrow> 'd \<Rightarrow> db_error + 'd" where
  "create_benchmark db query d =
     bind_res (get_assignment db (zero_assignment\<lparr>a_ID := bm_AssignmentID query\<rparr>) d) (\<lambda>_. aq_create_benchmark db query d)"

definition get_benchmark :: "'d assignment_db \<Rightarrow> u64 \<Rightarrow> 'd \<Rightarrow> db_error + benchmark" where
  "get_benchmark db benchmarkID d = aq_benchmark db benchmarkID d"

definition update_benchmark :: "'d assignment_db \<Rightarrow> benchmark \<Rightarrow> 'd \<Rightarrow> db_error + 'd" where
  "update_benchmark db query d = aq_update_benchmark db query d"

text \<open>The error of deleting the criteria is dropped.\<close>

definition delete_benchmark :: "'d assignment_db \<Rightarrow> benchmark \<Rightarrow> 'd \<Rightarrow> db_error + 'd" where
  "delete_benchmark db query d =
     aq_delete_benchmark db query (case aq_delete_criteria db (bm_ID query) d of Inl e \<Rightarrow> d | Inr d \<Rightarrow> d)"

definition create_criterion :: "'d assignment_db \<Rightarrow> criterion \<Rightarrow> 'd \<Rightarrow> db_error + 'd" where
  "create_criterion db query d =
     bind_res (get_benchmark db (cr_BenchmarkID query) d) (\<lambda>bm.
       if bm_CourseID bm \<noteq> cr_CourseID query then Inl InvalidCourseRelation else aq_create_criterion db query d)"

definition update_criterion :: "'d assignment_db \<Rightarrow> criterion \<Rightarrow> 'd \<Rightarrow> db_error + 'd" where
  "update_criterion db query d = aq_update_criterion db query d"

definition delete_criterion :: "'d assignment_db \<Rightarrow> criterion \<Rightarrow> 'd \<Rightarrow> db_error + 'd" where
  "delete_criterion db query d = aq_delete_criterion db query d"

text \<open>Both rows are created in one transaction.\<close>

definition create_assignment_feedback :: "'d assignment_db \<Rightarrow> time \<Rightarrow> feedback \<Rightarrow> u64 \<Rightarrow> 'd \<Rightarrow> db_error + (feedback \<times> 'd)" where
  "create_assignment_feedback db now fb userID d =
     (let fb = fb\<lparr>fb_CreatedAt := Some now\<rparr>
      in bind_res (aq_create_feedback db fb d) (\<lambda>d.
         bind_res (aq_create_receipt db (fb_AssignmentID fb) userID d) (\<lambda>d. Inr (fb, d))))"

definition get_assignment_feedback :: "'d assignment_db \<Rightarrow> u64 \<Rightarrow> 'd \<Rightarrow> db_error + feedback list" where
  "get_assignment_feedback db courseID d = aq_feedback db courseID d"

section \<open>What the statements do\<close>

text \<open>
  The rows of assignments, without what other tables hold, and those of the expected tests and of the
  benchmarks, with their criteria.
\<close>

record assignment_view =
  av_rows :: "assignment list"
  av_tests :: "test_info list"
  av_benchmarks :: "benchmark list"

definition bare :: "assignment \<Rightarrow> assignment" where
  "bare a = a\<lparr>a_tasks := [], a_gradingBenchmarks := [], a_ExpectedTests := []\<rparr>"

definition assignment_key :: "assignment \<Rightarrow> u64 \<times> u32" where
  "assignment_key a = (a_CourseID a, a_order a)"

definition tests_of :: "u64 \<Rightarrow> assignment_view \<Rightarrow> test_info list" where
  "tests_of i v = filter (\<lambda>t. ti_AssignmentID t = i) (av_tests v)"

definition benchmarks_of :: "u64 \<Rightarrow> assignment_view \<Rightarrow> benchmark list" where
  "benchmarks_of i v = filter (\<lambda>b. bm_AssignmentID b = i \<and> bm_ReviewID b = 0) (av_benchmarks v)"

text \<open>The rows that saving associations adds: they belong to the assignment, and get identifiers.\<close>

definition adds_tests :: "assignment \<Rightarrow> assignment_view \<Rightarrow> assignment_view \<Rightarrow> bool" where
  "adds_tests a v v' \<longleftrightarrow> (\<exists>ts. av_tests v' = av_tests v @ ts \<and>
     map (\<lambda>t. t\<lparr>ti_ID := 0\<rparr>) ts = map (\<lambda>t. t\<lparr>ti_ID := 0, ti_AssignmentID := a_ID a\<rparr>) (a_ExpectedTests a))"

definition adds_benchmarks :: "assignment \<Rightarrow> assignment_view \<Rightarrow> assignment_view \<Rightarrow> bool" where
  "adds_benchmarks a v v' \<longleftrightarrow> (\<exists>bs. av_benchmarks v' = av_benchmarks v @ bs \<and>
     map norm_benchmark bs = map norm_benchmark (a_gradingBenchmarks a) \<and>
     (\<forall>b\<in>set bs. bm_AssignmentID b = a_ID a \<and> bm_ReviewID b = 0))"

text \<open>What comes from the tests repository has no identifiers yet.\<close>

definition unsaved :: "assignment \<Rightarrow> bool" where
  "unsaved a \<longleftrightarrow> (\<forall>t\<in>set (a_ExpectedTests a). ti_ID t = 0) \<and>
     (\<forall>b\<in>set (a_gradingBenchmarks a). bm_ID b = 0 \<and> bm_ReviewID b = 0 \<and> (\<forall>c\<in>set (bm_criteria b). cr_ID c = 0))"

definition assignment_rows_ok :: "assignment_view \<Rightarrow> bool" where
  "assignment_rows_ok v \<longleftrightarrow> distinct (map a_ID (av_rows v)) \<and> distinct (map assignment_key (av_rows v)) \<and>
     (\<forall>a\<in>set (av_rows v). a_ID a \<noteq> 0)"

definition result_rows_ok :: "assignment_view \<Rightarrow> bool" where
  "result_rows_ok v \<longleftrightarrow> distinct (map ti_ID (av_tests v)) \<and> distinct (map bm_ID (av_benchmarks v))"

definition assignment_reads_ok :: "'d assignment_db \<Rightarrow> ('d \<Rightarrow> assignment_view) \<Rightarrow> bool" where
  "assignment_reads_ok db view \<longleftrightarrow>
     (\<forall>c k d x. c \<noteq> 0 \<longrightarrow> k \<noteq> 0 \<longrightarrow> aq_by_order db c k d = Inr x \<longrightarrow>
        x = find (\<lambda>a. assignment_key a = (c, k)) (av_rows (view d))) \<and>
     (\<forall>i d ts. i \<noteq> 0 \<longrightarrow> aq_tests db i d = Inr ts \<longrightarrow> ts = tests_of i (view d)) \<and>
     (\<forall>i d. i \<noteq> 0 \<longrightarrow> aq_tests db i d = Inl RecordNotFound \<longrightarrow> tests_of i (view d) = []) \<and>
     (\<forall>i d bs. i \<noteq> 0 \<longrightarrow> get_benchmarks (asdb db) (zero_assignment\<lparr>a_ID := i\<rparr>) d = Inr bs \<longrightarrow> bs = benchmarks_of i (view d)) \<and>
     (\<forall>i d. i \<noteq> 0 \<longrightarrow> get_benchmarks (asdb db) (zero_assignment\<lparr>a_ID := i\<rparr>) d = Inl RecordNotFound \<longrightarrow> benchmarks_of i (view d) = [])"

definition assignment_writes_ok :: "'d assignment_db \<Rightarrow> ('d \<Rightarrow> assignment_view) \<Rightarrow> bool" where
  "assignment_writes_ok db view \<longleftrightarrow>
     (\<forall>a d a' d'. aq_create db a d = Inr (a', d') \<longrightarrow>
        a_ID a' \<noteq> 0 \<and> a_ID a' \<notin> a_ID ` set (av_rows (view d)) \<and>
        av_rows (view d') = av_rows (view d) @ [(bare a)\<lparr>a_ID := a_ID a'\<rparr>]) \<and>
     (\<forall>a d a' d'. aq_update db a d = Inr (a', d') \<longrightarrow>
        av_rows (view d') = map (\<lambda>r. if a_ID r = a_ID a then bare a else r) (av_rows (view d)) \<and>
        (unsaved a \<longrightarrow> adds_tests a (view d) (view d') \<and> adds_benchmarks a (view d) (view d'))) \<and>
     (\<forall>t d d'. aq_delete_test db t d = Inr d' \<longrightarrow>
        view d' = (view d)\<lparr>av_tests := filter (\<lambda>x. ti_ID x \<noteq> ti_ID t) (av_tests (view d))\<rparr>) \<and>
     (\<forall>b d d'. aq_delete_benchmark db b d = Inr d' \<longrightarrow>
        view d' = (view d)\<lparr>av_benchmarks := filter (\<lambda>x. bm_ID x \<noteq> bm_ID b) (av_benchmarks (view d))\<rparr>) \<and>
     (\<forall>c d d'. aq_delete_criterion db c d = Inr d' \<longrightarrow>
        (\<exists>f. view d' = (view d)\<lparr>av_benchmarks := map f (av_benchmarks (view d))\<rparr> \<and> (\<forall>b. bm_ID (f b) = bm_ID b \<and>
           bm_AssignmentID (f b) = bm_AssignmentID b \<and> bm_ReviewID (f b) = bm_ReviewID b)))"

lemma assignment_reads_okD:
  assumes "assignment_reads_ok db view"
  shows "c \<noteq> 0 \<Longrightarrow> k \<noteq> 0 \<Longrightarrow> aq_by_order db c k d = Inr x \<Longrightarrow>
      x = find (\<lambda>a. assignment_key a = (c, k)) (av_rows (view d))"
    and "i \<noteq> 0 \<Longrightarrow> aq_tests db i d = Inr ts \<Longrightarrow> ts = tests_of i (view d)"
    and "i \<noteq> 0 \<Longrightarrow> aq_tests db i d = Inl RecordNotFound \<Longrightarrow> tests_of i (view d) = []"
    and "i \<noteq> 0 \<Longrightarrow> get_benchmarks (asdb db) (zero_assignment\<lparr>a_ID := i\<rparr>) d = Inr bs \<Longrightarrow> bs = benchmarks_of i (view d)"
    and "i \<noteq> 0 \<Longrightarrow> get_benchmarks (asdb db) (zero_assignment\<lparr>a_ID := i\<rparr>) d = Inl RecordNotFound \<Longrightarrow> benchmarks_of i (view d) = []"
  using assms unfolding assignment_reads_ok_def by blast+

lemma assignment_writes_okD:
  assumes "assignment_writes_ok db view"
  shows "aq_create db a d = Inr (a', d') \<Longrightarrow>
      a_ID a' \<noteq> 0 \<and> a_ID a' \<notin> a_ID ` set (av_rows (view d)) \<and>
      av_rows (view d') = av_rows (view d) @ [(bare a)\<lparr>a_ID := a_ID a'\<rparr>]"
    and "aq_update db a d = Inr (a', d') \<Longrightarrow>
      av_rows (view d') = map (\<lambda>r. if a_ID r = a_ID a then bare a else r) (av_rows (view d)) \<and>
      (unsaved a \<longrightarrow> adds_tests a (view d) (view d') \<and> adds_benchmarks a (view d) (view d'))"
    and "aq_delete_test db t d = Inr d' \<Longrightarrow>
      view d' = (view d)\<lparr>av_tests := filter (\<lambda>x. ti_ID x \<noteq> ti_ID t) (av_tests (view d))\<rparr>"
    and "aq_delete_benchmark db b d = Inr d' \<Longrightarrow>
      view d' = (view d)\<lparr>av_benchmarks := filter (\<lambda>x. bm_ID x \<noteq> bm_ID b) (av_benchmarks (view d))\<rparr>"
    and "aq_delete_criterion db c d = Inr d' \<Longrightarrow>
      \<exists>f. view d' = (view d)\<lparr>av_benchmarks := map f (av_benchmarks (view d))\<rparr> \<and> (\<forall>b. bm_ID (f b) = bm_ID b \<and>
         bm_AssignmentID (f b) = bm_AssignmentID b \<and> bm_ReviewID (f b) = bm_ReviewID b)"
  using assms unfolding assignment_writes_ok_def by blast+

section \<open>One assignment\<close>

lemma delete_tests:
  assumes "assignment_writes_ok db view"
  shows "delete_each (aq_delete_test db) ts d = Inr d' \<Longrightarrow>
    view d' = (view d)\<lparr>av_tests := filter (\<lambda>x. ti_ID x \<notin> ti_ID ` set ts) (av_tests (view d))\<rparr>"
proof (induction ts arbitrary: d)
  case (Cons t ts)
  then obtain d1 where d1: "aq_delete_test db t d = Inr d1" "delete_each (aq_delete_test db) ts d1 = Inr d'"
    by (auto simp: bind_res_Inr_iff)
  from Cons.IH [OF d1(2)] assignment_writes_okD(3) [OF assms d1(1)] show ?case
    by (auto intro!: filter_cong simp: filter_filter)
qed simp

lemma filter_other_ids:
  assumes "distinct (map k xs)"
  shows "filter (\<lambda>x. k x \<notin> k ` set (filter P xs)) xs = filter (\<lambda>x. \<not> P x) xs"
  using assms by (intro filter_cong) (auto simp: distinct_map inj_on_def)

lemma update_expected_tests_view:
  assumes "assignment_reads_ok db view" and "assignment_writes_ok db view" and "distinct (map ti_ID (av_tests (view d)))"
    and "update_expected_tests db a d = Inr d'" and i: "a_ID a \<noteq> 0"
  shows "view d' = (view d)\<lparr>av_tests := if a_ExpectedTests a = [] then av_tests (view d)
      else filter (\<lambda>t. ti_AssignmentID t \<noteq> a_ID a) (av_tests (view d))\<rparr>"
proof (cases "aq_tests db (a_ID a) d")
  case (Inl e)
  show ?thesis
  proof (cases "a_ExpectedTests a = []")
    case False
    with Inl assms(4) have "e = RecordNotFound" "d' = d" by (auto simp: update_expected_tests_def split: if_splits)
    with assignment_reads_okD(3) [OF assms(1) i] Inl have "tests_of (a_ID a) (view d) = []" by simp
    then have "filter (\<lambda>t. ti_AssignmentID t \<noteq> a_ID a) (av_tests (view d)) = av_tests (view d)"
      by (auto simp: tests_of_def filter_empty_conv)
    with False \<open>d' = d\<close> show ?thesis by simp
  qed (use assms(4) in \<open>simp add: update_expected_tests_def\<close>)
next
  case (Inr ts)
  show ?thesis
  proof (cases "a_ExpectedTests a = []")
    case False
    with Inr assms(4) have "delete_each (aq_delete_test db) ts d = Inr d'" by (simp add: update_expected_tests_def)
    moreover have "ts = filter (\<lambda>t. ti_AssignmentID t = a_ID a) (av_tests (view d))"
      using assignment_reads_okD(2) [OF assms(1) i Inr] by (simp add: tests_of_def)
    ultimately show ?thesis
      using delete_tests [OF assms(2)] filter_other_ids [OF assms(3)] False by simp
  qed (use assms(4) in \<open>simp add: update_expected_tests_def\<close>)
qed

text \<open>Deleting benchmarks with their criteria.\<close>

lemma delete_criteria_view:
  assumes "assignment_writes_ok db view"
  shows "delete_each (aq_delete_criterion db) cs d = Inr d' \<Longrightarrow>
    \<exists>f. view d' = (view d)\<lparr>av_benchmarks := map f (av_benchmarks (view d))\<rparr> \<and> (\<forall>b. bm_ID (f b) = bm_ID b \<and>
      bm_AssignmentID (f b) = bm_AssignmentID b \<and> bm_ReviewID (f b) = bm_ReviewID b)"
proof (induction cs arbitrary: d)
  case Nil
  then show ?case by (intro exI [of _ id]) simp
next
  case (Cons c cs)
  then obtain d1 where d1: "aq_delete_criterion db c d = Inr d1" "delete_each (aq_delete_criterion db) cs d1 = Inr d'"
    by (auto simp: bind_res_Inr_iff)
  from assignment_writes_okD(5) [OF assms d1(1)] obtain f where f:
    "view d1 = (view d)\<lparr>av_benchmarks := map f (av_benchmarks (view d))\<rparr>" "\<forall>b. bm_ID (f b) = bm_ID b \<and>
      bm_AssignmentID (f b) = bm_AssignmentID b \<and> bm_ReviewID (f b) = bm_ReviewID b" by blast
  from Cons.IH [OF d1(2)] obtain g where g:
    "view d' = (view d1)\<lparr>av_benchmarks := map g (av_benchmarks (view d1))\<rparr>" "\<forall>b. bm_ID (g b) = bm_ID b \<and>
      bm_AssignmentID (g b) = bm_AssignmentID b \<and> bm_ReviewID (g b) = bm_ReviewID b" by blast
  show ?case using f g by (intro exI [of _ "g \<circ> f"]) simp
qed

definition benchmark_ids :: "assignment_view \<Rightarrow> (u64 \<times> u64 \<times> u64) list" where
  "benchmark_ids v = map (\<lambda>b. (bm_ID b, bm_AssignmentID b, bm_ReviewID b)) (av_benchmarks v)"

lemma delete_benchmarks_view:
  assumes "assignment_writes_ok db view"
  shows "delete_each (delete_with_criteria db) bs d = Inr d' \<Longrightarrow>
    av_rows (view d') = av_rows (view d) \<and> av_tests (view d') = av_tests (view d) \<and>
    benchmark_ids (view d') = filter (\<lambda>(i, x). i \<notin> bm_ID ` set bs) (benchmark_ids (view d))"
proof (induction bs arbitrary: d)
  case (Cons b bs)
  from Cons.prems obtain d2 where d2: "delete_with_criteria db b d = Inr d2" and
    rest: "delete_each (delete_with_criteria db) bs d2 = Inr d'" by (auto simp: bind_res_Inr_iff)
  from d2 obtain d1 where "delete_each (aq_delete_criterion db) (bm_criteria b) d = Inr d1"
    "aq_delete_benchmark db b d1 = Inr d2" by (auto simp: bind_res_Inr_iff delete_with_criteria_def)
  note d = this rest
  from delete_criteria_view [OF assms d(1)] obtain f where f:
    "view d1 = (view d)\<lparr>av_benchmarks := map f (av_benchmarks (view d))\<rparr>" "\<forall>b. bm_ID (f b) = bm_ID b \<and>
      bm_AssignmentID (f b) = bm_AssignmentID b \<and> bm_ReviewID (f b) = bm_ReviewID b" by blast
  have "benchmark_ids (view d1) = benchmark_ids (view d)" using f by (simp add: benchmark_ids_def)
  moreover have "benchmark_ids (view d2) = filter (\<lambda>(i, x). i \<noteq> bm_ID b) (benchmark_ids (view d1))"
    using assignment_writes_okD(4) [OF assms d(2)] by (simp add: benchmark_ids_def filter_map comp_def)
  ultimately show ?case
    using Cons.IH [OF d(3)] f(1) assignment_writes_okD(4) [OF assms d(2)] by (auto intro!: filter_cong)
qed simp

lemma update_grading_criteria_view:
  assumes "assignment_reads_ok db view" and "assignment_writes_ok db view" and "distinct (map bm_ID (av_benchmarks (view d)))"
    and upd: "update_grading_criteria db a d = Inr (a', d')" and i: "a_ID a \<noteq> 0"
  shows "av_rows (view d') = av_rows (view d) \<and> av_tests (view d') = av_tests (view d) \<and>
    (if a_gradingBenchmarks a = [] \<or> map norm_benchmark (a_gradingBenchmarks a) = map norm_benchmark (benchmarks_of (a_ID a) (view d))
     then a' = a\<lparr>a_gradingBenchmarks := []\<rparr> \<and> d' = d
     else a' = a \<and> benchmark_ids (view d') = filter (\<lambda>(i, as, r). \<not> (as = a_ID a \<and> r = 0)) (benchmark_ids (view d)))"
proof (cases "a_gradingBenchmarks a = []")
  case True
  with upd show ?thesis by (cases a; cases a') (simp add: update_grading_criteria_def)
next
  case False
  let ?g = "get_benchmarks (asdb db) (zero_assignment\<lparr>a_ID := a_ID a\<rparr>) d"
  have none: "filter (\<lambda>(i, as, r). \<not> (as = a_ID a \<and> r = 0)) (benchmark_ids (view d)) = benchmark_ids (view d)"
    if "benchmarks_of (a_ID a) (view d) = []"
    using that by (auto simp: benchmarks_of_def benchmark_ids_def filter_empty_conv filter_id_conv)
  show ?thesis
  proof (cases ?g)
    case (Inl e)
    with False upd have "e = RecordNotFound" "d' = d" "a' = a" by (auto simp: update_grading_criteria_def split: if_splits)
    with assignment_reads_okD(5) [OF assms(1) i] Inl have "benchmarks_of (a_ID a) (view d) = []" by simp
    with none False \<open>d' = d\<close> \<open>a' = a\<close> show ?thesis by simp
  next
    case (Inr bs)
    have bs: "bs = benchmarks_of (a_ID a) (view d)" using assignment_reads_okD(4) [OF assms(1) i Inr] .
    show ?thesis
    proof (cases "bs = [] \<or> map norm_benchmark (a_gradingBenchmarks a) = map norm_benchmark bs")
      case True
      with False Inr upd bs none show ?thesis by (auto simp: update_grading_criteria_def split: if_splits)
    next
      case False': False
      with False Inr upd have del: "delete_each (delete_with_criteria db) bs d = Inr d'" and "a' = a"
        by (auto simp: update_grading_criteria_def bind_res_Inr_iff split: if_splits)
      have "filter (\<lambda>(i, x). i \<notin> bm_ID ` set bs) (benchmark_ids (view d)) =
          filter (\<lambda>(i, as, r). \<not> (as = a_ID a \<and> r = 0)) (benchmark_ids (view d))"
        using assms(3) unfolding benchmark_ids_def bs benchmarks_of_def
        by (intro filter_cong) (auto simp: distinct_map inj_on_def)
      with delete_benchmarks_view [OF assms(2) del] \<open>a' = a\<close> False False' bs show ?thesis by auto
    qed
  qed
qed

definition existing :: "assignment \<Rightarrow> assignment_view \<Rightarrow> assignment option" where
  "existing v s = find (\<lambda>a. assignment_key a = assignment_key v) (av_rows s)"

text \<open>The query for the row of the course and order does not fail, in the state in which it is asked.\<close>

definition order_read :: "'d assignment_db \<Rightarrow> assignment \<Rightarrow> 'd \<Rightarrow> bool" where
  "order_read db v d \<longleftrightarrow> \<not> isl (aq_by_order db (a_CourseID v) (a_order v) d)"

fun orders_read :: "'d assignment_db \<Rightarrow> assignment list \<Rightarrow> 'd \<Rightarrow> bool" where
  "orders_read db [] d \<longleftrightarrow> True"
| "orders_read db (v # vs) d \<longleftrightarrow> order_read db v d \<and>
     orders_read db vs (case snd (update_one_assignment db v d) of Inl e \<Rightarrow> d | Inr d \<Rightarrow> d)"

lemma update_one_assignmentE:
  assumes "assignment_reads_ok db view" and "order_read db v d" and "update_one_assignment db v d = (v', Inr d')"
  obtains (new) "existing v (view d) = None" "aq_create db v d = Inr (v', d')"
    | (old) a v1 d1 d2 where "existing v (view d) = Some a" "update_grading_criteria db (v\<lparr>a_ID := a_ID a\<rparr>) d = Inr (v1, d1)"
        "update_expected_tests db v1 d1 = Inr d2" "aq_update db v1 d2 = Inr (v', d')"
proof -
  from assms(3) obtain u where c: "check_assignment db v d = Inr u"
    by (auto simp: update_one_assignment_def split: sum.splits)
  then have "a_CourseID v \<noteq> 0" "a_order v \<noteq> 0"
    by (auto simp: check_assignment_def word_less_1 split: if_splits)
  moreover obtain x where x: "aq_by_order db (a_CourseID v) (a_order v) d = Inr x"
    using assms(2) by (cases "aq_by_order db (a_CourseID v) (a_order v) d") (auto simp: order_read_def)
  ultimately have "x = existing v (view d)"
    using assignment_reads_okD(1) [OF assms(1)] by (simp add: existing_def assignment_key_def)
  with x have e: "aq_by_order db (a_CourseID v) (a_order v) d = Inr (existing v (view d))" by simp
  show thesis
  proof (cases "existing v (view d)")
    case None
    with assms(3) c e have "aq_create db v d = Inr (v', d')"
      by (auto simp: update_one_assignment_def split: sum.splits)
    with None show thesis by (rule new)
  next
    case (Some a)
    with assms(3) c e obtain v1 d1 where g: "update_grading_criteria db (v\<lparr>a_ID := a_ID a\<rparr>) d = Inr (v1, d1)"
      and b: "bind_res (update_expected_tests db v1 d1) (aq_update db v1) = Inr (v', d')"
      by (auto simp: update_one_assignment_def Let_def split: sum.splits)
    from b obtain d2 where "update_expected_tests db v1 d1 = Inr d2" "aq_update db v1 d2 = Inr (v', d')"
      by (auto simp: bind_res_Inr_iff)
    with Some g show thesis by (rule old)
  qed
qed

lemma key_bare [simp]: "assignment_key (bare a) = assignment_key a" "a_ID (bare a) = a_ID a"
    "assignment_key (a\<lparr>a_ID := i\<rparr>) = assignment_key a" "bare (a\<lparr>a_ID := i\<rparr>) = (bare a)\<lparr>a_ID := i\<rparr>"
    "bare (a\<lparr>a_gradingBenchmarks := bs\<rparr>) = bare a"
  by (simp_all add: bare_def assignment_key_def)

text \<open>Only the last statement touches the rows of the assignments.\<close>

lemma criteria_and_tests_rows:
  assumes "assignment_writes_ok db view"
    and g: "update_grading_criteria db a d = Inr (a1, d1)" and t: "update_expected_tests db a1 d1 = Inr d2"
  shows "av_rows (view d2) = av_rows (view d) \<and> bare a1 = bare a"
proof -
  have "av_rows (view d1) = av_rows (view d) \<and> bare a1 = bare a"
    using g delete_benchmarks_view [OF assms(1)]
    by (auto simp: update_grading_criteria_def bind_res_Inr_iff split: if_splits sum.splits)
  moreover have "av_rows (view d2) = av_rows (view d1)"
    using t delete_tests [OF assms(1)] by (auto simp: update_expected_tests_def split: if_splits sum.splits)
  ultimately show ?thesis by simp
qed

definition rows_kept :: "assignment list \<Rightarrow> assignment_view \<Rightarrow> assignment_view \<Rightarrow> bool" where
  "rows_kept vs s s' \<longleftrightarrow> (\<forall>r\<in>set (av_rows s). \<exists>r'\<in>set (av_rows s'). a_ID r' = a_ID r \<and> assignment_key r' = assignment_key r \<and>
     (assignment_key r \<notin> assignment_key ` set vs \<longrightarrow> r' = r))"

lemma existing_SomeD: "existing v s = Some a \<Longrightarrow> a \<in> set (av_rows s) \<and> assignment_key a = assignment_key v"
  unfolding existing_def by (induction "av_rows s" arbitrary: s) (auto simp: find_Some_iff)

lemma update_one_rows:
  assumes "assignment_reads_ok db view" and "assignment_writes_ok db view" and ok: "assignment_rows_ok (view d)"
    and "update_one_assignment db v d = (v', Inr d')" and "order_read db v d"
  shows "assignment_rows_ok (view d') \<and> rows_kept [v] (view d) (view d') \<and>
    (\<exists>i. (bare v)\<lparr>a_ID := i\<rparr> \<in> set (av_rows (view d')))"
  using assms(1,5,4)
proof (cases rule: update_one_assignmentE)
  case new
  have "assignment_key v \<notin> assignment_key ` set (av_rows (view d))"
    using new(1) by (auto simp: existing_def find_None_iff)
  with assignment_writes_okD(1) [OF assms(2) new(2)] ok show ?thesis
    by (auto simp: assignment_rows_ok_def rows_kept_def)
next
  case (old a v1 d1 d2)
  have r: "av_rows (view d2) = av_rows (view d)" "bare v1 = (bare v)\<lparr>a_ID := a_ID a\<rparr>"
    using criteria_and_tests_rows [OF assms(2) old(2,3)] by simp_all
  have "a_ID v1 = a_ID (bare v1)" by simp
  also have "\<dots> = a_ID a" unfolding r(2) by simp
  finally have rows: "av_rows (view d') = map (\<lambda>r. if a_ID r = a_ID a then (bare v)\<lparr>a_ID := a_ID a\<rparr> else r) (av_rows (view d))"
    using assignment_writes_okD(2) [OF assms(2) old(4)] r by simp
  have a: "a \<in> set (av_rows (view d))" "assignment_key a = assignment_key v" using existing_SomeD [OF old(1)] by simp_all
  have same: "r = a" if "r \<in> set (av_rows (view d))" "a_ID r = a_ID a" for r
    using that a ok by (auto simp: assignment_rows_ok_def distinct_map inj_on_def)
  let ?f = "\<lambda>r. if a_ID r = a_ID a then (bare v)\<lparr>a_ID := a_ID a\<rparr> else r"
  have f: "a_ID (?f r) = a_ID r" "assignment_key (?f r) = assignment_key r" if "r \<in> set (av_rows (view d))" for r
    using same [OF that] a by auto
  have maps: "map a_ID (av_rows (view d')) = map a_ID (av_rows (view d))"
    "map assignment_key (av_rows (view d')) = map assignment_key (av_rows (view d))"
    unfolding rows map_map by (rule map_cong; use f in simp)+
  have "a_ID r \<noteq> 0" if "r \<in> set (av_rows (view d'))" for r
    using ok that f unfolding rows assignment_rows_ok_def by auto
  then have "assignment_rows_ok (view d')" using ok unfolding assignment_rows_ok_def maps by blast
  moreover have "rows_kept [v] (view d) (view d')"
    unfolding rows_kept_def
  proof
    fix r assume r: "r \<in> set (av_rows (view d))"
    show "\<exists>r'\<in>set (av_rows (view d')). a_ID r' = a_ID r \<and> assignment_key r' = assignment_key r \<and>
        (assignment_key r \<notin> assignment_key ` set [v] \<longrightarrow> r' = r)"
      using r f [OF r] same [OF r] a by (intro bexI [of _ "?f r"]) (auto simp: rows)
  qed
  moreover have "?f a \<in> set (av_rows (view d'))" using a by (auto simp: rows)
  ultimately show ?thesis by auto
qed

section \<open>All of a course's assignments\<close>

lemma update_assignments_rows:
  assumes "assignment_reads_ok db view" and "assignment_writes_ok db view"
  shows "update_assignments db vs d = (errs, vs', d') \<Longrightarrow> assignment_rows_ok (view d) \<Longrightarrow>
    orders_read db vs d \<Longrightarrow> assignment_rows_ok (view d') \<and> rows_kept vs (view d) (view d')"
proof (induction vs arbitrary: d d' errs vs')
  case Nil
  then show ?case by (auto simp: rows_kept_def)
next
  case (Cons v vs)
  obtain v1 r where u: "update_one_assignment db v d = (v1, r)" by fastforce
  show ?case
  proof (cases r)
    case (Inl e)
    obtain errs2 vs2 d2 where t: "update_assignments db vs d = (errs2, vs2, d2)" by (metis prod_cases3)
    from Cons.IH [OF t] Cons.prems u Inl t show ?thesis by (auto simp: rows_kept_def)
  next
    case (Inr d1)
    obtain errs2 vs2 d2 where t: "update_assignments db vs d1 = (errs2, vs2, d2)" by (metis prod_cases3)
    have one: "assignment_rows_ok (view d1)" "rows_kept [v] (view d) (view d1)"
      using update_one_rows [OF assms Cons.prems(2), of v v1 d1] u Inr Cons.prems(3) by simp_all
    have "d2 = d'" using Cons.prems(1) u Inr t by simp
    moreover have "orders_read db vs d1" using Cons.prems(3) u Inr by simp
    ultimately have two: "assignment_rows_ok (view d')" "rows_kept vs (view d1) (view d')" using Cons.IH [OF t one(1)] by simp_all
    have "rows_kept (v # vs) (view d) (view d')"
      unfolding rows_kept_def
    proof
      fix r assume "r \<in> set (av_rows (view d))"
      with one(2) obtain r1 where r1: "r1 \<in> set (av_rows (view d1))" "a_ID r1 = a_ID r" "assignment_key r1 = assignment_key r"
        "assignment_key r \<noteq> assignment_key v \<Longrightarrow> r1 = r" by (auto simp: rows_kept_def)
      obtain r2 where "r2 \<in> set (av_rows (view d'))" "a_ID r2 = a_ID r1" "assignment_key r2 = assignment_key r1"
        "assignment_key r1 \<notin> assignment_key ` set vs \<Longrightarrow> r2 = r1"
        using bspec [OF two(2) [unfolded rows_kept_def] r1(1)] by blast
      with r1 show "\<exists>r'\<in>set (av_rows (view d')). a_ID r' = a_ID r \<and> assignment_key r' = assignment_key r \<and>
          (assignment_key r \<notin> assignment_key ` set (v # vs) \<longrightarrow> r' = r)" by (intro bexI [of _ r2]) auto
    qed
    with two(1) show ?thesis by simp
  qed
qed

lemma update_assignments_stored:
  assumes "assignment_reads_ok db view" and "assignment_writes_ok db view"
  shows "update_assignments db vs d = ([], vs', d') \<Longrightarrow> assignment_rows_ok (view d) \<Longrightarrow> distinct (map assignment_key vs) \<Longrightarrow>
    v \<in> set vs \<Longrightarrow> orders_read db vs d \<Longrightarrow> \<exists>i. (bare v)\<lparr>a_ID := i\<rparr> \<in> set (av_rows (view d'))"
proof (induction vs arbitrary: d vs')
  case (Cons w vs)
  obtain w1 d1 where u: "update_one_assignment db w d = (w1, Inr d1)"
    using Cons.prems(1) by (auto split: prod.splits sum.splits)
  obtain vs2 where t: "update_assignments db vs d1 = ([], vs2, d')"
    using Cons.prems(1) u by (auto split: prod.splits)
  have read: "order_read db w d" "orders_read db vs d1" using Cons.prems(5) u by simp_all
  note one = update_one_rows [OF assms Cons.prems(2) u read(1)]
  show ?case
  proof (cases "v \<in> set vs")
    case True
    with Cons.IH [OF t] one read Cons.prems show ?thesis by auto
  next
    case False
    with Cons.prems(4) have "v = w" by simp
    with one obtain i where i: "(bare v)\<lparr>a_ID := i\<rparr> \<in> set (av_rows (view d1))" by blast
    have "assignment_key ((bare v)\<lparr>a_ID := i\<rparr>) \<notin> assignment_key ` set vs"
      using Cons.prems(3) \<open>v = w\<close> by auto
    moreover have "rows_kept vs (view d1) (view d')"
      using update_assignments_rows [OF assms t] one read by simp
    ultimately show ?thesis using i unfolding rows_kept_def by blast
  qed
qed simp

text \<open>C13: \<open>UpdateAssignments\<close> never renumbers an assignment: identifiers and pairs of course and order stay
  unique, every stored row keeps both, a row that the tests repository does not mention stays as it was, and
  when no transaction fails and the orders differ, every assignment of the tests repository is stored with its
  new contents.  This holds whatever else fails, as long as the queries for the rows by their order do not: the code drops
  their error, and creates the assignment once more.\<close>

theorem assignments_keep_ids:
  assumes "assignment_reads_ok db view" and "assignment_writes_ok db view" and "assignment_rows_ok (view d)"
    and "orders_read db vs d" and "update_assignments db vs d = (errs, vs', d')"
  shows "assignment_rows_ok (view d') \<and> rows_kept vs (view d) (view d') \<and>
    (errs = [] \<and> distinct (map assignment_key vs) \<longrightarrow>
       (\<forall>v\<in>set vs. \<exists>i. (bare v)\<lparr>a_ID := i\<rparr> \<in> set (av_rows (view d'))))"
  using update_assignments_rows [OF assms(1,2,5,3,4)] update_assignments_stored [OF assms(1,2) _ assms(3)] assms(4,5)
  by blast

text \<open>The rows of the tests and the benchmarks of one assignment after its update.\<close>

lemma tests_after_adds:
  assumes "adds_tests a s s'"
  shows "tests_of j s' = tests_of j s @ (if j = a_ID a then drop (length (av_tests s)) (av_tests s') else [])"
    and "map (\<lambda>t. t\<lparr>ti_ID := 0\<rparr>) (drop (length (av_tests s)) (av_tests s')) =
      map (\<lambda>t. t\<lparr>ti_ID := 0, ti_AssignmentID := a_ID a\<rparr>) (a_ExpectedTests a)"
proof -
  from assms obtain ts where ts: "av_tests s' = av_tests s @ ts"
    "map (\<lambda>t. t\<lparr>ti_ID := 0\<rparr>) ts = map (\<lambda>t. t\<lparr>ti_ID := 0, ti_AssignmentID := a_ID a\<rparr>) (a_ExpectedTests a)"
    by (auto simp: adds_tests_def)
  have "ti_AssignmentID t = a_ID a" if "t \<in> set ts" for t
  proof -
    have "t\<lparr>ti_ID := 0\<rparr> \<in> (\<lambda>t. t\<lparr>ti_ID := 0, ti_AssignmentID := a_ID a\<rparr>) ` set (a_ExpectedTests a)"
      using arg_cong [OF ts(2), of set] that by auto
    then obtain u where "t\<lparr>ti_ID := 0\<rparr> = u\<lparr>ti_ID := 0, ti_AssignmentID := a_ID a\<rparr>" by blast
    then have "ti_AssignmentID (t\<lparr>ti_ID := 0\<rparr>) = ti_AssignmentID (u\<lparr>ti_ID := 0, ti_AssignmentID := a_ID a\<rparr>)" by simp
    then show ?thesis by simp
  qed
  then show "tests_of j s' = tests_of j s @ (if j = a_ID a then drop (length (av_tests s)) (av_tests s') else [])"
    by (auto simp: tests_of_def ts(1) filter_empty_conv)
  show "map (\<lambda>t. t\<lparr>ti_ID := 0\<rparr>) (drop (length (av_tests s)) (av_tests s')) =
      map (\<lambda>t. t\<lparr>ti_ID := 0, ti_AssignmentID := a_ID a\<rparr>) (a_ExpectedTests a)"
    using ts by simp
qed

lemma tests_of_filter:
  "tests_of j (s\<lparr>av_tests := filter (\<lambda>t. ti_AssignmentID t \<noteq> i) (av_tests s)\<rparr>) = (if j = i then [] else tests_of j s)"
  unfolding tests_of_def by (auto simp: filter_empty_conv intro!: filter_cong)

lemma unsaved_upd: "unsaved (a\<lparr>a_ID := i\<rparr>) = unsaved a"
    "unsaved a \<Longrightarrow> unsaved (a\<lparr>a_gradingBenchmarks := []\<rparr>)"
  by (simp_all add: unsaved_def)

lemma benchmarks_of_ids:
  assumes "benchmark_ids s = filter (\<lambda>(i, as, r). \<not> (as = x \<and> r = 0)) bs"
  shows "benchmarks_of x s = []"
proof -
  have "\<not> (bm_AssignmentID b = x \<and> bm_ReviewID b = 0)" if "b \<in> set (av_benchmarks s)" for b
  proof -
    have "(bm_ID b, bm_AssignmentID b, bm_ReviewID b) \<in> set (benchmark_ids s)" using that by (auto simp: benchmark_ids_def)
    then show ?thesis unfolding assms by simp
  qed
  then show ?thesis by (auto simp: benchmarks_of_def filter_empty_conv)
qed

lemma filter_added:
  assumes "\<forall>b\<in>set bs. bm_AssignmentID b = x \<and> bm_ReviewID b = 0" and "av_benchmarks s' = av_benchmarks s @ bs"
  shows "benchmarks_of x s' = benchmarks_of x s @ bs"
    and "filter (\<lambda>(i, as, r). \<not> (as = x \<and> r = 0)) (benchmark_ids s') = filter (\<lambda>(i, as, r). \<not> (as = x \<and> r = 0)) (benchmark_ids s)"
  using assms by (auto simp: benchmarks_of_def benchmark_ids_def filter_empty_conv filter_id_conv)

text \<open>Updating an assignment that exists leaves the expected tests of the other assignments alone and
  replaces its own by the new ones, unless there are none in the tests repository: then the old ones stay.
  When the grading criteria are missing or unchanged the stored ones are not touched; otherwise exactly the
  criteria of the assignment, not the copies in its reviews, are replaced by the new ones.\<close>

lemma tests_and_criteria_replaced:
  assumes "assignment_reads_ok db view" and "assignment_writes_ok db view" and "result_rows_ok (view d)" and "assignment_rows_ok (view d)"
    and "existing v (view d) = Some a" and "unsaved v" and "update_one_assignment db v d = (v', Inr d')"
    and "order_read db v d"
  shows "(\<forall>j. j \<noteq> a_ID a \<longrightarrow> tests_of j (view d') = tests_of j (view d)) \<and>
    (if a_ExpectedTests v = [] then tests_of (a_ID a) (view d') = tests_of (a_ID a) (view d)
     else map (\<lambda>t. t\<lparr>ti_ID := 0\<rparr>) (tests_of (a_ID a) (view d')) =
       map (\<lambda>t. t\<lparr>ti_ID := 0, ti_AssignmentID := a_ID a\<rparr>) (a_ExpectedTests v)) \<and>
    (if a_gradingBenchmarks v = [] \<or> map norm_benchmark (a_gradingBenchmarks v) = map norm_benchmark (benchmarks_of (a_ID a) (view d))
     then av_benchmarks (view d') = av_benchmarks (view d)
     else map norm_benchmark (benchmarks_of (a_ID a) (view d')) = map norm_benchmark (a_gradingBenchmarks v) \<and>
       filter (\<lambda>(i, as, r). \<not> (as = a_ID a \<and> r = 0)) (benchmark_ids (view d')) =
       filter (\<lambda>(i, as, r). \<not> (as = a_ID a \<and> r = 0)) (benchmark_ids (view d)))"
  using assms(1,8,7)
proof (cases rule: update_one_assignmentE)
  case new
  with assms(5) show ?thesis by simp
next
  case (old a0 v1 d1 d2)
  then have [simp]: "a0 = a" using assms(5) by simp
  have i: "a_ID a \<noteq> 0" using existing_SomeD [OF old(1)] assms(4) by (simp add: assignment_rows_ok_def)
  let ?same = "a_gradingBenchmarks v = [] \<or> map norm_benchmark (a_gradingBenchmarks v) = map norm_benchmark (benchmarks_of (a_ID a) (view d))"
  have ids: "distinct (map ti_ID (av_tests (view d)))" "distinct (map bm_ID (av_benchmarks (view d)))"
    using assms(3) by (simp_all add: result_rows_ok_def)
  note g = update_grading_criteria_view [OF assms(1,2) ids(2) old(2), simplified, OF i]
  have v1: "v1 = (if ?same then v\<lparr>a_ID := a_ID a, a_gradingBenchmarks := []\<rparr> else v\<lparr>a_ID := a_ID a\<rparr>)"
    using g by (auto split: if_splits)
  then have fields: "a_ID v1 = a_ID a" "a_ExpectedTests v1 = a_ExpectedTests v"
      "a_gradingBenchmarks v1 = (if ?same then [] else a_gradingBenchmarks v)" by auto
  have "unsaved v1" using assms(6) by (simp add: v1 unsaved_upd unsaved_def)
  with assignment_writes_okD(2) [OF assms(2) old(4)]
  have added: "adds_tests v1 (view d2) (view d')" "adds_benchmarks v1 (view d2) (view d')" by simp_all
  have tests1: "av_tests (view d1) = av_tests (view d)" using g by simp
  note t = update_expected_tests_view [OF assms(1,2) ids(1) [folded tests1] old(3), unfolded fields tests1, OF i]
  note one = tests_after_adds [OF added(1), unfolded fields]
  have tests2: "tests_of j (view d2) = (if a_ExpectedTests v \<noteq> [] \<and> j = a_ID a then [] else tests_of j (view d))" for j
    unfolding t using tests_of_filter [of j "a_ID a" "view d"] by (auto simp: tests_of_def tests1)
  have bm2: "av_benchmarks (view d2) = av_benchmarks (view d1)" unfolding t by simp
  then have ids2: "benchmark_ids (view d2) = benchmark_ids (view d1)" by (simp add: benchmark_ids_def)
  from added(2) obtain bs where bs: "av_benchmarks (view d') = av_benchmarks (view d2) @ bs"
    "map norm_benchmark bs = map norm_benchmark (a_gradingBenchmarks v1)" "\<forall>b\<in>set bs. bm_AssignmentID b = a_ID a \<and> bm_ReviewID b = 0"
    unfolding adds_benchmarks_def fields by blast
  have criteria: "if ?same then av_benchmarks (view d') = av_benchmarks (view d)
     else map norm_benchmark (benchmarks_of (a_ID a) (view d')) = map norm_benchmark (a_gradingBenchmarks v) \<and>
       filter (\<lambda>(i, as, r). \<not> (as = a_ID a \<and> r = 0)) (benchmark_ids (view d')) =
       filter (\<lambda>(i, as, r). \<not> (as = a_ID a \<and> r = 0)) (benchmark_ids (view d))"
  proof (cases ?same)
    case True
    with g bs fields bm2 show ?thesis by auto
  next
    case False
    then have del: "benchmark_ids (view d2) = filter (\<lambda>(i, as, r). \<not> (as = a_ID a \<and> r = 0)) (benchmark_ids (view d))"
      using g ids2 by auto
    from benchmarks_of_ids [OF del] have none: "benchmarks_of (a_ID a) (view d2) = []" .
    have "map norm_benchmark (benchmarks_of (a_ID a) (view d')) = map norm_benchmark (a_gradingBenchmarks v)"
      unfolding filter_added(1) [OF bs(3,1)] none using bs(2) fields(3) False by simp
    moreover have "filter (\<lambda>(i, as, r). \<not> (as = a_ID a \<and> r = 0)) (benchmark_ids (view d')) =
       filter (\<lambda>(i, as, r). \<not> (as = a_ID a \<and> r = 0)) (benchmark_ids (view d))"
      unfolding filter_added(2) [OF bs(3,1)] del by (simp add: filter_filter conj_absorb)
    ultimately show ?thesis using False by simp
  qed
  have tests: "(\<forall>j. j \<noteq> a_ID a \<longrightarrow> tests_of j (view d') = tests_of j (view d)) \<and>
    (if a_ExpectedTests v = [] then tests_of (a_ID a) (view d') = tests_of (a_ID a) (view d)
     else map (\<lambda>t. t\<lparr>ti_ID := 0\<rparr>) (tests_of (a_ID a) (view d')) =
       map (\<lambda>t. t\<lparr>ti_ID := 0, ti_AssignmentID := a_ID a\<rparr>) (a_ExpectedTests v))"
    using one tests2 by auto
  show ?thesis using criteria tests by blast
qed

section \<open>Assignments in lists\<close>

text \<open>A database of lists that does what the statements document.\<close>

definition fresh_id :: "u64 list \<Rightarrow> u64 option" where
  "fresh_id is = find (\<lambda>i. i \<noteq> 0 \<and> i \<notin> set is) (map of_nat [1..<length is + 2])"

definition save_results_of :: "assignment \<Rightarrow> assignment_view \<Rightarrow> assignment_view" where
  "save_results_of a d = d\<lparr>av_tests := av_tests d @ map (\<lambda>t. t\<lparr>ti_AssignmentID := a_ID a\<rparr>) (a_ExpectedTests a),
     av_benchmarks := av_benchmarks d @ map (\<lambda>b. b\<lparr>bm_AssignmentID := a_ID a\<rparr>) (a_gradingBenchmarks a)\<rparr>"

definition list_adb :: "assignment_view assignment_db" where
  "list_adb = sub_db.extend
     \<lparr>sq_user_count = \<lambda>i d. Inr 0, sq_group_count = \<lambda>i d. Inr 0, sq_assignment_count = \<lambda>i d. Inr 0,
       sq_last = \<lambda>q d. Inl RecordNotFound, sq_find = \<lambda>q d. Inr [], sq_first = \<lambda>i d. Inl RecordNotFound,
       sq_delete_scores = \<lambda>i d. Inr d, sq_delete_build_infos = \<lambda>i d. Inr d, sq_members = \<lambda>g d. [],
       sq_assignment = \<lambda>q d. if result_rows_ok d then Inr q else Inl InvalidAssignmentID,
       sq_course_assignments = \<lambda>c d. Inr (filter (\<lambda>a. a_CourseID a = c) (av_rows d)),
       sq_benchmarks = \<lambda>i d. Inr (benchmarks_of i d),
       sq_criteria = \<lambda>i d. case find (\<lambda>b. bm_ID b = i) (av_benchmarks d) of Some b \<Rightarrow> Inr (bm_criteria b) | None \<Rightarrow> Inr [],
       sq_save = \<lambda>s d. Inr (s, d), sq_update = \<lambda>s d. Inr d, sq_create_review = \<lambda>r d. Inr (r, d)\<rparr>
     (assignment_db.fields (\<lambda>c d. Inr 1) (\<lambda>c k a d. Inl RecordNotFound)
       (\<lambda>c k d. Inr (find (\<lambda>a. assignment_key a = (c, k)) (av_rows d)))
       (\<lambda>a d. case fresh_id (map a_ID (av_rows d)) of
                None \<Rightarrow> Inl InvalidAssignmentID
              | Some i \<Rightarrow> let a = a\<lparr>a_ID := i\<rparr> in Inr (a, save_results_of a (d\<lparr>av_rows := av_rows d @ [bare a]\<rparr>)))
       (\<lambda>a d. Inr (a, save_results_of a (d\<lparr>av_rows := map (\<lambda>r. if a_ID r = a_ID a then bare a else r) (av_rows d)\<rparr>)))
       (\<lambda>i d. Inr (tests_of i d))
       (\<lambda>t d. Inr (d\<lparr>av_tests := filter (\<lambda>x. ti_ID x \<noteq> ti_ID t) (av_tests d)\<rparr>))
       (\<lambda>i d. Inl RecordNotFound) (\<lambda>b d. Inr d) (\<lambda>b d. Inr d)
       (\<lambda>b d. Inr (d\<lparr>av_benchmarks := filter (\<lambda>x. bm_ID x \<noteq> bm_ID b) (av_benchmarks d)\<rparr>))
       (\<lambda>c d. Inr d) (\<lambda>c d. Inr d)
       (\<lambda>c d. Inr (d\<lparr>av_benchmarks := map (\<lambda>b. b\<lparr>bm_criteria := filter (\<lambda>x. cr_ID x \<noteq> cr_ID c) (bm_criteria b)\<rparr>) (av_benchmarks d)\<rparr>))
       (\<lambda>i d. Inr d) (\<lambda>f d. Inr d) (\<lambda>i u d. Inr d) (\<lambda>i d. Inr []))"

lemma find_bm_ID:
  "distinct (map bm_ID bs) \<Longrightarrow> b \<in> set bs \<Longrightarrow> find (\<lambda>x. bm_ID x = bm_ID b) bs = Some b"
  by (induction bs) auto

lemma list_adb_criteria:
  assumes "distinct (map bm_ID (av_benchmarks d))" and "set bs \<subseteq> set (av_benchmarks d)"
  shows "with_criteria (asdb list_adb) bs d = Inr bs"
  using assms(2) find_bm_ID [OF assms(1)]
  by (induction bs) (simp_all add: list_adb_def sub_db.extend_def sub_db.truncate_def)

lemma list_adb_reads: "assignment_reads_ok list_adb id"
proof -
  have g: "get_benchmarks (asdb list_adb) (zero_assignment\<lparr>a_ID := i\<rparr>) d =
      (if result_rows_ok d then Inr (benchmarks_of i d) else Inl InvalidAssignmentID)" for i d
    using list_adb_criteria [of d "benchmarks_of i d"]
    by (auto simp: get_benchmarks_def result_rows_ok_def benchmarks_of_def) (auto simp: list_adb_def sub_db.extend_def sub_db.truncate_def result_rows_ok_def benchmarks_of_def)
  show ?thesis unfolding assignment_reads_ok_def g
    by (simp add: list_adb_def sub_db.extend_def assignment_db.fields_def)
qed

lemma list_adb_order_read: "order_read list_adb v d"
  by (simp add: order_read_def list_adb_def sub_db.extend_def assignment_db.fields_def)

lemma list_adb_order_reads: "orders_read list_adb vs d"
  by (induction vs arbitrary: d) (simp_all add: list_adb_order_read)

lemma fresh_id_Some: "fresh_id is = Some i \<Longrightarrow> i \<noteq> 0 \<and> i \<notin> set is"
  by (auto simp: fresh_id_def find_Some_iff)

lemma rows_save_results_of: "av_rows (save_results_of a d) = av_rows d"
  by (simp add: save_results_of_def)

lemma list_adb_writes: "assignment_writes_ok list_adb id"
proof -
  have "adds_tests a d (save_results_of a d')" if "unsaved a" "av_tests d' = av_tests d" for a d d'
    using that by (auto simp: adds_tests_def save_results_of_def unsaved_def)
  moreover have "adds_benchmarks a d (save_results_of a d')" if "unsaved a" "av_benchmarks d' = av_benchmarks d" for a d d'
    using that by (auto simp: adds_benchmarks_def save_results_of_def unsaved_def norm_benchmark_def)
  moreover have "\<exists>f. d\<lparr>av_benchmarks := map (\<lambda>b. b\<lparr>bm_criteria := g b\<rparr>) (av_benchmarks d)\<rparr> = d\<lparr>av_benchmarks := map f (av_benchmarks d)\<rparr> \<and>
      (\<forall>b. bm_ID (f b) = bm_ID b \<and> bm_AssignmentID (f b) = bm_AssignmentID b \<and> bm_ReviewID (f b) = bm_ReviewID b)" for d g
    by (intro exI [of _ "\<lambda>b. b\<lparr>bm_criteria := g b\<rparr>"]) simp
  ultimately show ?thesis unfolding assignment_writes_ok_def list_adb_def sub_db.extend_def assignment_db.fields_def
    by (auto simp: Let_def rows_save_results_of dest!: fresh_id_Some split: option.splits)
qed

text \<open>A course with one assignment, whose tests and criteria change, and a new one.\<close>

definition sample_criterion :: "u64 \<Rightarrow> u64 \<Rightarrow> string \<Rightarrow> criterion" where
  "sample_criterion i b t = \<lparr>cr_ID = i, cr_BenchmarkID = b, cr_CourseID = 1, cr_points = 5, cr_description = t, cr_grade = CG_NONE, cr_comment = []\<rparr>"

definition sample_benchmark :: "u64 \<Rightarrow> u64 \<Rightarrow> u64 \<Rightarrow> string \<Rightarrow> benchmark" where
  "sample_benchmark i a r t = \<lparr>bm_ID = i, bm_CourseID = 1, bm_AssignmentID = a, bm_ReviewID = r, bm_heading = t, bm_comment = [],
     bm_criteria = if i = 0 then [] else [sample_criterion i i t]\<rparr>"

definition sample_test :: "u64 \<Rightarrow> u64 \<Rightarrow> string \<Rightarrow> test_info" where
  "sample_test i a t = \<lparr>ti_ID = i, ti_AssignmentID = a, ti_TestName = t, ti_MaxScore = 10, ti_Weight = 1, ti_Details = []\<rparr>"

definition sample_assignments :: assignment_view where
  "sample_assignments = \<lparr>av_rows = [zero_assignment\<lparr>a_ID := 7, a_CourseID := 1, a_order := 1, a_name := ''lab1''\<rparr>,
       zero_assignment\<lparr>a_ID := 8, a_CourseID := 1, a_order := 2, a_name := ''lab2''\<rparr>],
     av_tests = [sample_test 1 7 ''A'', sample_test 2 8 ''B''],
     av_benchmarks = [sample_benchmark 1 7 0 ''style'', sample_benchmark 2 7 4 ''style'', sample_benchmark 3 8 0 ''docs'']\<rparr>"

definition sample_update :: assignment where
  "sample_update = zero_assignment\<lparr>a_CourseID := 1, a_order := 1, a_name := ''lab1-new'',
     a_ExpectedTests := [sample_test 0 0 ''C''], a_gradingBenchmarks := [sample_benchmark 0 0 0 ''layout'']\<rparr>"

lemma sample_assignments_ok: "assignment_rows_ok (id sample_assignments)" "result_rows_ok (id sample_assignments)"
  by (simp_all add: assignment_rows_ok_def result_rows_ok_def sample_assignments_def assignment_key_def zero_assignment_def
      sample_test_def sample_benchmark_def)

lemma sample_update_one: "isl (snd (update_one_assignment list_adb sample_update sample_assignments)) = False"
  by code_simp

lemma assignments_keep_ids_witness:
  "\<exists>vs' d'. update_assignments list_adb [sample_update, sample_update\<lparr>a_order := 3\<rparr>] sample_assignments = ([], vs', d') \<and>
     rows_kept [sample_update, sample_update\<lparr>a_order := 3\<rparr>] sample_assignments d' \<and>
     (\<exists>i. (bare (sample_update\<lparr>a_order := 3\<rparr>))\<lparr>a_ID := i\<rparr> \<in> set (av_rows d'))"
proof -
  let ?u = "update_assignments list_adb [sample_update, sample_update\<lparr>a_order := 3\<rparr>] sample_assignments"
  have "fst ?u = []" by code_simp
  then obtain vs' d' where u: "?u = ([], vs', d')" by (cases ?u) auto
  have "distinct (map assignment_key [sample_update, sample_update\<lparr>a_order := 3\<rparr>])"
    by (simp add: assignment_key_def sample_update_def)
  with assignments_keep_ids [OF list_adb_reads list_adb_writes sample_assignments_ok(1) list_adb_order_reads u] u show ?thesis
    by (simp del: update_assignments.simps)
qed

text \<open>The same database, but the query for the row fails: the assignment of the course and order is there twice.\<close>

definition unread_adb :: "assignment_view assignment_db" where
  "unread_adb = list_adb\<lparr>aq_by_order := \<lambda>c k d. Inl (Failed ''database is locked'')\<rparr>"

lemma failed_query_duplicates:
  "map assignment_key (av_rows (snd (snd (update_assignments unread_adb [sample_update] sample_assignments)))) =
     [(1, 1), (1, 2), (1, 1)]"
  by code_simp

lemma tests_and_criteria_replaced_witness:
  "\<exists>v' d'. update_one_assignment list_adb sample_update sample_assignments = (v', Inr d') \<and>
     tests_of 8 d' = tests_of 8 sample_assignments \<and> map ti_TestName (tests_of 7 d') = [''C''] \<and>
     map norm_benchmark (benchmarks_of 7 d') = [norm_benchmark (sample_benchmark 0 0 0 ''layout'')]"
proof -
  obtain v' r where "update_one_assignment list_adb sample_update sample_assignments = (v', r)" by fastforce
  with sample_update_one obtain d' where u: "update_one_assignment list_adb sample_update sample_assignments = (v', Inr d')"
    by (cases r) simp_all
  let ?a = "zero_assignment\<lparr>a_ID := 7, a_CourseID := 1, a_order := 1, a_name := ''lab1''\<rparr>"
  have e: "existing sample_update (id sample_assignments) = Some ?a"
    by (simp add: existing_def sample_update_def sample_assignments_def assignment_key_def zero_assignment_def)
  have n: "unsaved sample_update" by (simp add: unsaved_def sample_update_def sample_test_def sample_benchmark_def)
  note c = tests_and_criteria_replaced [OF list_adb_reads list_adb_writes sample_assignments_ok(2,1) e n u list_adb_order_read, simplified]
  have x: "a_ExpectedTests sample_update = [sample_test 0 0 ''C'']" "a_gradingBenchmarks sample_update = [sample_benchmark 0 0 0 ''layout'']"
    by (simp_all add: sample_update_def)
  have "map norm_benchmark (benchmarks_of 7 sample_assignments) \<noteq> [norm_benchmark (sample_benchmark 0 0 0 ''layout'')]"
    by code_simp
  moreover have "map (ti_TestName \<circ> (\<lambda>t. t\<lparr>ti_ID := 0\<rparr>)) (tests_of 7 d') = [''C'']"
    using arg_cong [OF c [THEN conjunct2, THEN conjunct1, unfolded x, simplified], of "map ti_TestName"] by (simp add: sample_test_def)
  ultimately show ?thesis using c u x by (auto simp: comp_def)
qed

end
