(* ===== verification/Task_Store.thy ===== *)
theory Task_Store
  imports Assignment_Store Entities Slice_Sort "HOL-Library.AList"
begin

text \<open>
  Tasks, issues and pull requests in the database: \<open>database/gormdb_tasks.go\<close>, and the map of the tasks that
  the tests repository has (\<open>tasksFromAssignments\<close> of \<open>assignments/tasks.go\<close>).
\<close>

section \<open>Statements\<close>

record 'd task_db = "'d assignment_db" +
  tq_find :: "task \<Rightarrow> 'd \<Rightarrow> db_error + task list"
  tq_tasks :: "u64 \<Rightarrow> 'd \<Rightarrow> db_error + task list"
  tq_delete_issues :: "u64 \<Rightarrow> 'd \<Rightarrow> db_error + 'd"
  tq_delete_task :: "task \<Rightarrow> 'd \<Rightarrow> db_error + 'd"
  tq_update_task :: "task \<Rightarrow> 'd \<Rightarrow> db_error + 'd"
  tq_create_task :: "task \<Rightarrow> 'd \<Rightarrow> db_error + (task \<times> 'd)"
  tq_create_issues :: "issue list \<Rightarrow> 'd \<Rightarrow> db_error + 'd"
  tq_repositories :: "repository \<Rightarrow> 'd \<Rightarrow> db_error + repository list"
  tq_create_pr :: "pull_request \<Rightarrow> 'd \<Rightarrow> db_error + 'd"
  tq_last_pr :: "pull_request \<Rightarrow> 'd \<Rightarrow> db_error + pull_request"
  tq_delete_pr :: "pull_request \<Rightarrow> 'd \<Rightarrow> db_error + 'd"
  tq_update_pr :: "pull_request \<Rightarrow> 'd \<Rightarrow> db_error + 'd"

abbreviation tadb :: "'d task_db \<Rightarrow> 'd assignment_db" where
  "tadb db \<equiv> assignment_db.truncate db"

definition get_tasks :: "'d task_db \<Rightarrow> task \<Rightarrow> 'd \<Rightarrow> db_error + task list" where
  "get_tasks db query d = bind_res (tq_find db query d) (\<lambda>ts. if ts = [] then Inl RecordNotFound else Inr ts)"

definition create_issues_in_db :: "'d task_db \<Rightarrow> issue list \<Rightarrow> 'd \<Rightarrow> db_error + 'd" where
  "create_issues_in_db db issues d = (if issues = [] then Inr d else tq_create_issues db issues d)"

definition get_repositories_with_issues :: "'d task_db \<Rightarrow> repository \<Rightarrow> 'd \<Rightarrow> db_error + repository list" where
  "get_repositories_with_issues db query d = tq_repositories db query d"

section \<open>The tasks of the tests repository\<close>

text \<open>
  The map of an order is the list of its entries, the map of maps a function; an order that is not there has
  the nil map, which reads as an empty one.
\<close>

type_synonym task_entries = "(string \<times> task) list"

definition entries_of :: "task list \<Rightarrow> task_entries" where
  "entries_of ts = fold (\<lambda>t. AList.update (t_name t) t) ts []"

definition tasks_from_assignments :: "assignment list \<Rightarrow> u32 \<Rightarrow> task_entries" where
  "tasks_from_assignments as = fold (\<lambda>a m. m(a_order a := entries_of (a_tasks a))) as (\<lambda>_. [])"

section \<open>Synchronizing the tasks of the assignments\<close>

text \<open>
  The loop over the stored tasks of an assignment; it removes from the map what it finds there.  The stored
  task that it deletes is marked in memory after the row is gone.
\<close>

fun sync_existing :: "'d task_db \<Rightarrow> task list \<Rightarrow> task_entries \<Rightarrow> task list \<Rightarrow> 'd \<Rightarrow> db_error + (task_entries \<times> task list \<times> 'd)" where
  "sync_existing db [] m upd d = Inr (m, upd, d)"
| "sync_existing db (e # es) m upd d =
     (case map_of m (t_name e) of
        None \<Rightarrow>
          bind_res (tq_delete_issues db (t_ID e) d) (\<lambda>d.
          bind_res (tq_delete_task db e d) (\<lambda>d. sync_existing db es m (upd @ [mark_deleted e]) d))
      | Some t \<Rightarrow>
          if has_changed e t
          then let e = e\<lparr>t_title := t_title t, t_body := t_body t\<rparr> in
               bind_res (tq_update_task db e d) (\<lambda>d. sync_existing db es (AList.delete (t_name e) m) (upd @ [e]) d)
          else sync_existing db es (AList.delete (t_name e) m) upd d)"

text \<open>\<open>iter\<close> is the order in which \<open>range\<close> visits what is left of the map.\<close>

fun sync_assignments ::
    "'d task_db \<Rightarrow> (task_entries \<Rightarrow> task list) \<Rightarrow> assignment list \<Rightarrow> (u32 \<Rightarrow> task_entries) \<Rightarrow> task list \<Rightarrow> task list \<Rightarrow> 'd
       \<Rightarrow> db_error + (task list \<times> task list \<times> 'd)" where
  "sync_assignments db iter [] m created updated d = Inr (created, updated, d)"
| "sync_assignments db iter (a # as) m created updated d =
     bind_res (tq_tasks db (a_ID a) d) (\<lambda>es.
     bind_res (sync_existing db es (m (a_order a)) updated d) (\<lambda>(left, updated, d).
       let new = map (\<lambda>t. t\<lparr>t_assignmentID := a_ID a\<rparr>) (iter left)
       in sync_assignments db iter as (m(a_order a := left)) (created @ new) updated d))"

fun create_tasks :: "'d task_db \<Rightarrow> task list \<Rightarrow> 'd \<Rightarrow> db_error + (task list \<times> 'd)" where
  "create_tasks db [] d = Inr ([], d)"
| "create_tasks db (t # ts) d =
     bind_res (tq_create_task db t d) (\<lambda>(t, d). bind_res (create_tasks db ts d) (\<lambda>(ts, d). Inr (t # ts, d)))"

text \<open>\<open>sorter\<close> is \<open>sort.Slice\<close>; an error rolls the transaction back.\<close>

definition synchronize_assignment_tasks ::
    "'d task_db \<Rightarrow> ((task \<Rightarrow> task \<Rightarrow> bool) \<Rightarrow> task list \<Rightarrow> task list) \<Rightarrow> (task_entries \<Rightarrow> task list) \<Rightarrow> u64 \<Rightarrow> (u32 \<Rightarrow> task_entries) \<Rightarrow> 'd
       \<Rightarrow> db_error + (task list \<times> task list \<times> 'd)" where
  "synchronize_assignment_tasks db sorter iter courseID m d =
     bind_res (get_assignments_by_course (tadb db) courseID d) (\<lambda>as.
     bind_res (sync_assignments db iter as m [] [] d) (\<lambda>(created, updated, d).
     bind_res (create_tasks db (sorter (\<lambda>x y. t_ID x < t_ID y) created) d) (\<lambda>(created, d). Inr (created, updated, d))))"

section \<open>Pull requests\<close>

definition create_pull_request :: "'d task_db \<Rightarrow> pull_request \<Rightarrow> 'd \<Rightarrow> db_error + 'd" where
  "create_pull_request db pr d =
     (if \<not> pr_valid pr then Inl (Failed ''pull request is not valid for creation'') else tq_create_pr db (set_draft pr) d)"

definition get_pull_request :: "'d task_db \<Rightarrow> pull_request \<Rightarrow> 'd \<Rightarrow> db_error + pull_request" where
  "get_pull_request db query d = tq_last_pr db query d"

definition update_pull_request :: "'d task_db \<Rightarrow> pull_request \<Rightarrow> 'd \<Rightarrow> db_error + 'd" where
  "update_pull_request db pr d = tq_update_pr db pr d"

text \<open>
  The issue of an approved pull request is read into a nil pointer, which GORM refuses: the row is found by no
  statement, and the pull request stays.
\<close>

definition handle_merging_pr :: "'d task_db \<Rightarrow> pull_request \<Rightarrow> 'd \<Rightarrow> db_error + 'd" where
  "handle_merging_pr db pr d =
     (if \<not> pr_is_approved pr then tq_delete_pr db pr d else Inl (Failed ''invalid value, should be pointer to struct or slice''))"

section \<open>What the statements do\<close>

record task_view =
  tv_tasks :: "task list"
  tv_issues :: "issue list"

definition task_rows_ok :: "task_view \<Rightarrow> bool" where
  "task_rows_ok s \<longleftrightarrow> distinct (map t_ID (tv_tasks s)) \<and> (\<forall>t\<in>set (tv_tasks s). t_ID t \<noteq> 0) \<and>
     distinct (map (\<lambda>t. (t_assignmentID t, t_name t)) (tv_tasks s))"

text \<open>The unique index of the table.\<close>

abbreviation task_key :: "task \<Rightarrow> u64 \<times> string" where
  "task_key t \<equiv> (t_assignmentID t, t_name t)"

definition assigned :: "u64 \<Rightarrow> task_view \<Rightarrow> task list" where
  "assigned i s = filter (\<lambda>t. t_assignmentID t = i) (tv_tasks s)"

definition task_db_ok :: "'d task_db \<Rightarrow> ('d \<Rightarrow> task_view) \<Rightarrow> bool" where
  "task_db_ok db view \<longleftrightarrow>
     (\<forall>i d ts. i \<noteq> 0 \<longrightarrow> tq_tasks db i d = Inr ts \<longrightarrow> ts = assigned i (view d)) \<and>
     (\<forall>i d d'. i \<noteq> 0 \<longrightarrow> tq_delete_issues db i d = Inr d' \<longrightarrow>
        view d' = (view d)\<lparr>tv_issues := filter (\<lambda>x. i_taskID x \<noteq> i) (tv_issues (view d))\<rparr>) \<and>
     (\<forall>t d d'. t_ID t \<noteq> 0 \<longrightarrow> tq_delete_task db t d = Inr d' \<longrightarrow>
        view d' = (view d)\<lparr>tv_tasks := filter (\<lambda>x. t_ID x \<noteq> t_ID t) (tv_tasks (view d))\<rparr>) \<and>
     (\<forall>t d d'. t_ID t \<noteq> 0 \<longrightarrow> tq_update_task db t d = Inr d' \<longrightarrow>
        view d' = (view d)\<lparr>tv_tasks := map (\<lambda>x. if t_ID x = t_ID t then t else x) (tv_tasks (view d))\<rparr>) \<and>
     (\<forall>t d t' d'. t_ID t = 0 \<longrightarrow> tq_create_task db t d = Inr (t', d') \<longrightarrow>
        t_ID t' \<noteq> 0 \<and> t_ID t' \<notin> t_ID ` set (tv_tasks (view d)) \<and> t' = t\<lparr>t_ID := t_ID t'\<rparr> \<and>
        view d' = (view d)\<lparr>tv_tasks := tv_tasks (view d) @ [t']\<rparr>)"

lemma task_db_okD:
  assumes "task_db_ok db view"
  shows "i \<noteq> 0 \<Longrightarrow> tq_tasks db i d = Inr ts \<Longrightarrow> ts = assigned i (view d)"
    and "i \<noteq> 0 \<Longrightarrow> tq_delete_issues db i d = Inr d' \<Longrightarrow>
      view d' = (view d)\<lparr>tv_issues := filter (\<lambda>x. i_taskID x \<noteq> i) (tv_issues (view d))\<rparr>"
    and "t_ID t \<noteq> 0 \<Longrightarrow> tq_delete_task db t d = Inr d' \<Longrightarrow>
      view d' = (view d)\<lparr>tv_tasks := filter (\<lambda>x. t_ID x \<noteq> t_ID t) (tv_tasks (view d))\<rparr>"
    and "t_ID t \<noteq> 0 \<Longrightarrow> tq_update_task db t d = Inr d' \<Longrightarrow>
      view d' = (view d)\<lparr>tv_tasks := map (\<lambda>x. if t_ID x = t_ID t then t else x) (tv_tasks (view d))\<rparr>"
    and "t_ID t = 0 \<Longrightarrow> tq_create_task db t d = Inr (t', d') \<Longrightarrow>
      t_ID t' \<noteq> 0 \<and> t_ID t' \<notin> t_ID ` set (tv_tasks (view d)) \<and> t' = t\<lparr>t_ID := t_ID t'\<rparr> \<and>
      view d' = (view d)\<lparr>tv_tasks := tv_tasks (view d) @ [t']\<rparr>"
  using assms unfolding task_db_ok_def by blast+

section \<open>The stored tasks of one assignment\<close>

text \<open>What the loop makes of a stored task: nothing, or the task with the new text.\<close>

definition revised :: "task_entries \<Rightarrow> task \<Rightarrow> task option" where
  "revised m e = map_option (\<lambda>t. e\<lparr>t_title := t_title t, t_body := t_body t\<rparr>) (map_of m (t_name e))"

definition revise :: "task_entries \<Rightarrow> u64 set \<Rightarrow> task \<Rightarrow> task option" where
  "revise m I x = (if t_ID x \<in> I then revised m x else Some x)"

definition gone :: "task_entries \<Rightarrow> task list \<Rightarrow> u64 set" where
  "gone m es = {t_ID e | e. e \<in> set es \<and> map_of m (t_name e) = None}"

lemma unchanged: "\<not> has_changed e t \<Longrightarrow> e\<lparr>t_title := t_title t, t_body := t_body t\<rparr> = e"
  by (cases e) (simp add: has_changed_def)

lemma map_filter_filter: "List.map_filter f (filter P xs) = List.map_filter (\<lambda>x. if P x then f x else None) xs"
  by (induction xs) (auto simp: List.map_filter_simps split: option.splits)

lemma map_filter_map: "List.map_filter f (map g xs) = List.map_filter (f \<circ> g) xs"
  by (induction xs) (auto simp: List.map_filter_simps split: option.splits)

lemma map_filter_cong': "(\<And>x. x \<in> set xs \<Longrightarrow> f x = g x) \<Longrightarrow> List.map_filter f xs = List.map_filter g xs"
  by (induction xs) (auto simp: List.map_filter_simps split: option.splits)

lemma map_of_delete: "map_of (AList.delete k m) n = (if n = k then None else map_of m n)"
  by (simp add: delete_conv')

lemma sync_existing_view:
  assumes ok: "task_db_ok db view"
  shows "sync_existing db es m upd d = Inr (left, upd', d') \<Longrightarrow> distinct (map t_name es) \<Longrightarrow> set es \<subseteq> set (tv_tasks (view d)) \<Longrightarrow>
    distinct (map t_ID (tv_tasks (view d))) \<Longrightarrow> (\<forall>e\<in>set es. t_ID e \<noteq> 0) \<Longrightarrow>
    left = filter (\<lambda>(n, t). n \<notin> t_name ` set es) m \<and>
    tv_tasks (view d') = List.map_filter (revise m (t_ID ` set es)) (tv_tasks (view d)) \<and>
    tv_issues (view d') = filter (\<lambda>x. i_taskID x \<notin> gone m es) (tv_issues (view d)) \<and>
    (\<forall>u\<in>set upd'. u \<in> set upd \<or> t_ID u \<in> gone m es \<or> (\<exists>t. map_of m (t_name u) = Some t \<and> t_title u = t_title t))"
proof (induction es arbitrary: m upd d)
  case Nil
  then show ?case by (simp add: revise_def gone_def map_filter_def)
next
  case (Cons e es)
  note prems = Cons.prems
  have e0: "t_ID e \<noteq> 0" using prems(5) by simp
  have rest: "distinct (map t_name es)" "\<forall>e\<in>set es. t_ID e \<noteq> 0" using prems(2,5) by simp_all
  have same: "x = y" if "x \<in> set (tv_tasks (view d))" "y \<in> set (tv_tasks (view d))" "t_ID x = t_ID y" for x y
    using that prems(4) by (auto simp: distinct_map inj_on_def)
  have ids: "t_ID x \<noteq> t_ID e" if "x \<in> set es" for x
    using same [of x e] that prems(2,3) by auto
  have name: "t_name x \<in> t_name ` set es" if "x \<in> set (tv_tasks (view d))" "t_ID x \<in> t_ID ` set es" for x
    using that same prems(3) by (auto simp: image_iff)
  show ?case
  proof (cases "map_of m (t_name e)")
    case None
    with prems(1) obtain d1 d2 where d: "tq_delete_issues db (t_ID e) d = Inr d1" "tq_delete_task db e d1 = Inr d2"
      "sync_existing db es m (upd @ [mark_deleted e]) d2 = Inr (left, upd', d')" by (auto simp: bind_res_Inr_iff)
    have v: "tv_tasks (view d2) = filter (\<lambda>x. t_ID x \<noteq> t_ID e) (tv_tasks (view d))"
      "tv_issues (view d2) = filter (\<lambda>x. i_taskID x \<noteq> t_ID e) (tv_issues (view d))"
      using task_db_okD(2) [OF ok e0 d(1)] task_db_okD(3) [OF ok e0 d(2)] by simp_all
    have "set es \<subseteq> set (tv_tasks (view d2))" using prems(3) ids by (auto simp: v)
    moreover have "distinct (map t_ID (tv_tasks (view d2)))" unfolding v by (rule distinct_map_filter [OF prems(4)])
    ultimately have IH: "left = filter (\<lambda>(n, t). n \<notin> t_name ` set es) m"
      "tv_tasks (view d') = List.map_filter (revise m (t_ID ` set es)) (tv_tasks (view d2))"
      "tv_issues (view d') = filter (\<lambda>x. i_taskID x \<notin> gone m es) (tv_issues (view d2))"
      "\<forall>u\<in>set upd'. u \<in> set (upd @ [mark_deleted e]) \<or> t_ID u \<in> gone m es \<or> (\<exists>t. map_of m (t_name u) = Some t \<and> t_title u = t_title t)"
      using Cons.IH [OF d(3) rest(1) _ _ rest(2)] by blast+
    have "tv_tasks (view d') = List.map_filter (revise m (t_ID ` set (e # es))) (tv_tasks (view d))"
      unfolding IH(2) v map_filter_filter
    proof (rule map_filter_cong')
      fix x assume "x \<in> set (tv_tasks (view d))"
      then show "(if t_ID x \<noteq> t_ID e then revise m (t_ID ` set es) x else None) = revise m (t_ID ` set (e # es)) x"
        using same [of x e] prems(3) None by (auto simp: revise_def revised_def)
    qed
    moreover have g: "gone m (e # es) = insert (t_ID e) (gone m es)" using None by (auto simp: gone_def)
    moreover have "left = filter (\<lambda>(n, t). n \<notin> t_name ` set (e # es)) m"
      using None IH(1) by (auto intro!: filter_cong simp: map_of_eq_None_iff) (metis fst_conv image_eqI)
    ultimately show ?thesis using IH(3,4) v by (auto simp: mark_deleted_def)
  next
    case (Some t)
    let ?e = "e\<lparr>t_title := t_title t, t_body := t_body t\<rparr>"
    obtain d2 upd2 where d: "sync_existing db es (AList.delete (t_name e) m) upd2 d2 = Inr (left, upd', d')"
      and v: "tv_tasks (view d2) = map (\<lambda>x. if t_ID x = t_ID e then ?e else x) (tv_tasks (view d))"
        "tv_issues (view d2) = tv_issues (view d)" and upd: "set upd2 \<subseteq> insert ?e (set upd)"
    proof (cases "has_changed e t")
      case True
      with prems(1) Some obtain d2 where "tq_update_task db ?e d = Inr d2"
        "sync_existing db es (AList.delete (t_name e) m) (upd @ [?e]) d2 = Inr (left, upd', d')"
        by (auto simp: bind_res_Inr_iff Let_def)
      with task_db_okD(4) [OF ok, of ?e d d2] e0 that show thesis by auto
    next
      case False
      have "map (\<lambda>x. if t_ID x = t_ID e then ?e else x) (tv_tasks (view d)) = tv_tasks (view d)"
        unfolding unchanged [OF False] using same prems(3) by (auto intro: map_idI)
      with prems(1) Some False that show thesis by auto
    qed
    have "set es \<subseteq> set (tv_tasks (view d2))" using prems(3) ids by (auto simp: v image_iff)
    moreover have "map t_ID (tv_tasks (view d2)) = map t_ID (tv_tasks (view d))" unfolding v by simp
    ultimately have IH: "left = filter (\<lambda>(n, t). n \<notin> t_name ` set es) (AList.delete (t_name e) m)"
      "tv_tasks (view d') = List.map_filter (revise (AList.delete (t_name e) m) (t_ID ` set es)) (tv_tasks (view d2))"
      "tv_issues (view d') = filter (\<lambda>x. i_taskID x \<notin> gone (AList.delete (t_name e) m) es) (tv_issues (view d2))"
      "\<forall>u\<in>set upd'. u \<in> set upd2 \<or> t_ID u \<in> gone (AList.delete (t_name e) m) es \<or>
         (\<exists>t. map_of (AList.delete (t_name e) m) (t_name u) = Some t \<and> t_title u = t_title t)"
      using Cons.IH [OF d rest(1) _ _ rest(2)] prems(4) by simp_all
    have other: "t_name x \<noteq> t_name e" if "x \<in> set es" for x using that prems(2) by (auto simp: image_iff)
    then have g: "gone (AList.delete (t_name e) m) es = gone m (e # es)"
      using Some by (auto simp: gone_def map_of_delete)
    have "tv_tasks (view d') = List.map_filter (revise m (t_ID ` set (e # es))) (tv_tasks (view d))"
      unfolding IH(2) v map_filter_map
    proof (rule map_filter_cong')
      fix x assume x: "x \<in> set (tv_tasks (view d))"
      have "t_name x \<noteq> t_name e" if "t_ID x \<in> t_ID ` set es" using name [OF x that] prems(2) by auto
      then show "(revise (AList.delete (t_name e) m) (t_ID ` set es) \<circ> (\<lambda>x. if t_ID x = t_ID e then ?e else x)) x =
          revise m (t_ID ` set (e # es)) x"
        using same [OF x, of e] prems(3) Some ids by (auto simp: revise_def revised_def map_of_delete)
    qed
    moreover have "left = filter (\<lambda>(n, t). n \<notin> t_name ` set (e # es)) m"
      unfolding IH(1) by (auto simp: AList.delete_eq filter_filter intro!: filter_cong)
    moreover have "\<forall>u\<in>set upd'. u \<in> set upd \<or> t_ID u \<in> gone m (e # es) \<or> (\<exists>t. map_of m (t_name u) = Some t \<and> t_title u = t_title t)"
      using IH(4) upd Some unfolding g by (auto simp: map_of_delete split: if_splits)
    ultimately show ?thesis using IH(3) unfolding g v by simp
  qed
qed

section \<open>The stored tasks of all assignments\<close>

definition revise_all :: "assignment list \<Rightarrow> (u32 \<Rightarrow> task_entries) \<Rightarrow> task \<Rightarrow> task option" where
  "revise_all as m x = (case find (\<lambda>a. a_ID a = t_assignmentID x) as of None \<Rightarrow> Some x | Some a \<Rightarrow> revised (m (a_order a)) x)"

definition dropped :: "assignment list \<Rightarrow> (u32 \<Rightarrow> task_entries) \<Rightarrow> task_view \<Rightarrow> u64 set" where
  "dropped as m s = {t_ID t | t a. t \<in> set (tv_tasks s) \<and> a \<in> set as \<and> a_ID a = t_assignmentID t \<and> map_of (m (a_order a)) (t_name t) = None}"

definition missing :: "assignment \<Rightarrow> (u32 \<Rightarrow> task_entries) \<Rightarrow> task_view \<Rightarrow> task_entries" where
  "missing a m s = filter (\<lambda>(n, t). n \<notin> t_name ` set (assigned (a_ID a) s)) (m (a_order a))"

definition new_tasks :: "(task_entries \<Rightarrow> task list) \<Rightarrow> assignment list \<Rightarrow> (u32 \<Rightarrow> task_entries) \<Rightarrow> task_view \<Rightarrow> task list" where
  "new_tasks iter as m s = concat (map (\<lambda>a. map (\<lambda>t. t\<lparr>t_assignmentID := a_ID a\<rparr>) (iter (missing a m s))) as)"

definition from_map :: "assignment list \<Rightarrow> (u32 \<Rightarrow> task_entries) \<Rightarrow> task \<Rightarrow> bool" where
  "from_map as m u \<longleftrightarrow> (\<exists>a\<in>set as. \<exists>n t. (n, t) \<in> set (m (a_order a)) \<and> t_title u = t_title t)"

lemma revised_keeps: "revised m x = Some y \<Longrightarrow> t_ID y = t_ID x \<and> t_assignmentID y = t_assignmentID x \<and> t_name y = t_name x"
  by (auto simp: revised_def)

lemma revise_all_keeps: "revise_all as m x = Some y \<Longrightarrow> t_ID y = t_ID x \<and> t_assignmentID y = t_assignmentID x \<and> t_name y = t_name x"
  by (auto simp: revise_all_def revised_keeps split: option.splits)

lemma notin_image: "y \<notin> f ` A \<longleftrightarrow> (\<forall>x\<in>A. f x \<noteq> y)"
  by auto

lemma found_member: "find P xs = Some x \<Longrightarrow> x \<in> set xs"
  by (auto simp: find_Some_iff)

lemma map_filter_distinct:
  assumes "\<And>x y. f x = Some y \<Longrightarrow> k y = k x"
  shows "distinct (map k xs) \<Longrightarrow> distinct (map k (List.map_filter f xs))"
proof (induction xs)
  case (Cons x xs)
  have "k ` set (List.map_filter f xs) \<subseteq> k ` set xs" using assms by (force simp: List.map_filter_def)
  with Cons assms show ?case by (auto simp: List.map_filter_simps split: option.splits)
qed (simp add: List.map_filter_simps)

lemma map_filter_set: "set (List.map_filter f xs) = {y. \<exists>x\<in>set xs. f x = Some y}"
  by (force simp: List.map_filter_def)

lemma filter_map_filter:
  assumes "\<And>x y. f x = Some y \<Longrightarrow> P y = P x" and "\<And>x. P x \<Longrightarrow> f x = Some x"
  shows "filter P (List.map_filter f xs) = filter P xs"
  using assms by (induction xs) (force simp: List.map_filter_simps split: option.splits)+

lemma map_filter_map_filter: "List.map_filter g (List.map_filter f xs) = List.map_filter (\<lambda>x. Option.bind (f x) g) xs"
  by (induction xs) (auto simp: List.map_filter_simps split: option.splits)

text \<open>One round of the loop over the assignments.\<close>

lemma sync_round:
  assumes ok: "task_db_ok db view" and rows: "task_rows_ok (view d)" and i: "a_ID a \<noteq> 0"
    and es: "tq_tasks db (a_ID a) d = Inr es" and sync: "sync_existing db es (m (a_order a)) upd d = Inr (left, upd', d')"
  shows "left = missing a m (view d) \<and> tv_tasks (view d') = List.map_filter (revise_all [a] m) (tv_tasks (view d)) \<and>
    tv_issues (view d') = filter (\<lambda>x. i_taskID x \<notin> dropped [a] m (view d)) (tv_issues (view d)) \<and>
    (\<forall>u\<in>set upd'. u \<in> set upd \<or> t_ID u \<in> dropped [a] m (view d) \<or> from_map [a] m u)"
proof -
  have e: "es = assigned (a_ID a) (view d)" by (rule task_db_okD(1) [OF ok i es])
  have "distinct (map (\<lambda>t. (t_assignmentID t, t_name t)) es)"
    unfolding e assigned_def using rows by (auto simp: task_rows_ok_def intro: distinct_map_filter)
  then have names: "distinct (map t_name es)"
    unfolding e assigned_def by (auto simp: distinct_map inj_on_def)
  have sub: "set es \<subseteq> set (tv_tasks (view d))" "\<forall>e\<in>set es. t_ID e \<noteq> 0"
    using rows by (auto simp: e assigned_def task_rows_ok_def)
  have ids: "distinct (map t_ID (tv_tasks (view d)))" using rows by (simp add: task_rows_ok_def)
  note r = sync_existing_view [OF ok sync names sub(1) ids sub(2)]
  have member: "t_ID x \<in> t_ID ` set es \<longleftrightarrow> t_assignmentID x = a_ID a" if "x \<in> set (tv_tasks (view d))" for x
    using that ids by (auto simp: e assigned_def distinct_map inj_on_def)
  have "List.map_filter (revise (m (a_order a)) (t_ID ` set es)) (tv_tasks (view d)) = List.map_filter (revise_all [a] m) (tv_tasks (view d))"
    by (rule map_filter_cong') (use member in \<open>auto simp: revise_def revise_all_def\<close>)
  moreover have g: "gone (m (a_order a)) es = dropped [a] m (view d)"
    unfolding gone_def dropped_def e assigned_def by auto
  moreover have "left = missing a m (view d)" using r by (simp add: missing_def e)
  moreover have "from_map [a] m u" if "map_of (m (a_order a)) (t_name u) = Some t" "t_title u = t_title t" for u t
    using map_of_SomeD [OF that(1)] that(2) unfolding from_map_def by auto
  ultimately show ?thesis using r by auto
qed

lemma round_rows:
  assumes "tv_tasks s' = List.map_filter (revise_all [a] m) (tv_tasks s)" and "task_rows_ok s"
  shows "task_rows_ok s'"
  using assms(2) unfolding task_rows_ok_def assms(1)
  by (auto simp: map_filter_set dest!: revise_all_keeps intro!: map_filter_distinct)

lemma round_others:
  assumes "tv_tasks s' = List.map_filter (revise_all [a] m) (tv_tasks s)" and "i \<noteq> a_ID a"
  shows "assigned i s' = assigned i s"
  unfolding assigned_def assms(1)
proof (rule filter_map_filter)
  show "revise_all [a] m x = Some x" if "t_assignmentID x = i" for x using that assms(2) by (simp add: revise_all_def)
qed (auto dest: revise_all_keeps)

lemma sync_assignments_view:
  assumes ok: "task_db_ok db view"
  shows "sync_assignments db iter as m created updated d = Inr (created', updated', d') \<Longrightarrow> task_rows_ok (view d) \<Longrightarrow>
    distinct (map a_ID as) \<Longrightarrow> distinct (map a_order as) \<Longrightarrow> (\<forall>a\<in>set as. a_ID a \<noteq> 0) \<Longrightarrow>
    created' = created @ new_tasks iter as m (view d) \<and>
    tv_tasks (view d') = List.map_filter (revise_all as m) (tv_tasks (view d)) \<and>
    tv_issues (view d') = filter (\<lambda>x. i_taskID x \<notin> dropped as m (view d)) (tv_issues (view d)) \<and>
    (\<forall>u\<in>set updated'. u \<in> set updated \<or> t_ID u \<in> dropped as m (view d) \<or> from_map as m u)"
proof (induction as arbitrary: m created updated d)
  case Nil
  then show ?case by (auto simp: new_tasks_def revise_all_def [abs_def] dropped_def map_filter_def)
next
  case (Cons a as)
  from Cons.prems(1) obtain es left upd1 d1 where s: "tq_tasks db (a_ID a) d = Inr es"
    "sync_existing db es (m (a_order a)) updated d = Inr (left, upd1, d1)"
    and t: "sync_assignments db iter as (m(a_order a := left))
      (created @ map (\<lambda>t. t\<lparr>t_assignmentID := a_ID a\<rparr>) (iter left)) upd1 d1 = Inr (created', updated', d')"
    by (auto simp: bind_res_Inr_iff Let_def)
  have i: "a_ID a \<noteq> 0" using Cons.prems(5) by simp
  note r = sync_round [where m = m, OF ok Cons.prems(2) i s]
  have tasks1: "tv_tasks (view d1) = List.map_filter (revise_all [a] m) (tv_tasks (view d))" using r by simp
  note rows1 = round_rows [OF tasks1 Cons.prems(2)]
  let ?m = "m(a_order a := left)"
  have m: "?m (a_order b) = m (a_order b)" if "b \<in> set as" for b
    using that Cons.prems(4) by (auto simp: image_iff)
  have other: "assigned (a_ID b) (view d1) = assigned (a_ID b) (view d)" if "b \<in> set as" for b
    using round_others [OF tasks1] that Cons.prems(3) by (auto simp: image_iff)
  have news: "new_tasks iter as ?m (view d1) = new_tasks iter as m (view d)"
    unfolding new_tasks_def missing_def using m other by (auto intro!: arg_cong [of _ _ concat] map_cong)
  have rv: "revise_all as ?m = revise_all as m"
  proof
    fix x show "revise_all as ?m x = revise_all as m x"
  proof (cases "find (\<lambda>a. a_ID a = t_assignmentID x) as")
    case (Some b)
    then show ?thesis using m found_member [OF Some] by (simp add: revise_all_def del: fun_upd_apply)
  qed (simp add: revise_all_def)
  qed
  have sub: "distinct (map a_ID as)" "distinct (map a_order as)" "\<forall>a\<in>set as. a_ID a \<noteq> 0" using Cons.prems(3,4,5) by simp_all
  note IH = Cons.IH [OF t rows1 sub]
  have "tv_tasks (view d') = List.map_filter (\<lambda>x. Option.bind (revise_all [a] m x) (revise_all as m)) (tv_tasks (view d))"
    using IH [THEN conjunct2, THEN conjunct1] unfolding rv tasks1 map_filter_map_filter .
  also have "\<dots> = List.map_filter (revise_all (a # as) m) (tv_tasks (view d))"
  proof (rule map_filter_cong')
    fix x assume "x \<in> set (tv_tasks (view d))"
    have none: "find (\<lambda>b. a_ID b = a_ID a) as = None" using Cons.prems(3) by (auto simp: find_None_iff image_iff)
    have "Option.bind (revised (m (a_order a)) x) (revise_all as m) = revised (m (a_order a)) x" if "a_ID a = t_assignmentID x"
    proof (cases "revised (m (a_order a)) x")
      case (Some y)
      with revised_keeps [OF Some] that none show ?thesis by (simp add: revise_all_def)
    qed simp
    then show "Option.bind (revise_all [a] m x) (revise_all as m) = revise_all (a # as) m x"
      by (auto simp: revise_all_def [of "[a]"] revise_all_def [of "a # as"]) (simp add: revise_all_def)
  qed
  finally have tasks: "tv_tasks (view d') = List.map_filter (revise_all (a # as) m) (tv_tasks (view d))" .
  have drop1: "dropped as ?m (view d1) = dropped as m (view d)"
  proof -
    have "(\<exists>t. i = t_ID t \<and> t \<in> set (tv_tasks (view d1)) \<and> a_ID b = t_assignmentID t \<and> map_of (?m (a_order b)) (t_name t) = None) \<longleftrightarrow>
        (\<exists>t. i = t_ID t \<and> t \<in> set (tv_tasks (view d)) \<and> a_ID b = t_assignmentID t \<and> map_of (m (a_order b)) (t_name t) = None)"
      if "b \<in> set as" for b i
      using arg_cong [OF other [OF that], of set] m [OF that] unfolding assigned_def by auto
    then show ?thesis unfolding dropped_def by blast
  qed
  have drop2: "dropped (a # as) m (view d) = dropped [a] m (view d) \<union> dropped as m (view d)"
    unfolding dropped_def by auto
  have froms: "from_map as ?m u \<Longrightarrow> from_map (a # as) m u" "from_map [a] m u \<Longrightarrow> from_map (a # as) m u" for u
    using m unfolding from_map_def by auto
  have "created' = created @ new_tasks iter (a # as) m (view d)"
    using IH [THEN conjunct1] r [THEN conjunct1] unfolding news by (simp add: new_tasks_def)
  moreover have "tv_issues (view d') = filter (\<lambda>x. i_taskID x \<notin> dropped (a # as) m (view d)) (tv_issues (view d))"
    using IH [THEN conjunct2, THEN conjunct2, THEN conjunct1] r unfolding drop1 drop2
    by (auto simp: filter_filter intro!: filter_cong)
  moreover have "\<forall>u\<in>set updated'. u \<in> set updated \<or> t_ID u \<in> dropped (a # as) m (view d) \<or> from_map (a # as) m u"
    using IH [THEN conjunct2, THEN conjunct2, THEN conjunct2] r [THEN conjunct2, THEN conjunct2, THEN conjunct2] froms
    unfolding drop1 drop2 by blast
  ultimately show ?case using tasks by blast
qed

text \<open>The tasks that the loops report: those deleted, marked, and those with a new text.\<close>

definition change :: "task_entries \<Rightarrow> task \<Rightarrow> task option" where
  "change m e = (case revised m e of None \<Rightarrow> Some (mark_deleted e) | Some e' \<Rightarrow> if e' = e then None else Some e')"

lemma sync_existing_updated:
  "sync_existing db es m upd d = Inr (left, upd', d') \<Longrightarrow> distinct (map t_name es) \<Longrightarrow>
    upd' = upd @ List.map_filter (change m) es"
proof (induction es arbitrary: m upd d)
  case (Cons e es)
  show ?case
  proof (cases "map_of m (t_name e)")
    case None
    then have "change m e = Some (mark_deleted e)" by (simp add: change_def revised_def)
    moreover obtain d2 where "sync_existing db es m (upd @ [mark_deleted e]) d2 = Inr (left, upd', d')"
      using Cons.prems(1) None by (auto simp: bind_res_Inr_iff)
    ultimately show ?thesis using Cons.IH Cons.prems(2) by (fastforce simp: List.map_filter_simps)
  next
    case (Some t)
    have same: "List.map_filter (change (AList.delete (t_name e) m)) es = List.map_filter (change m) es"
      using Cons.prems(2) by (intro map_filter_cong') (auto simp: change_def revised_def map_of_delete image_iff)
    show ?thesis
    proof (cases "has_changed e t")
      case True
      then have "e\<lparr>t_title := t_title t, t_body := t_body t\<rparr> \<noteq> e" by (cases e) (auto simp: has_changed_def)
      with Some have "change m e = Some (e\<lparr>t_title := t_title t, t_body := t_body t\<rparr>)"
        by (simp add: change_def revised_def)
      moreover obtain d2 where "sync_existing db es (AList.delete (t_name e) m)
          (upd @ [e\<lparr>t_title := t_title t, t_body := t_body t\<rparr>]) d2 = Inr (left, upd', d')"
        using Cons.prems(1) Some True by (auto simp: bind_res_Inr_iff Let_def)
      ultimately show ?thesis using Cons.IH Cons.prems(2) same by (fastforce simp: List.map_filter_simps)
    next
      case False
      then have "change m e = None" using Some unchanged [OF False] by (simp add: change_def revised_def)
      with Cons Some False same show ?thesis by (auto simp: List.map_filter_simps)
    qed
  qed
qed (simp add: List.map_filter_simps)

lemma sync_assignments_updated:
  assumes ok: "task_db_ok db view"
  shows "sync_assignments db iter as m created updated d = Inr (created', updated', d') \<Longrightarrow> task_rows_ok (view d) \<Longrightarrow>
    distinct (map a_ID as) \<Longrightarrow> distinct (map a_order as) \<Longrightarrow> (\<forall>a\<in>set as. a_ID a \<noteq> 0) \<Longrightarrow>
    updated' = updated @ concat (map (\<lambda>a. List.map_filter (change (m (a_order a))) (assigned (a_ID a) (view d))) as)"
proof (induction as arbitrary: m created updated d)
  case (Cons a as)
  from Cons.prems(1) obtain es left upd1 d1 where s: "tq_tasks db (a_ID a) d = Inr es"
    "sync_existing db es (m (a_order a)) updated d = Inr (left, upd1, d1)"
    and t: "sync_assignments db iter as (m(a_order a := left))
      (created @ map (\<lambda>t. t\<lparr>t_assignmentID := a_ID a\<rparr>) (iter left)) upd1 d1 = Inr (created', updated', d')"
    by (auto simp: bind_res_Inr_iff Let_def)
  have i: "a_ID a \<noteq> 0" using Cons.prems(5) by simp
  have e: "es = assigned (a_ID a) (view d)" by (rule task_db_okD(1) [OF ok i s(1)])
  have tasks1: "tv_tasks (view d1) = List.map_filter (revise_all [a] m) (tv_tasks (view d))"
    using sync_round [where m = m, OF ok Cons.prems(2) i s] by simp
  have "assigned (a_ID b) (view d1) = assigned (a_ID b) (view d) \<and> (m(a_order a := left)) (a_order b) = m (a_order b)"
    if "b \<in> set as" for b
    using round_others [OF tasks1] that Cons.prems(3,4) by (auto simp: image_iff)
  then have same: "map (\<lambda>b. List.map_filter (change ((m(a_order a := left)) (a_order b))) (assigned (a_ID b) (view d1))) as =
      map (\<lambda>b. List.map_filter (change (m (a_order b))) (assigned (a_ID b) (view d))) as"
    by (auto simp del: fun_upd_apply)
  have "distinct (map (\<lambda>t. (t_assignmentID t, t_name t)) es)"
    unfolding e assigned_def using Cons.prems(2) by (auto simp: task_rows_ok_def intro: distinct_map_filter)
  then have "distinct (map t_name es)" unfolding e assigned_def by (auto simp: distinct_map inj_on_def)
  from sync_existing_updated [OF s(2) this] have "upd1 = updated @ List.map_filter (change (m (a_order a))) (assigned (a_ID a) (view d))"
    by (simp add: e)
  with Cons.IH [OF t round_rows [OF tasks1 Cons.prems(2)]] Cons.prems(3-5) same show ?case by (simp del: fun_upd_apply)
qed simp

section \<open>The stored tasks mirror the tests repository\<close>

lemma create_tasks_view:
  assumes ok: "task_db_ok db view"
  shows "create_tasks db ts d = Inr (ts', d') \<Longrightarrow> (\<forall>t\<in>set ts. t_ID t = 0) \<Longrightarrow>
    tv_tasks (view d') = tv_tasks (view d) @ ts' \<and> tv_issues (view d') = tv_issues (view d) \<and>
    map (\<lambda>t. t\<lparr>t_ID := 0\<rparr>) ts' = ts \<and> distinct (map t_ID ts') \<and> (\<forall>t\<in>set ts'. t_ID t \<noteq> 0 \<and> t_ID t \<notin> t_ID ` set (tv_tasks (view d)))"
proof (induction ts arbitrary: d ts')
  case (Cons t ts)
  from Cons.prems(1) obtain t1 d1 ts1 where c: "tq_create_task db t d = Inr (t1, d1)" "create_tasks db ts d1 = Inr (ts1, d')"
    "ts' = t1 # ts1" by (auto simp: bind_res_Inr_iff)
  have t0: "t_ID t = 0" using Cons.prems(2) by simp
  have one: "t_ID t1 \<noteq> 0" "t_ID t1 \<notin> t_ID ` set (tv_tasks (view d))" "t1 = t\<lparr>t_ID := t_ID t1\<rparr>"
    "view d1 = (view d)\<lparr>tv_tasks := tv_tasks (view d) @ [t1]\<rparr>" using task_db_okD(5) [OF ok t0 c(1)] by blast+
  have "t1\<lparr>t_ID := 0\<rparr> = t" using one(3) t0 by (cases t; cases t1) simp
  with Cons.IH [OF c(2)] Cons.prems(2) one(1,2,4) show ?case by (auto simp: c(3) image_iff)
qed simp

definition contents :: "u64 \<Rightarrow> task_view \<Rightarrow> (string \<times> string \<times> string) set" where
  "contents i s = (\<lambda>t. (t_name t, t_title t, t_body t)) ` set (assigned i s)"

definition wanted :: "task_entries \<Rightarrow> (string \<times> string \<times> string) set" where
  "wanted m = (\<lambda>(n, t). (n, t_title t, t_body t)) ` set m"

definition entries_ok :: "task_entries \<Rightarrow> bool" where
  "entries_ok m \<longleftrightarrow> distinct (map fst m) \<and> (\<forall>(n, t)\<in>set m. t_name t = n \<and> t_ID t = 0)"

definition iter_ok :: "(task_entries \<Rightarrow> task list) \<Rightarrow> bool" where
  "iter_ok iter \<longleftrightarrow> (\<forall>m. mset (iter m) = mset (map snd m))"

lemma set_iter: "iter_ok iter \<Longrightarrow> set (iter m) = snd ` set m"
  by (metis iter_ok_def set_map set_mset_mset)

lemma entries_ok_unique: "entries_ok m \<Longrightarrow> (n, t) \<in> set m \<Longrightarrow> map_of m n = Some t"
  by (simp add: entries_ok_def)

lemma set_new_tasks:
  "iter_ok iter \<Longrightarrow> set (new_tasks iter as m s) = {t\<lparr>t_assignmentID := a_ID a\<rparr> | a n t. a \<in> set as \<and> (n, t) \<in> set (missing a m s)}"
  by (force simp: new_tasks_def set_iter)

lemma found_unique: "distinct (map a_ID as) \<Longrightarrow> a \<in> set as \<Longrightarrow> find (\<lambda>b. a_ID b = a_ID a) as = Some a"
  by (induction as) auto

text \<open>The new tasks of an order have names of their own.\<close>

lemma new_names:
  assumes "iter_ok iter" and "\<forall>a\<in>set as. entries_ok (m (a_order a))" and "distinct (map a_ID as)"
  shows "distinct (map (\<lambda>t. (t_assignmentID t, t_name t)) (new_tasks iter as m s))"
  using assms(2,3)
proof (induction as)
  case (Cons a as)
  have "map t_name (map snd (missing a m s)) = map fst (missing a m s)"
    using Cons.prems(1) by (force simp: entries_ok_def missing_def)
  moreover have "distinct (map fst (missing a m s))"
    using Cons.prems(1) by (simp add: entries_ok_def missing_def distinct_map_filter)
  ultimately have "distinct (map t_name (map snd (missing a m s)))" by metis
  moreover have "mset (map t_name (iter (missing a m s))) = mset (map t_name (map snd (missing a m s)))"
    using assms(1) unfolding iter_ok_def mset_map by simp
  ultimately have "distinct (map t_name (iter (missing a m s)))" using mset_eq_imp_distinct_iff by blast
  then have "distinct (map (\<lambda>t. (t_assignmentID t, t_name t)) (map (\<lambda>t. t\<lparr>t_assignmentID := a_ID a\<rparr>) (iter (missing a m s))))"
    by (auto simp: distinct_map inj_on_def comp_def)
  moreover have "t_assignmentID t \<noteq> a_ID a" if "t \<in> set (new_tasks iter as m s)" for t
    using that Cons.prems(2) by (auto simp: set_new_tasks [OF assms(1)] image_iff)
  ultimately show ?case using Cons by (auto simp: new_tasks_def comp_def)
qed (simp add: new_tasks_def)

lemma synchronize_view:
  assumes ok: "task_db_ok db view" and "slice_ok sorter t_ID" and it: "iter_ok iter" and rows: "task_rows_ok (view d)"
    and as: "get_assignments_by_course (tadb db) courseID d = Inr as" and "distinct (map a_ID as)" and "distinct (map a_order as)"
    and "\<forall>a\<in>set as. a_ID a \<noteq> 0 \<and> entries_ok (m (a_order a))"
    and sync: "synchronize_assignment_tasks db sorter iter courseID m d = Inr (created, updated, d')"
  obtains ts where "tv_tasks (view d') = List.map_filter (revise_all as m) (tv_tasks (view d)) @ created"
    and "tv_issues (view d') = filter (\<lambda>x. i_taskID x \<notin> dropped as m (view d)) (tv_issues (view d))"
    and "map (\<lambda>t. t\<lparr>t_ID := 0\<rparr>) created = ts" and "mset ts = mset (new_tasks iter as m (view d))"
    and "distinct (map t_ID created)" and "\<forall>t\<in>set created. t_ID t \<noteq> 0 \<and> t_ID t \<notin> t_ID ` set (List.map_filter (revise_all as m) (tv_tasks (view d)))"
    and "\<forall>u\<in>set updated. t_ID u \<in> dropped as m (view d) \<or> from_map as m u"
proof -
  from sync as obtain created1 d1 where s: "sync_assignments db iter as m [] [] d = Inr (created1, updated, d1)"
    and c: "create_tasks db (sorter (\<lambda>x y. t_ID x < t_ID y) created1) d1 = Inr (created, d')"
    by (auto simp: synchronize_assignment_tasks_def bind_res_Inr_iff)
  note v = sync_assignments_view [OF ok s rows assms(6,7)]
  have created1: "created1 = new_tasks iter as m (view d)" using v assms(8) by simp
  let ?ts = "sorter (\<lambda>x y. t_ID x < t_ID y) created1"
  have m: "mset ?ts = mset created1" using assms(2) by (simp add: slice_ok_def)
  have "t_ID t = 0" if "t \<in> set created1" for t
    using that assms(8) unfolding created1 set_new_tasks [OF it] by (force simp: missing_def entries_ok_def)
  then have "\<forall>t\<in>set ?ts. t_ID t = 0" using mset_eq_setD [OF m] by simp
  note c' = create_tasks_view [OF ok c this]
  show thesis
    by (rule that [of ?ts]) (use c' v m created1 assms(8) in auto)
qed

lemma created_task:
  assumes "map (\<lambda>t. t\<lparr>t_ID := 0\<rparr>) created = ts" and "mset ts = mset (new_tasks iter as m s)" and "iter_ok iter"
    and "\<forall>a\<in>set as. entries_ok (m (a_order a))"
  shows "t \<in> set created \<Longrightarrow> \<exists>a n u. a \<in> set as \<and> (n, u) \<in> set (missing a m s) \<and> t_assignmentID t = a_ID a \<and>
      t_name t = n \<and> t_title t = t_title u \<and> t_body t = t_body u"
    and "a \<in> set as \<Longrightarrow> (n, u) \<in> set (missing a m s) \<Longrightarrow>
      \<exists>t\<in>set created. t_assignmentID t = a_ID a \<and> t_name t = n \<and> t_title t = t_title u \<and> t_body t = t_body u"
proof -
  have z: "(\<lambda>t. t\<lparr>t_ID := 0\<rparr>) ` set created = {u\<lparr>t_assignmentID := a_ID a\<rparr> | a n u. a \<in> set as \<and> (n, u) \<in> set (missing a m s)}"
    using mset_eq_setD [OF assms(2)] unfolding assms(1) [symmetric] set_new_tasks [OF assms(3)] by simp
  have name: "t_name u = n" if "a \<in> set as" "(n, u) \<in> set (missing a m s)" for a n u
    using that assms(4) by (auto simp: missing_def entries_ok_def)
  show "\<exists>a n u. a \<in> set as \<and> (n, u) \<in> set (missing a m s) \<and> t_assignmentID t = a_ID a \<and>
      t_name t = n \<and> t_title t = t_title u \<and> t_body t = t_body u" if "t \<in> set created"
  proof -
    have "t\<lparr>t_ID := 0\<rparr> \<in> {u\<lparr>t_assignmentID := a_ID a\<rparr> | a n u. a \<in> set as \<and> (n, u) \<in> set (missing a m s)}"
      using that z by blast
    then obtain a n u where u: "t\<lparr>t_ID := 0\<rparr> = u\<lparr>t_assignmentID := a_ID a\<rparr>" "a \<in> set as" "(n, u) \<in> set (missing a m s)" by blast
    have "t_assignmentID (t\<lparr>t_ID := 0\<rparr>) = a_ID a" "t_name (t\<lparr>t_ID := 0\<rparr>) = t_name u"
      "t_title (t\<lparr>t_ID := 0\<rparr>) = t_title u" "t_body (t\<lparr>t_ID := 0\<rparr>) = t_body u" unfolding u(1) by simp_all
    then have "t_assignmentID t = a_ID a" "t_name t = n" "t_title t = t_title u" "t_body t = t_body u"
      using name [OF u(2,3)] by simp_all
    with u(2,3) show ?thesis by blast
  qed
  show "\<exists>t\<in>set created. t_assignmentID t = a_ID a \<and> t_name t = n \<and> t_title t = t_title u \<and> t_body t = t_body u"
    if "a \<in> set as" "(n, u) \<in> set (missing a m s)"
  proof -
    have "u\<lparr>t_assignmentID := a_ID a\<rparr> \<in> (\<lambda>t. t\<lparr>t_ID := 0\<rparr>) ` set created" unfolding z using that by blast
    then obtain t where t: "t \<in> set created" "u\<lparr>t_assignmentID := a_ID a\<rparr> = t\<lparr>t_ID := 0\<rparr>" by blast
    have "t_assignmentID (t\<lparr>t_ID := 0\<rparr>) = a_ID a" "t_name (t\<lparr>t_ID := 0\<rparr>) = t_name u"
      "t_title (t\<lparr>t_ID := 0\<rparr>) = t_title u" "t_body (t\<lparr>t_ID := 0\<rparr>) = t_body u" unfolding t(2) [symmetric] by simp_all
    with t(1) name [OF that] show ?thesis by auto
  qed
qed

lemma created_keys:
  assumes "map (\<lambda>t. t\<lparr>t_ID := 0\<rparr>) created = ts" and "mset ts = mset (new_tasks iter as m s)" and "iter_ok iter"
    and "\<forall>a\<in>set as. entries_ok (m (a_order a))" and "x \<in> set (tv_tasks s)" and "t \<in> set created"
  shows "task_key x \<noteq> task_key t"
proof
  assume e: "task_key x = task_key t"
  from created_task(1) [OF assms(1-4,6)] obtain a n u where
    "(n, u) \<in> set (missing a m s)" "t_assignmentID t = a_ID a" "t_name t = n" by blast
  with assms(5) e show False by (auto simp: missing_def assigned_def image_iff)
qed

lemma rows_after_sync:
  assumes rows: "task_rows_ok s" and it: "iter_ok iter" and entries: "\<forall>a\<in>set as. entries_ok (m (a_order a))" and "distinct (map a_ID as)"
    and s': "tv_tasks s' = List.map_filter (revise_all as m) (tv_tasks s) @ created"
    and c: "map (\<lambda>t. t\<lparr>t_ID := 0\<rparr>) created = ts" "mset ts = mset (new_tasks iter as m s)"
    and ids: "distinct (map t_ID created)" "\<forall>t\<in>set created. t_ID t \<noteq> 0 \<and> t_ID t \<notin> t_ID ` set (List.map_filter (revise_all as m) (tv_tasks s))"
  shows "task_rows_ok s'"
proof -
  let ?old = "List.map_filter (revise_all as m) (tv_tasks s)" and ?k = "\<lambda>t. (t_assignmentID t, t_name t)"
  have "distinct (map t_ID ?old)" "distinct (map ?k ?old)"
    using rows by (auto simp: task_rows_ok_def intro!: map_filter_distinct dest: revise_all_keeps)
  moreover have "\<forall>t\<in>set ?old. t_ID t \<noteq> 0"
    using rows by (auto simp: map_filter_set task_rows_ok_def dest: revise_all_keeps)
  moreover have "distinct (map ?k created)"
  proof -
    have "mset (map ?k ts) = mset (map ?k (new_tasks iter as m s))" unfolding mset_map c(2) ..
    then have "distinct (map ?k ts)" using new_names [OF it entries assms(4)] mset_eq_imp_distinct_iff by blast
    then show ?thesis unfolding c(1) [symmetric] by (simp add: comp_def)
  qed
  moreover have "?k ` set ?old \<inter> ?k ` set created = {}"
  proof -
    have "?k x \<noteq> ?k t" if "x \<in> set (tv_tasks s)" "t \<in> set created" for x t
      by (rule created_keys [OF c it entries that])
    then show ?thesis by (force simp: map_filter_set dest: revise_all_keeps)
  qed
  moreover have "t_ID ` set ?old \<inter> t_ID ` set created = {}"
  proof (rule equals0I)
    fix i assume i: "i \<in> t_ID ` set ?old \<inter> t_ID ` set created"
    then obtain t where t: "t \<in> set created" "i = t_ID t" by (elim IntE imageE)
    have "t_ID t \<notin> t_ID ` set ?old" using bspec [OF ids(2) t(1)] by (rule conjunct2)
    with i t(2) show False by simp
  qed
  ultimately show ?thesis using ids by (auto simp: task_rows_ok_def s')
qed

text \<open>The tasks after a synchronization: those kept, with what the repository says now, before the new ones.\<close>

lemma revise_own:
  "distinct (map a_ID as) \<Longrightarrow> a \<in> set as \<Longrightarrow> t_assignmentID x = a_ID a \<Longrightarrow> revise_all as m x = revised (m (a_order a)) x"
  using found_unique [of as a] by (simp add: revise_all_def)

lemma task_kept:
  assumes "tv_tasks v' = List.map_filter (revise_all as m) (tv_tasks v) @ created" and "distinct (map a_ID as)" and "a \<in> set as"
    and "entries_ok (m (a_order a))" and "t \<in> set (assigned (a_ID a) v)" and "(t_name t, u) \<in> set (m (a_order a))"
  shows "\<exists>t'\<in>set (assigned (a_ID a) v'). t_ID t' = t_ID t \<and> t_name t' = t_name t \<and> t_title t' = t_title u \<and> t_body t' = t_body u"
proof -
  have "revise_all as m t = Some (t\<lparr>t_title := t_title u, t_body := t_body u\<rparr>)"
    using revise_own [OF assms(2,3), of t m] assms(5) entries_ok_unique [OF assms(4,6)] by (simp add: revised_def assigned_def)
  then have "t\<lparr>t_title := t_title u, t_body := t_body u\<rparr> \<in> set (assigned (a_ID a) v')"
    using assms(1,5) by (auto simp: assigned_def map_filter_set intro!: bexI [of _ t])
  then show ?thesis by (intro bexI) auto
qed

lemma task_wanted:
  assumes "tv_tasks v' = List.map_filter (revise_all as m) (tv_tasks v) @ created" and "distinct (map a_ID as)" and "a \<in> set as"
    and new: "\<And>t. t \<in> set created \<Longrightarrow> \<exists>b n u. b \<in> set as \<and> (n, u) \<in> set (missing b m v) \<and> t_assignmentID t = a_ID b \<and>
      t_name t = n \<and> t_title t = t_title u \<and> t_body t = t_body u"
  shows "contents (a_ID a) v' \<subseteq> wanted (m (a_order a))"
proof
  fix x assume "x \<in> contents (a_ID a) v'"
  then obtain t where t: "t \<in> set (tv_tasks v')" "t_assignmentID t = a_ID a" "x = (t_name t, t_title t, t_body t)"
    by (auto simp: contents_def assigned_def)
  from t(1) assms(1) consider (old) y where "y \<in> set (tv_tasks v)" "revise_all as m y = Some t" | (new) "t \<in> set created"
    by (auto simp: map_filter_set)
  then show "x \<in> wanted (m (a_order a))"
  proof cases
    case (old y)
    with t(2) revise_all_keeps [OF old(2)] have "revised (m (a_order a)) y = Some t" using revise_own [OF assms(2,3)] by simp
    then show ?thesis using t(3) by (force simp: revised_def wanted_def dest: map_of_SomeD)
  next
    case new
    from assms(4) [OF this] obtain b n u where "b \<in> set as" "(n, u) \<in> set (missing b m v)" "t_assignmentID t = a_ID b"
      "t_name t = n" "t_title t = t_title u" "t_body t = t_body u" by blast
    moreover from this assms(2,3) t(2) have "a = b" by (auto simp: distinct_map inj_on_def)
    ultimately show ?thesis using t by (force simp: missing_def wanted_def)
  qed
qed

lemma wanted_task:
  assumes "tv_tasks v' = List.map_filter (revise_all as m) (tv_tasks v) @ created" and "distinct (map a_ID as)" and "a \<in> set as"
    and "entries_ok (m (a_order a))"
    and new: "\<And>n u. (n, u) \<in> set (missing a m v) \<Longrightarrow>
      \<exists>t\<in>set created. t_assignmentID t = a_ID a \<and> t_name t = n \<and> t_title t = t_title u \<and> t_body t = t_body u"
  shows "wanted (m (a_order a)) \<subseteq> contents (a_ID a) v'"
proof
  fix x assume "x \<in> wanted (m (a_order a))"
  then obtain n u where u: "(n, u) \<in> set (m (a_order a))" "x = (n, t_title u, t_body u)" by (auto simp: wanted_def)
  have "\<exists>t'\<in>set (assigned (a_ID a) v'). t_name t' = n \<and> t_title t' = t_title u \<and> t_body t' = t_body u"
  proof (cases "n \<in> t_name ` set (assigned (a_ID a) v)")
    case True
    then obtain t where t: "t \<in> set (assigned (a_ID a) v)" "n = t_name t" by blast
    from task_kept [OF assms(1-4) t(1) u(1) [unfolded t(2)]] t(2) show ?thesis by blast
  next
    case False
    with u have "(n, u) \<in> set (missing a m v)" by (auto simp: missing_def)
    from new [OF this] assms(1) show ?thesis by (auto simp: assigned_def)
  qed
  then show "x \<in> contents (a_ID a) v'" unfolding contents_def u(2) by (metis (mono_tags, lifting) image_eqI)
qed

lemma others_kept:
  assumes "tv_tasks v' = List.map_filter (revise_all as m) (tv_tasks v) @ created"
    and "\<forall>t\<in>set created. t_assignmentID t \<in> a_ID ` set as" and "i \<notin> a_ID ` set as"
  shows "assigned i v' = assigned i v"
proof -
  have "revise_all as m x = Some x" if "t_assignmentID x = i" for x
  proof -
    have "find (\<lambda>a. a_ID a = t_assignmentID x) as = None" using assms(3) that by (auto simp: find_None_iff notin_image)
    then show ?thesis by (simp add: revise_all_def)
  qed
  then have "filter (\<lambda>t. t_assignmentID t = i) (List.map_filter (revise_all as m) (tv_tasks v)) = assigned i v"
    unfolding assigned_def by (intro filter_map_filter) (auto dest: revise_all_keeps)
  moreover have "filter (\<lambda>t. t_assignmentID t = i) created = []" using assms(2,3) by (auto simp: filter_empty_conv)
  ultimately show ?thesis using assms(1) by (simp add: assigned_def)
qed

text \<open>What is reported, from the rows before and after.\<close>

lemma reported_created:
  assumes s': "tv_tasks s' = List.map_filter (revise_all as m) (tv_tasks s) @ created" and it: "iter_ok iter"
    and c: "map (\<lambda>t. t\<lparr>t_ID := 0\<rparr>) created = ts" "mset ts = mset (new_tasks iter as m s)"
    and en: "\<forall>a\<in>set as. entries_ok (m (a_order a))"
  shows "set created = {t \<in> set (tv_tasks s'). t_assignmentID t \<in> a_ID ` set as \<and> task_key t \<notin> task_key ` set (tv_tasks s)}"
proof -
  have "t \<in> set created" if "t \<in> set (tv_tasks s')" "task_key t \<notin> task_key ` set (tv_tasks s)" for t
    using that by (auto simp: s' map_filter_set image_iff dest: revise_all_keeps)
  moreover have "t_assignmentID t \<in> a_ID ` set as" if "t \<in> set created" for t
    using created_task(1) [OF c it en that] by blast
  moreover have "task_key t \<notin> task_key ` set (tv_tasks s)" if "t \<in> set created" for t
    using created_keys [OF c it en _ that] by fastforce
  ultimately show ?thesis by (auto simp: s')
qed

lemma after_key:
  assumes s': "tv_tasks s' = List.map_filter (revise_all as m) (tv_tasks s) @ created" and rows: "task_rows_ok s"
    and new: "\<And>t. t \<in> set created \<Longrightarrow> task_key e \<noteq> task_key t" and e: "e \<in> set (tv_tasks s)"
  shows "t \<in> set (tv_tasks s') \<and> task_key t = task_key e \<longleftrightarrow> revise_all as m e = Some t"
proof
  assume t: "t \<in> set (tv_tasks s') \<and> task_key t = task_key e"
  have "t \<notin> set created" using new [of t] t by metis
  with t obtain x where x: "x \<in> set (tv_tasks s)" "revise_all as m x = Some t" by (auto simp: s' map_filter_set)
  with t revise_all_keeps [OF x(2)] have "task_key x = task_key e" by simp
  with rows x(1) e have "x = e" by (auto simp: task_rows_ok_def distinct_map inj_on_def)
  with x(2) show "revise_all as m e = Some t" by simp
next
  assume "revise_all as m e = Some t"
  with e revise_all_keeps [OF this] show "t \<in> set (tv_tasks s') \<and> task_key t = task_key e"
    by (auto simp: s' map_filter_set)
qed

lemma reported_updated:
  assumes s': "tv_tasks s' = List.map_filter (revise_all as m) (tv_tasks s) @ created" and rows: "task_rows_ok s"
    and new: "\<And>e t. e \<in> set (tv_tasks s) \<Longrightarrow> t \<in> set created \<Longrightarrow> task_key e \<noteq> task_key t" and "distinct (map a_ID as)"
  shows "set (concat (map (\<lambda>a. List.map_filter (change (m (a_order a))) (assigned (a_ID a) s)) as)) =
      {mark_deleted e | e. e \<in> set (tv_tasks s) \<and> t_assignmentID e \<in> a_ID ` set as \<and> task_key e \<notin> task_key ` set (tv_tasks s')} \<union>
      {t \<in> set (tv_tasks s'). t_assignmentID t \<in> a_ID ` set as \<and> (\<exists>e\<in>set (tv_tasks s). task_key e = task_key t \<and> e \<noteq> t)}"
    (is "?upd = ?del \<union> ?new")
proof -
  have key: "t \<in> set (tv_tasks s') \<and> task_key t = task_key e \<longleftrightarrow> revise_all as m e = Some t" if "e \<in> set (tv_tasks s)" for e t
    by (rule after_key [OF s' rows new that]) (rule that)
  have gone: "task_key e \<notin> task_key ` set (tv_tasks s') \<longleftrightarrow> revise_all as m e = None" if "e \<in> set (tv_tasks s)" for e
  proof (cases "revise_all as m e")
    case None
    with key [OF that] have "\<And>t. t \<in> set (tv_tasks s') \<Longrightarrow> task_key t \<noteq> task_key e" by simp
    with None show ?thesis by force
  next
    case (Some t)
    with key [OF that, of t] show ?thesis by (metis (no_types, lifting) image_eqI option.distinct(1))
  qed
  have "y \<in> ?upd \<longleftrightarrow> (\<exists>e\<in>set (tv_tasks s). t_assignmentID e \<in> a_ID ` set as \<and>
      (case revise_all as m e of None \<Rightarrow> y = mark_deleted e | Some e' \<Rightarrow> e' \<noteq> e \<and> y = e'))" for y
  proof -
    have own: "revise_all as m e = revised (m (a_order a)) e" if "a \<in> set as" "t_assignmentID e = a_ID a" for a e
      using revise_own [OF assms(4) that] .
    show ?thesis
      by (fastforce simp: map_filter_set assigned_def change_def own split: option.splits if_splits)
  qed
  moreover have "y \<in> ?del \<union> ?new \<longleftrightarrow> (\<exists>e\<in>set (tv_tasks s). t_assignmentID e \<in> a_ID ` set as \<and>
      (case revise_all as m e of None \<Rightarrow> y = mark_deleted e | Some e' \<Rightarrow> e' \<noteq> e \<and> y = e'))" for y
  proof -
    have cases: "(case r of None \<Rightarrow> P | Some e' \<Rightarrow> e' \<noteq> e \<and> y = e') \<longleftrightarrow> r = None \<and> P \<or> r = Some y \<and> y \<noteq> e" for r P e
      by (cases r) auto
    have del: "y \<in> ?del \<longleftrightarrow> (\<exists>e\<in>set (tv_tasks s). t_assignmentID e \<in> a_ID ` set as \<and> revise_all as m e = None \<and> y = mark_deleted e)"
      using gone by blast
    have new: "y \<in> ?new \<longleftrightarrow> (\<exists>e\<in>set (tv_tasks s). t_assignmentID e \<in> a_ID ` set as \<and> revise_all as m e = Some y \<and> y \<noteq> e)"
    proof -
      have eq: "y \<in> set (tv_tasks s') \<and> t_assignmentID y \<in> a_ID ` set as \<and> task_key e = task_key y \<and> e \<noteq> y \<longleftrightarrow>
          t_assignmentID e \<in> a_ID ` set as \<and> revise_all as m e = Some y \<and> y \<noteq> e" if "e \<in> set (tv_tasks s)" for e
        using key [OF that, of y] by (metis prod.inject)
      have "y \<in> ?new \<longleftrightarrow> (\<exists>e\<in>set (tv_tasks s). y \<in> set (tv_tasks s') \<and> t_assignmentID y \<in> a_ID ` set as \<and>
          task_key e = task_key y \<and> e \<noteq> y)" by auto
      also have "\<dots> \<longleftrightarrow> (\<exists>e\<in>set (tv_tasks s). t_assignmentID e \<in> a_ID ` set as \<and> revise_all as m e = Some y \<and> y \<noteq> e)"
        by (rule bex_cong [OF refl eq])
      finally show ?thesis .
    qed
    show ?thesis unfolding Un_iff del new cases by blast
  qed
  ultimately show ?thesis by (simp only: set_eq_iff) simp
qed

text \<open>C11: After the tasks are synchronized, in whatever order the maps are visited, the stored tasks of every
  assignment of the course are exactly those of the tests repository, by name, title and body; the tasks of
  other courses' assignments are as they were; a task that stays keeps its identifier; and identifiers and the
  pairs of assignment and name stay unique.  The tasks reported as created are exactly the rows with a new pair of
  assignment and name, each once; those reported as updated are exactly the rows whose text changed, as they are now,
  and the rows that are gone, marked as deleted.\<close>

theorem tasks_mirror_tests_repo:
  assumes ok: "task_db_ok db view" and sl: "slice_ok sorter t_ID" and it: "iter_ok iter" and rows: "task_rows_ok (view d)"
    and as: "get_assignments_by_course (tadb db) courseID d = Inr as" and dist: "distinct (map a_ID as)" "distinct (map a_order as)"
    and en: "\<forall>a\<in>set as. a_ID a \<noteq> 0 \<and> entries_ok (m (a_order a))"
    and sync: "synchronize_assignment_tasks db sorter iter courseID m d = Inr (created, updated, d')"
  shows "task_rows_ok (view d') \<and> (\<forall>a\<in>set as. contents (a_ID a) (view d') = wanted (m (a_order a))) \<and>
    (\<forall>i. i \<notin> a_ID ` set as \<longrightarrow> assigned i (view d') = assigned i (view d)) \<and>
    (\<forall>a\<in>set as. \<forall>t\<in>set (assigned (a_ID a) (view d)). t_name t \<in> fst ` set (m (a_order a)) \<longrightarrow>
       (\<exists>t'\<in>set (assigned (a_ID a) (view d')). t_ID t' = t_ID t \<and> t_name t' = t_name t)) \<and>
    distinct created \<and> set created = {t \<in> set (tv_tasks (view d')). t_assignmentID t \<in> a_ID ` set as \<and>
       task_key t \<notin> task_key ` set (tv_tasks (view d))} \<and>
    set updated = {mark_deleted e | e. e \<in> set (tv_tasks (view d)) \<and> t_assignmentID e \<in> a_ID ` set as \<and>
         task_key e \<notin> task_key ` set (tv_tasks (view d'))} \<union>
       {t \<in> set (tv_tasks (view d')). t_assignmentID t \<in> a_ID ` set as \<and>
         (\<exists>e\<in>set (tv_tasks (view d)). task_key e = task_key t \<and> e \<noteq> t)}"
proof -
  from synchronize_view [OF ok sl it rows as dist en sync] obtain ts where
    tasks: "tv_tasks (view d') = List.map_filter (revise_all as m) (tv_tasks (view d)) @ created"
    and c: "map (\<lambda>t. t\<lparr>t_ID := 0\<rparr>) created = ts" "mset ts = mset (new_tasks iter as m (view d))"
    and ids: "distinct (map t_ID created)" "\<forall>t\<in>set created. t_ID t \<noteq> 0 \<and> t_ID t \<notin> t_ID ` set (List.map_filter (revise_all as m) (tv_tasks (view d)))"
    by metis
  have en': "\<forall>a\<in>set as. entries_ok (m (a_order a))" using en by blast
  note created = created_task [OF c it en']
  from sync as obtain created1 d1 where "sync_assignments db iter as m [] [] d = Inr (created1, updated, d1)"
    by (auto simp: synchronize_assignment_tasks_def bind_res_Inr_iff)
  from sync_assignments_updated [OF ok this rows dist] en
  have "updated = concat (map (\<lambda>a. List.map_filter (change (m (a_order a))) (assigned (a_ID a) (view d))) as)" by simp
  note updated = reported_updated [OF tasks rows created_keys [OF c it en'] dist(1), folded this]
  have assigned: "\<forall>t\<in>set created. t_assignmentID t \<in> a_ID ` set as" using created(1) by blast
  show ?thesis
  proof (intro conjI ballI allI impI)
    show "task_rows_ok (view d')" by (rule rows_after_sync [OF rows it en' dist(1) tasks c ids])
    show "contents (a_ID a) (view d') = wanted (m (a_order a))" if a: "a \<in> set as" for a
      using task_wanted [OF tasks dist(1) a created(1)] wanted_task [OF tasks dist(1) a bspec [OF en' a] created(2) [OF a]] by blast
    show "assigned i (view d') = assigned i (view d)" if "i \<notin> a_ID ` set as" for i
      by (rule others_kept [OF tasks assigned that])
    show "\<exists>t'\<in>set (assigned (a_ID a) (view d')). t_ID t' = t_ID t \<and> t_name t' = t_name t"
      if a: "a \<in> set as" and t: "t \<in> set (assigned (a_ID a) (view d))" "t_name t \<in> fst ` set (m (a_order a))" for a t
      using task_kept [OF tasks dist(1) a bspec [OF en' a] t(1)] t(2) by force
    show "distinct created" using ids(1) by (simp add: distinct_map)
  qed (rule reported_created [OF tasks it c en'] updated)+
qed

text \<open>The map of the tests repository is what the synchronization asks for, when its tasks are not stored yet.\<close>

lemma set_AList_update: "set (AList.update k v m) \<subseteq> insert (k, v) (set m)"
  by (induction m) auto

lemma entries_of_ok: "\<forall>t\<in>set ts. t_ID t = 0 \<Longrightarrow> entries_ok (entries_of ts)"
proof -
  have "entries_ok m \<Longrightarrow> \<forall>t\<in>set ts. t_ID t = 0 \<Longrightarrow> entries_ok (fold (\<lambda>t. AList.update (t_name t) t) ts m)" for m
  proof (induction ts arbitrary: m)
    case (Cons t ts)
    have "t_name u = n \<and> t_ID u = 0" if "(n, u) \<in> set (AList.update (t_name t) t m)" for n u
      using subsetD [OF set_AList_update that] Cons.prems by (auto simp: entries_ok_def)
    then have "entries_ok (AList.update (t_name t) t m)"
      using Cons.prems(1) unfolding entries_ok_def by (blast intro: distinct_update)
    with Cons show ?case by simp
  qed simp
  from this [of "[]"] show "\<forall>t\<in>set ts. t_ID t = 0 \<Longrightarrow> entries_ok (entries_of ts)" by (simp add: entries_of_def entries_ok_def)
qed

lemma tasks_from_assignments_ok:
  assumes "\<forall>a\<in>set as. \<forall>t\<in>set (a_tasks a). t_ID t = 0"
  shows "entries_ok (tasks_from_assignments as k)"
proof -
  have "\<forall>k. entries_ok (m k) \<Longrightarrow> entries_ok (fold (\<lambda>a m. m(a_order a := entries_of (a_tasks a))) as m k)" for m
    using assms entries_of_ok by (induction as arbitrary: m) auto
  from this [of "\<lambda>_. []"] show ?thesis by (simp add: tasks_from_assignments_def entries_ok_def)
qed

section \<open>Tasks in lists\<close>

definition no_sub_db :: "'d sub_db" where
  "no_sub_db = \<lparr>sq_user_count = \<lambda>i d. Inr 0, sq_group_count = \<lambda>i d. Inr 0, sq_assignment_count = \<lambda>i d. Inr 0,
     sq_last = \<lambda>q d. Inl RecordNotFound, sq_find = \<lambda>q d. Inr [], sq_first = \<lambda>i d. Inl RecordNotFound,
     sq_delete_scores = \<lambda>i d. Inr d, sq_delete_build_infos = \<lambda>i d. Inr d, sq_members = \<lambda>g d. [],
     sq_assignment = \<lambda>q d. Inr q, sq_course_assignments = \<lambda>c d. Inr [],
     sq_benchmarks = \<lambda>i d. Inr [], sq_criteria = \<lambda>i d. Inr [],
     sq_save = \<lambda>s d. Inr (s, d), sq_update = \<lambda>s d. Inr d, sq_create_review = \<lambda>r d. Inr (r, d)\<rparr>"

definition no_assignment_fields where
  "no_assignment_fields = assignment_db.fields (\<lambda>c d. Inr 0) (\<lambda>c k a d. Inl RecordNotFound) (\<lambda>c k d. Inr None)
     (\<lambda>a d. Inr (a, d)) (\<lambda>a d. Inr (a, d)) (\<lambda>i d. Inr []) (\<lambda>t d. Inr d)
     (\<lambda>i d. Inl RecordNotFound) (\<lambda>b d. Inr d) (\<lambda>b d. Inr d) (\<lambda>b d. Inr d) (\<lambda>c d. Inr d) (\<lambda>c d. Inr d)
     (\<lambda>c d. Inr d) (\<lambda>i d. Inr d) (\<lambda>f d. Inr d) (\<lambda>i u d. Inr d) (\<lambda>i d. Inr [])"

definition list_tdb :: "assignment list \<Rightarrow> repository list \<Rightarrow> task_view task_db" where
  "list_tdb as rs = assignment_db.extend
     (sub_db.extend (no_sub_db\<lparr>sq_course_assignments := \<lambda>c d. Inr as\<rparr>) no_assignment_fields)
     (task_db.fields (\<lambda>q d. Inr (tv_tasks d)) (\<lambda>i d. Inr (assigned i d))
       (\<lambda>i d. Inr (d\<lparr>tv_issues := filter (\<lambda>x. i_taskID x \<noteq> i) (tv_issues d)\<rparr>))
       (\<lambda>t d. Inr (d\<lparr>tv_tasks := filter (\<lambda>x. t_ID x \<noteq> t_ID t) (tv_tasks d)\<rparr>))
       (\<lambda>t d. Inr (d\<lparr>tv_tasks := map (\<lambda>x. if t_ID x = t_ID t then t else x) (tv_tasks d)\<rparr>))
       (\<lambda>t d. case fresh_id (map t_ID (tv_tasks d)) of
                None \<Rightarrow> Inl RecordNotFound
              | Some i \<Rightarrow> Inr (t\<lparr>t_ID := i\<rparr>, d\<lparr>tv_tasks := tv_tasks d @ [t\<lparr>t_ID := i\<rparr>]\<rparr>))
       (\<lambda>is d. Inr (d\<lparr>tv_issues := tv_issues d @ is\<rparr>))
       (\<lambda>q d. Inr (map (\<lambda>r. r\<lparr>r_issues := filter (\<lambda>x. i_repositoryID x = r_ID r) (tv_issues d)\<rparr>) rs))
       (\<lambda>p d. Inr d) (\<lambda>p d. Inl RecordNotFound) (\<lambda>p d. Inr d) (\<lambda>p d. Inr d))"

lemma list_tdb_ok: "task_db_ok (list_tdb as rs) id"
  unfolding task_db_ok_def list_tdb_def sub_db.extend_def assignment_db.extend_def task_db.fields_def
  by (auto dest!: fresh_id_Some split: option.splits)

definition sample_task :: "u64 \<Rightarrow> u64 \<Rightarrow> string \<Rightarrow> string \<Rightarrow> task" where
  "sample_task i a n t = \<lparr>t_ID = i, t_assignmentID = a, t_assignmentOrder = 1, t_title = t, t_body = ''text'', t_name = n\<rparr>"

definition sample_labs :: "assignment list" where
  "sample_labs = [zero_assignment\<lparr>a_ID := 7, a_CourseID := 1, a_order := 1,
     a_tasks := [sample_task 0 0 ''a'' ''First'', sample_task 0 0 ''b'' ''Second'']\<rparr>]"

definition sample_stored :: task_view where
  "sample_stored = \<lparr>tv_tasks = [sample_task 4 7 ''a'' ''Old'', sample_task 5 7 ''c'' ''Third'', sample_task 6 9 ''c'' ''Other''],
     tv_issues = [\<lparr>i_ID = 1, i_repositoryID = 2, i_taskID = 5, i_ScmIssueNumber = 3\<rparr>]\<rparr>"

lemma tasks_mirror_tests_repo_witness:
  "\<exists>c u d'. synchronize_assignment_tasks (list_tdb sample_labs []) insert_sort (map snd) 1 (tasks_from_assignments sample_labs) sample_stored = Inr (c, u, d') \<and>
     contents 7 d' = {(''a'', ''First'', ''text''), (''b'', ''Second'', ''text'')} \<and> assigned 9 d' = [sample_task 6 9 ''c'' ''Other'']"
proof -
  let ?s = "synchronize_assignment_tasks (list_tdb sample_labs []) insert_sort (map snd) 1 (tasks_from_assignments sample_labs) sample_stored"
  have "isl ?s = False" by code_simp
  then obtain c u d' where s: "?s = Inr (c, u, d')" by (cases ?s) auto
  have g: "get_assignments_by_course (tadb (list_tdb sample_labs [])) 1 sample_stored = Inr sample_labs"
    by (simp add: get_assignments_by_course_def list_tdb_def assignment_db.extend_def assignment_db.truncate_def sub_db.extend_def
        sub_db.truncate_def no_sub_db_def no_assignment_fields_def assignment_db.fields_def sample_labs_def get_benchmarks_def zero_assignment_def)
  have z: "\<forall>a\<in>set sample_labs. \<forall>t\<in>set (a_tasks a). t_ID t = 0" by (simp add: sample_labs_def sample_task_def)
  have e: "\<forall>a\<in>set sample_labs. a_ID a \<noteq> 0 \<and> entries_ok (tasks_from_assignments sample_labs (a_order a))"
    using tasks_from_assignments_ok [OF z] by (simp add: sample_labs_def)
  have r: "task_rows_ok (id sample_stored)" by (simp add: task_rows_ok_def sample_stored_def sample_task_def)
  have i: "iter_ok (map snd)" by (simp add: iter_ok_def)
  have d: "distinct (map a_ID sample_labs)" "distinct (map a_order sample_labs)" by (simp_all add: sample_labs_def)
  note c = tasks_mirror_tests_repo [OF list_tdb_ok insert_sort_slice i r, unfolded id_apply, OF g d e s]
  have w: "wanted (tasks_from_assignments sample_labs 1) = {(''a'', ''First'', ''text''), (''b'', ''Second'', ''text'')}"
    by (simp add: wanted_def tasks_from_assignments_def sample_labs_def entries_of_def sample_task_def)
  have "assigned 9 sample_stored = [sample_task 6 9 ''c'' ''Other'']" by (simp add: assigned_def sample_stored_def sample_task_def)
  with c s w show ?thesis by (simp add: sample_labs_def)
qed

end
