(* ===== verification/Github_Issues.thy ===== *)
theory Github_Issues
  imports Github
begin

text \<open>
  Issues, comments and reviewers on GitHub: \<open>scm/github_issues.go\<close> and the options it checks
  (\<open>scm/scm_options.go\<close>).  The calls of the GitHub library are the fields of \<open>gh_issues\<close>; a field of an
  answer that GitHub leaves out is \<open>None\<close>.
\<close>

section \<open>Options and answers\<close>

record issue_options =
  no_Organization :: string
  no_Repository :: string
  no_Title :: string
  no_Body :: string
  no_State :: string
  no_Assignee :: "string option"
  no_Assignees :: "string list option"
  no_Number :: int

record issue_comment_options =
  ico_Organization :: string
  ico_Repository :: string
  ico_Body :: string
  ico_Number :: int
  ico_CommentID :: int

record reviewers_options =
  rvo_Organization :: string
  rvo_Repository :: string
  rvo_Number :: int
  rvo_Reviewers :: "string list"

definition issue_options_valid :: "issue_options \<Rightarrow> bool" where
  "issue_options_valid opt \<longleftrightarrow>
     no_Organization opt \<noteq> [] \<and> no_Repository opt \<noteq> [] \<and> no_Title opt \<noteq> [] \<and> no_Body opt \<noteq> []"

definition issue_comment_options_valid :: "issue_comment_options \<Rightarrow> bool" where
  "issue_comment_options_valid opt \<longleftrightarrow> ico_Organization opt \<noteq> [] \<and> ico_Repository opt \<noteq> [] \<and> ico_Body opt \<noteq> []"

definition reviewers_options_valid :: "reviewers_options \<Rightarrow> bool" where
  "reviewers_options_valid opt \<longleftrightarrow>
     rvo_Organization opt \<noteq> [] \<and> rvo_Repository opt \<noteq> [] \<and> 0 < rvo_Number opt \<and> length (rvo_Reviewers opt) \<noteq> 0"

record gh_issue =
  gi_ID :: "int option"
  gi_Title :: "string option"
  gi_Body :: "string option"
  gi_Repository :: "string option option"
  gi_Assignee :: "string option option"
  gi_Number :: "int option"
  gi_State :: "string option"

record scm_issue =
  is_ID :: int
  is_Title :: string
  is_Body :: string
  is_Repository :: string
  is_Assignee :: string
  is_Status :: string
  is_Number :: int

text \<open>The getters of the library give the zero value for what is missing.\<close>

definition got :: "'a \<Rightarrow> 'a option \<Rightarrow> 'a" where
  "got z x = (case x of None \<Rightarrow> z | Some v \<Rightarrow> v)"

definition to_issue :: "gh_issue \<Rightarrow> scm_issue" where
  "to_issue x = \<lparr>is_ID = got 0 (gi_ID x), is_Title = got [] (gi_Title x), is_Body = got [] (gi_Body x),
     is_Repository = got [] (got None (gi_Repository x)), is_Assignee = got [] (got None (gi_Assignee x)),
     is_Status = got [] (gi_State x), is_Number = got 0 (gi_Number x)\<rparr>"

record issue_request =
  iq_Title :: string
  iq_Body :: string
  iq_State :: "string option"
  iq_Assignee :: "string option"
  iq_Assignees :: "string list option"

record 's gh_issues =
  gq_create_issue :: "string \<Rightarrow> string \<Rightarrow> issue_request \<Rightarrow> ('s, gh_issue) api"
  gq_edit_issue :: "string \<Rightarrow> string \<Rightarrow> int \<Rightarrow> issue_request \<Rightarrow> ('s, gh_issue) api"
  gq_issue :: "string \<Rightarrow> string \<Rightarrow> int \<Rightarrow> ('s, gh_issue) api"
  gq_issues :: "string \<Rightarrow> string \<Rightarrow> ('s, gh_issue list) api"
  gq_create_comment :: "string \<Rightarrow> string \<Rightarrow> int \<Rightarrow> string \<Rightarrow> ('s, int) api"
  gq_edit_comment :: "string \<Rightarrow> string \<Rightarrow> int \<Rightarrow> string \<Rightarrow> ('s, unit) api"
  gq_request_reviewers :: "string \<Rightarrow> string \<Rightarrow> int \<Rightarrow> string list \<Rightarrow> ('s, unit) api"

section \<open>Operations\<close>

definition create_issue :: "'s gh_issues \<Rightarrow> issue_options \<Rightarrow> ('s, scm_issue) scm" where
  "create_issue g opt =
     in_op ''CreateIssue'' (bnd (guard (issue_options_valid opt) MissingFields) (\<lambda>_.
       bnd (call_api (gq_create_issue g (no_Organization opt) (no_Repository opt)
              \<lparr>iq_Title = no_Title opt, iq_Body = no_Body opt, iq_State = None,
               iq_Assignee = no_Assignee opt, iq_Assignees = no_Assignees opt\<rparr>)) (\<lambda>x. ret (to_issue x))))"

definition update_issue :: "'s gh_issues \<Rightarrow> issue_options \<Rightarrow> ('s, scm_issue) scm" where
  "update_issue g opt =
     in_op ''UpdateIssue'' (bnd (guard (issue_options_valid opt) MissingFields) (\<lambda>_.
       bnd (call_api (gq_edit_issue g (no_Organization opt) (no_Repository opt) (no_Number opt)
              \<lparr>iq_Title = no_Title opt, iq_Body = no_Body opt, iq_State = Some (no_State opt),
               iq_Assignee = no_Assignee opt, iq_Assignees = no_Assignees opt\<rparr>)) (\<lambda>x. ret (to_issue x))))"

definition get_issue :: "'s gh_issues \<Rightarrow> repository_options \<Rightarrow> int \<Rightarrow> ('s, scm_issue) scm" where
  "get_issue g opt number =
     in_op ''GetIssue'' (bnd (guard (repository_options_valid opt) MissingFields) (\<lambda>_.
       bnd (call_api (gq_issue g (po_Owner opt) (po_Repo opt) number)) (\<lambda>x. ret (to_issue x))))"

definition get_issues :: "'s gh_issues \<Rightarrow> repository_options \<Rightarrow> ('s, scm_issue list) scm" where
  "get_issues g opt =
     in_op ''GetIssues'' (bnd (guard (repository_options_valid opt) MissingFields) (\<lambda>_.
       bnd (call_api (gq_issues g (po_Owner opt) (po_Repo opt))) (\<lambda>xs. ret (map to_issue xs))))"

definition create_issue_comment :: "'s gh_issues \<Rightarrow> issue_comment_options \<Rightarrow> ('s, int) scm" where
  "create_issue_comment g opt =
     in_op ''CreateIssueComment'' (bnd (guard (issue_comment_options_valid opt) MissingFields) (\<lambda>_.
       call_api (gq_create_comment g (ico_Organization opt) (ico_Repository opt) (ico_Number opt) (ico_Body opt))))"

definition update_issue_comment :: "'s gh_issues \<Rightarrow> issue_comment_options \<Rightarrow> ('s, unit) scm" where
  "update_issue_comment g opt =
     in_op ''UpdateIssueComment'' (bnd (guard (issue_comment_options_valid opt) MissingFields) (\<lambda>_.
       call_api (gq_edit_comment g (ico_Organization opt) (ico_Repository opt) (ico_CommentID opt) (ico_Body opt))))"

definition request_reviewers :: "'s gh_issues \<Rightarrow> reviewers_options \<Rightarrow> ('s, unit) scm" where
  "request_reviewers g opt =
     in_op ''RequestReviewers'' (bnd (guard (reviewers_options_valid opt) MissingFields) (\<lambda>_.
       call_api (gq_request_reviewers g (rvo_Organization opt) (rvo_Repository opt) (rvo_Number opt) (rvo_Reviewers opt))))"

section \<open>What an update keeps\<close>

text \<open>An edit keeps what every request for that state keeps; the guard of the options sends nothing.\<close>

lemma create_issue_keeps [keep]:
  "(\<And>org repo q. preserves I (gq_create_issue g org repo q)) \<Longrightarrow> preserves I (create_issue g opt)"
  unfolding create_issue_def by (intro keep preserves_call_api) simp

lemma update_issue_keeps:
  "(\<And>org repo n q. iq_State q = Some (no_State opt) \<Longrightarrow> iq_Title q = no_Title opt \<Longrightarrow> preserves I (gq_edit_issue g org repo n q)) \<Longrightarrow>
    preserves I (update_issue g opt)"
  unfolding update_issue_def by (intro keep preserves_call_api) simp

end
