(* ===== verification/Deadline.thy ===== *)
theory Deadline
  imports Model
begin

text \<open>
  Deadlines as the files of an assignment write them: \<open>FixDeadline\<close> of \<open>assignments/assignments_parser.go\<close>,
  with what it uses of \<open>time.Parse\<close>: the pieces that occur in its layouts, read from left to right.
\<close>

section \<open>Layouts\<close>

datatype chunk = Lit char | LongYear | NumMonth | DayNum | Hour24 | Hour12 | ZeroMinute | ZeroSecond | LowerPM

definition next_chunk :: "string \<Rightarrow> chunk \<times> nat" where
  "next_chunk s =
     (if take 4 s = ''2006'' then (LongYear, 4)
      else if take 2 s = ''15'' then (Hour24, 2)
      else if take 2 s = ''04'' then (ZeroMinute, 2)
      else if take 2 s = ''05'' then (ZeroSecond, 2)
      else if take 2 s = ''pm'' then (LowerPM, 2)
      else if hd s = CHR ''1'' then (NumMonth, 1)
      else if hd s = CHR ''2'' then (DayNum, 1)
      else if hd s = CHR ''3'' then (Hour12, 1) else (Lit (hd s), 1))"

function layout_chunks :: "string \<Rightarrow> chunk list" where
  "layout_chunks s =
     (if s = [] then [] else (case next_chunk s of (c, n) \<Rightarrow> c # layout_chunks (drop n s)))"
  by pat_completeness auto
termination
  by (relation "measure length") (auto simp: next_chunk_def split: if_splits)

declare layout_chunks.simps [simp del]

definition accepted_layouts :: "string list" where
  "accepted_layouts =
     [''2006-1-2T15:04:05'', ''2006-1-2 15:04:05'', ''2006-1-2T15:04'', ''2006-1-2 15:04'', ''2006-1-2T1504'',
      ''2006-1-2 1504'', ''2006-1-2T15'', ''2006-1-2 15'', ''2006-1-2 3pm'', ''2006-1-2 3:04pm'', ''2006-1-2 3:04:05pm'',
      ''2-1-2006T15:04:05'', ''2-1-2006 15:04:05'', ''2-1-2006T15:04'', ''2-1-2006 15:04'', ''2-1-2006T1504'',
      ''2-1-2006 1504'', ''2-1-2006T15'', ''2-1-2006 15'', ''2-1-2006 3pm'', ''2-1-2006 3:04pm'', ''2-1-2006 3:04:05pm'']"

section \<open>Reading\<close>

record clock =
  k_year :: nat
  k_month :: nat
  k_day :: nat
  k_hour :: nat
  k_min :: nat
  k_sec :: nat
  k_nsec :: nat
  k_pm :: "bool option"

definition no_clock :: clock where
  "no_clock = \<lparr>k_year = 0, k_month = 0, k_day = 0, k_hour = 0, k_min = 0, k_sec = 0, k_nsec = 0, k_pm = None\<rparr>"

definition is_digit :: "char \<Rightarrow> bool" where
  "is_digit c \<longleftrightarrow> 48 \<le> (of_char c :: nat) \<and> (of_char c :: nat) \<le> 57"

definition digit_val :: "char \<Rightarrow> nat" where
  "digit_val c = of_char c - 48"

definition digits_val :: "string \<Rightarrow> nat" where
  "digits_val s = foldl (\<lambda>n c. 10 * n + digit_val c) 0 s"

text \<open>\<open>getnum\<close>: one or two digits, two if \<open>fixed\<close>.\<close>

fun getnum :: "bool \<Rightarrow> string \<Rightarrow> (nat \<times> string) option" where
  "getnum fixed (a # b # s) =
     (if \<not> is_digit a then None
      else if is_digit b then Some (10 * digit_val a + digit_val b, s)
      else if fixed then None else Some (digit_val a, b # s))"
| "getnum fixed [a] = (if \<not> is_digit a \<or> fixed then None else Some (digit_val a, []))"
| "getnum fixed [] = None"

definition get_range :: "bool \<Rightarrow> nat \<Rightarrow> nat \<Rightarrow> string \<Rightarrow> (nat \<times> string) option" where
  "get_range fixed lo hi s =
     (case getnum fixed s of None \<Rightarrow> None | Some (n, s) \<Rightarrow> if lo \<le> n \<and> n \<le> hi then Some (n, s) else None)"

text \<open>A fraction of a second, which a layout need not name; nine digits of it count.\<close>

definition get_fraction :: "string \<Rightarrow> nat \<times> string" where
  "get_fraction s =
     (case s of
        p # c # _ \<Rightarrow>
          if (p = CHR ''.'' \<or> p = CHR '','') \<and> is_digit c
          then let ds = takeWhile is_digit (tl s); ns = take 9 ds
               in (digits_val ns * 10 ^ (9 - length ns), drop (length ds) (tl s))
          else (0, s)
      | _ \<Rightarrow> (0, s))"

definition drop_spaces :: "string \<Rightarrow> string" where
  "drop_spaces s = dropWhile (\<lambda>c. c = CHR '' '') s"

fun read_chunk :: "chunk \<Rightarrow> string \<Rightarrow> clock \<Rightarrow> (string \<times> clock) option" where
  "read_chunk (Lit l) s k =
     (case s of
        [] \<Rightarrow> if l = CHR '' '' then Some ([], k) else None
      | c # s' \<Rightarrow> if c \<noteq> l then None else if l = CHR '' '' then Some (drop_spaces s, k) else Some (s', k))"
| "read_chunk LongYear s k =
     (if length s < 4 \<or> \<not> list_all is_digit (take 4 s) then None
      else Some (drop 4 s, k\<lparr>k_year := digits_val (take 4 s)\<rparr>))"
| "read_chunk NumMonth s k = map_option (\<lambda>(n, s). (s, k\<lparr>k_month := n\<rparr>)) (get_range False 1 12 s)"
| "read_chunk DayNum s k = map_option (\<lambda>(n, s). (s, k\<lparr>k_day := n\<rparr>)) (getnum False s)"
| "read_chunk Hour24 s k = map_option (\<lambda>(n, s). (s, k\<lparr>k_hour := n\<rparr>)) (get_range False 0 23 s)"
| "read_chunk Hour12 s k = map_option (\<lambda>(n, s). (s, k\<lparr>k_hour := n\<rparr>)) (get_range False 0 12 s)"
| "read_chunk ZeroMinute s k = map_option (\<lambda>(n, s). (s, k\<lparr>k_min := n\<rparr>)) (get_range True 0 59 s)"
| "read_chunk ZeroSecond s k =
     map_option (\<lambda>(n, s). let (ns, s) = get_fraction s in (s, k\<lparr>k_sec := n, k_nsec := ns\<rparr>)) (get_range True 0 59 s)"
| "read_chunk LowerPM s k =
     (if take 2 s = ''pm'' then Some (drop 2 s, k\<lparr>k_pm := Some True\<rparr>)
      else if take 2 s = ''am'' then Some (drop 2 s, k\<lparr>k_pm := Some False\<rparr>) else None)"

fun read_chunks :: "chunk list \<Rightarrow> string \<Rightarrow> clock \<Rightarrow> clock option" where
  "read_chunks [] s k = (if s = [] then Some k else None)"
| "read_chunks (c # cs) s k = (case read_chunk c s k of None \<Rightarrow> None | Some (s, k) \<Rightarrow> read_chunks cs s k)"

section \<open>The calendar\<close>

definition is_leap :: "nat \<Rightarrow> bool" where
  "is_leap y \<longleftrightarrow> y mod 4 = 0 \<and> (y mod 100 \<noteq> 0 \<or> y mod 400 = 0)"

definition days_in :: "nat \<Rightarrow> nat \<Rightarrow> nat" where
  "days_in m y = (if m = 2 then (if is_leap y then 29 else 28) else if m \<in> {4, 6, 9, 11} then 30 else 31)"

text \<open>Days from the first of January of year 0; 1970 begins 719528 days later.\<close>

definition year_days :: "nat \<Rightarrow> nat" where
  "year_days y = 365 * y + (y + 3) div 4 - (y + 99) div 100 + (y + 399) div 400"

definition days_of :: "nat \<Rightarrow> nat \<Rightarrow> nat \<Rightarrow> nat" where
  "days_of y m d = year_days y + sum_list (map (\<lambda>i. days_in i y) [1..<m]) + (d - 1)"

definition instant :: "clock \<Rightarrow> time" where
  "instant k =
     (((int (days_of (k_year k) (k_month k) (k_day k)) - 719528) * 24 + int (k_hour k)) * 3600
        + int (k_min k) * 60 + int (k_sec k)) * 1000000000 + int (k_nsec k)"

definition real_hour :: "clock \<Rightarrow> clock" where
  "real_hour k =
     (if k_pm k = Some True \<and> k_hour k < 12 then k\<lparr>k_hour := k_hour k + 12\<rparr>
      else if k_pm k = Some False \<and> k_hour k = 12 then k\<lparr>k_hour := 0\<rparr> else k)"

definition time_parse :: "string \<Rightarrow> string \<Rightarrow> time option" where
  "time_parse layout s =
     (case read_chunks (layout_chunks layout) s no_clock of
        None \<Rightarrow> None
      | Some k \<Rightarrow>
          if k_day k < 1 \<or> days_in (k_month k) (k_year k) < k_day k then None else Some (instant (real_hour k)))"

section \<open>\<open>FixDeadline\<close>\<close>

fun first_layout :: "string list \<Rightarrow> string \<Rightarrow> string + time" where
  "first_layout [] s = Inl (''invalid date format: '' @ s)"
| "first_layout (l # ls) s = (case time_parse l s of None \<Rightarrow> first_layout ls s | Some t \<Rightarrow> Inr t)"

definition fix_deadline :: "string \<Rightarrow> string + time" where
  "fix_deadline s = first_layout accepted_layouts s"

section \<open>Reading what was written\<close>

definition pad2 :: "nat \<Rightarrow> string" where
  "pad2 n = [digit_char (n div 10), digit_char (n mod 10)]"

definition pad4 :: "nat \<Rightarrow> string" where
  "pad4 n = pad2 (n div 100) @ pad2 (n mod 100)"

definition clock_ok :: "clock \<Rightarrow> bool" where
  "clock_ok k \<longleftrightarrow> k_year k < 10000 \<and> 1 \<le> k_month k \<and> k_month k \<le> 12 \<and> 1 \<le> k_day k \<and>
     k_day k \<le> days_in (k_month k) (k_year k) \<and> k_hour k < 24 \<and> k_min k < 60 \<and> k_sec k < 60 \<and> k_nsec k = 0 \<and> k_pm k = None"

text \<open>
  What people write.  The month, the day and the hour may be padded to two digits or not (\<open>pm\<close>, \<open>pd\<close>, \<open>ph\<close>);
  the hour of a packed time has two digits.  A 24-hour time comes after a \<open>T\<close> or a space, a 12-hour time after a space.
\<close>

datatype date_order = YearFirst | DayFirst

datatype time_style =
    Seconds24 bool | Minutes24 bool | Packed24 bool | Hours24 bool | Hours12 | Minutes12 | Seconds12

definition num :: "bool \<Rightarrow> nat \<Rightarrow> string" where
  "num pad n = (if pad \<or> 10 \<le> n then pad2 n else [digit_char n])"

fun show_date :: "date_order \<Rightarrow> bool \<Rightarrow> bool \<Rightarrow> clock \<Rightarrow> string" where
  "show_date YearFirst pm pd k = pad4 (k_year k) @ ''-'' @ num pm (k_month k) @ ''-'' @ num pd (k_day k)"
| "show_date DayFirst pm pd k = num pd (k_day k) @ ''-'' @ num pm (k_month k) @ ''-'' @ pad4 (k_year k)"

lemma digits_nonempty [simp]: "pad2 n \<noteq> []" "num p n \<noteq> []"
  by (simp_all add: pad2_def num_def)

definition separator :: "bool \<Rightarrow> string" where
  "separator t = (if t then ''T'' else '' '')"

definition hour12 :: "clock \<Rightarrow> nat" where
  "hour12 k = (if k_hour k mod 12 = 0 then 12 else k_hour k mod 12)"

definition half :: "clock \<Rightarrow> string" where
  "half k = (if 12 \<le> k_hour k then ''pm'' else ''am'')"

fun show_style :: "time_style \<Rightarrow> bool \<Rightarrow> clock \<Rightarrow> string" where
  "show_style (Seconds24 t) ph k = separator t @ num ph (k_hour k) @ '':'' @ pad2 (k_min k) @ '':'' @ pad2 (k_sec k)"
| "show_style (Minutes24 t) ph k = separator t @ num ph (k_hour k) @ '':'' @ pad2 (k_min k)"
| "show_style (Packed24 t) ph k = separator t @ pad2 (k_hour k) @ pad2 (k_min k)"
| "show_style (Hours24 t) ph k = separator t @ num ph (k_hour k)"
| "show_style Hours12 ph k = '' '' @ num ph (hour12 k) @ half k"
| "show_style Minutes12 ph k = '' '' @ num ph (hour12 k) @ '':'' @ pad2 (k_min k) @ half k"
| "show_style Seconds12 ph k = '' '' @ num ph (hour12 k) @ '':'' @ pad2 (k_min k) @ '':'' @ pad2 (k_sec k) @ half k"

text \<open>What a style leaves out counts as zero.\<close>

fun style_clock :: "time_style \<Rightarrow> clock \<Rightarrow> clock" where
  "style_clock (Seconds24 t) k = k"
| "style_clock (Minutes24 t) k = k\<lparr>k_sec := 0\<rparr>"
| "style_clock (Packed24 t) k = k\<lparr>k_sec := 0\<rparr>"
| "style_clock (Hours24 t) k = k\<lparr>k_min := 0, k_sec := 0\<rparr>"
| "style_clock Hours12 k = k\<lparr>k_min := 0, k_sec := 0\<rparr>"
| "style_clock Minutes12 k = k\<lparr>k_sec := 0\<rparr>"
| "style_clock Seconds12 k = k"

lemma digit_char_digit [simp]: "d < 10 \<Longrightarrow> is_digit (digit_char d)" "d < 10 \<Longrightarrow> digit_val (digit_char d) = d"
  by (simp_all add: is_digit_def digit_val_def digit_char_def)

lemma not_digits [simp]: "\<not> is_digit (CHR ''-'')" "\<not> is_digit (CHR ''T'')" "\<not> is_digit (CHR '':'')" "\<not> is_digit (CHR '' '')"
  "\<not> is_digit (CHR ''p'')" "\<not> is_digit (CHR ''a'')"
  by (simp_all add: is_digit_def)

lemma digit_char_not [simp]:
  assumes "d < 10"
  shows "digit_char d \<noteq> CHR ''-''" "digit_char d \<noteq> CHR ''T''" "digit_char d \<noteq> CHR '':''" "digit_char d \<noteq> CHR '' ''"
    "digit_char d \<noteq> CHR ''p''" "digit_char d \<noteq> CHR ''a''"
  using digit_char_digit(1) [OF assms] not_digits by metis+

lemma getnum_num: "n < 100 \<Longrightarrow> \<not> is_digit c \<Longrightarrow> getnum False (num p n @ c # s) = Some (n, c # s)"
  by (simp add: num_def pad2_def)

lemma getnum_num_end: "n < 100 \<Longrightarrow> getnum False (num p n) = Some (n, [])"
  by (simp add: num_def pad2_def)

lemma getnum_pad2: "n < 100 \<Longrightarrow> getnum fixed (pad2 n @ s) = Some (n, s)"
  by (simp add: pad2_def)

lemma read_year: "n < 10000 \<Longrightarrow> read_chunk LongYear (pad4 n @ s) k = Some (s, k\<lparr>k_year := n\<rparr>)"
proof -
  assume n: "n < 10000"
  have "digits_val (pad4 n) = 100 * (n div 100) + n mod 100"
    using n by (simp add: digits_val_def pad4_def pad2_def)
  moreover have "take 4 (pad4 n @ s) = pad4 n" "drop 4 (pad4 n @ s) = s" by (simp_all add: pad4_def pad2_def)
  moreover have "list_all is_digit (pad4 n)" using n by (simp add: pad4_def pad2_def)
  ultimately show ?thesis by (simp add: pad4_def pad2_def)
qed

section \<open>The layouts as chunks\<close>

definition date_chunks :: "date_order \<Rightarrow> chunk list" where
  "date_chunks o' = (case o' of
     YearFirst \<Rightarrow> [LongYear, Lit CHR ''-'', NumMonth, Lit CHR ''-'', DayNum]
   | DayFirst \<Rightarrow> [DayNum, Lit CHR ''-'', NumMonth, Lit CHR ''-'', LongYear])"

definition time_chunks :: "chunk list list" where
  "time_chunks =
     [[Lit CHR ''T'', Hour24, Lit CHR '':'', ZeroMinute, Lit CHR '':'', ZeroSecond],
      [Lit CHR '' '', Hour24, Lit CHR '':'', ZeroMinute, Lit CHR '':'', ZeroSecond],
      [Lit CHR ''T'', Hour24, Lit CHR '':'', ZeroMinute], [Lit CHR '' '', Hour24, Lit CHR '':'', ZeroMinute],
      [Lit CHR ''T'', Hour24, ZeroMinute], [Lit CHR '' '', Hour24, ZeroMinute],
      [Lit CHR ''T'', Hour24], [Lit CHR '' '', Hour24], [Lit CHR '' '', Hour12, LowerPM],
      [Lit CHR '' '', Hour12, Lit CHR '':'', ZeroMinute, LowerPM],
      [Lit CHR '' '', Hour12, Lit CHR '':'', ZeroMinute, Lit CHR '':'', ZeroSecond, LowerPM]]"

lemma layouts:
  "map layout_chunks accepted_layouts =
     map (\<lambda>t. date_chunks YearFirst @ t) time_chunks @ map (\<lambda>t. date_chunks DayFirst @ t) time_chunks"
  by (simp add: accepted_layouts_def layout_chunks.simps next_chunk_def date_chunks_def time_chunks_def)

definition parse_chunks :: "chunk list \<Rightarrow> string \<Rightarrow> clock \<Rightarrow> time option" where
  "parse_chunks cs s k0 =
     (case read_chunks cs s k0 of
        None \<Rightarrow> None
      | Some k \<Rightarrow>
          if k_day k < 1 \<or> days_in (k_month k) (k_year k) < k_day k then None else Some (instant (real_hour k)))"

fun first_some :: "'a option list \<Rightarrow> 'a option" where
  "first_some [] = None"
| "first_some (x # xs) = (case x of None \<Rightarrow> first_some xs | Some y \<Rightarrow> Some y)"

lemma first_some_append: "first_some (xs @ ys) = (case first_some xs of None \<Rightarrow> first_some ys | Some y \<Rightarrow> Some y)"
  by (induction xs) (auto split: option.split)

lemma first_some_None: "(\<And>x. x \<in> set xs \<Longrightarrow> f x = None) \<Longrightarrow> first_some (map f xs) = None"
  by (induction xs) auto

lemma first_layout_some:
  "first_layout ls s =
     (case first_some (map (\<lambda>cs. parse_chunks cs s no_clock) (map layout_chunks ls)) of
        None \<Rightarrow> Inl (''invalid date format: '' @ s) | Some t \<Rightarrow> Inr t)"
  by (induction ls) (simp_all add: time_parse_def parse_chunks_def split: option.split)

lemma read_steps:
  "Suc 0 \<le> n \<Longrightarrow> n \<le> 12 \<Longrightarrow> \<not> is_digit c \<Longrightarrow> read_chunk NumMonth (num p n @ c # s) k = Some (c # s, k\<lparr>k_month := n\<rparr>)"
  "n < 100 \<Longrightarrow> \<not> is_digit c \<Longrightarrow> read_chunk DayNum (num p n @ c # s) k = Some (c # s, k\<lparr>k_day := n\<rparr>)"
  "n < 24 \<Longrightarrow> \<not> is_digit c \<Longrightarrow> read_chunk Hour24 (num p n @ c # s) k = Some (c # s, k\<lparr>k_hour := n\<rparr>)"
  "n < 24 \<Longrightarrow> read_chunk Hour24 (pad2 n @ s) k = Some (s, k\<lparr>k_hour := n\<rparr>)"
  "n < 24 \<Longrightarrow> read_chunk Hour24 (num p n) k = Some ([], k\<lparr>k_hour := n\<rparr>)"
  "n < 13 \<Longrightarrow> \<not> is_digit c \<Longrightarrow> read_chunk Hour12 (num p n @ c # s) k = Some (c # s, k\<lparr>k_hour := n\<rparr>)"
  "n < 60 \<Longrightarrow> read_chunk ZeroMinute (pad2 n @ s) k = Some (s, k\<lparr>k_min := n\<rparr>)"
  "n < 60 \<Longrightarrow> read_chunk ZeroMinute (pad2 n) k = Some ([], k\<lparr>k_min := n\<rparr>)"
  "\<not> is_digit c \<Longrightarrow> read_chunk ZeroMinute (c # s) k = None" "read_chunk ZeroMinute [] k = None"
  "n < 60 \<Longrightarrow> read_chunk ZeroSecond (pad2 n) k = Some ([], k\<lparr>k_sec := n, k_nsec := 0\<rparr>)"
  "n < 60 \<Longrightarrow> c \<noteq> CHR ''.'' \<Longrightarrow> c \<noteq> CHR '','' \<Longrightarrow>
     read_chunk ZeroSecond (pad2 n @ c # s) k = Some (c # s, k\<lparr>k_sec := n, k_nsec := 0\<rparr>)"
  "read_chunk LowerPM (CHR '':'' # s) k = None" "read_chunk LowerPM ''pm'' k = Some ([], k\<lparr>k_pm := Some True\<rparr>)" "read_chunk LowerPM ''am'' k = Some ([], k\<lparr>k_pm := Some False\<rparr>)"
  using getnum_pad2 [of n True "[]"] getnum_pad2 [of n False "[]"]
  by (cases s; simp add: get_range_def getnum_num getnum_num_end getnum_pad2 get_fraction_def)+

lemma read_lits:
  "read_chunk (Lit l) [] k = (if l = CHR '' '' then Some ([], k) else None)"
  "read_chunk (Lit l) (c # s) k = (if c \<noteq> l then None else if l = CHR '' '' then Some (drop_spaces s, k) else Some (s, k))"
  "n < 100 \<Longrightarrow> l \<in> {CHR ''T'', CHR '':'', CHR ''-''} \<Longrightarrow> read_chunk (Lit l) (pad2 n @ s) k = None"
  "n < 100 \<Longrightarrow> l \<in> {CHR ''T'', CHR '':'', CHR ''-''} \<Longrightarrow> read_chunk (Lit l) (pad2 n) k = None"
  "n < 100 \<Longrightarrow> drop_spaces (num p n) = num p n"
  "n < 100 \<Longrightarrow> drop_spaces (num p n @ s) = num p n @ s" "n < 100 \<Longrightarrow> drop_spaces (pad2 n @ s) = pad2 n @ s"
  by (auto simp: drop_spaces_def num_def pad2_def)
text \<open>The calendar: a day comes after the one before it.\<close>

lemma days_of_next_day: "1 \<le> d \<Longrightarrow> days_of y m (Suc d) = Suc (days_of y m d)"
  by (simp add: days_of_def)

lemma days_of_next_month: "1 \<le> m \<Longrightarrow> days_of y (Suc m) 1 = Suc (days_of y m (days_in m y))"
  by (simp add: days_of_def days_in_def)

lemma year_days_Suc: "year_days (Suc y) = year_days y + (if is_leap y then 366 else 365)"
proof -
  have d4: "(Suc y + 3) div 4 = (y + 3) div 4 + (if y mod 4 = 0 then 1 else 0)" using div_Suc [of "y + 3" 4] by simp
  have d100: "(Suc y + 99) div 100 = (y + 99) div 100 + (if y mod 100 = 0 then 1 else 0)"
    using div_Suc [of "y + 99" 100] by simp
  have d400: "(Suc y + 399) div 400 = (y + 399) div 400 + (if y mod 400 = 0 then 1 else 0)"
    using div_Suc [of "y + 399" 400] by simp
  have le: "(y + 99) div 100 \<le> (y + 3) div 4"
  proof (cases y)
    case (Suc z)
    have "z div 100 \<le> z div 4" by (rule div_le_mono2) simp_all
    moreover have "(y + 99) div 100 = Suc (z div 100)" "(y + 3) div 4 = Suc (z div 4)" using Suc by simp_all
    ultimately show ?thesis by simp
  qed simp
  have "y mod 400 = 0 \<Longrightarrow> y mod 100 = 0" "y mod 100 = 0 \<Longrightarrow> y mod 4 = 0"
    using dvd_trans [of 100 400 y] dvd_trans [of 4 100 y] by (simp_all add: mod_eq_0_iff_dvd)
  with le show ?thesis unfolding year_days_def d4 d100 d400 is_leap_def by (auto simp: ac_simps)
qed

lemma days_of_next_year: "days_of (Suc y) 1 1 = Suc (days_of y 12 31)"
  by (simp add: days_of_def year_days_Suc days_in_def upt_rec)

section \<open>Every style is read back\<close>

declare read_chunk.simps [simp del]

definition dated :: "clock \<Rightarrow> clock" where
  "dated k = no_clock\<lparr>k_year := k_year k, k_month := k_month k, k_day := k_day k\<rparr>"

lemma clock_bounds:
  assumes "clock_ok k"
  shows "k_year k < 10000" "Suc 0 \<le> k_month k" "k_month k \<le> 12" "k_day k < 100" "k_hour k < 24" "k_min k < 60" "k_sec k < 60"
    "hour12 k < 13" "k_month k < 100" "hour12 k < 24" "k_hour k < 100" "k_min k < 100" "k_sec k < 100" "hour12 k < 100"
proof -
  have "hour12 k < 13" using mod_less_divisor [of 12 "k_hour k"] by (auto simp: hour12_def intro: less_trans)
  then show "hour12 k < 13" "hour12 k < 24" "hour12 k < 100" by simp_all
qed (use assms in \<open>auto simp: clock_ok_def days_in_def split: if_splits\<close>)

lemma style_starts:
  "\<exists>c cs. show_style st ph k = c # cs \<and> \<not> is_digit c"
  by (cases st) (simp_all add: separator_def)

lemma read_date:
  assumes "clock_ok k" and "\<not> is_digit c"
  shows "read_chunks (date_chunks o' @ t) (show_date o' pm pd k @ c # cs) no_clock = read_chunks t (c # cs) (dated k)"
  using assms(2) by (cases o') (simp_all add: date_chunks_def read_year read_steps read_lits clock_bounds [OF assms(1)] dated_def no_clock_def)

lemma day_first_no_year:
  assumes "k_day k < 100"
  shows "read_chunks (date_chunks YearFirst @ t) (show_date DayFirst pm pd k @ cs) k0 = None"
proof -
  have "\<not> list_all is_digit (take 4 (show_date DayFirst pm pd k @ cs))" using assms by (simp add: num_def pad2_def)
  then show ?thesis by (simp add: date_chunks_def read_chunk.simps del: show_date.simps)
qed

lemmas read_style = time_chunks_def separator_def read_steps read_lits

text \<open>What the layout of a style makes of the time.\<close>

fun style_reading :: "time_style \<Rightarrow> clock \<Rightarrow> clock" where
  "style_reading Hours12 k = (style_clock Hours12 k)\<lparr>k_hour := hour12 k, k_pm := Some (12 \<le> k_hour k)\<rparr>"
| "style_reading Minutes12 k = (style_clock Minutes12 k)\<lparr>k_hour := hour12 k, k_pm := Some (12 \<le> k_hour k)\<rparr>"
| "style_reading Seconds12 k = (style_clock Seconds12 k)\<lparr>k_hour := hour12 k, k_pm := Some (12 \<le> k_hour k)\<rparr>"
| "style_reading st k = style_clock st k"

text \<open>The time is read by the layout of its style: those that come before it in the list do not match.\<close>

lemma style_read:
  assumes "clock_ok k"
  shows "first_some (map (\<lambda>t. read_chunks t (show_style st ph k) (dated k)) time_chunks) = Some (style_reading st k)"
proof -
  obtain y m d h mi sec where k: "k = \<lparr>k_year = y, k_month = m, k_day = d, k_hour = h, k_min = mi, k_sec = sec, k_nsec = 0, k_pm = None\<rparr>"
    using assms by (cases k) (auto simp: clock_ok_def)
  note bounds = clock_bounds [OF assms, unfolded k, simplified]
  show ?thesis
    unfolding k by (cases st; cases "12 \<le> h") (simp_all add: read_style bounds half_def dated_def no_clock_def)
qed
lemma style_reading_instant:
  assumes "clock_ok k"
  shows "instant (real_hour (style_reading st k)) = instant (style_clock st k)" "k_day (style_reading st k) = k_day k"
    "k_month (style_reading st k) = k_month k" "k_year (style_reading st k) = k_year k"
proof -
  have "real_hour (c\<lparr>k_hour := hour12 k, k_pm := Some (12 \<le> k_hour k)\<rparr>) = c\<lparr>k_hour := k_hour k, k_pm := Some (12 \<le> k_hour k)\<rparr>" for c
  proof (cases "12 \<le> k_hour k")
    case True
    then have "k_hour k mod 12 = k_hour k - 12" using clock_bounds(5) [OF assms] by (simp add: le_mod_geq)
    with True show ?thesis using clock_bounds(5) [OF assms] by (cases "k_hour k = 12") (simp_all add: real_hour_def hour12_def)
  qed (simp add: real_hour_def hour12_def)
  moreover have "real_hour k = k" "real_hour (k\<lparr>k_sec := x\<rparr>) = k\<lparr>k_sec := x\<rparr>"
    "real_hour (k\<lparr>k_min := y, k_sec := x\<rparr>) = k\<lparr>k_min := y, k_sec := x\<rparr>" for x y
    using assms by (simp_all add: real_hour_def clock_ok_def)
  ultimately show "instant (real_hour (style_reading st k)) = instant (style_clock st k)"
    by (cases st) (simp_all add: instant_def)
  show "k_day (style_reading st k) = k_day k" "k_month (style_reading st k) = k_month k" "k_year (style_reading st k) = k_year k"
    by (cases st; simp)+
qed

lemma first_some_bind:
  "first_some (map f xs) = Some k \<Longrightarrow> g k = Some y \<Longrightarrow> first_some (map (\<lambda>x. Option.bind (f x) g) xs) = Some y"
  by (induction xs) (auto split: option.splits)

definition checked_instant :: "clock \<Rightarrow> time option" where
  "checked_instant k =
     (if k_day k < 1 \<or> days_in (k_month k) (k_year k) < k_day k then None else Some (instant (real_hour k)))"

lemma parse_chunks_bind: "parse_chunks cs s k0 = Option.bind (read_chunks cs s k0) checked_instant"
  by (simp add: parse_chunks_def checked_instant_def split: option.split)

lemma style_parsed:
  assumes "clock_ok k"
  shows "first_some (map (\<lambda>t. parse_chunks (date_chunks o' @ t) (show_date o' pm pd k @ show_style st ph k) no_clock) time_chunks)
    = Some (instant (style_clock st k))"
proof -
  obtain c cs where c: "show_style st ph k = c # cs" "\<not> is_digit c" using style_starts by blast
  have "checked_instant (style_reading st k) = Some (instant (style_clock st k))"
    using assms by (simp add: checked_instant_def style_reading_instant) (simp add: clock_ok_def)
  note parsed = first_some_bind [OF style_read [OF assms], where g = checked_instant, OF this]
  show ?thesis using parsed [of ph] unfolding c(1) parse_chunks_bind read_date [OF assms c(2)] .
qed

lemma fix_deadline_style:
  assumes "clock_ok k"
  shows "fix_deadline (show_date o' pm pd k @ show_style st ph k) = Inr (instant (style_clock st k))"
proof (cases o')
  case YearFirst
  from style_parsed [OF assms, of YearFirst pm pd st ph] show ?thesis
    unfolding fix_deadline_def first_layout_some layouts YearFirst by (simp add: comp_def first_some_append)
next
  case DayFirst
  have "first_some (map (\<lambda>t. parse_chunks (date_chunks YearFirst @ t) (show_date DayFirst pm pd k @ show_style st ph k) no_clock) time_chunks) = None"
    by (rule first_some_None) (simp add: parse_chunks_bind day_first_no_year clock_bounds [OF assms] del: show_date.simps)
  with style_parsed [OF assms, of DayFirst pm pd st ph] show ?thesis
    unfolding fix_deadline_def first_layout_some layouts DayFirst by (simp add: comp_def first_some_append del: show_date.simps)
qed

text \<open>An example.\<close>

definition sample_clock :: clock where
  "sample_clock = \<lparr>k_year = 2024, k_month = 2, k_day = 29, k_hour = 13, k_min = 14, k_sec = 15, k_nsec = 0, k_pm = None\<rparr>"

lemma sample_clock:
  "clock_ok sample_clock"
  "show_date YearFirst False False sample_clock @ show_style (Seconds24 True) False sample_clock = ''2024-2-29T13:14:15''"
  "show_date DayFirst True False sample_clock @ show_style Minutes12 False sample_clock = ''29-02-2024 1:14pm''"
  "instant (style_clock (Seconds24 True) sample_clock) = 1709212455000000000"
  "instant (style_clock Minutes12 sample_clock) = 1709212440000000000"
  unfolding sample_clock_def
  by (simp_all add: clock_ok_def is_leap_def instant_def days_of_def year_days_def days_in_def upt_rec
      num_def separator_def hour12_def half_def pad4_def pad2_def) code_simp+

lemma fix_deadline_sample: "fix_deadline ''2024-2-29T13:14:15'' = Inr 1709212455000000000"
  using fix_deadline_style [OF sample_clock(1), of YearFirst False False "Seconds24 True" False] unfolding sample_clock .

text \<open>
  C37: a deadline that is written in any of the 22 accepted ways is read back as the instant it names, whatever layouts
  are tried before its own: the year or the day first, after it a 24-hour time behind a \<open>T\<close> or a space (with minutes and
  seconds, with minutes, with minutes and no colon, or the hour alone) or a 12-hour time with \<open>am\<close> or \<open>pm\<close> behind a space
  (the hour alone, with minutes, or with minutes and seconds).  The month, the day and the hour may be padded to two
  digits or not, except the hour of a time with no colon, which has two.  What is left out counts as zero.
\<close>

theorem fix_deadline_reads_back:
  assumes "clock_ok k"
  shows "fix_deadline (show_date o' pm pd k @ show_style st ph k) = Inr (instant (style_clock st k))"
  by (rule fix_deadline_style [OF assms])

lemma fix_deadline_reads_back_witness:
  "fix_deadline ''29-02-2024 1:14pm'' = Inr 1709212440000000000"
  using fix_deadline_reads_back [OF sample_clock(1), of DayFirst True False Minutes12 False] unfolding sample_clock .

end
