(* ===== verification/Tests_Repo.thy ===== *)
theory Tests_Repo
  imports Deadline Entities Slice_Sort "HOL-Library.AList" "HOL-Library.List_Lexorder"
begin

text \<open>
  The assignments of a course as its tests repository describes them: \<open>assignments/walk_tests_repo.go\<close>,
  \<open>assignments/assignments_parser.go\<close> and the task files of \<open>assignments/tasks.go\<close>.  A map of files is the
  list of its entries in the order in which a loop visits them.  Decoding JSON is an argument, and so is
  \<open>sort.Slice\<close>, which is not stable.
\<close>

section \<open>Files\<close>

definition assignmentFile :: string where "assignmentFile = ''assignment.json''"
definition criteriaFile :: string where "criteriaFile = ''criteria.json''"
definition testsFile :: string where "testsFile = ''tests.json''"
definition taskFilePattern :: string where "taskFilePattern = ''task-*.md''"
definition dockerfileName :: string where "dockerfileName = ''Dockerfile''"

definition filesForBuildContext :: "string list" where
  "filesForBuildContext = [dockerfileName, ''go.mod'', ''go.sum'']"

definition patterns :: "string list" where
  "patterns = [assignmentFile, criteriaFile, testsFile, dockerfileName, taskFilePattern]"

text \<open>\<open>filepath.Match\<close> for patterns whose only special character is the star.\<close>

fun glob :: "string \<Rightarrow> string \<Rightarrow> bool" where
  "glob [] s \<longleftrightarrow> s = []"
| "glob (p # ps) s \<longleftrightarrow>
     (if p = CHR ''*''
      then list_ex (\<lambda>i. glob ps (drop i s)) [0..<Suc (length (takeWhile (\<lambda>c. c \<noteq> CHR ''/'') s))]
      else case s of [] \<Rightarrow> False | c # cs \<Rightarrow> c = p \<and> glob ps cs)"

definition match_any :: "string \<Rightarrow> bool" where
  "match_any filename \<longleftrightarrow> list_ex (\<lambda>p. glob p filename) patterns \<or> filename \<in> set filesForBuildContext"

definition match_file :: "string \<Rightarrow> string \<Rightarrow> bool" where
  "match_file filename pattern \<longleftrightarrow> glob pattern filename"

text \<open>\<open>filepath.Dir\<close>.\<close>

definition path_dir :: "string \<Rightarrow> string" where
  "path_dir p = path_clean (rev (dropWhile (\<lambda>c. c \<noteq> CHR ''/'') (rev p)))"

definition assignment_name :: "string \<Rightarrow> string" where
  "assignment_name path = path_base (path_dir path)"

section \<open>Errors and decoders\<close>

datatype tests_error =
    WalkError string
  | BadAssignment string
  | BadOrder
  | BadDeadline string
  | BadCriteria string
  | BadTests string
  | NoTitle string
  | NoBody string
  | MissingAssignment string string

record assignment_data =
  ad_Order :: u32
  ad_Deadline :: string
  ad_IsGroupLab :: bool
  ad_AutoApprove :: bool
  ad_ScoreLimit :: u32
  ad_Reviewers :: u32
  ad_ContainerTimeout :: u32

text \<open>An element of the lists of benchmarks and criteria may be null, which decodes to a nil pointer.\<close>

record decoders =
  js_assignment :: "string \<Rightarrow> string + assignment_data"
  js_benchmarks :: "string \<Rightarrow> string + (benchmark \<times> criterion option list) option list"
  js_tests :: "string \<Rightarrow> string + test_info list"

section \<open>Assignments and tasks\<close>

definition defaultAutoApproveScoreLimit :: u32 where "defaultAutoApproveScoreLimit = 80"

definition new_assignment_from_file :: "decoders \<Rightarrow> string \<Rightarrow> string \<Rightarrow> u64 \<Rightarrow> tests_error + assignment" where
  "new_assignment_from_file js contents assignmentName courseID =
     (case js_assignment js contents of
        Inl e \<Rightarrow> Inl (BadAssignment e)
      | Inr d \<Rightarrow>
          if ad_Order d < 1 then Inl BadOrder
          else let d = (if ad_ScoreLimit d < 1 then d\<lparr>ad_ScoreLimit := defaultAutoApproveScoreLimit\<rparr> else d)
               in case fix_deadline (ad_Deadline d) of
                    Inl e \<Rightarrow> Inl (BadDeadline e)
                  | Inr deadline \<Rightarrow>
                      Inr (zero_assignment\<lparr>a_CourseID := courseID, a_deadline := Some deadline, a_name := assignmentName,
                        a_order := ad_Order d, a_isGroupLab := ad_IsGroupLab d, a_autoApprove := ad_AutoApprove d,
                        a_scoreLimit := ad_ScoreLimit d, a_reviewers := ad_Reviewers d,
                        a_containerTimeout := ad_ContainerTimeout d\<rparr>))"

text \<open>A file name that is too short for the two slices is a panic.\<close>

definition task_name :: "string \<Rightarrow> string option" where
  "task_name filename =
     (if length filename < length ''task-'' then None
      else let n = drop (length ''task-'') filename
           in if length n < length ''.md'' then None else Some (take (length n - length ''.md'') n))"

definition new_task :: "string \<Rightarrow> u32 \<Rightarrow> string \<Rightarrow> tests_error + task" where
  "new_task contents assignmentOrder name =
     (if \<not> has_prefix contents ''# '' then Inl (NoTitle name)
      else case index_of contents [CHR 0x0A, CHR 0x0A] of
             None \<Rightarrow> Inl (NoBody name)
           | Some bodyIndex \<Rightarrow>
               Inr \<lparr>t_ID = 0, t_assignmentID = 0, t_assignmentOrder = assignmentOrder,
                 t_title = drop 2 (take bodyIndex contents), t_body = drop (bodyIndex + 2) contents,
                 t_name = name\<rparr>)"

section \<open>File processors\<close>

type_synonym file_processor = "string \<Rightarrow> string \<Rightarrow> assignment \<Rightarrow> u64 \<Rightarrow> (tests_error, assignment) outcome"

text \<open>The two loops that set the course write through the pointers: \<open>None\<close> is the panic on a nil one.\<close>

fun set_criteria :: "u64 \<Rightarrow> criterion option list \<Rightarrow> criterion list option" where
  "set_criteria courseID [] = Some []"
| "set_criteria courseID (None # cs) = None"
| "set_criteria courseID (Some c # cs) =
     map_option (\<lambda>cs. c\<lparr>cr_CourseID := courseID\<rparr> # cs) (set_criteria courseID cs)"

fun set_courses :: "u64 \<Rightarrow> (benchmark \<times> criterion option list) option list \<Rightarrow> benchmark list option" where
  "set_courses courseID [] = Some []"
| "set_courses courseID (None # bms) = None"
| "set_courses courseID (Some (bm, cs) # bms) =
     Option.bind (set_criteria courseID cs) (\<lambda>cs.
       map_option (\<lambda>bms. bm\<lparr>bm_CourseID := courseID, bm_criteria := cs\<rparr> # bms) (set_courses courseID bms))"

definition process_criteria_file :: "decoders \<Rightarrow> file_processor" where
  "process_criteria_file js filename contents a courseID =
     (case js_benchmarks js contents of
        Inl e \<Rightarrow> Err (BadCriteria e)
      | Inr bms \<Rightarrow>
          (case set_courses courseID bms of
             None \<Rightarrow> Panic ''invalid memory address or nil pointer dereference''
           | Some bms \<Rightarrow> Ok (a\<lparr>a_gradingBenchmarks := bms\<rparr>)))"

definition process_tests_file :: "decoders \<Rightarrow> file_processor" where
  "process_tests_file js filename contents a courseID =
     (case js_tests js contents of Inl e \<Rightarrow> Err (BadTests e) | Inr ts \<Rightarrow> Ok (a\<lparr>a_ExpectedTests := ts\<rparr>))"

definition process_task_file :: "file_processor" where
  "process_task_file filename contents a courseID =
     (case task_name filename of
        None \<Rightarrow> Panic ''slice bounds out of range''
      | Some n \<Rightarrow>
          (case new_task contents (a_order a) n of
             Inl e \<Rightarrow> Err e
           | Inr t \<Rightarrow> Ok (a\<lparr>a_tasks := a_tasks a @ [t]\<rparr>)))"

definition processors :: "decoders \<Rightarrow> (string \<times> file_processor) list" where
  "processors js =
     [(criteriaFile, process_criteria_file js), (testsFile, process_tests_file js), (taskFilePattern, process_task_file)]"

definition lookup_file_processor :: "decoders \<Rightarrow> string \<Rightarrow> file_processor option" where
  "lookup_file_processor js filename =
     map_option snd (find (\<lambda>(p, f). match_file filename p) (processors js))"

section \<open>The repository\<close>

text \<open>
  \<open>walkTestsRepository\<close>: the calls that \<open>filepath.WalkDir\<close> makes.  An entry is visited with its path, whether it is a
  directory, and what reading it as a file gives; a directory that cannot be read, or a root that is not there, is a call
  with an error, which ends the walk.
\<close>

datatype walk_entry =
    Visited string bool "string + string"
  | Unreadable string string

fun walk_tests_repository :: "walk_entry list \<Rightarrow> tests_error + (string \<times> string) list" where
  "walk_tests_repository [] = Inr []"
| "walk_tests_repository (Unreadable path e # entries) = Inl (WalkError e)"
| "walk_tests_repository (Visited path isDir contents # entries) =
     (if \<not> isDir \<and> match_any (path_base path)
      then case contents of
             Inl e \<Rightarrow> Inl (WalkError e)
           | Inr c \<Rightarrow> bind_res (walk_tests_repository entries) (\<lambda>files. Inr ((path, c) # files))
      else walk_tests_repository entries)"

type_synonym assignments_map = "(string \<times> assignment) list"

fun process_assignment_files :: "decoders \<Rightarrow> (string \<times> string) list \<Rightarrow> u64 \<Rightarrow> assignments_map \<Rightarrow> tests_error + assignments_map" where
  "process_assignment_files js [] courseID m = Inr m"
| "process_assignment_files js ((path, contents) # files) courseID m =
     (if path_base path = assignmentFile
      then bind_res (new_assignment_from_file js contents (assignment_name path) courseID) (\<lambda>a.
             process_assignment_files js files courseID (AList.update (assignment_name path) a m))
      else process_assignment_files js files courseID m)"

fun process_files ::
    "decoders \<Rightarrow> u64 \<Rightarrow> (string \<times> string) list \<Rightarrow> assignments_map \<times> (string \<rightharpoonup> string)
       \<Rightarrow> (tests_error, assignments_map \<times> (string \<rightharpoonup> string)) outcome" where
  "process_files js courseID [] st = Ok st"
| "process_files js courseID ((path, contents) # files) (m, bc) =
     (let filename = path_base path; n = assignment_name path
      in if filename \<in> set filesForBuildContext then process_files js courseID files (m, bc(filename \<mapsto> contents))
         else case map_of m n of
                None \<Rightarrow> Err (MissingAssignment n path)
              | Some a \<Rightarrow>
                  (case lookup_file_processor js filename of
                     None \<Rightarrow> process_files js courseID files (m, bc)
                   | Some processor \<Rightarrow>
                       bind_out (processor filename contents a courseID) (\<lambda>a.
                         process_files js courseID files (AList.update n a m, bc))))"

record sorters =
  so_tasks :: "(task \<Rightarrow> task \<Rightarrow> bool) \<Rightarrow> task list \<Rightarrow> task list"
  so_assignments :: "(assignment \<Rightarrow> assignment \<Rightarrow> bool) \<Rightarrow> assignment list \<Rightarrow> assignment list"

definition title_key :: "task \<Rightarrow> nat list" where
  "title_key t = map of_char (t_title t)"

definition sort_assignments :: "sorters \<Rightarrow> assignments_map \<Rightarrow> assignment list" where
  "sort_assignments so m =
     so_assignments so (\<lambda>x y. a_order x < a_order y)
       (map (\<lambda>(n, a). a\<lparr>a_tasks := so_tasks so (\<lambda>x y. title_key x < title_key y) (a_tasks a)\<rparr>) m)"

text \<open>The two loops visit the map of files in orders of their own.\<close>

definition read_tests_repository ::
    "decoders \<Rightarrow> sorters \<Rightarrow> u64 \<Rightarrow> (string \<times> string) list \<Rightarrow> (string \<times> string) list
       \<Rightarrow> (tests_error, assignment list \<times> (string \<rightharpoonup> string)) outcome" where
  "read_tests_repository js so courseID files1 files2 =
     (case process_assignment_files js files1 courseID [] of
        Inl e \<Rightarrow> Err e
      | Inr m \<Rightarrow>
          bind_out (process_files js courseID files2 (m, Map.empty)) (\<lambda>(m, bc). Ok (sort_assignments so m, bc)))"

section \<open>Names of files\<close>

lemma glob_literal: "CHR ''*'' \<notin> set p \<Longrightarrow> glob p s \<longleftrightarrow> s = p"
  by (induction p arbitrary: s) (auto split: list.splits)

lemma glob_prefix: "CHR ''*'' \<notin> set p \<Longrightarrow> glob (p @ q) s \<longleftrightarrow> (\<exists>t. s = p @ t \<and> glob q t)"
  by (induction p arbitrary: s) (auto split: list.splits)

lemma glob_star:
  "glob (CHR ''*'' # ps) t \<longleftrightarrow> (\<exists>i \<le> length (takeWhile (\<lambda>c. c \<noteq> CHR ''/'') t). glob ps (drop i t))"
  by (simp add: list_ex_iff Bex_def less_Suc_eq_le del: upt_Suc)

declare glob.simps [simp del]

lemma takeWhile_no_slash:
  "(\<exists>i \<le> length (takeWhile (\<lambda>c. c \<noteq> CHR ''/'') t). drop i t = q) \<longleftrightarrow> (\<exists>x. t = x @ q \<and> CHR ''/'' \<notin> set x)"
proof
  assume "\<exists>i \<le> length (takeWhile (\<lambda>c. c \<noteq> CHR ''/'') t). drop i t = q"
  then obtain i where i: "i \<le> length (takeWhile (\<lambda>c. c \<noteq> CHR ''/'') t)" "drop i t = q" by blast
  have "set (take i t) \<subseteq> set (takeWhile (\<lambda>c. c \<noteq> CHR ''/'') t)"
    using set_take_subset_set_take [OF i(1), of t] by (simp flip: takeWhile_eq_take)
  then have "CHR ''/'' \<notin> set (take i t)" using set_takeWhileD by fastforce
  then show "\<exists>x. t = x @ q \<and> CHR ''/'' \<notin> set x" using i(2) append_take_drop_id [of i t] by metis
next
  assume "\<exists>x. t = x @ q \<and> CHR ''/'' \<notin> set x"
  then obtain x where x: "t = x @ q" "CHR ''/'' \<notin> set x" by blast
  then have "takeWhile (\<lambda>c. c \<noteq> CHR ''/'') t = x @ takeWhile (\<lambda>c. c \<noteq> CHR ''/'') q"
    by (auto intro: takeWhile_append2)
  then show "\<exists>i \<le> length (takeWhile (\<lambda>c. c \<noteq> CHR ''/'') t). drop i t = q" using x(1) by (intro exI [of _ "length x"]) simp
qed

lemma glob_task: "glob taskFilePattern f \<longleftrightarrow> (\<exists>x. f = ''task-'' @ x @ ''.md'' \<and> CHR ''/'' \<notin> set x)"
proof -
  have "glob (CHR ''*'' # ''.md'') t \<longleftrightarrow> (\<exists>x. t = x @ ''.md'' \<and> CHR ''/'' \<notin> set x)" for t
    using glob_literal [of "''.md''"] takeWhile_no_slash [of t "''.md''"] by (simp add: glob_star)
  then have "glob (''task-'' @ CHR ''*'' # ''.md'') f \<longleftrightarrow> (\<exists>x. f = ''task-'' @ x @ ''.md'' \<and> CHR ''/'' \<notin> set x)"
    by (subst glob_prefix) auto
  then show ?thesis by (simp add: taskFilePattern_def)
qed

lemma task_name_append [simp]: "task_name (''task-'' @ x @ ''.md'') = Some x"
  by (simp add: task_name_def)

lemma task_name_glob: "glob taskFilePattern f \<Longrightarrow> \<exists>x. task_name f = Some x"
  using glob_task task_name_append by metis

lemma file_names [simp]:
  "assignmentFile \<noteq> criteriaFile" "assignmentFile \<noteq> testsFile" "criteriaFile \<noteq> testsFile" "testsFile \<noteq> criteriaFile"
  "\<not> glob taskFilePattern criteriaFile" "\<not> glob taskFilePattern testsFile" "\<not> glob taskFilePattern assignmentFile"
  "assignmentFile \<notin> set filesForBuildContext"
  by (simp_all add: glob_task criteriaFile_def testsFile_def assignmentFile_def filesForBuildContext_def dockerfileName_def)

lemma lookup_processor:
  "lookup_file_processor js f =
     (if f = criteriaFile then Some (process_criteria_file js) else if f = testsFile then Some (process_tests_file js)
      else if glob taskFilePattern f then Some process_task_file else None)"
proof -
  have "glob criteriaFile f \<longleftrightarrow> f = criteriaFile" "glob testsFile f \<longleftrightarrow> f = testsFile"
    by (simp_all add: glob_literal criteriaFile_def testsFile_def)
  then show ?thesis by (auto simp: lookup_file_processor_def processors_def match_file_def)
qed

section \<open>The order of files\<close>

text \<open>What a map of assignments says, up to the order of tasks: the loops are folds over it.\<close>

type_synonym repo_view = "string \<rightharpoonup> assignment \<times> task multiset"

definition view_one :: "assignment \<Rightarrow> assignment \<times> task multiset" where
  "view_one a = (a\<lparr>a_tasks := []\<rparr>, mset (a_tasks a))"

definition view_map :: "assignments_map \<Rightarrow> repo_view" where
  "view_map m n = map_option view_one (map_of m n)"

text \<open>The benchmarks of a criteria file that decodes without null elements.\<close>

definition criteria_of :: "decoders \<Rightarrow> u64 \<Rightarrow> string \<Rightarrow> benchmark list option" where
  "criteria_of js courseID c = (case js_benchmarks js c of Inl e \<Rightarrow> None | Inr bms \<Rightarrow> set_courses courseID bms)"

definition null_criteria :: "decoders \<Rightarrow> u64 \<Rightarrow> string \<Rightarrow> bool" where
  "null_criteria js courseID c \<longleftrightarrow> (\<exists>bms. js_benchmarks js c = Inr bms \<and> set_courses courseID bms = None)"

definition apply_file :: "decoders \<Rightarrow> u64 \<Rightarrow> string \<Rightarrow> string \<Rightarrow> assignment \<times> task multiset \<Rightarrow> assignment \<times> task multiset" where
  "apply_file js courseID f c = (\<lambda>(a, T).
     if f = criteriaFile then (a\<lparr>a_gradingBenchmarks := the (criteria_of js courseID c)\<rparr>, T)
     else if f = testsFile then (a\<lparr>a_ExpectedTests := projr (js_tests js c)\<rparr>, T)
     else if glob taskFilePattern f then (a, add_mset (projr (new_task c (a_order a) (the (task_name f)))) T)
     else (a, T))"

definition view_step :: "decoders \<Rightarrow> u64 \<Rightarrow> string \<times> string \<Rightarrow> repo_view \<times> (string \<rightharpoonup> string) \<Rightarrow> repo_view \<times> (string \<rightharpoonup> string)" where
  "view_step js courseID = (\<lambda>(p, c) (v, bc).
     if path_base p \<in> set filesForBuildContext then (v, bc(path_base p \<mapsto> c))
     else (v(assignment_name p := map_option (apply_file js courseID (path_base p) c) (v (assignment_name p))), bc))"

definition file_ok :: "decoders \<Rightarrow> u64 \<Rightarrow> (string \<rightharpoonup> u32) \<Rightarrow> string \<times> string \<Rightarrow> bool" where
  "file_ok js courseID sg = (\<lambda>(p, c). path_base p \<in> set filesForBuildContext \<or>
     (case sg (assignment_name p) of None \<Rightarrow> False
      | Some k \<Rightarrow>
          (path_base p = criteriaFile \<longrightarrow> criteria_of js courseID c \<noteq> None) \<and> (path_base p = testsFile \<longrightarrow> \<not> isl (js_tests js c)) \<and>
          (glob taskFilePattern (path_base p) \<longrightarrow> \<not> isl (new_task c k (the (task_name (path_base p)))))))"

definition orders :: "assignments_map \<Rightarrow> string \<rightharpoonup> u32" where
  "orders m n = map_option a_order (map_of m n)"

lemma view_step_pair:
  "view_step js courseID (p, c) (v, bc) =
     (if path_base p \<in> set filesForBuildContext then (v, bc(path_base p \<mapsto> c))
      else (v(assignment_name p := map_option (apply_file js courseID (path_base p) c) (v (assignment_name p))), bc))"
  by (simp add: view_step_def)

lemma file_ok_pair:
  "file_ok js courseID sg (p, c) \<longleftrightarrow> path_base p \<in> set filesForBuildContext \<or>
     (\<exists>k. sg (assignment_name p) = Some k \<and>
        (path_base p = criteriaFile \<longrightarrow> criteria_of js courseID c \<noteq> None) \<and> (path_base p = testsFile \<longrightarrow> \<not> isl (js_tests js c)) \<and>
        (glob taskFilePattern (path_base p) \<longrightarrow> \<not> isl (new_task c k (the (task_name (path_base p))))))"
  by (auto simp: file_ok_def split: option.splits)

text \<open>One file.\<close>

lemma process_one:
  assumes "lookup_file_processor js f = Some processor"
  shows "(\<exists>a'. processor f c a courseID = Ok a' \<and> view_one a' = apply_file js courseID f c (view_one a) \<and> a_order a' = a_order a \<and>
            (f = criteriaFile \<longrightarrow> criteria_of js courseID c \<noteq> None) \<and> (f = testsFile \<longrightarrow> \<not> isl (js_tests js c)) \<and>
            (glob taskFilePattern f \<longrightarrow> \<not> isl (new_task c (a_order a) (the (task_name f))))) \<or>
         ((\<exists>e. processor f c a courseID = Err e) \<or>
            (\<exists>e. processor f c a courseID = Panic e \<and> f = criteriaFile \<and> null_criteria js courseID c)) \<and>
           \<not> ((f = criteriaFile \<longrightarrow> criteria_of js courseID c \<noteq> None) \<and> (f = testsFile \<longrightarrow> \<not> isl (js_tests js c)) \<and>
              (glob taskFilePattern f \<longrightarrow> \<not> isl (new_task c (a_order a) (the (task_name f)))))"
proof -
  consider "f = criteriaFile" | "f = testsFile" | "glob taskFilePattern f" "f \<noteq> criteriaFile" "f \<noteq> testsFile"
    using assms by (auto simp: lookup_processor split: if_splits)
  then show ?thesis
  proof cases
    case 1
    then have p: "processor = process_criteria_file js" using assms by (simp add: lookup_processor)
    show ?thesis
    proof (cases "criteria_of js courseID c")
      case None
      with 1 show ?thesis
        by (cases "js_benchmarks js c") (simp_all add: p process_criteria_file_def criteria_of_def null_criteria_def)
    next
      case (Some bms)
      then have "processor f c a courseID = Ok (a\<lparr>a_gradingBenchmarks := bms\<rparr>)"
        by (cases "js_benchmarks js c") (simp_all add: p process_criteria_file_def criteria_of_def)
      then show ?thesis using 1 Some by (simp add: view_one_def apply_file_def)
    qed
  next
    case 2
    then show ?thesis using assms
      by (cases "js_tests js c") (auto simp: lookup_processor process_tests_file_def view_one_def apply_file_def)
  next
    case 3
    then obtain x where x: "task_name f = Some x" using task_name_glob by blast
    show ?thesis using 3 assms x
      by (cases "new_task c (a_order a) x")
        (auto simp: lookup_processor process_task_file_def view_one_def apply_file_def)
  qed
qed

lemma view_update: "view_map (AList.update n a m) = (view_map m)(n \<mapsto> view_one a)"
  by (rule ext) (simp add: view_map_def update_conv')

lemma orders_update: "map_of m n = Some a \<Longrightarrow> a_order a' = a_order a \<Longrightarrow> orders (AList.update n a' m) = orders m"
  by (rule ext) (auto simp: orders_def update_conv')

lemma process_files_fold:
  "process_files js courseID files (m, bc) = Ok (m', bc') \<Longrightarrow>
     (view_map m', bc') = fold (view_step js courseID) files (view_map m, bc) \<and> list_all (file_ok js courseID (orders m)) files \<and>
     map fst m' = map fst m"
proof (induction files arbitrary: m bc)
  case (Cons pc files)
  obtain p c where pc: "pc = (p, c)" by (cases pc)
  let ?f = "path_base p" and ?n = "assignment_name p"
  show ?case
  proof (cases "?f \<in> set filesForBuildContext")
    case True
    then show ?thesis using Cons pc by (simp add: view_step_pair file_ok_pair fun_upd_def)
  next
    case False
    with Cons.prems pc obtain a where a: "map_of m ?n = Some a" by (cases "map_of m ?n") auto
    have keys: "map fst (AList.update ?n a' m) = map fst m" for a'
      using a by (simp add: update_keys map_of_SomeD) (metis fst_conv image_eqI map_of_SomeD)
    show ?thesis
    proof (cases "lookup_file_processor js ?f")
      case None
      then have noproc: "?f \<noteq> criteriaFile" "?f \<noteq> testsFile" "\<not> glob taskFilePattern ?f"
        by (auto simp: lookup_processor split: if_splits)
      then have "apply_file js courseID ?f c = id" by (auto simp: apply_file_def)
      then have "view_step js courseID pc (view_map m, bc) = (view_map m, bc)"
        using False pc by (auto simp: view_step_pair option.map_id)
      then show ?thesis using Cons None False a pc noproc by (simp add: file_ok_pair orders_def)
    next
      case (Some processor)
      from process_one [OF this, of c a courseID] Cons.prems pc False a Some obtain a' where a':
        "processor ?f c a courseID = Ok a'" "view_one a' = apply_file js courseID ?f c (view_one a)" "a_order a' = a_order a"
        and ok: "(?f = criteriaFile \<longrightarrow> criteria_of js courseID c \<noteq> None) \<and> (?f = testsFile \<longrightarrow> \<not> isl (js_tests js c)) \<and>
            (glob taskFilePattern ?f \<longrightarrow> \<not> isl (new_task c (a_order a) (the (task_name ?f))))"
        by auto
      have "process_files js courseID files (AList.update ?n a' m, bc) = Ok (m', bc')"
        using Cons.prems pc False a Some a'(1) by simp
      from Cons.IH [OF this] have IH: "(view_map m', bc') = fold (view_step js courseID) files (view_map (AList.update ?n a' m), bc)"
        "list_all (file_ok js courseID (orders m)) files" "map fst m' = map fst m"
        using orders_update [OF a a'(3)] keys by simp_all
      have "view_step js courseID pc (view_map m, bc) = (view_map (AList.update ?n a' m), bc)"
        using pc False a a'(2) by (simp add: view_step_pair view_update) (simp add: view_map_def)
      moreover have "file_ok js courseID (orders m) pc" using pc a ok by (simp add: file_ok_pair orders_def)
      ultimately show ?thesis using IH by simp
    qed
  qed
qed simp

lemma process_files_succeeds:
  "list_all (file_ok js courseID (orders m)) files \<Longrightarrow> \<exists>m' bc'. process_files js courseID files (m, bc) = Ok (m', bc')"
proof (induction files arbitrary: m bc)
  case (Cons pc files)
  obtain p c where pc: "pc = (p, c)" by (cases pc)
  let ?f = "path_base p" and ?n = "assignment_name p"
  show ?case
  proof (cases "?f \<in> set filesForBuildContext")
    case True
    then show ?thesis using Cons pc by simp
  next
    case False
    with Cons.prems pc obtain a where a: "map_of m ?n = Some a" by (auto simp: file_ok_pair orders_def split: option.splits)
    show ?thesis
    proof (cases "lookup_file_processor js ?f")
      case None
      then show ?thesis using Cons False a pc by simp
    next
      case (Some processor)
      from process_one [OF this, of c a courseID] Cons.prems pc False a obtain a' where
        a': "processor ?f c a courseID = Ok a'" "a_order a' = a_order a"
        by (auto simp: file_ok_pair orders_def)
      then show ?thesis using Cons orders_update [OF a a'(2)] False a pc Some by simp
    qed
  qed
qed simp

text \<open>The files of assignments.\<close>

definition assignment_step :: "decoders \<Rightarrow> u64 \<Rightarrow> string \<times> string \<Rightarrow> repo_view \<Rightarrow> repo_view" where
  "assignment_step js courseID = (\<lambda>(p, c) v.
     if path_base p = assignmentFile
     then v(assignment_name p \<mapsto> view_one (projr (new_assignment_from_file js c (assignment_name p) courseID))) else v)"

definition assignment_ok :: "decoders \<Rightarrow> u64 \<Rightarrow> string \<times> string \<Rightarrow> bool" where
  "assignment_ok js courseID = (\<lambda>(p, c).
     path_base p = assignmentFile \<longrightarrow> \<not> isl (new_assignment_from_file js c (assignment_name p) courseID))"

lemma process_assignment_files_fold:
  "process_assignment_files js files courseID m = Inr m' \<Longrightarrow> distinct (map fst m) \<Longrightarrow>
     view_map m' = fold (assignment_step js courseID) files (view_map m) \<and> list_all (assignment_ok js courseID) files \<and>
     distinct (map fst m')"
proof (induction files arbitrary: m)
  case (Cons pc files)
  obtain p c where pc: "pc = (p, c)" by (cases pc)
  show ?case
  proof (cases "path_base p = assignmentFile")
    case True
    with Cons.prems pc obtain a where a: "new_assignment_from_file js c (assignment_name p) courseID = Inr a"
      "process_assignment_files js files courseID (AList.update (assignment_name p) a m) = Inr m'"
      by (auto simp: bind_res_Inr_iff)
    have "assignment_step js courseID pc (view_map m) = view_map (AList.update (assignment_name p) a m)"
      using True a(1) pc by (simp add: assignment_step_def view_update)
    moreover have "assignment_ok js courseID pc" using a(1) pc by (simp add: assignment_ok_def)
    ultimately show ?thesis using Cons.IH [OF a(2)] Cons.prems(2) by (simp add: distinct_update)
  next
    case False
    then show ?thesis using Cons pc by (simp add: assignment_ok_def assignment_step_def)
  qed
qed simp

lemma process_assignment_files_succeeds:
  "list_all (assignment_ok js courseID) files \<Longrightarrow> \<exists>m'. process_assignment_files js files courseID m = Inr m'"
proof (induction files arbitrary: m)
  case (Cons pc files)
  obtain p c where pc: "pc = (p, c)" by (cases pc)
  with Cons show ?case
    by (cases "new_assignment_from_file js c (assignment_name p) courseID") (auto simp: assignment_ok_def)
qed simp

text \<open>Two files do not disturb each other, unless they have one name in directories of one name.\<close>

definition one_of_each :: "(string \<times> string) list \<Rightarrow> bool" where
  "one_of_each files \<longleftrightarrow>
     (\<forall>x\<in>set files. \<forall>y\<in>set files. path_base (fst x) = path_base (fst y) \<longrightarrow>
        assignment_name (fst x) = assignment_name (fst y) \<or> path_base (fst x) \<in> set filesForBuildContext \<longrightarrow> x = y)"

lemma apply_file_commute:
  "f \<noteq> f' \<Longrightarrow> apply_file js courseID f c (apply_file js courseID f' c' at) = apply_file js courseID f' c' (apply_file js courseID f c at)"
  by (cases at) (auto simp: apply_file_def add_mset_commute)

lemma view_step_commute:
  assumes "one_of_each files" and "x \<in> set files" and "y \<in> set files"
  shows "view_step js courseID x \<circ> view_step js courseID y = view_step js courseID y \<circ> view_step js courseID x"
proof (cases "x = y")
  case False
  obtain p c q d where xy: "x = (p, c)" "y = (q, d)" by (cases x, cases y)
  have apart: "path_base p = path_base q \<Longrightarrow>
      assignment_name p \<noteq> assignment_name q \<and> path_base p \<notin> set filesForBuildContext"
    using assms False xy unfolding one_of_each_def by fastforce
  show ?thesis
  proof (rule ext)
    fix st :: "repo_view \<times> (string \<rightharpoonup> string)"
    obtain v bc where st: "st = (v, bc)" by (cases st)
    show "(view_step js courseID x \<circ> view_step js courseID y) st = (view_step js courseID y \<circ> view_step js courseID x) st"
    proof (cases "path_base p = path_base q")
      case True
      with apart have ne: "assignment_name p \<noteq> assignment_name q" and "path_base q \<notin> set filesForBuildContext" by simp_all
      with True show ?thesis using not_sym [OF ne] by (simp add: xy st view_step_pair fun_upd_twist [OF ne])
    next
      case differ: False
      then show ?thesis
        using apply_file_commute [OF differ]
        by (auto simp: xy st view_step_pair fun_upd_twist option.map_comp comp_def)
    qed
  qed
qed simp

lemma assignment_step_commute:
  assumes "one_of_each files" and "x \<in> set files" and "y \<in> set files"
  shows "assignment_step js courseID x \<circ> assignment_step js courseID y =
    assignment_step js courseID y \<circ> assignment_step js courseID x"
proof (cases "x = y")
  case False
  obtain p c q d where xy: "x = (p, c)" "y = (q, d)" by (cases x, cases y)
  show ?thesis
  proof (cases "path_base p = assignmentFile \<and> path_base q = assignmentFile")
    case True
    then have "assignment_name p \<noteq> assignment_name q"
      using assms False xy unfolding one_of_each_def by fastforce
    then show ?thesis using True by (simp add: xy assignment_step_def comp_def fun_upd_twist)
  qed (auto simp: xy assignment_step_def comp_def)
qed simp

lemma view_orders: "view_map m' = view_map m \<Longrightarrow> orders m' = orders m"
proof (rule ext)
  fix n assume "view_map m' = view_map m"
  then have "map_option view_one (map_of m' n) = map_option view_one (map_of m n)" by (metis view_map_def)
  then show "orders m' n = orders m n"
    by (cases "map_of m n"; cases "map_of m' n")
      (auto simp: orders_def view_one_def dest: arg_cong [where f = "a_order"])
qed

section \<open>Sorting\<close>

lemma sorted_view:
  assumes "slice_ok (so_tasks so) title_key" and "slice_ok (so_assignments so) a_order"
    and "view_map m = view_map m'" and "distinct (map fst m)" and "distinct (map fst m')"
    and "distinct (map a_order (sort_assignments so m))"
    and "\<forall>a\<in>set (sort_assignments so m). distinct (map title_key (a_tasks a))"
  shows "sort_assignments so m' = sort_assignments so m"
proof -
  let ?sort = "so_tasks so (\<lambda>x y. title_key x < title_key y)"
  define g where "g a = (a :: assignment)\<lparr>a_tasks := ?sort (a_tasks a)\<rparr>" for a
  define h where "h = map (\<lambda>(n, a). (n :: string, g a))"
  have sort: "sort_assignments so l = so_assignments so (\<lambda>x y. a_order x < a_order y) (map snd (h l))" for l
    by (simp add: sort_assignments_def h_def g_def comp_def case_prod_unfold)
  have ms: "mset (sort_assignments so l) = mset (map snd (h l))" for l
    using assms(2) unfolding sort slice_ok_def by blast
  have titles: "distinct (map title_key (a_tasks a))" if "(n, a) \<in> set m" for n a
  proof -
    have "g a \<in> set (sort_assignments so m)"
      using that mset_eq_setD [OF ms [of m]] by (force simp: h_def)
    with assms(7) have "distinct (map title_key (?sort (a_tasks a)))" by (auto simp: g_def)
    moreover have "mset (map title_key (?sort (a_tasks a))) = mset (map title_key (a_tasks a))"
      using assms(1) unfolding slice_ok_def by simp
    ultimately show ?thesis using mset_eq_imp_distinct_iff by blast
  qed
  have "map_of (h m) = map_of (h m')"
  proof (rule ext)
    fix n
    have mo: "map_of (h l) n = map_option g (map_of l n)" for l by (simp add: h_def map_of_map)
    from assms(3) have v: "map_option view_one (map_of m n) = map_option view_one (map_of m' n)" by (metis view_map_def)
    show "map_of (h m) n = map_of (h m') n"
    proof (cases "map_of m n")
      case None
      with v show ?thesis by (simp add: mo)
    next
      case (Some a)
      with v obtain a' where a': "map_of m' n = Some a'" "view_one a = view_one a'" by (cases "map_of m' n") auto
      then have "mset (a_tasks a) = mset (a_tasks a')" "a\<lparr>a_tasks := []\<rparr> = a'\<lparr>a_tasks := []\<rparr>" by (simp_all add: view_one_def)
      moreover have "?sort (a_tasks a) = ?sort (a_tasks a')"
        by (rule slice_unique [OF assms(1) calculation(1) titles [OF map_of_SomeD [OF Some]]])
      ultimately have "g a = g a'" unfolding g_def by (cases a; cases a') simp
      then show ?thesis using Some a' by (simp add: mo)
    qed
  qed
  moreover have keys: "map fst (h l) = map fst l" for l by (simp add: h_def comp_def case_prod_unfold)
  ultimately have "set (h m) = set (h m')" using map_of_inject_set assms(4,5) by metis
  moreover have "distinct (h m)" "distinct (h m')" using assms(4,5) keys distinct_map by metis+
  ultimately have "mset (h m) = mset (h m')" using set_eq_iff_mset_eq_distinct by blast
  then have eq: "mset (map snd (h m)) = mset (map snd (h m'))" by simp
  moreover have "distinct (map a_order (map snd (h m)))"
    using assms(6) ms [of m] by (metis mset_eq_imp_distinct_iff mset_map)
  ultimately show ?thesis unfolding sort using slice_unique [OF assms(2)] by metis
qed

section \<open>Properties\<close>


lemma process_files_panic:
  "process_files js courseID files st = Panic msg \<Longrightarrow> \<exists>(p, c)\<in>set files. path_base p = criteriaFile \<and> null_criteria js courseID c"
proof (induction js courseID files st rule: process_files.induct)
  case (2 js courseID p c files m bc)
  show ?case
  proof (cases "path_base p \<in> set filesForBuildContext")
    case True
    then show ?thesis using 2(1,4) by simp
  next
    case False
    then obtain a where a: "map_of m (assignment_name p) = Some a"
      using 2(4) by (cases "map_of m (assignment_name p)") auto
    show ?thesis
    proof (cases "lookup_file_processor js (path_base p)")
      case None
      then show ?thesis using 2(2) [OF refl refl False a None] 2(4) False a by simp
    next
      case (Some processor)
      from process_one [OF this, of c a courseID] show ?thesis
      proof (elim disjE exE conjE)
        fix a' assume "processor (path_base p) c a courseID = Ok a'"
        with 2(3) [OF refl refl False a Some, of a'] 2(4) False a Some show ?thesis by simp
      qed (use 2(4) False a Some in auto)
    qed
  qed
qed simp

lemma bind_out_Panic_iff: "bind_out r f = Panic msg \<longleftrightarrow> r = Panic msg \<or> (\<exists>x. r = Ok x \<and> f x = Panic msg)"
  by (cases r) auto

lemma index_of_line:
  "CHR 0x0A \<notin> set t \<Longrightarrow> index_of (t @ CHR 0x0A # CHR 0x0A # b) [CHR 0x0A, CHR 0x0A] = Some (length t)"
  by (induction t) (auto simp: has_prefix_def)

text \<open>A repository with two assignments, one of them with a task, and a Dockerfile.\<close>

definition sample_decoders :: decoders where
  "sample_decoders = \<lparr>js_assignment = (\<lambda>c. Inr \<lparr>ad_Order = (if c = ''1'' then 1 else 2), ad_Deadline = ''2024-2-29T13:14:15'',
       ad_IsGroupLab = False, ad_AutoApprove = True, ad_ScoreLimit = 0, ad_Reviewers = 0, ad_ContainerTimeout = 0\<rparr>),
     js_benchmarks = (\<lambda>c. Inr []), js_tests = (\<lambda>c. Inr [])\<rparr>"

definition sample_files :: "(string \<times> string) list" where
  "sample_files = [(''t/lab1/assignment.json'', ''1''), (''t/lab2/assignment.json'', ''2''),
     (''t/lab2/task-a.md'', ''# A'' @ [CHR 0x0A, CHR 0x0A] @ ''b''), (''t/scripts/Dockerfile'', ''FROM go'')]"

definition insert_sorters :: sorters where
  "insert_sorters = \<lparr>so_tasks = insert_sort, so_assignments = insert_sort\<rparr>"

lemma sample_names:
  "path_base ''t/lab1/assignment.json'' = assignmentFile" "assignment_name ''t/lab1/assignment.json'' = ''lab1''"
  "path_base ''t/lab2/assignment.json'' = assignmentFile" "assignment_name ''t/lab2/assignment.json'' = ''lab2''"
  "path_base ''t/lab2/task-a.md'' = ''task-a.md''" "assignment_name ''t/lab2/task-a.md'' = ''lab2''"
  "path_base ''t/scripts/Dockerfile'' = ''Dockerfile''" "assignment_name ''t/scripts/Dockerfile'' = ''scripts''"
  by code_simp+

lemma sample_one_of_each: "one_of_each sample_files"
  by (simp add: one_of_each_def sample_files_def sample_names) (simp add: assignmentFile_def filesForBuildContext_def dockerfileName_def)

lemma sample_read:
  "\<exists>as bc. read_tests_repository sample_decoders insert_sorters 7 sample_files sample_files = Ok (as, bc) \<and>
     map a_order as = [1, 2] \<and> map (\<lambda>a. map t_title (a_tasks a)) as = [[], [''A'']]"
proof -
  have names: "''task-a.md'' \<noteq> assignmentFile" "''Dockerfile'' \<noteq> assignmentFile" "''Dockerfile'' \<in> set filesForBuildContext"
    "''task-a.md'' \<notin> set filesForBuildContext" "lookup_file_processor js assignmentFile = None"
    "lookup_file_processor js ''task-a.md'' = Some process_task_file" "task_name ''task-a.md'' = Some ''a''" for js
    using task_name_append [of "''a''"]
    by (simp_all add: assignmentFile_def filesForBuildContext_def dockerfileName_def lookup_processor criteriaFile_def testsFile_def glob_task)
  obtain t where t: "fix_deadline ''2024-2-29T13:14:15'' = Inr t"
    by (simp add: fix_deadline_sample)
  show ?thesis
    by (simp add: read_tests_repository_def sample_files_def sample_names names new_assignment_from_file_def sample_decoders_def t
        process_task_file_def new_task_def has_prefix_def Let_def sort_assignments_def insert_sorters_def insert_sort_def zero_assignment_def)
qed


text \<open>With two Dockerfiles the image depends on the order in which Go visits the map.\<close>

definition two_dockerfiles :: "(string \<times> string) list" where
  "two_dockerfiles = [(''t/Dockerfile'', ''FROM a''), (''t/scripts/Dockerfile'', ''FROM b'')]"

lemma two_dockerfiles_differ:
  "\<exists>as bc bc'. read_tests_repository sample_decoders insert_sorters 7 two_dockerfiles two_dockerfiles = Ok (as, bc) \<and>
     read_tests_repository sample_decoders insert_sorters 7 (rev two_dockerfiles) (rev two_dockerfiles) = Ok (as, bc') \<and>
     bc dockerfileName \<noteq> bc' dockerfileName"
proof -
  have names: "path_base ''t/Dockerfile'' = dockerfileName" "path_base ''t/scripts/Dockerfile'' = dockerfileName" by code_simp+
  have "dockerfileName \<in> set filesForBuildContext" "dockerfileName \<noteq> assignmentFile"
    by (simp_all add: filesForBuildContext_def dockerfileName_def assignmentFile_def)
  then show ?thesis by (simp add: read_tests_repository_def two_dockerfiles_def names)
qed

text \<open>a task file that is written from a title on one line and a body is read back with the name of the
  file; reading a tests repository panics only on a criteria file with a null element, whatever its files are named.
\<close>

lemma new_task_reads_back:
  assumes "CHR 0x0A \<notin> set title" and "CHR ''/'' \<notin> set name"
  shows "new_task (''# '' @ title @ [CHR 0x0A, CHR 0x0A] @ body) k name =
      Inr \<lparr>t_ID = 0, t_assignmentID = 0, t_assignmentOrder = k, t_title = title, t_body = body, t_name = name\<rparr> \<and>
    match_file (''task-'' @ name @ ''.md'') taskFilePattern \<and> task_name (''task-'' @ name @ ''.md'') = Some name"
proof (intro conjI)
  have "index_of (''# '' @ title @ [CHR 0x0A, CHR 0x0A] @ body) [CHR 0x0A, CHR 0x0A] = Some (length title + 2)"
    using index_of_line [OF assms(1), of body] by (simp add: has_prefix_def)
  then show "new_task (''# '' @ title @ [CHR 0x0A, CHR 0x0A] @ body) k name =
      Inr \<lparr>t_ID = 0, t_assignmentID = 0, t_assignmentOrder = k, t_title = title, t_body = body, t_name = name\<rparr>"
    unfolding new_task_def by (simp add: has_prefix_def)
  show "match_file (''task-'' @ name @ ''.md'') taskFilePattern" unfolding match_file_def glob_task using assms(2) by blast
  show "task_name (''task-'' @ name @ ''.md'') = Some name" by (rule task_name_append)
qed

lemma read_panics_on_null:
  "read_tests_repository js so courseID files1 files2 = Panic msg \<Longrightarrow>
    \<exists>(p, c)\<in>set files2. path_base p = criteriaFile \<and> null_criteria js courseID c"
  using process_files_panic by (auto simp: read_tests_repository_def bind_out_Panic_iff split: sum.splits)

lemma new_task_reads_back_witness:
  "new_task (''# A'' @ [CHR 0x0A, CHR 0x0A] @ ''b'') 2 ''a'' =
     Inr \<lparr>t_ID = 0, t_assignmentID = 0, t_assignmentOrder = 2, t_title = ''A'', t_body = ''b'', t_name = ''a''\<rparr>"
  using new_task_reads_back [of "''A''" "''a''" "''b''" 2] by simp

end
