(* ===== verification/Task_Sync.thy ===== *)
theory Task_Sync
  imports Task_Store Github_Issues Course_Store Tests_Repo Run_Script
begin

text \<open>
  From a push to the tests repository to the database and to the issues of the groups:
  \<open>assignments/assignments.go\<close> and the rest of \<open>assignments/tasks.go\<close>.  The state is the database \<open>'d\<close>
  beside what is outside, \<open>'s\<close>: GitHub, the clones and the containers.
\<close>

section \<open>Actions on both parts of the state\<close>

datatype sync_error = DbErr db_error | ScmErr scm_error | NoReviewers u64 | BuildFailed run_error | HookErr string | Panicked string

type_synonym ('d, 's, 'a) sync = "('d \<times> 's, sync_error, 'a) action"

definition on_db :: "('d \<Rightarrow> db_error + ('a \<times> 'd)) \<Rightarrow> ('d, 's, 'a) sync" where
  "on_db f = (\<lambda>(d, s). case f d of Inl e \<Rightarrow> (Inl (DbErr e), (d, s)) | Inr (x, d) \<Rightarrow> (Inr x, (d, s)))"

definition read_db :: "('d \<Rightarrow> db_error + 'a) \<Rightarrow> ('d, 's, 'a) sync" where
  "read_db f = on_db (\<lambda>d. bind_res (f d) (\<lambda>x. Inr (x, d)))"

definition write_db :: "('d \<Rightarrow> db_error + 'd) \<Rightarrow> ('d, 's, unit) sync" where
  "write_db f = on_db (\<lambda>d. bind_res (f d) (\<lambda>d. Inr ((), d)))"

definition on_scm :: "('s, 'a) scm \<Rightarrow> ('d, 's, 'a) sync" where
  "on_scm m = (\<lambda>(d, s). case m s of (Inl e, s) \<Rightarrow> (Inl (ScmErr e), (d, s)) | (Inr x, s) \<Rightarrow> (Inr x, (d, s)))"

lemma bnd_on_db: "bnd (on_db f) k (d, s) = (case f d of Inl e \<Rightarrow> (Inl (DbErr e), (d, s)) | Inr (x, d') \<Rightarrow> k x (d', s))"
  by (simp add: bnd_def on_db_def split: sum.splits prod.splits)

lemma bnd_read_db: "bnd (read_db f) k (d, s) = (case f d of Inl e \<Rightarrow> (Inl (DbErr e), (d, s)) | Inr x \<Rightarrow> k x (d, s))"
  by (simp add: read_db_def bnd_on_db split: sum.splits)

section \<open>Issues for tasks\<close>

definition task_issue_options :: "course \<Rightarrow> repository \<Rightarrow> task \<Rightarrow> issue_options" where
  "task_issue_options course repo t = \<lparr>no_Organization = c_ScmOrganizationName course, no_Repository = repo_name repo,
     no_Title = t_title t, no_Body = t_body t, no_State = [], no_Assignee = None, no_Assignees = None, no_Number = 0\<rparr>"

fun create_issues :: "'s gh_issues \<Rightarrow> course \<Rightarrow> repository \<Rightarrow> task list \<Rightarrow> ('s, issue list) scm" where
  "create_issues g course repo [] = ret []"
| "create_issues g course repo (t # ts) =
     bnd (create_issue g (task_issue_options course repo t)) (\<lambda>x.
     bnd (create_issues g course repo ts) (\<lambda>is.
       ret (\<lparr>i_ID = 0, i_repositoryID = r_ID repo, i_taskID = t_ID t, i_ScmIssueNumber = word_of_int (is_Number x)\<rparr> # is)))"

definition map_tasks_by_id :: "task list \<Rightarrow> u64 \<rightharpoonup> task" where
  "map_tasks_by_id ts = fold (\<lambda>t m. m(t_ID t \<mapsto> t)) ts Map.empty"

definition update_options :: "course \<Rightarrow> repository \<Rightarrow> issue \<Rightarrow> task \<Rightarrow> issue_options" where
  "update_options course repo i t = (task_issue_options course repo t)
     \<lparr>no_Number := sint (i_ScmIssueNumber i), no_State := if is_deleted t then ''closed'' else []\<rparr>"

definition update_issues :: "'s gh_issues \<Rightarrow> course \<Rightarrow> repository \<Rightarrow> task list \<Rightarrow> ('s, unit) scm" where
  "update_issues g course repo ts =
     for_each (\<lambda>i. case map_tasks_by_id ts (i_taskID i) of
          None \<Rightarrow> ret ()
        | Some t \<Rightarrow> bnd (update_issue g (update_options course repo i t)) (\<lambda>_. ret ())) (r_issues repo)"

fun sync_repositories :: "'s gh_issues \<Rightarrow> course \<Rightarrow> task list \<Rightarrow> task list \<Rightarrow> repository list \<Rightarrow> ('s, issue list) scm" where
  "sync_repositories g course created updated [] = ret []"
| "sync_repositories g course created updated (r # rs) =
     (if \<not> is_group_repo r then sync_repositories g course created updated rs
      else bnd (create_issues g course r created) (\<lambda>is.
           bnd (update_issues g course r updated) (\<lambda>_.
           bnd (sync_repositories g course created updated rs) (\<lambda>more. ret (is @ more)))))"

definition synchronize_tasks_with_issues ::
    "'d task_db \<Rightarrow> 's gh_issues \<Rightarrow> ((task \<Rightarrow> task \<Rightarrow> bool) \<Rightarrow> task list \<Rightarrow> task list) \<Rightarrow> (task_entries \<Rightarrow> task list) \<Rightarrow> course \<Rightarrow> assignment list
       \<Rightarrow> ('d, 's, unit) sync" where
  "synchronize_tasks_with_issues db g sorter iter course as =
     bnd (on_db (\<lambda>d. bind_res (synchronize_assignment_tasks db sorter iter (c_ID course) (tasks_from_assignments as) d)
            (\<lambda>(created, updated, d). Inr ((created, updated), d)))) (\<lambda>(created, updated).
     bnd (read_db (get_repositories_with_issues db (zero_repository\<lparr>r_ScmOrganizationID := c_ScmOrganizationID course\<rparr>))) (\<lambda>repos.
     bnd (on_scm (sync_repositories g course created updated repos)) (\<lambda>is.
       write_db (create_issues_in_db db is))))"

section \<open>Updating a course from its tests repository\<close>

text \<open>
  \<open>save\<close> is \<open>UpdateCourse\<close>, \<open>build\<close> runs a job, \<open>walk\<close> lists a directory with its contents, \<open>range\<close> gives the two orders in which the
  map of the files is visited.  What the code logs is where the update stopped.
\<close>

datatype update_end =
    CloneFailed scm_error
  | ParseFailed tests_error
  | ParsePanic string
  | ImageFailed sync_error
  | DockerfileNotSaved sync_error
  | AssignmentsNotSaved "db_error list"
  | TasksNotSynced sync_error
  | Synced

record 's course_env =
  ce_clone :: "string \<Rightarrow> string \<Rightarrow> string \<Rightarrow> ('s, string) scm"
  ce_walk :: "string \<Rightarrow> 's \<Rightarrow> walk_entry list"
  ce_range1 :: "(string \<times> string) list \<Rightarrow> (string \<times> string) list"
  ce_range2 :: "(string \<times> string) list \<Rightarrow> (string \<times> string) list"
  ce_build :: "job \<Rightarrow> 's \<Rightarrow> (string \<times> run_error option) \<times> 's"
  ce_entries :: "(string \<rightharpoonup> string) \<Rightarrow> (string \<times> string) list"
  ce_rand :: "'s \<Rightarrow> string"
  ce_digest :: "string \<Rightarrow> string"
  ce_repositories :: string
  ce_decoders :: decoders
  ce_sorters :: sorters
  ce_task_sorter :: "(task \<Rightarrow> task \<Rightarrow> bool) \<Rightarrow> task list \<Rightarrow> task list"
  ce_iter :: "task_entries \<Rightarrow> task list"

definition read_tests_repository_content ::
    "'s course_env \<Rightarrow> string \<Rightarrow> u64 \<Rightarrow> 's \<Rightarrow> (tests_error, assignment list \<times> (string \<rightharpoonup> string)) outcome" where
  "read_tests_repository_content env dir courseID s =
     (case walk_tests_repository (ce_walk env dir s) of
        Inl e \<Rightarrow> Err e
      | Inr files \<Rightarrow> read_tests_repository (ce_decoders env) (ce_sorters env) courseID (ce_range1 env files) (ce_range2 env files))"

definition build_docker_image :: "'s course_env \<Rightarrow> course \<Rightarrow> (string \<rightharpoonup> string) \<Rightarrow> ('d, 's, unit) sync" where
  "build_docker_image env course buildContext = (\<lambda>(d, s).
     let (r, s) = ce_build env \<lparr>jb_Name = job_name (ce_rand env s) course, jb_Image = docker_image course, jb_Language = [],
           jb_BuildContext = ce_entries env buildContext, jb_BindDir = [], jb_ReadOnlyMounts = [], jb_Env = [],
           jb_Commands = [''echo -n \"Hello from Dockerfile\"'']\<rparr> s
     in case snd r of Some e \<Rightarrow> (Inl (BuildFailed e), (d, s)) | None \<Rightarrow> (Inr (), (d, s)))"

definition rebuild_image ::
    "'s course_env \<Rightarrow> (course \<Rightarrow> 'd \<Rightarrow> db_error + 'd) \<Rightarrow> bool \<Rightarrow> course \<Rightarrow> (string \<rightharpoonup> string) \<Rightarrow> 'd \<times> 's \<Rightarrow> update_end option \<times> 'd \<times> 's" where
  "rebuild_image env save updated course bc ds =
     (if \<not> updated then (None, ds)
      else case build_docker_image env course bc ds of
             (Inl e, ds) \<Rightarrow> (Some (ImageFailed e), ds)
           | (Inr _, ds) \<Rightarrow>
               (case write_db (save course) ds of
                  (Inl e, ds) \<Rightarrow> (Some (DockerfileNotSaved e), ds)
                | (Inr _, ds) \<Rightarrow> (None, ds)))"

definition store_assignments ::
    "'s course_env \<Rightarrow> 'd task_db \<Rightarrow> 's gh_issues \<Rightarrow> course \<Rightarrow> assignment list \<Rightarrow> 'd \<times> 's \<Rightarrow> update_end \<times> 'd \<times> 's" where
  "store_assignments env db g course as ds =
     (let (d, s) = ds; (errs, as, d) = update_assignments (tadb db) as d
      in if errs \<noteq> [] then (AssignmentsNotSaved errs, d, s)
         else case synchronize_tasks_with_issues db g (ce_task_sorter env) (ce_iter env) course as (d, s) of
                (Inl e, ds) \<Rightarrow> (TasksNotSynced e, ds)
              | (Inr _, ds) \<Rightarrow> (Synced, ds))"

definition update_from_tests_repo ::
    "'s course_env \<Rightarrow> 'd task_db \<Rightarrow> (course \<Rightarrow> 'd \<Rightarrow> db_error + 'd) \<Rightarrow> 's gh_issues \<Rightarrow> course \<Rightarrow> dockerfile_cache \<Rightarrow> 'd \<times> 's
       \<Rightarrow> update_end \<times> dockerfile_cache \<times> 'd \<times> 's" where
  "update_from_tests_repo env db save g course cache = (\<lambda>(d, s).
     case ce_clone env (c_ScmOrganizationName course) TestsRepo (course_clone_dir (ce_repositories env) course) s of
       (Inl e, s) \<Rightarrow> (CloneFailed e, cache, d, s)
     | (Inr dir, s) \<Rightarrow>
         (case read_tests_repository_content env dir (c_ID course) s of
            Panic m \<Rightarrow> (ParsePanic m, cache, d, s)
          | Err e \<Rightarrow> (ParseFailed e, cache, d, s)
          | Ok (as, bc) \<Rightarrow>
              (let (updated, cache, course) = update_dockerfile (ce_digest env) cache course (got [] (bc dockerfileName))
               in case rebuild_image env save updated course bc (d, s) of
                    (Some stop, ds) \<Rightarrow> (stop, cache, ds)
                  | (None, ds) \<Rightarrow> (case store_assignments env db g course as ds of (stop, ds) \<Rightarrow> (stop, cache, ds)))))"

section \<open>Which issues are closed\<close>

lemma preserves_on_db: "preserves (\<lambda>(d, s). P s) (on_db f)"
  by (auto simp: preserves_def on_db_def split: sum.splits)

lemma preserves_read_db: "preserves (\<lambda>(d, s). P s) (read_db f)" "preserves (\<lambda>(d, s). P s) (write_db h)"
  by (simp_all add: read_db_def write_db_def preserves_on_db)

lemma preserves_on_scm: "preserves P m \<Longrightarrow> preserves (\<lambda>(d, s). P s) (on_scm m)"
  by (auto simp: preserves_def on_scm_def split: sum.splits prod.splits)

lemma create_issues_keep:
  "(\<And>org repo q. preserves P (gq_create_issue g org repo q)) \<Longrightarrow> preserves P (create_issues g course repo ts)"
  by (induction ts) (auto intro!: keep)

text \<open>
  GitHub keeps \<open>P\<close> when an issue is created, and when one is edited without closing it or under one of the
  titles of \<open>T\<close>.
\<close>

definition closing_breaks :: "'s gh_issues \<Rightarrow> ('s \<Rightarrow> bool) \<Rightarrow> string set \<Rightarrow> bool" where
  "closing_breaks g P T \<longleftrightarrow> (\<forall>org repo q. preserves P (gq_create_issue g org repo q)) \<and>
     (\<forall>org repo n q. iq_State q \<noteq> Some ''closed'' \<or> iq_Title q \<in> T \<longrightarrow> preserves P (gq_edit_issue g org repo n q))"

lemma update_issues_keep:
  assumes "closing_breaks g P T"
    and "\<And>i t. i \<in> set (r_issues repo) \<Longrightarrow> map_tasks_by_id ts (i_taskID i) = Some t \<Longrightarrow> is_deleted t \<Longrightarrow> t_title t \<in> T"
  shows "preserves P (update_issues g course repo ts)"
  unfolding update_issues_def
proof (intro keep)
  fix i t assume i: "i \<in> set (r_issues repo)" and t: "map_tasks_by_id ts (i_taskID i) = Some t"
  have "no_State (update_options course repo i t) \<noteq> ''closed'' \<or> no_Title (update_options course repo i t) \<in> T"
    using assms(2) [OF i t] by (simp add: update_options_def task_issue_options_def)
  then show "preserves P (update_issue g (update_options course repo i t))"
    using assms(1) by (intro update_issue_keeps) (auto simp: closing_breaks_def)
qed

lemma sync_repositories_keep:
  assumes "closing_breaks g P T"
    and "\<And>r i t. r \<in> set rs \<Longrightarrow> i \<in> set (r_issues r) \<Longrightarrow> map_tasks_by_id updated (i_taskID i) = Some t \<Longrightarrow> is_deleted t \<Longrightarrow>
      t_title t \<in> T"
  shows "preserves P (sync_repositories g course created updated rs)"
  using assms(2)
proof (induction rs)
  case (Cons r rs)
  have "preserves P (create_issues g course r created)"
    using assms(1) by (intro create_issues_keep) (auto simp: closing_breaks_def)
  moreover have "preserves P (update_issues g course r updated)"
    using Cons.prems by (intro update_issues_keep [OF assms(1)]) auto
  moreover have "preserves P (sync_repositories g course created updated rs)" using Cons by auto
  ultimately show ?case by (auto intro!: keep)
qed (simp add: keep)

lemma map_tasks_by_id_Some: "map_tasks_by_id ts i = Some t \<Longrightarrow> t \<in> set ts \<and> t_ID t = i"
proof -
  have "fold (\<lambda>t m. m(t_ID t \<mapsto> t)) ts m i = Some t \<Longrightarrow> (t \<in> set ts \<and> t_ID t = i) \<or> m i = Some t" for m
    by (induction ts arbitrary: m) (force split: if_splits)+
  then show "map_tasks_by_id ts i = Some t \<Longrightarrow> t \<in> set ts \<and> t_ID t = i" by (force simp: map_tasks_by_id_def)
qed

lemma tasks_from_assignments_mem:
  assumes "(n, t) \<in> set (tasks_from_assignments as k)"
  shows "\<exists>a\<in>set as. t \<in> set (a_tasks a)"
proof -
  have e: "(n, t) \<in> set (fold (\<lambda>t. AList.update (t_name t) t) ts m) \<Longrightarrow> t \<in> set ts \<or> (n, t) \<in> set m" for ts m
    by (induction ts arbitrary: m) (auto dest!: subsetD [OF set_AList_update])
  have "(n, t) \<in> set (fold (\<lambda>a m. m(a_order a := entries_of (a_tasks a))) as m k) \<Longrightarrow>
      (\<exists>a\<in>set as. t \<in> set (a_tasks a)) \<or> (n, t) \<in> set (m k)" for m
    by (induction as arbitrary: m) (force simp: entries_of_def dest: e split: if_splits)+
  from this [of "\<lambda>_. []"] assms show ?thesis by (simp add: tasks_from_assignments_def)
qed

definition repositories_ok :: "'d task_db \<Rightarrow> ('d \<Rightarrow> task_view) \<Rightarrow> bool" where
  "repositories_ok db view \<longleftrightarrow> (\<forall>q d rs r. tq_repositories db q d = Inr rs \<longrightarrow> r \<in> set rs \<longrightarrow> set (r_issues r) \<subseteq> set (tv_issues (view d)))"


text \<open>GitHub as the number of edits that closed an issue.\<close>

definition no_issue :: gh_issue where
  "no_issue = \<lparr>gi_ID = None, gi_Title = None, gi_Body = None, gi_Repository = None, gi_Assignee = None, gi_Number = Some 1, gi_State = None\<rparr>"

definition counting_issues :: "nat gh_issues" where
  "counting_issues = \<lparr>gq_create_issue = \<lambda>org repo q n. (Inr no_issue, n),
     gq_edit_issue = \<lambda>org repo i q n. (Inr no_issue, if iq_State q = Some ''closed'' then n + 1 else n),
     gq_issue = \<lambda>org repo i n. (Inl 404, n), gq_issues = \<lambda>org repo n. (Inr [], n),
     gq_create_comment = \<lambda>org repo i b n. (Inr 1, n), gq_edit_comment = \<lambda>org repo i b n. (Inr (), n),
     gq_request_reviewers = \<lambda>org repo i rs n. (Inr (), n)\<rparr>"

lemma counting_closes: "closing_breaks counting_issues (\<lambda>n. n = k) {}"
  by (simp add: closing_breaks_def counting_issues_def preserves_def)

definition sample_group_repo :: repository where
  "sample_group_repo = zero_repository\<lparr>r_ID := 2, r_HTMLURL := ''https://github.com/org/group'', r_repoType := R_GROUP\<rparr>"


text \<open>A task whose title was changed to one that begins with \<open>DELETED\<close> is not deleted, and its issue is closed.\<close>

definition revised_labs :: "assignment list" where
  "revised_labs = [zero_assignment\<lparr>a_ID := 7, a_CourseID := 1, a_order := 1,
     a_tasks := [sample_task 0 0 ''a'' ''DELETED rows'']\<rparr>]"

definition revised_stored :: task_view where
  "revised_stored = \<lparr>tv_tasks = [sample_task 4 7 ''a'' ''Removed rows''],
     tv_issues = [\<lparr>i_ID = 1, i_repositoryID = 2, i_taskID = 4, i_ScmIssueNumber = 3\<rparr>]\<rparr>"

lemma title_closes_issue:
  "snd (snd (synchronize_tasks_with_issues (list_tdb revised_labs [sample_group_repo]) counting_issues insert_sort (map snd)
     (zero_course\<lparr>c_ID := 1, c_ScmOrganizationName := ''org''\<rparr>) revised_labs (revised_stored, 0))) = 1"
  by code_simp

section \<open>The order of an update\<close>

lemma build_docker_image_result: "\<exists>r s'. build_docker_image env course bc (d, s) = (r, (d, s'))"
  unfolding build_docker_image_def by (simp only: Let_def prod.case) (simp split: prod.split option.split)

text \<open>An update of a course that stops before the assignments, at the clone, at the parser, at the image or
  at the digest, leaves the database as it was, so the next push tries again; and the assignments are touched
  only after the image of the Dockerfile they came with has been built and its digest stored, unless the digest
  is the stored one or there is no Dockerfile.\<close>

lemma image_before_assignments:
  assumes "update_from_tests_repo env db save g course cache (d, s) = (stop, cache', d', s')"
  shows "(case stop of
      AssignmentsNotSaved errs \<Rightarrow> True | TasksNotSynced e \<Rightarrow> True | Synced \<Rightarrow> True
    | _ \<Rightarrow> d' = d) \<and>
    (d' \<noteq> d \<longrightarrow> (\<exists>dir as bc s1 s2 d1 dockerfile.
       ce_clone env (c_ScmOrganizationName course) TestsRepo (course_clone_dir (ce_repositories env) course) s = (Inr dir, s1) \<and>
       read_tests_repository_content env dir (c_ID course) s1 = Ok (as, bc) \<and> dockerfile = got [] (bc dockerfileName) \<and>
       (if dockerfile = [] \<or> c_DockerfileDigest course = ce_digest env dockerfile
        then (d1, s2) = (d, s1) \<and> store_assignments env db g course as (d1, s2) = (stop, d', s')
        else (let course = course\<lparr>c_DockerfileDigest := ce_digest env dockerfile\<rparr>
              in build_docker_image env course bc (d, s1) = (Inr (), (d, s2)) \<and> save course d = Inr d1 \<and>
                 store_assignments env db g course as (d1, s2) = (stop, d', s')))))"
proof -
  obtain r1 s1 where c: "ce_clone env (c_ScmOrganizationName course) TestsRepo (course_clone_dir (ce_repositories env) course) s = (r1, s1)"
    by fastforce
  show ?thesis
  proof (cases r1)
    case (Inl e)
    with c assms show ?thesis by (auto simp: update_from_tests_repo_def)
  next
    case (Inr dir)
    show ?thesis
    proof (cases "read_tests_repository_content env dir (c_ID course) s1")
      case (Ok x)
      obtain as bc where x: "x = (as, bc)" by (cases x)
      let ?f = "got [] (bc dockerfileName)" and ?new = "course\<lparr>c_DockerfileDigest := ce_digest env (got [] (bc dockerfileName))\<rparr>"
      show ?thesis
      proof (cases "?f = [] \<or> c_DockerfileDigest course = ce_digest env ?f")
        case True
        then have "update_dockerfile (ce_digest env) cache course ?f = (False, if ?f = [] then cache else cache(c_ID course := ?f), course)"
          by (auto simp: update_dockerfile_def Let_def)
        with assms c Inr Ok x have st: "store_assignments env db g course as (d, s1) = (stop, d', s')"
          by (auto simp: update_from_tests_repo_def rebuild_image_def split: prod.splits)
        then have "case stop of AssignmentsNotSaved errs \<Rightarrow> True | TasksNotSynced e \<Rightarrow> True | Synced \<Rightarrow> True | _ \<Rightarrow> d' = d"
          by (auto simp: store_assignments_def split: prod.splits sum.splits if_splits)
        with True st c Inr Ok x show ?thesis by (intro conjI impI exI [of _ dir] exI [of _ as] exI [of _ bc]) auto
      next
        case False
        then have u: "update_dockerfile (ce_digest env) cache course ?f = (True, cache(c_ID course := ?f), ?new)"
          by (simp add: update_dockerfile_def Let_def)
        obtain r2 s2 where b: "build_docker_image env ?new bc (d, s1) = (r2, (d, s2))"
          using build_docker_image_result [of env ?new bc d s1] by auto
        show ?thesis
        proof (cases r2)
          case Inl2: (Inl e)
          with assms c Inr Ok x u b show ?thesis
            by (auto simp: update_from_tests_repo_def rebuild_image_def)
        next
          case Inr2: (Inr y)
          show ?thesis
          proof (cases "save ?new d")
            case Inl3: (Inl e)
            with assms c Inr Ok x u b Inr2 show ?thesis
              by (auto simp: update_from_tests_repo_def rebuild_image_def write_db_def on_db_def)
          next
            case Inr3: (Inr d1)
            with assms c Inr Ok x u b Inr2 have st: "store_assignments env db g ?new as (d1, s2) = (stop, d', s')"
              by (auto simp: update_from_tests_repo_def rebuild_image_def write_db_def on_db_def split: prod.splits)
            then have "case stop of AssignmentsNotSaved errs \<Rightarrow> True | TasksNotSynced e \<Rightarrow> True | Synced \<Rightarrow> True | _ \<Rightarrow> d' = d"
              by (auto simp: store_assignments_def split: prod.splits sum.splits if_splits)
            with False st c Inr Ok x b Inr2 Inr3 show ?thesis
              by (intro conjI impI exI [of _ dir] exI [of _ as] exI [of _ bc]) (auto simp: Let_def)
          qed
        qed
      qed
    qed (use assms c Inr in \<open>auto simp: update_from_tests_repo_def\<close>)
  qed
qed

definition sample_env :: "nat course_env" where
  "sample_env = \<lparr>ce_clone = \<lambda>org repo dir n. (Inr ''/c'', n),
     ce_walk = \<lambda>dir n. [Visited ''/c/Dockerfile'' False (Inr ''FROM go'')],
     ce_range1 = id, ce_range2 = id, ce_build = \<lambda>jb n. ((''done'', None), n), ce_entries = \<lambda>bc. [],
     ce_rand = \<lambda>n. ''x'', ce_digest = \<lambda>f. ''digest'', ce_repositories = ''/repos'', ce_decoders = sample_decoders,
     ce_sorters = insert_sorters, ce_task_sorter = insert_sort, ce_iter = map snd\<rparr>"

lemma image_before_assignments_witness:
  "\<exists>cache' d' s' dir as bc. update_from_tests_repo sample_env (list_tdb sample_labs []) (\<lambda>c d. Inr d) counting_issues
       (zero_course\<lparr>c_ID := 1\<rparr>) (\<lambda>_. []) (sample_stored, 0) = (Synced, cache', d', s') \<and> d' \<noteq> sample_stored \<and>
     read_tests_repository_content sample_env dir 1 0 = Ok (as, bc) \<and>
     (got [] (bc dockerfileName) = [] \<or> fst (build_docker_image sample_env (zero_course\<lparr>c_ID := 1, c_DockerfileDigest := ''digest''\<rparr>) bc (sample_stored, 0)) = Inr ())"
proof -
  let ?u = "update_from_tests_repo sample_env (list_tdb sample_labs []) (\<lambda>c d. Inr d) counting_issues
       (zero_course\<lparr>c_ID := 1\<rparr>) (\<lambda>_. []) (sample_stored, 0)"
  have "fst ?u = Synced" by code_simp
  moreover have "tv_tasks (fst (snd (snd ?u))) \<noteq> tv_tasks sample_stored" by code_simp
  ultimately obtain cache' d' s' where u: "?u = (Synced, cache', d', s')" and d: "d' \<noteq> sample_stored" by (cases ?u) auto
  have clone: "ce_clone sample_env org repo dir 0 = (Inr ''/c'', 0)" for org repo dir by (simp add: sample_env_def)
  have dig: "ce_digest sample_env x = ''digest''" "c_DockerfileDigest (zero_course\<lparr>c_ID := 1\<rparr>) = []" for x
    by (simp_all add: sample_env_def zero_course_def)
  from image_before_assignments [OF u] d obtain as bc s2 where
    "read_tests_repository_content sample_env ''/c'' 1 0 = Ok (as, bc)"
    "got [] (bc dockerfileName) = [] \<or> build_docker_image sample_env (zero_course\<lparr>c_ID := 1, c_DockerfileDigest := ''digest''\<rparr>) bc (sample_stored, 0) = (Inr (), (sample_stored, s2))"
    by (auto simp: clone dig Let_def split: if_splits)
  with u d show ?thesis by (intro exI conjI) (assumption | auto)+
qed

end
