(* ===== verification/Pull_Requests.thy ===== *)
theory Pull_Requests
  imports Task_Sync Results
begin

text \<open>
  Pull requests of the groups: the choice of reviewers (\<open>assignments/pull_requests.go\<close>) and the events of
  GitHub about pull requests (\<open>web/hooks/pull_request.go\<close>, \<open>web/hooks/queries.go\<close>).  The variables of the
  process, the two counters of reviews and the cache of Dockerfiles, stand beside the state of GitHub.
\<close>

section \<open>Reviewers\<close>

type_synonym counter = "u64 \<rightharpoonup> int"
type_synonym count_map = "u64 \<rightharpoonup> counter"

record process_vars =
  rc_teachers :: count_map
  rc_groups :: count_map
  rc_dockerfiles :: dockerfile_cache

definition initialize :: "u64 \<Rightarrow> count_map \<Rightarrow> count_map" where
  "initialize i m = (case m i of None \<Rightarrow> m(i \<mapsto> Map.empty) | Some c \<Rightarrow> m)"

definition incremented :: "u64 \<Rightarrow> counter \<Rightarrow> counter" where
  "incremented i m = m(i \<mapsto> got 0 (m i) + 1)"

text \<open>The loop; \<open>first\<close> says that it is at index 0.  The identifier of a nil user is 0.\<close>

fun next_loop :: "user list \<Rightarrow> bool \<Rightarrow> user option \<Rightarrow> int \<Rightarrow> counter \<Rightarrow> user option \<times> counter" where
  "next_loop [] first lowest low m = (lowest, incremented (case lowest of None \<Rightarrow> 0 | Some u \<Rightarrow> u_ID u) m)"
| "next_loop (u # us) first lowest low m =
     (case m (u_ID u) of
        None \<Rightarrow> (Some u, m(u_ID u \<mapsto> 1))
      | Some c \<Rightarrow> if c < low \<or> first then next_loop us False (Some u) c m else next_loop us False lowest low m)"

definition get_next_reviewer :: "user list \<Rightarrow> counter \<Rightarrow> user option \<times> counter" where
  "get_next_reviewer us m = next_loop us True None 0 m"

type_synonym ('d, 's, 'a) hook = "('d, 's \<times> process_vars, 'a) sync"

definition on_github :: "('s, 'a) scm \<Rightarrow> ('d, 's, 'a) hook" where
  "on_github m = (\<lambda>(d, s, c). case m s of (Inl e, s) \<Rightarrow> (Inl (ScmErr e), (d, s, c)) | (Inr x, s) \<Rightarrow> (Inr x, (d, s, c)))"

definition get_next_teacher_reviewer :: "'d course_db \<Rightarrow> course \<Rightarrow> ('d, 's, user option) hook" where
  "get_next_teacher_reviewer db course =
     bnd (read_db (get_course_teachers db course)) (\<lambda>teachers (d, s, c).
       let m = initialize (c_ID course) (rc_teachers c);
           (r, k) = get_next_reviewer teachers (got Map.empty (m (c_ID course)))
       in (Inr r, (d, s, c\<lparr>rc_teachers := m(c_ID course \<mapsto> k)\<rparr>)))"

definition get_next_student_reviewer :: "'d course_db \<Rightarrow> u64 \<Rightarrow> u64 \<Rightarrow> ('d, 's, user option) hook" where
  "get_next_student_reviewer db groupID ownerID =
     bnd (read_db (get_group (edb db) groupID)) (\<lambda>g (d, s, c).
       let m = initialize (g_ID g) (rc_groups c);
           (r, k) = get_next_reviewer (get_users_except g ownerID) (got Map.empty (m (g_ID g)))
       in (Inr r, (d, s, c\<lparr>rc_groups := m(g_ID g \<mapsto> k)\<rparr>)))"

definition assign_reviewers ::
    "'d task_db \<Rightarrow> 'd course_db \<Rightarrow> 's gh_issues \<Rightarrow> course \<Rightarrow> repository \<Rightarrow> pull_request \<Rightarrow> ('d, 's, pull_request) hook" where
  "assign_reviewers db cdb g course repo pr =
     bnd (get_next_teacher_reviewer cdb course) (\<lambda>teacher.
     bnd (get_next_student_reviewer cdb (r_groupID repo) (pr_userID pr)) (\<lambda>student.
       case (teacher, student) of
         (Some t, Some u) \<Rightarrow>
           bnd (on_github (request_reviewers g \<lparr>rvo_Organization = c_ScmOrganizationName course, rvo_Repository = repo_name repo,
                  rvo_Number = sint (pr_number pr), rvo_Reviewers = [u_Login t, u_Login u]\<rparr>)) (\<lambda>_.
           bnd (write_db (update_pull_request db (set_review pr))) (\<lambda>_. ret (set_review pr)))
       | _ \<Rightarrow> throw (NoReviewers (pr_number pr))))"

section \<open>Queries\<close>

definition the_only :: "string \<Rightarrow> 'a list \<Rightarrow> ('d, 's, 'a) sync" where
  "the_only what xs = (case xs of [x] \<Rightarrow> ret x | _ \<Rightarrow> throw (HookErr what))"

definition get_repository_with_issues :: "'d task_db \<Rightarrow> int \<Rightarrow> ('d, 's, repository) sync" where
  "get_repository_with_issues db repoID =
     bnd (read_db (get_repositories_with_issues db (zero_repository\<lparr>r_ScmRepositoryID := word_of_int repoID\<rparr>))) (the_only ''unknown repository'')"

definition zero_task :: task where
  "zero_task = \<lparr>t_ID = 0, t_assignmentID = 0, t_assignmentOrder = 0, t_title = [], t_body = [], t_name = []\<rparr>"

definition get_task :: "'d task_db \<Rightarrow> u64 \<Rightarrow> ('d, 's, task) sync" where
  "get_task db taskID = bnd (read_db (get_tasks db (zero_task\<lparr>t_ID := taskID\<rparr>))) (the_only ''unknown task'')"

section \<open>The issue that a pull request names\<close>

text \<open>
  The expression matches the only \<open>#\<close> of the body with a keyword and a space before it and digits up to the
  end of a line behind it; \<open>(?i:...)\<close> folds the letters, and the long \<open>s\<close> (bytes C5 BF) folds to \<open>s\<close>.
  \<open>ends_with_fold\<close> works on reversed texts and returns what is before the keyword.
\<close>

fun ends_with_fold :: "string \<Rightarrow> string \<Rightarrow> string option" where
  "ends_with_fold [] t = Some t"
| "ends_with_fold (k # ks) [] = None"
| "ends_with_fold (k # ks) (c # t) =
     (if lower_char c = k then ends_with_fold ks t
      else if k = CHR ''s'' \<and> c = CHR 0xBF \<and> take 1 t = [CHR 0xC5] then ends_with_fold ks (drop 1 t)
      else None)"

definition issue_keywords :: "string list" where
  "issue_keywords = [''fixes'', ''closes'', ''resolves'']"

definition before_keyword :: "string \<Rightarrow> string option" where
  "before_keyword s =
     (if s = [] \<or> last s \<notin> {CHR 0x09, CHR 0x0A, CHR 0x0C, CHR 0x0D, CHR '' ''} then None
      else map_option rev (List.find (\<lambda>_. True) (List.map_filter (\<lambda>k. ends_with_fold (rev k) (tl (rev s))) issue_keywords)))"

text \<open>The body with the match replaced by its number, if there is a match.\<close>

definition replace_issue :: "string \<Rightarrow> string option" where
  "replace_issue body =
     (case cut body ''#'' of
        None \<Rightarrow> None
      | Some (before, after) \<Rightarrow>
          (let ds = takeWhile is_digit after; rest = dropWhile is_digit after
           in if ds = [] \<or> (rest \<noteq> [] \<and> hd rest \<noteq> CHR 0x0A) then None
              else map_option (\<lambda>pre. pre @ ds @ rest) (before_keyword before)))"

text \<open>\<open>strconv.ParseUint(s, 10, 64)\<close> without its error: 0 for bad syntax, the maximum when out of range.\<close>

fun parse_uint_loop :: "nat \<Rightarrow> string \<Rightarrow> nat" where
  "parse_uint_loop n [] = n"
| "parse_uint_loop n (c # s) =
     (if \<not> is_digit c then 0
      else if 2 ^ 64 \<le> 10 * n + digit_val c then 2 ^ 64 - 1
      else parse_uint_loop (10 * n + digit_val c) s)"

definition parse_uint :: "string \<Rightarrow> u64" where
  "parse_uint s = of_nat (parse_uint_loop 0 s)"

definition find_issue :: "string \<Rightarrow> issue list \<Rightarrow> string + issue" where
  "find_issue body issues =
     (if 1 < count_list body (CHR ''#'') then Inl ''more than one # character in pull request body''
      else case replace_issue body of
             None \<Rightarrow> Inl ''no issue found in pull request body''
           | Some t \<Rightarrow>
               (case find (\<lambda>i. i_ScmIssueNumber i = parse_uint t) issues of
                  Some i \<Rightarrow> Inr i
                | None \<Rightarrow> Inl (''unknown issue #'' @ show_word (parse_uint t))))"

section \<open>Events of pull requests\<close>

record push_event =
  pe_Ref :: string
  pe_RepoID :: int
  pe_DefaultBranch :: string
  pe_HeadCommit :: string
  pe_SenderLogin :: string
  pe_SenderType :: string
  pe_Commits :: "(string list \<times> string list \<times> string list) list"

record pr_event =
  pv_RepoID :: int
  pv_OrganizationID :: int
  pv_Number :: int
  pv_PRNumber :: int
  pv_SenderID :: int
  pv_Body :: string
  pv_HeadRef :: string
  pv_Merged :: bool
  pv_ReviewState :: string

definition branch_name :: "string \<Rightarrow> string" where
  "branch_name ref = last (split_on (CHR ''/'') ref)"

definition is_default_branch :: "push_event \<Rightarrow> bool" where
  "is_default_branch payload \<longleftrightarrow> has_suffix (pe_Ref payload) (pe_DefaultBranch payload)"

definition push_query :: "push_event \<Rightarrow> pull_request" where
  "push_query payload = zero_pull_request\<lparr>pr_sourceBranch := branch_name (pe_Ref payload),
     pr_ScmRepositoryID := word_of_int (pe_RepoID payload)\<rparr>"

text \<open>The error of \<open>getPullRequest\<close> is logged and the event dropped.\<close>

definition hook_get_pull_request :: "'d task_db \<Rightarrow> push_event \<Rightarrow> ('d, 's, pull_request) sync" where
  "hook_get_pull_request db payload = read_db (get_pull_request db (push_query payload))"

definition maybe_assign_reviewers ::
    "'d task_db \<Rightarrow> 'd course_db \<Rightarrow> 's gh_issues \<Rightarrow> u32 \<Rightarrow> run_data \<Rightarrow> pull_request \<Rightarrow> ('d, 's, pull_request) hook" where
  "maybe_assign_reviewers db cdb g taskSum rd pr =
     (if a_scoreLimit (rd_Assignment rd) \<le> taskSum \<and> \<not> has_reviewers pr
      then assign_reviewers db cdb g (rd_Course rd) (rd_Repo rd) pr else ret pr)"

text \<open>\<open>impl\<close> is the score of a task whose sum has no defined conversion.\<close>

definition handle_pull_request_push ::
    "'d task_db \<Rightarrow> 'd course_db \<Rightarrow> 's gh_issues \<Rightarrow> u32 \<Rightarrow> push_event \<Rightarrow> results \<Rightarrow> run_data \<Rightarrow> ('d, 's, unit) hook" where
  "handle_pull_request_push db cdb g impl payload results rd =
     bnd (hook_get_pull_request db payload) (\<lambda>pr.
     bnd (get_task db (pr_taskID pr)) (\<lambda>t.
     let taskSum = (case task_sum results (t_name t) of None \<Rightarrow> impl | Some v \<Rightarrow> v)
     in bnd (maybe_assign_reviewers db cdb g taskSum rd pr) (\<lambda>pr.
        let opt = \<lparr>ico_Organization = c_ScmOrganizationName (rd_Course rd), ico_Repository = repo_name (rd_Repo rd),
              ico_Body = markdown_comment results (t_name t) (a_scoreLimit (rd_Assignment rd)),
              ico_Number = sint (pr_number pr), ico_CommentID = 0\<rparr>
        in if \<not> has_feedback_comment pr
           then bnd (on_github (create_issue_comment g opt)) (\<lambda>commentID.
                  write_db (update_pull_request db (pr\<lparr>pr_ScmCommentID := word_of_int commentID\<rparr>)))
           else on_github (update_issue_comment g (opt\<lparr>ico_CommentID := sint (pr_ScmCommentID pr)\<rparr>)))))"

definition handle_pull_request_review :: "'d task_db \<Rightarrow> 'd course_db \<Rightarrow> pr_event \<Rightarrow> ('d, 's, unit) sync" where
  "handle_pull_request_review db cdb payload =
     (if pv_ReviewState payload \<noteq> ''approved'' then ret ()
      else bnd (read_db (get_pull_request db (zero_pull_request\<lparr>pr_ScmRepositoryID := word_of_int (pv_RepoID payload),
             pr_number := word_of_int (pv_PRNumber payload)\<rparr>))) (\<lambda>pr.
           bnd (read_db (get_course_by_organization_id cdb (word_of_int (pv_OrganizationID payload)))) (\<lambda>course.
           bnd (read_db (cq_user_by_remote cdb (word_of_int (pv_SenderID payload)))) (\<lambda>usr.
           bnd (read_db (get_enrollment_by_course_and_user (edb cdb) (c_ID (cm_course course)) (u_ID usr))) (\<lambda>reviewer.
             if is_teacher reviewer then write_db (update_pull_request db (set_approved pr)) else ret ())))))"

definition create_pr_record :: "'d task_db \<Rightarrow> 'd course_db \<Rightarrow> pr_event \<Rightarrow> issue \<Rightarrow> ('d, 's, unit) sync" where
  "create_pr_record db cdb payload i =
     bnd (get_task db (i_taskID i)) (\<lambda>t.
     bnd (read_db (cq_user_by_remote cdb (word_of_int (pv_SenderID payload)))) (\<lambda>usr.
       write_db (create_pull_request db (zero_pull_request\<lparr>pr_ScmRepositoryID := word_of_int (pv_RepoID payload),
         pr_taskID := t_ID t, pr_issueID := i_ID i, pr_userID := u_ID usr, pr_sourceBranch := pv_HeadRef payload,
         pr_number := word_of_int (pv_Number payload)\<rparr>))))"

definition handle_pull_request_opened :: "'d task_db \<Rightarrow> 'd course_db \<Rightarrow> pr_event \<Rightarrow> ('d, 's, unit) sync" where
  "handle_pull_request_opened db cdb payload =
     bnd (get_repository_with_issues db (pv_RepoID payload)) (\<lambda>repo.
       if \<not> is_group_repo repo then ret ()
       else case find_issue (pv_Body payload) (r_issues repo) of
              Inl e \<Rightarrow> throw (HookErr e)
            | Inr i \<Rightarrow> create_pr_record db cdb payload i)"

definition handle_pull_request_closed :: "'d task_db \<Rightarrow> pr_event \<Rightarrow> ('d, 's, unit) sync" where
  "handle_pull_request_closed db payload =
     (if \<not> pv_Merged payload then ret ()
      else bnd (read_db (get_pull_request db (zero_pull_request\<lparr>pr_ScmRepositoryID := word_of_int (pv_RepoID payload),
             pr_number := word_of_int (pv_PRNumber payload)\<rparr>))) (\<lambda>pr. write_db (handle_merging_pr db pr)))"

section \<open>Reviews are shared out evenly\<close>

definition load :: "counter \<Rightarrow> user \<Rightarrow> int" where
  "load m u = got 0 (m (u_ID u))"

definition counts_ok :: "counter \<Rightarrow> bool" where
  "counts_ok m \<longleftrightarrow> (\<forall>i c. m i = Some c \<longrightarrow> 0 \<le> c)"

lemma got_simps [simp]: "got z None = z" "got z (Some x) = x"
  by (simp_all add: got_def)

lemma next_loop_least:
  assumes "counts_ok m"
  shows "(first \<Longrightarrow> us \<noteq> []) \<Longrightarrow> (\<not> first \<Longrightarrow> \<exists>l. lowest = Some l \<and> m (u_ID l) = Some low) \<Longrightarrow>
    \<exists>u. next_loop us first lowest low m = (Some u, incremented (u_ID u) m) \<and> (u \<in> set us \<or> \<not> first \<and> lowest = Some u) \<and>
      (\<forall>v\<in>set us. load m u \<le> load m v) \<and> (first \<or> load m u \<le> low)"
proof (induction us arbitrary: first lowest low)
  case Nil
  then obtain l where "\<not> first" "lowest = Some l" "m (u_ID l) = Some low" by auto
  then show ?case by (simp add: load_def)
next
  case (Cons u us)
  show ?case
  proof (cases "m (u_ID u)")
    case None
    have "0 \<le> load m v" for v using assms by (cases "m (u_ID v)") (auto simp: load_def counts_ok_def)
    moreover have "first \<or> 0 \<le> low" using Cons.prems(2) assms by (auto simp: counts_ok_def)
    ultimately show ?thesis using None by (auto simp: load_def incremented_def)
  next
    case (Some c)
    then have c: "load m u = c" by (simp add: load_def)
    show ?thesis
    proof (cases "c < low \<or> first")
      case True
      have "\<exists>l. Some u = Some l \<and> m (u_ID l) = Some c" using Some by simp
      from Cons.IH [of False "Some u" c] this obtain v where v: "next_loop us False (Some u) c m = (Some v, incremented (u_ID v) m)"
        "v \<in> set us \<or> Some u = Some v" "\<forall>w\<in>set us. load m v \<le> load m w" "load m v \<le> c" by auto
      have "first \<or> load m v \<le> low" using True v(4) by auto
      with True Some v c show ?thesis by (intro exI [of _ v]) auto
    next
      case False
      with Cons.prems(2) obtain l where "lowest = Some l" "m (u_ID l) = Some low" by auto
      with Cons.IH [of False lowest low] obtain v where v: "next_loop us False lowest low m = (Some v, incremented (u_ID v) m)"
        "v \<in> set us \<or> lowest = Some v" "\<forall>w\<in>set us. load m v \<le> load m w" "load m v \<le> low" by auto
      with False Some c show ?thesis by (intro exI [of _ v]) auto
    qed
  qed
qed

lemma next_reviewer_least:
  assumes "counts_ok m" and "us \<noteq> []"
  shows "\<exists>u\<in>set us. get_next_reviewer us m = (Some u, incremented (u_ID u) m) \<and> (\<forall>v\<in>set us. load m u \<le> load m v)"
  using next_loop_least [OF assms(1), of True us None 0] assms(2) unfolding get_next_reviewer_def by auto

definition after_reviews :: "nat \<Rightarrow> user list \<Rightarrow> counter" where
  "after_reviews n us = ((\<lambda>m. snd (get_next_reviewer us m)) ^^ n) Map.empty"

lemma counts_ok_incremented: "counts_ok m \<Longrightarrow> counts_ok (incremented i m)"
  by (cases "m i") (auto simp: counts_ok_def incremented_def)

lemma load_incremented: "load (incremented i m) u = load m u + (if u_ID u = i then 1 else 0)"
  by (auto simp: load_def incremented_def)

lemma sum_incremented:
  assumes "distinct (map u_ID us)" and "u \<in> set us"
  shows "(\<Sum>v\<leftarrow>us. load (incremented (u_ID u) m) v) = (\<Sum>v\<leftarrow>us. load m v) + 1"
proof -
  have "(\<Sum>v\<leftarrow>us. if u_ID v = u_ID u then 1 else 0 :: int) = 1"
    using assms
  proof (induction us)
    case (Cons x us)
    have none: "(\<Sum>v\<leftarrow>us. if u_ID v = i then 1 else 0 :: int) = 0" if "i \<notin> u_ID ` set us" for i
      using that by (induction us) auto
    show ?case
    proof (cases "u = x")
      case True
      with Cons.prems none [of "u_ID x"] show ?thesis by simp
    next
      case False
      then have "u \<in> set us" "u_ID x \<noteq> u_ID u" using Cons.prems by (auto simp: notin_image)
      with Cons show ?thesis by simp
    qed
  qed simp
  then show ?thesis by (simp add: load_incremented sum_list_addf)
qed

text \<open>C33: However many reviews have been asked for of the same reviewers, the numbers any two of them got differ
  by at most one, and no request is lost: the numbers add up.\<close>

theorem reviews_balanced:
  assumes "us \<noteq> []" and "distinct (map u_ID us)"
  shows "(\<forall>u\<in>set us. \<forall>v\<in>set us. load (after_reviews n us) u \<le> load (after_reviews n us) v + 1) \<and>
    (\<Sum>u\<leftarrow>us. load (after_reviews n us) u) = int n"
proof -
  have "counts_ok (after_reviews n us) \<and> (\<forall>u\<in>set us. \<forall>v\<in>set us. load (after_reviews n us) u \<le> load (after_reviews n us) v + 1) \<and>
    (\<Sum>u\<leftarrow>us. load (after_reviews n us) u) = int n"
  proof (induction n)
    case 0
    have "(\<Sum>u\<leftarrow>us. load Map.empty u) = 0" by (induction us) (simp_all add: load_def)
    then show ?case by (simp add: after_reviews_def counts_ok_def load_def)
  next
    case (Suc n)
    let ?m = "after_reviews n us"
    from next_reviewer_least [of ?m us] Suc assms(1) obtain u where
      u: "u \<in> set us" "get_next_reviewer us ?m = (Some u, incremented (u_ID u) ?m)" "\<forall>v\<in>set us. load ?m u \<le> load ?m v" by auto
    have next': "after_reviews (Suc n) us = incremented (u_ID u) ?m" using u(2) by (simp add: after_reviews_def)
    have "load (incremented (u_ID u) ?m) x \<le> load (incremented (u_ID u) ?m) y + 1" if "x \<in> set us" "y \<in> set us" for x y
    proof (cases "u_ID x = u_ID u")
      case True
      then have "load ?m x = load ?m u" by (simp add: load_def)
      with u(3) that(2) show ?thesis by (auto simp: load_incremented)
    next
      case False
      moreover have "load ?m x \<le> load ?m y + 1" using Suc that by blast
      ultimately show ?thesis by (simp add: load_incremented)
    qed
    with Suc counts_ok_incremented [of ?m] sum_incremented [OF assms(2) u(1), of ?m] show ?case by (simp add: next')
  qed
  then show ?thesis by blast
qed

lemma reviews_balanced_witness:
  "load (after_reviews 3 [zero_user\<lparr>u_ID := 1\<rparr>, zero_user\<lparr>u_ID := 2\<rparr>]) (zero_user\<lparr>u_ID := 1\<rparr>) = 2 \<and>
   load (after_reviews 3 [zero_user\<lparr>u_ID := 1\<rparr>, zero_user\<lparr>u_ID := 2\<rparr>]) (zero_user\<lparr>u_ID := 2\<rparr>) = 1"
proof -
  let ?us = "[zero_user\<lparr>u_ID := 1\<rparr>, zero_user\<lparr>u_ID := 2\<rparr>]"
  have "load (after_reviews 3 ?us) (zero_user\<lparr>u_ID := 1\<rparr>) = 2" by code_simp
  with reviews_balanced [of ?us 3] show ?thesis by simp
qed

section \<open>Who approves\<close>

text \<open>C34: A review event changes the database only when GitHub says that the pull request is approved and the
  one who reviewed it is enrolled as a teacher in the course of the event; then the stored pull request is the
  one the event names, with the stage APPROVED.\<close>

theorem approval_needs_teacher:
  assumes "handle_pull_request_review db cdb payload (d, s) = (r, (d', s'))" and "d' \<noteq> d"
  shows "pv_ReviewState payload = ''approved'' \<and> (\<exists>pr course usr e.
    get_pull_request db (zero_pull_request\<lparr>pr_ScmRepositoryID := word_of_int (pv_RepoID payload),
      pr_number := word_of_int (pv_PRNumber payload)\<rparr>) d = Inr pr \<and>
    get_course_by_organization_id cdb (word_of_int (pv_OrganizationID payload)) d = Inr course \<and>
    cq_user_by_remote cdb (word_of_int (pv_SenderID payload)) d = Inr usr \<and>
    get_enrollment_by_course_and_user (edb cdb) (c_ID (cm_course course)) (u_ID usr) d = Inr e \<and>
    e_status e = Enrollment_TEACHER \<and> update_pull_request db (pr\<lparr>pr_stage := PR_APPROVED\<rparr>) d = Inr d')"
  using assms
  by (auto simp: handle_pull_request_review_def bnd_read_db ret_def write_db_def on_db_def is_teacher_def set_approved_def
      bind_res_Inr_iff split: if_splits sum.splits)

definition no_enr_fields where
  "no_enr_fields st = enr_db.fields (\<lambda>c u d. Inr (zero_enrollment\<lparr>e_courseID := c, e_userID := u, e_status := st\<rparr>, zero_course, zero_user))
     (\<lambda>g d. Inr []) (\<lambda>g us d. Inr zero_group) (\<lambda>x d. Inr d)"

definition no_group_fields where
  "no_group_fields = group_db.fields (\<lambda>c d. Inr 0) (\<lambda>g d. Inl []) (\<lambda>c us sts g d. Inr (0, d)) (\<lambda>g d. Inr d) (\<lambda>g st d. Inr d)
     (\<lambda>g us d. Inr d) (\<lambda>g d. Inr d) (\<lambda>g d. Inr []) (\<lambda>i d. Inr d) (\<lambda>x d. Inr d) (\<lambda>g d. Inr d) (\<lambda>c sts d. Inr [])"

text \<open>A database in which everyone has the given role in every course.\<close>

definition roles_cdb :: "user_status \<Rightarrow> 'd course_db" where
  "roles_cdb st = group_db.extend (enr_db.extend (sub_db.extend no_sub_db (no_enr_fields st)) no_group_fields)
     (course_db.fields (\<lambda>u d. Inr (zero_user\<lparr>u_ID := u\<rparr>)) (\<lambda>us d. Inr []) (\<lambda>l sts d. Inl RecordNotFound) (\<lambda>u d. Inr (zero_user\<lparr>u_ID := u\<rparr>))
       (\<lambda>u d. Inr (u, d)) (\<lambda>u d. Inr d) (\<lambda>q p d. Inr (CourseMsg (zero_course\<lparr>c_ID := 1\<rparr>) [] []))
       (\<lambda>cs d. Inr []) (\<lambda>o' c y d. Inr 0) (\<lambda>c d. Inr (c, d)) (\<lambda>c d. Inr d) (\<lambda>e d. Inr (e, d)) (\<lambda>e d. Inr d)
       (\<lambda>c u e d. Inr d) (\<lambda>f sts d. Inr []) (\<lambda>d. Inr d) (\<lambda>g d. Inr ()) (\<lambda>r d. Inr (r, d)))"

text \<open>The pull requests as the state of the database.\<close>

definition pr_tdb :: "pull_request list task_db" where
  "pr_tdb = assignment_db.extend (sub_db.extend no_sub_db no_assignment_fields)
     (task_db.fields (\<lambda>q d. Inr []) (\<lambda>i d. Inr []) (\<lambda>i d. Inr d) (\<lambda>t d. Inr d) (\<lambda>t d. Inr d) (\<lambda>t d. Inr (t, d)) (\<lambda>is d. Inr d)
       (\<lambda>q d. Inr []) (\<lambda>p d. Inr (d @ [p]))
       (\<lambda>q d. case find (\<lambda>p. pr_ScmRepositoryID p = pr_ScmRepositoryID q \<and> pr_number p = pr_number q) (rev d) of
                None \<Rightarrow> Inl RecordNotFound | Some p \<Rightarrow> Inr p)
       (\<lambda>p d. Inr (filter (\<lambda>x. pr_ID x \<noteq> pr_ID p) d)) (\<lambda>p d. Inr (map (\<lambda>x. if pr_ID x = pr_ID p then p else x) d)))"

definition sample_prs :: "pull_request list" where
  "sample_prs = [zero_pull_request\<lparr>pr_ID := 1, pr_ScmRepositoryID := 5, pr_number := 3, pr_stage := PR_REVIEW\<rparr>]"

definition sample_review :: pr_event where
  "sample_review = \<lparr>pv_RepoID = 5, pv_OrganizationID = 1, pv_Number = 3, pv_PRNumber = 3, pv_SenderID = 9, pv_Body = [],
     pv_HeadRef = [], pv_Merged = False, pv_ReviewState = ''approved''\<rparr>"

lemma approval_needs_teacher_witness:
  "\<exists>d' s'. handle_pull_request_review pr_tdb (roles_cdb Enrollment_TEACHER) sample_review (sample_prs, ()) = (Inr (), (d', s')) \<and>
     map pr_stage d' = [PR_APPROVED] \<and> (\<exists>e :: enrollment. e_status e = Enrollment_TEACHER)"
proof -
  let ?h = "handle_pull_request_review pr_tdb (roles_cdb Enrollment_TEACHER) sample_review (sample_prs, ())"
  have f: "fst ?h = Inr ()" by code_simp
  have m: "map pr_stage (fst (snd ?h)) = [PR_APPROVED]" by code_simp
  obtain d' s' where h: "?h = (Inr (), (d', s'))" using f by (cases ?h) auto
  have "d' \<noteq> sample_prs" using m h by (auto simp: sample_prs_def)
  with approval_needs_teacher [OF h] m h show ?thesis by auto
qed

section \<open>Which bodies name an issue\<close>

lemma parse_digits:
  "list_all is_digit ds \<Longrightarrow> foldl (\<lambda>n c. 10 * n + digit_val c) k ds < 2 ^ 64 \<Longrightarrow>
    parse_uint_loop k ds = foldl (\<lambda>n c. 10 * n + digit_val c) k ds"
proof (induction ds arbitrary: k)
  case (Cons c ds)
  have "k \<le> foldl (\<lambda>n c. 10 * n + digit_val c) k xs" for k and xs :: string
  proof (induction xs arbitrary: k)
    case (Cons x xs)
    have "k \<le> 10 * k + digit_val x" by simp
    also have "\<dots> \<le> foldl (\<lambda>n c. 10 * n + digit_val c) (10 * k + digit_val x) xs" by (rule Cons.IH)
    finally show ?case by simp
  qed simp
  from this [of "10 * k + digit_val c" ds] Cons show ?case by simp
qed simp

lemma show_nat_is_digits: "list_all is_digit (show_nat n)"
proof (induction n rule: less_induct)
  case (less n)
  show ?case by (subst show_nat.simps) (use less in auto)
qed

lemma show_nat_val: "foldl (\<lambda>n c. 10 * n + digit_val c) 0 (show_nat n) = n"
proof (induction n rule: less_induct)
  case (less n)
  show ?case by (subst show_nat.simps) (use less in auto)
qed

lemma takeWhile_digits: "list_all is_digit ds \<Longrightarrow> takeWhile is_digit ds = ds \<and> dropWhile is_digit ds = []"
  by (simp add: list_all_iff dropWhile_eq_Nil_conv takeWhile_eq_all_conv)

lemma cut_hash:
  assumes "CHR ''#'' \<notin> set a"
  shows "cut (a @ CHR ''#'' # b) ''#'' = Some (a, b)"
proof -
  have "index_of (a @ CHR ''#'' # b) ''#'' = Some (length a)"
    using assms by (induction a) (auto simp: has_prefix_def)
  then show ?thesis by (simp add: cut_def)
qed

lemma lower_F: "lower_char CHR ''F'' = CHR ''f''" "lower_char CHR ''i'' = CHR ''i''" "lower_char CHR ''x'' = CHR ''x''"
    "lower_char CHR ''e'' = CHR ''e''" "lower_char CHR ''s'' = CHR ''s''"
  by code_simp+

lemma before_fixes: "before_keyword (pre @ ''Fixes '') = Some pre"
proof -
  have "ends_with_fold (rev ''fixes'') (rev (pre @ ''Fixes'')) = Some (rev pre)"
    by (simp add: lower_F)
  moreover have "ends_with_fold (rev ''closes'') (rev (pre @ ''Fixes'')) = None"
    "ends_with_fold (rev ''resolves'') (rev (pre @ ''Fixes'')) = None"
    by (simp_all add: lower_F)
  ultimately show ?thesis
    by (simp add: before_keyword_def issue_keywords_def List.map_filter_simps)
qed

lemma replace_issue_fixes:
  assumes "CHR ''#'' \<notin> set pre"
  shows "replace_issue (pre @ ''Fixes #'' @ show_nat n) = Some (pre @ show_nat n)"
proof -
  have "cut ((pre @ ''Fixes '') @ CHR ''#'' # show_nat n) ''#'' = Some (pre @ ''Fixes '', show_nat n)"
    by (rule cut_hash) (use assms in simp)
  moreover have "takeWhile is_digit (show_nat n) = show_nat n" "dropWhile is_digit (show_nat n) = []"
    using takeWhile_digits [OF show_nat_is_digits [of n]] by blast+
  moreover have "pre @ ''Fixes #'' @ show_nat n = (pre @ ''Fixes '') @ CHR ''#'' # show_nat n" by simp
  ultimately show ?thesis
    unfolding replace_issue_def by (simp only: option.case prod.case Let_def before_fixes) simp
qed

text \<open>A body that is exactly \<open>Fixes #n\<close> names the issue with number \<open>n\<close>, of the issues of the repository
  the first; but when text stands before the keyword, and does not begin with a digit, no issue is found:
  the text stays around the number, which is then read as 0.\<close>

lemma find_issue_bare_body:
  assumes "n < 2 ^ 64" and "pre \<noteq> []" and "\<not> is_digit (hd pre)" and "CHR ''#'' \<notin> set pre"
    and "\<forall>i\<in>set issues. i_ScmIssueNumber i \<noteq> 0"
  shows "find_issue (''Fixes #'' @ show_nat n) issues =
      (case find (\<lambda>i. i_ScmIssueNumber i = of_nat n) issues of Some i \<Rightarrow> Inr i | None \<Rightarrow> Inl (''unknown issue #'' @ show_nat n)) \<and>
    find_issue (pre @ ''Fixes #'' @ show_nat n) issues = Inl ''unknown issue #0''"
proof -
  have hashes: "count_list (p @ ''Fixes #'' @ show_nat n) (CHR ''#'') = 1" if "CHR ''#'' \<notin> set p" for p
  proof -
    have "CHR ''#'' \<notin> set (show_nat n)" using show_nat_is_digits [of n] by (auto simp: list_all_iff is_digit_def)
    then show ?thesis using that by (simp add: count_notin)
  qed
  have "parse_uint (show_nat n) = of_nat n"
    using parse_digits [OF show_nat_is_digits [of n], of 0] assms(1) by (simp add: parse_uint_def show_nat_val)
  moreover have "show_word (of_nat n :: u64) = show_nat n" using assms(1) by (simp add: show_word_def unat_of_nat take_bit_nat_eq_self)
  moreover have "replace_issue (''Fixes #'' @ show_nat n) = Some (show_nat n)" using replace_issue_fixes [of "[]" n] by simp
  ultimately have one: "find_issue (''Fixes #'' @ show_nat n) issues =
      (case find (\<lambda>i. i_ScmIssueNumber i = of_nat n) issues of Some i \<Rightarrow> Inr i | None \<Rightarrow> Inl (''unknown issue #'' @ show_nat n))"
    using hashes [of "[]"] by (simp add: find_issue_def split: option.split)
  have "parse_uint (pre @ show_nat n) = 0"
    using assms(2,3) by (cases pre) (simp_all add: parse_uint_def)
  moreover have "find (\<lambda>i. i_ScmIssueNumber i = 0) issues = None" using assms(5) by (simp add: find_None_iff)
  moreover have "show_word (0 :: u64) = ''0''" by code_simp
  ultimately have "find_issue (pre @ ''Fixes #'' @ show_nat n) issues = Inl ''unknown issue #0''"
    using hashes [OF assms(4)] replace_issue_fixes [OF assms(4), of n] by (simp add: find_issue_def)
  with one show ?thesis ..
qed

lemma find_issue_bare_body_witness:
  "find_issue (''This '' @ ''Fixes #'' @ show_nat 30) [\<lparr>i_ID = 1, i_repositoryID = 2, i_taskID = 3, i_ScmIssueNumber = 30\<rparr>] = Inl ''unknown issue #0''"
  by (rule find_issue_bare_body [THEN conjunct2]) (simp_all add: is_digit_def)

end
