(* ===== verification/Hooks.thy ===== *)
theory Hooks
  imports Pull_Requests
begin

text \<open>
  The events that GitHub sends: \<open>web/hooks/github.go\<close>, \<open>push.go\<close>, \<open>sync.go\<close>, \<open>extract_changes.go\<close>,
  \<open>duplicate_map.go\<close>, \<open>installation.go\<close> and \<open>courses_new.go\<close>.  The handlers log what goes wrong and return, so
  an error here is what they log; a panic ends the process.
\<close>

section \<open>What the handlers use\<close>

text \<open>
  \<open>te_*\<close> are the arguments of \<open>run_tests\<close>, of which some depend on the state; \<open>te_after\<close> is the state after a
  run.  \<open>hk_range\<close> is the order in which a map of names is visited, \<open>hk_send\<close> the streams and \<open>hk_tm_add\<close>
  the token manager.
\<close>

record 's test_env =
  te_order :: "string list \<Rightarrow> string list"
  te_clone :: cloner
  te_run :: "'s \<Rightarrow> runner"
  te_unmarshal :: "string \<Rightarrow> string + score"
  te_frames :: "frame list"
  te_repositories :: string
  te_mkdir :: "'s \<Rightarrow> string + string"
  te_secret :: "'s \<Rightarrow> string"
  te_t1 :: "'s \<Rightarrow> time"
  te_t2 :: "'s \<Rightarrow> time"
  te_exec :: "'s \<Rightarrow> duration"
  te_files :: "'s \<Rightarrow> files"
  te_after :: "run_data \<Rightarrow> 's \<Rightarrow> 's"

record ('d, 's) hooks =
  hk_tasks :: "'d task_db"
  hk_courses :: "'d course_db"
  hk_repositories :: "repository \<Rightarrow> 'd \<Rightarrow> db_error + repository list"
  hk_github :: "'s github"
  hk_issues :: "'s gh_issues"
  hk_env :: "'s course_env"
  hk_get_scm :: "string \<Rightarrow> ('s, unit) scm"
  hk_tests :: "'s test_env"
  hk_impl :: u32
  hk_range :: "string list \<Rightarrow> string list"
  hk_send :: "submission option \<Rightarrow> u64 list \<Rightarrow> 's \<Rightarrow> 's"
  hk_tm_add :: "u64 \<Rightarrow> 's \<Rightarrow> string option \<times> 's"

text \<open>A step whose error is logged before the handler goes on; a panic is not caught.\<close>

definition logged :: "('d, 's, 'a) hook \<Rightarrow> ('d, 's, unit) hook" where
  "logged m w = (case m w of (Inl (Panicked p), w) \<Rightarrow> (Inl (Panicked p), w) | (_, w) \<Rightarrow> (Inr (), w))"

definition hook_get_repository :: "('d, 's) hooks \<Rightarrow> int \<Rightarrow> ('d, 's, repository) hook" where
  "hook_get_repository hk repoID =
     bnd (read_db (hk_repositories hk (zero_repository\<lparr>r_ScmRepositoryID := word_of_int repoID\<rparr>))) (the_only ''unknown repository'')"

section \<open>Pushes\<close>

definition ignore_push :: "('d, 's) hooks \<Rightarrow> push_event \<Rightarrow> repository \<Rightarrow> 'd \<Rightarrow> bool" where
  "ignore_push hk payload repo d =
     (let hasPR = (case get_pull_request (hk_tasks hk) (push_query payload) d of Inl e \<Rightarrow> False | Inr pr \<Rightarrow> True)
      in \<not> (is_default_branch payload \<or> (is_group_repo repo \<and> hasPR)))"

text \<open>The keys of the map of modified assignments, in the order in which they were added.\<close>

fun extract_changes :: "string list \<Rightarrow> string list \<Rightarrow> string list" where
  "extract_changes [] m = m"
| "extract_changes (changedFile # changes) m =
     (case cut changedFile ''/'' of
        None \<Rightarrow> extract_changes changes m
      | Some (name, _) \<Rightarrow> if name = [] then extract_changes changes m
                          else extract_changes changes (if name \<in> set m then m else m @ [name]))"

definition modified_assignments :: "push_event \<Rightarrow> string list" where
  "modified_assignments payload =
     fold (\<lambda>(modified, added, removed) m. extract_changes removed (extract_changes added (extract_changes modified m)))
       (pe_Commits payload) []"

fun get_named :: "'d task_db \<Rightarrow> u64 \<Rightarrow> string list \<Rightarrow> 'd \<Rightarrow> assignment list" where
  "get_named db courseID [] d = []"
| "get_named db courseID (n # ns) d =
     (case get_assignment (tadb db) (zero_assignment\<lparr>a_name := n, a_CourseID := courseID\<rparr>) d of
        Inl e \<Rightarrow> get_named db courseID ns d
      | Inr a \<Rightarrow> a # get_named db courseID ns d)"

definition extract_assignments :: "('d, 's) hooks \<Rightarrow> push_event \<Rightarrow> course \<Rightarrow> 'd \<Rightarrow> assignment list" where
  "extract_assignments hk payload course d =
     get_named (hk_tasks hk) (c_ID course) (hk_range hk (modified_assignments payload)) d"

definition call_run_tests :: "('d, 's) hooks \<Rightarrow> run_data \<Rightarrow> ('d, 's, results) hook" where
  "call_run_tests hk r = (\<lambda>(d, s, c).
     let e = hk_tests hk;
         res = run_tests (te_order e) (te_clone e) (te_run e s) (te_unmarshal e) (te_frames e) (te_repositories e)
           (te_mkdir e s) (te_secret e s) (te_t1 e s) (te_t2 e s) (te_exec e s) r (te_files e s)
     in (case res of Panic p \<Rightarrow> Inl (Panicked p) | Err x \<Rightarrow> Inl (BuildFailed x) | Ok (results, _) \<Rightarrow> Inr results,
         (d, te_after e r s, c)))"

definition record_on_db :: "('d, 's) hooks \<Rightarrow> run_data \<Rightarrow> results option \<Rightarrow> ('d, 's, submission option) hook" where
  "record_on_db hk r results = (\<lambda>(d, s, c).
     case record_results (edb (hk_courses hk)) (hk_impl hk) (te_t1 (hk_tests hk) s) (te_t2 (hk_tests hk) s) r results d of
       (Inl e, d) \<Rightarrow> (Inl (DbErr e), (d, s, c)) | (Inr x, d) \<Rightarrow> (Inr x, (d, s, c)))"

definition send_submission :: "('d, 's) hooks \<Rightarrow> run_data \<Rightarrow> submission option \<Rightarrow> ('d, 's, unit) hook" where
  "send_submission hk r submission = (\<lambda>(d, s, c).
     case get_owners (edb (hk_courses hk)) r d of
       Inl e \<Rightarrow> (Inr (), (d, s, c)) | Inr ids \<Rightarrow> (Inr (), (d, hk_send hk submission ids s, c)))"

definition push_run_data :: "assignment \<Rightarrow> repository \<Rightarrow> course \<Rightarrow> push_event \<Rightarrow> run_data" where
  "push_run_data a repo course payload = \<lparr>rd_Course = course, rd_Assignment = a, rd_Repo = repo, rd_EnvVarsFn = None,
     rd_BranchName = branch_name (pe_Ref payload), rd_CommitID = pe_HeadCommit payload,
     rd_JobOwner = pe_SenderLogin payload, rd_Rebuild = False\<rparr>"

definition run_assignment_tests :: "('d, 's) hooks \<Rightarrow> assignment \<Rightarrow> repository \<Rightarrow> course \<Rightarrow> push_event \<Rightarrow> ('d, 's, unit) hook" where
  "run_assignment_tests hk a repo course payload =
     (let r = push_run_data a repo course payload
      in if graded_manually a then bnd (record_on_db hk r None) (\<lambda>_. ret ())
         else bnd (call_run_tests hk r) (\<lambda>results.
              bnd (record_on_db hk r (Some results)) (\<lambda>submission.
              bnd (send_submission hk r submission) (\<lambda>_.
                if \<not> is_default_branch payload \<and> is_group_repo repo
                then handle_pull_request_push (hk_tasks hk) (hk_courses hk) (hk_issues hk) (hk_impl hk) payload results r
                else ret ()))))"

definition update_last_activity_date :: "('d, 's) hooks \<Rightarrow> time \<Rightarrow> course \<Rightarrow> repository \<Rightarrow> string \<Rightarrow> ('d, 's, unit) hook" where
  "update_last_activity_date hk now course repo login =
     bnd (if r_userID repo < 1 \<and> is_group_repo repo
          then bnd (read_db (get_user_by_course (hk_courses hk) course login)) (\<lambda>usr. ret (u_ID usr))
          else ret (r_userID repo)) (\<lambda>userID.
     bnd (read_db (get_enrollment_by_course_and_user (edb (hk_courses hk)) (c_ID course) userID)) (\<lambda>enrol.
       write_db (db_update_enrollment (hk_courses hk) (enrol\<lparr>e_lastActivityDate := Some now\<rparr>))))"

definition maxSyncRetries :: int where "maxSyncRetries = 3"

definition sync_student_repos :: "('d, 's) hooks \<Rightarrow> course \<Rightarrow> string \<Rightarrow> ('d, 's, unit) hook" where
  "sync_student_repos hk course branch =
     bnd (read_db (hk_repositories hk (zero_repository\<lparr>r_ScmOrganizationID := c_ScmOrganizationID course\<rparr>))) (\<lambda>repos.
       for_each (\<lambda>repo. logged (on_github (sync_fork (hk_github hk)
           \<lparr>so_Organization = c_ScmOrganizationName course, so_Repository = repo_name repo,
            so_Branch = branch, so_MaxRetries = maxSyncRetries\<rparr>)))
         (filter is_student_repo repos))"

definition update_course_assignments :: "('d, 's) hooks \<Rightarrow> course \<Rightarrow> ('d, 's, unit) hook" where
  "update_course_assignments hk course = (\<lambda>(d, s, c).
     case update_from_tests_repo (hk_env hk) (hk_tasks hk) (cq_update_course (hk_courses hk)) (hk_issues hk) course (rc_dockerfiles c) (d, s) of
       (stop, cache, d, s) \<Rightarrow> (case stop of ParsePanic m \<Rightarrow> Inl (Panicked m) | _ \<Rightarrow> Inr (), (d, s, c\<lparr>rc_dockerfiles := cache\<rparr>)))"

definition push_to_assignments :: "('d, 's) hooks \<Rightarrow> course \<Rightarrow> push_event \<Rightarrow> ('d, 's, unit) hook" where
  "push_to_assignments hk course payload =
     bnd (on_github (ce_clone (hk_env hk) (c_ScmOrganizationName course) AssignmentsRepo
            (course_clone_dir (ce_repositories (hk_env hk)) course))) (\<lambda>_.
       if is_default_branch payload then sync_student_repos hk course (pe_DefaultBranch payload) else ret ())"

definition push_to_student :: "('d, 's) hooks \<Rightarrow> course \<Rightarrow> repository \<Rightarrow> push_event \<Rightarrow> ('d, 's, unit) hook" where
  "push_to_student hk course repo payload =
     (if pe_SenderType payload = ''Bot'' then ret ()
      else (\<lambda>(d, s, c). for_each (\<lambda>a. logged (run_assignment_tests hk a repo course payload))
             (extract_assignments hk payload course d) (d, s, c)))"

definition handle_push :: "('d, 's) hooks \<Rightarrow> time \<Rightarrow> push_event \<Rightarrow> ('d, 's, unit) hook" where
  "handle_push hk now payload =
     bnd (hook_get_repository hk (pe_RepoID payload)) (\<lambda>repo (d, s, c).
       if ignore_push hk payload repo d then (Inr (), (d, s, c))
       else bnd (read_db (get_course_by_organization_id (hk_courses hk) (r_ScmOrganizationID repo))) (\<lambda>cm.
            let course = cm_course cm in
            bnd (if is_student_repo repo then logged (update_last_activity_date hk now course repo (pe_SenderLogin payload)) else ret ()) (\<lambda>_.
            bnd (on_github (hk_get_scm hk (c_ScmOrganizationName course))) (\<lambda>_.
              if is_tests_repo repo then update_course_assignments hk course
              else if is_assignments_repo repo then push_to_assignments hk course payload
              else if is_student_repo repo then push_to_student hk course repo payload
              else ret ()))) (d, s, c))"

section \<open>New courses\<close>

record installation_event =
  in_SenderID :: int
  in_Login :: string
  in_AccountID :: int

text \<open>The months are numbered from 1.\<close>

definition default_year :: "int \<Rightarrow> nat \<Rightarrow> u32" where
  "default_year year month = (if 10 < month then word_of_int (year + 1) else word_of_int year)"

definition default_tag :: "nat \<Rightarrow> string" where
  "default_tag month = (if 10 < month \<or> month < 4 then ''Spring'' else ''Fall'')"

definition new_course_repo :: "course \<Rightarrow> user \<Rightarrow> gh_repository \<Rightarrow> repository" where
  "new_course_repo course creator repo =
     (let r = zero_repository\<lparr>r_ScmOrganizationID := c_ScmOrganizationID course, r_ScmRepositoryID := rp_ID repo,
                r_HTMLURL := rp_HTMLURL repo, r_repoType := repo_type_of (rp_Repo repo)\<rparr>
      in if is_user_repo r then r\<lparr>r_userID := u_ID creator\<rparr> else r)"

definition hook_create_course :: "('d, 's) hooks \<Rightarrow> (string \<times> bool) list \<Rightarrow> course \<Rightarrow> user \<Rightarrow> ('d, 's, course) hook" where
  "hook_create_course hk paths course creator =
     bnd (on_github (scm_create_course (hk_github hk) paths
            \<lparr>co_OrganizationID = c_ScmOrganizationID course, co_CourseCreator = u_Login creator\<rparr>)) (\<lambda>repos.
     bnd (for_each (\<lambda>repo. bnd (on_db (create_repository (hk_courses hk) (new_course_repo course creator repo))) (\<lambda>_. ret ())) repos) (\<lambda>_.
       on_db (create_course (hk_courses hk) (c_courseCreatorID course) course)))"

definition handle_installation_created ::
    "('d, 's) hooks \<Rightarrow> (string \<times> bool) list \<Rightarrow> int \<Rightarrow> nat \<Rightarrow> installation_event \<Rightarrow> ('d, 's, unit) hook" where
  "handle_installation_created hk paths year month event =
     bnd (read_db (cq_user_by_remote (hk_courses hk) (word_of_int (in_SenderID event)))) (\<lambda>creator.
       if \<not> u_IsAdmin creator then throw (HookErr ''User is not an admin'')
       else let course = zero_course\<lparr>c_ScmOrganizationID := word_of_int (in_AccountID event), c_ScmOrganizationName := in_Login event,
                  c_name := in_Login event, c_code := in_Login event, c_tag := default_tag month,
                  c_courseCreatorID := u_ID creator, c_year := default_year year month\<rparr>
            in bnd (on_github (hk_get_scm hk (in_Login event))) (\<lambda>_.
               bnd (hook_create_course hk paths course creator) (\<lambda>_ (d, s, c).
                 case hk_tm_add hk (u_ID creator) s of
                   (None, s) \<Rightarrow> (Inr (), (d, s, c)) | (Some e, s) \<Rightarrow> (Inl (HookErr e), (d, s, c)))))"

section \<open>Dispatch\<close>

datatype hook_event =
    PushEvent push_event
  | PullRequestEvent string pr_event
  | ReviewEvent pr_event
  | InstallationEvent string installation_event
  | OtherEvent

text \<open>The events but pushes, which goroutines of their own handle.\<close>

definition handle_event :: "('d, 's) hooks \<Rightarrow> (string \<times> bool) list \<Rightarrow> int \<Rightarrow> nat \<Rightarrow> hook_event \<Rightarrow> ('d, 's, unit) hook" where
  "handle_event hk paths year month e =
     (case e of
        PullRequestEvent action p \<Rightarrow>
          if action = ''opened'' then handle_pull_request_opened (hk_tasks hk) (hk_courses hk) p
          else if action = ''closed'' then handle_pull_request_closed (hk_tasks hk) p else ret ()
      | ReviewEvent p \<Rightarrow> handle_pull_request_review (hk_tasks hk) (hk_courses hk) p
      | InstallationEvent action i \<Rightarrow> if action = ''created'' then handle_installation_created hk paths year month i else ret ()
      | _ \<Rightarrow> ret ())"

section \<open>The assignments that a push changes\<close>

lemma cut_slash: "cut s ''/'' = Some (a, b) \<longleftrightarrow> s = a @ CHR ''/'' # b \<and> CHR ''/'' \<notin> set a"
proof (induction s arbitrary: a)
  case Nil
  then show ?case by (simp add: cut_def has_prefix_def)
next
  case (Cons c s)
  show ?case
  proof (cases "c = CHR ''/''")
    case True
    then show ?thesis by (cases a) (auto simp: cut_def has_prefix_def)
  next
    case False
    have "cut (c # s) ''/'' = map_option (\<lambda>(a, b). (c # a, b)) (cut s ''/'')"
      using False by (cases "index_of s ''/''") (simp_all add: cut_def has_prefix_def)
    with Cons False show ?thesis by (cases a) auto
  qed
qed

definition dir_of :: "string \<Rightarrow> string \<Rightarrow> bool" where
  "dir_of n f \<longleftrightarrow> n \<noteq> [] \<and> CHR ''/'' \<notin> set n \<and> (\<exists>rest. f = n @ CHR ''/'' # rest)"

lemma dir_of_cut: "dir_of n f \<longleftrightarrow> n \<noteq> [] \<and> (\<exists>rest. cut f ''/'' = Some (n, rest))"
  unfolding dir_of_def using cut_slash [of f n] by blast

lemma extract_changes_distinct: "distinct m \<Longrightarrow> distinct (extract_changes cs m)"
  by (induction cs arbitrary: m) (simp_all split: option.split prod.split)

lemma extract_changes_set: "n \<in> set (extract_changes cs m) \<longleftrightarrow> n \<in> set m \<or> (\<exists>f\<in>set cs. dir_of n f)"
proof (induction cs arbitrary: m)
  case (Cons f cs)
  show ?case
  proof (cases "cut f ''/''")
    case (Some p)
    then show ?thesis using Cons by (cases p) (auto simp: dir_of_cut)
  qed (use Cons in \<open>simp add: dir_of_cut\<close>)
qed simp

definition changed_by :: "push_event \<Rightarrow> string \<Rightarrow> bool" where
  "changed_by payload n \<longleftrightarrow>
     (\<exists>(modified, added, removed)\<in>set (pe_Commits payload). \<exists>f\<in>set modified \<union> set added \<union> set removed. dir_of n f)"

lemma changes_fold:
  fixes cs :: "(string list \<times> string list \<times> string list) list" and m :: "string list"
  defines "step \<equiv> \<lambda>(modified, added, removed) m. extract_changes removed (extract_changes added (extract_changes modified m))"
  shows "distinct m \<Longrightarrow> distinct (fold step cs m)"
    and "n \<in> set (fold step cs m) \<longleftrightarrow>
      n \<in> set m \<or> (\<exists>(modified, added, removed)\<in>set cs. \<exists>f\<in>set modified \<union> set added \<union> set removed. dir_of n f)"
proof -
  show "distinct m \<Longrightarrow> distinct (fold step cs m)"
    by (induction cs arbitrary: m) (auto simp: step_def intro: extract_changes_distinct)
  show "n \<in> set (fold step cs m) \<longleftrightarrow>
      n \<in> set m \<or> (\<exists>(modified, added, removed)\<in>set cs. \<exists>f\<in>set modified \<union> set added \<union> set removed. dir_of n f)"
  proof (induction cs arbitrary: m)
    case (Cons c cs)
    obtain x y z where "c = (x, y, z)" by (cases c)
    with Cons show ?case by (simp add: step_def extract_changes_set bex_Un)
  qed simp
qed

lemma modified_assignments_set:
  "distinct (modified_assignments payload)" "set (modified_assignments payload) = {n. changed_by payload n}"
  using changes_fold(1) [of "[]" "pe_Commits payload"] changes_fold(2) [of _ "pe_Commits payload" "[]"]
  by (simp_all add: modified_assignments_def changed_by_def set_eq_iff)

section \<open>The tests that a push runs\<close>

text \<open>
  A host that remembers which tests were run, as containers are listed: every run of tests is added, and the
  streams and the calls to GitHub that \<open>handlePush\<close> makes for a student repository run none.
\<close>

definition runs_recorded :: "('d, 's) hooks \<Rightarrow> ('s \<Rightarrow> run_data list) \<Rightarrow> bool" where
  "runs_recorded hk tested \<longleftrightarrow>
     (\<forall>r s. tested (te_after (hk_tests hk) r s) = tested s @ [r]) \<and>
     (\<forall>x ids s. tested (hk_send hk x ids s) = tested s) \<and>
     (\<forall>p T. preserves (\<lambda>s. tested s = T) (hk_get_scm hk p)) \<and>
     (\<forall>p r n b T. preserves (\<lambda>s. tested s = T) (gq_create_comment (hk_issues hk) p r n b)) \<and>
     (\<forall>p r n b T. preserves (\<lambda>s. tested s = T) (gq_edit_comment (hk_issues hk) p r n b)) \<and>
     (\<forall>p r n us T. preserves (\<lambda>s. tested s = T) (gq_request_reviewers (hk_issues hk) p r n us))"

abbreviation tested_is :: "('s \<Rightarrow> run_data list) \<Rightarrow> run_data list \<Rightarrow> 'd \<times> 's \<times> process_vars \<Rightarrow> bool" where
  "tested_is tested T \<equiv> \<lambda>(d, s, c). tested s = T"

lemma on_db_keeps_tests [keep]: "preserves (tested_is tested T) (on_db f)"
  by (auto simp: preserves_def on_db_def split: sum.splits)

lemma read_db_keeps_tests [keep]: "preserves (tested_is tested T) (read_db f)" "preserves (tested_is tested T) (write_db f')"
  unfolding read_db_def write_db_def by (rule on_db_keeps_tests)+

lemma on_github_keeps_tests: "preserves (\<lambda>s. tested s = T) m \<Longrightarrow> preserves (tested_is tested T) (on_github m)"
  by (auto simp: preserves_def on_github_def split: sum.splits prod.splits)

lemma the_only_keeps_tests [keep]: "preserves (tested_is tested T) (the_only what xs)"
  unfolding the_only_def by (cases xs; cases "tl xs") (simp_all add: keep)

lemma next_reviewer_keeps_tests:
  "preserves (tested_is tested T) (get_next_teacher_reviewer db course)"
  "preserves (tested_is tested T) (get_next_student_reviewer db g u)"
  unfolding get_next_teacher_reviewer_def get_next_student_reviewer_def
  by (intro preserves_bnd keep; simp add: preserves_def Let_def split: prod.split)+

lemma pull_request_push_keeps_tests:
  assumes "runs_recorded hk tested"
  shows "preserves (tested_is tested T) (handle_pull_request_push db cdb (hk_issues hk) impl payload results rd)"
proof -
  have calls: "preserves (\<lambda>s. tested s = T) (create_issue_comment (hk_issues hk) opt)"
    "preserves (\<lambda>s. tested s = T) (update_issue_comment (hk_issues hk) opt)"
    "preserves (\<lambda>s. tested s = T) (request_reviewers (hk_issues hk) opt')" for opt opt'
    unfolding create_issue_comment_def update_issue_comment_def request_reviewers_def
    using assms by (intro keep preserves_call_api; simp add: runs_recorded_def)+
  have "preserves (tested_is tested T) (maybe_assign_reviewers db cdb (hk_issues hk) ts rd pr)" for ts pr
    unfolding maybe_assign_reviewers_def assign_reviewers_def
    by (auto intro!: keep next_reviewer_keeps_tests on_github_keeps_tests calls split: option.split)
  then show ?thesis
    unfolding handle_pull_request_push_def hook_get_pull_request_def get_task_def Let_def
    by (intro keep on_github_keeps_tests calls)
qed

text \<open>One run of tests for an assignment that is not reviewed by hand, and none otherwise, whatever fails.\<close>

definition runs_for :: "assignment list \<Rightarrow> repository \<Rightarrow> course \<Rightarrow> push_event \<Rightarrow> run_data list" where
  "runs_for as repo course payload = map (\<lambda>a. push_run_data a repo course payload) (filter (\<lambda>a. \<not> graded_manually a) as)"

lemma assignment_tests_run:
  assumes "runs_recorded hk tested" and "run_assignment_tests hk a repo course payload (d, s, c) = (r, (d', s', c'))"
  shows "tested s' = tested s @ runs_for [a] repo course payload"
proof -
  let ?r = "push_run_data a repo course payload"
  have recorded: "preserves (tested_is tested T) (record_on_db hk ?r res)" for res T
    by (auto simp: preserves_def record_on_db_def split: sum.splits prod.splits)
  have send: "preserves (tested_is tested T) (send_submission hk ?r sub)" for sub T
    using assms(1) by (auto simp: preserves_def send_submission_def runs_recorded_def split: sum.splits)
  show ?thesis
  proof (cases "graded_manually a")
    case True
    then have "run_assignment_tests hk a repo course payload = bnd (record_on_db hk ?r None) (\<lambda>_. ret ())"
      by (simp add: run_assignment_tests_def)
    moreover have "preserves (tested_is tested (tested s)) (bnd (record_on_db hk ?r None) (\<lambda>_. ret ()))"
      by (intro keep recorded)
    ultimately show ?thesis using preservesD [of "tested_is tested (tested s)" _ "(d, s, c)" r "(d', s', c')"] assms(2) True
      by (simp add: runs_for_def)
  next
    case False
    let ?T = "tested s @ [?r]"
    define rest where "rest = (\<lambda>results. bnd (record_on_db hk ?r (Some results)) (\<lambda>submission.
              bnd (send_submission hk ?r submission) (\<lambda>_.
                if \<not> is_default_branch payload \<and> is_group_repo repo
                then handle_pull_request_push (hk_tasks hk) (hk_courses hk) (hk_issues hk) (hk_impl hk) payload results ?r
                else ret ())))"
    have keeps: "preserves (tested_is tested ?T) (rest results)" for results
      unfolding rest_def by (intro keep recorded send pull_request_push_keeps_tests [OF assms(1)])
    obtain x s1 where x: "call_run_tests hk ?r (d, s, c) = (x, (d, s1, c))" "tested s1 = ?T"
      using assms(1) by (auto simp: call_run_tests_def runs_recorded_def Let_def)
    have "bnd (call_run_tests hk ?r) rest (d, s, c) = (r, (d', s', c'))"
      using assms(2) False by (simp add: run_assignment_tests_def rest_def Let_def)
    then have "tested s' = ?T"
      using x preservesD [OF keeps, of "(d, s1, c)" _ r "(d', s', c')"] by (cases x) (auto simp: bnd_def)
    with False show ?thesis by (simp add: runs_for_def)
  qed
qed

lemma logged_Inr: "logged m w = (Inr (), w') \<longleftrightarrow> (\<exists>r. m w = (r, w') \<and> (\<forall>p. r \<noteq> Inl (Panicked p)))"
  by (auto simp: logged_def split: prod.splits sum.splits sync_error.splits)

lemma logged_tests_run:
  assumes "runs_recorded hk tested" and "for_each (\<lambda>a. logged (run_assignment_tests hk a repo course payload)) as (d, s, c) = (Inr (), (d', s', c'))"
  shows "tested s' = tested s @ runs_for as repo course payload"
  using assms(2)
proof (induction as arbitrary: d s c)
  case Nil
  then show ?case by (simp add: ret_def runs_for_def)
next
  case (Cons a as)
  obtain r d1 s1 c1 where one: "run_assignment_tests hk a repo course payload (d, s, c) = (r, (d1, s1, c1))" by (metis prod_cases3 prod.collapse)
  with Cons.prems have "for_each (\<lambda>a. logged (run_assignment_tests hk a repo course payload)) as (d1, s1, c1) = (Inr (), (d', s', c'))"
    by (auto simp: bnd_cases(2) logged_Inr)
  from Cons.IH [OF this] assignment_tests_run [OF assms(1) one] show ?case by (simp add: runs_for_def)
qed

lemma on_db_keeps_rest: "preserves (\<lambda>w. snd w = X) (on_db f)"
  by (auto simp: preserves_def on_db_def split: sum.splits)

lemma activity_keeps_process: "update_last_activity_date hk now course repo login (d, s, c) = (r, (d1, s1, c1)) \<Longrightarrow> s1 = s \<and> c1 = c"
proof -
  assume run: "update_last_activity_date hk now course repo login (d, s, c) = (r, (d1, s1, c1))"
  have "preserves (\<lambda>w. snd w = (s, c)) (update_last_activity_date hk now course repo login)"
    unfolding update_last_activity_date_def read_db_def write_db_def by (intro keep on_db_keeps_rest)
  from preservesD [OF this _ run] show ?thesis by simp
qed

text \<open>The way of a push that is not ignored to \<open>push_to_student\<close>.\<close>

lemma handled_push:
  assumes "hook_get_repository hk (pe_RepoID payload) (d, s, c) = (Inr repo, (d, s, c))" and "\<not> ignore_push hk payload repo d"
    and "is_student_repo repo" and "handle_push hk now payload (d, s, c) = (Inr (), w)"
  obtains cm d1 s1 where "get_course_by_organization_id (hk_courses hk) (r_ScmOrganizationID repo) d = Inr cm"
    and "logged (update_last_activity_date hk now (cm_course cm) repo (pe_SenderLogin payload)) (d, s, c) = (Inr (), (d1, s, c))"
    and "hk_get_scm hk (c_ScmOrganizationName (cm_course cm)) s = (Inr (), s1)"
    and "push_to_student hk (cm_course cm) repo payload (d1, s1, c) = (Inr (), w)"
proof -
  have other: "\<not> is_tests_repo repo" "\<not> is_assignments_repo repo"
    using assms(3) by (auto simp: is_student_repo_def is_tests_repo_def is_assignments_repo_def)
  from assms obtain cm where cm: "get_course_by_organization_id (hk_courses hk) (r_ScmOrganizationID repo) d = Inr cm"
    and rest: "bnd (logged (update_last_activity_date hk now (cm_course cm) repo (pe_SenderLogin payload))) (\<lambda>_.
        bnd (on_github (hk_get_scm hk (c_ScmOrganizationName (cm_course cm)))) (\<lambda>_. push_to_student hk (cm_course cm) repo payload))
        (d, s, c) = (Inr (), w)"
    by (auto simp: handle_push_def bnd_def [of "hook_get_repository hk _"] bnd_read_db other Let_def split: sum.splits)
  from rest obtain d1 s2 c2 where upd: "logged (update_last_activity_date hk now (cm_course cm) repo (pe_SenderLogin payload)) (d, s, c) = (Inr (), (d1, s2, c2))"
    and scm: "bnd (on_github (hk_get_scm hk (c_ScmOrganizationName (cm_course cm)))) (\<lambda>_. push_to_student hk (cm_course cm) repo payload)
        (d1, s2, c2) = (Inr (), w)"
    by (auto simp: bnd_cases(2))
  obtain r where "update_last_activity_date hk now (cm_course cm) repo (pe_SenderLogin payload) (d, s, c) = (r, (d1, s2, c2))"
    using upd by (auto simp: logged_Inr)
  then have same: "s2 = s \<and> c2 = c" by (rule activity_keeps_process)
  from scm same obtain s1 where "hk_get_scm hk (c_ScmOrganizationName (cm_course cm)) s = (Inr (), s1)"
    "push_to_student hk (cm_course cm) repo payload (d1, s1, c) = (Inr (), w)"
    by (auto simp: bnd_cases(2) on_github_def split: prod.splits sum.splits)
  with cm upd same show thesis by (intro that) simp_all
qed

lemma get_named_filter:
  "get_named db c ns d = List.map_filter (\<lambda>n. case get_assignment (tadb db) (zero_assignment\<lparr>a_name := n, a_CourseID := c\<rparr>) d of
     Inl e \<Rightarrow> None | Inr a \<Rightarrow> Some a) ns"
  by (induction ns) (simp_all add: List.map_filter_def split: sum.split)

text \<open>C19: A push to the repository of a student or a group that is handled to its end runs the tests of exactly the
  assignments whose directory a commit of the push touches, by a file that it adds, modifies or removes below the
  directory with the name of the assignment: each name is looked up once, in whatever order the names are visited, and
  for each assignment found that is not reviewed by hand there is one run, with the repository, the branch and the head
  commit of the push.  A push by a bot, and one to another branch than the default that has no pull request of a group,
  runs none.  The tests of the assignments after one that fails are run all the same.\<close>

theorem changed_assignments_exact:
  assumes "\<And>ns. mset (hk_range hk ns) = mset ns" and "runs_recorded hk tested"
    and "hook_get_repository hk (pe_RepoID payload) (d, s, c) = (Inr repo, (d, s, c))" and "is_student_repo repo"
    and "handle_push hk now payload (d, s, c) = (Inr (), (d', s', c'))"
  shows "if ignore_push hk payload repo d \<or> pe_SenderType payload = ''Bot'' then tested s' = tested s
    else \<exists>cm d1 ns. get_course_by_organization_id (hk_courses hk) (r_ScmOrganizationID repo) d = Inr cm \<and>
      logged (update_last_activity_date hk now (cm_course cm) repo (pe_SenderLogin payload)) (d, s, c) = (Inr (), (d1, s, c)) \<and>
      distinct ns \<and> set ns = {n. changed_by payload n} \<and>
      tested s' = tested s @ map (\<lambda>a. \<lparr>rd_Course = cm_course cm, rd_Assignment = a, rd_Repo = repo, rd_EnvVarsFn = None,
          rd_BranchName = branch_name (pe_Ref payload), rd_CommitID = pe_HeadCommit payload,
          rd_JobOwner = pe_SenderLogin payload, rd_Rebuild = False\<rparr>)
        (filter (\<lambda>a. a_reviewers a = 0) (List.map_filter (\<lambda>n. case get_assignment (tadb (hk_tasks hk))
            (zero_assignment\<lparr>a_name := n, a_CourseID := c_ID (cm_course cm)\<rparr>) d1 of Inl e \<Rightarrow> None | Inr a \<Rightarrow> Some a) ns))"
proof -
  let ?commit = "\<lambda>a cm. \<lparr>rd_Course = cm_course cm, rd_Assignment = a, rd_Repo = repo, rd_EnvVarsFn = None,
          rd_BranchName = branch_name (pe_Ref payload), rd_CommitID = pe_HeadCommit payload,
          rd_JobOwner = pe_SenderLogin payload, rd_Rebuild = False\<rparr>"
  have other: "\<not> is_tests_repo repo" "\<not> is_assignments_repo repo"
    using assms(4) by (auto simp: is_student_repo_def is_tests_repo_def is_assignments_repo_def)
  show ?thesis
  proof (cases "ignore_push hk payload repo d")
    case True
    then show ?thesis using assms(5) by (simp add: handle_push_def bnd_def assms(3))
  next
    case False
    from handled_push [OF assms(3) False assms(4,5)] obtain cm d1 s1 where
      cm: "get_course_by_organization_id (hk_courses hk) (r_ScmOrganizationID repo) d = Inr cm"
      and upd: "logged (update_last_activity_date hk now (cm_course cm) repo (pe_SenderLogin payload)) (d, s, c) = (Inr (), (d1, s, c))"
      and scm: "hk_get_scm hk (c_ScmOrganizationName (cm_course cm)) s = (Inr (), s1)"
      and run: "push_to_student hk (cm_course cm) repo payload (d1, s1, c) = (Inr (), (d', s', c'))" .
    have "preserves (\<lambda>x. tested x = tested s) (hk_get_scm hk (c_ScmOrganizationName (cm_course cm)))"
      using assms(2) by (simp add: runs_recorded_def)
    from preservesD [OF this _ scm] have s1: "tested s1 = tested s" by simp
    show ?thesis
    proof (cases "pe_SenderType payload = ''Bot''")
      case True
      then show ?thesis using run s1 by (simp add: push_to_student_def ret_def)
    next
      case bot: False
      let ?ns = "hk_range hk (modified_assignments payload)"
      have ns: "set ?ns = {n. changed_by payload n}" "distinct ?ns"
        using modified_assignments_set [of payload] mset_eq_setD [OF assms(1)] mset_eq_imp_distinct_iff [OF assms(1)] by simp_all
      have "tested s' = tested s1 @ runs_for (extract_assignments hk payload (cm_course cm) d1) repo (cm_course cm) payload"
        using run bot by (intro logged_tests_run [OF assms(2)]) (simp add: push_to_student_def)
      then have "tested s' = tested s @ map (\<lambda>a. ?commit a cm) (filter (\<lambda>a. a_reviewers a = 0) (List.map_filter (\<lambda>n. case get_assignment (tadb (hk_tasks hk))
            (zero_assignment\<lparr>a_name := n, a_CourseID := c_ID (cm_course cm)\<rparr>) d1 of Inl e \<Rightarrow> None | Inr a \<Rightarrow> Some a) ?ns))"
        unfolding s1 runs_for_def extract_assignments_def get_named_filter push_run_data_def
        by (simp add: graded_manually_def word_gt_0)
      with cm upd ns False bot show ?thesis by auto
    qed
  qed
qed

text \<open>The default branch is recognized by its name at the end of the reference.\<close>

lemma suffix_is_default: "is_default_branch (p\<lparr>pe_Ref := x @ b, pe_DefaultBranch := b\<rparr>)"
  by (simp add: is_default_branch_def has_suffix_def)

section \<open>A concrete host\<close>

definition offline_github :: "'s github" where
  "offline_github =
     \<lparr>gh_user_by_id = \<lambda>i w. (Inl 503, w), gh_org_by_id = \<lambda>i w. (Inl 503, w), gh_org = \<lambda>p w. (Inl 503, w),
      gh_list_repos = \<lambda>p w. (Inl 503, w), gh_org_role = \<lambda>u p w. (Inl 503, w), gh_edit_org = \<lambda>p w. (Inl 503, w),
      gh_repo = \<lambda>p r w. (Inl 503, w), gh_repo_by_id = \<lambda>i w. (Inl 503, w), gh_contents = \<lambda>p r w. (Inl 503, w),
      gh_create_repo = \<lambda>p r q a w. (Inl 503, w), gh_fork = \<lambda>p a r w. (Inl 503, w), gh_delete_repo = \<lambda>p r w. (Inl 503, w),
      gh_set_role = \<lambda>u p r w. (Inl 503, w), gh_accept = \<lambda>t p w. (Inl 503, w), gh_remove_member = \<lambda>p u w. (Inl 503, w),
      gh_add_collaborator = \<lambda>p r u q w. (Inl 503, w), gh_remove_collaborator = \<lambda>p r u w. (Inl 503, w),
      gh_collaborators = \<lambda>p r w. (Inl 503, w), gh_merge_upstream = \<lambda>p r b w. (Inl (503, None), w),
      gh_wait = \<lambda>n w. (True, w)\<rparr>"

definition sample_tests :: "nat test_env" where
  "sample_tests =
     \<lparr>te_order = id, te_clone = \<lambda>opt fs. Inl ''offline'', te_run = \<lambda>n jb. ([], None), te_unmarshal = \<lambda>l. Inl ''no score'',
      te_frames = [], te_repositories = ''/repos'', te_mkdir = \<lambda>n. Inr ''/tmp'', te_secret = \<lambda>n. ''secret'', te_t1 = \<lambda>n. 1,
      te_t2 = \<lambda>n. 2, te_exec = \<lambda>n. 1, te_files = \<lambda>n. Run_Script.sample_files, te_after = \<lambda>r n. Suc n\<rparr>"

definition sample_hooks :: "(pull_request list, nat) hooks" where
  "sample_hooks =
     \<lparr>hk_tasks = pr_tdb, hk_courses = roles_cdb Enrollment_STUDENT, hk_repositories = \<lambda>q d. Inr [q], hk_github = offline_github,
      hk_issues = counting_issues, hk_env = sample_env, hk_get_scm = \<lambda>p n. (Inr (), n), hk_tests = sample_tests, hk_impl = 1,
      hk_range = rev, hk_send = \<lambda>s us n. n, hk_tm_add = \<lambda>u n. (None, n)\<rparr>"

definition sample_push :: push_event where
  "sample_push =
     \<lparr>pe_Ref = ''refs/heads/main'', pe_RepoID = 5, pe_DefaultBranch = ''main'', pe_HeadCommit = ''c2'', pe_SenderLogin = ''ann'',
      pe_SenderType = ''User'',
      pe_Commits = [([''lab1/main.go'', ''README.md''], [''lab2/a/b.go''], []), ([''lab1/other.go''], [], [''/root''])]\<rparr>"

text \<open>A host whose state is the list of the runs; the student's repository has the number 5.\<close>

definition quiet_issues :: "'s gh_issues" where
  "quiet_issues = \<lparr>gq_create_issue = \<lambda>org repo q w. (Inr no_issue, w), gq_edit_issue = \<lambda>org repo i q w. (Inr no_issue, w),
     gq_issue = \<lambda>org repo i w. (Inl 404, w), gq_issues = \<lambda>org repo w. (Inr [], w),
     gq_create_comment = \<lambda>org repo i b w. (Inr 1, w), gq_edit_comment = \<lambda>org repo i b w. (Inr (), w),
     gq_request_reviewers = \<lambda>org repo i rs w. (Inr (), w)\<rparr>"

definition recording_env :: "run_data list course_env" where
  "recording_env = \<lparr>ce_clone = \<lambda>org repo dir w. (Inr ''/c'', w), ce_walk = \<lambda>dir w. [],
     ce_range1 = id, ce_range2 = id, ce_build = \<lambda>jb w. ((''done'', None), w), ce_entries = \<lambda>bc. [],
     ce_rand = \<lambda>w. ''x'', ce_digest = \<lambda>f. ''digest'', ce_repositories = ''/repos'', ce_decoders = sample_decoders,
     ce_sorters = insert_sorters, ce_task_sorter = insert_sort, ce_iter = map snd\<rparr>"

definition recording_tests :: "run_data list test_env" where
  "recording_tests =
     \<lparr>te_order = id, te_clone = \<lambda>opt fs. Inl ''offline'', te_run = \<lambda>w jb. ([], None), te_unmarshal = \<lambda>l. Inl ''no score'',
      te_frames = [], te_repositories = ''/repos'', te_mkdir = \<lambda>w. Inr ''/tmp'', te_secret = \<lambda>w. ''secret'', te_t1 = \<lambda>w. 1,
      te_t2 = \<lambda>w. 2, te_exec = \<lambda>w. 1, te_files = \<lambda>w. Run_Script.sample_files, te_after = \<lambda>r w. w @ [r]\<rparr>"

definition student_repository :: repository where
  "student_repository = zero_repository\<lparr>r_ID := 1, r_ScmRepositoryID := 5, r_userID := 2, r_repoType := R_USER\<rparr>"

definition recording_hooks :: "(pull_request list, run_data list) hooks" where
  "recording_hooks =
     \<lparr>hk_tasks = pr_tdb, hk_courses = roles_cdb Enrollment_STUDENT, hk_repositories = \<lambda>q d. Inr [student_repository],
      hk_github = offline_github, hk_issues = quiet_issues, hk_env = recording_env, hk_get_scm = \<lambda>p w. (Inr (), w),
      hk_tests = recording_tests, hk_impl = 1, hk_range = rev, hk_send = \<lambda>s us w. w, hk_tm_add = \<lambda>u w. (None, w)\<rparr>"

definition idle_vars :: process_vars where
  "idle_vars = \<lparr>rc_teachers = Map.empty, rc_groups = Map.empty, rc_dockerfiles = \<lambda>_. []\<rparr>"

lemma recording: "runs_recorded recording_hooks id"
  by (simp add: runs_recorded_def recording_hooks_def recording_tests_def quiet_issues_def preserves_def)

lemma changed_assignments_exact_witness:
  "\<exists>d' s' c'. handle_push recording_hooks 7 sample_push ([], [], idle_vars) = (Inr (), (d', s', c')) \<and>
     map (\<lambda>r. a_name (rd_Assignment r)) s' = [''lab2'', ''lab1''] \<and>
     (\<lambda>r. a_name (rd_Assignment r)) ` set s' = {n. changed_by sample_push n}"
proof -
  let ?h = "handle_push recording_hooks 7 sample_push ([], [], idle_vars)"
  have "fst ?h = Inr ()" by code_simp
  then obtain d' s' c' where h: "?h = (Inr (), (d', s', c'))" by (cases ?h) auto
  have "map (\<lambda>r. a_name (rd_Assignment r)) (fst (snd (snd ?h))) = [''lab2'', ''lab1'']" by code_simp
  then have names: "map (\<lambda>r. a_name (rd_Assignment r)) s' = [''lab2'', ''lab1'']" by (simp add: h)
  have range: "mset (hk_range recording_hooks ns) = mset ns" for ns by (simp add: recording_hooks_def)
  have repo: "hook_get_repository recording_hooks (pe_RepoID sample_push) ([], [], idle_vars) =
      (Inr student_repository, ([], [], idle_vars))"
    by (simp add: hook_get_repository_def bnd_read_db recording_hooks_def the_only_def ret_def)
  have student: "is_student_repo student_repository" "\<not> ignore_push recording_hooks sample_push student_repository []"
    "pe_SenderType sample_push \<noteq> ''Bot''" by code_simp+
  have get: "get_assignment (tadb (hk_tasks recording_hooks)) q d = Inr q" for q d
    by (simp add: recording_hooks_def get_assignment_def pr_tdb_def assignment_db.extend_def assignment_db.truncate_def
        sub_db.extend_def sub_db.truncate_def no_sub_db_def no_assignment_fields_def assignment_db.fields_def task_db.fields_def)
  from changed_assignments_exact [OF range recording repo student(1) h] student(2,3) obtain ns where
    ns: "set ns = {n. changed_by sample_push n}" and "map (\<lambda>r. a_name (rd_Assignment r)) s' = ns"
    by (auto simp: get List.map_filter_def zero_assignment_def comp_def)
  then have "(\<lambda>r. a_name (rd_Assignment r)) ` set s' = {n. changed_by sample_push n}" by (metis set_map)
  with names h show ?thesis by simp
qed

end
