(* ===== verification/Push_Queue.thy ===== *)
theory Push_Queue
  imports Hooks
begin

text \<open>
  Where push events wait: \<open>Handle\<close> of \<open>web/hooks/github.go\<close> with the map of \<open>web/hooks/duplicate_map.go\<close>.  Each
  accepted event has a goroutine that waits for one of \<open>maxConcurrentTestRuns\<close> places, runs \<open>handlePush\<close>, gives the
  place back and removes its commit from the map.  A step is one of these operations of one goroutine (the methods
  of the map hold its mutex), so a run is any interleaving of them; the handler's own effects are in \<open>Hooks\<close>.
  The handler need not come back: after the tests it sends the submission on the streams, and \<open>SendTo\<close> may wait
  for ever (\<open>stream_deadlock\<close> of \<open>Streams\<close>).  A goroutine whose handler does is \<open>Blocked\<close>: it keeps its place and its
  commit, and has no further step.
\<close>

section \<open>The map of commits\<close>

definition duplicate :: "string \<Rightarrow> string set \<Rightarrow> bool \<times> string set" where
  "duplicate commitID dup = (if commitID \<in> dup then (True, dup) else (False, insert commitID dup))"

definition remove_commit :: "string \<Rightarrow> string set \<Rightarrow> string set" where
  "remove_commit commitID dup = dup - {commitID}"

section \<open>The goroutines\<close>

definition maxConcurrentTestRuns :: nat where
  "maxConcurrentTestRuns = 5"

datatype push_stage = Queued | Running | Blocked | Released

record push_queue =
  pq_dup :: "string set"
  pq_sem :: nat
  pq_live :: "(string \<times> push_stage) list"

definition new_webhook :: push_queue where
  "new_webhook = \<lparr>pq_dup = {}, pq_sem = 0, pq_live = []\<rparr>"

datatype push_action = Deliver string | Acquire nat | Block nat | Release nat | Forget nat

definition at_stage :: "push_queue \<Rightarrow> nat \<Rightarrow> push_stage \<Rightarrow> bool" where
  "at_stage q i st \<longleftrightarrow> i < length (pq_live q) \<and> snd (pq_live q ! i) = st"

definition set_stage :: "nat \<Rightarrow> push_stage \<Rightarrow> push_queue \<Rightarrow> push_queue" where
  "set_stage i st q = q\<lparr>pq_live := (pq_live q)[i := (fst (pq_live q ! i), st)]\<rparr>"

text \<open>A goroutine that cannot take its next step waits: \<open>None\<close>.\<close>

fun push_step :: "push_action \<Rightarrow> push_queue \<Rightarrow> push_queue option" where
  "push_step (Deliver commitID) q =
     (case duplicate commitID (pq_dup q) of
        (True, dup) \<Rightarrow> Some (q\<lparr>pq_dup := dup\<rparr>)
      | (False, dup) \<Rightarrow> Some (q\<lparr>pq_dup := dup, pq_live := pq_live q @ [(commitID, Queued)]\<rparr>))"
| "push_step (Acquire i) q =
     (if at_stage q i Queued \<and> pq_sem q < maxConcurrentTestRuns
      then Some ((set_stage i Running q)\<lparr>pq_sem := pq_sem q + 1\<rparr>) else None)"
| "push_step (Block i) q = (if at_stage q i Running then Some (set_stage i Blocked q) else None)"
| "push_step (Release i) q =
     (if at_stage q i Running then Some ((set_stage i Released q)\<lparr>pq_sem := pq_sem q - 1\<rparr>) else None)"
| "push_step (Forget i) q =
     (if at_stage q i Released
      then Some (q\<lparr>pq_dup := remove_commit (fst (pq_live q ! i)) (pq_dup q),
                   pq_live := take i (pq_live q) @ drop (Suc i) (pq_live q)\<rparr>) else None)"

fun push_run :: "push_action list \<Rightarrow> push_queue \<Rightarrow> push_queue option" where
  "push_run [] q = Some q"
| "push_run (a # as) q = (case push_step a q of None \<Rightarrow> None | Some q' \<Rightarrow> push_run as q')"

inductive reachable_queue :: "push_queue \<Rightarrow> bool" where
  start: "reachable_queue new_webhook"
| step: "reachable_queue q \<Longrightarrow> push_step a q = Some q' \<Longrightarrow> reachable_queue q'"

section \<open>The invariant\<close>

text \<open>The pushes that are being handled, those whose handler waits for ever included.\<close>

definition running :: "push_queue \<Rightarrow> nat" where
  "running q = length (filter (\<lambda>(c, st). st = Running \<or> st = Blocked) (pq_live q))"

definition queue_ok :: "push_queue \<Rightarrow> bool" where
  "queue_ok q \<longleftrightarrow> pq_sem q = running q \<and> running q \<le> maxConcurrentTestRuns \<and>
     distinct (map fst (pq_live q)) \<and> pq_dup q = fst ` set (pq_live q)"

lemma live_split:
  assumes "at_stage q i st"
  obtains xs c ys where "pq_live q = xs @ (c, st) # ys" "i = length xs"
proof -
  have "pq_live q = take i (pq_live q) @ pq_live q ! i # drop (Suc i) (pq_live q)" "length (take i (pq_live q)) = i"
    using assms by (simp_all add: at_stage_def id_take_nth_drop)
  moreover have "pq_live q ! i = (fst (pq_live q ! i), st)" using assms by (auto simp: at_stage_def prod_eq_iff)
  ultimately show thesis using that by metis
qed

lemma set_stage_split:
  "pq_live q = xs @ (c, st) # ys \<Longrightarrow> set_stage (length xs) st' q = q\<lparr>pq_live := xs @ (c, st') # ys\<rparr>"
  by (simp add: set_stage_def)

lemma push_step_ok:
  assumes "queue_ok q" "push_step a q = Some q'"
  shows "queue_ok q'"
proof (cases a)
  case (Deliver c)
  then have q': "q' = (if c \<in> pq_dup q then q else q\<lparr>pq_dup := insert c (pq_dup q), pq_live := pq_live q @ [(c, Queued)]\<rparr>)"
    using assms(2) by (simp add: duplicate_def split: if_splits)
  have "running (q\<lparr>pq_dup := dup, pq_live := pq_live q @ [(c, Queued)]\<rparr>) = running q" for dup by (simp add: running_def)
  then show ?thesis using assms(1) unfolding q' by (cases "c \<in> pq_dup q") (simp_all add: queue_ok_def)
next
  case (Acquire i)
  with assms(2) have "at_stage q i Queued" by (simp split: if_splits)
  then obtain xs c ys where "pq_live q = xs @ (c, Queued) # ys" "i = length xs" by (rule live_split)
  with Acquire assms show ?thesis by (clarsimp simp: queue_ok_def running_def set_stage_split image_Un split: if_splits)
next
  case (Block i)
  with assms(2) have "at_stage q i Running" by (simp split: if_splits)
  then obtain xs c ys where "pq_live q = xs @ (c, Running) # ys" "i = length xs" by (rule live_split)
  with Block assms show ?thesis by (clarsimp simp: queue_ok_def running_def set_stage_split image_Un split: if_splits)
next
  case (Release i)
  with assms(2) have "at_stage q i Running" by (simp split: if_splits)
  then obtain xs c ys where "pq_live q = xs @ (c, Running) # ys" "i = length xs" by (rule live_split)
  with Release assms show ?thesis by (clarsimp simp: queue_ok_def running_def set_stage_split image_Un split: if_splits)
next
  case (Forget i)
  with assms(2) have "at_stage q i Released" by (simp split: if_splits)
  then obtain xs c ys where "pq_live q = xs @ (c, Released) # ys" "i = length xs" by (rule live_split)
  with Forget assms show ?thesis by (clarsimp simp: queue_ok_def running_def remove_commit_def image_Un split: if_splits)
qed

lemma reachable_queue_ok: "reachable_queue q \<Longrightarrow> queue_ok q"
proof (induction rule: reachable_queue.induct)
  case start
  show ?case by (simp add: queue_ok_def new_webhook_def running_def)
qed (rule push_step_ok)

lemma push_run_reachable: "reachable_queue q \<Longrightarrow> push_run as q = Some q' \<Longrightarrow> reachable_queue q'"
  by (induction as arbitrary: q) (auto split: option.splits intro: reachable_queue.step)

text \<open>C16: However the goroutines of the webhook are interleaved, at most five pushes are handled at a time, the
  semaphore counts exactly those that are, no two live goroutines handle the same commit, and the map of duplicates
  holds exactly the commits that have one; an event whose commit has a live goroutine is dropped, whichever repository
  it came from.\<close>

theorem pushes_limited:
  assumes "reachable_queue q"
  shows "pq_sem q = running q \<and> running q \<le> 5 \<and> distinct (map fst (pq_live q)) \<and> pq_dup q = fst ` set (pq_live q) \<and>
    (push_step (Deliver c) q = Some q \<longleftrightarrow> c \<in> fst ` set (pq_live q))"
proof -
  have "push_step (Deliver c) q = Some q \<longleftrightarrow> c \<in> pq_dup q"
    by (cases q) (auto simp: duplicate_def)
  with reachable_queue_ok [OF assms] show ?thesis by (simp add: queue_ok_def maxConcurrentTestRuns_def)
qed

lemma pushes_limited_witness:
  "\<exists>q. push_run (map Deliver [''a'', ''b'', ''a'', ''c'', ''d'', ''e'', ''f''] @ map Acquire [5, 0, 1, 2, 3]) new_webhook = Some q \<and>
     length (pq_live q) = 6 \<and> running q = 5 \<and> pq_sem q = 5 \<and> push_step (Acquire 4) q = None \<and> push_step (Deliver ''f'') q = Some q"
proof -
  let ?r = "push_run (map Deliver [''a'', ''b'', ''a'', ''c'', ''d'', ''e'', ''f''] @ map Acquire [5, 0, 1, 2, 3]) new_webhook"
  have n: "?r \<noteq> None" "pq_sem (the ?r) = 5" "map fst (pq_live (the ?r)) = [''a'', ''b'', ''c'', ''d'', ''e'', ''f'']"
    by code_simp+
  then obtain q where q: "?r = Some q" by blast
  then have "reachable_queue q" using push_run_reachable reachable_queue.start by blast
  from pushes_limited [OF this] have p: "pq_sem q = running q" "\<And>c. push_step (Deliver c) q = Some q \<longleftrightarrow> c \<in> fst ` set (pq_live q)"
    by blast+
  have names: "map fst (pq_live q) = [''a'', ''b'', ''c'', ''d'', ''e'', ''f'']" and sem: "pq_sem q = 5"
    using n(2,3) unfolding q by (simp_all only: option.sel)
  from arg_cong [OF names, of length] have "length (pq_live q) = 6" by simp
  moreover from arg_cong [OF names, of set] have "''f'' \<in> fst ` set (pq_live q)" by simp
  then have "push_step (Deliver ''f'') q = Some q" using p(2) by blast
  moreover have "push_step (Acquire 4) q = None" using sem by (simp add: maxConcurrentTestRuns_def)
  ultimately show ?thesis using q sem p(1) by (intro exI [of _ q]) (simp del: push_run.simps)
qed

section \<open>Every push is handled, or five wait for ever\<close>

fun steps_left :: "push_stage \<Rightarrow> nat" where
  "steps_left Queued = 3"
| "steps_left Running = 2"
| "steps_left Blocked = 0"
| "steps_left Released = 1"

definition work :: "push_queue \<Rightarrow> nat" where
  "work q = (\<Sum>(c, st)\<leftarrow>pq_live q. steps_left st)"

definition blocked :: "push_queue \<Rightarrow> (string \<times> push_stage) list" where
  "blocked q = filter (\<lambda>(c, st). st = Blocked) (pq_live q)"

text \<open>The steps of the goroutines, and those among them that a handler which comes back takes.\<close>

fun internal :: "push_action \<Rightarrow> bool" where
  "internal (Deliver c) = False"
| "internal _ = True"

fun returning :: "push_action \<Rightarrow> bool" where
  "returning (Deliver c) = False"
| "returning (Block i) = False"
| "returning _ = True"

text \<open>A step of a goroutine moves one event from a stage to another, or ends it (\<open>None\<close>).\<close>

fun moves :: "push_action \<Rightarrow> nat \<times> push_stage \<times> push_stage option" where
  "moves (Deliver c) = (0, Blocked, None)"
| "moves (Acquire i) = (i, Queued, Some Running)"
| "moves (Block i) = (i, Running, Some Blocked)"
| "moves (Release i) = (i, Running, Some Released)"
| "moves (Forget i) = (i, Released, None)"

definition moved_to :: "string \<Rightarrow> push_stage option \<Rightarrow> (string \<times> push_stage) list" where
  "moved_to c st = (case st of None \<Rightarrow> [] | Some st \<Rightarrow> [(c, st)])"

lemma internal_step_split:
  assumes "internal a" "push_step a q = Some q'" "moves a = (i, st, st')"
  obtains xs c ys where "pq_live q = xs @ (c, st) # ys" "i = length xs" "pq_live q' = xs @ moved_to c st' @ ys"
proof -
  have "at_stage q i st" using assms by (cases a) (auto split: if_splits)
  then obtain xs c ys where q: "pq_live q = xs @ (c, st) # ys" "i = length xs" by (rule live_split)
  have "pq_live q' = xs @ moved_to c st' @ ys"
    using assms q by (cases a) (auto simp: set_stage_split moved_to_def split: if_splits)
  with q show thesis by (rule that)
qed

lemma moves_work:
  "internal a \<Longrightarrow> moves a = (i, st, st') \<Longrightarrow> Suc (\<Sum>(c, st)\<leftarrow>moved_to c st'. steps_left st) \<le> steps_left st"
  by (cases a) (auto simp: moved_to_def)

lemma internal_step_work:
  assumes "internal a" "push_step a q = Some q'"
  shows "Suc (work q') \<le> work q"
proof -
  obtain i st st' where m: "moves a = (i, st, st')" by (cases "moves a")
  from internal_step_split [OF assms m] obtain xs c ys where
    "pq_live q = xs @ (c, st) # ys" "pq_live q' = xs @ moved_to c st' @ ys" .
  with moves_work [OF assms(1) m, of c] show ?thesis by (simp add: work_def)
qed

lemma moves_blocked:
  "internal a \<Longrightarrow> moves a = (i, st, st') \<Longrightarrow> st \<noteq> Blocked \<and> (returning a \<longrightarrow> st' \<noteq> Some Blocked)"
  by (cases a) auto

text \<open>What is blocked stays so, and a handler that comes back blocks nothing.\<close>

lemma returning_step_blocked:
  assumes "returning a" "push_step a q = Some q'"
  shows "blocked q' = blocked q"
proof -
  have int: "internal a" using assms(1) by (cases a) simp_all
  obtain i st st' where m: "moves a = (i, st, st')" by (cases "moves a")
  from internal_step_split [OF int assms(2) m] obtain xs c ys where
    "pq_live q = xs @ (c, st) # ys" "pq_live q' = xs @ moved_to c st' @ ys" .
  with moves_blocked [OF int m] assms(1) show ?thesis by (auto simp: blocked_def moved_to_def split: option.split)
qed

text \<open>The events that are neither blocked nor done can go on as long as fewer than five are blocked.\<close>

lemma some_step:
  assumes "queue_ok q" "length (blocked q) < 5" "blocked q \<noteq> pq_live q"
  shows "\<exists>a q'. returning a \<and> push_step a q = Some q'"
proof (cases "\<exists>i. at_stage q i Released \<or> at_stage q i Running")
  case True
  then obtain i where "at_stage q i Released \<or> at_stage q i Running" ..
  then show ?thesis using exI [of _ "Forget i"] exI [of _ "Release i"] by auto
next
  case False
  have other: "st = Queued \<or> st = Blocked" if "(c, st) \<in> set (pq_live q)" for c st
  proof -
    from that obtain i where "at_stage q i st" by (auto simp: at_stage_def in_set_conv_nth) (metis snd_conv)
    with False show ?thesis by (cases st) auto
  qed
  then have "running q = length (blocked q)" unfolding running_def blocked_def
    by (intro arg_cong [of _ _ length] filter_cong) auto
  moreover obtain c st where "(c, st) \<in> set (pq_live q)" "st \<noteq> Blocked"
    using assms(3) by (auto simp: blocked_def filter_id_conv)
  with other obtain i where "at_stage q i Queued" by (auto simp: at_stage_def in_set_conv_nth) (metis snd_conv)
  ultimately obtain q' where "push_step (Acquire i) q = Some q'" using assms(1,2) by (simp add: queue_ok_def maxConcurrentTestRuns_def)
  moreover have "returning (Acquire i)" by simp
  ultimately show ?thesis by blast
qed

text \<open>What is left when only blocked handlers are.\<close>

definition only_blocked :: "push_queue \<Rightarrow> push_queue" where
  "only_blocked q = \<lparr>pq_dup = fst ` set (blocked q), pq_sem = length (blocked q), pq_live = blocked q\<rparr>"

lemma drains:
  "queue_ok q \<Longrightarrow> length (blocked q) < 5 \<Longrightarrow> \<exists>as. list_all returning as \<and> push_run as q = Some (only_blocked q)"
proof (induction "work q" arbitrary: q rule: less_induct)
  case less
  show ?case
  proof (cases "blocked q = pq_live q")
    case True
    then have all: "\<forall>(c, st)\<in>set (pq_live q). st = Blocked" by (auto simp: blocked_def filter_id_conv)
    then have "running q = length (blocked q)" unfolding running_def blocked_def
      by (intro arg_cong [of _ _ length] filter_cong) auto
    with True less.prems(1) have "q = only_blocked q" by (cases q) (simp add: queue_ok_def only_blocked_def)
    then show ?thesis by (intro exI [of _ "[]"]) simp
  next
    case False
    with some_step less.prems obtain a q' where a: "returning a" "push_step a q = Some q'" by blast
    then have int: "internal a" by (cases a) simp_all
    have b: "blocked q' = blocked q" by (rule returning_step_blocked [OF a])
    have "work q' < work q" using internal_step_work [OF int a(2)] by simp
    from less.hyps [OF this push_step_ok [OF less.prems(1) a(2)]] b less.prems(2)
    obtain as where "list_all returning as" "push_run as q' = Some (only_blocked q')" by auto
    with a b show ?thesis by (intro exI [of _ "a # as"]) (simp add: only_blocked_def)
  qed
qed

lemma internal_runs_bounded:
  "list_all internal as \<Longrightarrow> push_run as q = Some q' \<Longrightarrow> length as + work q' \<le> work q"
proof (induction as arbitrary: q)
  case (Cons a as)
  then obtain p where p: "push_step a q = Some p" "push_run as p = Some q'" by (auto split: option.splits)
  with Cons internal_step_work [of a q p] show ?case by fastforce
qed simp

lemma work_three: "work q \<le> 3 * length (pq_live q)"
proof -
  have "steps_left st \<le> 3" for st by (cases st) simp_all
  then have "(\<Sum>(c, st)\<leftarrow>l. steps_left st) \<le> 3 * length l" for l :: "(string \<times> push_stage) list"
    by (induction l) (auto intro: add_mono)
  then show ?thesis by (simp add: work_def)
qed

text \<open>Five blocked handlers hold all places: no event that waits is handled any more.\<close>

definition starved :: "push_queue \<Rightarrow> bool" where
  "starved q \<longleftrightarrow> queue_ok q \<and> length (blocked q) = 5"

lemma starved_step:
  assumes "starved q" "push_step a q = Some q'"
  shows "starved q' \<and> blocked q' = blocked q \<and> (\<forall>i. a \<noteq> Acquire i) \<and>
    (\<forall>c. (c, Queued) \<in> set (pq_live q) \<longrightarrow> (c, Queued) \<in> set (pq_live q'))"
proof -
  have ok: "queue_ok q" "queue_ok q'" using assms push_step_ok by (auto simp: starved_def)
  have none: "st \<noteq> Running" if "(c, st) \<in> set (pq_live q)" for c st
  proof
    assume "st = Running"
    have "length (filter (\<lambda>(c, st). st = Blocked) l) + (if (c, Running) \<in> set l then 1 else 0) \<le>
        length (filter (\<lambda>(c, st). st = Running \<or> st = Blocked) l)" for l
      by (induction l) auto
    from this [of "pq_live q"] that \<open>st = Running\<close> show False
      using assms(1) by (simp add: starved_def queue_ok_def running_def blocked_def maxConcurrentTestRuns_def split: if_splits)
  qed
  have not_running: "\<not> at_stage q i Running" for i
    using none by (auto simp: at_stage_def) (metis nth_mem prod.collapse)
  have "length (filter (\<lambda>(c, st). st = Blocked) l) \<le> length (filter (\<lambda>(c, st). st = Running \<or> st = Blocked) l)" for l :: "(string \<times> push_stage) list"
    by (induction l) auto
  from this [of "pq_live q"] have "5 \<le> pq_sem q" using assms(1) by (simp add: starved_def queue_ok_def running_def blocked_def)
  then have "blocked q' = blocked q \<and> (\<forall>i. a \<noteq> Acquire i) \<and>
    (\<forall>c. (c, Queued) \<in> set (pq_live q) \<longrightarrow> (c, Queued) \<in> set (pq_live q'))"
  proof (cases a)
    case (Deliver c)
    with assms(2) show ?thesis by (auto simp: duplicate_def blocked_def split: if_splits)
  next
    case (Forget i)
    then have a: "returning a" "internal a" "moves a = (i, Released, None)" by simp_all
    from internal_step_split [OF a(2) assms(2) a(3)] obtain xs c ys where
      "pq_live q = xs @ (c, Released) # ys" "pq_live q' = xs @ moved_to c None @ ys" .
    with Forget returning_step_blocked [OF a(1) assms(2)] show ?thesis by (auto simp: moved_to_def)
  qed (use assms(2) not_running in \<open>auto simp: maxConcurrentTestRuns_def split: if_splits\<close>)
  with ok assms(1) show ?thesis by (simp add: starved_def)
qed

lemma starved_run:
  "starved q \<Longrightarrow> push_run as q = Some q' \<Longrightarrow> blocked q' = blocked q \<and> (\<forall>i. Acquire i \<notin> set as) \<and>
    (\<forall>c. (c, Queued) \<in> set (pq_live q) \<longrightarrow> (c, Queued) \<in> set (pq_live q'))"
proof (induction as arbitrary: q)
  case (Cons a as)
  then obtain p where p: "push_step a q = Some p" "push_run as p = Some q'" by (auto split: option.splits)
  from starved_step [OF Cons.prems(1) p(1)] Cons.IH [OF _ p(2)] show ?case by auto
qed simp

lemma push_run_append: "push_run (xs @ ys) q = Option.bind (push_run xs q) (push_run ys)"
  by (induction xs arbitrary: q) (auto split: option.split)



end
