(* ===== verification/Next_Url.thy ===== *)
theory Next_Url
  imports Prelude
begin

text \<open>
  The page a user returns to after signing in: \<open>SanitizeNext\<close> of \<open>web/auth/auth.go\<close>, with what it uses of
  \<open>net/url\<close>: the parser, percent-encoding and \<open>String\<close>.  A string is its bytes.
\<close>

section \<open>Percent-encoding\<close>

datatype encoding = EncodePath | EncodeQuery | EncodeFragment

definition alnum :: "char \<Rightarrow> bool" where
  "alnum c = (let n = of_char c :: nat in 48 \<le> n \<and> n \<le> 57 \<or> 65 \<le> n \<and> n \<le> 90 \<or> 97 \<le> n \<and> n \<le> 122)"

definition should_escape :: "encoding \<Rightarrow> char \<Rightarrow> bool" where
  "should_escape md c =
     (if alnum c \<or> c \<in> set ''-_.~'' then False
      else if c \<in> set ''$&+,/:;=?@'' then (case md of EncodePath \<Rightarrow> c = CHR ''?'' | EncodeQuery \<Rightarrow> True | EncodeFragment \<Rightarrow> False)
      else \<not> (md = EncodeFragment \<and> c \<in> set ''!()*''))"

definition hex_val :: "char \<Rightarrow> nat option" where
  "hex_val c =
     (let n = of_char c :: nat
      in if 48 \<le> n \<and> n \<le> 57 then Some (n - 48)
         else if 65 \<le> n \<and> n \<le> 70 then Some (n - 55)
         else if 97 \<le> n \<and> n \<le> 102 then Some (n - 87) else None)"

definition hex_char :: "nat \<Rightarrow> char" where
  "hex_char n = char_of (if n < 10 then 48 + n else 55 + n)"

fun unescape :: "encoding \<Rightarrow> string \<Rightarrow> string option" where
  "unescape md [] = Some []"
| "unescape md (c # s) =
     (if c = CHR ''%''
      then (case s of
              a # b # s' \<Rightarrow>
                (case (hex_val a, hex_val b) of
                   (Some x, Some y) \<Rightarrow> map_option ((#) (char_of (16 * x + y))) (unescape md s')
                 | _ \<Rightarrow> None)
            | _ \<Rightarrow> None)
      else map_option ((#) (if c = CHR ''+'' \<and> md = EncodeQuery then CHR '' '' else c)) (unescape md s))"

definition escape_char :: "encoding \<Rightarrow> char \<Rightarrow> string" where
  "escape_char md c =
     (if \<not> should_escape md c then [c]
      else if c = CHR '' '' \<and> md = EncodeQuery then ''+''
      else [CHR ''%'', hex_char (of_char c div 16), hex_char (of_char c mod 16)])"

definition escape :: "encoding \<Rightarrow> string \<Rightarrow> string" where
  "escape md s = concat (map (escape_char md) s)"

definition valid_encoded :: "encoding \<Rightarrow> string \<Rightarrow> bool" where
  "valid_encoded md s = list_all (\<lambda>c. c \<in> set ''!$&()*+,;=:@[]%'' \<or> c = CHR 0x27 \<or> \<not> should_escape md c) s"

section \<open>Parsing\<close>

record url =
  url_Scheme :: string
  url_Host :: string
  url_Path :: string
  url_RawPath :: string
  url_ForceQuery :: bool
  url_RawQuery :: string
  url_Fragment :: string
  url_RawFragment :: string

definition empty_url :: url where
  "empty_url = \<lparr>url_Scheme = [], url_Host = [], url_Path = [], url_RawPath = [], url_ForceQuery = False, url_RawQuery = [],
     url_Fragment = [], url_RawFragment = []\<rparr>"

fun get_scheme :: "string \<Rightarrow> string \<Rightarrow> string \<Rightarrow> (string \<times> string) option" where
  "get_scheme raw seen [] = Some ([], raw)"
| "get_scheme raw seen (c # s) =
     (if alnum c \<and> 58 \<le> (of_char c :: nat) then get_scheme raw (seen @ [c]) s
      else if alnum c \<or> c \<in> set ''+-.'' then (if seen = [] then Some ([], raw) else get_scheme raw (seen @ [c]) s)
      else if c = CHR '':'' then (if seen = [] then None else Some (seen, s))
      else Some ([], raw))"

definition printable :: "char \<Rightarrow> bool" where
  "printable c \<longleftrightarrow> 32 \<le> (of_char c :: nat) \<and> of_char c \<noteq> (127 :: nat)"

definition set_path :: "string \<Rightarrow> url \<Rightarrow> url option" where
  "set_path p u =
     map_option (\<lambda>path. u\<lparr>url_Path := path, url_RawPath := if escape EncodePath path = p then [] else p\<rparr>) (unescape EncodePath p)"

definition set_fragment :: "string \<Rightarrow> url \<Rightarrow> url option" where
  "set_fragment f u =
     map_option (\<lambda>frag. u\<lparr>url_Fragment := frag, url_RawFragment := if escape EncodeFragment frag = f then [] else f\<rparr>)
       (unescape EncodeFragment f)"

definition split_query :: "string \<Rightarrow> string \<times> bool \<times> string" where
  "split_query rest =
     (if has_suffix rest ''?'' \<and> count_list rest (CHR ''?'') = 1 then (butlast rest, True, [])
      else (case cut rest ''?'' of None \<Rightarrow> (rest, False, []) | Some (r, q) \<Rightarrow> (r, False, q)))"

text \<open>
  \<open>parse\<close>, where \<open>authority\<close> gives the host of what follows two slashes, or an error.  A scheme without a slash after
  it makes the URL opaque: nothing but the scheme is kept here.
\<close>

definition parse_part :: "(string \<Rightarrow> string option) \<Rightarrow> string \<Rightarrow> url option" where
  "parse_part authority raw =
     (if \<not> list_all printable raw then None
      else if raw = ''*'' then Some (empty_url\<lparr>url_Path := ''*''\<rparr>)
      else case get_scheme raw [] raw of
             None \<Rightarrow> None
           | Some (scheme, rest) \<Rightarrow>
               (case split_query rest of (rest, force, query) \<Rightarrow>
                  let u = empty_url\<lparr>url_Scheme := map lower_char scheme, url_ForceQuery := force, url_RawQuery := query\<rparr>
                  in if \<not> has_prefix rest ''/'' \<and> scheme \<noteq> [] then Some u
                     else if \<not> has_prefix rest ''/'' \<and> CHR '':'' \<in> set (hd (split_on (CHR ''/'') rest)) then None
                     else if has_prefix rest ''//'' \<and> (scheme \<noteq> [] \<or> \<not> has_prefix rest ''///'')
                     then (let a = takeWhile (\<lambda>c. c \<noteq> CHR ''/'') (drop 2 rest)
                           in case authority a of
                                None \<Rightarrow> None
                              | Some host \<Rightarrow> set_path (drop (2 + length a) rest) (u\<lparr>url_Host := host\<rparr>))
                     else set_path rest u))"

definition url_parse :: "(string \<Rightarrow> string option) \<Rightarrow> string \<Rightarrow> url option" where
  "url_parse authority raw =
     (case cut raw ''#'' of
        None \<Rightarrow> parse_part authority raw
      | Some (u, frag) \<Rightarrow>
          (case parse_part authority u of
             None \<Rightarrow> None
           | Some url \<Rightarrow> if frag = [] then Some url else set_fragment frag url))"

section \<open>Printing\<close>

definition escaped_path :: "url \<Rightarrow> string" where
  "escaped_path u =
     (if url_RawPath u \<noteq> [] \<and> valid_encoded EncodePath (url_RawPath u) \<and> unescape EncodePath (url_RawPath u) = Some (url_Path u)
      then url_RawPath u
      else if url_Path u = ''*'' then ''*'' else escape EncodePath (url_Path u))"

definition escaped_fragment :: "url \<Rightarrow> string" where
  "escaped_fragment u =
     (if url_RawFragment u \<noteq> [] \<and> valid_encoded EncodeFragment (url_RawFragment u)
         \<and> unescape EncodeFragment (url_RawFragment u) = Some (url_Fragment u)
      then url_RawFragment u else escape EncodeFragment (url_Fragment u))"

text \<open>\<open>String\<close> of a URL without scheme and authority, the only ones that are printed.\<close>

definition url_string :: "url \<Rightarrow> string" where
  "url_string u =
     (let path = escaped_path u;
          dot = (if CHR '':'' \<in> set (hd (split_on (CHR ''/'') path)) then ''./'' else [])
      in dot @ path @ (if url_ForceQuery u \<or> url_RawQuery u \<noteq> [] then CHR ''?'' # url_RawQuery u else [])
         @ (if url_Fragment u \<noteq> [] then CHR ''#'' # escaped_fragment u else []))"

section \<open>The page to return to\<close>

definition sanitize_next :: "(string \<Rightarrow> string option) \<Rightarrow> string \<Rightarrow> string" where
  "sanitize_next authority next =
     (let next = trim_space next
      in if next = [] then ''/''
         else case url_parse authority next of
                None \<Rightarrow> ''/''
              | Some u \<Rightarrow>
                  if url_Scheme u \<noteq> [] \<or> has_prefix next ''//'' \<or> CHR 0x5C \<in> set next then ''/''
                  else if url_Path u = [] \<or> \<not> has_prefix (url_Path u) ''/'' then ''/''
                  else (let cleaned = path_clean (url_Path u)
                        in if cleaned = ''.'' then ''/'' else url_string (u\<lparr>url_Path := cleaned\<rparr>)))"

section \<open>Percent-encoding can be undone\<close>

lemma alnum_printable: "alnum c \<Longrightarrow> printable c \<and> c \<noteq> CHR 0x5C \<and> c \<noteq> CHR ''/'' \<and> c \<noteq> CHR ''%'' \<and> c \<noteq> CHR ''+''"
  by (auto simp: alnum_def printable_def Let_def)

lemma hex_val_char: "n < 16 \<Longrightarrow> hex_val (hex_char n) = Some n"
  by (auto simp: hex_val_def hex_char_def Let_def)

lemma unescape_escape_char: "unescape md (escape_char md c @ s) = map_option ((#) c) (unescape md s)"
proof -
  have "(of_char c :: nat) < 256" by simp
  then have "hex_val (hex_char (of_char c div 16)) = Some (of_char c div 16)" "hex_val (hex_char (of_char c mod 16)) = Some (of_char c mod 16)"
    by (simp_all add: hex_val_char less_mult_imp_div_less)
  moreover have "char_of (16 * (of_char c div 16) + of_char c mod 16 :: nat) = c" by (simp only: mult_div_mod_eq char_of_char)
  moreover have "c \<noteq> CHR ''%'' \<and> \<not> (c = CHR ''+'' \<and> md = EncodeQuery)" if "\<not> should_escape md c"
    using that alnum_printable [of c] by (auto simp: should_escape_def split: if_splits)
  ultimately show ?thesis by (auto simp: escape_char_def)
qed

lemma unescape_escape [simp]: "unescape md (escape md s) = Some s"
  by (induction s) (simp_all add: escape_def unescape_escape_char)

section \<open>What is printed is harmless\<close>

definition harmless :: "char \<Rightarrow> bool" where
  "harmless c \<longleftrightarrow> printable c \<and> of_char c \<noteq> (92 :: nat)"

lemma harmless_sets: "list_all harmless ''-_.~$&+,/:;=?@!()*[]%''" "harmless CHR 0x27" "harmless CHR ''+''" "harmless CHR ''%''"
  by code_simp+

definition visible :: "char \<Rightarrow> bool" where
  "visible c \<longleftrightarrow> (let n = of_char c :: nat in 33 \<le> n \<and> n \<le> 126 \<and> n \<noteq> 35 \<and> n \<noteq> 92)"

lemma plain_visible: "\<not> should_escape md c \<Longrightarrow> visible c"
proof -
  assume "\<not> should_escape md c"
  then have "alnum c \<or> c \<in> set ''-_.~$&+,/:;=?@!()*''" by (auto simp: should_escape_def split: if_splits)
  moreover have "list_all visible ''-_.~$&+,/:;=?@!()*''" by code_simp
  moreover have "alnum c \<Longrightarrow> visible c" by (auto simp: alnum_def visible_def Let_def)
  ultimately show ?thesis unfolding list_all_iff by blast
qed

lemma plain_harmless: "\<not> should_escape md c \<Longrightarrow> harmless c"
  using plain_visible [of md c] by (auto simp: visible_def harmless_def printable_def Let_def)

lemma hex_char_harmless: "n < 16 \<Longrightarrow> harmless (hex_char n)"
  by (auto simp: hex_char_def harmless_def printable_def)

lemma escape_char_harmless: "list_all harmless (escape_char md c)"
proof -
  have "(of_char c :: nat) < 256" by simp
  then have "harmless (hex_char (of_char c div 16))" "harmless (hex_char (of_char c mod 16))"
    by (simp_all add: hex_char_harmless less_mult_imp_div_less)
  then show ?thesis using harmless_sets plain_harmless [of md c] by (simp add: escape_char_def)
qed

lemma escape_harmless: "list_all harmless (escape md s)"
  by (induction s) (simp_all add: escape_def escape_char_harmless)

lemma valid_encoded_harmless: "valid_encoded md s \<Longrightarrow> list_all harmless s"
proof -
  have "set ''!$&()*+,;=:@[]%'' \<subseteq> set ''-_.~$&+,/:;=?@!()*[]%''" by code_simp
  then have "harmless c" if "c \<in> set ''!$&()*+,;=:@[]%'' \<or> c = CHR 0x27 \<or> \<not> should_escape md c" for c
    using that plain_harmless [of md c] harmless_sets(1,2) unfolding list_all_iff by blast
  then show "valid_encoded md s \<Longrightarrow> list_all harmless s" unfolding valid_encoded_def list_all_iff by blast
qed

lemma escaped_path_harmless: "list_all harmless (escaped_path u)"
proof -
  have "list_all harmless ''*''" by code_simp
  then show ?thesis by (auto simp: escaped_path_def escape_harmless valid_encoded_harmless)
qed

lemma escaped_fragment_harmless: "list_all harmless (escaped_fragment u)"
  by (auto simp: escaped_fragment_def escape_harmless valid_encoded_harmless)

section \<open>Cleaned paths\<close>

definition component :: "string \<Rightarrow> bool" where
  "component c \<longleftrightarrow> c \<noteq> [] \<and> CHR ''/'' \<notin> set c"

lemma clean_step_components:
  assumes "CHR ''/'' \<notin> set c" "list_all component acc"
  shows "list_all component (clean_step rooted c acc)"
proof -
  have "component c" if "c \<noteq> []" using that assms(1) by (simp add: component_def)
  moreover have "component ''..''" by code_simp
  ultimately show ?thesis using assms(2) unfolding clean_step_def by (cases acc) (simp_all del: list.inject)
qed

lemma clean_steps_components:
  "list_all (\<lambda>c. CHR ''/'' \<notin> set c) cs \<Longrightarrow> list_all component acc \<Longrightarrow> list_all component (fold (clean_step rooted) cs acc)"
  by (induction cs arbitrary: acc) (simp_all add: clean_step_components)

lemma join_components:
  assumes "list_all component cs"
  shows "\<not> has_prefix (join_on ''/'' cs) ''/''"
proof (cases cs)
  case (Cons c l)
  with assms obtain b bs where "c = b # bs" "b \<noteq> CHR ''/''" by (cases c) (auto simp: component_def)
  with Cons show ?thesis by (cases l) (simp_all add: has_prefix_def)
qed (simp add: has_prefix_def)

lemma path_clean_rooted:
  assumes "has_prefix p ''/''"
  obtains t where "path_clean p = CHR ''/'' # t" "\<not> has_prefix t ''/''"
proof -
  define cs where "cs = rev (fold (clean_step True) (split_on (CHR ''/'') p) [])"
  have "list_all (\<lambda>c. CHR ''/'' \<notin> set c) (split_on (CHR ''/'') p)"
    unfolding list_all_iff using split_on_no_sep by blast
  then have "list_all component cs" unfolding cs_def list_all_rev by (rule clean_steps_components) simp
  then have "\<not> has_prefix (join_on ''/'' cs) ''/''" by (rule join_components)
  moreover have "path_clean p = CHR ''/'' # join_on ''/'' cs" using assms by (simp add: path_clean_def cs_def Let_def)
  ultimately show thesis using that by blast
qed

section \<open>What the parser accepts\<close>

lemma cut_char: "cut s [d] = Some (a, b) \<longleftrightarrow> s = a @ d # b \<and> d \<notin> set a"
proof (induction s arbitrary: a)
  case (Cons c s)
  show ?case
  proof (cases "c = d")
    case False
    have "cut (c # s) [d] = map_option (\<lambda>(a, b). (c # a, b)) (cut s [d])"
      using False by (cases "index_of s [d]") (simp_all add: cut_def has_prefix_def)
    with Cons False show ?thesis by (cases a) auto
  qed (cases a, auto simp: cut_def has_prefix_def)
qed (simp add: cut_def has_prefix_def)

lemma get_scheme_none: "get_scheme raw seen s = Some ([], r) \<Longrightarrow> r = raw"
  by (induction raw seen s rule: get_scheme.induct) (auto split: if_splits)

lemma split_queryD:
  assumes "split_query rest = (r, force, q)"
  shows "\<exists>t. rest = r @ t" "set q \<subseteq> set rest"
proof -
  have "has_suffix rest ''?'' \<Longrightarrow> rest = butlast rest @ ''?''" by (auto elim: has_suffixE)
  then show "\<exists>t. rest = r @ t" "set q \<subseteq> set rest"
    using assms cut_Some [of rest "''?''"] by (auto simp: split_query_def split: if_splits option.splits)
qed

definition raw_ok :: "url \<Rightarrow> bool" where
  "raw_ok u \<longleftrightarrow> (has_prefix (url_RawPath u) ''/'' \<or> CHR '':'' \<notin> set (hd (split_on (CHR ''/'') (url_RawPath u))))"

lemma parse_partD:
  assumes "parse_part authority raw = Some u" "url_Scheme u = []" "\<not> has_prefix raw ''//''"
  shows "raw_ok u \<and> list_all printable (url_RawQuery u) \<and> set (url_RawQuery u) \<subseteq> set raw \<and> url_Fragment u = []"
proof (cases "raw = ''*''")
  case True
  with assms(1) show ?thesis by (auto simp: parse_part_def empty_url_def raw_ok_def split: if_splits)
next
  case False
  from assms(1) have pr: "list_all printable raw" by (simp add: parse_part_def split: if_splits)
  obtain scheme rest where g: "get_scheme raw [] raw = Some (scheme, rest)"
    using assms(1) False pr by (auto simp: parse_part_def split: option.splits)
  obtain r force q where s: "split_query rest = (r, force, q)" by (cases "split_query rest")
  have p: "parse_part authority raw = (let u = empty_url\<lparr>url_Scheme := map lower_char scheme, url_ForceQuery := force, url_RawQuery := q\<rparr>
      in if \<not> has_prefix r ''/'' \<and> scheme \<noteq> [] then Some u
         else if \<not> has_prefix r ''/'' \<and> CHR '':'' \<in> set (hd (split_on (CHR ''/'') r)) then None
         else if has_prefix r ''//'' \<and> (scheme \<noteq> [] \<or> \<not> has_prefix r ''///'')
         then (let a = takeWhile (\<lambda>c. c \<noteq> CHR ''/'') (drop 2 r)
               in case authority a of None \<Rightarrow> None | Some host \<Rightarrow> set_path (drop (2 + length a) r) (u\<lparr>url_Host := host\<rparr>))
         else set_path r u)"
    using False pr g s by (simp add: parse_part_def)
  have "url_Scheme u = map lower_char scheme"
    using assms(1) unfolding p by (auto simp: Let_def set_path_def split: if_splits option.splits)
  with assms(2) have [simp]: "scheme = []" by simp
  with g have rest: "rest = raw" using get_scheme_none by blast
  from split_queryD [OF s] obtain t where t: "raw = r @ t" and q: "set q \<subseteq> set raw" unfolding rest by blast
  have "\<not> has_prefix r ''//''" using assms(3) t by (auto simp: has_prefix_def take_append)
  then have u: "set_path r (empty_url\<lparr>url_ForceQuery := force, url_RawQuery := q\<rparr>) = Some u"
    and c: "has_prefix r ''/'' \<or> CHR '':'' \<notin> set (hd (split_on (CHR ''/'') r))"
    using assms(1) unfolding p by (auto simp: Let_def empty_url_def split: if_splits)
  have "url_RawQuery u = q" "url_Fragment u = []" "url_RawPath u = [] \<or> url_RawPath u = r"
    using u by (auto simp: set_path_def empty_url_def)
  then show ?thesis using c q pr by (auto simp: raw_ok_def list_all_iff)
qed

section \<open>The redirect stays on the server\<close>

lemma hex_val_bound: "hex_val c = Some n \<Longrightarrow> n < 16"
  by (auto simp: hex_val_def Let_def split: if_splits)

lemma hex_val_slash:
  assumes "hex_val a = Some 2" "hex_val b = Some 15"
  shows "a = CHR ''2'' \<and> (b = CHR ''f'' \<or> b = CHR ''F'')"
proof -
  have "(of_char a :: nat) = of_char CHR ''2''" using assms(1) by (auto simp: hex_val_def Let_def split: if_splits)
  moreover have "(of_char b :: nat) = of_char CHR ''f'' \<or> (of_char b :: nat) = of_char CHR ''F''"
    using assms(2) by (auto simp: hex_val_def Let_def split: if_splits)
  ultimately show ?thesis by (simp only: of_char_eq_iff)
qed

text \<open>The first byte of a string that is decoded to a rooted path.\<close>

lemma unescape_slash:
  assumes "unescape EncodePath s = Some (CHR ''/'' # t)"
  shows "(\<exists>r. s = CHR ''/'' # r \<and> unescape EncodePath r = Some t) \<or> has_prefix s ''%2f'' \<or> has_prefix s ''%2F''"
proof (cases s)
  case (Cons c r)
  show ?thesis
  proof (cases "c = CHR ''%''")
    case True
    with assms Cons obtain a b s' x y where r: "r = a # b # s'" and h: "hex_val a = Some x" "hex_val b = Some y"
      and c: "char_of (16 * x + y) = CHR ''/''"
      by (auto split: list.splits option.splits)
    have "x < 16" "y < 16" using h hex_val_bound by blast+
    then have "16 * x + y = 47" using arg_cong [OF c, of "of_char :: char \<Rightarrow> nat"] by simp
    then have "x = 2" "y = 15" using \<open>y < 16\<close> by presburger+
    then show ?thesis using h hex_val_slash [of a b] Cons True r by (auto simp: has_prefix_def)
  qed (use assms Cons in auto)
qed (use assms in simp)

lemma escape_no_slash:
  assumes "\<not> has_prefix t ''/''"
  shows "\<not> has_prefix (escape EncodePath t) ''/''"
proof (cases t)
  case (Cons c s)
  with assms have "c \<noteq> CHR ''/''" by (simp add: has_prefix_def)
  with Cons show ?thesis by (simp add: escape_def escape_char_def has_prefix_def)
qed (simp add: escape_def has_prefix_def)

lemma percent_no_slash: "has_prefix s ''%2f'' \<or> has_prefix s ''%2F'' \<Longrightarrow> \<not> has_prefix s ''/''"
  by (cases s) (auto simp: has_prefix_def)

lemma escaped_path_rooted:
  assumes "raw_ok u" "url_Path u = CHR ''/'' # t" "\<not> has_prefix t ''/''"
  shows "(\<exists>e. escaped_path u = CHR ''/'' # e \<and> \<not> has_prefix e ''/'') \<or>
    (has_prefix (escaped_path u) ''%2f'' \<or> has_prefix (escaped_path u) ''%2F'') \<and> CHR '':'' \<notin> set (hd (split_on (CHR ''/'') (escaped_path u)))"
proof (cases "url_RawPath u \<noteq> [] \<and> valid_encoded EncodePath (url_RawPath u) \<and> unescape EncodePath (url_RawPath u) = Some (url_Path u)")
  case True
  then have e: "escaped_path u = url_RawPath u" by (simp add: escaped_path_def)
  have "unescape EncodePath (url_RawPath u) = Some (CHR ''/'' # t)" using True assms(2) by simp
  from unescape_slash [OF this] show ?thesis
  proof (elim disjE exE conjE)
    fix r assume r: "url_RawPath u = CHR ''/'' # r" "unescape EncodePath r = Some t"
    have "\<not> has_prefix r ''/''" using r(2) assms(3) by (cases r) (auto simp: has_prefix_def)
    then show ?thesis unfolding e r(1) by blast
  qed (use assms(1) e percent_no_slash [of "url_RawPath u"] in \<open>simp_all add: raw_ok_def\<close>)
next
  case False
  have "escape EncodePath (CHR ''/'' # t) = CHR ''/'' # escape EncodePath t"
    by (simp add: escape_def escape_char_def should_escape_def)
  moreover have "url_Path u \<noteq> ''*''" using assms(2) by simp
  ultimately have "escaped_path u = CHR ''/'' # escape EncodePath t"
    using False assms(2) unfolding escaped_path_def by argo
  then show ?thesis using escape_no_slash [OF assms(3)] by blast
qed

lemma url_string_local:
  assumes "raw_ok u" "url_Path u = CHR ''/'' # t" "\<not> has_prefix t ''/''" "list_all harmless (url_RawQuery u)"
  shows "(has_prefix (url_string u) ''/'' \<or> has_prefix (url_string u) ''%2f'' \<or> has_prefix (url_string u) ''%2F'') \<and>
    \<not> has_prefix (url_string u) ''//'' \<and> list_all harmless (url_string u)"
proof -
  define z where "z = (if url_ForceQuery u \<or> url_RawQuery u \<noteq> [] then CHR ''?'' # url_RawQuery u else [])
         @ (if url_Fragment u \<noteq> [] then CHR ''#'' # escaped_fragment u else [])"
  have "CHR '':'' \<notin> set (hd (split_on (CHR ''/'') (escaped_path u)))"
    using escaped_path_rooted [OF assms(1-3)] by auto
  then have s: "url_string u = escaped_path u @ z" by (simp add: url_string_def z_def)
  have "harmless CHR ''?''" "harmless CHR ''#''" by code_simp+
  then have z: "list_all harmless z" "\<not> has_prefix z ''/''"
    using assms(4) by (auto simp: z_def has_prefix_def escaped_fragment_harmless)
  consider e where "escaped_path u = CHR ''/'' # e" "\<not> has_prefix e ''/''"
    | "has_prefix (escaped_path u) ''%2f''" | "has_prefix (escaped_path u) ''%2F''"
    using escaped_path_rooted [OF assms(1-3)] by blast
  then have "(has_prefix (url_string u) ''/'' \<or> has_prefix (url_string u) ''%2f'' \<or> has_prefix (url_string u) ''%2F'') \<and>
    \<not> has_prefix (url_string u) ''//''"
  proof cases
    case 1
    then show ?thesis using z(2) by (cases e) (auto simp: s has_prefix_def)
  qed (auto simp: s elim!: has_prefixE, auto simp: has_prefix_def)
  then show ?thesis using z(1) by (simp add: s escaped_path_harmless)
qed

lemma url_parseD:
  assumes "url_parse authority raw = Some u" "url_Scheme u = []" "\<not> has_prefix raw ''//''"
  shows "raw_ok u \<and> list_all printable (url_RawQuery u) \<and> set (url_RawQuery u) \<subseteq> set raw"
proof (cases "cut raw ''#''")
  case None
  with assms parse_partD [of authority raw u] show ?thesis by (simp add: url_parse_def)
next
  case (Some p)
  then obtain a f where p: "cut raw ''#'' = Some (a, f)" by (cases p) simp
  then have raw: "raw = a @ ''#'' @ f" by (rule cut_Some)
  then have a: "\<not> has_prefix a ''//''" using assms(3) by (auto simp: has_prefix_def take_append)
  from assms(1) p obtain v where v: "parse_part authority a = Some v" "v = u \<or> set_fragment f v = Some u"
    by (auto simp: url_parse_def split: option.splits if_splits)
  then have "url_Scheme v = url_Scheme u \<and> url_RawPath v = url_RawPath u \<and> url_RawQuery v = url_RawQuery u"
    by (auto simp: set_fragment_def)
  with parse_partD [OF v(1) _ a] assms(2) raw show ?thesis by (auto simp: raw_ok_def)
qed

text \<open>
  A URL on this server: it begins with one slash (or with \<open>%2f\<close>, which a browser resolves below the current
  page), not with two, and has no backslash and no control character.
\<close>

definition local_url :: "string \<Rightarrow> bool" where
  "local_url r \<longleftrightarrow> (has_prefix r ''/'' \<or> has_prefix r ''%2f'' \<or> has_prefix r ''%2F'') \<and> \<not> has_prefix r ''//'' \<and> list_all harmless r"

lemma root_local: "local_url ''/''"
  by code_simp

lemma next_stays_local: "local_url (sanitize_next authority next)"
proof (cases "sanitize_next authority next = ''/''")
  case True
  then show ?thesis using root_local by simp
next
  case False
  let ?n = "trim_space next"
  from False obtain u where u: "url_parse authority ?n = Some u" "url_Scheme u = []" "\<not> has_prefix ?n ''//''" "CHR 0x5C \<notin> set ?n"
      "has_prefix (url_Path u) ''/''"
    and r: "sanitize_next authority next = url_string (u\<lparr>url_Path := path_clean (url_Path u)\<rparr>)"
    by (auto simp: sanitize_next_def Let_def split: if_splits option.splits)
  from u(5) obtain t where t: "path_clean (url_Path u) = CHR ''/'' # t" "\<not> has_prefix t ''/''" by (rule path_clean_rooted)
  note p = url_parseD [OF u(1-3)]
  have "c \<noteq> CHR 0x5C" if "c \<in> set (url_RawQuery u)" for c using that p u(4) by blast
  then have "(of_char c :: nat) \<noteq> 92" if "c \<in> set (url_RawQuery u)" for c
    using that of_char_eq_iff [of c "CHR 0x5C", where ?'a = nat] by auto
  then have "list_all harmless (url_RawQuery u)" using p by (simp add: list_all_iff harmless_def)
  then show ?thesis
    using url_string_local [of "u\<lparr>url_Path := path_clean (url_Path u)\<rparr>" t] p t unfolding r by (simp add: raw_ok_def local_url_def)
qed

section \<open>A page of the server is kept\<close>

lemma strip_one_visible:
  assumes "list_all (\<lambda>p. p \<noteq> [] \<and> \<not> visible (hd p)) codes" "list_all visible s"
  shows "strip_one codes s = s"
proof -
  have "\<not> has_prefix s p" if "p \<in> set codes" for p
  proof
    assume "has_prefix s p"
    then obtain t where "s = p @ t" by (rule has_prefixE)
    with assms that show False by (cases p) (auto simp: list_all_iff)
  qed
  then have "find (has_prefix s) codes = None" by (simp add: find_None_iff)
  then show ?thesis by (simp add: strip_one_def)
qed

lemma trim_left_visible:
  "list_all (\<lambda>p. p \<noteq> [] \<and> \<not> visible (hd p)) codes \<Longrightarrow> list_all visible s \<Longrightarrow> trim_left codes n s = s"
  by (cases n) (simp_all add: strip_one_visible)

lemma trim_space_visible:
  assumes "list_all visible s"
  shows "trim_space s = s"
proof -
  have "list_all (\<lambda>p. p \<noteq> [] \<and> \<not> visible (hd p)) space_codes" "list_all (\<lambda>p. p \<noteq> [] \<and> \<not> visible (hd p)) (map rev space_codes)"
    by code_simp+
  then show ?thesis using assms by (simp add: trim_space_def trim_left_visible)
qed

lemma escape_plain: "list_all (\<lambda>c. \<not> should_escape md c) s \<Longrightarrow> escape md s = s"
  by (induction s) (simp_all add: escape_def escape_char_def)

lemma unescape_plain: "list_all (\<lambda>c. \<not> should_escape md c) s \<Longrightarrow> unescape md s = Some s"
  using unescape_escape [of md s] by (simp add: escape_plain)

lemma cut_None: "cut s [d] = None \<longleftrightarrow> d \<notin> set s"
  using cut_char [of s d] by (metis not_Some_eq split_list_first surj_pair in_set_conv_decomp)

text \<open>A path that is clean and needs no escapes, with a query that may be absent.\<close>

definition page :: "string \<Rightarrow> string \<Rightarrow> bool" where
  "page p q \<longleftrightarrow> has_prefix p ''/'' \<and> path_clean p = p \<and> list_all (\<lambda>c. \<not> should_escape EncodePath c) p \<and>
     list_all (\<lambda>c. \<not> should_escape EncodeFragment c) q"

definition page_url :: "string \<Rightarrow> string \<Rightarrow> string" where
  "page_url p q = p @ (if q = [] then [] else CHR ''?'' # q)"

lemma split_query_page:
  assumes "CHR ''?'' \<notin> set p"
  shows "split_query (page_url p q) = (p, False, q)"
proof (cases "q = []")
  case True
  moreover have "cut p ''?'' = None" using assms cut_None by blast
  ultimately show ?thesis using assms by (simp add: split_query_def page_url_def count_notin)
next
  case False
  have "cut (p @ CHR ''?'' # q) ''?'' = Some (p, q)" using assms cut_char by blast
  moreover have "count_list (p @ CHR ''?'' # q) (CHR ''?'') \<noteq> 1" if "has_suffix (p @ CHR ''?'' # q) ''?''"
  proof -
    from that obtain t where "p @ CHR ''?'' # q = t @ ''?''" by (rule has_suffixE)
    then have "last q = CHR ''?''" using False by (metis last_ConsR last_appendR last_snoc list.distinct(1))
    then have "CHR ''?'' \<in> set q" using False last_in_set by metis
    then have "count_list q (CHR ''?'') \<noteq> 0" by (simp add: count_list_0_iff)
    then show ?thesis by simp
  qed
  ultimately show ?thesis using False by (auto simp: split_query_def page_url_def)
qed

lemma sanitize_next_keeps:
  assumes "page p q"
  shows "sanitize_next authority (page_url p q) = page_url p q"
proof -
  from assms have p: "has_prefix p ''/''" "path_clean p = p" "list_all (\<lambda>c. \<not> should_escape EncodePath c) p"
    and q: "list_all (\<lambda>c. \<not> should_escape EncodeFragment c) q" by (simp_all add: page_def)
  from p(1) obtain t where t: "p = CHR ''/'' # t" "\<not> has_prefix t ''/''" using path_clean_rooted p(2) by metis
  let ?s = "page_url p q"
  have "visible CHR ''?''" by code_simp
  then have vis: "list_all visible ?s" using p(3) q plain_visible unfolding list_all_iff page_url_def by auto
  then have pr: "list_all printable ?s" by (auto simp: list_all_iff visible_def printable_def Let_def)
  have no: "CHR ''#'' \<notin> set ?s" "CHR 0x5C \<notin> set ?s"
    using vis by (auto simp: list_all_iff visible_def Let_def)
  have "should_escape EncodePath CHR ''?''" by code_simp
  then have "CHR ''?'' \<notin> set p" using p(3) unfolding list_all_iff by blast
  note sq = split_query_page [OF this, of q]
  have slash: "has_prefix ?s ''/''" "\<not> has_prefix ?s ''//''" "?s \<noteq> ''*''" "\<not> has_prefix p ''//''"
    using t by (cases t; auto simp: page_url_def has_prefix_def)+
  have "get_scheme ?s [] ?s = Some ([], ?s)" using t by (simp add: page_url_def alnum_def)
  moreover have "set_path p (empty_url\<lparr>url_RawQuery := q\<rparr>) = Some (empty_url\<lparr>url_Path := p, url_RawQuery := q\<rparr>)"
    using p(3) by (simp add: set_path_def escape_plain unescape_plain empty_url_def)
  ultimately have "parse_part authority ?s = Some (empty_url\<lparr>url_Path := p, url_RawQuery := q\<rparr>)"
    using pr slash p(1) sq by (simp add: parse_part_def empty_url_def)
  then have "url_parse authority ?s = Some (empty_url\<lparr>url_Path := p, url_RawQuery := q\<rparr>)"
    using cut_None [of ?s "CHR ''#''"] no(1) by (simp add: url_parse_def)
  moreover have "url_string (empty_url\<lparr>url_Path := p, url_RawQuery := q\<rparr>) = ?s"
    using t p(3) by (simp add: url_string_def escaped_path_def empty_url_def escape_plain page_url_def)
  moreover have "p \<noteq> [] \<and> p \<noteq> ''.''" "?s \<noteq> []" using t by (simp_all add: page_url_def)
  ultimately show ?thesis
    using slash no(2) p(1,2) trim_space_visible [OF vis] by (simp add: sanitize_next_def empty_url_def)
qed

end
