(* ===== verification/Login.thy ===== *)
theory Login
  imports Next_Url Course_Service
begin

text \<open>
  Signing in and out: \<open>web/auth/auth.go\<close> and \<open>web/auth/util.go\<close>.  A handler gives the response it writes: the
  status, the cookies it sets and where it redirects to; \<open>None\<close> is a panic, which the HTTP server recovers.
\<close>

section \<open>Requests and responses\<close>

datatype same_site = NoSameSite | Lax | Strict

record http_cookie =
  hc_Name :: string
  hc_Value :: string
  hc_Domain :: string
  hc_Path :: string
  hc_MaxAge :: int
  hc_Expires :: time
  hc_HttpOnly :: bool
  hc_Secure :: bool
  hc_SameSite :: same_site

record http_response =
  re_Status :: nat
  re_Cookies :: "http_cookie list"
  re_Location :: "string option"

text \<open>
  What the handlers read of a request: the method, the error of \<open>ParseForm\<close>, the values of the form or of the
  query, and the cookies.
\<close>

record http_request =
  rq_Method :: string
  rq_FormError :: "string option"
  rq_Value :: "string \<Rightarrow> string"
  rq_Cookies :: "(string \<times> string) list"

record oauth_token =
  tk_AccessToken :: string
  tk_RefreshToken :: string

record external_user =
  eu_ID :: u64
  eu_Email :: string
  eu_Name :: string
  eu_Login :: string
  eu_AvatarURL :: string

text \<open>
  The OAuth library, the HTTP client (an error, or the status with the body, each of which may fail to be read or
  closed), the JSON decoder (of a pointer, that \<open>null\<close> leaves nil) and the clock.
\<close>

record login_env =
  le_secret :: string
  le_domain :: string
  le_now :: time
  le_authority :: "string \<Rightarrow> string option"
  le_auth_url :: "string \<Rightarrow> string"
  le_exchange :: "string \<Rightarrow> string + oauth_token"
  le_get_user :: "string \<Rightarrow> string + (nat \<times> (string + string) \<times> string option)"
  le_decode :: "string \<Rightarrow> string + external_user option"

definition get_url :: "string \<Rightarrow> string \<Rightarrow> string" where
  "get_url baseURL route = ''https://'' @ baseURL @ route"

definition nextCookieName :: string where
  "nextCookieName = ''qf_next''"

definition query_escape :: "string \<Rightarrow> string" where
  "query_escape s = escape EncodeQuery s"

definition query_unescape :: "string \<Rightarrow> string option" where
  "query_unescape s = unescape EncodeQuery s"

definition of_auth_cookie :: "cookie \<Rightarrow> http_cookie" where
  "of_auth_cookie c =
     \<lparr>hc_Name = ck_Name c, hc_Value = ck_Value c, hc_Domain = ck_Domain c, hc_Path = ck_Path c, hc_MaxAge = 0,
      hc_Expires = ck_Expires c,
      hc_HttpOnly = ck_HttpOnly c, hc_Secure = ck_Secure c, hc_SameSite = if ck_SameSiteStrict c then Strict else NoSameSite\<rparr>"

definition delete_cookie :: "login_env \<Rightarrow> string \<Rightarrow> same_site \<Rightarrow> http_cookie" where
  "delete_cookie env name st =
     \<lparr>hc_Name = name, hc_Value = [], hc_Domain = le_domain env, hc_Path = ''/'', hc_MaxAge = -1, hc_Expires = 0,
      hc_HttpOnly = True, hc_Secure = True, hc_SameSite = st\<rparr>"

definition authentication_error :: http_response where
  "authentication_error = \<lparr>re_Status = 401, re_Cookies = [], re_Location = None\<rparr>"

section \<open>The handlers\<close>

definition oauth2_logout :: "login_env \<Rightarrow> http_response" where
  "oauth2_logout env = \<lparr>re_Status = 302, re_Cookies = [delete_cookie env CookieName NoSameSite], re_Location = Some ''/''\<rparr>"

definition next_cookie :: "login_env \<Rightarrow> string \<Rightarrow> http_cookie" where
  "next_cookie env nextURL =
     \<lparr>hc_Name = nextCookieName, hc_Value = query_escape nextURL, hc_Domain = le_domain env, hc_Path = ''/'', hc_MaxAge = 300,
      hc_Expires = le_now env + 5 * 60 * 1000000000, hc_HttpOnly = True, hc_Secure = True, hc_SameSite = Lax\<rparr>"

definition oauth2_login :: "login_env \<Rightarrow> http_request \<Rightarrow> http_response" where
  "oauth2_login env rq =
     (if rq_Method rq \<noteq> ''GET'' then authentication_error
      else \<lparr>re_Status = 307, re_Cookies = [next_cookie env (sanitize_next (le_authority env) (rq_Value rq ''next''))],
            re_Location = Some (le_auth_url env (le_secret env))\<rparr>)"

definition extract_access_token :: "login_env \<Rightarrow> http_request \<Rightarrow> string + oauth_token" where
  "extract_access_token env rq =
     (case rq_FormError rq of
        Some e \<Rightarrow> Inl e
      | None \<Rightarrow>
          if rq_Value rq ''state'' \<noteq> le_secret env then Inl ''incorrect callback secret''
          else if rq_Value rq ''code'' = [] then Inl ''got empty code on callback''
          else (case le_exchange env (rq_Value rq ''code'') of
                  Inl e \<Rightarrow> Inl (''failed to exchange access token: '' @ e)
                | Inr token \<Rightarrow> Inr token))"

text \<open>The deferred function replaces no earlier error by that of closing the body.\<close>

definition fetch_external_user :: "login_env \<Rightarrow> oauth_token \<Rightarrow> string + external_user option" where
  "fetch_external_user env token =
     (case le_get_user env (tk_AccessToken token) of
        Inl e \<Rightarrow> Inl (''failed to send user request: '' @ e)
      | Inr (st, body, close) \<Rightarrow>
          if st \<noteq> 200 then Inl ''unexpected OAuth provider response''
          else (case body of
                  Inl e \<Rightarrow> Inl (''failed to read authentication response: '' @ e)
                | Inr b \<Rightarrow>
                    (case le_decode env b of
                       Inl e \<Rightarrow> Inl (''failed to decode user information: '' @ e)
                     | Inr ext \<Rightarrow> (case close of Some e \<Rightarrow> Inl e | None \<Rightarrow> Inr ext))))"

definition check_external_user :: "external_user \<Rightarrow> string option" where
  "check_external_user ext = (if eu_Login ext = [] then Some ''missing login'' else None)"

definition new_user :: "oauth_token \<Rightarrow> external_user \<Rightarrow> user" where
  "new_user token ext = zero_user\<lparr>u_Name := eu_Name ext, u_Email := eu_Email ext, u_AvatarURL := eu_AvatarURL ext,
     u_Login := eu_Login ext, u_ScmRemoteID := eu_ID ext, u_RefreshToken := tk_RefreshToken token\<rparr>"

definition find_external :: "'d course_db \<Rightarrow> external_user \<Rightarrow> 'd \<Rightarrow> (string + user) \<times> 'd" where
  "find_external db ext d = (case cq_user_by_remote db (eu_ID ext) d of Inl e \<Rightarrow> Inl ''record not found'' | Inr usr \<Rightarrow> Inr usr, d)"

definition fetch_user :: "'d course_db \<Rightarrow> oauth_token \<Rightarrow> external_user \<Rightarrow> 'd \<Rightarrow> (string + user) \<times> 'd" where
  "fetch_user db token ext d =
     (case cq_user_by_remote db (eu_ID ext) d of
        Inr usr \<Rightarrow>
          (case update_user db (usr\<lparr>u_RefreshToken := tk_RefreshToken token\<rparr>) d of
             Inl e \<Rightarrow> (Inl ''failed to update access token for user'', d)
           | Inr d \<Rightarrow> find_external db ext d)
      | Inl e \<Rightarrow>
          if e \<noteq> RecordNotFound then (Inl ''failed to fetch user for remote identity'', d)
          else (case check_external_user ext of
                  Some e \<Rightarrow> (Inl (''cannot create account for user: '' @ e), d)
                | None \<Rightarrow>
                    (case create_user db (new_user token ext) d of
                       Inl e \<Rightarrow> (Inl ''failed to create remote identity for user'', d)
                     | Inr (usr, d) \<Rightarrow> find_external db ext d)))"

text \<open>Where the user goes after signing in: the page in the cookie, which is deleted, or the root.\<close>

definition after_login :: "login_env \<Rightarrow> http_request \<Rightarrow> http_cookie list \<times> string" where
  "after_login env rq =
     (case map_of (rq_Cookies rq) nextCookieName of
        None \<Rightarrow> ([], ''/'')
      | Some v \<Rightarrow>
          ([delete_cookie env nextCookieName Lax],
           case query_unescape v of None \<Rightarrow> ''/'' | Some n \<Rightarrow> sanitize_next (le_authority env) n))"

definition oauth2_callback ::
    "login_env \<Rightarrow> jwt \<Rightarrow> string \<Rightarrow> 'd user_db \<Rightarrow> 'd course_db \<Rightarrow> http_request \<Rightarrow> 'd \<Rightarrow> http_response option \<times> 'd" where
  "oauth2_callback env j jwtSecret udb db rq d =
     (if rq_Method rq \<noteq> ''GET'' then (Some authentication_error, d)
      else case extract_access_token env rq of
             Inl e \<Rightarrow> (Some authentication_error, d)
           | Inr token \<Rightarrow>
               (case fetch_external_user env token of
                  Inl e \<Rightarrow> (Some authentication_error, d)
                | Inr None \<Rightarrow> (None, d)
                | Inr (Some ext) \<Rightarrow>
                    (case fetch_user db token ext d of
                       (Inl e, d) \<Rightarrow> (Some authentication_error, d)
                     | (Inr usr, d) \<Rightarrow>
                         (case new_auth_cookie j udb jwtSecret (le_domain env) (le_now env) d (u_ID usr) of
                            Inl e \<Rightarrow> (Some authentication_error, d)
                          | Inr c \<Rightarrow>
                              let (cookies, redirectURL) = after_login env rq
                              in (Some \<lparr>re_Status = 302, re_Cookies = of_auth_cookie c # cookies, re_Location = Some redirectURL\<rparr>, d)))))"

section \<open>Properties\<close>

lemma after_login_local: "local_url (snd (after_login env rq))"
  by (simp add: after_login_def root_local next_stays_local split: option.split)

lemma oauth2_callbackE:
  assumes "oauth2_callback env j jwtSecret udb db rq d = (Some resp, d')" "resp \<noteq> authentication_error"
  obtains token ext usr c where "rq_Method rq = ''GET''" "extract_access_token env rq = Inr token"
    "fetch_external_user env token = Inr (Some ext)" "fetch_user db token ext d = (Inr usr, d')"
    "new_auth_cookie j udb jwtSecret (le_domain env) (le_now env) d' (u_ID usr) = Inr c"
    "resp = \<lparr>re_Status = 302, re_Cookies = of_auth_cookie c # fst (after_login env rq), re_Location = Some (snd (after_login env rq))\<rparr>"
  using assms
  by (auto simp: oauth2_callback_def split: if_splits sum.splits option.splits prod.splits)

text \<open>C36: Signing in returns to the page the user was on, and never leaves the server: every redirect of the callback is
  a URL on this server, and when the browser brings back the cookie that the login set for a clean page with a plain
  query, it is that page.\<close>

theorem login_returns_to_page:
  assumes "oauth2_callback env j jwtSecret udb db rq d = (Some resp, d')" "re_Location resp = Some r"
  shows "local_url r \<and>
    (rq_Method login = ''GET'' \<and> rq_Value login ''next'' = page_url p q \<and> page p q \<and>
     map_of (rq_Cookies rq) nextCookieName = Some (hc_Value (hd (re_Cookies (oauth2_login env login)))) \<longrightarrow> r = page_url p q)"
proof -
  have "resp \<noteq> authentication_error" using assms(2) by (auto simp: authentication_error_def)
  from oauth2_callbackE [OF assms(1) this]
  have "re_Location resp = Some (snd (after_login env rq))" by (metis http_response.select_convs(3))
  then have r: "r = snd (after_login env rq)" using assms(2) by simp
  have "r = page_url p q" if "rq_Method login = ''GET''" "rq_Value login ''next'' = page_url p q" "page p q"
    "map_of (rq_Cookies rq) nextCookieName = Some (hc_Value (hd (re_Cookies (oauth2_login env login))))"
    using that sanitize_next_keeps [OF that(3)]
    by (simp add: r after_login_def oauth2_login_def next_cookie_def query_escape_def query_unescape_def)
  then show ?thesis using after_login_local [of env rq] unfolding r [symmetric] by blast
qed

lemma fetch_userE:
  assumes "fetch_user db token ext d = (Inr usr, d')"
  shows "cq_user_by_remote db (eu_ID ext) d' = Inr usr \<and>
    ((\<exists>old. cq_user_by_remote db (eu_ID ext) d = Inr old \<and> update_user db (old\<lparr>u_RefreshToken := tk_RefreshToken token\<rparr>) d = Inr d') \<or>
     (\<exists>u. cq_user_by_remote db (eu_ID ext) d = Inl RecordNotFound \<and> eu_Login ext \<noteq> [] \<and> create_user db (new_user token ext) d = Inr (u, d')))"
proof -
  have found: "cq_user_by_remote db (eu_ID ext) x' = Inr usr \<and> x = x'" if "find_external db ext x = (Inr usr, x')" for x x'
    using that by (auto simp: find_external_def split: sum.splits)
  show ?thesis using assms found
    by (fastforce simp: fetch_user_def check_external_user_def split: sum.splits if_splits prod.splits)
qed

text \<open>C2: A session starts only for the user that the provider names.  If the callback sets the session cookie, the
  request carried the state secret and a code that the provider exchanged for a token, the provider named with it an
  account, the user in the database with that account is the one whose claims the cookie carries, signed, and the
  database has only a new refresh token for a known user, or one new user with a login for an unknown one.\<close>

theorem callback_authenticates:
  assumes "oauth2_callback env j jwtSecret udb db rq d = (Some resp, d')"
    and "x \<in> set (re_Cookies resp)" "hc_Name x = CookieName"
  shows "rq_Method rq = ''GET'' \<and> rq_Value rq ''state'' = le_secret env \<and> rq_Value rq ''code'' \<noteq> [] \<and>
    (\<exists>token ext usr claims. le_exchange env (rq_Value rq ''code'') = Inr token \<and>
       fetch_external_user env token = Inr (Some ext) \<and>
       cq_user_by_remote db (eu_ID ext) d' = Inr usr \<and>
       new_claims j udb (le_now env) d' (u_ID usr) = Inr claims \<and> cl_UserID claims = u_ID usr \<and>
       jwt_Sign j jwtSecret claims = Inr (hc_Value x) \<and>
       ((\<exists>old. cq_user_by_remote db (eu_ID ext) d = Inr old \<and> update_user db (old\<lparr>u_RefreshToken := tk_RefreshToken token\<rparr>) d = Inr d') \<or>
        (\<exists>u. cq_user_by_remote db (eu_ID ext) d = Inl RecordNotFound \<and> eu_Login ext \<noteq> [] \<and> create_user db (new_user token ext) d = Inr (u, d'))))"
proof -
  have "resp \<noteq> authentication_error" using assms(2) by (auto simp: authentication_error_def)
  from oauth2_callbackE [OF assms(1) this] obtain token ext usr c where get: "rq_Method rq = ''GET''"
    and t: "extract_access_token env rq = Inr token" and e: "fetch_external_user env token = Inr (Some ext)"
    and u: "fetch_user db token ext d = (Inr usr, d')"
    and c: "new_auth_cookie j udb jwtSecret (le_domain env) (le_now env) d' (u_ID usr) = Inr c"
    and resp: "resp = \<lparr>re_Status = 302, re_Cookies = of_auth_cookie c # fst (after_login env rq), re_Location = Some (snd (after_login env rq))\<rparr>"
    by metis
  have "hc_Name y = nextCookieName" if "y \<in> set (fst (after_login env rq))" for y
    using that by (auto simp: after_login_def delete_cookie_def split: option.splits)
  moreover have "nextCookieName \<noteq> CookieName" by (simp add: nextCookieName_def CookieName_def)
  ultimately have x: "x = of_auth_cookie c" using assms(2,3) by (auto simp: resp)
  obtain claims where claims: "new_claims j udb (le_now env) d' (u_ID usr) = Inr claims"
    using c by (cases "new_claims j udb (le_now env) d' (u_ID usr)") (auto simp: new_auth_cookie_def)
  then have cl: "new_claims j udb (le_now env) d' (u_ID usr) = Inr claims" "jwt_Sign j jwtSecret claims = Inr (ck_Value c)"
    using c by (cases "jwt_Sign j jwtSecret claims"; auto simp: new_auth_cookie_def)+
  have "cl_UserID claims = u_ID usr" using cl(1) by (auto simp: new_claims_def bind_res_Inr_iff)
  moreover have "rq_Value rq ''state'' = le_secret env \<and> rq_Value rq ''code'' \<noteq> [] \<and> le_exchange env (rq_Value rq ''code'') = Inr token"
    using t by (auto simp: extract_access_token_def split: option.splits if_splits sum.splits)
  ultimately show ?thesis using get e cl fetch_userE [OF u] unfolding x by (auto simp: of_auth_cookie_def)
qed

section \<open>A concrete sign-in\<close>

definition sample_login :: login_env where
  "sample_login =
     \<lparr>le_secret = ''s'', le_domain = ''qf.org'', le_now = 5, le_authority = Some, le_auth_url = \<lambda>s. ''https://github.com/login'',
      le_exchange = \<lambda>code. Inr \<lparr>tk_AccessToken = ''a'', tk_RefreshToken = ''r''\<rparr>,
      le_get_user = \<lambda>t. Inr (200, Inr ''body'', None),
      le_decode = \<lambda>b. Inr (Some \<lparr>eu_ID = 9, eu_Email = [], eu_Name = [], eu_Login = ''ann'', eu_AvatarURL = []\<rparr>)\<rparr>"

definition sample_users :: "roles course_db" where
  "sample_users = role_course_db\<lparr>cq_user_by_remote := \<lambda>r R. Inr (zero_user\<lparr>u_ID := 7, u_ScmRemoteID := r\<rparr>)\<rparr>"

definition sample_udb :: "roles user_db" where
  "sample_udb = \<lparr>db_GetUser = \<lambda>d i. Inl [], db_GetUsers = \<lambda>d. Inr [], db_GetUserWithEnrollments = \<lambda>d i. Inr (zero_user\<lparr>u_ID := i\<rparr>, []),
     db_UpdateUser = \<lambda>d u. (None, d)\<rparr>"

definition sample_jwt :: jwt where
  "sample_jwt = \<lparr>jwt_Sign = \<lambda>s c. Inr ''tok'', jwt_Parse = \<lambda>s t tok. Rejected [], jwt_Verify = \<lambda>s tok. None, jwt_NumericDate = id\<rparr>"

definition form :: "string \<Rightarrow> string" where
  "form k = (if k = ''state'' then ''s'' else if k = ''code'' then ''c'' else if k = ''next'' then ''/course/1?tab=2'' else [])"

definition sample_request :: "(string \<times> string) list \<Rightarrow> http_request" where
  "sample_request cookies = \<lparr>rq_Method = ''GET'', rq_FormError = None, rq_Value = form, rq_Cookies = cookies\<rparr>"

definition sample_roles :: roles where
  "sample_roles = \<lparr>rl_status = Map.empty, rl_creator = Map.empty\<rparr>"

definition sample_callback :: "http_response option \<times> roles" where
  "sample_callback = oauth2_callback sample_login sample_jwt ''key'' sample_udb sample_users
     (sample_request [(nextCookieName, hc_Value (hd (re_Cookies (oauth2_login sample_login (sample_request [])))))]) sample_roles"

definition sample_response :: http_response where
  "sample_response = the (fst sample_callback)"

lemma sample_answer:
  "sample_callback = (Some sample_response, snd sample_callback)" "re_Location sample_response = Some ''/course/1?tab=2''"
  "map hc_Name (re_Cookies sample_response) = [CookieName, nextCookieName]"
proof -
  have "fst sample_callback \<noteq> None" by code_simp
  then show "sample_callback = (Some sample_response, snd sample_callback)" by (simp add: sample_response_def prod_eq_iff)
  show "re_Location sample_response = Some ''/course/1?tab=2''" by code_simp
  show "map hc_Name (re_Cookies sample_response) = [CookieName, nextCookieName]" by code_simp
qed

lemma login_returns_to_page_witness:
  "re_Location sample_response = Some (page_url ''/course/1'' ''tab=2'') \<and> local_url ''/course/1?tab=2''"
proof -
  have "page ''/course/1'' ''tab=2''" by code_simp
  moreover have "form ''next'' = page_url ''/course/1'' ''tab=2''" by code_simp
  moreover note login_returns_to_page [OF sample_answer(1) [unfolded sample_callback_def] sample_answer(2),
      of "sample_request []" "''/course/1''" "''tab=2''"]
  ultimately show ?thesis using sample_answer(2) by (auto simp: sample_request_def)
qed

lemma callback_authenticates_witness:
  "\<exists>claims. cl_UserID claims = 7 \<and> jwt_Sign sample_jwt ''key'' claims = Inr (hc_Value (hd (re_Cookies sample_response)))"
proof -
  let ?x = "hd (re_Cookies sample_response)"
  have "re_Cookies sample_response \<noteq> []" using sample_answer(3) by auto
  then have "?x \<in> set (re_Cookies sample_response)" "hc_Name ?x = CookieName"
    using sample_answer(3) by (cases "re_Cookies sample_response"; simp)+
  from callback_authenticates [OF sample_answer(1) [unfolded sample_callback_def] this] show ?thesis
    by (auto simp: sample_users_def)
qed

end
