(* ===== verification/Submission_Service.thy ===== *)
theory Submission_Service
  imports Hooks Group_Service
begin

text \<open>
  Submissions and assignments: \<open>web/rebuild.go\<close>, the claims that \<open>web/access_control.go\<close> reads, and the handlers
  of \<open>web/quickfeed_service.go\<close> on submissions, reviews, feedback, assignments and repositories, with those that only
  read users, courses, enrollments and groups.  What a rebuild shares with a push is in \<open>Hooks\<close>; \<open>s\<close> and \<open>hk\<close> are
  two records of statements on the same database.
\<close>

section \<open>Errors of the interface\<close>

datatype api_code = NotFoundCode | InvalidArgumentCode | FailedPreconditionCode | ContextCode | Aborted

type_synonym api_error = "api_code \<times> string"

definition respond :: "api_code \<Rightarrow> string \<Rightarrow> 'e + 'a \<Rightarrow> api_error + 'a" where
  "respond code msg r = (case r of Inl e \<Rightarrow> Inl (code, msg) | Inr x \<Rightarrow> Inr x)"

text \<open>A panic is not answered: \<open>net/http\<close> drops the request, and in a goroutine of its own the process ends.\<close>

definition respond_act :: "api_code \<Rightarrow> string \<Rightarrow> ('d, 's, 'a) hook \<Rightarrow> 'd \<times> 's \<times> process_vars \<Rightarrow> (api_error + 'a) \<times> 'd \<times> 's \<times> process_vars" where
  "respond_act code msg m w = (case m w of (Inl (Panicked p), w) \<Rightarrow> (Inl (Aborted, p), w) | (r, w) \<Rightarrow> (respond code msg r, w))"

definition scmConnectErr :: api_error where
  "scmConnectErr = (NotFoundCode, ''unable to connect to the GitHub organization for the course'')"

section \<open>Claims of the context\<close>

text \<open>No claims in the context are \<open>None\<close>; a course that is not in the map has the status NONE.\<close>

definition claims_user_id :: "claims option \<Rightarrow> u64" where
  "claims_user_id cl = (case cl of None \<Rightarrow> 0 | Some c \<Rightarrow> cl_UserID c)"

definition claims_course_status :: "claims option \<Rightarrow> u64 \<Rightarrow> user_status" where
  "claims_course_status cl courseID =
     (case cl of None \<Rightarrow> Enrollment_NONE | Some c \<Rightarrow> got Enrollment_NONE (cl_Courses c courseID))"

definition claims_is_teacher :: "claims option \<Rightarrow> u64 \<Rightarrow> bool" where
  "claims_is_teacher cl courseID =
     (case cl of None \<Rightarrow> False | Some c \<Rightarrow> got Enrollment_NONE (cl_Courses c courseID) = Enrollment_TEACHER)"

section \<open>Rebuilding a submission\<close>

definition look_up_name :: "('d, 's) hooks \<Rightarrow> submission \<Rightarrow> 'd \<Rightarrow> string" where
  "look_up_name hk sub d =
     (if 0 < s_groupID sub
      then (case get_group (edb (hk_courses hk)) (s_groupID sub) d of Inl e \<Rightarrow> [] | Inr g \<Rightarrow> g_name g)
      else (case get_user (hk_courses hk) (s_userID sub) d of Inl e \<Rightarrow> [] | Inr usr \<Rightarrow> u_Login usr))"

definition rebuild_repo :: "'d service \<Rightarrow> course \<Rightarrow> assignment \<Rightarrow> submission \<Rightarrow> 'd \<Rightarrow> db_error + repository" where
  "rebuild_repo s course a sub d =
     (if a_isGroupLab a \<and> 0 < s_groupID sub then get_repo s course (s_groupID sub) R_GROUP d
      else get_repo s course (s_userID sub) R_USER d)"

definition rebuild_run_data :: "course \<Rightarrow> assignment \<Rightarrow> repository \<Rightarrow> submission \<Rightarrow> string \<Rightarrow> run_data" where
  "rebuild_run_data course a repo sub name = \<lparr>rd_Course = course, rd_Assignment = a, rd_Repo = repo, rd_EnvVarsFn = None,
     rd_BranchName = [], rd_CommitID = s_commitHash sub, rd_JobOwner = name, rd_Rebuild = True\<rparr>"

text \<open>The timeout of the context reaches the runner only; \<open>te_run\<close> says what it does.\<close>

definition internal_rebuild_submission :: "'d service \<Rightarrow> ('d, 's) hooks \<Rightarrow> rebuild_request \<Rightarrow> ('d, 's, unit) hook" where
  "internal_rebuild_submission s hk request =
     bnd (read_db (get_submission (sdb (edb (hk_courses hk))) (zero_submission\<lparr>s_ID := brq_SubmissionID request\<rparr>))) (\<lambda>sub.
     bnd (read_db (get_assignment (tadb (hk_tasks hk)) (zero_assignment\<lparr>a_ID := brq_AssignmentID request\<rparr>))) (\<lambda>a.
     bnd (read_db (get_course (hk_courses hk) (a_CourseID a))) (\<lambda>cm.
     bnd (read_db (\<lambda>d. Inr (look_up_name hk sub d))) (\<lambda>name.
     bnd (read_db (rebuild_repo s (cm_course cm) a sub)) (\<lambda>repo.
     bnd (on_github (hk_get_scm hk (c_ScmOrganizationName (cm_course cm)))) (\<lambda>_.
       let r = rebuild_run_data (cm_course cm) a repo sub name in
       bnd (call_run_tests hk r) (\<lambda>results.
       bnd (record_on_db hk r (Some results)) (\<lambda>submission.
         send_submission hk r submission))))))))"

text \<open>
  \<open>internalRebuildAllSubmissions\<close> when the rebuilds follow each other: \<open>sched\<close> is the order in which they get past
  the semaphore.  \<open>Rebuild_Pool\<close> has the goroutines.  An error is logged and counted, a panic ends the process.
\<close>

definition rebuild_request_for :: "rebuild_request \<Rightarrow> submission \<Rightarrow> rebuild_request" where
  "rebuild_request_for request sub =
     \<lparr>brq_CourseID = 0, brq_AssignmentID = brq_AssignmentID request, brq_SubmissionID = s_ID sub\<rparr>"

definition internal_rebuild_all_submissions ::
    "'d service \<Rightarrow> ('d, 's) hooks \<Rightarrow> (submission list \<Rightarrow> submission list) \<Rightarrow> rebuild_request \<Rightarrow> ('d, 's, unit) hook" where
  "internal_rebuild_all_submissions s hk sched request =
     bnd (read_db (get_submissions (sdb (edb (hk_courses hk))) (zero_submission\<lparr>s_AssignmentID := brq_AssignmentID request\<rparr>)))
       (\<lambda>subs. for_each (\<lambda>sub. logged (internal_rebuild_submission s hk (rebuild_request_for request sub))) (sched subs))"

definition rebuild_submissions_handler where
  "rebuild_submissions_handler s hk sched request =
     (if 0 < brq_SubmissionID request
      then respond_act InvalidArgumentCode ''failed to rebuild submission'' (internal_rebuild_submission s hk request)
      else respond_act InvalidArgumentCode ''failed to rebuild submissions'' (internal_rebuild_all_submissions s hk sched request))"

section \<open>Submissions\<close>

text \<open>The getters of the oneof \<open>FetchMode\<close> give 0 for the cases that are not set.\<close>

definition srq_UserID :: "submission_request \<Rightarrow> u64" where
  "srq_UserID q = (case srq_FetchMode q of Some (FetchUserID i) \<Rightarrow> i | _ \<Rightarrow> 0)"

definition srq_GroupID :: "submission_request \<Rightarrow> u64" where
  "srq_GroupID q = (case srq_FetchMode q of Some (FetchGroupID i) \<Rightarrow> i | _ \<Rightarrow> 0)"

definition srq_SubmissionID :: "submission_request \<Rightarrow> u64" where
  "srq_SubmissionID q = (case srq_FetchMode q of Some (FetchSubmissionID i) \<Rightarrow> i | _ \<Rightarrow> 0)"

definition get_submission_handler :: "'d service \<Rightarrow> submission_request \<Rightarrow> 'd \<Rightarrow> api_error + submission" where
  "get_submission_handler s q d =
     respond NotFoundCode ''failed to get submission''
       (get_last_submission (sdb (edb (cdb s))) (srq_CourseID q) (zero_submission\<lparr>s_ID := srq_SubmissionID q\<rparr>) d)"

definition get_submissions_handler :: "'d service \<Rightarrow> claims option \<Rightarrow> submission_request \<Rightarrow> 'd \<Rightarrow> api_error + submission list" where
  "get_submissions_handler s cl q d =
     bind_res (respond NotFoundCode ''no submissions found''
         (get_last_submissions (sdb (edb (cdb s))) (srq_CourseID q)
            (zero_submission\<lparr>s_userID := srq_UserID q, s_groupID := srq_GroupID q\<rparr>) d)) (\<lambda>subs.
       let i = claims_user_id cl
       in Inr (if \<not> sv_is_teacher s i (srq_CourseID q) d then clean_submissions i subs else subs))"

definition get_submissions_by_course_handler ::
    "slice_sort \<Rightarrow> 'd results_db \<Rightarrow> submission_request \<Rightarrow> 'd \<Rightarrow> api_error + results_map" where
  "get_submissions_by_course_handler slice_sort rdb q d =
     respond NotFoundCode ''no submissions found'' (get_course_submissions slice_sort rdb q d)"

definition update_submission_handler :: "'d service \<Rightarrow> grade \<Rightarrow> 'd \<Rightarrow> api_error + 'd" where
  "update_submission_handler s g d =
     bind_res (respond NotFoundCode ''failed to update submission''
         (get_submission (sdb (edb (cdb s))) (zero_submission\<lparr>s_ID := gr_SubmissionID g\<rparr>) d)) (\<lambda>sub.
       respond InvalidArgumentCode ''failed to approve submission''
         (update_submission (sdb (edb (cdb s))) (set_grade sub g) d))"

section \<open>Reviews and feedback\<close>

text \<open>The review is not nil: \<open>IsValid\<close> of the request.\<close>

definition create_review_handler :: "'d service \<Rightarrow> time \<Rightarrow> review \<Rightarrow> 'd \<Rightarrow> api_error + (review \<times> 'd)" where
  "create_review_handler s now rv d =
     respond InvalidArgumentCode ''failed to create review'' (create_review (sdb (edb (cdb s))) now rv d)"

definition update_review_handler :: "'d service \<Rightarrow> time \<Rightarrow> review \<Rightarrow> 'd \<Rightarrow> api_error + (review \<times> 'd)" where
  "update_review_handler s now rv d =
     respond InvalidArgumentCode ''failed to update review'' (update_review (sdb (edb (cdb s))) now rv d)"

definition create_assignment_feedback_handler ::
    "'d assignment_db \<Rightarrow> claims option \<Rightarrow> time \<Rightarrow> feedback \<Rightarrow> 'd \<Rightarrow> api_error + 'd" where
  "create_assignment_feedback_handler db cl now fb d =
     bind_res (respond InvalidArgumentCode ''failed to create assignment feedback''
         (create_assignment_feedback db now fb (claims_user_id cl) d)) (\<lambda>(fb, d). Inr d)"

definition get_assignment_feedback_handler :: "'d assignment_db \<Rightarrow> u64 \<Rightarrow> 'd \<Rightarrow> api_error + feedback list" where
  "get_assignment_feedback_handler db courseID d =
     bind_res (respond NotFoundCode ''assignment feedback not found'' (get_assignment_feedback db courseID d)) (\<lambda>fbs.
       if fbs = [] then Inl (NotFoundCode, ''assignment feedback not found'') else Inr fbs)"

section \<open>Assignments and repositories\<close>

definition get_assignments_handler :: "'d assignment_db \<Rightarrow> u64 \<Rightarrow> 'd \<Rightarrow> api_error + assignment list" where
  "get_assignments_handler db courseID d =
     respond NotFoundCode ''no assignments found for course'' (get_assignments_by_course db courseID d)"

definition update_assignments_handler ::
    "('d, 's) hooks \<Rightarrow> u64 \<Rightarrow> 'd \<times> 's \<times> process_vars \<Rightarrow> (api_error + unit) \<times> 'd \<times> 's \<times> process_vars" where
  "update_assignments_handler hk courseID w =
     (case respond_act NotFoundCode ''course not found'' (read_db (get_course (hk_courses hk) courseID)) w of
        (Inl e, w) \<Rightarrow> (Inl e, w)
      | (Inr cm, w) \<Rightarrow>
          (let course = cm_course cm
           in case on_github (hk_get_scm hk (c_ScmOrganizationName course)) w of
                (Inl e, w) \<Rightarrow> (Inl scmConnectErr, w)
              | (Inr _, w) \<Rightarrow>
                  respond_act NotFoundCode ''failed to clone assignments repository''
                    (bnd (update_course_assignments hk course) (\<lambda>_.
                     bnd (on_github (ce_clone (hk_env hk) (c_ScmOrganizationName course) AssignmentsRepo
                        (course_clone_dir (ce_repositories (hk_env hk)) course))) (\<lambda>_. ret ()))) w))"

text \<open>A repository that is not found has the empty address.\<close>

definition repository_url :: "'d service \<Rightarrow> course \<Rightarrow> u64 \<Rightarrow> enrollment \<Rightarrow> 'd \<Rightarrow> repo_type \<Rightarrow> string" where
  "repository_url s course usrID enrol d t =
     (let i = (case t of R_USER \<Rightarrow> usrID | R_GROUP \<Rightarrow> e_groupID enrol | _ \<Rightarrow> 0)
      in case get_repo s course i t d of Inl e \<Rightarrow> [] | Inr repo \<Rightarrow> r_HTMLURL repo)"

definition get_repositories_handler :: "'d service \<Rightarrow> claims option \<Rightarrow> u64 \<Rightarrow> 'd \<Rightarrow> api_error + (repo_type \<rightharpoonup> string)" where
  "get_repositories_handler s cl courseID d =
     bind_res (respond NotFoundCode ''course not found'' (get_course (cdb s) courseID d)) (\<lambda>cm.
     bind_res (respond NotFoundCode ''enrollment not found''
         (get_enrollment_by_course_and_user (edb (cdb s)) (c_ID (cm_course cm)) (claims_user_id cl) d)) (\<lambda>enrol.
       Inr (fold (\<lambda>t m. m(t \<mapsto> repository_url s (cm_course cm) (claims_user_id cl) enrol d t)) (repo_types enrol) Map.empty)))"

definition is_empty_repo_handler ::
    "'d service \<Rightarrow> api_error option \<Rightarrow> repository_request \<Rightarrow> 'd \<Rightarrow> (api_error + unit) \<times> 'd" where
  "is_empty_repo_handler s ctxErr q d =
     (case bind_res (respond NotFoundCode ''course not found'' (get_course (cdb s) (rrq_CourseID q) d)) (\<lambda>cm.
           bind_res (respond NotFoundCode ''repositories not found'' (ws_repositories s
             (zero_repository\<lparr>r_ScmOrganizationID := c_ScmOrganizationID (cm_course cm), r_userID := rrq_UserID q,
                r_groupID := rrq_GroupID q\<rparr>) d)) (\<lambda>rs. Inr (cm_course cm, rs))) of
        Inl e \<Rightarrow> (Inl e, d)
      | Inr (course, repos) \<Rightarrow>
          if repos = [] then (Inr (), d)
          else case ws_get_scm s (c_ScmOrganizationName course) d of
                 (Inl e, d) \<Rightarrow> (Inl scmConnectErr, d)
               | (Inr _, d) \<Rightarrow>
                   (case is_empty_repos s repos d of
                      Inr _ \<Rightarrow> (Inr (), d)
                    | Inl e \<Rightarrow> (Inl (case ctxErr of Some e \<Rightarrow> e
                                   | None \<Rightarrow> (FailedPreconditionCode, ''group repository is not empty'')), d)))"

section \<open>Reading users, courses, enrollments and groups\<close>

definition get_user_handler :: "'d user_db \<Rightarrow> claims option \<Rightarrow> 'd \<Rightarrow> api_error + (user \<times> enrollment list)" where
  "get_user_handler db cl d = respond NotFoundCode ''unknown user'' (db_GetUserWithEnrollments db d (claims_user_id cl))"

definition get_users_handler :: "'d service \<Rightarrow> 'd \<Rightarrow> api_error + user list" where
  "get_users_handler s d = respond NotFoundCode ''failed to get users'' (get_users (cdb s) [] d)"

text \<open>For a teacher the enrollments of the answer are replaced by the list beside it.\<close>

definition get_course_handler ::
    "slice_sort \<Rightarrow> 'd results_db \<Rightarrow> 'd service \<Rightarrow> claims option \<Rightarrow> u64 \<Rightarrow> 'd \<Rightarrow> api_error + (course_msg \<times> enrollment list option)" where
  "get_course_handler slice_sort rdb s cl courseID d =
     bind_res (respond NotFoundCode ''course not found''
         (get_course_by_status (cdb s) courseID (claims_course_status cl courseID) d)) (\<lambda>course.
       if claims_is_teacher cl courseID
       then bind_res (respond NotFoundCode ''failed to get course enrollments''
              (get_enrollments_with_activity slice_sort rdb s courseID d)) (\<lambda>es. Inr (course, Some es))
       else Inr (course, None))"

definition get_courses_handler :: "'d service \<Rightarrow> 'd \<Rightarrow> api_error + course list" where
  "get_courses_handler s d = respond NotFoundCode ''no courses found'' (get_courses (cdb s) [] d)"

definition get_enrollments_handler ::
    "slice_sort \<Rightarrow> 'd results_db \<Rightarrow> 'd service \<Rightarrow> claims option \<Rightarrow> enrollment_request \<Rightarrow> 'd \<Rightarrow> api_error + enrollment list" where
  "get_enrollments_handler slice_sort rdb s cl q d =
     (case erq_FetchMode q of
        Some (FetchByUserID userID) \<Rightarrow>
          respond NotFoundCode ''no enrollments found for user'' (get_enrollments_by_user (cdb s) userID (erq_statuses q) d)
      | Some (FetchByCourseID courseID) \<Rightarrow>
          respond NotFoundCode ''failed to get enrollments for course''
            (if claims_is_teacher cl courseID then get_enrollments_with_activity slice_sort rdb s courseID d
             else get_enrollments_by_course (cdb s) courseID (erq_statuses q) d)
      | None \<Rightarrow> Inl (InvalidArgumentCode, ''failed to get enrollments''))"

definition get_groups_by_course_handler :: "'d service \<Rightarrow> u64 \<Rightarrow> 'd \<Rightarrow> api_error + group list" where
  "get_groups_by_course_handler s courseID d =
     respond NotFoundCode ''failed to get groups'' (get_groups_by_course (sv_gdb s) courseID [] d)"

section \<open>Facts about the handlers\<close>

lemma respond_Inr [simp]: "respond code msg r = Inr x \<longleftrightarrow> r = Inr x"
  by (cases r) (simp_all add: respond_def)

lemma clean_one_shown:
  assumes "x = clean_one i y"
  shows "s_ID x = s_ID y \<and> grade_users x \<in> {[], [i]} \<and> (\<forall>g\<in>set (s_Grades x). gr_Status g = get_status_by_user y i) \<and>
    (s_reviews y \<noteq> [] \<and> get_status_by_user y i = S_NONE \<longrightarrow> s_score x = 0 \<and> s_reviews x = [] \<and> s_Grades x = [])"
  using assms by (simp add: clean_one_def Let_def)

text \<open>C3: What somebody who is not a teacher of the course of the request reads: the latest submissions of the owner in the
  request, where each carries at most the reader's own grade, and a reviewed submission without a grade for the reader shows
  neither score nor reviews; a teacher reads them unchanged.\<close>

theorem students_read_released_results:
  assumes "get_submissions_handler s cl q d = Inr shown"
  shows "\<exists>subs. get_last_submissions (sdb (edb (cdb s))) (srq_CourseID q)
       (zero_submission\<lparr>s_userID := srq_UserID q, s_groupID := srq_GroupID q\<rparr>) d = Inr subs \<and>
     (if sv_is_teacher s (claims_user_id cl) (srq_CourseID q) d then shown = subs
      else list_all2 (\<lambda>x y. s_ID x = s_ID y \<and> grade_users x \<in> {[], [claims_user_id cl]} \<and>
         (\<forall>g\<in>set (s_Grades x). gr_Status g = get_status_by_user y (claims_user_id cl)) \<and>
         (s_reviews y \<noteq> [] \<and> get_status_by_user y (claims_user_id cl) = S_NONE \<longrightarrow>
            s_score x = 0 \<and> s_reviews x = [] \<and> s_Grades x = [])) shown subs)"
proof -
  let ?i = "claims_user_id cl"
  from assms obtain subs where subs: "get_last_submissions (sdb (edb (cdb s))) (srq_CourseID q)
       (zero_submission\<lparr>s_userID := srq_UserID q, s_groupID := srq_GroupID q\<rparr>) d = Inr subs"
    and shown: "shown = (if \<not> sv_is_teacher s ?i (srq_CourseID q) d then clean_submissions ?i subs else subs)"
    by (auto simp: get_submissions_handler_def bind_res_Inr_iff Let_def)
  show ?thesis
    using subs clean_one_shown
    by (intro exI [of _ subs]) (simp add: shown clean_submissions_def list_all2_conv_all_nth)
qed

section \<open>Grading\<close>

lemma merge_by_same_keys:
  assumes "map k new = map k old" and "distinct (map k old)"
  shows "merge_by k old new = new"
proof -
  have len: "length new = length old" using assms(1) by (metis length_map)
  have "find (\<lambda>n. k n = k (old ! i)) new = Some (new ! i)" if "i < length old" for i
  proof -
    have key: "k (new ! j) = k (old ! j)" if "j < length old" for j
      using assms(1) that len by (metis nth_map)
    have "k (new ! j) \<noteq> k (old ! i)" if "j < i" for j
      using key [of j] that \<open>i < length old\<close> assms(2) by (simp add: distinct_conv_nth)
    with key [OF that] that len show ?thesis by (auto simp: find_Some_iff)
  qed
  then have "map (\<lambda>x. case find (\<lambda>n. k n = k x) new of Some n \<Rightarrow> n | None \<Rightarrow> x) old = new"
    using len by (intro nth_equalityI) simp_all
  moreover have "filter (\<lambda>n. k n \<notin> k ` set old) new = []"
    using arg_cong [OF assms(1), of set] by (auto simp: filter_empty_conv)
  ultimately show ?thesis by (simp add: merge_by_def)
qed

lemma set_grade_same [simp]:
  "s_ID (set_grade r g) = s_ID r" "sub_key (set_grade r g) = sub_key r" "s_score (set_grade r g) = s_score r"
  "has_owner (set_grade r g) = has_owner r" "grade_users (set_grade r g) = grade_users r"
  by (simp_all add: set_grade_def set_grade_all_def set_grade_by_user_def sub_key_def has_owner_def map_update_first comp_def)

lemma status_of_grades: "s_Grades x = s_Grades y \<Longrightarrow> get_status_by_user x u = get_status_by_user y u"
  by (simp add: get_status_by_user_def)

lemma graded_row_found:
  assumes "sub_db_ok (sdb (edb (cdb s))) view" and "grade_is_valid g" and "update_submission_handler s g d = Inr d'"
  obtains sub where "sub \<in> set (sv_submissions (view d))" and "s_ID sub = gr_SubmissionID g"
    and "view d' = update_rows (on_id (gr_SubmissionID g) (\<lambda>r. saved_over r (set_grade sub g))) (view d)"
proof -
  let ?i = "gr_SubmissionID g"
  from assms(3) obtain sub where
    get: "sq_last (sdb (edb (cdb s))) (zero_submission\<lparr>s_ID := ?i\<rparr>) d = Inr sub"
    and upd: "sq_update (sdb (edb (cdb s))) (set_grade sub g) d = Inr d'"
    by (auto simp: update_submission_handler_def bind_res_Inr_iff get_submission_def update_submission_def)
  have "?i \<noteq> 0" using assms(2) by (simp add: grade_is_valid_def word_gt_0)
  with sub_db_okD(1) [OF assms(1) get]
  have "sub \<in> set (filter (sub_matches (zero_submission\<lparr>s_ID := ?i\<rparr>)) (sv_submissions (view d)))"
    using last_in_set by blast
  with \<open>?i \<noteq> 0\<close> have "sub \<in> set (sv_submissions (view d))" "s_ID sub = ?i" by (auto simp: sub_matches_def)
  with sub_db_okD(9) [OF assms(1) upd] that show thesis by simp
qed

text \<open>The row that is saved over with a grade.\<close>

lemma graded_row:
  assumes "distinct (grade_users sub)"
  shows "sub_key (saved_over sub (set_grade sub g)) = sub_key sub \<and> s_ID (saved_over sub (set_grade sub g)) = s_ID sub \<and>
    s_score (saved_over sub (set_grade sub g)) = s_score sub \<and> grade_users (saved_over sub (set_grade sub g)) = grade_users sub \<and>
    (\<forall>u\<in>set (grade_users sub). get_status_by_user (saved_over sub (set_grade sub g)) u =
       (if gr_UserID g = 0 \<or> gr_UserID g = u then gr_Status g else get_status_by_user sub u))"
proof -
  have grades: "s_Grades (saved_over sub (set_grade sub g)) = s_Grades (set_grade sub g)"
    using assms merge_by_same_keys [of gr_UserID "s_Grades (set_grade sub g)" "s_Grades sub"] by (simp add: saved_over_def)
  have "get_status_by_user (saved_over sub (set_grade sub g)) u =
      (if gr_UserID g = 0 \<or> gr_UserID g = u then gr_Status g else get_status_by_user sub u)" if "u \<in> set (grade_users sub)" for u
    using status_of_grades [OF grades, of u] set_grade_status [of sub g u] that by simp
  moreover have "grade_users (saved_over sub (set_grade sub g)) = grade_users sub" using grades by simp
  moreover have "sub_key (saved_over sub (set_grade sub g)) = sub_key sub" "s_ID (saved_over sub (set_grade sub g)) = s_ID sub" by simp_all
  moreover have "s_score (saved_over sub (set_grade sub g)) = s_score sub" by (simp add: saved_over_def)
  ultimately show ?thesis by blast
qed

lemma graded_rows_ok:
  assumes "rows_ok v" and "sub \<in> set (sv_submissions v)"
  shows "rows_ok (update_rows (on_id (s_ID sub) (\<lambda>r. saved_over r (set_grade sub g))) v)"
proof (rule update_rows_ok [OF assms(1)])
  have dist: "distinct (grade_users sub)" "has_owner sub" using assms by (auto simp: rows_ok_def list_all_iff)
  fix r assume "r \<in> set (sv_submissions v)"
  then have "distinct (grade_users r)" using assms(1) by (auto simp: rows_ok_def list_all_iff)
  moreover have "distinct (grade_users (set_grade sub g))" using dist(1) by simp
  ultimately show "distinct (grade_users (saved_over r (set_grade sub g)))"
    unfolding saved_over_def by (simp del: set_grade_same add: distinct_merge_by)
qed (use assms has_owner_key [of "saved_over _ (set_grade sub g)" sub] in \<open>auto simp: rows_ok_def list_all_iff\<close>)

text \<open>The scores and the reviews of a submission have a primary key of their own.\<close>

definition parts_keyed :: "sub_view \<Rightarrow> bool" where
  "parts_keyed v \<longleftrightarrow> list_all (\<lambda>r. distinct (map sc_ID (s_Scores r)) \<and> distinct (map rv_ID (s_reviews r))) (sv_submissions v)"

definition regrade :: "grade \<Rightarrow> grade \<Rightarrow> grade" where
  "regrade g x = (if gr_UserID g = 0 \<or> gr_UserID x = gr_UserID g then x\<lparr>gr_Status := gr_Status g\<rparr> else x)"

lemma update_first_keyed:
  "distinct (map k xs) \<Longrightarrow> update_first (\<lambda>x. k x = i) f xs = map (\<lambda>x. if k x = i then f x else x) xs"
proof (induction xs)
  case (Cons x xs)
  then have "k x = i \<Longrightarrow> map (\<lambda>x. if k x = i then f x else x) xs = xs" by (intro map_idI) (auto simp: image_iff)
  with Cons show ?case by simp
qed simp

lemma set_grade_regrades:
  assumes "distinct (grade_users sub)"
  shows "set_grade sub g = sub\<lparr>s_Grades := map (regrade g) (s_Grades sub)\<rparr>"
  using assms by (auto simp: set_grade_def set_grade_all_def set_grade_by_user_def regrade_def update_first_keyed [of gr_UserID] intro!: map_cong)

lemma graded_row_is:
  assumes "distinct (grade_users sub)" and "distinct (map sc_ID (s_Scores sub))" and "distinct (map rv_ID (s_reviews sub))"
  shows "saved_over sub (set_grade sub g) = sub\<lparr>s_Grades := map (regrade g) (s_Grades sub)\<rparr>"
proof -
  have "merge_by gr_UserID (s_Grades sub) (map (regrade g) (s_Grades sub)) = map (regrade g) (s_Grades sub)"
    using assms(1) by (intro merge_by_same_keys) (simp_all add: regrade_def comp_def)
  moreover have "merge_by sc_ID (s_Scores sub) (s_Scores sub) = s_Scores sub" "merge_by rv_ID (s_reviews sub) (s_reviews sub) = s_reviews sub"
    using assms(2,3) by (simp_all add: merge_by_same_keys)
  ultimately show ?thesis unfolding set_grade_regrades [OF assms(1)] saved_over_def by simp
qed

text \<open>C24: Grading a submission changes the status of the user that the request names, or of every user with a grade when
  it names none, in the submission that it names, and nothing else: every other submission, what the database holds beside
  the submissions, and every other field of the graded submission (its score, build information, commit, scores and
  reviews) are as before, the grades have the same users in the same order, and those of the other users are as before.
  Scores and reviews are told apart by their primary keys.\<close>

theorem grading_writes_one_row:
  assumes "sub_db_ok (sdb (edb (cdb s))) view" and "rows_ok (view d)" and "parts_keyed (view d)" and "grade_is_valid g"
    and "update_submission_handler s g d = Inr d'"
  shows "rows_ok (view d') \<and> (\<exists>r\<in>set (sv_submissions (view d)). s_ID r = gr_SubmissionID g) \<and>
     view d' = (view d)\<lparr>sv_submissions := map (\<lambda>r. if s_ID r = gr_SubmissionID g
       then r\<lparr>s_Grades := map (\<lambda>x. if gr_UserID g = 0 \<or> gr_UserID x = gr_UserID g then x\<lparr>gr_Status := gr_Status g\<rparr> else x)
              (s_Grades r)\<rparr> else r) (sv_submissions (view d))\<rparr>"
proof -
  let ?rows = "sv_submissions (view d)"
  from graded_row_found [OF assms(1,4,5)] obtain sub where sub: "sub \<in> set ?rows" "s_ID sub = gr_SubmissionID g"
    and view: "view d' = update_rows (on_id (gr_SubmissionID g) (\<lambda>r. saved_over r (set_grade sub g))) (view d)" by blast
  have only: "r = sub" if "r \<in> set ?rows" "s_ID r = gr_SubmissionID g" for r
    using assms(2) that sub by (auto simp: rows_ok_def distinct_map inj_on_def)
  have keyed: "distinct (grade_users sub)" "distinct (map sc_ID (s_Scores sub))" "distinct (map rv_ID (s_reviews sub))"
    using assms(2,3) sub(1) by (auto simp: rows_ok_def parts_keyed_def list_all_iff)
  have rows: "rows_ok (view d')" using graded_rows_ok [OF assms(2) sub(1), of g] view sub(2) by simp
  have "map (on_id (gr_SubmissionID g) (\<lambda>r. saved_over r (set_grade sub g))) ?rows =
      map (\<lambda>r. if s_ID r = gr_SubmissionID g then r\<lparr>s_Grades := map (regrade g) (s_Grades r)\<rparr> else r) ?rows"
  proof (rule map_cong [OF refl])
    fix r assume r: "r \<in> set ?rows"
    show "on_id (gr_SubmissionID g) (\<lambda>r. saved_over r (set_grade sub g)) r =
        (if s_ID r = gr_SubmissionID g then r\<lparr>s_Grades := map (regrade g) (s_Grades r)\<rparr> else r)"
    proof (cases "s_ID r = gr_SubmissionID g")
      case True
      from only [OF r this] graded_row_is [OF keyed, of g] True show ?thesis by (simp add: on_id_def)
    qed (simp add: on_id_def)
  qed
  then have new: "view d' = (view d)\<lparr>sv_submissions :=
      map (\<lambda>r. if s_ID r = gr_SubmissionID g then r\<lparr>s_Grades := map (regrade g) (s_Grades r)\<rparr> else r) ?rows\<rparr>"
    unfolding view by (rule arg_cong)
  have "\<exists>r\<in>set ?rows. s_ID r = gr_SubmissionID g" using sub by blast
  with rows new show ?thesis unfolding regrade_def [abs_def] by (intro conjI)
qed

section \<open>What a rebuild changes\<close>

text \<open>The steps before the run read the database only.\<close>

lemma bnd_read_db_iff:
  "bnd (read_db f) k (d, w) = (r, w') \<longleftrightarrow>
     (\<exists>e. f d = Inl e \<and> r = Inl (sync_error.DbErr e) \<and> w' = (d, w)) \<or> (\<exists>x. f d = Inr x \<and> k x (d, w) = (r, w'))"
  by (auto simp: bnd_read_db split: sum.splits)

lemma bnd_on_github_db:
  assumes "bnd (on_github m) k (d, w) = (r, w')"
  shows "fst w' = d \<or> (\<exists>x st c. k x (d, st, c) = (r, w'))"
  using assms by (cases w) (auto simp: bnd_def on_github_def split: sum.splits prod.splits)

lemma bnd_run_tests_db:
  assumes "bnd (call_run_tests hk rd) k (d, w) = (r, w')"
  shows "fst w' = d \<or> (\<exists>x st c. k x (d, st, c) = (r, w'))"
  using assms by (cases w) (auto simp: bnd_def call_run_tests_def Let_def split: outcome.splits prod.splits)

lemma bnd_record_db:
  assumes "bnd (record_on_db hk rd results) k (d, w) = (r, w')"
  obtains t1 t2 x d1 where "record_results (edb (hk_courses hk)) (hk_impl hk) t1 t2 rd results d = (x, d1)"
    "\<And>e. x = Inl e \<Longrightarrow> fst w' = d1" "\<And>y. x = Inr y \<Longrightarrow> \<exists>st c. k y (d1, st, c) = (r, w')"
proof -
  obtain st c where w: "w = (st, c)" by (cases w)
  define t1 t2 where "t1 = te_t1 (hk_tests hk) st" and "t2 = te_t2 (hk_tests hk) st"
  obtain x d1 where x: "record_results (edb (hk_courses hk)) (hk_impl hk) t1 t2 rd results d = (x, d1)" by fastforce
  show thesis
  proof (rule that [OF x])
    show "fst w' = d1" if "x = Inl e" for e
      using assms that x by (auto simp: w bnd_def record_on_db_def t1_def t2_def)
    show "\<exists>st c. k y (d1, st, c) = (r, w')" if "x = Inr y" for y
      using assms that x by (auto simp: w bnd_def record_on_db_def t1_def t2_def)
  qed
qed

lemma send_submission_db: "send_submission hk rd sub (d, st, c) = (r, w') \<Longrightarrow> fst w' = d"
  by (auto simp: send_submission_def split: sum.splits)

text \<open>A rebuild that does not record a submission leaves the database as it was.\<close>

lemma record_rebuild_error:
  assumes "rd_Rebuild rd" and "record_results db impl t1 t2 rd results d = (x, d1)" and "\<And>s. x \<noteq> Inr (Some s)"
  shows "d1 = d"
  using assms
  by (auto simp: record_results_def record_new_def split: sum.splits option.splits if_splits prod.splits)

lemma rebuild_records:
  assumes "internal_rebuild_submission s hk request (d, st, c) = (r, (d', w'))"
  shows "d' = d \<or> (\<exists>rd res impl t1 t2 sub. rd_Rebuild rd \<and>
     record_results (edb (hk_courses hk)) impl t1 t2 rd (Some res) d = (Inr (Some sub), d'))"
proof (rule disjCI)
  assume changed: "\<not> (\<exists>rd res impl t1 t2 sub. rd_Rebuild rd \<and>
     record_results (edb (hk_courses hk)) impl t1 t2 rd (Some res) d = (Inr (Some sub), d'))"
  show "d' = d"
  proof (rule ccontr)
    assume "d' \<noteq> d"
    with assms obtain sub a cm name repo where
      host: "bnd (on_github (hk_get_scm hk (c_ScmOrganizationName (cm_course cm)))) (\<lambda>_.
         let rd = rebuild_run_data (cm_course cm) a repo sub name in
         bnd (call_run_tests hk rd) (\<lambda>results. bnd (record_on_db hk rd (Some results)) (\<lambda>submission.
           send_submission hk rd submission))) (d, st, c) = (r, (d', w'))"
      unfolding internal_rebuild_submission_def by (auto simp: bnd_read_db_iff)
    have "\<exists>rd st1 c1. rd_Rebuild rd \<and> bnd (call_run_tests hk rd) (\<lambda>results. bnd (record_on_db hk rd (Some results)) (\<lambda>submission.
           send_submission hk rd submission)) (d, st1, c1) = (r, (d', w'))"
      using bnd_on_github_db [OF host] \<open>d' \<noteq> d\<close>
      by (auto simp: Let_def intro!: exI [of _ "rebuild_run_data (cm_course cm) a repo sub name"])
        (simp add: rebuild_run_data_def)
    then obtain rd st1 c1 where rd: "rd_Rebuild rd"
      and run: "bnd (call_run_tests hk rd) (\<lambda>results. bnd (record_on_db hk rd (Some results)) (\<lambda>submission.
           send_submission hk rd submission)) (d, st1, c1) = (r, (d', w'))" by blast
    from bnd_run_tests_db [OF run] \<open>d' \<noteq> d\<close> obtain results w2 where
      "bnd (record_on_db hk rd (Some results)) (\<lambda>submission. send_submission hk rd submission) (d, w2) = (r, (d', w'))"
      by auto
    then obtain t1 t2 x d1 where x: "record_results (edb (hk_courses hk)) (hk_impl hk) t1 t2 rd (Some results) d = (x, d1)"
      and after: "\<And>e. x = Inl e \<Longrightarrow> d' = d1" "\<And>y. x = Inr y \<Longrightarrow> \<exists>st c. send_submission hk rd y (d1, st, c) = (r, (d', w'))"
      by (rule bnd_record_db) auto
    have d': "d' = d1"
    proof (cases x)
      case (Inr y)
      then show ?thesis using after(2) send_submission_db by fastforce
    qed (use after(1) in blast)
    then have "x \<noteq> Inr (Some sub)" for sub using changed x rd by blast
    with record_rebuild_error [OF rd x] d' \<open>d' \<noteq> d\<close> show False by blast
  qed
qed

text \<open>C8: A rebuild, whatever happens in it, changes the latest submission of one assignment and owner at most: it keeps that
  submission's identity, its date of delivery and every approval in it, and the rows of the table stay valid.  It never
  charges slip days: it leaves the database as it was or runs the statements that save a submission, and nothing else.\<close>

theorem rebuild_keeps_approvals:
  assumes "sub_db_ok (sdb (edb (hk_courses hk))) view" and "slip_days_apart (edb (hk_courses hk)) view" and "rows_ok (view d)"
    and "internal_rebuild_submission s hk request (d, st, c) = (r, (d', w'))"
  shows "rows_ok (view d') \<and> (d' = d \<or>
     (\<exists>s0 sub. save_results (sdb (edb (hk_courses hk))) s0 d = Inr (sub, d')) \<and>
     (\<exists>k e. ledger (view d') = (ledger (view d))(k \<mapsto> e) \<and>
        (\<forall>p. ledger (view d) k = Some p \<longrightarrow> s_ID e = s_ID p \<and> (\<forall>u. is_approved p u \<longrightarrow> is_approved e u) \<and>
           (s_BuildInfo p \<noteq> None \<longrightarrow> submission_date e = submission_date p))))"
proof (cases "d' = d")
  case False
  then obtain rd res impl t1 t2 sub where rd: "rd_Rebuild rd"
    and rec: "record_results (edb (hk_courses hk)) impl t1 t2 rd (Some res) d = (Inr (Some sub), d')"
    using rebuild_records [OF assms(4)] by blast
  from record_results_ledger [OF assms(1-3) rec] obtain s0 d1 where
    s0: "sub_key s0 = run_key rd" "distinct (map gr_UserID (s_Grades s0))" "has_owner s0"
    "s_ID s0 = (case ledger (view d) (sub_key s0) of None \<Rightarrow> 0 | Some p \<Rightarrow> s_ID p)"
    "save_results (sdb (edb (hk_courses hk))) s0 d = Inr (sub, d1)" "view d' = view d1" "rd_Rebuild rd \<Longrightarrow> d' = d1" by blast
  from save_results_ledger [OF assms(1,3) s0(3,2,5,4)] s0(1,6) obtain e where
    e: "rows_ok (view d')" "holds e sub" "ledger (view d') = (ledger (view d))(run_key rd \<mapsto> e)" by auto
  have kept: "s_ID e = s_ID p \<and> (\<forall>u. is_approved p u \<longrightarrow> is_approved e u) \<and>
           (s_BuildInfo p \<noteq> None \<longrightarrow> submission_date e = submission_date p)" if "ledger (view d) (run_key rd) = Some p" for p
  proof -
    have "is_approved e u" if "is_approved sub u" for u
      using e(2) that by (auto simp: holds_def is_approved_def list_ex_iff)
    moreover have "s_ID e = s_ID sub" "submission_date e = submission_date sub"
      using e(2) by (simp_all add: holds_def submission_date_def)
    ultimately show ?thesis using new_run_keeps [OF assms(1-3) rec that] rd by auto
  qed
  show ?thesis using e(1,3) kept s0(5) s0(7) [OF rd] by blast
qed (use assms(3) in blast)

section \<open>A rebuild that runs\<close>

definition rebuild_cdb :: "sub_view course_db" where
  "rebuild_cdb = group_db.extend (enr_db.extend (sub_db.extend Submission_Store.row_db
       (enr_db.fields (\<lambda>c u v. Inr (zero_enrollment\<lparr>e_courseID := c, e_userID := u, e_status := Enrollment_STUDENT\<rparr>, zero_course, zero_user))
          (\<lambda>g v. Inr []) (\<lambda>g us v. Inr zero_group) (\<lambda>x v. Inr v))) no_group_fields)
     (course_db.fields (\<lambda>u d. Inr (zero_user\<lparr>u_ID := u, u_Login := ''ann''\<rparr>)) (\<lambda>us d. Inr []) (\<lambda>l sts d. Inl RecordNotFound)
       (\<lambda>u d. Inl RecordNotFound) (\<lambda>u d. Inr (u, d)) (\<lambda>u d. Inr d)
       (\<lambda>q p d. Inr (CourseMsg (zero_course\<lparr>c_ID := 1, c_ScmOrganizationName := ''dat''\<rparr>) [] []))
       (\<lambda>cs d. Inr []) (\<lambda>o' c y d. Inr 0) (\<lambda>c d. Inr (c, d)) (\<lambda>c d. Inr d) (\<lambda>e d. Inr (e, d)) (\<lambda>e d. Inr d)
       (\<lambda>c u e d. Inr d) (\<lambda>f sts d. Inr []) (\<lambda>d. Inr d) (\<lambda>g d. Inr ()) (\<lambda>r d. Inr (r, d)))"

definition rebuild_service :: "sub_view service" where
  "rebuild_service = course_db.extend rebuild_cdb (service.fields
     (\<lambda>r v. Inr [zero_repository\<lparr>r_userID := r_userID r, r_HTMLURL := ''https://h/dat/ann-labs'', r_repoType := r_repoType r\<rparr>])
     (\<lambda>i v. Inr v) (\<lambda>o' v. (Inr (), v)) (\<lambda>u v. (Inr (''token'', u), v))
     (\<lambda>i v. (Inr \<lparr>su_login = [], su_avatar = []\<rparr>, v)) (\<lambda>o' l st t v. (Inr \<lparr>sr_ID = 1, sr_HTMLURL = []\<rparr>, v))
     (\<lambda>l o' r v. (Inr (), v)) (\<lambda>o' l v. (Inr (), v)) (\<lambda>o' g us v. (Inr \<lparr>sr_ID = 1, sr_HTMLURL = []\<rparr>, v))
     (\<lambda>o' g us v. (Inr (), v)) (\<lambda>i v. (Inr (), v)) (\<lambda>i v. True))"

definition rebuild_tdb :: "sub_view task_db" where
  "rebuild_tdb = assignment_db.extend (sub_db.extend Submission_Store.row_db no_assignment_fields)
     (task_db.fields (\<lambda>q d. Inr []) (\<lambda>i d. Inr []) (\<lambda>i d. Inr d) (\<lambda>t d. Inr d) (\<lambda>t d. Inr d) (\<lambda>t d. Inr (t, d)) (\<lambda>is d. Inr d)
       (\<lambda>q d. Inr []) (\<lambda>p d. Inr d) (\<lambda>q d. Inl RecordNotFound) (\<lambda>p d. Inr d) (\<lambda>p d. Inr d))"

definition rebuild_hooks :: "(sub_view, nat) hooks" where
  "rebuild_hooks =
     \<lparr>hk_tasks = rebuild_tdb, hk_courses = rebuild_cdb, hk_repositories = \<lambda>q d. Inr [q], hk_github = offline_github,
      hk_issues = counting_issues, hk_env = sample_env, hk_get_scm = \<lambda>p n. (Inr (), n),
      hk_tests = sample_tests\<lparr>te_clone := sample_clone, te_run := \<lambda>n. sample_runner, te_unmarshal := sample_decode,
        te_secret := \<lambda>n. ''key''\<rparr>,
      hk_impl = 1, hk_range = rev, hk_send = \<lambda>s us n. n + 10 * length us, hk_tm_add = \<lambda>u n. (None, n)\<rparr>"

definition rebuild_rows :: sub_view where
  "rebuild_rows = sample_rows\<lparr>sv_assignments := [(rd_Assignment sample_run_data)\<lparr>a_ID := 1, a_CourseID := 1\<rparr>]\<rparr>"

definition rebuild_vars :: process_vars where
  "rebuild_vars = \<lparr>rc_teachers = Map.empty, rc_groups = Map.empty, rc_dockerfiles = (\<lambda>_. [])\<rparr>"

definition rebuilt :: "(sync_error + unit) \<times> sub_view \<times> nat \<times> process_vars" where
  "rebuilt = internal_rebuild_submission rebuild_service rebuild_hooks
     \<lparr>brq_CourseID = 1, brq_AssignmentID = 1, brq_SubmissionID = 3\<rparr> (rebuild_rows, 0, rebuild_vars)"
definition rebuild_data :: run_data where
  "rebuild_data = rebuild_run_data (zero_course\<lparr>c_ID := 1, c_ScmOrganizationName := ''dat''\<rparr>)
     ((rd_Assignment sample_run_data)\<lparr>a_ID := 1, a_CourseID := 1\<rparr>)
     (zero_repository\<lparr>r_userID := 5, r_HTMLURL := ''https://h/dat/ann-labs'', r_repoType := R_USER\<rparr>) sample_previous ''ann''"

lemma rebuild_clone: "run_clone sample_clone ''/repos'' rebuild_data ''/tmp'' Run_Script.sample_files = Inr Run_Script.sample_files"
  by (simp add: run_clone_def sample_clone_def clone_missing_repositories_def clone_if_missing_def
      has_assignment_def dir_exists_def Run_Script.sample_files_def rebuild_data_def rebuild_run_data_def sample_run_data_def zero_defs Let_def
      List.map_filter_def) code_simp

lemma rebuild_job:
  "\<exists>jb r'. parse_test_runner_script id Run_Script.sample_files ''/repos'' rebuild_data ''key'' ''/tmp'' = Inr (jb, r')"
proof -
  have "has_suffix (path_join [path_join [course_clone_dir ''/repos'' (rd_Course rebuild_data), TestsRepo],
      a_name (rd_Assignment rebuild_data), ''run.sh'']) ''run.sh''"
    by (simp add: course_clone_dir_def rebuild_data_def rebuild_run_data_def sample_run_data_def zero_defs TestsRepo_def) code_simp
  then have load: "load_run_script Run_Script.sample_files ''/repos'' rebuild_data =
      Inr (''#image/Go'' @ newline # ''cd lab1'' @ newline # ''go test'')"
    by (simp add: load_run_script_def Run_Script.sample_files_def Let_def)
  show ?thesis unfolding parse_test_runner_script_def load bind_res.simps sample_script by (simp add: Let_def)
qed

lemma rebuild_scan: "scan_student_repo Run_Script.sample_files (path_join [''/tmp'', repo_name (rd_Repo rebuild_data)]) = None"
  by code_simp

lemma rebuild_extract:
  "\<exists>res b. extract_results sample_decode [] 1 2 sample_job_output ''key'' 1
      (zero_score_tests (rd_Assignment rebuild_data)) = Ok (res, []) \<and> rs_BuildInfo res = Some b"
  by (simp add: extract_results_def sample_job_lines sample_lines extract_line_def parse_def is_valid_def
      sample_decode_def zero_score_tests_def rebuild_data_def rebuild_run_data_def sample_run_data_def zero_score_def add_score_def Let_def
      new_results_def empty_results_def to_score_slice_def)

lemma rebuild_run:
  obtains res b where "run_tests id sample_clone sample_runner sample_decode [] ''/repos'' (Inr ''/tmp'') ''key'' 1 2 1
      rebuild_data Run_Script.sample_files = Ok (res, [])" "rs_BuildInfo res = Some b"
proof -
  from rebuild_extract obtain res b where res:
    "extract_results sample_decode [] 1 2 sample_job_output ''key'' 1 (zero_score_tests (rd_Assignment rebuild_data)) = Ok (res, [])"
    "rs_BuildInfo res = Some b" by (elim exE conjE)
  from rebuild_job obtain jb r' where
    jb: "parse_test_runner_script id Run_Script.sample_files ''/repos'' rebuild_data ''key'' ''/tmp'' = Inr (jb, r')" by (elim exE)
  have "run_tests id sample_clone sample_runner sample_decode [] ''/repos'' (Inr ''/tmp'') ''key'' 1 2 1
      rebuild_data Run_Script.sample_files = Ok (res, [])"
    using res(1) by (auto simp: run_tests_def rebuild_clone rebuild_scan jb sample_runner_def split: list.split)
  with res(2) that show thesis by blast
qed

lemmas rebuild_db_defs = rebuild_service_def rebuild_tdb_def rebuild_cdb_def no_group_fields_def no_assignment_fields_def
  course_db.extend_def group_db.extend_def enr_db.extend_def sub_db.extend_def assignment_db.extend_def course_db.truncate_def
  group_db.truncate_def enr_db.truncate_def sub_db.truncate_def assignment_db.truncate_def task_db.fields_def
  service.fields_def course_db.fields_def group_db.fields_def enr_db.fields_def assignment_db.fields_def

lemma rebuild_db_ok: "sub_db_ok (sdb (edb rebuild_cdb)) row_view" "slip_days_apart (edb rebuild_cdb) row_view"
  using row_db_ok by (simp_all add: rebuild_db_defs Submission_Store.row_db_def slip_days_apart_def)

lemma rebuild_recorded:
  assumes "rs_BuildInfo res = Some b"
  obtains sub d' where "record_results (edb rebuild_cdb) 1 1 2 rebuild_data (Some res) rebuild_rows = (Inr (Some sub), d')"
proof -
  have "\<exists>sub d'. record_results (edb rebuild_cdb) 1 1 2 rebuild_data (Some res) rebuild_rows = (Inr (Some sub), d')"
    using assms
    by (simp add: record_results_def previous_submission_def get_submission_def rebuild_db_defs Submission_Store.row_db_def
        last_row_def find_row_def rebuild_rows_def sample_rows_def sample_previous_def rebuild_data_def rebuild_run_data_def
        sample_run_data_def record_new_def new_submission_def new_test_run_submission_def keep_delivery_date_def create_submission_def
        check_submission_def save_results_def owner_query_def sub_matches_def prev_ID_def prev_Grades_def
        zero_defs Let_def set_grades_if_approved_def set_grade_all_def)
  with that show thesis by blast
qed

definition sample_rebuild_request :: rebuild_request where
  "sample_rebuild_request = \<lparr>brq_CourseID = 1, brq_AssignmentID = 1, brq_SubmissionID = 3\<rparr>"

lemma rebuild_reads:
  "get_submission (sdb (edb rebuild_cdb)) (zero_submission\<lparr>s_ID := 3\<rparr>) rebuild_rows = Inr sample_previous"
  "get_assignment (tadb rebuild_tdb) (zero_assignment\<lparr>a_ID := 1\<rparr>) rebuild_rows = Inr (rd_Assignment rebuild_data)"
  "get_course rebuild_cdb c rebuild_rows = Inr (CourseMsg (rd_Course rebuild_data) [] [])"
  "rebuild_repo rebuild_service c' (rd_Assignment rebuild_data) sample_previous rebuild_rows = Inr (rd_Repo rebuild_data)"
  "look_up_name rebuild_hooks sample_previous rebuild_rows = ''ann''"
  "rebuild_run_data (rd_Course rebuild_data) (rd_Assignment rebuild_data) (rd_Repo rebuild_data) sample_previous ''ann'' = rebuild_data"
  by (simp_all add: rebuild_db_defs rebuild_hooks_def Submission_Store.row_db_def rebuild_data_def rebuild_run_data_def rebuild_rows_def sample_rows_def
      get_submission_def get_assignment_def get_course_def rebuild_repo_def get_repo_def look_up_name_def get_user_def last_row_def find_row_def
      sample_previous_def sub_matches_def sample_run_data_def zero_defs Let_def)

lemma rebuild_hooks_simps:
  "hk_tasks rebuild_hooks = rebuild_tdb" "hk_courses rebuild_hooks = rebuild_cdb" "hk_get_scm rebuild_hooks p n = (Inr (), n)"
  "hk_tests rebuild_hooks = sample_tests\<lparr>te_clone := sample_clone, te_run := \<lambda>n. sample_runner, te_unmarshal := sample_decode,
        te_secret := \<lambda>n. ''key''\<rparr>" "hk_impl rebuild_hooks = 1"
  by (simp_all add: rebuild_hooks_def)

lemma rebuild_succeeds:
  obtains d' w' sub where "internal_rebuild_submission rebuild_service rebuild_hooks sample_rebuild_request (rebuild_rows, 0, c) = (Inr (), (d', w'))"
    "\<exists>res. record_results (edb rebuild_cdb) 1 1 2 rebuild_data (Some res) rebuild_rows = (Inr (Some sub), d')"
proof -
  from rebuild_run obtain res b where run: "run_tests id sample_clone sample_runner sample_decode [] ''/repos'' (Inr ''/tmp'') ''key'' 1 2 1
      rebuild_data Run_Script.sample_files = Ok (res, [])" "rs_BuildInfo res = Some b" .
  from rebuild_recorded [OF run(2)] obtain sub d' where
    rec: "record_results (edb rebuild_cdb) 1 1 2 rebuild_data (Some res) rebuild_rows = (Inr (Some sub), d')" .
  have "\<exists>w'. internal_rebuild_submission rebuild_service rebuild_hooks sample_rebuild_request (rebuild_rows, 0, c) = (Inr (), (d', w'))"
    using run(1) rec
    by (simp add: internal_rebuild_submission_def sample_rebuild_request_def bnd_read_db rebuild_reads rebuild_hooks_simps Let_def)
      (simp add: bnd_def on_github_def call_run_tests_def sample_tests_def record_on_db_def send_submission_def rebuild_hooks_simps
        split: sum.split)
  with rec that show thesis by blast
qed

lemma rebuild_keeps_approvals_witness:
  "\<exists>d' w'. internal_rebuild_submission rebuild_service rebuild_hooks sample_rebuild_request (rebuild_rows, 0, rebuild_vars) = (Inr (), (d', w')) \<and>
     rows_ok (row_view d') \<and> (\<forall>k p. ledger (row_view rebuild_rows) k = Some p \<longrightarrow>
       (\<exists>e. ledger (row_view d') k = Some e \<and> s_ID e = s_ID p \<and> (\<forall>u. is_approved p u \<longrightarrow> is_approved e u)))"
proof -
  from rebuild_succeeds obtain d' w' where
    run: "internal_rebuild_submission rebuild_service rebuild_hooks sample_rebuild_request (rebuild_rows, 0, rebuild_vars) = (Inr (), (d', w'))"
    by blast
  have rows: "rows_ok (row_view rebuild_rows)" using sample_rows_ok by (simp add: rows_ok_def rebuild_rows_def)
  have h: "hk_courses rebuild_hooks = rebuild_cdb" by (simp add: rebuild_hooks_simps)
  note kept = rebuild_keeps_approvals [of rebuild_hooks row_view, unfolded h, OF rebuild_db_ok rows run]
  have "\<exists>e. ledger (row_view d') k = Some e \<and> s_ID e = s_ID p \<and> (\<forall>u. is_approved p u \<longrightarrow> is_approved e u)"
    if "ledger (row_view rebuild_rows) k = Some p" for k p
    using kept that by (elim conjE disjE exE) (auto split: if_splits)
  with kept run show ?thesis by blast
qed

lemma students_read_released_results_witness:
  "\<exists>shown. get_submissions_handler rebuild_service None \<lparr>srq_CourseID = 1, srq_AssignmentID = 0, srq_FetchMode = Some (FetchUserID 5)\<rparr>
      rebuild_rows = Inr shown \<and> map s_ID shown = [3] \<and> \<not> sv_is_teacher rebuild_service 0 1 rebuild_rows \<and>
      (\<forall>x\<in>set shown. grade_users x \<in> {[], [0]})"
proof -
  let ?q = "\<lparr>srq_CourseID = 1, srq_AssignmentID = 0, srq_FetchMode = Some (FetchUserID 5)\<rparr>"
  have last: "get_last_submissions (sdb (edb (cdb rebuild_service))) 1 (zero_submission\<lparr>s_userID := 5\<rparr>) rebuild_rows = Inr [sample_previous]"
    by (simp add: get_last_submissions_def get_last_submission_def get_submission_def rebuild_db_defs Submission_Store.row_db_def last_row_def find_row_def
        rebuild_rows_def sample_rows_def sample_previous_def sub_matches_def sample_run_data_def zero_defs Let_def)
  have st: "\<not> sv_is_teacher rebuild_service 0 1 rebuild_rows"
    by (simp add: sv_is_teacher_def has_course_access_def get_enrollment_by_course_and_user_def rebuild_db_defs set_slip_days_def Let_def zero_defs)
  define shown where "shown = clean_submissions 0 [sample_previous]"
  have zero: "zero_submission\<lparr>s_userID := 5, s_groupID := 0\<rparr> = zero_submission\<lparr>s_userID := 5\<rparr>" by (simp add: zero_submission_def)
  have run: "get_submissions_handler rebuild_service None ?q rebuild_rows = Inr shown"
    using last st by (simp add: get_submissions_handler_def srq_UserID_def srq_GroupID_def claims_user_id_def zero shown_def Let_def respond_def)
  have "list_all2 (\<lambda>x y. s_ID x = s_ID y \<and> grade_users x \<in> {[], [0]}) shown [sample_previous]"
    using students_read_released_results [OF run] last st
    by (auto simp: srq_UserID_def srq_GroupID_def claims_user_id_def zero elim!: list.rel_mono_strong)
  then have "map s_ID shown = [3]" "\<forall>x\<in>set shown. grade_users x \<in> {[], [0]}"
    by (auto simp: list_all2_Cons2 sample_previous_def)
  with run st show ?thesis by (intro exI conjI)
qed

lemma grading_writes_one_row_witness:
  "\<exists>d'. update_submission_handler rebuild_service \<lparr>gr_SubmissionID = 3, gr_UserID = 5, gr_Status = S_REJECTED\<rparr> rebuild_rows = Inr d' \<and>
     sv_submissions (row_view d') =
       [sample_previous\<lparr>s_Grades := [\<lparr>gr_SubmissionID = 3, gr_UserID = 5, gr_Status = S_REJECTED\<rparr>]\<rparr>]"
proof -
  let ?g = "\<lparr>gr_SubmissionID = 3, gr_UserID = 5, gr_Status = S_REJECTED\<rparr>"
  have c: "sdb (edb (cdb rebuild_service)) = sdb (edb rebuild_cdb)" by (simp add: rebuild_db_defs)
  obtain d' where run: "update_submission_handler rebuild_service ?g rebuild_rows = Inr d'"
    using rebuild_reads(1) by (simp add: update_submission_handler_def c update_submission_def respond_def)
      (simp add: rebuild_db_defs Submission_Store.row_db_def)
  have rows: "rows_ok (row_view rebuild_rows)" using sample_rows_ok by (simp add: rows_ok_def rebuild_rows_def)
  have v: "grade_is_valid ?g" by (simp add: grade_is_valid_def)
  have subs: "sv_submissions rebuild_rows = [sample_previous]" by (simp add: rebuild_rows_def sample_rows_def)
  have keyed: "parts_keyed (row_view rebuild_rows)" by (simp add: parts_keyed_def subs sample_previous_def zero_defs)
  have prev: "s_ID sample_previous = 3" "s_Grades sample_previous = [\<lparr>gr_SubmissionID = 3, gr_UserID = 5, gr_Status = S_APPROVED\<rparr>]"
    by (simp_all add: sample_previous_def)
  from grading_writes_one_row [of rebuild_service row_view, unfolded c, OF rebuild_db_ok(1) rows keyed v run]
  have "row_view d' = (row_view rebuild_rows)\<lparr>sv_submissions :=
      [sample_previous\<lparr>s_Grades := [\<lparr>gr_SubmissionID = 3, gr_UserID = 5, gr_Status = S_REJECTED\<rparr>]\<rparr>]\<rparr>"
    unfolding row_view_simps(1) subs by (simp add: prev)
  from arg_cong [OF this, of sv_submissions] show ?thesis using run by simp
qed

end
