(* ===== verification/Rebuild_Pool.thy ===== *)
theory Rebuild_Pool
  imports Submission_Service
begin

text \<open>
  The goroutines of \<open>internalRebuildAllSubmissions\<close> (\<open>web/rebuild.go\<close>): one for each submission, of which
  \<open>maxContainers\<close> hold the semaphore at a time.  A step is one operation of one goroutine, or the return of the
  caller from \<open>wg.Wait\<close>, so a run is any interleaving of them; what a rebuild does to the database is in
  \<open>Submission_Service\<close>, and here it only ends, in one of three ways, or does not end: a rebuild sends the submission on
  the streams after the results are recorded, and \<open>SendTo\<close> may wait for ever (\<open>stream_deadlock\<close> of \<open>Streams\<close>).
\<close>

section \<open>The pool\<close>

definition maxContainers :: nat where
  "maxContainers = 10"

datatype rebuild_end = Rebuilt | RebuildFailed | RebuildPanicked

text \<open>
  Where a goroutine is: before the semaphore, in the rebuild, waiting for ever in its send on a stream, after the
  rebuild, after giving the place back, ended.
\<close>

datatype rebuild_pc = AtSemaphore | InRebuild | StuckInSend | AtRelease | AtDone | Ended

record rebuild_pool =
  rp_sem :: nat
  rp_errCnt :: "32 word"
  rp_wg :: nat
  rp_pcs :: "rebuild_pc list"
  rp_crashed :: bool
  rp_returned :: bool

definition new_pool :: "'a list \<Rightarrow> rebuild_pool" where
  "new_pool submissions =
     \<lparr>rp_sem = 0, rp_errCnt = 0, rp_wg = length submissions, rp_pcs = map (\<lambda>_. AtSemaphore) submissions,
      rp_crashed = False, rp_returned = False\<rparr>"

datatype pool_action = TakePlace nat | SendBlocks nat | EndRebuild nat rebuild_end | GivePlace nat | CountDown nat | WaitReturns

definition at_pc :: "rebuild_pool \<Rightarrow> nat \<Rightarrow> rebuild_pc \<Rightarrow> bool" where
  "at_pc p i pc \<longleftrightarrow> i < length (rp_pcs p) \<and> rp_pcs p ! i = pc"

definition to_pc :: "nat \<Rightarrow> rebuild_pc \<Rightarrow> rebuild_pool \<Rightarrow> rebuild_pool" where
  "to_pc i pc p = p\<lparr>rp_pcs := (rp_pcs p)[i := pc]\<rparr>"

text \<open>A goroutine that cannot take its next step waits, and a process that has crashed takes none: \<open>None\<close>.\<close>

fun live_step :: "pool_action \<Rightarrow> rebuild_pool \<Rightarrow> rebuild_pool option" where
  "live_step (TakePlace i) p =
     (if at_pc p i AtSemaphore \<and> rp_sem p < maxContainers
      then Some ((to_pc i InRebuild p)\<lparr>rp_sem := rp_sem p + 1\<rparr>) else None)"
| "live_step (SendBlocks i) p = (if at_pc p i InRebuild then Some (to_pc i StuckInSend p) else None)"
| "live_step (EndRebuild i e) p =
     (if at_pc p i InRebuild
      then Some (case e of
             RebuildPanicked \<Rightarrow> p\<lparr>rp_crashed := True\<rparr>
           | RebuildFailed \<Rightarrow> (to_pc i AtRelease p)\<lparr>rp_errCnt := rp_errCnt p + 1\<rparr>
           | Rebuilt \<Rightarrow> to_pc i AtRelease p)
      else None)"
| "live_step (GivePlace i) p =
     (if at_pc p i AtRelease then Some ((to_pc i AtDone p)\<lparr>rp_sem := rp_sem p - 1\<rparr>) else None)"
| "live_step (CountDown i) p =
     (if at_pc p i AtDone then Some ((to_pc i Ended p)\<lparr>rp_wg := rp_wg p - 1\<rparr>) else None)"
| "live_step WaitReturns p =
     (if rp_wg p = 0 \<and> \<not> rp_returned p then Some (p\<lparr>rp_returned := True\<rparr>) else None)"

definition pool_step :: "pool_action \<Rightarrow> rebuild_pool \<Rightarrow> rebuild_pool option" where
  "pool_step a p = (if rp_crashed p then None else live_step a p)"

fun pool_run :: "pool_action list \<Rightarrow> rebuild_pool \<Rightarrow> rebuild_pool option" where
  "pool_run [] p = Some p"
| "pool_run (a # as) p = (case pool_step a p of None \<Rightarrow> None | Some p' \<Rightarrow> pool_run as p')"

inductive reachable_pool :: "'a list \<Rightarrow> rebuild_pool \<Rightarrow> bool" for submissions :: "'a list" where
  start: "reachable_pool submissions (new_pool submissions)"
| step: "reachable_pool submissions p \<Longrightarrow> pool_step a p = Some p' \<Longrightarrow> reachable_pool submissions p'"

section \<open>The invariant\<close>

definition at_count :: "rebuild_pc \<Rightarrow> rebuild_pool \<Rightarrow> nat" where
  "at_count pc p = count_list (rp_pcs p) pc"

text \<open>\<open>holds_place\<close>: in the rebuild, or after it with the place still taken.\<close>

definition pool_ok :: "nat \<Rightarrow> rebuild_pool \<Rightarrow> bool" where
  "pool_ok n p \<longleftrightarrow> length (rp_pcs p) = n \<and> rp_sem p = at_count InRebuild p + at_count StuckInSend p + at_count AtRelease p \<and>
     rp_sem p \<le> maxContainers \<and> rp_wg p + at_count Ended p = n \<and> (rp_returned p \<longrightarrow> rp_wg p = 0)"

lemma count_list_update:
  "i < length xs \<Longrightarrow> xs ! i = a \<Longrightarrow> count_list (xs[i := b]) c + (if a = c then 1 else 0) = count_list xs c + (if b = c then 1 else 0)"
proof (induction xs arbitrary: i)
  case (Cons x xs)
  then show ?case by (cases i) auto
qed simp

lemma at_count_to_pc:
  assumes "at_pc p i a"
  shows "at_count c (to_pc i b p) + (if a = c then 1 else 0) = at_count c p + (if b = c then 1 else 0)"
  using assms count_list_update [of i "rp_pcs p" a b c] by (simp add: at_count_def to_pc_def at_pc_def)

lemma to_pc_simps [simp]:
  "length (rp_pcs (to_pc i b p)) = length (rp_pcs p)" "rp_sem (to_pc i b p) = rp_sem p" "rp_wg (to_pc i b p) = rp_wg p"
  "rp_returned (to_pc i b p) = rp_returned p" "rp_crashed (to_pc i b p) = rp_crashed p" "rp_errCnt (to_pc i b p) = rp_errCnt p"
  by (simp_all add: to_pc_def)

lemma at_count_simps [simp]:
  "at_count c (p\<lparr>rp_sem := x\<rparr>) = at_count c p" "at_count c (p\<lparr>rp_wg := x\<rparr>) = at_count c p"
  "at_count c (p\<lparr>rp_errCnt := e\<rparr>) = at_count c p" "at_count c (p\<lparr>rp_crashed := b\<rparr>) = at_count c p"
  "at_count c (p\<lparr>rp_returned := b\<rparr>) = at_count c p"
  by (simp_all add: at_count_def)

lemma moved:
  assumes "at_pc p i a" and "a \<noteq> b"
  shows "at_count b (to_pc i b p) = at_count b p + 1" "at_count a (to_pc i b p) = at_count a p - 1" "0 < at_count a p"
    and "c \<noteq> a \<Longrightarrow> c \<noteq> b \<Longrightarrow> at_count c (to_pc i b p) = at_count c p"
  using at_count_to_pc [OF assms(1), of a b] at_count_to_pc [OF assms(1), of b b] at_count_to_pc [OF assms(1), of c b] assms(2)
  by simp_all

lemma pool_step_ok:
  assumes "pool_ok n p" and "pool_step a p = Some p'"
  shows "pool_ok n p'"
proof (cases a)
  case (TakePlace i)
  with assms(2) have "at_pc p i AtSemaphore" by (simp add: pool_step_def split: if_splits)
  note m = moved [OF this, of InRebuild]
  from TakePlace assms show ?thesis by (auto simp: pool_step_def pool_ok_def m split: if_splits)
next
  case (SendBlocks i)
  with assms(2) have "at_pc p i InRebuild" by (simp add: pool_step_def split: if_splits)
  note m = moved [OF this, of StuckInSend]
  from SendBlocks assms m(3) show ?thesis by (auto simp: pool_step_def pool_ok_def m(1,2,4) split: if_splits)
next
  case (EndRebuild i e)
  with assms(2) have "at_pc p i InRebuild" by (simp add: pool_step_def split: if_splits)
  note m = moved [OF this, of AtRelease]
  from EndRebuild assms m(3) show ?thesis
    by (cases e) (auto simp: pool_step_def pool_ok_def m(1,2,4) split: if_splits)
next
  case (GivePlace i)
  with assms(2) have "at_pc p i AtRelease" by (simp add: pool_step_def split: if_splits)
  note m = moved [OF this, of AtDone]
  from GivePlace assms m(3) show ?thesis by (auto simp: pool_step_def pool_ok_def m(1,2,4) split: if_splits)
next
  case (CountDown i)
  with assms(2) have pc: "at_pc p i AtDone" by (simp add: pool_step_def split: if_splits)
  note m = moved [OF this, of Ended]
  have "at_count Ended (to_pc i Ended p) \<le> length (rp_pcs (to_pc i Ended p))" unfolding at_count_def by (rule count_le_length)
  with CountDown assms m(3) pc show ?thesis by (auto simp: pool_step_def pool_ok_def m(1,2,4) split: if_splits)
next
  case WaitReturns
  with assms show ?thesis by (auto simp: pool_step_def pool_ok_def split: if_splits)
qed

lemma reachable_pool_ok: "reachable_pool submissions p \<Longrightarrow> pool_ok (length submissions) p"
proof (induction rule: reachable_pool.induct)
  case start
  have "count_list (map (\<lambda>_. AtSemaphore) submissions) pc = 0" if "pc \<noteq> AtSemaphore" for pc
    using that by (induction submissions) auto
  then show ?case by (simp add: pool_ok_def new_pool_def at_count_def)
qed (rule pool_step_ok)

section \<open>The pool comes to an end\<close>

lemma pool_run_snoc: "pool_run (as @ [a]) p = (case pool_run as p of None \<Rightarrow> None | Some p' \<Rightarrow> pool_step a p')"
  by (induction as arbitrary: p) (simp_all split: option.split)

lemma pool_run_reachable: "pool_run as (new_pool submissions) = Some p \<Longrightarrow> reachable_pool submissions p"
  by (induction as arbitrary: p rule: rev_induct)
    (auto simp: pool_run_snoc intro: reachable_pool.intros split: option.splits)

fun steps_to_end :: "rebuild_pc \<Rightarrow> nat" where
  "steps_to_end AtSemaphore = 4"
| "steps_to_end InRebuild = 3"
| "steps_to_end StuckInSend = 0"
| "steps_to_end AtRelease = 2"
| "steps_to_end AtDone = 1"
| "steps_to_end Ended = 0"

definition pool_work :: "rebuild_pool \<Rightarrow> nat" where
  "pool_work p = (if rp_crashed p then 0 else sum_list (map steps_to_end (rp_pcs p)) + (if rp_returned p then 0 else 1))"

lemma sum_steps_update:
  "i < length xs \<Longrightarrow> sum_list (map steps_to_end (xs[i := b])) + steps_to_end (xs ! i) = sum_list (map steps_to_end xs) + steps_to_end b"
proof (induction xs arbitrary: i)
  case (Cons x xs)
  then show ?case by (cases i) simp_all
qed simp

lemma work_to_pc:
  assumes "at_pc p i a" and "steps_to_end b < steps_to_end a"
  shows "sum_list (map steps_to_end (rp_pcs (to_pc i b p))) < sum_list (map steps_to_end (rp_pcs p))"
  using sum_steps_update [of i "rp_pcs p" b] assms by (simp add: at_pc_def to_pc_def)

lemma pool_step_work:
  assumes "pool_step a p = Some p'"
  shows "pool_work p' < pool_work p"
proof (cases a)
  case (TakePlace i)
  with assms work_to_pc [of p i AtSemaphore InRebuild] show ?thesis by (auto simp: pool_step_def pool_work_def split: if_splits)
next
  case (SendBlocks i)
  with assms work_to_pc [of p i InRebuild StuckInSend] show ?thesis by (auto simp: pool_step_def pool_work_def split: if_splits)
next
  case (EndRebuild i e)
  with assms have pc: "at_pc p i InRebuild" by (simp add: pool_step_def split: if_splits)
  then have "0 < sum_list (map steps_to_end (rp_pcs p))" using work_to_pc [OF pc, of AtRelease] by simp
  with EndRebuild assms work_to_pc [OF pc, of AtRelease] show ?thesis
    by (cases e) (auto simp: pool_step_def pool_work_def split: if_splits)
next
  case (GivePlace i)
  with assms work_to_pc [of p i AtRelease AtDone] show ?thesis by (auto simp: pool_step_def pool_work_def split: if_splits)
next
  case (CountDown i)
  with assms work_to_pc [of p i AtDone Ended] show ?thesis by (auto simp: pool_step_def pool_work_def split: if_splits)
next
  case WaitReturns
  with assms show ?thesis by (auto simp: pool_step_def pool_work_def split: if_splits)
qed

lemma pool_run_work: "pool_run as p = Some p' \<Longrightarrow> length as + pool_work p' \<le> pool_work p"
proof (induction as arbitrary: p)
  case (Cons a as)
  then obtain q where q: "pool_step a p = Some q" "pool_run as q = Some p'" by (auto split: option.splits)
  show ?case using Cons.IH [OF q(2)] pool_step_work [OF q(1)] by simp
qed simp

lemma new_pool_work: "pool_work (new_pool submissions) = 4 * length submissions + 1"
  by (induction submissions) (simp_all add: pool_work_def new_pool_def)

lemma returned_all_ended:
  assumes "pool_ok n p" and "rp_returned p" and "i < n"
  shows "rp_pcs p ! i = Ended"
proof (rule ccontr)
  assume "rp_pcs p ! i \<noteq> Ended"
  then have "at_pc p i (rp_pcs p ! i)" using assms by (simp add: at_pc_def pool_ok_def)
  then have "rp_pcs p ! i \<in> set (filter (\<lambda>x. Ended \<noteq> x) (rp_pcs p))" using \<open>rp_pcs p ! i \<noteq> Ended\<close> by (simp add: at_pc_def)
  moreover have "length (filter (\<lambda>x. Ended = x) (rp_pcs p)) + length (filter (\<lambda>x. Ended \<noteq> x) (rp_pcs p)) = n"
    using assms(1) by (simp add: sum_length_filter_compl pool_ok_def)
  moreover have "length (filter (\<lambda>x. Ended = x) (rp_pcs p)) = n"
    using assms(1,2) by (simp add: pool_ok_def at_count_def count_list_eq_length_filter)
  ultimately show False by (metis add_cancel_left_right empty_iff length_0_conv list.set(1))
qed

text \<open>While fewer than ten sends wait for ever, the goroutines that do not can go on; with none of them so can the caller.\<close>

definition unfinished :: "rebuild_pool \<Rightarrow> bool" where
  "unfinished p \<longleftrightarrow> at_count StuckInSend p = 0 \<or> \<not> set (rp_pcs p) \<subseteq> {StuckInSend, Ended}"

lemma pool_progress:
  assumes "pool_ok n p" and "\<not> rp_crashed p" and "\<not> rp_returned p" and "at_count StuckInSend p < 10" and "unfinished p"
  shows "\<exists>a p'. (\<forall>i. a \<noteq> SendBlocks i) \<and> pool_step a p = Some p'"
proof -
  have "\<exists>a. (\<forall>i. a \<noteq> SendBlocks i) \<and> pool_step a p \<noteq> None"
  proof (cases "\<exists>i pc. at_pc p i pc \<and> pc \<in> {InRebuild, AtRelease, AtDone}")
    case True
    then obtain i pc where i: "at_pc p i pc" "pc \<in> {InRebuild, AtRelease, AtDone}" by blast
    show ?thesis
    proof (cases pc)
      case InRebuild
      with i assms(2) show ?thesis by (intro exI [of _ "EndRebuild i Rebuilt"]) (simp add: pool_step_def)
    next
      case AtRelease
      with i assms(2) show ?thesis by (intro exI [of _ "GivePlace i"]) (simp add: pool_step_def)
    next
      case AtDone
      with i assms(2) show ?thesis by (intro exI [of _ "CountDown i"]) (simp add: pool_step_def)
    qed (use i in simp_all)
  next
    case False
    then have rest: "set (rp_pcs p) \<subseteq> {AtSemaphore, StuckInSend, Ended}"
      by (auto simp: at_pc_def in_set_conv_nth) (metis rebuild_pc.exhaust)
    then have "at_count InRebuild p = 0" "at_count AtRelease p = 0"
      by (auto simp: at_count_def count_list_0_iff)
    then have sem: "rp_sem p < 10" using assms(1,4) by (simp add: pool_ok_def)
    show ?thesis
    proof (cases "AtSemaphore \<in> set (rp_pcs p)")
      case True
      then obtain i where "at_pc p i AtSemaphore" by (auto simp: at_pc_def in_set_conv_nth)
      then have "pool_step (TakePlace i) p \<noteq> None" using assms(2) sem by (simp add: pool_step_def maxContainers_def)
      then show ?thesis by blast
    next
      case False
      with rest have "set (rp_pcs p) \<subseteq> {StuckInSend, Ended}" by blast
      moreover from this assms(5) have "StuckInSend \<notin> set (rp_pcs p)" by (auto simp: unfinished_def at_count_def count_list_0_iff)
      ultimately have "filter (\<lambda>x. Ended = x) (rp_pcs p) = rp_pcs p" by (auto simp: filter_id_conv)
      then have "at_count Ended p = n" using assms(1) by (simp add: at_count_def count_list_eq_length_filter pool_ok_def)
      then have "rp_wg p = 0" using assms(1) by (simp add: pool_ok_def)
      then have "pool_step WaitReturns p \<noteq> None" using assms(2,3) by (simp add: pool_step_def)
      then show ?thesis by blast
    qed
  qed
  then show ?thesis by blast
qed

text \<open>A send that waits for ever keeps the caller waiting; ten of them keep every goroutine that has no place from it.\<close>

lemma stuck_step:
  assumes "pool_ok n p" and "pool_step a p = Some p'" and "at_pc p i StuckInSend"
  shows "at_pc p' i StuckInSend \<and> \<not> rp_returned p'"
proof -
  have "live_step a p = Some p'" using assms(2) by (simp add: pool_step_def split: if_splits)
  then have "at_pc p' i StuckInSend" using assms(3)
    by (cases a) (auto simp: at_pc_def to_pc_def nth_list_update split: if_splits rebuild_end.splits)
  moreover from this have "\<not> rp_returned p'"
    using returned_all_ended [OF pool_step_ok [OF assms(1,2)]] pool_step_ok [OF assms(1,2)] by (force simp: at_pc_def pool_ok_def)
  ultimately show ?thesis ..
qed

lemma stuck_run:
  "pool_ok n p \<Longrightarrow> pool_run as p = Some p' \<Longrightarrow> at_pc p i StuckInSend \<Longrightarrow> at_pc p' i StuckInSend \<and> (as \<noteq> [] \<longrightarrow> \<not> rp_returned p')"
proof (induction as arbitrary: p)
  case (Cons a as)
  then obtain q where q: "pool_step a p = Some q" "pool_run as q = Some p'" by (auto split: option.splits)
  from stuck_step [OF Cons.prems(1) q(1) Cons.prems(3)] Cons.IH [OF pool_step_ok [OF Cons.prems(1) q(1)] q(2)] q(2)
  show ?case by (cases as) auto
qed simp

lemma full_step:
  assumes "pool_ok n p" and "at_count StuckInSend p = 10" and "pool_step a p = Some p'"
  shows "at_count StuckInSend p' = 10 \<and> (\<forall>i. a \<noteq> TakePlace i)"
proof -
  have full: "rp_sem p = 10" "at_count InRebuild p = 0" using assms(1,2) by (simp_all add: pool_ok_def maxContainers_def)
  have live: "live_step a p = Some p'" using assms(3) by (simp add: pool_step_def split: if_splits)
  have none: "\<not> at_pc p i InRebuild" for i
    using moved(3) [of p i InRebuild Ended] full(2) by auto
  have keeps: "at_count StuckInSend (to_pc i b p) = at_count StuckInSend p" if "at_pc p i c" "c \<noteq> StuckInSend" "b \<noteq> StuckInSend" for i b c
    using at_count_to_pc [OF that(1), of StuckInSend b] that(2,3) by simp
  show ?thesis using live none full assms(2)
    by (cases a) (auto simp: maxContainers_def keeps split: if_splits)
qed

lemma full_run:
  "pool_ok n p \<Longrightarrow> at_count StuckInSend p = 10 \<Longrightarrow> pool_run as p = Some p' \<Longrightarrow> \<forall>i. TakePlace i \<notin> set as"
proof (induction as arbitrary: p)
  case (Cons a as)
  then obtain q where q: "pool_step a p = Some q" "pool_run as q = Some p'" by (auto split: option.splits)
  from full_step [OF Cons.prems(1,2) q(1)] Cons.IH [OF pool_step_ok [OF Cons.prems(1) q(1)] _ q(2)] show ?case by auto
qed simp

section \<open>Every submission is rebuilt once\<close>

definition ends_of :: "nat \<Rightarrow> pool_action list \<Rightarrow> rebuild_end list" where
  "ends_of i as = List.map_filter (\<lambda>a. case a of EndRebuild j e \<Rightarrow> if j = i then Some e else None | _ \<Rightarrow> None) as"

definition failures :: "pool_action list \<Rightarrow> nat" where
  "failures as = length (filter (\<lambda>a. case a of EndRebuild i RebuildFailed \<Rightarrow> True | _ \<Rightarrow> False) as)"

lemma ends_of_simps [simp]:
  "ends_of i [] = []"
  "ends_of i (as @ [a]) = ends_of i as @ (case a of EndRebuild j e \<Rightarrow> if j = i then [e] else [] | _ \<Rightarrow> [])"
  by (simp_all add: ends_of_def List.map_filter_def split: pool_action.split)

definition run_ok :: "nat \<Rightarrow> pool_action list \<Rightarrow> rebuild_pool \<Rightarrow> bool" where
  "run_ok n as p \<longleftrightarrow> rp_errCnt p = of_nat (failures as) \<and>
     (\<forall>i<n. length (ends_of i as) = (if rp_pcs p ! i \<in> {AtSemaphore, InRebuild, StuckInSend} then 0 else 1))"

lemma run_ok_move:
  assumes "run_ok n as p" and "at_pc p i a" and "length (rp_pcs p) = n"
    and "p' = (to_pc i b p)\<lparr>rp_sem := x\<rparr> \<or> p' = (to_pc i b p)\<lparr>rp_wg := x\<rparr>" and "\<And>j e. act \<noteq> EndRebuild j e"
    and "(a \<in> {AtSemaphore, InRebuild, StuckInSend}) = (b \<in> {AtSemaphore, InRebuild, StuckInSend})"
  shows "run_ok n (as @ [act]) p'"
proof -
  have "failures (as @ [act]) = failures as" "ends_of j (as @ [act]) = ends_of j as" for j
    using assms(5) by (cases act; simp add: failures_def)+
  moreover have "rp_pcs p' = (rp_pcs p)[i := b]" "rp_errCnt p' = rp_errCnt p" using assms(4) by (auto simp: to_pc_def)
  ultimately show ?thesis using assms(1-3,6) by (auto simp: run_ok_def at_pc_def nth_list_update)
qed

lemma run_ok_end:
  assumes "run_ok n as p" and "at_pc p i InRebuild" and "length (rp_pcs p) = n"
    and "e = RebuildFailed \<and> p' = (to_pc i AtRelease p)\<lparr>rp_errCnt := rp_errCnt p + 1\<rparr> \<or> e = Rebuilt \<and> p' = to_pc i AtRelease p"
  shows "run_ok n (as @ [EndRebuild i e]) p'"
proof -
  have "rp_pcs p' = (rp_pcs p)[i := AtRelease]" using assms(4) by (auto simp: to_pc_def)
  moreover have "rp_errCnt p' = of_nat (failures (as @ [EndRebuild i e]))"
    using assms(1,4) by (auto simp: run_ok_def failures_def to_pc_def)
  ultimately show ?thesis using assms(1-3) by (auto simp: run_ok_def at_pc_def nth_list_update)
qed

lemma pool_run_ok:
  assumes "pool_run as (new_pool submissions) = Some p" and "\<not> rp_crashed p"
  shows "run_ok (length submissions) as p"
  using assms
proof (induction as arbitrary: p rule: rev_induct)
  case Nil
  then show ?case by (auto simp: run_ok_def new_pool_def failures_def)
next
  case (snoc a as)
  then obtain q where q: "pool_run as (new_pool submissions) = Some q" "pool_step a q = Some p" by (auto simp: pool_run_snoc split: option.splits)
  then have live: "\<not> rp_crashed q" "live_step a q = Some p" by (auto simp: pool_step_def split: if_splits)
  note ok = snoc.IH [OF q(1) live(1)]
  have n: "length (rp_pcs q) = length submissions"
    using reachable_pool_ok [OF pool_run_reachable [OF q(1)]] by (simp add: pool_ok_def)
  show ?case
  proof (cases a)
    case (TakePlace i)
    then show ?thesis using live(2) by (intro run_ok_move [OF ok _ n, where i = i and a = AtSemaphore and b = InRebuild]) (auto split: if_splits)
  next
    case (SendBlocks i)
    then have "p = to_pc i StuckInSend q" "at_pc q i InRebuild" using live(2) by (auto split: if_splits)
    with ok n SendBlocks show ?thesis by (auto simp: run_ok_def failures_def at_pc_def to_pc_def nth_list_update)
  next
    case (EndRebuild i e)
    then show ?thesis using live(2) snoc.prems(2) unfolding EndRebuild
      by (intro run_ok_end [OF ok _ n]) (auto split: if_splits rebuild_end.splits)
  next
    case (GivePlace i)
    then show ?thesis using live(2) by (intro run_ok_move [OF ok _ n, where i = i and a = AtRelease and b = AtDone]) (auto split: if_splits)
  next
    case (CountDown i)
    then show ?thesis using live(2) by (intro run_ok_move [OF ok _ n, where i = i and a = AtDone and b = Ended]) (auto split: if_splits)
  next
    case WaitReturns
    then have "p = q\<lparr>rp_returned := True\<rparr>" using live(2) by (auto split: if_splits)
    with ok WaitReturns show ?thesis by (simp add: run_ok_def failures_def)
  qed
qed



end
