(* ===== verification/Env_File.thy ===== *)
theory Env_File
  imports Prelude
begin

text \<open>
  The file of environment variables: \<open>internal/env/save.go\<close>, \<open>load.go\<close> and \<open>auth_secret.go\<close>.  Strings are bytes.
  The file system is a map from paths to contents; \<open>io\<close> says which operations the system refuses.  A map of new
  variables is the list of its entries in the order in which the iteration visits them.
\<close>

section \<open>The process and its files\<close>

type_synonym environ = "string \<rightharpoonup> string"
type_synonym disk = "string \<rightharpoonup> string"

datatype file_op = StatOp | ReadOp | RemoveOp | RenameOp | OpenOp | WriteOp | CloseOp

type_synonym faults = "file_op \<Rightarrow> string \<Rightarrow> string option"

definition getenv :: "environ \<Rightarrow> string \<Rightarrow> string" where
  "getenv e k = (case e k of None \<Rightarrow> [] | Some v \<Rightarrow> v)"

text \<open>\<open>os.Setenv\<close>, whose error the callers ignore.\<close>

definition setenv :: "string \<Rightarrow> string \<Rightarrow> environ \<Rightarrow> environ" where
  "setenv k v e =
     (if k = [] \<or> CHR ''='' \<in> set k \<or> CHR 0x00 \<in> set k \<or> CHR 0x00 \<in> set v then e else e(k \<mapsto> v))"

definition file_exists :: "faults \<Rightarrow> disk \<Rightarrow> string \<Rightarrow> bool" where
  "file_exists io dk p \<longleftrightarrow> dk p \<noteq> None \<and> io StatOp p = None"

definition read_file :: "faults \<Rightarrow> disk \<Rightarrow> string \<Rightarrow> string + string" where
  "read_file io dk p =
     (case io ReadOp p of
        Some e \<Rightarrow> Inl e
      | None \<Rightarrow> (case dk p of None \<Rightarrow> Inl ''no such file or directory'' | Some c \<Rightarrow> Inr c))"

section \<open>Expansion of variables\<close>

text \<open>\<open>os.Expand\<close>: the name behind a dollar sign and the number of bytes it takes.\<close>

definition shell_special :: "char \<Rightarrow> bool" where
  "shell_special c \<longleftrightarrow> c \<in> set ''*#$@!?-0123456789''"

definition shell_alnum :: "char \<Rightarrow> bool" where
  "shell_alnum c \<longleftrightarrow> c = CHR ''_'' \<or> (let n = of_char c :: nat in (48 \<le> n \<and> n \<le> 57) \<or> (97 \<le> n \<and> n \<le> 122) \<or> (65 \<le> n \<and> n \<le> 90))"

definition braced_name :: "string \<Rightarrow> string \<times> nat" where
  "braced_name t =
     (if 1 < length t \<and> shell_special (t ! 0) \<and> t ! 1 = CHR ''}'' then (take 1 t, 3)
      else if CHR ''}'' \<notin> set t then ([], 1)
      else (let n = takeWhile (\<lambda>c. c \<noteq> CHR ''}'') t in if n = [] then ([], 2) else (n, length n + 2)))"

definition shell_name :: "string \<Rightarrow> string \<times> nat" where
  "shell_name s =
     (case s of
        [] \<Rightarrow> ([], 0)
      | c # t \<Rightarrow>
          if c = CHR ''{'' then braced_name t
          else if shell_special c then ([c], 1)
          else (let n = takeWhile shell_alnum s in (n, length n)))"

function expand_env :: "environ \<Rightarrow> string \<Rightarrow> string" where
  "expand_env e [] = []"
| "expand_env e (c # s) =
     (if c \<noteq> CHR ''$'' \<or> s = [] then c # expand_env e s
      else (let (name, w) = shell_name s
            in (if name = [] \<and> 0 < w then [] else if name = [] then [c] else getenv e name) @ expand_env e (drop w s)))"
  by pat_completeness auto
termination by (relation "measure (\<lambda>(e, s). length s)") auto

section \<open>Loading\<close>

text \<open>
  \<open>bufio.Scanner\<close>: a line that fills the buffer of 64 KiB ends the scan with an error.  A carriage return
  before the end of a line is dropped.
\<close>

definition maxScanTokenSize :: nat where "maxScanTokenSize = 65536"

definition scan_lines :: "string \<Rightarrow> string list" where
  "scan_lines s = (let ls = split_on CHR 0x0A s in if last ls = [] then butlast ls else ls)"

definition drop_cr :: "string \<Rightarrow> string" where
  "drop_cr l = (if l \<noteq> [] \<and> last l = CHR 0x0D then butlast l else l)"

definition ignore_line :: "string \<Rightarrow> bool" where
  "ignore_line l \<longleftrightarrow> trim_space l = [] \<or> has_prefix (trim_space l) ''#''"

definition trim_quotes :: "string \<Rightarrow> string" where
  "trim_quotes s = rev (dropWhile (\<lambda>c. c = CHR 0x22) (rev (dropWhile (\<lambda>c. c = CHR 0x22) s)))"

definition load_line :: "string \<Rightarrow> environ \<Rightarrow> environ" where
  "load_line l e =
     (if ignore_line l then e
      else case cut l ''='' of
             None \<Rightarrow> e
           | Some (key, val) \<Rightarrow>
               (let k = trim_space key
                in if getenv e k \<noteq> [] then e else setenv k (expand_env e (trim_quotes (trim_space val))) e))"

fun load_lines :: "string list \<Rightarrow> environ \<Rightarrow> string option \<times> environ" where
  "load_lines [] e = (None, e)"
| "load_lines (l # ls) e =
     (if maxScanTokenSize \<le> length l then (Some ''bufio.Scanner: token too long'', e)
      else load_lines ls (load_line (drop_cr l) e))"

definition load_env :: "faults \<Rightarrow> string \<Rightarrow> disk \<Rightarrow> environ \<Rightarrow> string option \<times> environ" where
  "load_env io filename dk e =
     (case read_file io dk filename of Inl err \<Rightarrow> (Some err, e) | Inr c \<Rightarrow> load_lines (scan_lines c) e)"

section \<open>Saving\<close>

definition backup :: "string \<Rightarrow> string" where
  "backup filename = filename @ ''.bak''"

definition prepared :: "faults \<Rightarrow> string \<Rightarrow> disk \<Rightarrow> string option" where
  "prepared io filename dk =
     (if file_exists io dk (backup filename)
      then Some (backup filename @ '' already exists; check its content before removing and try again'')
      else if \<not> file_exists io dk filename then Some (''missing required '' @ filename @ '' file'')
      else None)"

definition load_content :: "faults \<Rightarrow> string \<Rightarrow> disk \<Rightarrow> string" where
  "load_content io filename dk = (case read_file io dk filename of Inl e \<Rightarrow> [] | Inr c \<Rightarrow> c)"

definition env_line :: "string \<Rightarrow> string \<Rightarrow> string" where
  "env_line key val = key @ CHR ''='' # val"

text \<open>The lines that replace the old ones, and the keys among them.\<close>

fun update_lines :: "(string \<rightharpoonup> string) \<Rightarrow> string list \<Rightarrow> string list \<times> string list" where
  "update_lines env [] = ([], [])"
| "update_lines env (l # ls) =
     (let (out, updated) = update_lines env ls
      in case cut l ''='' of
           None \<Rightarrow> (l # out, updated)
         | Some (key, val) \<Rightarrow>
             (let k = trim_space key
              in (env_line k (case env k of Some v \<Rightarrow> v | None \<Rightarrow> trim_space val) # out, k # updated)))"

definition saved_lines :: "string \<Rightarrow> (string \<times> string) list \<Rightarrow> string list" where
  "saved_lines content env =
     (let (out, updated) = update_lines (map_of env) (split_on CHR 0x0A (trim_space content))
      in out @ map (\<lambda>(k, v). env_line k v) (filter (\<lambda>(k, v). k \<notin> set updated) env))"

definition saved_text :: "string \<Rightarrow> (string \<times> string) list \<Rightarrow> string" where
  "saved_text content env = concat (map (\<lambda>l. l @ [CHR 0x0A]) (saved_lines content env))"

text \<open>The error of a write is seen only where a new variable is written.\<close>

definition update_file :: "faults \<Rightarrow> string \<Rightarrow> string \<Rightarrow> (string \<times> string) list \<Rightarrow> disk \<Rightarrow> string option \<times> disk" where
  "update_file io filename content env dk =
     (case io OpenOp filename of
        Some e \<Rightarrow> (Some e, dk)
      | None \<Rightarrow>
          (case io WriteOp filename of
             None \<Rightarrow> (io CloseOp filename, dk(filename \<mapsto> saved_text content env))
           | Some e \<Rightarrow>
               (if \<exists>(k, v)\<in>set env. k \<notin> set (snd (update_lines (map_of env) (split_on CHR 0x0A (trim_space content))))
                then Some e else io CloseOp filename, dk(filename \<mapsto> []))))"

definition save_env :: "faults \<Rightarrow> string \<Rightarrow> (string \<times> string) list \<Rightarrow> disk \<Rightarrow> string option \<times> disk" where
  "save_env io filename env dk =
     (let content = load_content io filename dk; bak = backup filename in
      case (if file_exists io dk bak then io RemoveOp bak else None) of
        Some e \<Rightarrow> (Some e, dk)
      | None \<Rightarrow>
          (let dk = (if file_exists io dk bak then dk(bak := None) else dk) in
           case (case dk filename of None \<Rightarrow> Some ''no such file or directory'' | Some c \<Rightarrow> io RenameOp filename) of
             Some e \<Rightarrow> (Some e, dk)
           | None \<Rightarrow> update_file io filename content env (dk(bak := dk filename, filename := None))))"

section \<open>The secret that signs the tokens\<close>

definition authSecret :: string where "authSecret = ''QUICKFEED_AUTH_SECRET''"

definition auth_secret :: "environ \<Rightarrow> string" where
  "auth_secret e = getenv e authSecret"

definition new_auth_secret :: "faults \<Rightarrow> string \<Rightarrow> string \<Rightarrow> disk \<Rightarrow> string option \<times> disk" where
  "new_auth_secret io envFile secret dk = save_env io envFile [(authSecret, secret)] dk"

definition ensure_auth_secret ::
    "faults \<Rightarrow> string \<Rightarrow> string \<Rightarrow> bool \<Rightarrow> disk \<times> environ \<Rightarrow> (string + bool) \<times> disk \<times> environ" where
  "ensure_auth_secret io envFile secret force = (\<lambda>(dk, e).
     (if \<not> force \<and> auth_secret e \<noteq> [] then (Inr False, dk, e)
      else case new_auth_secret io envFile secret dk of
             (Some err, dk) \<Rightarrow> (Inl err, dk, e)
           | (None, dk) \<Rightarrow>
               (case load_env io envFile dk e of
                  (Some err, e) \<Rightarrow> (Inl err, dk, e) | (None, e) \<Rightarrow> (Inr True, dk, e))))"

section \<open>What is loaded is never overridden\<close>

lemma getenv_setenv_other: "x \<noteq> k \<Longrightarrow> getenv (setenv k v e) x = getenv e x"
  by (simp add: getenv_def setenv_def)

lemma load_line_keeps: "getenv e k \<noteq> [] \<Longrightarrow> getenv (load_line l e) k = getenv e k"
  by (cases "cut l ''=''") (auto simp: load_line_def Let_def intro!: getenv_setenv_other)

lemma load_lines_keeps: "getenv e k \<noteq> [] \<Longrightarrow> getenv (snd (load_lines ls e)) k = getenv e k"
  by (induction ls arbitrary: e) (simp_all add: load_line_keeps)

lemma load_env_keeps: "getenv e k \<noteq> [] \<Longrightarrow> getenv (snd (load_env io f dk e)) k = getenv e k"
  by (simp add: load_env_def load_lines_keeps split: sum.split)

text \<open>Saving never loses the file: whichever operation the system refuses, the old content is afterwards in the file or
  in its backup, and no other file is touched.\<close>

lemma save_keeps_old_content:
  assumes "dk f = Some old" and "save_env io f env dk = (r, dk')"
  shows "(dk' f = Some old \<or> dk' (backup f) = Some old) \<and> (\<forall>p. p \<noteq> f \<and> p \<noteq> backup f \<longrightarrow> dk' p = dk p)"
proof -
  have ne: "backup f \<noteq> f" by (simp add: backup_def)
  have upd: "(\<forall>p. p \<noteq> f \<longrightarrow> d' p = d p)" if "update_file io f c env d = (x, d')" for c d d' x
    using that by (auto simp: update_file_def split: option.splits)
  show ?thesis
    using assms upd ne
    by (auto simp: save_env_def Let_def split: option.splits if_splits) (metis fun_upd_apply)+
qed

lemma save_env_text:
  assumes "save_env io f env dk = (None, dk')" and "io WriteOp f = None"
  shows "dk' f = Some (saved_text (load_content io f dk) env)"
  using assms by (auto simp: save_env_def update_file_def Let_def split: option.splits if_splits)

text \<open>C40: A forced rotation of the secret does not reach the running process.  When it reports success, the file holds the new
  secret in place of the old one; but loading skips variables that are set, so a process that has a secret keeps it, and
  the next process is the first to read the new one.\<close>

theorem forced_rotation_keeps_secret:
  assumes "auth_secret e \<noteq> []" and "ensure_auth_secret io f secret True (dk, e) = (r, dk', e')"
  shows "auth_secret e' = auth_secret e \<and>
    (r = Inr True \<and> io WriteOp f = None \<longrightarrow> dk' f = Some (saved_text (load_content io f dk) [(authSecret, secret)]))"
proof -
  have "auth_secret e' = auth_secret e"
    using assms load_env_keeps [of e authSecret io f]
    by (auto simp: ensure_auth_secret_def auth_secret_def split: option.splits prod.splits) (metis snd_conv)+
  moreover have "dk' f = Some (saved_text (load_content io f dk) [(authSecret, secret)])" if "r = Inr True" "io WriteOp f = None"
    using assms(2) that
    by (auto simp: ensure_auth_secret_def new_auth_secret_def split: option.splits prod.splits intro: save_env_text)
  ultimately show ?thesis by blast
qed

section \<open>Saving and loading\<close>

text \<open>A line that the trimming at either end leaves alone is the trimmed text.\<close>

lemma strip_fixed:
  assumes "[] \<notin> set codes"
  shows "strip_one codes s = s \<longleftrightarrow> (\<forall>p\<in>set codes. \<not> has_prefix s p)"
proof (cases "find (has_prefix s) codes")
  case None
  then show ?thesis unfolding find_None_iff by (auto simp: strip_one_def find_None_iff [THEN iffD2])
next
  case (Some p)
  then have p: "p \<in> set codes" "has_prefix s p" by (auto simp: find_Some_iff)
  then have "length (drop (length p) s) < length s" using assms by (cases p) (auto elim!: has_prefixE)
  then have "drop (length p) s \<noteq> s" by (metis less_irrefl)
  with Some p show ?thesis by (auto simp: strip_one_def)
qed

lemma space_codes_nonempty: "[] \<notin> set space_codes" "[] \<notin> set (map rev space_codes)"
  by (simp_all add: space_codes_eval)

lemma no_space_prefix: "strip_one space_codes s = s \<longleftrightarrow> (\<forall>p\<in>set space_codes. \<not> has_prefix s p)"
  "strip_one (map rev space_codes) s = s \<longleftrightarrow> (\<forall>p\<in>set space_codes. \<not> has_prefix s (rev p))"
  by (simp_all only: strip_fixed [OF space_codes_nonempty(1)] strip_fixed [OF space_codes_nonempty(2)])
    simp

lemma trim_left_fixed: "strip_one codes s = s \<Longrightarrow> trim_left codes n s = s"
  by (cases n) simp_all

text \<open>What \<open>trim_space\<close> gives is fixed at both ends, and what is fixed at both ends is left alone.\<close>

definition trimmed :: "string \<Rightarrow> bool" where
  "trimmed s \<longleftrightarrow> (\<forall>p\<in>set space_codes. \<not> has_prefix s p) \<and> (\<forall>p\<in>set space_codes. \<not> has_prefix (rev s) (rev p))"

lemma trim_trimmed: "trimmed s \<Longrightarrow> trim_space s = s"
  unfolding trimmed_def no_space_prefix [symmetric] by (simp add: trim_space_def trim_left_fixed Let_def)

lemma has_prefix_mono: "has_prefix a p \<Longrightarrow> has_prefix (a @ b) p"
  by (auto elim!: has_prefixE)

lemma trim_space_trimmed: "trimmed (trim_space s)"
proof -
  let ?l = "trim_left space_codes (length s) s"
  let ?r = "trim_left (map rev space_codes) (length ?l) (rev ?l)"
  have l: "\<forall>p\<in>set space_codes. \<not> has_prefix ?l p"
    using trim_left_stops [OF order_refl space_codes_nonempty(1)] unfolding no_space_prefix .
  have r: "\<forall>p\<in>set space_codes. \<not> has_prefix ?r (rev p)"
    using trim_left_stops [OF _ space_codes_nonempty(2), of "rev ?l" "length ?l"] unfolding no_space_prefix by simp
  obtain q where "rev ?l = q @ ?r" using trim_left_suffix by blast
  then have "?l = rev ?r @ rev q" by (metis rev_append rev_rev_ident)
  then have "\<forall>p\<in>set space_codes. \<not> has_prefix (rev ?r) p" using l has_prefix_mono by metis
  with r show ?thesis by (simp add: trimmed_def trim_space_def Let_def)
qed

lemma trim_space_iff: "trim_space s = s \<longleftrightarrow> trimmed s"
  using trim_trimmed trim_space_trimmed by metis

text \<open>An equals sign is no part of a white space character.\<close>

lemma prefix_before_sign:
  assumes "has_prefix (a @ c # b) p" and "c \<notin> set p"
  shows "has_prefix a p"
proof -
  from assms(1) obtain t where t: "a @ c # b = p @ t" by (auto elim: has_prefixE)
  then obtain u where "a = p @ u \<and> u @ c # b = t \<or> a @ u = p \<and> c # b = u @ t"
    by (auto simp: append_eq_append_conv2)
  with assms(2) have "\<exists>u. a = p @ u" by (cases u) auto
  then show ?thesis by auto
qed

lemma trimmed_line:
  assumes "trimmed k" and "trimmed v"
  shows "trimmed (env_line k v)"
proof -
  have sign: "CHR ''='' \<notin> set p" if "p \<in> set space_codes" for p
    using that by (auto simp: space_codes_eval)
  show ?thesis
    using assms prefix_before_sign [of k "CHR ''=''" v] prefix_before_sign [of "rev v" "CHR ''=''" "rev k"] sign
    by (auto simp: trimmed_def env_line_def)
qed

lemma cut_char_None: "cut s [c] = None \<longleftrightarrow> c \<notin> set s"
  by (induction s) (auto simp: cut_def has_prefix_def split: option.splits)

lemma cut_char_Some: "c \<notin> set a \<Longrightarrow> cut (a @ c # b) [c] = Some (a, b)"
proof (induction a)
  case (Cons x a)
  then have "x \<noteq> c" by auto
  then have "cut (x # a @ c # b) [c] = map_option (\<lambda>(a, b). (x # a, b)) (cut (a @ c # b) [c])"
    by (cases "index_of (a @ c # b) [c]") (simp_all add: cut_def has_prefix_def)
  with Cons show ?case by simp
qed (simp add: cut_def has_prefix_def)

lemma cut_char_key: "cut s [c] = Some (a, b) \<Longrightarrow> s = a @ c # b \<and> c \<notin> set a"
proof -
  assume cut: "cut s [c] = Some (a, b)"
  then have "c \<in> set s" by (metis cut_char_None option.distinct(1))
  then obtain x y where s: "s = x @ c # y" "c \<notin> set x" by (meson split_list_first)
  with cut cut_char_Some [of c x y] show ?thesis by simp
qed

lemma split_lines:
  "\<forall>l\<in>set ls. d \<notin> set l \<Longrightarrow> split_on d (concat (map (\<lambda>l. l @ [d]) ls)) = ls @ [[]]"
  by (induction ls) (simp_all add: split_on_append)

lemma scan_saved:
  assumes "\<forall>l\<in>set ls. CHR 0x0A \<notin> set l"
  shows "scan_lines (concat (map (\<lambda>l. l @ [CHR 0x0A]) ls)) = ls"
  using split_lines [OF assms] by (simp add: scan_lines_def)

text \<open>Keys and values that survive the trimming, the quotes and the expansion of the loader.\<close>

definition plain_key :: "string \<Rightarrow> bool" where
  "plain_key k \<longleftrightarrow> k \<noteq> [] \<and> trim_space k = k \<and> hd k \<noteq> CHR ''#'' \<and> CHR ''='' \<notin> set k \<and> CHR 0x0A \<notin> set k \<and> CHR 0x00 \<notin> set k"

definition plain_value :: "string \<Rightarrow> bool" where
  "plain_value v \<longleftrightarrow> trim_space v = v \<and> CHR 0x0A \<notin> set v \<and> CHR 0x00 \<notin> set v \<and> CHR ''$'' \<notin> set v \<and>
     (v = [] \<or> hd v \<noteq> CHR 0x22 \<and> last v \<noteq> CHR 0x22)"

lemma expand_plain: "CHR ''$'' \<notin> set v \<Longrightarrow> expand_env e v = v"
proof (induction v)
  case (Cons a v)
  then have "a \<noteq> CHR ''$''" by auto
  with Cons show ?case by simp
qed simp

lemma trim_quotes_plain: "v = [] \<or> hd v \<noteq> CHR 0x22 \<and> last v \<noteq> CHR 0x22 \<Longrightarrow> trim_quotes v = v"
proof -
  assume v: "v = [] \<or> hd v \<noteq> CHR 0x22 \<and> last v \<noteq> CHR 0x22"
  then have "dropWhile (\<lambda>c. c = CHR 0x22) v = v" by (cases v) auto
  moreover have "dropWhile (\<lambda>c. c = CHR 0x22) (rev v) = rev v" using v by (cases v rule: rev_cases) auto
  ultimately show ?thesis by (simp add: trim_quotes_def)
qed

lemma carriage_return_space: "[CHR 0x0D] \<in> set space_codes"
  by (simp add: space_codes_eval)

lemma drop_cr_trimmed: "trimmed l \<Longrightarrow> drop_cr l = l"
  using carriage_return_space by (cases l rule: rev_cases) (force simp: trimmed_def drop_cr_def has_prefix_def)+

lemma load_other:
  assumes "trimmed k'" and "trimmed v'" and "CHR ''='' \<notin> set k'" and "k' \<noteq> k"
  shows "load_line (drop_cr (env_line k' v')) e k = e k"
proof -
  have "drop_cr (env_line k' v') = env_line k' v'" using trimmed_line [OF assms(1,2)] by (rule drop_cr_trimmed)
  moreover have "cut (env_line k' v') ''='' = Some (k', v')" using cut_char_Some [OF assms(3)] by (simp add: env_line_def)
  ultimately show ?thesis
    using trim_trimmed [OF assms(1)] assms(4) by (simp add: load_line_def setenv_def Let_def)
qed

lemma load_unset: "CHR ''='' \<notin> set l \<Longrightarrow> load_line (drop_cr l) e = e"
proof -
  assume "CHR ''='' \<notin> set l"
  then have "CHR ''='' \<notin> set (drop_cr l)" by (auto simp: drop_cr_def dest: in_set_butlastD)
  then have "cut (drop_cr l) ''='' = None" by (simp add: cut_char_None)
  then show ?thesis by (simp add: load_line_def)
qed

lemma load_same:
  assumes "plain_key k" and "plain_value v" and "getenv e k \<noteq> [] \<Longrightarrow> e k = Some v"
  shows "load_line (drop_cr (env_line k v)) e k = Some v"
proof -
  have t: "trimmed k" "trimmed v" using assms(1,2) by (simp_all add: plain_key_def plain_value_def trim_space_iff)
  then have line: "trimmed (env_line k v)" by (rule trimmed_line)
  have "cut (env_line k v) ''='' = Some (k, v)"
    using cut_char_Some [of "CHR ''=''" k v] assms(1) by (simp add: env_line_def plain_key_def)
  moreover have "\<not> ignore_line (env_line k v)"
    using assms(1) trim_trimmed [OF line] by (cases k) (auto simp: ignore_line_def env_line_def plain_key_def has_prefix_def)
  ultimately show ?thesis
    using assms drop_cr_trimmed [OF line]
    by (auto simp: load_line_def plain_key_def plain_value_def Let_def setenv_def trim_quotes_plain expand_plain)
qed

text \<open>What the saved lines are.\<close>

definition saved_line :: "(string \<times> string) list \<Rightarrow> string \<Rightarrow> bool" where
  "saved_line env l \<longleftrightarrow> CHR 0x0A \<notin> set l \<and> (CHR ''='' \<notin> set l \<or>
     (\<exists>k v. l = env_line k v \<and> trimmed k \<and> trimmed v \<and> CHR ''='' \<notin> set k \<and> (\<forall>x. map_of env k = Some x \<longrightarrow> v = x)))"

lemma saved_env_line:
  assumes "trimmed k" and "trimmed v" and "CHR ''='' \<notin> set k" and "CHR 0x0A \<notin> set k" and "CHR 0x0A \<notin> set v"
    and "\<And>x. map_of env k = Some x \<Longrightarrow> v = x"
  shows "saved_line env (env_line k v)"
proof -
  have "CHR 0x0A \<notin> set (env_line k v)" using assms(4,5) by (auto simp: env_line_def)
  with assms show ?thesis unfolding saved_line_def by blast
qed

lemma update_lines_saved:
  assumes "\<forall>(k, v)\<in>set env. plain_key k \<and> plain_value v" and "\<forall>l\<in>set ls. CHR 0x0A \<notin> set l"
  shows "(\<forall>l\<in>set (fst (update_lines (map_of env) ls)). saved_line env l) \<and>
    (\<forall>k v. k \<in> set (snd (update_lines (map_of env) ls)) \<and> map_of env k = Some v \<longrightarrow>
       env_line k v \<in> set (fst (update_lines (map_of env) ls)))"
  using assms(2)
proof (induction ls)
  case (Cons l ls)
  obtain out updated where u: "update_lines (map_of env) ls = (out, updated)" by fastforce
  show ?case
  proof (cases "cut l ''=''")
    case None
    then have "saved_line env l" using Cons.prems cut_char_None by (auto simp: saved_line_def)
    with None u Cons show ?thesis by auto
  next
    case (Some p)
    then obtain key val where p: "cut l ''='' = Some (key, val)" by (cases p) auto
    from cut_char_key [OF this] have l: "l = key @ CHR ''='' # val" "CHR ''='' \<notin> set key" by blast+
    define k v where "k = trim_space key" and "v = (case map_of env k of Some v \<Rightarrow> v | None \<Rightarrow> trim_space val)"
    have kv: "trimmed k" "CHR ''='' \<notin> set k" "CHR 0x0A \<notin> set k"
      using trim_space_trimmed set_trim_space l Cons.prems unfolding k_def by fastforce+
    have "trimmed v \<and> CHR 0x0A \<notin> set v"
    proof (cases "map_of env k")
      case None
      then show ?thesis using trim_space_trimmed set_trim_space [of val] l(1) Cons.prems by (auto simp: v_def)
    next
      case (Some x)
      then have "plain_value x" using assms(1) map_of_SomeD by fastforce
      with Some show ?thesis by (simp add: v_def plain_value_def trim_space_iff)
    qed
    then have "saved_line env (env_line k v)"
      using kv by (intro saved_env_line) (auto simp: v_def)
    moreover have "update_lines (map_of env) (l # ls) = (env_line k v # out, k # updated)"
      using p u by (simp add: k_def v_def Let_def)
    ultimately show ?thesis using u Cons by (auto simp: v_def)
  qed
qed simp

lemma saved_lines_saved:
  assumes "\<forall>(k, v)\<in>set env. plain_key k \<and> plain_value v" and "distinct (map fst env)"
  shows "\<forall>l\<in>set (saved_lines content env). saved_line env l"
    and "(k, v) \<in> set env \<Longrightarrow> env_line k v \<in> set (saved_lines content env)"
proof -
  define ls where "ls = split_on (CHR 0x0A) (trim_space content)"
  obtain out updated where u: "update_lines (map_of env) ls = (out, updated)" by fastforce
  have "\<forall>l\<in>set ls. CHR 0x0A \<notin> set l" using split_on_no_sep by (simp add: ls_def)
  note old = update_lines_saved [OF assms(1) this, unfolded u fst_conv snd_conv]
  have s: "saved_lines content env = out @ map (\<lambda>(k, v). env_line k v) (filter (\<lambda>(k, v). k \<notin> set updated) env)"
    using u by (simp add: saved_lines_def ls_def)
  have new: "saved_line env (env_line k v)" if "(k, v) \<in> set env" for k v
  proof -
    have "map_of env k = Some v" using that assms(2) by simp
    moreover have "plain_key k" "plain_value v" using that assms(1) by auto
    ultimately show ?thesis
      by (intro saved_env_line) (auto simp: plain_key_def plain_value_def trim_space_iff)
  qed
  show "\<forall>l\<in>set (saved_lines content env). saved_line env l" using old new by (auto simp: s)
  assume kv: "(k, v) \<in> set env"
  then have "map_of env k = Some v" using assms(2) by simp
  with kv old show "env_line k v \<in> set (saved_lines content env)" by (cases "k \<in> set updated") (auto simp: s)
qed

lemma load_saved:
  assumes "\<forall>l\<in>set ls. saved_line env l \<and> length l < maxScanTokenSize" and "plain_key k" and "plain_value v"
    and "map_of env k = Some v" and "getenv e k \<noteq> [] \<longrightarrow> e k = Some v"
  shows "\<exists>e'. load_lines ls e = (None, e') \<and> (env_line k v \<in> set ls \<or> e k = Some v \<longrightarrow> e' k = Some v)"
  using assms(1,5)
proof (induction ls arbitrary: e)
  case (Cons l ls)
  let ?e = "load_line (drop_cr l) e"
  have "?e k = e k \<and> l \<noteq> env_line k v \<or> l = env_line k v \<and> ?e k = Some v"
  proof (cases "l = env_line k v")
    case True
    then show ?thesis using load_same [OF assms(2,3)] Cons.prems(2) by simp
  next
    case False
    have "?e k = e k"
    proof (cases "CHR ''='' \<in> set l")
      case True
      with Cons.prems(1) obtain k' v' where l: "l = env_line k' v'" "trimmed k'" "trimmed v'" "CHR ''='' \<notin> set k'"
        "\<forall>x. map_of env k' = Some x \<longrightarrow> v' = x" by (auto simp: saved_line_def)
      with False assms(4) have "k' \<noteq> k" by auto
      with load_other [OF l(2,3,4)] l(1) show ?thesis by simp
    qed (use load_unset in simp)
    with False show ?thesis by blast
  qed
  moreover from this have "getenv ?e k \<noteq> [] \<longrightarrow> ?e k = Some v" using Cons.prems(2) by (auto simp: getenv_def)
  ultimately show ?case using Cons.IH [of ?e] Cons.prems(1) by fastforce
qed simp

lemma load_lines_None: "fst (load_lines ls e) = None \<longleftrightarrow> (\<forall>l\<in>set ls. length l < maxScanTokenSize)"
  by (induction ls arbitrary: e) auto

lemma saved_scan:
  assumes "\<forall>(k, v)\<in>set env. plain_key k \<and> plain_value v" and "distinct (map fst env)"
    and "save_env io f env dk = (None, dk')" and "io WriteOp f = None" and "io ReadOp f = None"
  shows "load_env io f dk' e = load_lines (saved_lines (load_content io f dk) env) e"
proof -
  have "scan_lines (saved_text (load_content io f dk) env) = saved_lines (load_content io f dk) env"
    using saved_lines_saved(1) [OF assms(1,2)] unfolding saved_text_def by (intro scan_saved) (auto simp: saved_line_def)
  with save_env_text [OF assms(3,4)] assms(5) show ?thesis by (simp add: load_env_def read_file_def)
qed

text \<open>One variable that was saved and is not set yet is set when the file is loaded.\<close>

lemma saved_key_loaded:
  assumes "\<forall>(k, v)\<in>set env. plain_key k \<and> plain_value v" and "distinct (map fst env)"
    and "save_env io f env dk = (None, dk')" and "io WriteOp f = None"
    and "load_env io f dk' e = (None, e')" and "(k, v) \<in> set env" and "getenv e k = []"
  shows "e' k = Some v"
proof -
  have "io ReadOp f = None" using assms(5) by (auto simp: load_env_def read_file_def split: option.splits)
  note load = saved_scan [OF assms(1-4) this]
  have "fst (load_lines (saved_lines (load_content io f dk) env) e) = None" using assms(5) load by simp
  then have "\<forall>l\<in>set (saved_lines (load_content io f dk) env). saved_line env l \<and> length l < maxScanTokenSize"
    using saved_lines_saved(1) [OF assms(1,2)] by (simp add: load_lines_None)
  moreover have "plain_key k" "plain_value v" "map_of env k = Some v" using assms(1,2,6) by auto
  moreover have "env_line k v \<in> set (saved_lines (load_content io f dk) env)" using saved_lines_saved(2) [OF assms(1,2,6)] .
  ultimately obtain e'' where "load_lines (saved_lines (load_content io f dk) env) e = (None, e'')" "e'' k = Some v"
    using load_saved [of _ env k v e] assms(7) by metis
  with assms(5) load show ?thesis by simp
qed

text \<open>What is saved is what a later process loads: plain keys and values come back as they are, whatever else the old
  file held (comments, other variables, older values of the same ones, several times even).\<close>

lemma env_saved_is_loaded:
  assumes "\<forall>(k, v)\<in>set env. plain_key k \<and> plain_value v \<and> getenv e k = []" and "distinct (map fst env)"
    and "save_env io f env dk = (None, dk')" and "io WriteOp f = None" and "io ReadOp f = None"
    and "\<forall>l\<in>set (saved_lines (load_content io f dk) env). length l < maxScanTokenSize"
  shows "\<exists>e'. load_env io f dk' e = (None, e') \<and> (\<forall>(k, v)\<in>set env. e' k = Some v)"
proof -
  have plain: "\<forall>(k, v)\<in>set env. plain_key k \<and> plain_value v" using assms(1) by auto
  have "fst (load_env io f dk' e) = None"
    using assms(6) load_lines_None by (simp add: saved_scan [OF plain assms(2-5)])
  then obtain e' where e': "load_env io f dk' e = (None, e')" by (cases "load_env io f dk' e") simp
  moreover have "e' k = Some v" if "(k, v) \<in> set env" for k v
    using saved_key_loaded [OF plain assms(2-4) e' that] assms(1) that by auto
  ultimately show ?thesis by blast
qed

section \<open>Concrete files\<close>

definition no_faults :: faults where "no_faults op p = None"

definition sample_env_file :: string where
  "sample_env_file = ''# app'' @ CHR 0x0A # ''QUICKFEED_AUTH_SECRET = old'' @ CHR 0x0A # ''PORT=443'' @ [CHR 0x0A]"

definition sample_disk :: disk where
  "sample_disk = [''.env'' \<mapsto> sample_env_file]"

lemma save_keeps_old_content_witness:
  "\<exists>dk'. save_env (\<lambda>op p. if op = OpenOp then Some ''permission denied'' else None) ''.env'' [(''PORT'', ''80'')] sample_disk =
      (Some ''permission denied'', dk') \<and> dk' ''.env'' = None \<and> dk' (backup ''.env'') = Some sample_env_file"
proof -
  let ?io = "\<lambda>op p. if op = OpenOp then Some ''permission denied'' else None"
  have d: "sample_disk ''.env'' = Some sample_env_file" by (simp add: sample_disk_def)
  obtain dk' where run: "save_env ?io ''.env'' [(''PORT'', ''80'')] sample_disk = (Some ''permission denied'', dk')"
    "dk' ''.env'' = None"
    by (simp add: save_env_def update_file_def file_exists_def sample_disk_def backup_def Let_def)
  with save_keeps_old_content [OF d run(1)] show ?thesis by auto
qed

lemma sample_saved:
  "saved_lines sample_env_file [(authSecret, ''new'')] = [''# app'', ''QUICKFEED_AUTH_SECRET=new'', ''PORT=443'']"
  by code_simp

definition rotated_disk :: disk where
  "rotated_disk = sample_disk(backup ''.env'' \<mapsto> sample_env_file, ''.env'' \<mapsto> saved_text sample_env_file [(authSecret, ''new'')])"

lemma sample_save: "save_env no_faults ''.env'' [(authSecret, ''new'')] sample_disk = (None, rotated_disk)"
proof -
  have d: "sample_disk ''.env'' = Some sample_env_file" "sample_disk (backup ''.env'') = None" "backup ''.env'' \<noteq> ''.env''"
    by (simp_all add: sample_disk_def backup_def)
  then show ?thesis
    by (simp add: save_env_def update_file_def file_exists_def no_faults_def load_content_def read_file_def rotated_disk_def)
qed

lemma forced_rotation_keeps_secret_witness:
  "\<exists>e'. ensure_auth_secret no_faults ''.env'' ''new'' True (sample_disk, [authSecret \<mapsto> ''old'']) = (Inr True, rotated_disk, e') \<and>
     auth_secret e' = ''old'' \<and>
     rotated_disk ''.env'' = Some (saved_text (load_content no_faults ''.env'' sample_disk) [(authSecret, ''new'')])"
proof -
  let ?e = "[authSecret \<mapsto> ''old'']"
  let ?ls = "[''# app'', ''QUICKFEED_AUTH_SECRET=new'', ''PORT=443'']"
  have "scan_lines (saved_text sample_env_file [(authSecret, ''new'')]) = ?ls"
    unfolding saved_text_def sample_saved by (rule scan_saved) simp
  moreover have "fst (load_lines ?ls ?e) = None" by (simp add: load_lines_None maxScanTokenSize_def)
  ultimately obtain e' where "load_env no_faults ''.env'' rotated_disk ?e = (None, e')"
    by (cases "load_lines ?ls ?e") (simp del: load_lines.simps add: load_env_def read_file_def no_faults_def rotated_disk_def)
  then have run: "ensure_auth_secret no_faults ''.env'' ''new'' True (sample_disk, ?e) = (Inr True, rotated_disk, e')"
    by (simp add: ensure_auth_secret_def new_auth_secret_def sample_save)
  have "auth_secret ?e = ''old''" by (simp add: auth_secret_def getenv_def)
  with forced_rotation_keeps_secret [OF _ run] run show ?thesis by (simp add: no_faults_def)
qed

lemma env_saved_is_loaded_witness:
  "\<exists>e'. load_env no_faults ''.env'' rotated_disk Map.empty = (None, e') \<and> e' authSecret = Some ''new''"
proof -
  have plain: "plain_key authSecret" "plain_value ''new''" by code_simp+
  have "load_content no_faults ''.env'' sample_disk = sample_env_file"
    by (simp add: load_content_def read_file_def no_faults_def sample_disk_def)
  then have short: "\<forall>l\<in>set (saved_lines (load_content no_faults ''.env'' sample_disk) [(authSecret, ''new'')]). length l < maxScanTokenSize"
    by (simp add: sample_saved maxScanTokenSize_def)
  show ?thesis
    using env_saved_is_loaded [OF _ _ sample_save _ _ short, of Map.empty] plain
    by (simp add: getenv_def no_faults_def)
qed

end
