(* ===== verification/Multiple_Choice.thy ===== *)
theory Multiple_Choice
  imports Score_Kit Deadline
begin

text \<open>
  Multiple choice questions in markdown: \<open>kit/exercise/multiple_choice.go\<close>.  The two regular expressions are
  written out: the classes and the fixed characters between them make every match unique.
\<close>

section \<open>Parsing the answers\<close>

text \<open>The class \<open>\s\<close> of the package \<open>regexp\<close>.\<close>

definition re_space :: "char \<Rightarrow> bool" where
  "re_space c \<longleftrightarrow> c \<in> {CHR 0x09, CHR 0x0A, CHR 0x0C, CHR 0x0D, CHR 0x20}"

text \<open>\<open>strconv.Atoi\<close> of digits without its error: out of range it gives the greatest \<open>int\<close>.\<close>

definition atoi_digits :: "string \<Rightarrow> int" where
  "atoi_digits ds = min (int (digits_val ds)) (2 ^ 63 - 1)"

definition question_number :: "string \<Rightarrow> int option" where
  "question_number line =
     (let ds = takeWhile is_digit line; rest = dropWhile is_digit line
      in case rest of c # d # _ \<Rightarrow> if ds \<noteq> [] \<and> c = CHR ''.'' \<and> re_space d then Some (atoi_digits ds) else None | _ \<Rightarrow> None)"

text \<open>The label of a line that selects an answer; \<open>after_spaces\<close> wants one space at least.\<close>

definition after_spaces :: "string \<Rightarrow> string option" where
  "after_spaces s = (if s \<noteq> [] \<and> re_space (hd s) then Some (dropWhile re_space s) else None)"

definition label_of :: "string \<Rightarrow> string option" where
  "label_of s =
     (case s of
        l # p # d # _ \<Rightarrow> if l \<in> set ''abcdef'' \<and> p = CHR '')'' \<and> re_space d then Some [l] else None
      | _ \<Rightarrow> None)"

definition selection_label :: "string \<Rightarrow> string option" where
  "selection_label line =
     Option.bind (after_spaces line) (\<lambda>s.
       case s of
         m # s \<Rightarrow> if m \<noteq> CHR ''-'' then None
           else (case s of
                   sp # b # x # e # s \<Rightarrow>
                     if re_space sp \<and> b = CHR ''['' \<and> x \<in> {CHR ''x'', CHR ''X''} \<and> e = CHR '']''
                     then Option.bind (after_spaces s) label_of else None
                 | _ \<Rightarrow> None)
       | [] \<Rightarrow> None)"

record answer_state =
  an_currentQ :: int
  an_answers :: "int \<rightharpoonup> string"
  an_multiple :: "int set"

definition answer_line :: "string \<Rightarrow> answer_state \<Rightarrow> answer_state" where
  "answer_line line st =
     (let st = (case question_number line of None \<Rightarrow> st | Some q \<Rightarrow> st\<lparr>an_currentQ := q\<rparr>);
          q = an_currentQ st
      in if q \<in> an_multiple st \<or> q = -1 then st
         else case selection_label line of
                None \<Rightarrow> st
              | Some l \<Rightarrow>
                  if an_answers st q \<noteq> None
                  then st\<lparr>an_answers := (an_answers st)(q := None), an_multiple := insert q (an_multiple st)\<rparr>
                  else st\<lparr>an_answers := (an_answers st)(q \<mapsto> l)\<rparr>)"

text \<open>\<open>file\<close> is the outcome of reading the answer file.\<close>

definition parse_markdown_answers :: "string + string \<Rightarrow> string + (int \<rightharpoonup> string)" where
  "parse_markdown_answers file =
     bind_res file (\<lambda>md. Inr (an_answers (fold answer_line (split_on (CHR 0x0A) md)
       \<lparr>an_currentQ = -1, an_answers = Map.empty, an_multiple = {}\<rparr>)))"

section \<open>Checking the answers\<close>

text \<open>The correct answers in the order in which the map is visited; a question without an answer reads as the empty label.\<close>

definition right_answer :: "(int \<rightharpoonup> string) \<Rightarrow> int \<times> string \<Rightarrow> bool" where
  "right_answer answers = (\<lambda>(q, l). (case answers q of None \<Rightarrow> [] | Some a \<Rightarrow> a) = l)"

definition check_multiple_choice :: "(int \<rightharpoonup> string) \<Rightarrow> (int \<times> string) list \<Rightarrow> int list \<times> int list" where
  "check_multiple_choice answers correct =
     (sort (map fst (filter (right_answer answers) correct)), sort (map fst (filter (\<lambda>x. \<not> right_answer answers x) correct)))"

fun print_questions :: "int list \<Rightarrow> string \<Rightarrow> string \<Rightarrow> string \<Rightarrow> string" where
  "print_questions [] pre after sep = []"
| "print_questions (q # qs) pre after sep =
     pre @ show_int q @ after @ (if qs = [] then [] else sep) @ print_questions qs pre after sep"

text \<open>\<open>MultipleChoice\<close>: the score and whether the test has failed.\<close>

definition multiple_choice :: "score \<Rightarrow> string + string \<Rightarrow> (int \<times> string) list \<Rightarrow> score \<times> bool" where
  "multiple_choice sc file correct =
     (case parse_markdown_answers file of
        Inl e \<Rightarrow> (fail_score sc, True)
      | Inr answers \<Rightarrow>
          (let incorrect = snd (check_multiple_choice answers correct)
           in (fold (\<lambda>_. dec) incorrect sc, incorrect \<noteq> [])))"

section \<open>Exactly one answer\<close>

text \<open>The reference: the selections in the text, each with the question it stands under.\<close>

fun selections :: "string list \<Rightarrow> int \<Rightarrow> (int \<times> string) list" where
  "selections [] q = []"
| "selections (line # ls) q =
     (let q = (case question_number line of None \<Rightarrow> q | Some n \<Rightarrow> n)
      in (case selection_label line of Some l \<Rightarrow> if q = -1 then [] else [(q, l)] | None \<Rightarrow> []) @ selections ls q)"

definition only_answer :: "(int \<times> string) list \<Rightarrow> int \<Rightarrow> string option" where
  "only_answer sels q = (case map snd (filter (\<lambda>s. fst s = q) sels) of [l] \<Rightarrow> Some l | _ \<Rightarrow> None)"

definition answers_follow :: "answer_state \<Rightarrow> (int \<times> string) list \<Rightarrow> bool" where
  "answers_follow st sels \<longleftrightarrow>
     (\<forall>q. an_answers st q = only_answer sels q \<and> (q \<in> an_multiple st \<longleftrightarrow> 2 \<le> length (filter (\<lambda>s. fst s = q) sels)))"

lemma only_answer_snoc:
  "only_answer (sels @ [(q, l)]) x =
     (if x \<noteq> q then only_answer sels x else if filter (\<lambda>s. fst s = q) sels = [] then Some l else None)"
  by (cases "filter (\<lambda>s. fst s = q) sels") (auto simp: only_answer_def split: list.split)

lemma only_answer_some: "only_answer sels q \<noteq> None \<longleftrightarrow> length (filter (\<lambda>s. fst s = q) sels) = 1"
  by (cases "filter (\<lambda>s. fst s = q) sels") (auto simp: only_answer_def length_Suc_conv split: list.split)

lemma answer_line_follows:
  assumes "answers_follow st sels" and "q = (case question_number line of None \<Rightarrow> an_currentQ st | Some n \<Rightarrow> n)"
  shows "an_currentQ (answer_line line st) = q \<and> answers_follow (answer_line line st)
    (sels @ (case selection_label line of Some l \<Rightarrow> if q = -1 then [] else [(q, l)] | None \<Rightarrow> []))"
proof -
  define st1 where "st1 = (case question_number line of None \<Rightarrow> st | Some q \<Rightarrow> st\<lparr>an_currentQ := q\<rparr>)"
  have st1: "an_currentQ st1 = q" "answers_follow st1 sels"
    using assms by (simp_all add: st1_def answers_follow_def split: option.split)
  note line = answer_line_def [of line st, folded st1_def, unfolded Let_def st1(1)]
  let ?n = "length (filter (\<lambda>s. fst s = q) sels)"
  have n: "q \<in> an_multiple st1 \<longleftrightarrow> 2 \<le> ?n" "an_answers st1 q \<noteq> None \<longleftrightarrow> ?n = 1"
    using st1(2) only_answer_some [of sels q] by (simp_all add: answers_follow_def)
  show ?thesis
  proof (cases "selection_label line")
    case None
    then show ?thesis using st1 by (simp add: line)
  next
    case (Some l)
    show ?thesis
    proof (cases "q = -1")
      case True
      with Some st1 show ?thesis by (simp add: line)
    next
      case False
      have len: "length (filter (\<lambda>s. fst s = x) (sels @ [(q, l)])) = length (filter (\<lambda>s. fst s = x) sels) + (if x = q then 1 else 0)" for x
        by simp
      consider "2 \<le> ?n" | "?n = 1" | "?n = 0" by linarith
      then show ?thesis
      proof cases
        case 1
        then have "filter (\<lambda>s. fst s = q) sels \<noteq> []" "an_answers st1 q = None" using n by auto
        with 1 n Some False st1 show ?thesis by (auto simp: line answers_follow_def only_answer_snoc)
      next
        case 2
        then have "filter (\<lambda>s. fst s = q) sels \<noteq> []" by auto
        with 2 n Some False st1 show ?thesis by (auto simp: line answers_follow_def only_answer_snoc)
      next
        case 3
        with n Some False st1 show ?thesis by (auto simp: line answers_follow_def only_answer_snoc)
      qed
    qed
  qed
qed

lemma answers_fold:
  "answers_follow st sels \<Longrightarrow> answers_follow (fold answer_line ls st) (sels @ selections ls (an_currentQ st))"
proof (induction ls arbitrary: st sels)
  case (Cons line ls)
  define q where "q = (case question_number line of None \<Rightarrow> an_currentQ st | Some n \<Rightarrow> n)"
  note f = answer_line_follows [OF Cons.prems q_def]
  from Cons.IH [OF conjunct2 [OF f]] conjunct1 [OF f] show ?case by (simp add: Let_def q_def [symmetric])
qed simp

lemma parse_answers:
  "parse_markdown_answers (Inr md) = Inr (only_answer (selections (split_on (CHR 0x0A) md) (-1)))"
proof -
  have "answers_follow \<lparr>an_currentQ = -1, an_answers = Map.empty, an_multiple = {}\<rparr> []"
    by (simp add: answers_follow_def only_answer_def)
  from answers_fold [OF this, of "split_on (CHR 0x0A) md"] show ?thesis
    by (simp add: parse_markdown_answers_def answers_follow_def fun_eq_iff)
qed

text \<open>C38: The parser, one pass with two maps, agrees with the reference: a question has an answer exactly when one line under it
  (wherever its number comes up in the text) is ticked, and then it is that line's label; two ticks or more void it.\<close>

theorem one_answer_per_question:
  "parse_markdown_answers (Inr md) = Inr (only_answer (selections (split_on (CHR 0x0A) md) (-1)))"
  by (rule parse_answers)

section \<open>The score\<close>

lemma fold_dec:
  assumes "0 \<le> sc_Score sc" and "sc_Score sc < 2 ^ 31"
  shows "sc_Score (fold (\<lambda>_. dec) xs sc) = max 0 (sc_Score sc - int (length xs))"
  using assms
proof (induction xs arbitrary: sc)
  case (Cons x xs)
  have "sc_Score (dec sc) = (if 0 < sc_Score sc then sc_Score sc - 1 else sc_Score sc)"
    using Cons.prems by (simp add: dec_def wrap32_id in_i32_def)
  with Cons.IH [of "dec sc"] Cons.prems show ?case by auto
qed simp

text \<open>A test that begins with one point for each question ends with one point for each question that has exactly one
  ticked line, the right one; the order in which the map of right answers is visited does not matter.\<close>

lemma multiple_choice_counts:
  assumes "\<forall>(q, l)\<in>set correct. l \<noteq> []" and "sc_Score sc = int (length correct)" and "length correct < 2 ^ 31"
  shows "sc_Score (fst (multiple_choice sc (Inr md) correct)) =
      int (length (filter (\<lambda>(q, l). only_answer (selections (split_on (CHR 0x0A) md) (-1)) q = Some l) correct))"
proof -
  let ?answers = "only_answer (selections (split_on (CHR 0x0A) md) (-1))"
  have right: "filter (right_answer ?answers) correct = filter (\<lambda>(q, l). ?answers q = Some l) correct"
    using assms(1) by (intro filter_cong refl) (auto simp: right_answer_def split: option.splits)
  have "length (filter (\<lambda>x. \<not> right_answer ?answers x) correct) = length correct - length (filter (right_answer ?answers) correct)"
    using sum_length_filter_compl [of "right_answer ?answers" correct] by simp
  moreover have "length (filter (right_answer ?answers) correct) \<le> length correct" by simp
  moreover have "sc_Score (fst (multiple_choice sc (Inr md) correct)) =
      max 0 (sc_Score sc - int (length (filter (\<lambda>x. \<not> right_answer ?answers x) correct)))"
    using fold_dec [of sc "sort (map fst (filter (\<lambda>x. \<not> right_answer ?answers x) correct))"] assms(2,3)
    by (simp add: multiple_choice_def parse_answers check_multiple_choice_def Let_def)
  ultimately show ?thesis using assms(2) by (simp add: right of_nat_diff)
qed

definition sample_markdown :: string where
  "sample_markdown = ''1. Which?'' @ CHR 0x0A # ''  - [x] b) This.'' @ CHR 0x0A # ''2. And?'' @ CHR 0x0A # ''  - [x] a) One.'' @
     CHR 0x0A # ''  - [X] c) Two.'' @ CHR 0x0A # ''  - [ ] d) Three.'' @ []"

lemma sample_selections: "selections (split_on (CHR 0x0A) sample_markdown) (-1) = [(1, ''b''), (2, ''a''), (2, ''c'')]"
  by code_simp

lemma multiple_choice_counts_witness:
  "sc_Score (fst (multiple_choice (zero_score\<lparr>sc_Score := 2\<rparr>) (Inr sample_markdown) [(2, ''a''), (1, ''b'')])) = 1"
proof -
  have h: "\<forall>(q, l)\<in>set [(2, ''a''), (1, ''b'')]. l \<noteq> []" by simp
  have "sc_Score (zero_score\<lparr>sc_Score := 2\<rparr>) = int (length [(2 :: int, ''a''), (1, ''b'')])" by simp
  from multiple_choice_counts [OF h this, of sample_markdown] show ?thesis
    unfolding sample_selections by (simp add: only_answer_def)
qed

end
