(* ===== verification/Approve_List.thy ===== *)
theory Approve_List
  imports Pull_Requests Course_Results
begin

text \<open>
  The tool that fills the approval column of a sheet of exam candidates: \<open>cmd/approvelist/main.go\<close>.  Reading and
  writing the sheet, the calls to the server and the layout of the printed table are outside; \<open>lower\<close> is
  \<open>strings.ToLower\<close> and \<open>rng\<close> the order in which the keys of a map are visited.  A map whose keys are visited is an
  association list.
\<close>

section \<open>The sheet\<close>

definition pass_value :: string where "pass_value = ''Godkjent''"
definition fail_value :: string where "fail_value = ''Ikke godkjent''"

record approve_sheet =
  as_sheetName :: string
  as_rows :: "string list list"
  as_names :: "(string \<times> nat) list"
  as_studs :: "(string \<times> nat) list"
  as_cells :: "string \<rightharpoonup> string"

text \<open>The columns are fixed: first name, last name, student number, candidate number, approval.\<close>

definition approvedLabel :: string where "approvedLabel = ''E''"

definition row_at :: "string list \<Rightarrow> nat \<Rightarrow> (string, string) outcome" where
  "row_at row i = (if i < length row then Ok (row ! i) else Panic ''index out of range'')"

definition full_name :: "string list \<Rightarrow> (string, string) outcome" where
  "full_name row =
     bind_out (row_at row 0) (\<lambda>first. bind_out (row_at row 1) (\<lambda>last.
       Ok (if first = [] \<and> last = [] then ''MISSING NAME'' else first @ '' '' @ last)))"

definition student_num :: "string list \<Rightarrow> (string, string) outcome" where
  "student_num row = row_at row 2"

fun add_rows :: "string list list \<Rightarrow> nat \<Rightarrow> approve_sheet \<Rightarrow> (string, approve_sheet) outcome" where
  "add_rows [] n sheet = Ok sheet"
| "add_rows (row # rows) n sheet =
     bind_out (full_name row) (\<lambda>fn. bind_out (student_num row) (\<lambda>sn.
       add_rows rows (n + 1)
         (sheet\<lparr>as_names := AList.update fn n (as_names sheet), as_studs := AList.update sn n (as_studs sheet)\<rparr>)))"

definition new_approve_sheet :: "string \<Rightarrow> string list list \<Rightarrow> (string, approve_sheet) outcome" where
  "new_approve_sheet sheetName rows =
     (case rows of
        [] \<Rightarrow> Panic ''slice bounds out of range''
      | _ # rows \<Rightarrow> add_rows rows 2
          \<lparr>as_sheetName = sheetName, as_rows = rows, as_names = [], as_studs = [], as_cells = Map.empty\<rparr>)"

definition lookup_student_by_row :: "approve_sheet \<Rightarrow> nat \<Rightarrow> (string, string) outcome" where
  "lookup_student_by_row sheet rowNum =
     (if 2 \<le> rowNum \<and> rowNum - 2 < length (as_rows sheet) then full_name (as_rows sheet ! (rowNum - 2))
      else Panic ''index out of range'')"

definition lookup_row :: "approve_sheet \<Rightarrow> string \<Rightarrow> nat option" where
  "lookup_row sheet studNum = map_of (as_studs sheet) studNum"

definition count_matches :: "string list \<Rightarrow> string list \<Rightarrow> nat" where
  "count_matches ns ms = sum_list (map (\<lambda>n. length (filter (\<lambda>m. n = m) ms)) ns)"

definition partial_match ::
    "(string \<Rightarrow> string) \<Rightarrow> (string list \<Rightarrow> string list) \<Rightarrow> string \<Rightarrow> (string \<times> nat) list \<Rightarrow> string + nat" where
  "partial_match lower rng name studentMap =
     (let nameParts = split_on (CHR '' '') (lower name);
          possible = filter (\<lambda>expected. 1 < count_matches nameParts (split_on (CHR '' '') (lower expected))) (rng (map fst studentMap))
      in case possible of
           [] \<Rightarrow> Inl (''not found: '' @ name)
         | [n] \<Rightarrow> Inr (case map_of studentMap n of None \<Rightarrow> 0 | Some r \<Rightarrow> r)
         | _ \<Rightarrow> Inl (''multiple possibilities found for: '' @ name))"

definition lookup_row_by_name ::
    "(string \<Rightarrow> string) \<Rightarrow> (string list \<Rightarrow> string list) \<Rightarrow> approve_sheet \<Rightarrow> string \<Rightarrow> string + nat" where
  "lookup_row_by_name lower rng sheet name =
     (case map_of (as_names sheet) name of Some r \<Rightarrow> Inr r | None \<Rightarrow> partial_match lower rng name (as_names sheet))"

definition approve_cell :: "nat \<Rightarrow> string" where
  "approve_cell rowNum = approvedLabel @ show_nat rowNum"

definition set_approve_cell :: "approve_sheet \<Rightarrow> nat \<Rightarrow> string \<Rightarrow> approve_sheet" where
  "set_approve_cell sheet rowNum v = sheet\<lparr>as_cells := (as_cells sheet)(approve_cell rowNum \<mapsto> v)\<rparr>"

section \<open>The printed list\<close>

record approve_output =
  ao_fs :: "(int \<times> string) list"
  ao_qf :: "(int \<times> string) list"
  ao_both :: "(int \<times> string) list"
  ao_negRow :: int

definition new_output :: approve_output where
  "new_output = \<lparr>ao_fs = [], ao_qf = [], ao_both = [], ao_negRow = -1\<rparr>"

definition mark :: "bool \<Rightarrow> string" where
  "mark b = (if b then [CHR 0xE2, CHR 0x9C, CHR 0x93] else ''x'')"

definition out_no_row :: "string \<Rightarrow> string \<Rightarrow> string \<Rightarrow> int \<Rightarrow> bool \<Rightarrow> bool \<Rightarrow> string" where
  "out_no_row student studID approvedValue numApproved fs qf =
     CHR 0x09 # join_on [CHR 0x09] [student, studID, approvedValue, mark fs, mark qf, show_int numApproved] @ [CHR 0x0A]"

definition out_row :: "int \<Rightarrow> string \<Rightarrow> string \<Rightarrow> string \<Rightarrow> int \<Rightarrow> bool \<Rightarrow> bool \<Rightarrow> string" where
  "out_row row student studID approvedValue numApproved fs qf =
     show_int row @ out_no_row student studID approvedValue numApproved fs qf"

definition add_fs :: "nat \<Rightarrow> string \<Rightarrow> string \<Rightarrow> string \<Rightarrow> int \<Rightarrow> approve_output \<Rightarrow> approve_output" where
  "add_fs row student studID v n o' = o'\<lparr>ao_fs := AList.update (int row) (out_row (int row) student studID v n True False) (ao_fs o')\<rparr>"

definition add_qf :: "string \<Rightarrow> string \<Rightarrow> string \<Rightarrow> int \<Rightarrow> approve_output \<Rightarrow> approve_output" where
  "add_qf student studID v n o' =
     o'\<lparr>ao_qf := AList.update (ao_negRow o') (out_no_row student studID v n False True) (ao_qf o'), ao_negRow := ao_negRow o' - 1\<rparr>"

definition add_both :: "nat \<Rightarrow> string \<Rightarrow> string \<Rightarrow> string \<Rightarrow> int \<Rightarrow> approve_output \<Rightarrow> approve_output" where
  "add_both row student studID v n o' = o'\<lparr>ao_both := AList.update (int row) (out_row (int row) student studID v n True True) (ao_both o')\<rparr>"

text \<open>The lines that \<open>Print\<close> gives to the writer of the table, behind the head of the table.\<close>

definition sorted_lines :: "(int \<times> string) list \<Rightarrow> string list" where
  "sorted_lines m = map (\<lambda>r. case map_of m r of None \<Rightarrow> [] | Some l \<Rightarrow> l) (sort (map fst m))"

definition table_head :: string where
  "table_head = join_on [CHR 0x09] [''Row#'', ''Student'', ''StudID'', ''Approved'', ''FS'', ''QF'', ''#Approved''] @ [CHR 0x0A]"

definition print_lines :: "bool \<Rightarrow> approve_output \<Rightarrow> string list" where
  "print_lines showAll o' =
     table_head # (if showAll then sorted_lines (ao_both o') else []) @ sorted_lines (ao_fs o') @ sorted_lines (ao_qf o')"

section \<open>Filling the column\<close>

definition approved :: "int \<Rightarrow> int \<Rightarrow> bool" where
  "approved numApproved passLimit \<longleftrightarrow> passLimit \<le> numApproved"

definition enr_is_admin :: "enr_msg \<Rightarrow> bool" where
  "enr_is_admin m = (case em_user m of None \<Rightarrow> False | Some u \<Rightarrow> u_IsAdmin (um_user u))"

definition enr_name :: "enr_msg \<Rightarrow> string" where
  "enr_name m = (case em_user m of None \<Rightarrow> [] | Some u \<Rightarrow> u_Name (um_user u))"

definition enr_student_id :: "enr_msg \<Rightarrow> string" where
  "enr_student_id m = (case em_user m of None \<Rightarrow> [] | Some u \<Rightarrow> u_StudentID (um_user u))"

definition num_approved :: "results_map \<Rightarrow> enr_msg \<Rightarrow> int" where
  "num_approved subs m =
     sint (e_totalApproved (update_total_approved (em_enrollment m) (course_submissions_for subs (e_ID (em_enrollment m)))))"

definition verdict :: "int \<Rightarrow> results_map \<Rightarrow> enr_msg \<Rightarrow> string" where
  "verdict passLimit subs m = (if approved (num_approved subs m) passLimit then pass_value else fail_value)"

definition find_student_row ::
    "(string \<Rightarrow> string) \<Rightarrow> (string list \<Rightarrow> string list) \<Rightarrow> approve_sheet \<Rightarrow> enr_msg \<Rightarrow> nat option" where
  "find_student_row lower rng sheet m =
     (case lookup_row sheet (enr_student_id m) of
        Some r \<Rightarrow> Some r
      | None \<Rightarrow> (case lookup_row_by_name lower rng sheet (enr_name m) of Inr r \<Rightarrow> Some r | Inl e \<Rightarrow> None))"

record approve_state =
  al_sheet :: approve_sheet
  al_out :: approve_output
  al_numPass :: nat
  al_students :: "string \<rightharpoonup> string"

fun approve_loop ::
    "(string \<Rightarrow> string) \<Rightarrow> (string list \<Rightarrow> string list) \<Rightarrow> int \<Rightarrow> results_map \<Rightarrow> enr_msg list \<Rightarrow> approve_state
       \<Rightarrow> (string, approve_state) outcome" where
  "approve_loop lower rng passLimit subs [] st = Ok st"
| "approve_loop lower rng passLimit subs (m # ms) st =
     (if enr_is_admin m \<or> is_teacher (em_enrollment m) then approve_loop lower rng passLimit subs ms st
      else
        (let studID = enr_student_id m; student = enr_name m; n = num_approved subs m; v = verdict passLimit subs m;
             st = st\<lparr>al_students := (al_students st)(studID \<mapsto> student),
                     al_numPass := al_numPass st + (if approved n passLimit then 1 else 0)\<rparr>
         in case find_student_row lower rng (al_sheet st) m of
              None \<Rightarrow> approve_loop lower rng passLimit subs ms (st\<lparr>al_out := add_qf student studID v n (al_out st)\<rparr>)
            | Some rowNum \<Rightarrow>
                bind_out (lookup_student_by_row (al_sheet st) rowNum) (\<lambda>student.
                  approve_loop lower rng passLimit subs ms
                    (st\<lparr>al_sheet := set_approve_cell (al_sheet st) rowNum v,
                        al_out := add_both rowNum student studID v n (al_out st)\<rparr>))))"

fun fail_missing :: "(string \<times> nat) list \<Rightarrow> approve_state \<Rightarrow> (string, approve_state) outcome" where
  "fail_missing [] st = Ok st"
| "fail_missing ((studID, rowNum) # ks) st =
     (if al_students st studID \<noteq> None then fail_missing ks st
      else bind_out (lookup_student_by_row (al_sheet st) rowNum) (\<lambda>student.
             fail_missing ks
               (st\<lparr>al_out := add_fs rowNum student studID fail_value 0 (al_out st),
                   al_sheet := set_approve_cell (al_sheet st) rowNum fail_value\<rparr>)))"

text \<open>\<open>main\<close> between the two calls that read and the one that saves; \<open>visit\<close> is the order of the last loop.\<close>

definition approve_all where
  "approve_all lower rng visit passLimit subs enrollments sheet =
     bind_out (approve_loop lower rng passLimit subs enrollments
         \<lparr>al_sheet = sheet, al_out = new_output, al_numPass = 0, al_students = Map.empty\<rparr>) (\<lambda>st.
       fail_missing (visit (as_studs (al_sheet st))) st)"

text \<open>The course that \<open>getSubmissions\<close> asks for: 0 when there is none.\<close>

definition find_course_id :: "enr_msg list \<Rightarrow> string \<Rightarrow> u32 \<Rightarrow> u64" where
  "find_course_id enrollments code year =
     (case find (\<lambda>c. c_code (cm_course c) = code \<and> c_year (cm_course c) = year) (List.map_filter em_course enrollments) of
        None \<Rightarrow> 0 | Some c \<Rightarrow> c_ID (cm_course c))"

section \<open>What is in the cells\<close>

definition put_cell :: "nat \<Rightarrow> string \<Rightarrow> (string \<rightharpoonup> string) \<Rightarrow> string \<rightharpoonup> string" where
  "put_cell r v cells = cells(approve_cell r \<mapsto> v)"

lemma cells_set [simp]: "as_cells (set_approve_cell sheet r v) = put_cell r v (as_cells sheet)"
  by (simp add: set_approve_cell_def put_cell_def)

definition is_candidate :: "enr_msg \<Rightarrow> bool" where
  "is_candidate m \<longleftrightarrow> \<not> enr_is_admin m \<and> \<not> is_teacher (em_enrollment m)"

definition sheet_maps where
  "sheet_maps sheet = (as_names sheet, as_studs sheet, as_rows sheet)"

lemma set_approve_cell_maps [simp]: "sheet_maps (set_approve_cell sheet r v) = sheet_maps sheet"
  by (simp add: sheet_maps_def set_approve_cell_def)

lemma find_student_row_maps: "sheet_maps s = sheet_maps s' \<Longrightarrow> find_student_row lower rng s m = find_student_row lower rng s' m"
  by (simp add: sheet_maps_def find_student_row_def lookup_row_def lookup_row_by_name_def split: option.split)

text \<open>The cells after the first loop, as writes in the order of the enrollments.\<close>

definition write_verdict where
  "write_verdict lower rng sheet passLimit subs m cells =
     (case find_student_row lower rng sheet m of None \<Rightarrow> cells | Some r \<Rightarrow> put_cell r (verdict passLimit subs m) cells)"

lemma approve_loop_cells:
  assumes "approve_loop lower rng passLimit subs ms st = Ok st'"
  shows "sheet_maps (al_sheet st') = sheet_maps (al_sheet st) \<and>
    as_cells (al_sheet st') =
      fold (write_verdict lower rng (al_sheet st) passLimit subs) (filter is_candidate ms) (as_cells (al_sheet st)) \<and>
    dom (al_students st') = dom (al_students st) \<union> enr_student_id ` set (filter is_candidate ms)"
  using assms
proof (induction ms arbitrary: st)
  case (Cons m ms)
  show ?case
  proof (cases "is_candidate m")
    case False
    with Cons show ?thesis by (auto simp: is_candidate_def)
  next
    case True
    define st1 where "st1 = st\<lparr>al_students := (al_students st)(enr_student_id m \<mapsto> enr_name m),
        al_numPass := al_numPass st + (if approved (num_approved subs m) passLimit then 1 else 0)\<rparr>"
    have st1: "al_sheet st1 = al_sheet st" "dom (al_students st1) = insert (enr_student_id m) (dom (al_students st))"
      by (simp_all add: st1_def)
    show ?thesis
    proof (cases "find_student_row lower rng (al_sheet st) m")
      case None
      with Cons.prems True obtain o' where "approve_loop lower rng passLimit subs ms (st1\<lparr>al_out := o'\<rparr>) = Ok st'"
        by (auto simp: is_candidate_def Let_def st1_def)
      from Cons.IH [OF this] None True st1 show ?thesis by (simp add: write_verdict_def)
    next
      case (Some r)
      with Cons.prems True obtain o' where
        "approve_loop lower rng passLimit subs ms
           (st1\<lparr>al_sheet := set_approve_cell (al_sheet st) r (verdict passLimit subs m), al_out := o'\<rparr>) = Ok st'"
        by (auto simp: is_candidate_def Let_def st1_def bind_out_Ok_iff)
      note ih = Cons.IH [OF this]
      have "write_verdict lower rng (set_approve_cell (al_sheet st) r (verdict passLimit subs m)) passLimit subs =
          write_verdict lower rng (al_sheet st) passLimit subs"
        using find_student_row_maps [OF set_approve_cell_maps] by (simp add: write_verdict_def fun_eq_iff)
      with ih Some True st1 show ?thesis by simp (simp add: write_verdict_def)
    qed
  qed
qed simp

lemma fail_missing_cells:
  assumes "fail_missing ks st = Ok st'"
  shows "as_cells (al_sheet st') =
    fold (\<lambda>(k, r) cells. if al_students st k \<noteq> None then cells else put_cell r fail_value cells) ks (as_cells (al_sheet st)) \<and>
    al_students st' = al_students st \<and> al_numPass st' = al_numPass st"
  using assms
proof (induction ks arbitrary: st)
  case (Cons k ks)
  obtain studID rowNum where k: "k = (studID, rowNum)" by (cases k)
  show ?case
  proof (cases "al_students st studID")
    case None
    with Cons.prems obtain o' where
      "fail_missing ks (st\<lparr>al_out := o', al_sheet := set_approve_cell (al_sheet st) rowNum fail_value\<rparr>) = Ok st'"
      by (auto simp: k bind_out_Ok_iff)
    from Cons.IH [OF this] None show ?thesis by (simp add: k)
  next
    case (Some n)
    with Cons.IH [of st] Cons.prems show ?thesis by (simp add: k)
  qed
qed simp

lemma show_nat_inj: "show_nat a = show_nat b \<longleftrightarrow> a = b"
  using show_nat_val by metis

lemma put_cell_at [simp]: "put_cell a v cells (approve_cell b) = (if a = b then Some v else cells (approve_cell b))"
  by (auto simp: put_cell_def approve_cell_def show_nat_inj)

text \<open>Each row of the sheet has one student number at most.\<close>

definition studs_ok :: "nat \<Rightarrow> (string \<times> nat) list \<Rightarrow> bool" where
  "studs_ok n ks \<longleftrightarrow> distinct (map fst ks) \<and> distinct (map snd ks) \<and> (\<forall>r\<in>snd ` set ks. r < n)"

lemma update_values:
  fixes ks :: "(string \<times> nat) list" and k :: string and n :: nat
  shows "distinct (map snd ks) \<Longrightarrow> \<forall>r\<in>snd ` set ks. r < n \<Longrightarrow> distinct (map snd (AList.update k n ks))"
    and "snd ` set (AList.update k n ks) \<subseteq> insert n (snd ` set ks)"
proof -
  have sub: "snd ` set (AList.update k n ks) \<subseteq> insert n (snd ` set ks)" for ks :: "(string \<times> nat) list"
    by (induction ks) auto
  then show "snd ` set (AList.update k n ks) \<subseteq> insert n (snd ` set ks)" .
  show "distinct (map snd ks) \<Longrightarrow> \<forall>r\<in>snd ` set ks. r < n \<Longrightarrow> distinct (map snd (AList.update k n ks))"
  proof (induction ks)
    case (Cons p ks)
    obtain x y where p: "p = (x, y)" by (cases p)
    have y: "y \<notin> snd ` set ks" "y \<noteq> n" "n \<notin> snd ` set ks" using Cons.prems by (auto simp: p)
    show ?case
    proof (cases "x = k")
      case False
      have "y \<notin> snd ` set (AList.update k n ks)" using sub [of ks] y by blast
      with False Cons p show ?thesis by simp
    qed (use Cons.prems y p in simp)
  qed simp
qed

lemma studs_ok_update:
  assumes "studs_ok n ks"
  shows "studs_ok (n + 1) (AList.update k n ks)"
proof -
  have "\<forall>r\<in>snd ` set (AList.update k n ks). r < n + 1"
    using assms update_values(2) [of k n ks] by (fastforce simp: studs_ok_def less_Suc_eq)
  with assms update_values(1) [of ks n k] show ?thesis by (auto simp: studs_ok_def distinct_update)
qed

lemma add_rows_studs: "studs_ok n (as_studs sheet) \<Longrightarrow> add_rows rows n sheet = Ok sheet' \<Longrightarrow> \<exists>m. studs_ok m (as_studs sheet')"
proof (induction rows arbitrary: n sheet)
  case (Cons row rows)
  from Cons.prems(2) obtain fn sn where
    "add_rows rows (n + 1) (sheet\<lparr>as_names := AList.update fn n (as_names sheet), as_studs := AList.update sn n (as_studs sheet)\<rparr>) = Ok sheet'"
    by (auto simp: bind_out_Ok_iff)
  from Cons.IH [OF _ this] studs_ok_update [OF Cons.prems(1)] show ?case by simp
qed auto

lemma new_sheet_studs:
  assumes "new_approve_sheet name rows = Ok sheet"
  shows "\<exists>m. studs_ok m (as_studs sheet)"
proof -
  from assms obtain rest where "add_rows rest 2
      \<lparr>as_sheetName = name, as_rows = rest, as_names = [], as_studs = [], as_cells = Map.empty\<rparr> = Ok sheet"
    by (auto simp: new_approve_sheet_def split: list.splits)
  from add_rows_studs [OF _ this] show ?thesis by (simp add: studs_ok_def)
qed

lemma fold_fail:
  fixes ks :: "(string \<times> nat) list"
  assumes "distinct (map snd ks)" and "(k, r) \<in> set ks"
  shows "fold (\<lambda>(k, r) cells. if P k then cells else put_cell r fail_value cells) ks cells (approve_cell r) =
    (if P k then cells (approve_cell r) else Some fail_value)"
proof -
  have other: "fold (\<lambda>(k, r) cells. if P k then cells else put_cell r fail_value cells) ks cells (approve_cell r) = cells (approve_cell r)"
    if "r \<notin> snd ` set ks" for ks :: "(string \<times> nat) list" and cells
    using that by (induction ks arbitrary: cells) auto
  show ?thesis
    using assms
  proof (induction ks arbitrary: cells)
    case (Cons p ks)
    show ?case
    proof (cases "p = (k, r)")
      case True
      with Cons.prems(1) have "r \<notin> snd ` set ks" by auto
      with other True show ?thesis by simp
    next
      case False
      with Cons.prems(2) have "(k, r) \<in> set ks" by simp
      then have "r \<in> snd ` set ks" by force
      with Cons.prems(1) have "snd p \<noteq> r" by auto
      note this \<open>(k, r) \<in> set ks\<close>
      with Cons show ?thesis by (cases p) simp
    qed
  qed simp
qed

lemma fold_verdicts:
  "fold (write_verdict lower rng sheet passLimit subs) ms cells (approve_cell r) =
    (if filter (\<lambda>m. find_student_row lower rng sheet m = Some r) ms = [] then cells (approve_cell r)
     else Some (verdict passLimit subs (last (filter (\<lambda>m. find_student_row lower rng sheet m = Some r) ms))))"
  by (induction ms arbitrary: cells) (auto simp: write_verdict_def split: option.split)

text \<open>C39: The cell of each student number in the sheet, whatever order the maps are visited in: the verdict on the last candidate
  whose row it is, when somebody with that number is enrolled; and "Ikke godkjent" when nobody is, even where a candidate with
  another number was found by name, counted as passed and given this very row.\<close>

theorem approval_by_student_number:
  assumes "new_approve_sheet name rows = Ok sheet" and "\<And>ks. mset (visit ks) = mset ks"
    and "approve_all lower rng visit passLimit subs enrollments sheet = Ok st" and "lookup_row sheet studID = Some r"
  shows "as_cells (al_sheet st) (approve_cell r) = Some
     (if studID \<in> enr_student_id ` set (filter is_candidate enrollments)
      then verdict passLimit subs (last (filter (\<lambda>m. find_student_row lower rng sheet m = Some r) (filter is_candidate enrollments)))
      else fail_value)"
proof -
  let ?st = "\<lparr>al_sheet = sheet, al_out = new_output, al_numPass = 0, al_students = Map.empty\<rparr>"
  let ?mine = "filter (\<lambda>m. find_student_row lower rng sheet m = Some r) (filter is_candidate enrollments)"
  from assms(3) obtain st1 where st1: "approve_loop lower rng passLimit subs enrollments ?st = Ok st1"
    "fail_missing (visit (as_studs (al_sheet st1))) st1 = Ok st"
    by (auto simp: approve_all_def bind_out_Ok_iff)
  note loop = approve_loop_cells [OF st1(1), simplified]
  then have studs: "as_studs (al_sheet st1) = as_studs sheet" by (simp add: sheet_maps_def)
  obtain n where ok: "studs_ok n (as_studs sheet)" using new_sheet_studs [OF assms(1)] by blast
  then have in_studs: "(studID, r) \<in> set (as_studs sheet)" using assms(4) by (simp add: studs_ok_def lookup_row_def)
  have "mset (map snd (visit (as_studs sheet))) = mset (map snd (as_studs sheet))" using assms(2) by simp
  then have visited: "distinct (map snd (visit (as_studs sheet)))" "(studID, r) \<in> set (visit (as_studs sheet))"
    using ok in_studs mset_eq_setD [OF assms(2)] unfolding studs_ok_def by (metis mset_eq_imp_distinct_iff, blast)
  have "as_cells (al_sheet st) (approve_cell r) =
      (if al_students st1 studID \<noteq> None then as_cells (al_sheet st1) (approve_cell r) else Some fail_value)"
    using fail_missing_cells [OF st1(2)] fold_fail [OF visited, of "\<lambda>k. al_students st1 k \<noteq> None"] by (simp add: studs)
  moreover have "al_students st1 studID \<noteq> None \<longleftrightarrow> studID \<in> enr_student_id ` set (filter is_candidate enrollments)"
    using loop by (auto simp: dom_def)
  moreover have "?mine \<noteq> []" if "studID \<in> enr_student_id ` set (filter is_candidate enrollments)"
    using that assms(4) by (auto simp: find_student_row_def filter_empty_conv)
  ultimately show ?thesis using loop fold_verdicts [of lower rng sheet passLimit subs "filter is_candidate enrollments" "as_cells sheet" r] assms(1)
    by auto
qed


definition sample_rows :: "string list list" where
  "sample_rows = [[''Fornavn'', ''Etternavn'', ''Studentnr.''], [''Ann'', ''Li'', ''12'']]"

definition sample_candidates :: "enr_msg list" where
  "sample_candidates =
     [EnrMsg (zero_enrollment\<lparr>e_ID := 4\<rparr>)
       (Some (UserMsg (zero_user\<lparr>u_ID := 7, u_Name := ''Ann Li'', u_StudentID := ''21''\<rparr>) [])) None None]"

definition sample_sheet :: approve_sheet where
  "sample_sheet = \<lparr>as_sheetName = ''s'', as_rows = [[''Ann'', ''Li'', ''12'']], as_names = [(''Ann Li'', 2)],
     as_studs = [(''12'', 2)], as_cells = Map.empty\<rparr>"

lemma sample_sheet_new: "new_approve_sheet ''s'' sample_rows = Ok sample_sheet"
  by (simp add: new_approve_sheet_def sample_rows_def sample_sheet_def full_name_def student_num_def row_at_def)

lemma sample_approve_run:
  "\<exists>st. approve_all id id id 0 Map.empty sample_candidates sample_sheet = Ok st \<and> al_numPass st = 1"
proof -
  have "case approve_all id id id 0 Map.empty sample_candidates sample_sheet of Ok st \<Rightarrow> al_numPass st = 1 | _ \<Rightarrow> False"
    by code_simp
  then show ?thesis by (auto split: outcome.splits)
qed

lemma approval_by_student_number_witness:
  "\<exists>st. approve_all id id id 0 Map.empty sample_candidates sample_sheet = Ok st \<and> al_numPass st = 1 \<and>
     as_cells (al_sheet st) (approve_cell 2) = Some fail_value"
proof -
  obtain st where st: "approve_all id id id 0 Map.empty sample_candidates sample_sheet = Ok st" "al_numPass st = 1"
    using sample_approve_run by blast
  have "lookup_row sample_sheet ''12'' = Some 2" by (simp add: lookup_row_def sample_sheet_def)
  moreover have "''12'' \<notin> enr_student_id ` set (filter is_candidate sample_candidates)"
    by (simp add: sample_candidates_def enr_student_id_def)
  ultimately show ?thesis
    using approval_by_student_number [OF sample_sheet_new _ st(1), of "''12''" 2] st by auto
qed

end
