(* ===== verification/Stream_Access.thy ===== *)
theory Stream_Access
  imports Access
begin

text \<open>
  The interceptors of a stream: the methods \<open>WrapStreamingHandler\<close> of \<open>web/interceptor/*.go\<close>, which only
  \<open>SubmissionStream\<close> passes, and the client interceptor that sends a token.  A handler of a stream runs until the
  client leaves; the state is the server with the response header \<open>Set-Cookie\<close>, which is set before the handler runs.
\<close>

section \<open>The interceptors\<close>

type_synonym ('d, 's) stream_handler =
  "rpc_request \<Rightarrow> claims option \<Rightarrow> ('d, 's) server \<times> string \<Rightarrow> (rpc_error, unit) outcome \<times> ('d, 's) server \<times> string"

definition validation_stream :: "('d, 's) stream_handler \<Rightarrow> ('d, 's) stream_handler" where
  "validation_stream next rq c w = next rq c w"

definition access_stream :: "('d, 's) stream_handler \<Rightarrow> ('d, 's) stream_handler" where
  "access_stream next rq c w = next rq c w"

definition token_stream :: "('d, 's) stream_handler \<Rightarrow> ('d, 's) stream_handler" where
  "token_stream next rq c w = next rq c w"

definition token_auth_stream :: "'d server_env \<Rightarrow> ('d, 's) stream_handler \<Rightarrow> ('d, 's) stream_handler" where
  "token_auth_stream env next rq c = (\<lambda>(s, header).
     let token = rq_Authorization rq
     in if token = [] then next rq c (s, header)
        else case lookup_token env token s of
               (Inl e, s) \<Rightarrow> (Err e, s, header)
             | (Inr cookie, s) \<Rightarrow>
                 (case next (rq\<lparr>rq_Cookie := cookie\<rparr>) c (s, header) of
                    (Ok _, s, header) \<Rightarrow>
                      (Ok (), if header \<noteq> [] \<and> header \<noteq> cookie then s\<lparr>sv_tokenMap := (sv_tokenMap s)(token \<mapsto> header)\<rparr> else s, header)
                  | r \<Rightarrow> r))"

definition user_auth_stream :: "'d server_env \<Rightarrow> ('d, 's) stream_handler \<Rightarrow> ('d, 's) stream_handler" where
  "user_auth_stream env next rq c = (\<lambda>(s, header).
     case process_header env (rq_Cookie rq) (sv_tm s) of
       (Panic p, tm) \<Rightarrow> (Panic p, s\<lparr>sv_tm := tm\<rparr>, header)
     | (Err e, tm) \<Rightarrow> (Err e, s\<lparr>sv_tm := tm\<rparr>, header)
     | (Ok (cl, updated), tm) \<Rightarrow>
         next rq (Some cl) (s\<lparr>sv_tm := tm\<rparr>, case updated of None \<Rightarrow> header | Some ck \<Rightarrow> en_cookieString env ck))"

text \<open>The chain, in the order of \<open>NewQuickFeedHandler\<close>.\<close>

definition stream_chain :: "'d server_env \<Rightarrow> ('d, 's) stream_handler \<Rightarrow> ('d, 's) stream_handler" where
  "stream_chain env next =
     validation_stream (token_auth_stream env (user_auth_stream env (access_stream (token_stream next))))"

text \<open>The interceptor of a client with a token.\<close>

definition token_client :: "string \<Rightarrow> bool \<Rightarrow> (rpc_request \<Rightarrow> 'r) \<Rightarrow> rpc_request \<Rightarrow> 'r" where
  "token_client token isClient next rq = next (if isClient then rq\<lparr>rq_Authorization := token\<rparr> else rq)"

section \<open>Who gets a stream\<close>

lemma process_header_claims:
  "process_header env cookie tm = (Ok (cl, up), tm') \<Longrightarrow> get_claims (en_jwt env) (en_secret env) (en_now env) cookie = Inr cl"
  by (auto simp: process_header_def split: sum.splits outcome.splits prod.splits)

text \<open>
  A stream reaches its handler exactly when the cookie, the one sent or the one found for the token sent, gives claims that
  could be renewed where needed; then the handler has these claims, and the renewed cookie is in the header before it runs.
  The message is not validated, and no method, not even an unknown one, is checked for a role.
\<close>

lemma stream_reaches:
  assumes "if rq_Authorization rq = [] then rq' = rq \<and> s' = s
      else \<exists>cookie. lookup_token env (rq_Authorization rq) s = (Inr cookie, s') \<and> rq' = rq\<lparr>rq_Cookie := cookie\<rparr>"
    and "process_header env (rq_Cookie rq') (sv_tm s') = (Ok (cl, up), tm)"
  shows "fst (stream_chain env n rq c (s, header)) =
    fst (n rq' (Some cl) (s'\<lparr>sv_tm := tm\<rparr>, case up of None \<Rightarrow> header | Some ck \<Rightarrow> en_cookieString env ck))"
  using assms
  by (auto simp: stream_chain_def validation_stream_def access_stream_def token_stream_def token_auth_stream_def
      user_auth_stream_def Let_def split: if_splits prod.splits outcome.splits)

lemma stream_authenticated:
  assumes "stream_chain env n rq c (s, header) \<noteq> stream_chain env n' rq c (s, header)"
  shows "\<exists>cookie s' cl. (if rq_Authorization rq = [] then cookie = rq_Cookie rq \<and> s' = s
       else lookup_token env (rq_Authorization rq) s = (Inr cookie, s')) \<and>
     get_claims (en_jwt env) (en_secret env) (en_now env) cookie = Inr cl"
  using assms
  by (auto simp: stream_chain_def validation_stream_def access_stream_def token_stream_def token_auth_stream_def
      user_auth_stream_def Let_def split: if_splits prod.splits outcome.splits sum.splits dest: process_header_claims)

end
