(* ===== verification/Startup.thy ===== *)
theory Startup
  imports Env_File Deadline
begin

text \<open>
  Starting the server: the settings of \<open>internal/env\<close> (\<open>path.go\<close>, \<open>scm.go\<close>, \<open>cert.go\<close>, \<open>ready.go\<close>), the flow that
  creates the GitHub app (\<open>web/manifest/manifest.go\<close>) and the start of \<open>main.go\<close>.  The home directory, the git
  repository, the resolver of host names, the certificates and GitHub are arguments.
\<close>

section \<open>Paths\<close>

definition quickfeedModulePath :: string where
  "quickfeedModulePath = ''github.com/quickfeed/quickfeed''"

fun contains :: "string \<Rightarrow> string \<Rightarrow> bool" where
  "contains [] p \<longleftrightarrow> p = []"
| "contains (c # s) p \<longleftrightarrow> has_prefix (c # s) p \<or> contains s p"

definition check_module_path :: "faults \<Rightarrow> disk \<Rightarrow> string \<Rightarrow> string option" where
  "check_module_path io dk root =
     (let modFile = path_join [root, ''go.mod'']
      in case read_file io dk modFile of
           Inl e \<Rightarrow> Some (''failed to read '' @ modFile @ '': '' @ e)
         | Inr data \<Rightarrow> if \<not> contains data (''module '' @ quickfeedModulePath) then Some (''invalid go.mod file: '' @ modFile) else None)"

text \<open>The root, which is the package variable \<open>quickfeedRoot\<close>, and the environment; \<open>git\<close> is what \<open>gitRoot\<close> finds.\<close>

definition set_root :: "string + string \<Rightarrow> faults \<Rightarrow> disk \<Rightarrow> environ \<Rightarrow> (string, string \<times> environ) outcome" where
  "set_root git io dk e =
     (case git of
        Inl err \<Rightarrow> Panic (''Failed to determine root of the git repository: '' @ err)
      | Inr root \<Rightarrow>
          (case check_module_path io dk root of
             Some err \<Rightarrow> Panic (''Invalid module path: '' @ err)
           | None \<Rightarrow> Ok (root, setenv ''QUICKFEED'' root e)))"

definition root_path ::
    "string + string \<Rightarrow> faults \<Rightarrow> disk \<Rightarrow> string list \<Rightarrow> string \<times> environ \<Rightarrow> (string, string \<times> string \<times> environ) outcome" where
  "root_path git io dk paths = (\<lambda>(root, e).
     bind_out (if root = [] then set_root git io dk e else Ok (root, e)) (\<lambda>(root, e).
       Ok (path_join [root, path_join paths], root, e)))"

section \<open>Settings\<close>

text \<open>
  What the settings are read from: the home directory, the root (found before), the provider (read when the package is
  initialised), whether a name resolves and to which addresses, each loopback or private.
\<close>

record host =
  ho_home :: "string option"
  ho_root :: string
  ho_provider :: string
  ho_lookup :: "string \<Rightarrow> (bool \<times> bool) list option"

definition env_or :: "environ \<Rightarrow> string \<Rightarrow> string \<Rightarrow> string" where
  "env_or e k d = (let v = getenv e k in if v = [] then d else v)"

definition required :: "environ \<Rightarrow> string \<Rightarrow> string \<Rightarrow> string + string" where
  "required e k err = (let v = getenv e k in if v = [] then Inl err else Inr v)"

definition init_provider :: "environ \<Rightarrow> string" where
  "init_provider e = env_or e ''QUICKFEED_SCM_PROVIDER'' ''github''"

definition repository_path :: "environ \<Rightarrow> string" where
  "repository_path e = expand_env e (env_or e ''QUICKFEED_REPOSITORY_PATH'' ''$HOME/courses'')"

definition client_id :: "host \<Rightarrow> environ \<Rightarrow> string + string" where
  "client_id h e = required e ''QUICKFEED_CLIENT_ID'' (''missing client ID for '' @ ho_provider h)"

definition client_secret :: "host \<Rightarrow> environ \<Rightarrow> string + string" where
  "client_secret h e = required e ''QUICKFEED_CLIENT_SECRET'' (''missing client secret for '' @ ho_provider h)"

definition app_id :: "host \<Rightarrow> environ \<Rightarrow> string + string" where
  "app_id h e = required e ''QUICKFEED_APP_ID'' (''missing application ID for provider '' @ ho_provider h)"

definition has_app_id :: "host \<Rightarrow> environ \<Rightarrow> bool" where
  "has_app_id h e = (case app_id h e of Inl _ \<Rightarrow> False | Inr _ \<Rightarrow> True)"

definition get_app_url :: "environ \<Rightarrow> string" where
  "get_app_url e = getenv e ''QUICKFEED_APP_URL''"

definition app_name :: "environ \<Rightarrow> string" where
  "app_name e = env_or e ''QUICKFEED_APP_NAME'' ''QuickFeed''"

definition get_access_token :: "environ \<Rightarrow> string + string" where
  "get_access_token e = required e ''GITHUB_ACCESS_TOKEN'' ''required 'GITHUB_ACCESS_TOKEN' is not set''"

definition home_or_root :: "host \<Rightarrow> string" where
  "home_or_root h = (case ho_home h of Some d \<Rightarrow> d | None \<Rightarrow> path_join [ho_root h, []])"

definition config_certs :: "host \<Rightarrow> string list" where
  "config_certs h = [home_or_root h, ''.config/quickfeed'', ''certs'']"

definition app_priv_key_file :: "host \<Rightarrow> environ \<Rightarrow> string" where
  "app_priv_key_file h e = env_or e ''QUICKFEED_APP_KEY'' (path_join (config_certs h @ [''quickfeed-app-key.pem'']))"

definition cert_path :: "host \<Rightarrow> environ \<Rightarrow> string" where
  "cert_path h e = env_or e ''QUICKFEED_CERT_PATH'' (path_join (config_certs h))"

definition fullchain_file :: "host \<Rightarrow> environ \<Rightarrow> string" where
  "fullchain_file h e = env_or e ''QUICKFEED_FULLCHAIN_FILE'' (path_join [cert_path h e, ''fullchain.pem''])"

definition ca_file :: "host \<Rightarrow> environ \<Rightarrow> string" where
  "ca_file h e = env_or e ''QUICKFEED_CA_FILE'' (path_join [cert_path h e, ''quickfeed-ca.crt''])"

definition priv_key_file :: "host \<Rightarrow> environ \<Rightarrow> string" where
  "priv_key_file h e = env_or e ''QUICKFEED_PRIVKEY_FILE'' (path_join [cert_path h e, ''privkey.pem''])"

definition env_domain :: "environ \<Rightarrow> string" where
  "env_domain e = env_or e ''DOMAIN'' ''localhost''"

definition http_addr :: "environ \<Rightarrow> string" where
  "http_addr e = CHR '':'' # env_or e ''PORT'' ''443''"

definition domain_with_port :: "environ \<Rightarrow> string" where
  "domain_with_port e = env_domain e @ http_addr e"

text \<open>A name that resolves to no address at all counts as local.\<close>

definition is_local :: "host \<Rightarrow> string \<Rightarrow> bool" where
  "is_local h domain = (case ho_lookup h domain of None \<Rightarrow> False | Some ips \<Rightarrow> list_all (\<lambda>(loopback, private). loopback \<or> private) ips)"

definition is_domain_local :: "host \<Rightarrow> environ \<Rightarrow> bool" where
  "is_domain_local h e = is_local h (env_domain e)"

section \<open>The whitelist\<close>

text \<open>A match of the expression for an IP address: of the first group its last digit, of the last group its first.\<close>

fun octet :: "string \<Rightarrow> string option" where
  "octet s =
     (let n = length (takeWhile is_digit s)
      in if 1 \<le> n \<and> n \<le> 3 then (case dropWhile is_digit s of c # r \<Rightarrow> if c = CHR ''.'' then Some r else None | [] \<Rightarrow> None) else None)"

definition ip_at :: "string \<Rightarrow> bool" where
  "ip_at s =
     (case s of
        d # c # r \<Rightarrow> is_digit d \<and> c = CHR ''.'' \<and>
          (case Option.bind (octet r) octet of Some (x # _) \<Rightarrow> is_digit x | _ \<Rightarrow> False)
      | _ \<Rightarrow> False)"

fun has_ip :: "string \<Rightarrow> bool" where
  "has_ip [] \<longleftrightarrow> False"
| "has_ip (c # s) \<longleftrightarrow> ip_at (c # s) \<or> has_ip s"

fun whitelist_domains :: "host \<Rightarrow> string list \<Rightarrow> string + string list" where
  "whitelist_domains h [] = Inr []"
| "whitelist_domains h (d # ds) =
     (if d = [] then whitelist_domains h ds
      else if is_local h d then Inl (''whitelist contains local/private domain: '' @ d)
      else bind_res (whitelist_domains h ds) (\<lambda>ds. Inr (d # ds)))"

definition whitelist :: "host \<Rightarrow> environ \<Rightarrow> string + string list" where
  "whitelist h e =
     (let domains = getenv e ''QUICKFEED_WHITELIST''
      in if domains = [] then Inl ''required whitelist is undefined''
         else if has_ip domains then Inl ''whitelist contains IP addresses''
         else bind_res (whitelist_domains h (split_on (CHR '','') (filter (\<lambda>c. c \<noteq> CHR '' '') domains))) (\<lambda>ds.
                if ds = [] then Inl ''required whitelist is undefined'' else Inr ds))"


section \<open>Readiness\<close>

definition validate_domain :: "host \<Rightarrow> bool \<Rightarrow> environ \<Rightarrow> string option" where
  "validate_domain h dev e =
     (if dev then None
      else if is_domain_local h e
      then Some (''domain '' @ env_domain e @ '' is local/private; production mode requires a public domain'') else None)"

text \<open>\<open>generate\<close> and \<open>trust\<close> are the operations of \<open>internal/cert\<close>; the first writes the files of certificates.\<close>

definition ensure_certificates ::
    "host \<Rightarrow> faults \<Rightarrow> (string \<times> string \<times> string \<times> string \<Rightarrow> disk \<Rightarrow> string option \<times> disk) \<Rightarrow> (string \<Rightarrow> string option)
       \<Rightarrow> environ \<Rightarrow> disk \<Rightarrow> string option \<times> disk" where
  "ensure_certificates h io generate trust e dk =
     (if file_exists io dk (fullchain_file h e) \<and> file_exists io dk (priv_key_file h e) \<and> file_exists io dk (ca_file h e) then (None, dk)
      else case generate (fullchain_file h e, priv_key_file h e, ca_file h e, env_domain e) dk of
             (Some err, dk) \<Rightarrow> (Some (''failed to generate self-signed certificates: '' @ err), dk)
           | (None, dk) \<Rightarrow>
               (case trust (ca_file h e) of
                  Some err \<Rightarrow> (Some (''failed to install self-signed certificate: '' @ err), dk) | None \<Rightarrow> (None, dk)))"

definition ensure_ready ::
    "host \<Rightarrow> faults \<Rightarrow> (string \<times> string \<times> string \<times> string \<Rightarrow> disk \<Rightarrow> string option \<times> disk) \<Rightarrow> (string \<Rightarrow> string option)
       \<Rightarrow> bool \<Rightarrow> string \<Rightarrow> string \<Rightarrow> bool \<Rightarrow> disk \<times> environ \<Rightarrow> string option \<times> disk \<times> environ" where
  "ensure_ready h io generate trust dev envFile secret forceNewSecret w =
     (case ensure_auth_secret io envFile secret forceNewSecret w of
        (Inl err, w) \<Rightarrow> (Some (''failed to ensure auth secret: '' @ err), w)
      | (Inr _, dk, e) \<Rightarrow>
          (case validate_domain h dev e of
             Some err \<Rightarrow> (Some err, dk, e)
           | None \<Rightarrow>
               if dev then (case ensure_certificates h io generate trust e dk of (r, dk) \<Rightarrow> (r, dk, e)) else (None, dk, e)))"

definition needs_app_creation :: "host \<Rightarrow> faults \<Rightarrow> environ \<Rightarrow> disk \<Rightarrow> bool" where
  "needs_app_creation h io e dk \<longleftrightarrow>
     (case client_id h e of Inl _ \<Rightarrow> True | Inr _ \<Rightarrow>
     (case client_secret h e of Inl _ \<Rightarrow> True | Inr _ \<Rightarrow>
       if \<not> has_app_id h e then True
       else if get_app_url e = [] then True
       else \<not> file_exists io dk (app_priv_key_file h e)))"

text \<open>The joined errors, nil when there are none.\<close>

definition check_app_data :: "host \<Rightarrow> faults \<Rightarrow> environ \<Rightarrow> disk \<Rightarrow> string list" where
  "check_app_data h io e dk =
     (case client_id h e of Inl _ \<Rightarrow> [''QUICKFEED_CLIENT_ID is not set''] | Inr _ \<Rightarrow> []) @
     (case client_secret h e of Inl _ \<Rightarrow> [''QUICKFEED_CLIENT_SECRET is not set''] | Inr _ \<Rightarrow> []) @
     (if \<not> has_app_id h e then [''QUICKFEED_APP_ID is not set''] else []) @
     (if get_app_url e = [] then [''QUICKFEED_APP_URL is not set''] else []) @
     (if \<not> file_exists io dk (app_priv_key_file h e)
      then [''QuickFeed App private key file not found: '' @ app_priv_key_file h e] else [])"

section \<open>Creating the app\<close>

record app_config =
  ac_ID :: int
  ac_HTMLURL :: string
  ac_ClientID :: string
  ac_ClientSecret :: string
  ac_WebhookSecret :: string
  ac_PEM :: string

definition write_file :: "faults \<Rightarrow> string \<Rightarrow> string \<Rightarrow> disk \<Rightarrow> string option \<times> disk" where
  "write_file io f content dk =
     (case io OpenOp f of
        Some e \<Rightarrow> (Some e, dk)
      | None \<Rightarrow> (case io WriteOp f of Some e \<Rightarrow> (Some e, dk(f \<mapsto> [])) | None \<Rightarrow> (io CloseOp f, dk(f \<mapsto> content))))"

definition app_env :: "app_config \<Rightarrow> (string \<times> string) list" where
  "app_env cfg =
     [(''QUICKFEED_APP_ID'', show_int (ac_ID cfg)), (''QUICKFEED_APP_URL'', ac_HTMLURL cfg),
      (''QUICKFEED_CLIENT_ID'', ac_ClientID cfg), (''QUICKFEED_CLIENT_SECRET'', ac_ClientSecret cfg),
      (''QUICKFEED_WEBHOOK_SECRET'', ac_WebhookSecret cfg)]"

text \<open>
  The callback of GitHub, up to the error that it sends to the channel \<open>done\<close>.  \<open>complete\<close> is the call of GitHub with
  the code (the status of the response with the settings of the app), \<open>mkdir\<close> creates the directories of the key file,
  \<open>page\<close>, \<open>build\<close> and \<open>shutdown\<close> are the errors of the page that is shown, of the build of the frontend and of the
  server when it is closed.  The name of the file of variables is the path that \<open>RootEnv\<close> gives.
\<close>

record app_flow =
  af_code :: string
  af_complete :: "string \<Rightarrow> string + (nat \<times> app_config)"
  af_mkdir :: "string option"
  af_page :: "string option"
  af_build :: "string option"
  af_shutdown :: "string option"

definition conversion :: "host \<Rightarrow> faults \<Rightarrow> string \<Rightarrow> app_flow \<Rightarrow> disk \<times> environ \<Rightarrow> string option \<times> disk" where
  "conversion h io envFile flow = (\<lambda>(dk, e).
     if af_code flow = [] then (Some ''no code provided'', dk)
     else case af_complete flow (af_code flow) of
            Inl err \<Rightarrow> (Some err, dk)
          | Inr (st, cfg) \<Rightarrow>
              if st \<noteq> 201 then (Some ''unexpected response code'', dk)
              else if af_mkdir flow \<noteq> None then (af_mkdir flow, dk)
              else (case write_file io (app_priv_key_file h e) (ac_PEM cfg) dk of
                      (Some err, dk) \<Rightarrow> (Some err, dk)
                    | (None, dk) \<Rightarrow>
                        (case save_env io envFile (app_env cfg) dk of
                           (Some err, dk) \<Rightarrow> (Some err, dk)
                         | (None, dk) \<Rightarrow> (if af_page flow \<noteq> None then af_page flow else af_build flow, dk))))"

section \<open>The start of the server\<close>

text \<open>
  \<open>main\<close> until it opens the database; \<open>Inl\<close> is \<open>log.Fatal\<close>.  \<open>answer\<close> is what the user types when the domain is
  local, \<open>served\<close> the error of the server that shows the pages of the flow, before its callback.
\<close>

definition check_domain :: "host \<Rightarrow> string \<Rightarrow> environ \<Rightarrow> string option" where
  "check_domain h answer e =
     (if is_domain_local h e \<and> answer \<noteq> ''Y'' \<and> answer \<noteq> ''y'' then Some (''aborting '' @ app_name e @ '' GitHub App creation'') else None)"

definition run_app_creation ::
    "host \<Rightarrow> faults \<Rightarrow> string \<Rightarrow> app_flow \<Rightarrow> string option \<Rightarrow> string \<Rightarrow> disk \<times> environ \<Rightarrow> string option \<times> disk" where
  "run_app_creation h io envFile flow served answer = (\<lambda>(dk, e).
     case check_domain h answer e of
       Some err \<Rightarrow> (Some err, dk)
     | None \<Rightarrow>
         if served \<noteq> None then (served, dk)
         else case conversion h io envFile flow (dk, e) of
                (Some err, dk) \<Rightarrow> (Some err, dk) | (None, dk) \<Rightarrow> (af_shutdown flow, dk))"

definition start_server where
  "start_server h io generate trust dev envFile secret forceNewSecret flow served answer = (\<lambda>(dk, e).
     case load_env io envFile dk e of
       (Some err, e) \<Rightarrow> Inl [err]
     | (None, e) \<Rightarrow>
         (case ensure_ready h io generate trust dev envFile secret forceNewSecret (dk, e) of
            (Some err, w) \<Rightarrow> Inl [err]
          | (None, dk, e) \<Rightarrow>
              bind_res
                (if needs_app_creation h io e dk
                 then (case run_app_creation h io envFile flow served answer (dk, e) of
                         (Some err, dk) \<Rightarrow> Inl [err]
                       | (None, dk) \<Rightarrow>
                           (case load_env io envFile dk e of (Some err, e) \<Rightarrow> Inl [err] | (None, e) \<Rightarrow> Inr (dk, e)))
                 else Inr (dk, e))
                (\<lambda>(dk, e). if check_app_data h io e dk \<noteq> [] then Inl (check_app_data h io e dk) else Inr (dk, e))))"


section \<open>Properties\<close>

lemma needs_app_creation_iff: "needs_app_creation h io e dk \<longleftrightarrow> check_app_data h io e dk \<noteq> []"
  by (auto simp: needs_app_creation_def check_app_data_def split: sum.split)

lemma check_app_data_nil:
  "check_app_data h io e dk = [] \<longleftrightarrow>
     getenv e ''QUICKFEED_CLIENT_ID'' \<noteq> [] \<and> getenv e ''QUICKFEED_CLIENT_SECRET'' \<noteq> [] \<and> getenv e ''QUICKFEED_APP_ID'' \<noteq> [] \<and>
     getenv e ''QUICKFEED_APP_URL'' \<noteq> [] \<and> file_exists io dk (app_priv_key_file h e)"
  by (auto simp: check_app_data_def client_id_def client_secret_def app_id_def has_app_id_def get_app_url_def required_def Let_def
      split: sum.splits)

lemma plain_authSecret: "plain_key authSecret"
  by code_simp

text \<open>After the secret has been ensured the process has one.\<close>

lemma ensured_secret:
  assumes "ensure_auth_secret io f secret force (dk, e) = (Inr b, dk', e')"
    and "plain_value secret" and "secret \<noteq> []" and "io WriteOp f = None"
  shows "auth_secret e' \<noteq> []"
proof (cases "auth_secret e = []")
  case True
  with assms(1) obtain dk1 where s: "save_env io f [(authSecret, secret)] dk = (None, dk1)" "load_env io f dk1 e = (None, e')"
    by (auto simp: ensure_auth_secret_def new_auth_secret_def split: prod.splits option.splits)
  have "e' authSecret = Some secret"
    using saved_key_loaded [OF _ _ s(1) assms(4) s(2)] assms(2) plain_authSecret True by (simp add: auth_secret_def)
  with assms(3) show ?thesis by (simp add: auth_secret_def getenv_def)
next
  case False
  from assms(1) have "e' = e \<or> (\<exists>dk1. load_env io f dk1 e = (None, e'))"
    by (auto simp: ensure_auth_secret_def split: prod.splits option.splits if_splits)
  with False load_env_keeps [of e authSecret io f] show ?thesis by (auto simp: auth_secret_def) (metis snd_conv)
qed

text \<open>C20: A server that gets past its start is configured: it has a secret to sign with, and the whole app data (or the start is
  fatal), whichever files existed, whatever was set before and whether or not the app had to be created; only the write of the
  file of variables must not fail unseen.\<close>

theorem started_is_configured:
  assumes "start_server h io generate trust dev f secret force flow served answer (dk, e) = Inr (dk', e')"
    and "plain_value secret" and "secret \<noteq> []" and "io WriteOp f = None"
  shows "auth_secret e' \<noteq> [] \<and> getenv e' ''QUICKFEED_CLIENT_ID'' \<noteq> [] \<and> getenv e' ''QUICKFEED_CLIENT_SECRET'' \<noteq> [] \<and>
    getenv e' ''QUICKFEED_APP_ID'' \<noteq> [] \<and> getenv e' ''QUICKFEED_APP_URL'' \<noteq> [] \<and> file_exists io dk' (app_priv_key_file h e')"
proof -
  from assms(1) obtain e1 dk2 e2 where ready: "ensure_ready h io generate trust dev f secret force (dk, e1) = (None, dk2, e2)"
    and last: "e' = e2 \<or> (\<exists>d. load_env io f d e2 = (None, e'))" and ok: "check_app_data h io e' dk' = []"
    by (auto simp: start_server_def bind_res_Inr_iff split: prod.splits option.splits if_splits)
  from ready obtain b d where "ensure_auth_secret io f secret force (dk, e1) = (Inr b, d, e2)"
    by (auto simp: ensure_ready_def split: prod.splits sum.splits option.splits if_splits)
  then have "auth_secret e2 \<noteq> []" using ensured_secret assms(2-4) by blast
  with last load_env_keeps [of e2 authSecret io f] have "auth_secret e' \<noteq> []" by (auto simp: auth_secret_def) (metis snd_conv)
  with ok show ?thesis by (simp add: check_app_data_nil)
qed


text \<open>Text of visible characters survives the trimming.\<close>

definition visible_char :: "char \<Rightarrow> bool" where
  "visible_char c \<longleftrightarrow> (let n = of_char c :: nat in 32 < n \<and> n < 127 \<and> n \<noteq> 34 \<and> n \<noteq> 36)"

definition visible_text :: "string \<Rightarrow> bool" where
  "visible_text s \<longleftrightarrow> list_all visible_char s"

lemma space_codes_invisible: "list_all (\<lambda>p. p \<noteq> [] \<and> \<not> visible_char (hd p) \<and> \<not> visible_char (last p)) space_codes"
  by (simp add: space_codes_eval visible_char_def)

lemma visible_no_prefix: "visible_text s \<Longrightarrow> p \<noteq> [] \<Longrightarrow> \<not> visible_char (hd p) \<Longrightarrow> \<not> has_prefix s p"
  by (cases p) (auto simp: visible_text_def elim!: has_prefixE)

lemma visible_trimmed:
  assumes "visible_text s"
  shows "trimmed s"
proof -
  have "visible_text (rev s)" using assms by (simp add: visible_text_def)
  moreover have "p \<noteq> [] \<and> \<not> visible_char (hd p) \<and> \<not> visible_char (hd (rev p))" if "p \<in> set space_codes" for p
    using space_codes_invisible that by (simp add: list_all_iff hd_rev)
  ultimately show ?thesis using visible_no_prefix assms by (fastforce simp: trimmed_def)
qed

lemma visible_plain:
  assumes "visible_text v"
  shows "plain_value v"
proof -
  have "CHR 0x0A \<notin> set v \<and> CHR 0x00 \<notin> set v \<and> CHR ''$'' \<notin> set v \<and> CHR 0x22 \<notin> set v"
    using assms by (auto simp: visible_text_def visible_char_def list_all_iff Let_def)
  moreover have "v = [] \<or> hd v \<in> set v \<and> last v \<in> set v" by auto
  ultimately show ?thesis using visible_trimmed [OF assms] unfolding plain_value_def trim_space_iff by metis
qed

lemma show_nat_visible: "visible_text (show_nat n)"
proof (induction n rule: show_nat.induct)
  case (1 n)
  have "visible_char (digit_char d)" if "d < 10" for d
    using that by (simp add: visible_char_def digit_char_def)
  with 1 show ?case by (subst show_nat.simps) (simp add: visible_text_def)
qed

lemma show_int_visible: "visible_text (show_int i)"
  using show_nat_visible by (simp add: show_int_def visible_text_def visible_char_def)


lemma app_env_keys: "list_all (\<lambda>(k, v). plain_key k \<and> k \<noteq> ''QUICKFEED_APP_KEY'') (app_env cfg)" "distinct (map fst (app_env cfg))"
proof -
  have "list_all (\<lambda>k. plain_key k) [''QUICKFEED_APP_ID'', ''QUICKFEED_APP_URL'', ''QUICKFEED_CLIENT_ID'', ''QUICKFEED_CLIENT_SECRET'',
      ''QUICKFEED_WEBHOOK_SECRET'']"
    by code_simp
  then show "list_all (\<lambda>(k, v). plain_key k \<and> k \<noteq> ''QUICKFEED_APP_KEY'') (app_env cfg)" by (simp add: app_env_def)
  show "distinct (map fst (app_env cfg))" by (simp add: app_env_def)
qed

lemma write_file_ok:
  "write_file io f c dk = (None, dk') \<Longrightarrow> dk' = dk(f \<mapsto> c)"
  by (auto simp: write_file_def split: option.splits)

lemma save_env_others:
  assumes "save_env io f env dk = (r, dk')" and "p \<noteq> f" and "p \<noteq> backup f"
  shows "dk' p = dk p"
  using assms by (auto simp: save_env_def update_file_def Let_def split: option.splits if_splits)

text \<open>C21: The flow that creates the app reaches the process that runs it: when the callback reports no error and the file of
  variables loads again, then the settings that GitHub gave are those of the process and the key is in its file, so the
  server need not ask for the app again; provided that no such variable was set before.\<close>

theorem created_app_is_loaded:
  assumes "conversion h io f flow (dk, e) = (None, dk')" and "load_env io f dk' e = (None, e')"
    and "af_complete flow (af_code flow) = Inr (st, cfg)"
    and "\<forall>(k, v)\<in>set (app_env cfg). getenv e k = [] \<and> v \<noteq> [] \<and> visible_text v"
    and "io WriteOp f = None" and "io StatOp (app_priv_key_file h e) = None"
    and "app_priv_key_file h e' = app_priv_key_file h e" and "app_priv_key_file h e \<notin> {f, backup f}"
  shows "e' ''QUICKFEED_APP_ID'' = Some (show_int (ac_ID cfg)) \<and> e' ''QUICKFEED_APP_URL'' = Some (ac_HTMLURL cfg) \<and>
    e' ''QUICKFEED_CLIENT_ID'' = Some (ac_ClientID cfg) \<and> e' ''QUICKFEED_CLIENT_SECRET'' = Some (ac_ClientSecret cfg) \<and>
    e' ''QUICKFEED_WEBHOOK_SECRET'' = Some (ac_WebhookSecret cfg) \<and> dk' (app_priv_key_file h e') = Some (ac_PEM cfg) \<and>
    \<not> needs_app_creation h io e' dk'"
proof -
  from assms(1,3) obtain dk1 where w: "write_file io (app_priv_key_file h e) (ac_PEM cfg) dk = (None, dk1)"
    and s: "save_env io f (app_env cfg) dk1 = (None, dk')"
    by (auto simp: conversion_def split: if_splits prod.splits option.splits)
  have plain: "\<forall>(k, v)\<in>set (app_env cfg). plain_key k \<and> plain_value v"
    using assms(4) app_env_keys(1) [of cfg] visible_plain by (fastforce simp: list_all_iff)
  have vars: "e' k = Some v" if "(k, v) \<in> set (app_env cfg)" for k v
    using saved_key_loaded [OF plain app_env_keys(2) s assms(5,2) that] assms(4) that by auto
  have key: "dk' (app_priv_key_file h e') = Some (ac_PEM cfg)"
    using save_env_others [OF s] write_file_ok [OF w] assms(7,8) by simp
  have "check_app_data h io e' dk' = []"
    using vars assms(4,6,7) key by (auto simp: check_app_data_nil app_env_def getenv_def file_exists_def)
  moreover have "\<forall>(k, v)\<in>set (app_env cfg). e' k = Some v" using vars by auto
  ultimately show ?thesis using key by (simp add: needs_app_creation_iff app_env_def)
qed

text \<open>A variable that is set keeps its value, so part of the old app is mixed with the new one.\<close>

lemma old_setting_stays:
  assumes "getenv e k \<noteq> []" and "load_env io f dk e = (r, e')"
  shows "getenv e' k = getenv e k"
  using load_env_keeps [OF assms(1), of io f dk] assms(2) by simp

lemma split_on_chars: "w \<in> set (split_on d s) \<Longrightarrow> set w \<subseteq> set s"
proof -
  assume w: "w \<in> set (split_on d s)"
  have "set w \<subseteq> set (join_on [d] ws)" if "w \<in> set ws" for ws
    using that by (induction "[d]" ws rule: join_on.induct) auto
  from this [OF w] show ?thesis by simp
qed

lemma whitelist_domains_ok:
  "whitelist_domains h ds = Inr ds' \<Longrightarrow> ds' = filter (\<lambda>d. d \<noteq> []) ds \<and> (\<forall>d\<in>set ds'. \<not> is_local h d)"
  by (induction ds arbitrary: ds') (auto simp: bind_res_Inr_iff split: if_splits)

text \<open>The list of domains for which the server asks for certificates is not empty, and each entry is a name without blanks
  and commas that is not local; what is listed is exactly what the variable lists between commas.\<close>

lemma whitelist_public:
  assumes "whitelist h e = Inr ds"
  shows "ds \<noteq> [] \<and> (\<forall>d\<in>set ds. d \<noteq> [] \<and> CHR '' '' \<notin> set d \<and> CHR '','' \<notin> set d \<and> \<not> is_local h d) \<and>
    ds = filter (\<lambda>d. d \<noteq> []) (split_on (CHR '','') (filter (\<lambda>c. c \<noteq> CHR '' '') (getenv e ''QUICKFEED_WHITELIST'')))"
proof -
  let ?parts = "split_on (CHR '','') (filter (\<lambda>c. c \<noteq> CHR '' '') (getenv e ''QUICKFEED_WHITELIST''))"
  from assms have ds: "whitelist_domains h ?parts = Inr ds" "ds \<noteq> []"
    by (auto simp: whitelist_def Let_def bind_res_Inr_iff split: if_splits)
  have "CHR '' '' \<notin> set d \<and> CHR '','' \<notin> set d" if "d \<in> set ?parts" for d
    using that split_on_no_sep [OF that] split_on_chars [OF that] by auto
  with whitelist_domains_ok [OF ds(1)] ds(2) show ?thesis by auto
qed


section \<open>Concrete starts\<close>

definition sample_host :: host where
  "sample_host = \<lparr>ho_home = Some ''/home/qf'', ho_root = ''/qf'', ho_provider = ''github'',
     ho_lookup = (\<lambda>d. if d = ''localhost'' then Some [(True, False)] else Some [(False, False)])\<rparr>"

text \<open>Addresses are looked for before the blanks are removed, so an address with a blank in it gets through.\<close>

lemma whitelist_of_address:
  "whitelist sample_host [''QUICKFEED_WHITELIST'' \<mapsto> ''8. 8.8.8''] = Inr [''8.8.8.8''] \<and> has_ip ''8.8.8.8''"
  by code_simp

lemma whitelist_public_witness:
  "\<exists>ds. whitelist sample_host [''QUICKFEED_WHITELIST'' \<mapsto> ''uis.itest.run, ,qf.no''] = Inr ds \<and>
     ds = [''uis.itest.run'', ''qf.no''] \<and> (\<forall>d\<in>set ds. d \<noteq> [] \<and> \<not> is_local sample_host d)"
proof -
  have run: "whitelist sample_host [''QUICKFEED_WHITELIST'' \<mapsto> ''uis.itest.run, ,qf.no''] = Inr [''uis.itest.run'', ''qf.no'']"
    by code_simp
  from whitelist_public [OF this] have "\<forall>d\<in>set [''uis.itest.run'', ''qf.no'']. d \<noteq> [] \<and> \<not> is_local sample_host d"
    by blast
  with run show ?thesis by blast
qed

definition sample_app :: app_config where
  "sample_app = \<lparr>ac_ID = 42, ac_HTMLURL = ''https://github.com/apps/qf'', ac_ClientID = ''id1'', ac_ClientSecret = ''s1'',
     ac_WebhookSecret = ''w1'', ac_PEM = ''key''\<rparr>"

definition sample_flow :: app_flow where
  "sample_flow = \<lparr>af_code = ''code'', af_complete = (\<lambda>c. Inr (201, sample_app)), af_mkdir = None, af_page = None, af_build = None,
     af_shutdown = None\<rparr>"

definition app_disk :: disk where
  "app_disk = [''.env'' \<mapsto> []]"

definition app_vars :: environ where
  "app_vars = [''QUICKFEED_APP_KEY'' \<mapsto> ''key.pem'', ''QUICKFEED_CLIENT_ID'' \<mapsto> ''id1'', ''QUICKFEED_CLIENT_SECRET'' \<mapsto> ''s1'',
     ''QUICKFEED_APP_ID'' \<mapsto> ''42'', ''QUICKFEED_APP_URL'' \<mapsto> ''url'', authSecret \<mapsto> ''old'', ''DOMAIN'' \<mapsto> ''qf.no'']"

lemma load_empty: "dk f = Some [] \<Longrightarrow> load_env no_faults f dk e = (None, e)"
  by (simp add: load_env_def read_file_def no_faults_def scan_lines_def)

lemma started_is_configured_witness:
  "\<exists>dk e. start_server sample_host no_faults (\<lambda>_ dk. (None, dk)) (\<lambda>_. None) False ''.env'' ''new'' False sample_flow None []
      (app_disk(''key.pem'' \<mapsto> ''key''), app_vars) = Inr (dk, e) \<and> auth_secret e \<noteq> [] \<and> getenv e ''QUICKFEED_CLIENT_ID'' \<noteq> []"
proof -
  let ?dk = "app_disk(''key.pem'' \<mapsto> ''key'')"
  have "check_app_data sample_host no_faults app_vars ?dk = []"
    by (simp add: check_app_data_nil app_priv_key_file_def env_or_def getenv_def app_vars_def file_exists_def no_faults_def authSecret_def)
  moreover have "ensure_ready sample_host no_faults (\<lambda>_ dk. (None, dk)) (\<lambda>_. None) False ''.env'' ''new'' False (?dk, app_vars) =
      (None, ?dk, app_vars)"
    by (simp add: ensure_ready_def ensure_auth_secret_def auth_secret_def getenv_def app_vars_def authSecret_def validate_domain_def
        is_domain_local_def env_domain_def env_or_def is_local_def sample_host_def)
  ultimately have run: "start_server sample_host no_faults (\<lambda>_ dk. (None, dk)) (\<lambda>_. None) False ''.env'' ''new'' False sample_flow None []
      (?dk, app_vars) = Inr (?dk, app_vars)"
    by (simp add: start_server_def load_empty app_disk_def needs_app_creation_iff)
  have "plain_value ''new''" by code_simp
  from started_is_configured [OF run this] run show ?thesis by (auto simp: no_faults_def)
qed

lemma sample_app_lines:
  "saved_lines [] (app_env sample_app) = [[], ''QUICKFEED_APP_ID=42'', ''QUICKFEED_APP_URL=https://github.com/apps/qf'',
     ''QUICKFEED_CLIENT_ID=id1'', ''QUICKFEED_CLIENT_SECRET=s1'', ''QUICKFEED_WEBHOOK_SECRET=w1'']"
  by code_simp

lemma created_app_is_loaded_witness:
  "\<exists>dk' e'. conversion sample_host no_faults ''.env'' sample_flow (app_disk, [''QUICKFEED_APP_KEY'' \<mapsto> ''key.pem'']) = (None, dk') \<and>
     load_env no_faults ''.env'' dk' [''QUICKFEED_APP_KEY'' \<mapsto> ''key.pem''] = (None, e') \<and>
     e' ''QUICKFEED_CLIENT_ID'' = Some ''id1'' \<and> \<not> needs_app_creation sample_host no_faults e' dk'"
proof -
  let ?e = "[''QUICKFEED_APP_KEY'' \<mapsto> ''key.pem'']"
  let ?dk = "app_disk(''key.pem'' \<mapsto> ''key'')"
  have key: "app_priv_key_file sample_host ?e = ''key.pem''" by (simp add: app_priv_key_file_def env_or_def getenv_def)
  obtain dk' where s: "save_env no_faults ''.env'' (app_env sample_app) ?dk = (None, dk')"
    by (simp add: save_env_def update_file_def no_faults_def file_exists_def app_disk_def backup_def Let_def)
  then have conv: "conversion sample_host no_faults ''.env'' sample_flow (app_disk, ?e) = (None, dk')"
    using key by (simp add: conversion_def sample_flow_def sample_app_def write_file_def no_faults_def)
  have plain: "\<forall>(k, v)\<in>set (app_env sample_app). getenv ?e k = [] \<and> v \<noteq> [] \<and> visible_text v" by code_simp
  then have "\<forall>(k, v)\<in>set (app_env sample_app). plain_key k \<and> plain_value v"
    using app_env_keys(1) [of sample_app] visible_plain by (fastforce simp: list_all_iff)
  from saved_scan [OF this app_env_keys(2) s, of ?e]
  have "load_env no_faults ''.env'' dk' ?e = load_lines (saved_lines [] (app_env sample_app)) ?e"
    by (simp add: no_faults_def load_content_def read_file_def app_disk_def)
  moreover have "fst (load_lines (saved_lines [] (app_env sample_app)) ?e) = None"
    by (simp add: load_lines_None sample_app_lines maxScanTokenSize_def)
  ultimately obtain e' where load: "load_env no_faults ''.env'' dk' ?e = (None, e')"
    by (cases "load_lines (saved_lines [] (app_env sample_app)) ?e") simp
  have "getenv e' ''QUICKFEED_APP_KEY'' = ''key.pem''" using old_setting_stays [OF _ load, of "''QUICKFEED_APP_KEY''"] by (simp add: getenv_def)
  then have "app_priv_key_file sample_host e' = app_priv_key_file sample_host ?e"
    using key by (simp add: app_priv_key_file_def env_or_def)
  from created_app_is_loaded [OF conv load _ plain _ _ this] key
  show ?thesis using conv load by (auto simp: no_faults_def sample_flow_def backup_def app_env_def sample_app_def)
qed

end
