(* ===== verification/App_Tokens.thy ===== *)
theory App_Tokens
  imports Run_Script
begin

text \<open>
  Access to GitHub as an app: the tokens of an installation and the exchange of user tokens (\<open>scm/github_app.go\<close>), the
  clients that the manager keeps (\<open>scm/manager.go\<close>) and the clone of a repository with such a token (\<open>scm/fetcher.go\<close>).
  The HTTP clients, the JSON decoder and go-git are arguments; a response is its status and its body, which may fail to
  be read.
\<close>

section \<open>The token of an installation\<close>

type_synonym http_answer = "string + (nat \<times> (string + string))"

text \<open>\<open>tc_Client\<close> sends the request with the token URL, \<open>tc_decode\<close> reads the token and its end from the body.\<close>

record token_config =
  tc_Client :: "string \<Rightarrow> http_answer"
  tc_decode :: "string \<Rightarrow> string + (string \<times> time)"

record app_token =
  at_tokenURL :: string
  at_token :: string
  at_expiresAt :: "time option"

text \<open>The zero time, before all others, is \<open>None\<close>.\<close>

definition new_app_token_manager :: "int \<Rightarrow> app_token" where
  "new_app_token_manager installationID =
     \<lparr>at_tokenURL = ''https://api.github.com/app/installations/'' @ show_int installationID @ ''/access_tokens'',
      at_token = [], at_expiresAt = None\<rparr>"

definition request_new_token :: "token_config option \<Rightarrow> app_token \<Rightarrow> string + string" where
  "request_new_token cfg m =
     (case cfg of
        None \<Rightarrow> Inl ''cannot refresh token without config''
      | Some c \<Rightarrow>
          (case tc_Client c (at_tokenURL m) of
             Inl e \<Rightarrow> Inl e
           | Inr (st, Inl e) \<Rightarrow> Inl e
           | Inr (st, Inr body) \<Rightarrow>
               if st < 200 \<or> 300 \<le> st then Inl (''failed to fetch installation access token: '' @ body) else Inr body))"

definition minute :: duration where "minute = 60 * 1000000000"

definition token_valid :: "time \<Rightarrow> app_token \<Rightarrow> bool" where
  "token_valid now m \<longleftrightarrow> at_token m \<noteq> [] \<and> (case at_expiresAt m of None \<Rightarrow> False | Some t \<Rightarrow> now < t)"

definition get_app_token :: "token_config option \<Rightarrow> time \<Rightarrow> app_token \<Rightarrow> (string + string) \<times> app_token" where
  "get_app_token cfg now m =
     (if token_valid now m then (Inr (at_token m), m)
      else case request_new_token cfg m of
             Inl e \<Rightarrow> (Inl e, m)
           | Inr body \<Rightarrow>
               (case (case cfg of None \<Rightarrow> Inl [] | Some c \<Rightarrow> tc_decode c body) of
                  Inl e \<Rightarrow> (Inl e, m)
                | Inr (token, expires) \<Rightarrow> (Inr token, m\<lparr>at_token := token, at_expiresAt := Some (expires - minute)\<rparr>)))"

section \<open>The installation of an organization\<close>

record installation =
  in_ID :: int
  in_Login :: string

text \<open>The list of installations that one request gives; the status of the response is not looked at.\<close>

definition fetch_installation ::
    "(string \<Rightarrow> http_answer) \<Rightarrow> (string \<Rightarrow> string + installation list) \<Rightarrow> string \<Rightarrow> string + installation" where
  "fetch_installation get_url decode organization =
     (case get_url ''https://api.github.com/app/installations'' of
        Inl e \<Rightarrow> Inl (''error fetching GitHub app installation for organization '' @ organization @ '': '' @ e)
      | Inr (st, Inl e) \<Rightarrow> Inl (''error reading installation response: '' @ e)
      | Inr (st, Inr body) \<Rightarrow>
          (case decode body of
             Inl e \<Rightarrow> Inl (''error unmarshalling installation response: '' @ body @ '': '' @ e)
           | Inr is \<Rightarrow>
               (case find (\<lambda>i. in_Login i = organization) is of
                  Some i \<Rightarrow> Inr i
                | None \<Rightarrow> Inl (''could not find GitHub app installation for organization '' @ organization))))"

text \<open>\<open>configure\<close> is the configuration of the HTTP client for an installation, by its number in decimal.\<close>

record app_client =
  cl_installation :: int
  cl_tokens :: app_token
  cl_providerURL :: string

definition new_github_app_client ::
    "(string \<Rightarrow> http_answer) \<Rightarrow> (string \<Rightarrow> string + installation list) \<Rightarrow> (string \<Rightarrow> string option) \<Rightarrow> string \<Rightarrow> string + app_client" where
  "new_github_app_client get_url decode configure organization =
     bind_res (fetch_installation get_url decode organization) (\<lambda>i.
       case configure (show_int (in_ID i)) of
         Some e \<Rightarrow> Inl (''error configuring github client for installation: '' @ e)
       | None \<Rightarrow> Inr \<lparr>cl_installation = in_ID i, cl_tokens = new_app_token_manager (in_ID i), cl_providerURL = ''https://github.com''\<rparr>)"

section \<open>Tokens of users\<close>

record exchange_token =
  xt_AccessToken :: string
  xt_RefreshToken :: string

record exchange_config =
  xc_ClientID :: string
  xc_ClientSecret :: string
  xc_PostForm :: "(string \<times> string) list \<Rightarrow> string + (nat \<times> (string + exchange_token))"

definition exchange_form :: "exchange_config \<Rightarrow> string \<Rightarrow> (string \<times> string) list" where
  "exchange_form c refreshToken =
     [(''client_id'', xc_ClientID c), (''client_secret'', xc_ClientSecret c), (''refresh_token'', refreshToken),
      (''grant_type'', ''refresh_token'')]"

definition exchange_refresh_token :: "exchange_config option \<Rightarrow> string \<Rightarrow> string + exchange_token" where
  "exchange_refresh_token cfg refreshToken =
     (case cfg of
        None \<Rightarrow> Inl ''cannot exchange refresh token without config''
      | Some c \<Rightarrow>
          (case xc_PostForm c (exchange_form c refreshToken) of
             Inl e \<Rightarrow> Inl e
           | Inr (st, r) \<Rightarrow>
               if st \<noteq> 200 then Inl ''failed to get access token''
               else (case r of
                       Inl e \<Rightarrow> Inl e
                     | Inr t \<Rightarrow> if xt_AccessToken t = [] \<or> xt_RefreshToken t = [] then Inl ''tokens are empty'' else Inr t)))"

definition exchange_and_update_token :: "(string \<Rightarrow> string + exchange_token) \<Rightarrow> user \<Rightarrow> (string + string) \<times> user" where
  "exchange_and_update_token exchangeTokenFn usr =
     (case exchangeTokenFn (u_RefreshToken usr) of
        Inl e \<Rightarrow> (Inl (''failed to exchange token for user '' @ u_Login usr @ '': '' @ e), usr)
      | Inr t \<Rightarrow> (Inr (xt_AccessToken t), update_refresh_token (xt_RefreshToken t) usr))"

section \<open>The clients of the manager\<close>

definition get_scm :: "string \<Rightarrow> (string \<rightharpoonup> 'c) \<Rightarrow> 'c option" where
  "get_scm organization scms = scms organization"

text \<open>
  \<open>GetOrCreateSCM\<close> holds the mutex twice, for the lookup and for the entry; between them other calls may run, which
  \<open>meanwhile\<close> stands for.
\<close>

definition get_or_create_scm ::
    "(string \<Rightarrow> string + 'c) \<Rightarrow> ((string \<rightharpoonup> 'c) \<Rightarrow> (string \<rightharpoonup> 'c)) \<Rightarrow> string \<Rightarrow> (string \<rightharpoonup> 'c) \<Rightarrow> (string + 'c) \<times> (string \<rightharpoonup> 'c)" where
  "get_or_create_scm newSCMAppClient meanwhile organization scms =
     (case scms organization of
        Some client \<Rightarrow> (Inr client, scms)
      | None \<Rightarrow>
          (case newSCMAppClient organization of
             Inl e \<Rightarrow> (Inl (''failed to create github application for '' @ organization @ '': '' @ e), meanwhile scms)
           | Inr client \<Rightarrow> (Inr client, (meanwhile scms)(organization \<mapsto> client))))"

section \<open>Cloning\<close>

datatype git_open = Opened | RepositoryNotExists | OpenFailed string
datatype git_pull = Pulled | AlreadyUpToDate | PullFailed string

text \<open>go-git: opening a directory, the worktree and the pull in it with a token, and a clone from a URL.\<close>

record git =
  gt_open :: "string \<Rightarrow> git_open"
  gt_worktree :: "string \<Rightarrow> string option"
  gt_pull :: "string \<Rightarrow> string \<Rightarrow> git_pull"
  gt_clone :: "string \<Rightarrow> string \<Rightarrow> string \<Rightarrow> string \<Rightarrow> string option"

definition clone_url :: "app_client \<Rightarrow> clone_options \<Rightarrow> string" where
  "clone_url c opt = join_on ''/'' [cl_providerURL c, co_Organization opt, co_Repository opt]"

definition branch_reference :: "string \<Rightarrow> string" where
  "branch_reference branch = (if branch = [] then [] else ''refs/heads/'' @ branch)"

definition scm_clone :: "git \<Rightarrow> token_config option \<Rightarrow> time \<Rightarrow> clone_options \<Rightarrow> app_client \<Rightarrow> (string + string) \<times> app_client" where
  "scm_clone g cfg now opt c =
     (case get_app_token cfg now (cl_tokens c) of
        (Inl e, m) \<Rightarrow> (Inl e, c\<lparr>cl_tokens := m\<rparr>)
      | (Inr token, m) \<Rightarrow>
          (let cloneDir = path_join [co_DestDir opt, co_Repository opt]
           in (case gt_open g cloneDir of
                 Opened \<Rightarrow>
                   (case gt_worktree g cloneDir of
                      Some e \<Rightarrow> Inl e
                    | None \<Rightarrow> (case gt_pull g cloneDir token of PullFailed e \<Rightarrow> Inl e | _ \<Rightarrow> Inr cloneDir))
               | OpenFailed e \<Rightarrow> Inl e
               | RepositoryNotExists \<Rightarrow>
                   (case gt_clone g (clone_url c opt) cloneDir token (branch_reference (co_Branch opt)) of
                      Some e \<Rightarrow> Inl e
                    | None \<Rightarrow> Inr cloneDir), c\<lparr>cl_tokens := m\<rparr>)))"

section \<open>A token is never used near its end\<close>

text \<open>A call of \<open>Token\<close>: the time, and what GitHub answers if it is asked.  The calls follow each other, under the mutex.\<close>

fun token_calls_run :: "(time \<times> token_config option) list \<Rightarrow> app_token \<Rightarrow> (string + string) list \<times> app_token" where
  "token_calls_run [] m = ([], m)"
| "token_calls_run ((now, cfg) # calls) m =
     (let (r, m) = get_app_token cfg now m; (rs, m) = token_calls_run calls m in (r # rs, m))"

definition granted_at :: "string \<Rightarrow> time \<times> token_config option \<Rightarrow> string \<Rightarrow> time \<Rightarrow> bool" where
  "granted_at url call token expires \<longleftrightarrow>
     (\<exists>c body st. snd call = Some c \<and> tc_Client c url = Inr (st, Inr body) \<and> 200 \<le> st \<and> st < 300 \<and> tc_decode c body = Inr (token, expires))"

text \<open>The token in the manager was granted by one of the calls so far.\<close>

definition tokens_ok :: "(time \<times> token_config option) list \<Rightarrow> app_token \<Rightarrow> bool" where
  "tokens_ok past m \<longleftrightarrow>
     (\<forall>t. at_expiresAt m = Some t \<longrightarrow> (\<exists>call\<in>set past. granted_at (at_tokenURL m) call (at_token m) (t + minute)))"

lemma app_token_cases:
  assumes "get_app_token cfg now m = (r, m')"
  shows "at_tokenURL m' = at_tokenURL m \<and>
    (m' = m \<and> (\<forall>token. r = Inr token \<longrightarrow> token = at_token m \<and> token_valid now m) \<or>
     (\<exists>token expires. granted_at (at_tokenURL m) (now, cfg) token expires \<and> r = Inr token \<and>
        m' = m\<lparr>at_token := token, at_expiresAt := Some (expires - minute)\<rparr>))"
  using assms
  by (auto simp: get_app_token_def request_new_token_def granted_at_def split: if_splits sum.splits option.splits prod.splits)

lemma app_token_ok:
  assumes "get_app_token cfg now m = (r, m')" and "tokens_ok past m"
  shows "tokens_ok (past @ [(now, cfg)]) m' \<and>
    (\<forall>token. r = Inr token \<longrightarrow> granted_at (at_tokenURL m) (now, cfg) token (the (at_expiresAt m') + minute) \<or>
       (\<exists>call\<in>set past. \<exists>expires. granted_at (at_tokenURL m) call token expires \<and> now < expires - minute))"
  using app_token_cases [OF assms(1)] assms(2)
  by (fastforce simp: tokens_ok_def token_valid_def split: option.splits)

lemma token_calls_ok:
  assumes "token_calls_run calls m = (rs, m')" and "tokens_ok past m" and "i < length calls" and "rs ! i = Inr token"
  shows "(\<exists>expires. granted_at (at_tokenURL m) (calls ! i) token expires) \<or>
    (\<exists>call\<in>set (past @ take i calls). \<exists>expires. granted_at (at_tokenURL m) call token expires \<and> fst (calls ! i) < expires - minute)"
  using assms
proof (induction calls arbitrary: m rs past i)
  case (Cons call calls)
  obtain now cfg where c: "call = (now, cfg)" by (cases call)
  obtain r m1 where r: "get_app_token cfg now m = (r, m1)" by fastforce
  obtain rs1 where rs: "token_calls_run calls m1 = (rs1, m')" "rs = r # rs1"
    using Cons.prems(1) r by (auto simp: c split: prod.splits)
  note ok = app_token_ok [OF r Cons.prems(2)]
  have url: "at_tokenURL m1 = at_tokenURL m" using app_token_cases [OF r] by blast
  show ?case
  proof (cases i)
    case 0
    with ok Cons.prems(4) rs(2) c show ?thesis by fastforce
  next
    case (Suc k)
    with Cons.IH [OF rs(1) conjunct1 [OF ok], of k] Cons.prems(3,4) rs(2) c url show ?thesis by simp
  qed
qed simp

text \<open>C23: Every installation token that is handed out was granted by GitHub for this installation: now, or by an earlier call
  with an end that is more than a minute away; whatever else failed between.\<close>

theorem installation_token_fresh:
  assumes "token_calls_run calls (new_app_token_manager installationID) = (rs, m)" and "i < length calls" and "rs ! i = Inr token"
  shows "\<exists>j\<le>i. \<exists>expires. granted_at (at_tokenURL (new_app_token_manager installationID)) (calls ! j) token expires \<and>
    (j = i \<or> fst (calls ! i) < expires - minute)"
proof -
  have "tokens_ok [] (new_app_token_manager installationID)" by (simp add: tokens_ok_def new_app_token_manager_def)
  from token_calls_ok [OF assms(1) this assms(2,3)] show ?thesis
    by (auto simp: in_set_conv_nth) (metis less_imp_le order_refl)+
qed

text \<open>The manager gives an organization the client it was given first, as long as no other call stores another one.\<close>

lemma scm_is_kept:
  assumes "get_or_create_scm new id organization scms = (Inr c, scms')"
  shows "get_or_create_scm new' meanwhile organization scms' = (Inr c, scms') \<and> (\<forall>o'. o' \<noteq> organization \<longrightarrow> scms' o' = scms o')"
  using assms by (auto simp: get_or_create_scm_def split: option.splits sum.splits)

text \<open>Two calls for a new organization at the same time get clients of their own, and the manager keeps the one stored last.\<close>

lemma two_clients:
  assumes "scms organization = None" and "new1 organization = Inr c1" and "new2 organization = Inr c2"
  shows "get_or_create_scm new1 (\<lambda>s. snd (get_or_create_scm new2 id organization s)) organization scms =
    (Inr c1, scms(organization \<mapsto> c1)) \<and> fst (get_or_create_scm new2 id organization scms) = Inr c2"
  using assms by (simp add: get_or_create_scm_def)

definition sample_answer :: "string \<Rightarrow> time \<Rightarrow> token_config option" where
  "sample_answer t expires = Some \<lparr>tc_Client = \<lambda>_. Inr (201, Inr t), tc_decode = \<lambda>b. Inr (b, expires)\<rparr>"

definition sample_calls :: "(time \<times> token_config option) list" where
  "sample_calls = [(0, sample_answer ''t1'' (3600 * 1000000000)), (5, None), (3599 * 1000000000, sample_answer ''t2'' (7200 * 1000000000))]"

lemma installation_token_fresh_witness:
  "fst (token_calls_run sample_calls (new_app_token_manager 9)) = [Inr ''t1'', Inr ''t1'', Inr ''t2''] \<and>
   (\<exists>j\<le>1. \<exists>expires. granted_at (at_tokenURL (new_app_token_manager 9)) (sample_calls ! j) ''t1'' expires \<and>
      (j = 1 \<or> fst (sample_calls ! 1) < expires - minute))"
proof -
  have run: "fst (token_calls_run sample_calls (new_app_token_manager 9)) = [Inr ''t1'', Inr ''t1'', Inr ''t2'']"
    by (simp add: sample_calls_def get_app_token_def token_valid_def new_app_token_manager_def request_new_token_def sample_answer_def minute_def)
  obtain rs m where rs: "token_calls_run sample_calls (new_app_token_manager 9) = (rs, m)" by fastforce
  have "1 < length sample_calls" by (simp add: sample_calls_def)
  from installation_token_fresh [OF rs this, of "''t1''"] run rs show ?thesis by simp
qed

end
